(* ===== verification/Prelude.thy ===== *)
theory Prelude
  imports Main "HOL-Library.Word" "HOL-Library.AList" "HOL-Library.Code_Target_Numeral"
begin

text \<open>
  The base of the library: Go's errors as values of one datatype, fallible results as a sum,
  Go's clock (\<open>time.Time\<close>, \<open>time.Duration\<close>) as integers of nanoseconds, and the generic
  lemmas on results, lists and association lists the components share.
  Byte slices and strings are both \<^typ>\<open>string\<close>: a Go string is a sequence of bytes, and a
  \<^typ>\<open>char\<close> is one byte.
\<close>

section \<open>Errors and results\<close>

text \<open>
  A Go error is a sentinel, a fresh message (\<open>errors.New\<close>, \<open>fmt.Errorf\<close> without \<open>%w\<close>) or a
  message wrapped around another error (\<open>fmt.Errorf\<close> with \<open>%w\<close>), or several joined (\<open>errors.Join\<close>). Messages are kept as short
  tags: the values that the source interpolates into them are dropped, since nothing in the
  program reads them back. What the program does read back is the chain: \<open>errors.Is\<close>.
\<close>

datatype error =
    ErrNotExist
  | ErrNotFound
  | ErrReadOnly
  | ErrAuth
  | ErrForbidden
  | ErrMalformedMarkers
  | ErrSymlink
  | Err string
  | Wrap string error
  | Join "error list"

type_synonym 'a res = "error + 'a"
type_synonym bytes = string
type_synonym u8 = "8 word"
type_synonym u16 = "16 word"
type_synonym u32 = "32 word"
type_synonym u64 = "64 word"

primrec errors_Is :: "error \<Rightarrow> error \<Rightarrow> bool" where
  "errors_Is ErrNotExist t = (t = ErrNotExist)"
| "errors_Is ErrNotFound t = (t = ErrNotFound)"
| "errors_Is ErrReadOnly t = (t = ErrReadOnly)"
| "errors_Is ErrAuth t = (t = ErrAuth)"
| "errors_Is ErrForbidden t = (t = ErrForbidden)"
| "errors_Is ErrMalformedMarkers t = (t = ErrMalformedMarkers)"
| "errors_Is ErrSymlink t = (t = ErrSymlink)"
| "errors_Is (Err m) t = (t = Err m)"
| "errors_Is (Wrap m e) t = (t = Wrap m e \<or> errors_Is e t)"
| "errors_Is (Join es) t = (t = Join es \<or> list_ex (\<lambda>f. f t) (map errors_Is es))"

text \<open>Sequencing: run the first step, stop at its error, or go on with its value.\<close>

definition bindR :: "'a res \<Rightarrow> ('a \<Rightarrow> 'b res) \<Rightarrow> 'b res" where
  "bindR m f = (case m of Inl e \<Rightarrow> Inl e | Inr x \<Rightarrow> f x)"

text \<open>\<open>if err != nil { return fmt.Errorf(msg, err) }\<close>: the error is wrapped on the way out.\<close>

definition wrapR :: "string \<Rightarrow> 'a res \<Rightarrow> 'a res" where
  "wrapR msg m = (case m of Inl e \<Rightarrow> Inl (Wrap msg e) | Inr x \<Rightarrow> Inr x)"

definition is_ok :: "'a res \<Rightarrow> bool" where
  "is_ok m = (case m of Inl _ \<Rightarrow> False | Inr _ \<Rightarrow> True)"

named_theorems go_defs \<open>definitions of small helpers that proofs unfold\<close>
named_theorems go_lib \<open>facts on Go's library functions\<close>

lemma bindR_simps [simp]:
  "bindR (Inl e) f = Inl e"
  "bindR (Inr x) f = f x"
  by (simp_all add: bindR_def)

lemma bindR_eq_Inr [simp]: "bindR m f = Inr y \<longleftrightarrow> (\<exists>x. m = Inr x \<and> f x = Inr y)"
  by (cases m) auto

lemma bindR_eq_Inl: "bindR m f = Inl e \<longleftrightarrow> m = Inl e \<or> (\<exists>x. m = Inr x \<and> f x = Inl e)"
  by (cases m) auto

lemma wrapR_simps [simp]:
  "wrapR msg (Inl e) = Inl (Wrap msg e)"
  "wrapR msg (Inr x) = Inr x"
  by (simp_all add: wrapR_def)

lemma wrapR_eq_Inr [simp]: "wrapR msg m = Inr x \<longleftrightarrow> m = Inr x"
  by (cases m) auto

lemma is_ok_simps [simp]:
  "\<not> is_ok (Inl e)"
  "is_ok (Inr x)"
  by (simp_all add: is_ok_def)

lemma is_ok_iff: "is_ok m \<longleftrightarrow> (\<exists>x. m = Inr x)"
  by (cases m) auto

lemma errors_Is_refl [simp]: "errors_Is e e"
  by (cases e) auto

section \<open>Time\<close>

text \<open>
  \<open>time.Time\<close> is the number of nanoseconds since the zero time (year 1, UTC), so that
  \<open>t.IsZero()\<close> is \<open>t = 0\<close>; \<open>time.Duration\<close> is a signed 64-bit number of nanoseconds.
  \<open>Sub\<close> saturates at the ends of that range, as Go's does.
\<close>

type_synonym gotime = int
type_synonym duration = int

abbreviation second :: duration where "second \<equiv> 1000000000"

definition maxDuration :: duration where "maxDuration = 9223372036854775807"
definition minDuration :: duration where "minDuration = -9223372036854775808"

definition time_Sub :: "gotime \<Rightarrow> gotime \<Rightarrow> duration" where
  "time_Sub t u = max minDuration (min maxDuration (t - u))"

definition time_IsZero :: "gotime \<Rightarrow> bool" where
  "time_IsZero t = (t = 0)"

definition time_Truncate :: "gotime \<Rightarrow> duration \<Rightarrow> gotime" where
  "time_Truncate t d = (if d \<le> 0 then t else t - t mod d)"

lemma time_Sub_less:
  assumes "d \<le> maxDuration" and "minDuration < d"
  shows "time_Sub t u < d \<longleftrightarrow> t - u < d"
  using assms by (auto simp: time_Sub_def minDuration_def maxDuration_def)

lemma time_Sub_gt:
  assumes "d < maxDuration" and "minDuration \<le> d"
  shows "d < time_Sub t u \<longleftrightarrow> d < t - u"
  using assms by (auto simp: time_Sub_def minDuration_def maxDuration_def)

lemma time_Sub_le:
  assumes "d < maxDuration" and "minDuration \<le> d"
  shows "time_Sub t u \<le> d \<longleftrightarrow> t - u \<le> d"
  using time_Sub_gt [OF assms, of t u] by linarith

lemma time_Sub_self [simp]: "time_Sub t t = 0"
  by (simp add: time_Sub_def minDuration_def maxDuration_def)

lemma time_Truncate_le: "0 < d \<Longrightarrow> time_Truncate t d \<le> t \<and> t < time_Truncate t d + d"
proof -
  assume "0 < d"
  then have "0 \<le> t mod d" and "t mod d < d" by simp_all
  then show ?thesis by (simp add: time_Truncate_def)
qed

lemma time_Truncate_idem [simp]: "time_Truncate (time_Truncate t d) d = time_Truncate t d"
  by (simp add: time_Truncate_def mod_diff_left_eq)

section \<open>Lists and association lists\<close>

text \<open>The index of the first occurrence of a value (\<open>IndexByte\<close> and the like).\<close>

fun pos_of :: "'a \<Rightarrow> 'a list \<Rightarrow> nat option" where
  "pos_of x [] = None"
| "pos_of x (y # ys) = (if x = y then Some 0 else map_option Suc (pos_of x ys))"

lemma pos_of_None [simp]: "pos_of x ys = None \<longleftrightarrow> x \<notin> set ys"
  by (induction ys) auto

lemma pos_of_Some: "pos_of x ys = Some i \<Longrightarrow> i < length ys \<and> ys ! i = x \<and> x \<notin> set (take i ys)"
proof (induction ys arbitrary: i)
  case Nil
  then show ?case by simp
next
  case (Cons y ys)
  show ?case
  proof (cases "x = y")
    case True
    with Cons.prems show ?thesis by simp
  next
    case False
    with Cons.prems obtain j where j: "pos_of x ys = Some j" and i: "i = Suc j" by auto
    from Cons.IH [OF j] False i show ?thesis by simp
  qed
qed

lemma pos_of_nth: "distinct ys \<Longrightarrow> i < length ys \<Longrightarrow> pos_of (ys ! i) ys = Some i"
proof (induction ys arbitrary: i)
  case Nil
  then show ?case by simp
next
  case (Cons y ys)
  then show ?case by (cases i) auto
qed

lemma pos_of_append:
  "x \<notin> set xs \<Longrightarrow> pos_of x (xs @ ys) = map_option (\<lambda>i. length xs + i) (pos_of x ys)"
proof (induction xs)
  case Nil
  show ?case by (simp add: option.map_ident)
next
  case (Cons a xs)
  then show ?case by (simp add: option.map_comp comp_def)
qed

lemma distinct_map_neq: "distinct (map f (x # xs)) \<Longrightarrow> y \<in> set xs \<Longrightarrow> f y \<noteq> f x"
  by (metis distinct.simps(2) image_eqI list.set_map list.simps(9))

text \<open>The keys of a Go map kept as an association list.\<close>

definition keys_of :: "('k \<times> 'v) list \<Rightarrow> 'k set" where
  "keys_of m = fst ` set m"

lemma keys_of_simps [simp]:
  "keys_of [] = {}"
  "keys_of (p # m) = insert (fst p) (keys_of m)"
  by (simp_all add: keys_of_def)

lemma keys_of_dom: "keys_of m = dom (map_of m)"
  by (simp add: keys_of_def dom_map_of_conv_image_fst)

lemma keys_of_update [simp]: "keys_of (AList.update k v m) = insert k (keys_of m)"
  by (induction m) auto

lemma map_of_update [simp]: "map_of (AList.update k v m) = (map_of m)(k \<mapsto> v)"
  by (simp add: update_conv')

lemma map_of_None_keys_of: "map_of m k = None \<longleftrightarrow> k \<notin> keys_of m"
  by (simp add: keys_of_def map_of_eq_None_iff)

lemma map_of_filter_fst:
  "map_of (filter (\<lambda>p. P (fst p)) m) k = (if P k then map_of m k else None)"
  by (induction m) auto

section \<open>Interfaces shared by several components\<close>

text \<open>A printer and its parser. The printed forms of two values differ when the values do, and
  what the parser returns on a printed form is what was printed.\<close>

locale roundtrip =
  fixes enc :: "'a \<Rightarrow> 'b" and dec :: "'b \<Rightarrow> 'a option" and ok :: "'a \<Rightarrow> bool"
  assumes dec_enc: "ok x \<Longrightarrow> dec (enc x) = Some x"
begin

lemma enc_eq_iff: "ok x \<Longrightarrow> ok y \<Longrightarrow> enc x = enc y \<longleftrightarrow> x = y"
  by (metis dec_enc option.inject)

lemma enc_inj_on: "inj_on enc {x. ok x}"
  by (rule inj_onI) (simp add: enc_eq_iff)

lemma distinct_map_enc: "list_all ok xs \<Longrightarrow> distinct (map enc xs) \<longleftrightarrow> distinct xs"
  by (induction xs) (auto simp: list_all_iff enc_eq_iff)

end

text \<open>A component driven by a sequence of events: \<open>step e s\<close> is the state after event \<open>e\<close>. An
  invariant that holds at the start and that each event keeps holds after every sequence.\<close>

definition run :: "('e \<Rightarrow> 's \<Rightarrow> 's) \<Rightarrow> 'e list \<Rightarrow> 's \<Rightarrow> 's" where
  "run step es s = fold step es s"

lemma run_simps [simp]:
  "run step [] s = s"
  "run step (e # es) s = run step es (step e s)"
  "run step (es @ fs) s = run step fs (run step es s)"
  by (simp_all add: run_def)

locale event_machine =
  fixes step :: "'e \<Rightarrow> 's \<Rightarrow> 's" and inv :: "'s \<Rightarrow> bool" and guard :: "'e \<Rightarrow> bool"
  assumes step_inv: "inv s \<Longrightarrow> guard e \<Longrightarrow> inv (step e s)"
begin

lemma run_inv: "inv s \<Longrightarrow> list_all guard es \<Longrightarrow> inv (run step es s)"
  by (induction es arbitrary: s) (simp_all add: step_inv)

end

text \<open>The same with a measure that no event lowers.\<close>

locale monotone_machine = event_machine +
  fixes mark :: "'b \<Rightarrow> 'm :: order"
  assumes step_mark: "inv s \<Longrightarrow> guard e \<Longrightarrow> mark s \<le> mark (step e s)"
begin

lemma run_mark: "inv s \<Longrightarrow> list_all guard es \<Longrightarrow> mark s \<le> mark (run step es s)"
proof (induction es arbitrary: s)
  case (Cons e es)
  then have "mark s \<le> mark (step e s)" by (simp add: step_mark)
  also have "\<dots> \<le> mark (run step es (step e s))" using Cons by (simp add: step_inv)
  finally show ?case by simp
qed simp

end

end
