(* ===== verification/GoStrings.thy ===== *)
theory GoStrings
  imports Prelude
begin

text \<open>
  The functions of Go's \<open>strings\<close>, \<open>bytes\<close> and \<open>strconv\<close>
  that the program calls, on byte strings. Case mapping and white space are the ASCII ones:
  bytes of 128 and above are left alone and are not white space.
\<close>

section \<open>Characters\<close>

abbreviation code :: "char \<Rightarrow> nat" where "code c \<equiv> of_char c"

abbreviation (input) NL :: char where "NL \<equiv> CHR 0x0A"
abbreviation (input) CR :: char where "CR \<equiv> CHR 0x0D"
abbreviation (input) TAB :: char where "TAB \<equiv> CHR 0x09"

definition is_digit :: "char \<Rightarrow> bool" where
  "is_digit c = (48 \<le> code c \<and> code c \<le> 57)"

definition is_lower :: "char \<Rightarrow> bool" where
  "is_lower c = (97 \<le> code c \<and> code c \<le> 122)"

definition is_upper :: "char \<Rightarrow> bool" where
  "is_upper c = (65 \<le> code c \<and> code c \<le> 90)"

definition is_space :: "char \<Rightarrow> bool" where
  "is_space c = (code c = 32 \<or> (9 \<le> code c \<and> code c \<le> 13))"

definition lowerC :: "char \<Rightarrow> char" where
  "lowerC c = (if is_upper c then char_of (code c + 32) else c)"

definition upperC :: "char \<Rightarrow> char" where
  "upperC c = (if is_lower c then char_of (code c - 32) else c)"

lemma code_lt [simp]: "code c < 256"
  using nat_of_char_less_256 by simp

lemma code_inject: "code c = code d \<longleftrightarrow> c = d"
  by (simp add: of_char_eq_iff)

lemma code_char_of: "n < 256 \<Longrightarrow> code (char_of n) = n"
  by simp

lemma code_lowerC: "code (lowerC c) = (if is_upper c then code c + 32 else code c)"
  by (simp add: lowerC_def is_upper_def)

lemma lowerC_idem [simp]: "lowerC (lowerC c) = lowerC c"
proof -
  have "\<not> is_upper (lowerC c)"
    by (cases "is_upper c") (simp_all add: is_upper_def code_lowerC)
  then show ?thesis by (simp add: lowerC_def [of "lowerC c"])
qed

lemma lowerC_not_upper [simp]: "\<not> is_upper (lowerC c)"
  by (cases "is_upper c") (simp_all add: is_upper_def code_lowerC)

lemma lowerC_fixed_iff: "lowerC c = c \<longleftrightarrow> \<not> is_upper c"
  by (metis lowerC_def lowerC_not_upper)

section \<open>Prefixes, suffixes, trimming\<close>

definition hasPrefix :: "string \<Rightarrow> string \<Rightarrow> bool" where
  "hasPrefix s p = (take (length p) s = p)"

definition hasSuffix :: "string \<Rightarrow> string \<Rightarrow> bool" where
  "hasSuffix s p = (length p \<le> length s \<and> drop (length s - length p) s = p)"

definition trimPrefix :: "string \<Rightarrow> string \<Rightarrow> string" where
  "trimPrefix s p = (if hasPrefix s p then drop (length p) s else s)"

definition trimSuffix :: "string \<Rightarrow> string \<Rightarrow> string" where
  "trimSuffix s p = (if hasSuffix s p then take (length s - length p) s else s)"

definition cutPrefix :: "string \<Rightarrow> string \<Rightarrow> string option" where
  "cutPrefix s p = (if hasPrefix s p then Some (drop (length p) s) else None)"

definition cutSuffix :: "string \<Rightarrow> string \<Rightarrow> string option" where
  "cutSuffix s p = (if hasSuffix s p then Some (take (length s - length p) s) else None)"

definition trimSpace :: "string \<Rightarrow> string" where
  "trimSpace s = rev (dropWhile is_space (rev (dropWhile is_space s)))"

definition toLower :: "string \<Rightarrow> string" where
  "toLower s = map lowerC s"

definition toUpper :: "string \<Rightarrow> string" where
  "toUpper s = map upperC s"

definition equalFold :: "string \<Rightarrow> string \<Rightarrow> bool" where
  "equalFold s t = (toLower s = toLower t)"

definition containsAny :: "string \<Rightarrow> string \<Rightarrow> bool" where
  "containsAny s chars = list_ex (\<lambda>c. c \<in> set chars) s"

lemma hasPrefix_append [simp]: "hasPrefix (p @ s) p"
  by (simp add: hasPrefix_def)

lemma hasPrefix_iff: "hasPrefix s p \<longleftrightarrow> (\<exists>r. s = p @ r)"
  by (metis append_eq_conv_conj append_take_drop_id hasPrefix_append hasPrefix_def)

lemma hasSuffix_append [simp]: "hasSuffix (s @ p) p"
  by (simp add: hasSuffix_def)

lemma hasSuffix_iff: "hasSuffix s p \<longleftrightarrow> (\<exists>r. s = r @ p)"
  by (metis append_take_drop_id hasSuffix_append hasSuffix_def)

lemma trimSuffix_append [simp]: "trimSuffix (s @ p) p = s"
  by (simp add: trimSuffix_def)

lemma trimPrefix_append [simp]: "trimPrefix (p @ s) p = s"
  by (simp add: trimPrefix_def)

lemma cutPrefix_append [simp]: "cutPrefix (p @ s) p = Some s"
  by (simp add: cutPrefix_def)

lemma cutSuffix_append [simp]: "cutSuffix (s @ p) p = Some s"
  by (simp add: cutSuffix_def)

lemma cutPrefix_Some: "cutPrefix s p = Some r \<longleftrightarrow> s = p @ r"
  by (auto simp: cutPrefix_def hasPrefix_iff split: if_splits)

lemma cutSuffix_Some: "cutSuffix s p = Some r \<longleftrightarrow> s = r @ p"
  by (auto simp: cutSuffix_def hasSuffix_iff split: if_splits)

lemma toLower_append [simp]: "toLower (s @ t) = toLower s @ toLower t"
  by (simp add: toLower_def)

lemma toLower_length [simp]: "length (toLower s) = length s"
  by (simp add: toLower_def)

lemma toLower_idem [simp]: "toLower (toLower s) = toLower s"
  by (simp add: toLower_def)

lemma toLower_Nil [simp]: "toLower [] = []"
  by (simp add: toLower_def)

lemma equalFold_refl [simp]: "equalFold s s"
  by (simp add: equalFold_def)

lemma trimSpace_fixed:
  assumes "s \<noteq> []" and "\<not> is_space (hd s)" and "\<not> is_space (last s)"
  shows "trimSpace s = s"
proof -
  have a: "dropWhile is_space s = s"
    using assms(1,2) by (cases s) auto
  have "dropWhile is_space (rev s) = rev s"
    using assms(1,3) by (cases "rev s") (auto simp: last_rev dest: arg_cong [of _ _ rev])
  with a show ?thesis by (simp add: trimSpace_def)
qed

lemma trimSpace_Nil [simp]: "trimSpace [] = []"
  by (simp add: trimSpace_def)

lemma trimSpace_no_space: "list_all (\<lambda>c. \<not> is_space c) s \<Longrightarrow> trimSpace s = s"
  by (cases "s = []") (auto intro!: trimSpace_fixed simp: list_all_iff)

lemma trimSpace_snoc: "is_space c \<Longrightarrow> trimSpace (s @ [c]) = trimSpace s"
proof -
  assume c: "is_space c"
  show ?thesis
  proof (cases "list_all is_space s")
    case True
    then have s: "dropWhile is_space s = []"
      by (simp add: dropWhile_eq_Nil_conv list_all_iff)
    from True c have t: "dropWhile is_space (s @ [c]) = []"
      unfolding dropWhile_eq_Nil_conv by (auto simp: list_all_iff)
    show ?thesis by (simp only: trimSpace_def s t)
  next
    case False
    then obtain x where "x \<in> set s" and "\<not> is_space x" by (auto simp: list_all_iff)
    then have "dropWhile is_space (s @ [c]) = dropWhile is_space s @ [c]"
      by (rule dropWhile_append1)
    with c show ?thesis by (simp add: trimSpace_def)
  qed
qed

section \<open>Splitting and joining\<close>

text \<open>\<open>strings.Split\<close> at a one-byte separator: never empty, and one more piece than separators.\<close>

fun splitOn :: "char \<Rightarrow> string \<Rightarrow> string list" where
  "splitOn c [] = [[]]"
| "splitOn c (x # xs) =
     (if x = c then [] # splitOn c xs
      else (case splitOn c xs of [] \<Rightarrow> [[x]] | p # ps \<Rightarrow> (x # p) # ps))"

text \<open>\<open>strings.Cut\<close>: the pieces around the first separator.\<close>

fun cutOn :: "char \<Rightarrow> string \<Rightarrow> (string \<times> string) option" where
  "cutOn c [] = None"
| "cutOn c (x # xs) =
     (if x = c then Some ([], xs) else map_option (\<lambda>(a, b). (x # a, b)) (cutOn c xs))"

text \<open>\<open>strings.SplitN\<close>: at most \<open>n\<close> pieces, the last one unsplit.\<close>

fun splitN :: "char \<Rightarrow> string \<Rightarrow> nat \<Rightarrow> string list" where
  "splitN c s 0 = []"
| "splitN c s (Suc 0) = [s]"
| "splitN c s (Suc (Suc n)) =
     (case cutOn c s of None \<Rightarrow> [s] | Some (a, b) \<Rightarrow> a # splitN c b (Suc n))"

fun joinWith :: "string \<Rightarrow> string list \<Rightarrow> string" where
  "joinWith sep [] = []"
| "joinWith sep [x] = x"
| "joinWith sep (x # y # ys) = x @ sep @ joinWith sep (y # ys)"

lemma splitOn_nonempty [simp]: "splitOn c s \<noteq> []"
  by (induction s) (auto split: list.splits)

lemma joinWith_Cons: "ys \<noteq> [] \<Longrightarrow> joinWith sep (x # ys) = x @ sep @ joinWith sep ys"
  by (cases ys) auto

lemma joinWith_splitOn: "joinWith [c] (splitOn c s) = s"
proof (induction s)
  case Nil
  then show ?case by simp
next
  case (Cons x xs)
  obtain p ps where ps: "splitOn c xs = p # ps"
    using splitOn_nonempty [of c xs] by (cases "splitOn c xs") auto
  from Cons ps show ?case by (cases ps) auto
qed

lemma splitOn_no_sep: "p \<in> set (splitOn c s) \<Longrightarrow> c \<notin> set p"
proof (induction s arbitrary: p)
  case Nil
  then show ?case by simp
next
  case (Cons x xs)
  then show ?case by (cases "splitOn c xs") (auto split: if_splits)
qed

lemma splitOn_single: "c \<notin> set s \<Longrightarrow> splitOn c s = [s]"
  by (induction s) auto

lemma splitOn_append: "c \<notin> set a \<Longrightarrow> splitOn c (a @ c # b) = a # splitOn c b"
  by (induction a) auto

lemma splitOn_eq_single: "splitOn c s = [p] \<longleftrightarrow> p = s \<and> c \<notin> set s"
proof
  assume a: "splitOn c s = [p]"
  then have "c \<notin> set p" using splitOn_no_sep [of p c s] by simp
  moreover from a have "p = s" using joinWith_splitOn [of c s] by simp
  ultimately show "p = s \<and> c \<notin> set s" by simp
qed (simp add: splitOn_single)

lemma splitOn_joinWith:
  "ps \<noteq> [] \<Longrightarrow> \<forall>p \<in> set ps. c \<notin> set p \<Longrightarrow> splitOn c (joinWith [c] ps) = ps"
proof (induction ps)
  case Nil
  then show ?case by simp
next
  case (Cons p ps)
  then show ?case by (cases ps) (auto simp: splitOn_single splitOn_append)
qed

lemma cutOn_None [simp]: "cutOn c s = None \<longleftrightarrow> c \<notin> set s"
  by (induction s) auto

lemma cutOn_append [simp]: "c \<notin> set a \<Longrightarrow> cutOn c (a @ c # b) = Some (a, b)"
  by (induction a) auto

lemma cutOn_Some: "cutOn c s = Some (a, b) \<Longrightarrow> s = a @ c # b \<and> c \<notin> set a"
  by (induction s arbitrary: a) (auto split: if_splits)

section \<open>Decimal numbers\<close>

definition digitC :: "nat \<Rightarrow> char" where
  "digitC d = char_of (48 + d)"

fun decimal :: "nat \<Rightarrow> string" where
  "decimal n = (if n < 10 then [digitC n] else decimal (n div 10) @ [digitC (n mod 10)])"

declare decimal.simps [simp del]

definition digitsVal :: "string \<Rightarrow> nat" where
  "digitsVal s = foldl (\<lambda>a c. 10 * a + (code c - 48)) 0 s"

text \<open>\<open>strconv.FormatUint(n, 10)\<close> and \<open>strconv.Itoa\<close>.\<close>

definition itoa :: "int \<Rightarrow> string" where
  "itoa i = (if i < 0 then CHR ''-'' # decimal (nat (- i)) else decimal (nat i))"

text \<open>\<open>strconv.ParseUint(s, 10, 64)\<close>: decimal digits only, at most \<open>2^64 - 1\<close>.\<close>

definition parseUint64 :: "string \<Rightarrow> u64 option" where
  "parseUint64 s =
     (if s \<noteq> [] \<and> list_all is_digit s \<and> digitsVal s < 2 ^ 64
      then Some (word_of_nat (digitsVal s)) else None)"

text \<open>\<open>strconv.Atoi\<close>: an optional sign, then digits, in the range of a 64-bit int.\<close>

definition atoi :: "string \<Rightarrow> int option" where
  "atoi s =
     (let neg = (s \<noteq> [] \<and> hd s = CHR ''-'');
          body = (if s \<noteq> [] \<and> (hd s = CHR ''-'' \<or> hd s = CHR ''+'') then tl s else s);
          v = int (digitsVal body)
      in if body = [] \<or> \<not> list_all is_digit body then None
         else if neg then (if v \<le> 2 ^ 63 then Some (- v) else None)
         else (if v < 2 ^ 63 then Some v else None))"

lemma is_digit_digitC: "d < 10 \<Longrightarrow> is_digit (digitC d)"
  by (simp add: digitC_def is_digit_def)

lemma code_digitC: "d < 10 \<Longrightarrow> code (digitC d) = 48 + d"
  by (simp add: digitC_def)

lemma decimal_nonempty [simp]: "decimal n \<noteq> []"
  by (subst decimal.simps) simp

lemma decimal_digits: "list_all is_digit (decimal n)"
proof (induction n rule: decimal.induct)
  case (1 n)
  then show ?case by (subst decimal.simps) (auto simp: is_digit_digitC)
qed

lemma digitsVal_snoc: "digitsVal (s @ [c]) = 10 * digitsVal s + (code c - 48)"
  by (simp add: digitsVal_def)

lemma digitsVal_decimal [simp]: "digitsVal (decimal n) = n"
proof (induction n rule: decimal.induct)
  case (1 n)
  show ?case
  proof (cases "n < 10")
    case True
    then show ?thesis by (subst decimal.simps) (simp add: digitsVal_def code_digitC)
  next
    case False
    with 1 show ?thesis
      by (subst decimal.simps) (simp add: digitsVal_snoc code_digitC)
  qed
qed

lemma decimal_inject: "decimal m = decimal n \<longleftrightarrow> m = n"
  by (metis digitsVal_decimal)

lemma hd_decimal_digit: "is_digit (hd (decimal n))"
  using decimal_digits [of n] by (cases "decimal n") auto

lemma digit_not_sign: "is_digit c \<Longrightarrow> c \<noteq> CHR ''-'' \<and> c \<noteq> CHR ''+''"
  by (auto simp: is_digit_def)

lemma atoi_decimal: "n < 2 ^ 63 \<Longrightarrow> atoi (decimal n) = Some (int n)"
  using digit_not_sign [OF hd_decimal_digit [of n]]
  by (simp add: atoi_def Let_def decimal_digits)

lemma itoa_inject: "itoa a = itoa b \<longleftrightarrow> a = b"
  using hd_decimal_digit [of "nat a"] hd_decimal_digit [of "nat b"] digit_not_sign
  by (auto simp: itoa_def decimal_inject split: if_splits) (metis list.sel(1))+

lemma atoi_itoa: "- (2 ^ 63) \<le> i \<Longrightarrow> i < 2 ^ 63 \<Longrightarrow> atoi (itoa i) = Some i"
  by (auto simp: itoa_def atoi_decimal) (simp add: atoi_def Let_def decimal_digits)

lemma parseUint64_decimal: "n < 2 ^ 64 \<Longrightarrow> parseUint64 (decimal n) = Some (word_of_nat n)"
  by (simp add: parseUint64_def decimal_digits)

lemma parseUint64_format: "parseUint64 (decimal (unat w)) = Some w"
  using unsigned_less [of w, where ?'a = nat] by (simp add: parseUint64_decimal)

lemma digit_not_space: "is_digit c \<Longrightarrow> \<not> is_space c"
  by (auto simp: is_digit_def is_space_def)

lemma trimSpace_decimal [simp]: "trimSpace (decimal n) = decimal n"
  by (rule trimSpace_no_space) (use decimal_digits [of n] in \<open>auto simp: list_all_iff digit_not_space\<close>)

section \<open>Durations as text\<close>

text \<open>\<open>time.Duration.Round\<close>, half away from zero and saturating, negation at 64 bits, and
  \<open>time.Duration.String\<close>.\<close>

definition duration_neg :: "duration \<Rightarrow> duration" where
  "duration_neg d = (if d = minDuration then minDuration else - d)"

definition duration_Round :: "duration \<Rightarrow> duration \<Rightarrow> duration" where
  "duration_Round d m =
     (if m \<le> 0 then d
      else if d < 0 then
        (let r = (- d) mod m
         in if r + r < m then d + r else if minDuration \<le> d - m + r then d - m + r else minDuration)
      else
        (let r = d mod m
         in if r + r < m then d - r else if d + m - r \<le> maxDuration then d + m - r else maxDuration))"

text \<open>The digits after the point, \<open>k\<close> places, without trailing zeros.\<close>

fun padLeft :: "nat \<Rightarrow> string \<Rightarrow> string" where
  "padLeft k s = replicate (k - length s) (CHR ''0'') @ s"

definition fmtFrac :: "nat \<Rightarrow> nat \<Rightarrow> string" where
  "fmtFrac v k =
     (let digits = rev (dropWhile (\<lambda>c. c = CHR ''0'') (rev (padLeft k (decimal v))))
      in if v = 0 then [] else CHR ''.'' # digits)"

definition duration_String :: "duration \<Rightarrow> string" where
  "duration_String d =
     (let neg = d < 0; u = nat \<bar>d\<bar>;
          body =
            (if u = 0 then ''0s''
             else if u < 1000 then decimal u @ ''ns''
             else if u < 1000000 then decimal (u div 1000) @ fmtFrac (u mod 1000) 3 @ [CHR 0xC2, CHR 0xB5] @ ''s''
             else if u < 1000000000 then decimal (u div 1000000) @ fmtFrac (u mod 1000000) 6 @ ''ms''
             else
               (let secs = u div 1000000000;
                    s = decimal (secs mod 60) @ fmtFrac (u mod 1000000000) 9 @ ''s''; m = secs div 60
                in if m = 0 then s
                   else let ms = decimal (m mod 60) @ ''m'' @ s; h = m div 60
                        in if h = 0 then ms else decimal h @ ''h'' @ ms))
      in if neg then CHR ''-'' # body else body)"

end
