(* ===== verification/Encoding.thy ===== *)
theory Encoding
  imports GoStrings
begin

text \<open>
  Go's \<open>encoding/base64\<close> (the standard padded alphabet and the raw URL alphabet) and
  \<open>encoding/hex\<close>, as the program uses them, with the round-trip facts the drops and the key
  handling rest on. The decoders accept what Go's do: they skip carriage returns and newlines
  and ignore the unused low bits of a last partial group.
\<close>

section \<open>Base64\<close>

definition b64_common :: string where
  "b64_common = ''ABCDEFGHIJKLMNOPQRSTUVWXYZabcdefghijklmnopqrstuvwxyz0123456789''"

definition b64_std :: string where "b64_std = b64_common @ ''+/''"
definition b64_url :: string where "b64_url = b64_common @ ''-_''"

text \<open>Bytes to 6-bit digits, three bytes to four digits; a last partial group gives two or three.\<close>

fun b64_digits :: "nat list \<Rightarrow> nat list" where
  "b64_digits [] = []"
| "b64_digits [a] = [a div 4, a mod 4 * 16]"
| "b64_digits [a, b] = [a div 4, a mod 4 * 16 + b div 16, b mod 16 * 4]"
| "b64_digits (a # b # c # r) =
     a div 4 # (a mod 4 * 16 + b div 16) # (b mod 16 * 4 + c div 64) # c mod 64 # b64_digits r"

fun b64_undigits :: "nat list \<Rightarrow> nat list option" where
  "b64_undigits [] = Some []"
| "b64_undigits [a] = None"
| "b64_undigits [a, b] = Some [a * 4 + b div 16]"
| "b64_undigits [a, b, c] = Some [a * 4 + b div 16, b mod 16 * 16 + c div 4]"
| "b64_undigits (a # b # c # d # r) =
     map_option (\<lambda>bs. (a * 4 + b div 16) # (b mod 16 * 16 + c div 4) # (c mod 4 * 64 + d) # bs)
       (b64_undigits r)"

definition bytes_nat :: "bytes \<Rightarrow> nat list" where "bytes_nat b = map of_char b"
definition nat_bytes :: "nat list \<Rightarrow> bytes" where "nat_bytes ns = map char_of ns"

text \<open>\<open>RawURLEncoding.EncodeToString\<close> and \<open>DecodeString\<close>.\<close>

definition rawurl_encode :: "bytes \<Rightarrow> string" where
  "rawurl_encode b = map (\<lambda>i. b64_url ! i) (b64_digits (bytes_nat b))"

definition skip_newlines :: "string \<Rightarrow> string" where
  "skip_newlines s = filter (\<lambda>c. c \<noteq> NL \<and> c \<noteq> CR) s"

fun lookup_all :: "string \<Rightarrow> string \<Rightarrow> nat list option" where
  "lookup_all alpha [] = Some []"
| "lookup_all alpha (c # s) =
     (case pos_of c alpha of None \<Rightarrow> None
      | Some i \<Rightarrow> map_option ((#) i) (lookup_all alpha s))"

definition rawurl_decode :: "string \<Rightarrow> bytes option" where
  "rawurl_decode s =
     (case lookup_all b64_url (skip_newlines s) of None \<Rightarrow> None
      | Some ds \<Rightarrow> map_option nat_bytes (b64_undigits ds))"

text \<open>\<open>StdEncoding\<close>: the same digits, the last group filled up with \<open>=\<close>.\<close>

definition b64_pad :: "nat \<Rightarrow> string" where
  "b64_pad n = (if n mod 4 = 2 then ''=='' else if n mod 4 = 3 then ''='' else [])"

definition std_encode :: "bytes \<Rightarrow> string" where
  "std_encode b =
     (let ds = b64_digits (bytes_nat b)
      in map (\<lambda>i. b64_std ! i) ds @ b64_pad (length ds))"

definition std_decode :: "string \<Rightarrow> bytes option" where
  "std_decode s =
     (let t = skip_newlines s;
          body = takeWhile (\<lambda>c. c \<noteq> CHR ''='') t;
          tail = dropWhile (\<lambda>c. c \<noteq> CHR ''='') t
      in case lookup_all b64_std body of None \<Rightarrow> None
         | Some ds \<Rightarrow>
             if length ds mod 4 \<noteq> 1 \<and> tail = b64_pad (length ds)
             then map_option nat_bytes (b64_undigits ds) else None)"

lemma b64_alphabets:
  "length b64_url = 64" "length b64_std = 64" "distinct b64_url" "distinct b64_std"
  by (simp_all add: b64_url_def b64_std_def b64_common_def)

lemma b64_alphabet_clean:
  "CHR 0x0A \<notin> set b64_url" "CHR 0x0D \<notin> set b64_url"
  "CHR 0x0A \<notin> set b64_std" "CHR 0x0D \<notin> set b64_std" "CHR ''='' \<notin> set b64_std"
  "CHR '';'' \<notin> set b64_url"
  by (simp_all add: b64_url_def b64_std_def b64_common_def)

lemma b64_digits_lt: "list_all (\<lambda>b. b < 256) bs \<Longrightarrow> list_all (\<lambda>d. d < 64) (b64_digits bs)"
  by (induction bs rule: b64_digits.induct) auto

lemma div_mod_pack: "y < k \<Longrightarrow> (x * k + y) div k = x \<and> (x * k + y) mod k = (y :: nat)"
  by (cases "k = 0") simp_all

lemma b64_digit_arith:
  fixes a b c :: nat
  assumes "a < 256" and "b < 256" and "c < 256"
  shows "a div 4 * 4 + (a mod 4 * 16 + b div 16) div 16 = a"
    and "(a mod 4 * 16 + b div 16) mod 16 * 16 + (b mod 16 * 4 + c div 64) div 4 = b"
    and "(b mod 16 * 4 + c div 64) mod 4 * 64 + c mod 64 = c"
proof -
  have "b div 16 < 16" and "c div 64 < 4" using assms by (simp_all add: less_mult_imp_div_less)
  then show "a div 4 * 4 + (a mod 4 * 16 + b div 16) div 16 = a"
    and "(a mod 4 * 16 + b div 16) mod 16 * 16 + (b mod 16 * 4 + c div 64) div 4 = b"
    and "(b mod 16 * 4 + c div 64) mod 4 * 64 + c mod 64 = c"
    using div_mod_pack [of "b div 16" 16 "a mod 4"] div_mod_pack [of "c div 64" 4 "b mod 16"]
    by (simp_all only: div_mult_mod_eq)
qed

lemma b64_undigits_digits: "list_all (\<lambda>b. b < 256) bs \<Longrightarrow> b64_undigits (b64_digits bs) = Some bs"
proof (induction bs rule: b64_digits.induct)
  case (4 a b c r)
  then show ?case using b64_digit_arith [of a b c] by simp
next
  case (3 a b)
  then show ?case using b64_digit_arith [of a b 0] by simp
next
  case (2 a)
  then show ?case using b64_digit_arith [of a 0 0] by simp
qed simp

lemma length_b64_digits_mod: "length (b64_digits bs) mod 4 \<noteq> 1"
  by (induction bs rule: b64_digits.induct) simp_all

lemma lookup_all_map:
  assumes "distinct alpha"
  shows "list_all (\<lambda>d. d < length alpha) ds \<Longrightarrow> lookup_all alpha (map (\<lambda>i. alpha ! i) ds) = Some ds"
  using assms by (induction ds) (auto simp: pos_of_nth)

lemma bytes_nat_lt: "list_all (\<lambda>b. b < 256) (bytes_nat b)"
  by (simp add: bytes_nat_def list_all_iff)

lemma nat_bytes_bytes_nat [simp]: "nat_bytes (bytes_nat b) = b"
  by (simp add: nat_bytes_def bytes_nat_def comp_def)

lemma skip_newlines_id: "NL \<notin> set s \<Longrightarrow> CR \<notin> set s \<Longrightarrow> skip_newlines s = s"
  by (auto simp: skip_newlines_def filter_id_conv)

lemma set_map_nth:
  "list_all (\<lambda>d. d < length alpha) ds \<Longrightarrow> set (map (\<lambda>i. alpha ! i) ds) \<subseteq> set alpha"
  by (auto simp: list_all_iff)

lemma rawurl_encode_chars: "set (rawurl_encode b) \<subseteq> set b64_url"
  unfolding rawurl_encode_def
  using set_map_nth [of b64_url "b64_digits (bytes_nat b)"] b64_digits_lt [OF bytes_nat_lt]
  by (simp add: b64_alphabets)

lemma rawurl_no_semicolon: "CHR '';'' \<notin> set (rawurl_encode b)"
  using rawurl_encode_chars [of b] b64_alphabet_clean by blast

lemma rawurl_roundtrip: "rawurl_decode (rawurl_encode b) = Some b"
proof -
  let ?ds = "b64_digits (bytes_nat b)"
  have lt: "list_all (\<lambda>d. d < length b64_url) ?ds"
    using b64_digits_lt [OF bytes_nat_lt] by (simp add: b64_alphabets)
  have "skip_newlines (rawurl_encode b) = rawurl_encode b"
    using rawurl_encode_chars [of b] b64_alphabet_clean by (auto intro!: skip_newlines_id)
  then show ?thesis
    unfolding rawurl_decode_def
    by (simp add: rawurl_encode_def lookup_all_map [OF b64_alphabets(3) lt]
        b64_undigits_digits [OF bytes_nat_lt])
qed

lemma std_roundtrip: "std_decode (std_encode b) = Some b"
proof -
  let ?ds = "b64_digits (bytes_nat b)"
  let ?m = "map (\<lambda>i. b64_std ! i) ?ds"
  have lt: "list_all (\<lambda>d. d < length b64_std) ?ds"
    using b64_digits_lt [OF bytes_nat_lt] by (simp add: b64_alphabets)
  have m: "set ?m \<subseteq> set b64_std" by (rule set_map_nth [OF lt])
  have pad: "set (b64_pad n) \<subseteq> {CHR ''=''}" for n
    by (auto simp: b64_pad_def split: if_splits)
  have enc: "std_encode b = ?m @ b64_pad (length ?ds)" by (simp add: std_encode_def Let_def)
  have sk: "skip_newlines (std_encode b) = std_encode b"
    unfolding enc using m pad [of "length ?ds"] b64_alphabet_clean
    by (intro skip_newlines_id) auto
  have ne: "\<And>c. c \<in> set ?m \<Longrightarrow> c \<noteq> CHR ''=''" using m b64_alphabet_clean by blast
  have hd_pad: "b64_pad n = [] \<or> hd (b64_pad n) = CHR ''=''" for n
    by (simp add: b64_pad_def)
  have tw: "takeWhile (\<lambda>c. c \<noteq> CHR ''='') (std_encode b) = ?m"
    unfolding enc using ne hd_pad [of "length ?ds"]
    by (cases "b64_pad (length ?ds)") (auto simp: takeWhile_append)
  have dw: "dropWhile (\<lambda>c. c \<noteq> CHR ''='') (std_encode b) = b64_pad (length ?ds)"
    unfolding enc using ne hd_pad [of "length ?ds"]
    by (cases "b64_pad (length ?ds)") (auto simp: dropWhile_append)
  show ?thesis
    unfolding std_decode_def Let_def sk tw dw lookup_all_map [OF b64_alphabets(4) lt]
    using length_b64_digits_mod [of "bytes_nat b"]
    by (simp add: b64_undigits_digits [OF bytes_nat_lt])
qed

section \<open>Hexadecimal\<close>

definition hex_digits :: string where "hex_digits = ''0123456789abcdef''"

definition hex_encode :: "bytes \<Rightarrow> string" where
  "hex_encode b = concat (map (\<lambda>c. [hex_digits ! (code c div 16), hex_digits ! (code c mod 16)]) b)"

definition hex_val :: "char \<Rightarrow> nat option" where
  "hex_val c =
     (let n = code c
      in if 48 \<le> n \<and> n \<le> 57 then Some (n - 48)
         else if 97 \<le> n \<and> n \<le> 102 then Some (n - 87)
         else if 65 \<le> n \<and> n \<le> 70 then Some (n - 55) else None)"

fun hex_decode :: "string \<Rightarrow> bytes option" where
  "hex_decode [] = Some []"
| "hex_decode [c] = None"
| "hex_decode (a # b # r) =
     (case (hex_val a, hex_val b) of
        (Some x, Some y) \<Rightarrow> map_option ((#) (char_of (16 * x + y))) (hex_decode r)
      | _ \<Rightarrow> None)"

lemma hex_val_digit: "n < 16 \<Longrightarrow> hex_val (hex_digits ! n) = Some n"
proof -
  assume "n < 16"
  then have "n \<in> set [0..<16]" by simp
  moreover have "\<forall>n \<in> set [0..<16]. hex_val (hex_digits ! n) = Some n"
    by (simp add: upt_rec hex_val_def hex_digits_def Let_def)
  ultimately show ?thesis by blast
qed

lemma hex_roundtrip: "hex_decode (hex_encode b) = Some b"
proof (induction b)
  case Nil
  show ?case by (simp add: hex_encode_def)
next
  case (Cons c b)
  have "code c div 16 < 16" by (simp add: less_mult_imp_div_less)
  moreover have "code c mod 16 < 16" by simp
  ultimately have "hex_decode (hex_encode (c # b)) =
      map_option ((#) (char_of (16 * (code c div 16) + code c mod 16))) (hex_decode (hex_encode b))"
    by (simp add: hex_encode_def hex_val_digit)
  then show ?case using Cons by simp
qed

lemma length_hex_encode [simp]: "length (hex_encode b) = 2 * length b"
  by (induction b) (simp_all add: hex_encode_def)

section \<open>The codecs as round trips\<close>

interpretation rawurl: roundtrip rawurl_encode rawurl_decode "\<lambda>_. True"
  by unfold_locales (rule rawurl_roundtrip)

interpretation std: roundtrip std_encode std_decode "\<lambda>_. True"
  by unfold_locales (rule std_roundtrip)

interpretation hexa: roundtrip hex_encode hex_decode "\<lambda>_. True"
  by unfold_locales (rule hex_roundtrip)

interpretation uint: roundtrip "\<lambda>w :: u64. decimal (unat w)" parseUint64 "\<lambda>_. True"
  by unfold_locales (rule parseUint64_format)

interpretation int64: roundtrip itoa atoi "\<lambda>i. - (2 ^ 63) \<le> i \<and> i < 2 ^ 63"
  by unfold_locales (simp add: atoi_itoa)

end
