(* ===== verification/GoNet.thy ===== *)
theory GoNet
  imports GoStrings
begin

text \<open>
  The parts of Go's \<open>net\<close> and \<open>net/netip\<close> that the program calls: parsing and printing of
  addresses, prefixes and \<open>host:port\<close> pairs. An IPv4 address is a 32-bit word and an IPv6
  address a 128-bit word with a zone; a \<open>net.IP\<close> (the 16-byte form, with IPv4 addresses in
  the \<open>::ffff:0:0/96\<close> block) is a 128-bit word. The facts the components use are the round
  trips of the printers and parsers, that an IPv4 address has one spelling only, and what it
  means for a prefix to contain an address.
\<close>

unbundle bit_operations_syntax

section \<open>Addresses\<close>

datatype addr = V4 u32 | V6 "128 word" string

primrec addr_Is4 :: "addr \<Rightarrow> bool" where
  "addr_Is4 (V4 w) = True"
| "addr_Is4 (V6 w z) = False"

primrec addr_Zone :: "addr \<Rightarrow> string" where
  "addr_Zone (V4 w) = []"
| "addr_Zone (V6 w z) = z"

text \<open>The four bytes of an IPv4 address, most significant first (\<open>As4\<close>), and back
  (\<open>AddrFrom4\<close>).\<close>

definition ip4_bytes :: "u32 \<Rightarrow> u8 list" where
  "ip4_bytes w = [ucast (drop_bit 24 w), ucast (drop_bit 16 w), ucast (drop_bit 8 w), ucast w]"

fun ip4_of_bytes :: "u8 list \<Rightarrow> u32" where
  "ip4_of_bytes [a, b, c, d] =
     push_bit 24 (ucast a) OR push_bit 16 (ucast b) OR push_bit 8 (ucast c) OR ucast d"
| "ip4_of_bytes _ = 0"

definition ip4_String :: "u32 \<Rightarrow> string" where
  "ip4_String w = joinWith ''.'' (map (\<lambda>b. decimal (unat b)) (ip4_bytes w))"

text \<open>One field of a dotted quad: digits only, no leading zero, at most 255.\<close>

definition parse_octet :: "string \<Rightarrow> u8 option" where
  "parse_octet s =
     (if s \<noteq> [] \<and> list_all is_digit s \<and> (length s = 1 \<or> hd s \<noteq> CHR ''0'') \<and> digitsVal s \<le> 255
      then Some (word_of_nat (digitsVal s)) else None)"

fun parse_octets :: "string list \<Rightarrow> u8 list option" where
  "parse_octets [] = Some []"
| "parse_octets (f # fs) =
     (case parse_octet f of None \<Rightarrow> None
      | Some b \<Rightarrow> map_option ((#) b) (parse_octets fs))"

definition parseIPv4Fields :: "string \<Rightarrow> u32 option" where
  "parseIPv4Fields s =
     (let fs = splitOn (CHR ''.'') s
      in if length fs = 4 then map_option ip4_of_bytes (parse_octets fs) else None)"

text \<open>IPv6: up to eight groups of up to four hexadecimal digits, one \<open>::\<close>, and possibly a dotted
  quad in place of the last two groups. The loop takes one group per turn, as Go's does; its
  fuel is the number of groups there is room for.\<close>

definition hexC :: "char \<Rightarrow> nat option" where
  "hexC c =
     (let n = code c
      in if 48 \<le> n \<and> n \<le> 57 then Some (n - 48)
         else if 97 \<le> n \<and> n \<le> 102 then Some (n - 87)
         else if 65 \<le> n \<and> n \<le> 70 then Some (n - 55) else None)"

definition hexVal :: "string \<Rightarrow> u16" where
  "hexVal s = foldl (\<lambda>a c. push_bit 4 a + (case hexC c of None \<Rightarrow> 0 | Some d \<Rightarrow> word_of_nat d)) 0 s"

text \<open>The state of the loop: groups read, the position of \<open>::\<close> among them, the rest of the
  input.\<close>

fun ipv6_loop ::
  "nat \<Rightarrow> u16 list \<Rightarrow> nat option \<Rightarrow> string \<Rightarrow> (u16 list \<times> nat option \<times> string) option" where
  "ipv6_loop 0 gs ell s = Some (gs, ell, s)"
| "ipv6_loop (Suc k) gs ell s =
     (let hex = takeWhile (\<lambda>c. hexC c \<noteq> None) s; r = dropWhile (\<lambda>c. hexC c \<noteq> None) s
      in if hex = [] \<or> length hex > 4 then None
         else if r \<noteq> [] \<and> hd r = CHR ''.'' then
           (if (ell = None \<and> length gs \<noteq> 6) \<or> length gs > 6 then None
            else case parseIPv4Fields s of None \<Rightarrow> None
                 | Some w \<Rightarrow> Some (gs @ [ucast (drop_bit 16 w), ucast w], ell, []))
         else let gs' = gs @ [hexVal hex]
              in case r of [] \<Rightarrow> Some (gs', ell, [])
                 | c # r1 \<Rightarrow>
                     if c \<noteq> CHR '':'' \<or> r1 = [] then None
                     else if hd r1 = CHR '':'' then
                       (if ell \<noteq> None then None
                        else if tl r1 = [] then Some (gs', Some (length gs'), [])
                        else ipv6_loop k gs' (Some (length gs')) (tl r1))
                     else ipv6_loop k gs' ell r1)"

definition groups_word :: "u16 list \<Rightarrow> 128 word" where
  "groups_word gs = foldl (\<lambda>a g. push_bit 16 a OR ucast g) 0 gs"

definition parseIPv6 :: "string \<Rightarrow> addr option" where
  "parseIPv6 inp =
     (let (s, zone, badzone) =
            (case cutOn (CHR ''%'') inp of None \<Rightarrow> (inp, [], False)
             | Some (a, z) \<Rightarrow> (a, z, z = []));
          lead = hasPrefix s ''::'';
          s0 = (if lead then drop 2 s else s)
      in if badzone then None
         else if lead \<and> s0 = [] then Some (V6 0 zone)
         else case ipv6_loop 8 [] (if lead then Some 0 else None) s0 of
                None \<Rightarrow> None
              | Some (gs, ell, rest) \<Rightarrow>
                  if rest \<noteq> [] then None
                  else if length gs < 8 then
                    (case ell of None \<Rightarrow> None
                     | Some e \<Rightarrow>
                         Some (V6 (groups_word (take e gs @ replicate (8 - length gs) 0 @ drop e gs)) zone))
                  else if ell \<noteq> None then None
                  else Some (V6 (groups_word gs) zone))"

text \<open>\<open>netip.ParseAddr\<close>: the first of \<open>.\<close>, \<open>:\<close> and \<open>%\<close> decides the family.\<close>

fun parse_kind :: "string \<Rightarrow> char option" where
  "parse_kind [] = None"
| "parse_kind (c # s) = (if c \<in> set ''.:%'' then Some c else parse_kind s)"

definition parseAddr :: "string \<Rightarrow> addr option" where
  "parseAddr s =
     (case parse_kind s of
        None \<Rightarrow> None
      | Some c \<Rightarrow>
          if c = CHR ''.'' then map_option V4 (parseIPv4Fields s)
          else if c = CHR '':'' then parseIPv6 s else None)"

section \<open>Prefixes\<close>

record prefix =
  p_Addr :: addr
  p_Bits :: nat

definition mask_word :: "nat \<Rightarrow> nat \<Rightarrow> 'a::len word \<Rightarrow> 'a word" where
  "mask_word n bits w = push_bit (n - bits) (drop_bit (n - bits) w)"

definition masked :: "prefix \<Rightarrow> prefix" where
  "masked p =
     (case p_Addr p of
        V4 w \<Rightarrow> p\<lparr>p_Addr := V4 (mask_word 32 (p_Bits p) w)\<rparr>
      | V6 w z \<Rightarrow> p\<lparr>p_Addr := V6 (mask_word 128 (p_Bits p) w) z\<rparr>)"

definition prefix_Contains :: "prefix \<Rightarrow> addr \<Rightarrow> bool" where
  "prefix_Contains p a =
     (case (p_Addr p, a) of
        (V4 u, V4 w) \<Rightarrow> drop_bit (32 - p_Bits p) (w XOR u) = 0
      | (V6 u y, V6 w z) \<Rightarrow> z = [] \<and> mask_word 128 (p_Bits p) (w XOR u) = 0
      | _ \<Rightarrow> False)"

text \<open>The pieces around the last occurrence of a character.\<close>

definition cutLast :: "char \<Rightarrow> string \<Rightarrow> (string \<times> string) option" where
  "cutLast c s =
     (case cutOn c (rev s) of None \<Rightarrow> None | Some (b, a) \<Rightarrow> Some (rev a, rev b))"

definition addr_BitLen :: "addr \<Rightarrow> nat" where
  "addr_BitLen a = (if addr_Is4 a then 32 else 128)"

definition parsePrefix :: "string \<Rightarrow> prefix option" where
  "parsePrefix s =
     (case cutLast (CHR ''/'') s of None \<Rightarrow> None
      | Some (a, bits) \<Rightarrow>
          (case parseAddr a of None \<Rightarrow> None
           | Some ip \<Rightarrow>
               if addr_Zone ip \<noteq> [] then None
               else if length bits > 1 \<and> \<not> (is_digit (hd bits) \<and> hd bits \<noteq> CHR ''0'') then None
               else (case atoi bits of None \<Rightarrow> None
                     | Some n \<Rightarrow>
                         if n < 0 \<or> n > int (addr_BitLen ip) then None
                         else Some \<lparr>p_Addr = ip, p_Bits = nat n\<rparr>)))"

section \<open>The package net\<close>

type_synonym ip16 = "128 word"

definition as16 :: "addr \<Rightarrow> ip16" where
  "as16 a = (case a of V4 w \<Rightarrow> 0xFFFF00000000 + ucast w | V6 w z \<Rightarrow> w)"

text \<open>\<open>net.ParseIP\<close> (\<open>None\<close> for nil) and \<open>To4\<close>.\<close>

definition net_ParseIP :: "string \<Rightarrow> ip16 option" where
  "net_ParseIP s =
     (case parseAddr s of None \<Rightarrow> None
      | Some a \<Rightarrow> if addr_Zone a \<noteq> [] then None else Some (as16 a))"

definition ip_To4 :: "ip16 \<Rightarrow> u32 option" where
  "ip_To4 w = (if drop_bit 32 w = 0xFFFF then Some (ucast w) else None)"

definition ip_IsLoopback :: "ip16 \<Rightarrow> bool" where
  "ip_IsLoopback ip = (case ip_To4 ip of Some w \<Rightarrow> drop_bit 24 w = 127 | None \<Rightarrow> ip = 1)"

definition ip_IsMulticast :: "ip16 \<Rightarrow> bool" where
  "ip_IsMulticast ip = (case ip_To4 ip of Some w \<Rightarrow> drop_bit 28 w = 14 | None \<Rightarrow> drop_bit 120 ip = 255)"

text \<open>A network: the masked address, the length of the mask and whether it is a 4-byte one.\<close>

record ipnet =
  in_IP :: addr
  in_Ones :: nat

definition net_ParseCIDR :: "string \<Rightarrow> (ip16 \<times> ipnet) option" where
  "net_ParseCIDR s =
     (case cutOn (CHR ''/'') s of None \<Rightarrow> None
      | Some (a, m) \<Rightarrow>
          (case parseAddr a of None \<Rightarrow> None
           | Some ip \<Rightarrow>
               if addr_Zone ip \<noteq> [] \<or> m = [] \<or> \<not> list_all is_digit m
                  \<or> digitsVal m > addr_BitLen ip
               then None
               else Some (as16 ip,
                      \<lparr>in_IP = p_Addr (masked \<lparr>p_Addr = ip, p_Bits = digitsVal m\<rparr>),
                       in_Ones = digitsVal m\<rparr>)))"

definition lower_hex :: "nat \<Rightarrow> char" where
  "lower_hex d = (if d < 10 then char_of (48 + d) else char_of (87 + d))"

fun hexadecimal :: "nat \<Rightarrow> string" where
  "hexadecimal n =
     (if n < 16 then [lower_hex n] else hexadecimal (n div 16) @ [lower_hex (n mod 16)])"

declare hexadecimal.simps [simp del]

definition hex_group :: "u16 \<Rightarrow> string" where
  "hex_group g = hexadecimal (unat g)"

definition word_groups :: "ip16 \<Rightarrow> u16 list" where
  "word_groups w = map (\<lambda>i. ucast (drop_bit (112 - 16 * i) w)) [0..<8]"

text \<open>The start and length of the first longest run of zero groups (at least two).\<close>

definition zero_run :: "u16 list \<Rightarrow> nat \<Rightarrow> nat" where
  "zero_run gs i = length (takeWhile (\<lambda>g. g = 0) (drop i gs))"

definition best_run :: "u16 list \<Rightarrow> (nat \<times> nat) option" where
  "best_run gs =
     foldl (\<lambda>best i. let l = zero_run gs i
                     in if 2 \<le> l \<and> (case best of None \<Rightarrow> True | Some (j, m) \<Rightarrow> m < l) then Some (i, l) else best)
       None [0..<length gs]"

text \<open>\<open>net.IP.String\<close>.\<close>

definition ip_String :: "ip16 \<Rightarrow> string" where
  "ip_String w =
     (case ip_To4 w of Some v \<Rightarrow> ip4_String v
      | None \<Rightarrow>
          (let gs = word_groups w
           in case best_run gs of
                None \<Rightarrow> joinWith '':'' (map hex_group gs)
              | Some (i, l) \<Rightarrow>
                  joinWith '':'' (map hex_group (take i gs)) @ ''::''
                    @ joinWith '':'' (map hex_group (drop (i + l) gs))))"

definition splitHostPort :: "string \<Rightarrow> (string \<times> string) option" where
  "splitHostPort hp =
     (case cutLast (CHR '':'') hp of None \<Rightarrow> None
      | Some (pre, port) \<Rightarrow>
          if hd hp = CHR ''['' then
            (case pos_of (CHR '']'') hp of None \<Rightarrow> None
             | Some e \<Rightarrow>
                 if Suc e \<noteq> length pre then None
                 else if CHR ''['' \<in> set (tl hp) \<or> CHR '']'' \<in> set (drop (Suc e) hp) then None
                 else Some (take (e - 1) (tl hp), port))
          else if CHR '':'' \<in> set pre \<or> CHR ''['' \<in> set hp \<or> CHR '']'' \<in> set hp then None
          else Some (pre, port))"

definition joinHostPort :: "string \<Rightarrow> string \<Rightarrow> string" where
  "joinHostPort h p =
     (if CHR '':'' \<in> set h then ''['' @ h @ '']:'' @ p else h @ '':'' @ p)"

section \<open>Round trips and uniqueness of spelling\<close>

lemma ip4_of_bytes_ip4_bytes [simp]: "ip4_of_bytes (ip4_bytes w) = w"
proof (rule bit_word_eqI)
  fix n assume n: "n < LENGTH(32)"
  then consider "n < 8" | "8 \<le> n" "n < 16" | "16 \<le> n" "n < 24" | "24 \<le> n" "n < 32"
    by force
  then show "bit (ip4_of_bytes (ip4_bytes w)) n = bit w n"
    by cases (auto simp: ip4_bytes_def bit_simps)
qed

lemma bit_byte_high: "8 \<le> n \<Longrightarrow> \<not> bit (b :: u8) n"
  using bit_imp_le_length [of b n] by auto

lemma ip4_byte_extract:
  "ucast (drop_bit 24 (ip4_of_bytes [a, b, c, d])) = a"
  "ucast (drop_bit 16 (ip4_of_bytes [a, b, c, d])) = b"
  "ucast (drop_bit 8 (ip4_of_bytes [a, b, c, d])) = c"
  "ucast (ip4_of_bytes [a, b, c, d]) = d"
  by (rule bit_word_eqI; simp add: bit_simps bit_byte_high)+

lemma ip4_bytes_ip4_of_bytes: "ip4_bytes (ip4_of_bytes [a, b, c, d]) = [a, b, c, d]"
  unfolding ip4_bytes_def ip4_byte_extract by (rule refl)

lemma ip4_bytes_length [simp]: "length (ip4_bytes w) = 4"
  by (simp add: ip4_bytes_def)

lemma ip4_bytes_inject: "ip4_bytes v = ip4_bytes w \<longleftrightarrow> v = w"
  by (metis ip4_of_bytes_ip4_bytes)

lemma digitsVal_append: "digitsVal (s @ t) = digitsVal s * 10 ^ length t + digitsVal t"
proof (induction t rule: rev_induct)
  case (snoc c t)
  then show ?case using digitsVal_snoc [of "s @ t" c] by (simp add: digitsVal_snoc algebra_simps)
qed (simp add: digitsVal_def)

lemma decimal_0: "decimal 0 = ''0''"
  by code_simp

text \<open>A digit string without a leading zero is the decimal form of its value.\<close>

lemma decimal_digitsVal:
  "list_all is_digit s \<Longrightarrow> s \<noteq> [] \<Longrightarrow> length s = 1 \<or> hd s \<noteq> CHR ''0'' \<Longrightarrow> decimal (digitsVal s) = s"
proof (induction s rule: rev_induct)
  case (snoc c s)
  have d: "code c - 48 < 10" and c: "digitC (code c - 48) = c"
    using snoc.prems(1) by (auto simp: is_digit_def digitC_def)
  show ?case
  proof (cases "s = []")
    case True
    with d c show ?thesis by (simp add: digitsVal_def decimal.simps)
  next
    case False
    with snoc.prems have hd: "hd s \<noteq> CHR ''0''" and dg: "list_all is_digit s" by auto
    have IH: "decimal (digitsVal s) = s" using snoc.IH dg False hd by simp
    have "digitsVal s \<noteq> 0"
    proof
      assume "digitsVal s = 0"
      with IH have "s = ''0''" by (simp add: decimal_0)
      with hd show False by simp
    qed
    then have "\<not> digitsVal (s @ [c]) < 10" by (simp add: digitsVal_snoc)
    with IH d c show ?thesis by (subst decimal.simps) (simp add: digitsVal_snoc)
  qed
qed simp

lemma decimal_hd: "n \<noteq> 0 \<Longrightarrow> hd (decimal n) \<noteq> CHR ''0''"
proof (induction n rule: decimal.induct)
  case (1 n)
  show ?case
  proof (cases "n < 10")
    case True
    with 1 have "code (digitC n) \<noteq> code (CHR ''0'')" by (simp add: code_digitC)
    then have "digitC n \<noteq> CHR ''0''" by metis
    with True show ?thesis by (simp add: decimal.simps [of n])
  next
    case False
    with 1 have "hd (decimal (n div 10)) \<noteq> CHR ''0''" by simp
    with False show ?thesis by (subst decimal.simps) (simp add: hd_append)
  qed
qed

lemma parse_octet_decimal: "parse_octet (decimal (unat b)) = Some b"
proof -
  have "unat b < 256" using unsigned_less [of b, where ?'a = nat] by simp
  moreover have "length (decimal (unat b)) = 1 \<or> hd (decimal (unat b)) \<noteq> CHR ''0''"
    by (cases "unat b = 0") (auto simp: decimal_0 decimal_hd simp del: unsigned_eq_0_iff)
  ultimately show ?thesis by (simp add: parse_octet_def decimal_digits)
qed

lemma parse_octet_Some: "parse_octet s = Some b \<Longrightarrow> s = decimal (unat b)"
  by (auto simp: parse_octet_def decimal_digitsVal unat_of_nat split: if_splits)

lemma parse_octets_decimal: "parse_octets (map (\<lambda>b. decimal (unat b)) bs) = Some bs"
  by (induction bs) (simp_all add: parse_octet_decimal)

lemma parse_octets_Some: "parse_octets fs = Some bs \<Longrightarrow> fs = map (\<lambda>b. decimal (unat b)) bs"
  by (induction fs arbitrary: bs) (auto split: option.splits dest: parse_octet_Some)

lemma is_digit_not_in: "\<not> is_digit c \<Longrightarrow> c \<notin> set (decimal n)"
  using decimal_digits [of n] by (auto simp: list_all_iff)

lemma splitOn_ip4_String:
  "splitOn (CHR ''.'') (ip4_String w) = map (\<lambda>b. decimal (unat b)) (ip4_bytes w)"
  unfolding ip4_String_def
  by (rule splitOn_joinWith) (auto simp: ip4_bytes_def is_digit_not_in is_digit_def)

lemma parseIPv4Fields_String [simp]: "parseIPv4Fields (ip4_String w) = Some w"
  by (simp add: parseIPv4Fields_def Let_def splitOn_ip4_String parse_octets_decimal)

lemma parseIPv4Fields_Some: "parseIPv4Fields s = Some w \<longleftrightarrow> s = ip4_String w"
proof
  assume a: "parseIPv4Fields s = Some w"
  then obtain bs where len: "length (splitOn (CHR ''.'') s) = 4"
    and bs: "parse_octets (splitOn (CHR ''.'') s) = Some bs" and w: "w = ip4_of_bytes bs"
    by (auto simp: parseIPv4Fields_def Let_def split: if_splits)
  from parse_octets_Some [OF bs] len obtain x1 x2 x3 x4 where b4: "bs = [x1, x2, x3, x4]"
    by (auto simp: length_Suc_conv numeral_eq_Suc)
  have "s = joinWith ''.'' (map (\<lambda>b. decimal (unat b)) bs)"
    using joinWith_splitOn [of "CHR ''.''" s] parse_octets_Some [OF bs] by simp
  also have "bs = ip4_bytes w" unfolding w b4 by (simp only: ip4_bytes_ip4_of_bytes)
  finally show "s = ip4_String w" by (simp add: ip4_String_def)
qed simp

interpretation ip4: roundtrip ip4_String parseIPv4Fields "\<lambda>_. True"
  by unfold_locales simp

lemma ip4_String_inject [simp]: "ip4_String v = ip4_String w \<longleftrightarrow> v = w"
  by (rule ip4.enc_eq_iff) simp_all

lemma ip4_String_shape:
  obtains d r where "ip4_String w = d @ CHR ''.'' # r" and "d \<noteq> []" and "list_all is_digit d"
    and "set r \<subseteq> {c. is_digit c} \<union> {CHR ''.''}"
proof
  let ?d = "\<lambda>k. decimal (unat (ip4_bytes w ! k))"
  show "ip4_String w = ?d 0 @ CHR ''.'' # (?d 1 @ ''.'' @ ?d 2 @ ''.'' @ ?d 3)"
    by (simp add: ip4_String_def ip4_bytes_def numeral_eq_Suc)
  show "?d 0 \<noteq> []" and "list_all is_digit (?d 0)" by (simp_all add: decimal_digits)
  show "set (?d 1 @ ''.'' @ ?d 2 @ ''.'' @ ?d 3) \<subseteq> {c. is_digit c} \<union> {CHR ''.''}"
    using decimal_digits by (auto simp: list_all_iff)
qed

lemma parse_kind_digits:
  "list_all is_digit d \<Longrightarrow> parse_kind (d @ s) = parse_kind s"
  by (induction d) (auto simp: is_digit_def)

lemma parse_kind_ip4: "parse_kind (ip4_String w) = Some (CHR ''.'')"
  by (rule ip4_String_shape [of w]) (simp add: parse_kind_digits)

lemma parseAddr_String [simp]: "parseAddr (ip4_String w) = Some (V4 w)"
  by (simp add: parseAddr_def parse_kind_ip4)

lemma parseIPv6_not_V4: "parseIPv6 s \<noteq> Some (V4 w)"
  by (auto simp: parseIPv6_def Let_def split: prod.splits option.splits if_splits)

lemma parseAddr_V4: "parseAddr s = Some (V4 w) \<longleftrightarrow> s = ip4_String w"
proof
  assume "parseAddr s = Some (V4 w)"
  then have "parseIPv4Fields s = Some w"
    by (auto simp: parseAddr_def parseIPv6_not_V4 split: option.splits if_splits)
  then show "s = ip4_String w" by (simp add: parseIPv4Fields_Some)
qed simp

lemma addr_Is4_iff: "addr_Is4 a \<longleftrightarrow> (\<exists>w. a = V4 w)"
  by (cases a) auto

lemma ip4_String_chars: "set (ip4_String w) \<subseteq> {c. is_digit c} \<union> {CHR ''.''}"
  by (rule ip4_String_shape [of w]) (auto simp: list_all_iff)

lemma ip4_String_nonempty [simp]: "ip4_String w \<noteq> []"
  by (rule ip4_String_shape [of w]) auto

lemma ip4_String_no [simp]:
  "CHR ''/'' \<notin> set (ip4_String w)" "CHR '':'' \<notin> set (ip4_String w)"
  "CHR ''['' \<notin> set (ip4_String w)" "CHR '']'' \<notin> set (ip4_String w)"
  using ip4_String_chars [of w] by (auto simp: is_digit_def)

section \<open>What a prefix contains\<close>

lemma parsePrefix_bits:
  "parsePrefix s = Some p \<Longrightarrow> p_Bits p \<le> addr_BitLen (p_Addr p) \<and> addr_Zone (p_Addr p) = []"
  by (auto simp: parsePrefix_def split: option.splits if_splits prod.splits)

lemma masked_simps [simp]:
  "p_Bits (masked p) = p_Bits p"
  "addr_Is4 (p_Addr (masked p)) = addr_Is4 (p_Addr p)"
  by (simp_all add: masked_def split: addr.splits)

lemma mask_word_idem [simp]: "mask_word n bits (mask_word n bits w) = mask_word n bits (w :: 'a::len word)"
  by (rule bit_word_eqI) (auto simp: mask_word_def bit_simps)

lemma masked_idem: "masked (masked p) = masked p"
  by (cases "p_Addr p") (simp_all add: masked_def)

lemma xor_drop_eq: "drop_bit k (v XOR w) = 0 \<longleftrightarrow> drop_bit k v = drop_bit k (w :: 'a::len word)"
proof
  assume "drop_bit k (v XOR w) = 0"
  then have "drop_bit k v XOR drop_bit k w = 0" by (simp only: drop_bit_xor)
  then have "(drop_bit k v XOR drop_bit k w) XOR drop_bit k w = drop_bit k w" by simp
  then show "drop_bit k v = drop_bit k w" by (simp only: xor.assoc xor_self_eq xor.right_neutral)
qed (simp add: drop_bit_xor)

lemma unat_drop_bit: "unat (drop_bit k w) = unat (w :: 'a::len word) div 2 ^ k"
  unfolding unsigned_drop_bit_eq using unsigned_less [of w, where ?'a = nat]
  by (simp add: take_bit_nat_eq_self flip: drop_bit_eq_div)

text \<open>An IPv4 prefix is an interval: from its network address, \<open>2 ^ (32 - bits)\<close> addresses.\<close>

lemma prefix_Contains_V4:
  assumes "p_Addr p = V4 u"
  shows "prefix_Contains p (V4 w) \<longleftrightarrow> unat w div 2 ^ (32 - p_Bits p) = unat u div 2 ^ (32 - p_Bits p)"
proof -
  have "prefix_Contains p (V4 w) \<longleftrightarrow> drop_bit (32 - p_Bits p) w = drop_bit (32 - p_Bits p) u"
    using assms xor_drop_eq [of "32 - p_Bits p" w u] by (simp add: prefix_Contains_def)
  also have "\<dots> \<longleftrightarrow> unat (drop_bit (32 - p_Bits p) w) = unat (drop_bit (32 - p_Bits p) u)"
    by (simp only: word_unat_eq_iff)
  finally show ?thesis by (simp only: unat_drop_bit)
qed

lemma unat_mask_word:
  "unat (mask_word 32 bits (w :: u32)) = unat w div 2 ^ (32 - bits) * 2 ^ (32 - bits)"
proof -
  let ?k = "32 - bits"
  have "unat w div 2 ^ ?k * 2 ^ ?k \<le> unat w" by simp
  also have "unat w < 2 ^ 32" using unsigned_less [of w, where ?'a = nat] by simp
  finally have "take_bit 32 (unat w div 2 ^ ?k * 2 ^ ?k) = unat w div 2 ^ ?k * 2 ^ ?k"
    by (simp add: take_bit_nat_eq_self)
  then show ?thesis
    unfolding mask_word_def unsigned_push_bit_eq unat_drop_bit push_bit_eq_mult [where ?'a = nat]
    by simp
qed

lemma prefix_Contains_masked:
  assumes "p_Addr p = V4 u"
  shows "prefix_Contains (masked p) (V4 w) = prefix_Contains p (V4 w)"
  using assms by (simp add: masked_def prefix_Contains_V4 [of _ "mask_word 32 (p_Bits p) u"]
      prefix_Contains_V4 [of p u] unat_mask_word)

lemma prefix_interval:
  assumes "p_Addr p = V4 u" and "net = unat (mask_word 32 (p_Bits p) u)"
  shows "prefix_Contains p (V4 w) \<longleftrightarrow> net \<le> unat w \<and> unat w < net + 2 ^ (32 - p_Bits p)"
proof -
  let ?s = "2 ^ (32 - p_Bits p) :: nat"
  have "unat w div ?s = unat u div ?s \<longleftrightarrow>
      unat u div ?s * ?s \<le> unat w \<and> unat w < unat u div ?s * ?s + ?s"
    by (metis add.commute div_nat_eqI dividend_less_div_times mult.commute mult_Suc_right
        times_div_less_eq_dividend zero_less_numeral zero_less_power)
  then show ?thesis using assms by (simp add: prefix_Contains_V4 unat_mask_word)
qed

section \<open>Host and port\<close>

lemma cutLast_append: "c \<notin> set b \<Longrightarrow> cutLast c (a @ c # b) = Some (a, b)"
  by (simp add: cutLast_def)

lemma cutLast_Some: "cutLast c s = Some (a, b) \<Longrightarrow> s = a @ c # b \<and> c \<notin> set b"
  by (auto simp: cutLast_def split: option.splits dest!: cutOn_Some) (metis append.assoc append_Cons append_Nil rev.simps(2) rev_append rev_swap)

lemma cutLast_None [simp]: "cutLast c s = None \<longleftrightarrow> c \<notin> set s"
proof (cases "cutOn c (rev s)")
  case None
  then have "c \<notin> set (rev s)" using cutOn_None [of c "rev s"] by blast
  then show ?thesis unfolding cutLast_def None by simp
next
  case (Some p)
  then have "c \<in> set (rev s)" using cutOn_None [of c "rev s"] by fastforce
  then show ?thesis unfolding cutLast_def Some by (simp split: prod.split)
qed

definition no_bracket :: "string \<Rightarrow> bool" where
  "no_bracket s = (CHR ''['' \<notin> set s \<and> CHR '']'' \<notin> set s)"

lemma splitHostPort_join:
  assumes "no_bracket h" and "no_bracket p" and "CHR '':'' \<notin> set p"
  shows "splitHostPort (joinHostPort h p) = Some (h, p)"
proof (cases "CHR '':'' \<in> set h")
  case True
  let ?hp = "(''['' @ h @ '']'') @ CHR '':'' # p"
  have "pos_of (CHR '']'') ?hp = Some (Suc (length h))"
    using assms(1) by (simp add: no_bracket_def pos_of_append)
  moreover have "cutLast (CHR '':'') ?hp = Some (''['' @ h @ '']'', p)"
    by (rule cutLast_append) (rule assms(3))
  ultimately show ?thesis using True assms(1,2)
    by (simp add: joinHostPort_def splitHostPort_def no_bracket_def)
next
  case False
  have c: "cutLast (CHR '':'') (h @ CHR '':'' # p) = Some (h, p)"
    by (rule cutLast_append) (rule assms(3))
  have "hd (h @ CHR '':'' # p) \<noteq> CHR ''[''"
    using assms(1) by (cases h) (auto simp: no_bracket_def)
  then show ?thesis using c False assms(1,2)
    by (simp add: joinHostPort_def splitHostPort_def no_bracket_def)
qed

lemma splitHostPort_Some_iff_plain:
  assumes "no_bracket s"
  shows "splitHostPort s = Some (h, p) \<longleftrightarrow> s = h @ CHR '':'' # p \<and> CHR '':'' \<notin> set h \<and> CHR '':'' \<notin> set p"
proof
  assume a: "splitHostPort s = Some (h, p)"
  then have "s \<noteq> []" by (auto simp: splitHostPort_def cutLast_def)
  with assms have "hd s \<noteq> CHR ''[''" by (cases s) (auto simp: no_bracket_def)
  with a have "cutLast (CHR '':'') s = Some (h, p) \<and> CHR '':'' \<notin> set h"
    by (auto simp: splitHostPort_def split: option.splits if_splits)
  then show "s = h @ CHR '':'' # p \<and> CHR '':'' \<notin> set h \<and> CHR '':'' \<notin> set p"
    using cutLast_Some by blast
next
  assume a: "s = h @ CHR '':'' # p \<and> CHR '':'' \<notin> set h \<and> CHR '':'' \<notin> set p"
  with assms have "no_bracket h" and "no_bracket p" by (auto simp: no_bracket_def)
  with a show "splitHostPort s = Some (h, p)"
    using splitHostPort_join [of h p] by (simp add: joinHostPort_def)
qed

lemma no_bracket_decimal [simp]: "no_bracket (decimal n)"
  by (simp add: no_bracket_def is_digit_not_in is_digit_def)

lemma no_bracket_ip4 [simp]: "no_bracket (ip4_String w)"
  by (simp add: no_bracket_def)

lemma net_ParseCIDR_host:
  "net_ParseCIDR (ip4_String w @ ''/32'') = Some (as16 (V4 w), \<lparr>in_IP = V4 w, in_Ones = 32\<rparr>)"
proof -
  have "list_all is_digit ''32''" and "digitsVal ''32'' = 32" by code_simp+
  then show ?thesis
    using cutOn_append [of "CHR ''/''" "ip4_String w" "''32''"]
    by (simp add: net_ParseCIDR_def addr_BitLen_def masked_def mask_word_def)
qed

lemma net_ParseCIDR_32_V4:
  assumes "net_ParseCIDR (s @ ''/32'') = Some (i, n)" and "addr_Is4 (in_IP n)"
  shows "\<exists>w. s = ip4_String w \<and> n = \<lparr>in_IP = V4 w, in_Ones = 32\<rparr>"
proof -
  obtain a m where c: "cutOn (CHR ''/'') (s @ ''/32'') = Some (a, m)"
    using assms(1) by (auto simp: net_ParseCIDR_def split: option.splits prod.splits)
  then have e: "s @ ''/32'' = a @ CHR ''/'' # m" and na: "CHR ''/'' \<notin> set a" by (auto dest: cutOn_Some)
  have dm: "list_all is_digit m" and "m \<noteq> []"
    using assms(1) c by (auto simp: net_ParseCIDR_def split: option.splits if_splits)
  then have nm: "CHR ''/'' \<notin> set m" by (auto simp: list_all_iff is_digit_def)
  have "cutLast (CHR ''/'') (s @ CHR ''/'' # ''32'') = Some (s, ''32'')"
    by (rule cutLast_append) simp
  then have "s = a" and "m = ''32''" using e cutLast_append [OF nm, of a] by simp_all
  moreover obtain w where "parseAddr a = Some (V4 w)"
    using assms c by (auto simp: net_ParseCIDR_def masked_def addr_Is4_iff split: option.splits if_splits addr.splits)
  ultimately have s: "s = ip4_String w" by (simp add: parseAddr_V4)
  with assms(1) show ?thesis by (auto simp: net_ParseCIDR_host)
qed

end
