(* ===== verification/Keys.thy ===== *)
theory Keys
  imports Encoding GoNet
begin

text \<open>
  Key material (\<open>src/internal/keys/keys.go\<close>). The WireGuard, age and Ed25519 primitives are
  parameters: a record of functions each, with what the program relies on as a predicate
  (\<open>wglib_ok\<close>, \<open>agelib_ok\<close>, \<open>edlib_ok\<close>). A parsed key is its bytes. The last section gives one
  concrete instance of each record for the witnesses.
\<close>

section \<open>Third-party interfaces\<close>

text \<open>\<open>wgtypes\<close>: \<open>ParseKey\<close>, \<open>NewKey\<close>, \<open>Key.String\<close>, \<open>Key.PublicKey\<close>, \<open>GeneratePrivateKey\<close>
  (from a source of randomness).\<close>

record wglib =
  wg_ParseKey :: "string \<Rightarrow> bytes res"
  wg_NewKey :: "bytes \<Rightarrow> bytes res"
  wg_String :: "bytes \<Rightarrow> string"
  wg_PublicKey :: "bytes \<Rightarrow> bytes"
  wg_Generate :: "nat \<Rightarrow> bytes res"

text \<open>\<open>age\<close>: X25519 identities and recipients, encryption to a list of recipients and
  decryption with one identity. A decryption that starts gives the plaintext up to where the
  authenticated stream ends or breaks.\<close>

record agelib =
  age_ParseX25519Identity :: "string \<Rightarrow> bytes res"
  age_ParseX25519Recipient :: "string \<Rightarrow> bytes res"
  age_IdentityString :: "bytes \<Rightarrow> string"
  age_RecipientString :: "bytes \<Rightarrow> string"
  age_Recipient :: "bytes \<Rightarrow> bytes"
  age_Generate :: "nat \<Rightarrow> bytes res"
  age_Encrypt :: "nat \<Rightarrow> bytes list \<Rightarrow> bytes \<Rightarrow> bytes res"
  age_Decrypt :: "bytes \<Rightarrow> bytes \<Rightarrow> (bytes \<times> error option) res"

record edlib =
  ed_Generate :: "nat \<Rightarrow> (bytes \<times> bytes) res"
  ed_Public :: "bytes \<Rightarrow> bytes"
  ed_Sign :: "bytes \<Rightarrow> bytes \<Rightarrow> bytes"
  ed_Verify :: "bytes \<Rightarrow> bytes \<Rightarrow> bytes \<Rightarrow> bool"

text \<open>What the program relies on. A WireGuard key is 32 bytes; its printed form has no white
  space and parses back.\<close>

definition wglib_ok :: "wglib \<Rightarrow> bool" where
  "wglib_ok W \<longleftrightarrow>
     (\<forall>s k. wg_ParseKey W s = Inr k \<longrightarrow> length k = 32) \<and>
     (\<forall>k. length k = 32 \<longrightarrow> wg_ParseKey W (wg_String W k) = Inr k) \<and>
     (\<forall>k. length k = 32 \<longrightarrow> wg_NewKey W k = Inr k) \<and>
     (\<forall>k. length k \<noteq> 32 \<longrightarrow> \<not> is_ok (wg_NewKey W k)) \<and>
     (\<forall>k. list_all (\<lambda>c. \<not> is_space c) (wg_String W k)) \<and>
     (\<forall>k. length k = 32 \<longrightarrow> wg_String W k \<noteq> [])"

text \<open>What is encrypted to a list of recipients decrypts, whole, with the identity of each, and
  with no other identity; the ciphertext is no shorter than the plaintext.\<close>

definition agelib_ok :: "agelib \<Rightarrow> bool" where
  "agelib_ok A \<longleftrightarrow>
     (\<forall>rnd rs m c i. age_Encrypt A rnd rs m = Inr c \<longrightarrow> age_Recipient A i \<in> set rs \<longrightarrow>
        age_Decrypt A c i = Inr (m, None)) \<and>
     (\<forall>rnd rs m c i. age_Encrypt A rnd rs m = Inr c \<longrightarrow> age_Recipient A i \<notin> set rs \<longrightarrow>
        \<not> is_ok (age_Decrypt A c i)) \<and>
     (\<forall>rnd rs m c. age_Encrypt A rnd rs m = Inr c \<longrightarrow> length m \<le> length c)"

definition edlib_ok :: "edlib \<Rightarrow> bool" where
  "edlib_ok E \<longleftrightarrow>
     (\<forall>k m. length k = 64 \<longrightarrow> ed_Verify E (ed_Public E k) m (ed_Sign E k m)) \<and>
     (\<forall>k m. ed_Sign E k m \<noteq> [])"

section \<open>The package keys\<close>

definition GenerateWGKeypair :: "wglib \<Rightarrow> nat \<Rightarrow> (string \<times> string) res" where
  "GenerateWGKeypair W rnd =
     bindR (wg_Generate W rnd) (\<lambda>priv. Inr (wg_String W priv, wg_String W (wg_PublicKey W priv)))"

definition PublicKeyFromWGPrivate :: "wglib \<Rightarrow> string \<Rightarrow> string res" where
  "PublicKeyFromWGPrivate W privateKey =
     bindR (wrapR ''parse WireGuard private key'' (wg_ParseKey W (trimSpace privateKey)))
       (\<lambda>priv. Inr (wg_String W (wg_PublicKey W priv)))"

definition ParseWGPublic :: "wglib \<Rightarrow> string \<Rightarrow> bytes res" where
  "ParseWGPublic W key = wrapR ''parse WireGuard public key'' (wg_ParseKey W (trimSpace key))"

definition ParseWGPrivate :: "wglib \<Rightarrow> string \<Rightarrow> bytes res" where
  "ParseWGPrivate W key = wrapR ''parse WireGuard private key'' (wg_ParseKey W (trimSpace key))"

definition WGKeyToBytes :: "wglib \<Rightarrow> string \<Rightarrow> bytes res" where
  "WGKeyToBytes W key = wrapR ''decode WireGuard key'' (wg_ParseKey W (trimSpace key))"

definition WGKeyFromBytes :: "wglib \<Rightarrow> bytes \<Rightarrow> string res" where
  "WGKeyFromBytes W raw =
     bindR (wrapR ''encode WireGuard key'' (wg_NewKey W raw)) (\<lambda>k. Inr (wg_String W k))"

definition GenerateAgeIdentity :: "agelib \<Rightarrow> nat \<Rightarrow> (string \<times> string) res" where
  "GenerateAgeIdentity A rnd =
     bindR (age_Generate A rnd)
       (\<lambda>i. Inr (age_IdentityString A i, age_RecipientString A (age_Recipient A i)))"

definition ParseAgeIdentity :: "agelib \<Rightarrow> string \<Rightarrow> bytes res" where
  "ParseAgeIdentity A s = wrapR ''parse age identity'' (age_ParseX25519Identity A (trimSpace s))"

definition ParseAgeRecipient :: "agelib \<Rightarrow> string \<Rightarrow> bytes res" where
  "ParseAgeRecipient A s = wrapR ''parse age recipient'' (age_ParseX25519Recipient A (trimSpace s))"

definition AgeRecipientFromIdentity :: "agelib \<Rightarrow> string \<Rightarrow> string res" where
  "AgeRecipientFromIdentity A s =
     bindR (ParseAgeIdentity A s) (\<lambda>i. Inr (age_RecipientString A (age_Recipient A i)))"

definition GenerateEd25519Keypair :: "edlib \<Rightarrow> nat \<Rightarrow> (string \<times> string) res" where
  "GenerateEd25519Keypair E rnd =
     bindR (ed_Generate E rnd) (\<lambda>(pub, priv). Inr (std_encode pub, std_encode priv))"

definition ed25519_PublicKeySize :: nat where "ed25519_PublicKeySize = 32"
definition ed25519_PrivateKeySize :: nat where "ed25519_PrivateKeySize = 64"

definition DecodeEd25519Public :: "string \<Rightarrow> bytes res" where
  "DecodeEd25519Public key =
     (case std_decode (trimSpace key) of
        None \<Rightarrow> Inl (Wrap ''decode ed25519 public key'' (Err ''base64''))
      | Some decoded \<Rightarrow>
          if length decoded \<noteq> ed25519_PublicKeySize then Inl (Err ''ed25519 public key size'')
          else Inr decoded)"

definition DecodeEd25519Private :: "string \<Rightarrow> bytes res" where
  "DecodeEd25519Private key =
     (case std_decode (trimSpace key) of
        None \<Rightarrow> Inl (Wrap ''decode ed25519 private key'' (Err ''base64''))
      | Some decoded \<Rightarrow>
          if length decoded \<noteq> ed25519_PrivateKeySize then Inl (Err ''ed25519 private key size'')
          else Inr decoded)"

definition ValidateEd25519Pair :: "edlib \<Rightarrow> string \<Rightarrow> string \<Rightarrow> unit res" where
  "ValidateEd25519Pair E publicKey privateKey =
     bindR (DecodeEd25519Public publicKey) (\<lambda>pub.
     bindR (DecodeEd25519Private privateKey) (\<lambda>priv.
       if ed_Public E priv \<noteq> pub
       then Inl (Err ''ed25519 publisher private key does not match public key'')
       else Inr ()))"

section \<open>Facts\<close>

lemma std_encode_no_space: "list_all (\<lambda>c. \<not> is_space c) (std_encode b)"
proof -
  let ?ds = "b64_digits (bytes_nat b)"
  have "list_all (\<lambda>d. d < length b64_std) ?ds"
    using b64_digits_lt [OF bytes_nat_lt] by (simp add: b64_alphabets)
  then have m: "set (map (\<lambda>i. b64_std ! i) ?ds) \<subseteq> set b64_std" by (rule set_map_nth)
  have "list_all (\<lambda>c. \<not> is_space c) b64_std"
    by (simp add: b64_std_def b64_common_def is_space_def)
  with m show ?thesis
    by (auto simp: std_encode_def Let_def b64_pad_def list_all_iff is_space_def)
qed

lemma trimSpace_std_encode [simp]: "trimSpace (std_encode b) = std_encode b"
  by (rule trimSpace_no_space) (rule std_encode_no_space)

lemma decode_ed25519_encoded:
  "length b = 32 \<Longrightarrow> DecodeEd25519Public (std_encode b) = Inr b"
  "length k = 64 \<Longrightarrow> DecodeEd25519Private (std_encode k) = Inr k"
  by (simp_all add: DecodeEd25519Public_def DecodeEd25519Private_def std_roundtrip
      ed25519_PublicKeySize_def ed25519_PrivateKeySize_def)

lemma decode_ed25519_size:
  "DecodeEd25519Public s = Inr b \<Longrightarrow> length b = 32"
  "DecodeEd25519Private s = Inr k \<Longrightarrow> length k = 64"
  by (auto simp: DecodeEd25519Public_def DecodeEd25519Private_def ed25519_PublicKeySize_def
      ed25519_PrivateKeySize_def split: option.splits if_splits)

lemma ValidateEd25519Pair_iff:
  "ValidateEd25519Pair E s t = Inr () \<longleftrightarrow>
     (\<exists>k. DecodeEd25519Private t = Inr k \<and> DecodeEd25519Public s = Inr (ed_Public E k))"
  by (auto simp: ValidateEd25519Pair_def split: if_splits)

lemma trimSpace_wg_String: "wglib_ok W \<Longrightarrow> trimSpace (wg_String W k) = wg_String W k"
  by (rule trimSpace_no_space) (simp add: wglib_ok_def)

lemma wg_String_nonempty: "wglib_ok W \<Longrightarrow> length k = 32 \<Longrightarrow> wg_String W k \<noteq> []"
  by (simp add: wglib_ok_def)

lemma wg_key_bytes:
  assumes "wglib_ok W"
  shows "length k = 32 \<Longrightarrow> WGKeyToBytes W (wg_String W k) = Inr k"
    and "length k = 32 \<Longrightarrow> ParseWGPublic W (wg_String W k) = Inr k"
    and "length k = 32 \<Longrightarrow> WGKeyFromBytes W k = Inr (wg_String W k)"
    and "WGKeyToBytes W s = Inr k \<Longrightarrow> length k = 32"
    and "WGKeyFromBytes W k = Inr s \<longleftrightarrow> length k = 32 \<and> s = wg_String W k"
proof -
  show "WGKeyFromBytes W k = Inr s \<longleftrightarrow> length k = 32 \<and> s = wg_String W k"
    using assms by (cases "length k = 32") (auto simp: WGKeyFromBytes_def wglib_ok_def is_ok_iff)
qed (use assms trimSpace_wg_String [OF assms, of k] in
    \<open>auto simp: WGKeyToBytes_def ParseWGPublic_def WGKeyFromBytes_def wglib_ok_def\<close>)

lemma ParseWGPublic_WGKeyToBytes: "ParseWGPublic W s = Inr k \<longleftrightarrow> WGKeyToBytes W s = Inr k"
  by (simp add: ParseWGPublic_def WGKeyToBytes_def)

section \<open>A concrete instance\<close>

text \<open>Base64 for the WireGuard keys, a header that lists the recipients in place of encryption and
  a tag in place of a signature: enough to run the model on an input.\<close>

definition demo_stanza :: "bytes \<Rightarrow> string" where "demo_stanza r = ''x'' @ hex_encode r"

definition demo_wg :: wglib where
  "demo_wg =
     \<lparr>wg_ParseKey = (\<lambda>s. case std_decode s of None \<Rightarrow> Inl (Err ''base64'')
                      | Some k \<Rightarrow> if length k = 32 then Inr k else Inl (Err ''key length'')),
      wg_NewKey = (\<lambda>b. if length b = 32 then Inr b else Inl (Err ''key length'')),
      wg_String = std_encode,
      wg_PublicKey = id,
      wg_Generate = (\<lambda>n. Inr (replicate 32 (char_of n)))\<rparr>"

definition demo_age :: agelib where
  "demo_age =
     \<lparr>age_ParseX25519Identity = (\<lambda>s. if s = [] then Inl (Err ''identity'') else Inr s),
      age_ParseX25519Recipient = (\<lambda>s. if s = [] then Inl (Err ''recipient'') else Inr s),
      age_IdentityString = id,
      age_RecipientString = id,
      age_Recipient = id,
      age_Generate = (\<lambda>n. Inr ''k''),
      age_Encrypt = (\<lambda>rnd rs m. Inr (joinWith '','' (map demo_stanza rs) @ '';'' @ m)),
      age_Decrypt = (\<lambda>c i. case cutOn (CHR '';'') c of
                       None \<Rightarrow> Inl (Err ''header'')
                     | Some (h, m) \<Rightarrow>
                         if demo_stanza i \<in> set (splitOn (CHR '','') h) then Inr (m, None)
                         else Inl (Err ''no identity matched''))\<rparr>"

definition demo_ed :: edlib where
  "demo_ed =
     \<lparr>ed_Generate = (\<lambda>n. Inr (replicate 32 (char_of n), replicate 64 (char_of n))),
      ed_Public = take 32,
      ed_Sign = (\<lambda>k m. ''s'' @ m),
      ed_Verify = (\<lambda>p m s. s = ''s'' @ m)\<rparr>"

lemma demo_wg_ok: "wglib_ok demo_wg"
proof -
  have "std_encode k \<noteq> []" if "length k = 32" for k
  proof
    assume "std_encode k = []"
    then have "Some k = Some []" using std_roundtrip [of k] by (simp add: std_decode_def skip_newlines_def b64_pad_def nat_bytes_def)
    with that show False by simp
  qed
  then show ?thesis
    by (auto simp: wglib_ok_def demo_wg_def std_roundtrip std_encode_no_space
        split: option.splits if_splits)
qed

lemma hex_encode_chars: "set (hex_encode b) \<subseteq> set hex_digits"
proof -
  have "length hex_digits = 16" by (simp add: hex_digits_def)
  then show ?thesis by (auto simp: hex_encode_def less_mult_imp_div_less intro!: nth_mem)
qed

lemma demo_stanza_clean: "CHR '','' \<notin> set (demo_stanza r)" "CHR '';'' \<notin> set (demo_stanza r)"
proof -
  have "CHR '','' \<notin> set hex_digits" and "CHR '';'' \<notin> set hex_digits" by (simp_all add: hex_digits_def)
  then show "CHR '','' \<notin> set (demo_stanza r)" "CHR '';'' \<notin> set (demo_stanza r)"
    using hex_encode_chars [of r] by (auto simp: demo_stanza_def)
qed

lemma demo_stanza_inject: "demo_stanza r = demo_stanza q \<longleftrightarrow> r = q"
  by (simp add: demo_stanza_def hexa.enc_eq_iff)

lemma demo_header_clean: "CHR '';'' \<notin> set (joinWith '','' (map demo_stanza rs))"
proof (induction rs)
  case (Cons r rs)
  then show ?case by (cases rs) (auto simp: demo_stanza_clean)
qed simp

lemma demo_header_stanzas:
  "demo_stanza i \<in> set (splitOn (CHR '','') (joinWith '','' (map demo_stanza rs))) \<longleftrightarrow> i \<in> set rs"
proof (cases "rs = []")
  case True
  then show ?thesis by (simp add: demo_stanza_def)
next
  case False
  then have "splitOn (CHR '','') (joinWith '','' (map demo_stanza rs)) = map demo_stanza rs"
    by (intro splitOn_joinWith) (auto simp: demo_stanza_clean)
  then show ?thesis by (auto simp: demo_stanza_inject)
qed

lemma demo_age_ok: "agelib_ok demo_age"
  by (auto simp: agelib_ok_def demo_age_def demo_header_clean demo_header_stanzas)

lemma demo_ed_ok: "edlib_ok demo_ed"
  by (simp add: edlib_ok_def demo_ed_def)

end
