(* ===== verification/Directory.thy ===== *)
theory Directory
  imports Keys
begin

text \<open>
  The directory of the network (\<open>src/internal/directory\<close>: \<open>directory.go\<close>, \<open>ipalloc.go\<close>,
  \<open>dnsname.go\<close>, \<open>serial.go\<close> and the validation of \<open>codec.go\<close>): the data every member holds, the
  choice of a relay, the allocation of tunnel addresses, the rules on DNS names, and what a
  directory has to satisfy before it is published or believed.
\<close>

section \<open>Data\<close>

definition SchemaVersion :: u32 where "SchemaVersion = 2"

record node =
  n_Name :: string
  n_PublicKey :: string
  n_TunnelIP :: string
  n_AgeRecipient :: string
  n_Endpoint :: string
  n_Relay :: bool
  n_ObservedEndpoint :: string
  n_ObservedAt :: gotime
  n_PSK :: string

record directory =
  d_SchemaVersion :: u32
  d_Serial :: u64
  d_CreatedAt :: gotime
  d_NetworkCIDR :: string
  d_Domain :: string
  d_Nodes :: "node list"

definition zero_node :: node where
  "zero_node = \<lparr>n_Name = [], n_PublicKey = [], n_TunnelIP = [], n_AgeRecipient = [], n_Endpoint = [],
     n_Relay = False, n_ObservedEndpoint = [], n_ObservedAt = 0, n_PSK = []\<rparr>"

definition IsPlainWireGuard :: "node \<Rightarrow> bool" where
  "IsPlainWireGuard n = (n_AgeRecipient n = [])"

section \<open>Relay selection\<close>

text \<open>The loop of \<open>RelayTarget\<close>: \<open>i\<close> is the index of the node at hand, \<open>fallback\<close> the index of the
  first reachable node seen.\<close>

fun relayTarget_loop :: "node list \<Rightarrow> string \<Rightarrow> nat \<Rightarrow> nat option \<Rightarrow> node list \<Rightarrow> node option" where
  "relayTarget_loop nodes selfPubKey i fallback [] =
     (case fallback of Some f \<Rightarrow> Some (nodes ! f) | None \<Rightarrow> None)"
| "relayTarget_loop nodes selfPubKey i fallback (n # rest) =
     (if n_PublicKey n = selfPubKey \<or> n_Endpoint n = [] then
        relayTarget_loop nodes selfPubKey (Suc i) fallback rest
      else if n_Relay n then Some n
      else relayTarget_loop nodes selfPubKey (Suc i) (if fallback = None then Some i else fallback) rest)"

definition RelayTarget :: "directory \<Rightarrow> string \<Rightarrow> node option" where
  "RelayTarget dir selfPubKey = relayTarget_loop (d_Nodes dir) selfPubKey 0 None (d_Nodes dir)"

text \<open>Its specification: the first reachable marked node, else the first reachable one.\<close>

definition reachable_node :: "string \<Rightarrow> node \<Rightarrow> bool" where
  "reachable_node self n = (n_PublicKey n \<noteq> self \<and> n_Endpoint n \<noteq> [])"

definition first_sat :: "('a \<Rightarrow> bool) \<Rightarrow> 'a list \<Rightarrow> 'a option" where
  "first_sat P xs = find P xs"

definition relay_spec :: "directory \<Rightarrow> string \<Rightarrow> node option" where
  "relay_spec dir self =
     (case first_sat (\<lambda>n. reachable_node self n \<and> n_Relay n) (d_Nodes dir) of
        Some n \<Rightarrow> Some n
      | None \<Rightarrow> first_sat (reachable_node self) (d_Nodes dir))"

lemma relayTarget_loop_spec:
  "relayTarget_loop nodes self i fallback rest =
     (case find (\<lambda>n. reachable_node self n \<and> n_Relay n) rest of
        Some n \<Rightarrow> Some n
      | None \<Rightarrow> (case fallback of Some f \<Rightarrow> Some (nodes ! f)
                 | None \<Rightarrow> find (reachable_node self) rest))"
  if "rest = drop i nodes"
  using that
proof (induction rest arbitrary: i fallback)
  case Nil
  show ?case by (simp split: option.split)
next
  case (Cons n rest)
  then have n: "nodes ! i = n" and r: "rest = drop (Suc i) nodes"
    by (metis nth_via_drop, metis drop_Suc list.sel(3) tl_drop)
  show ?case
    using Cons.IH [OF r] n by (auto simp: reachable_node_def split: option.splits)
qed

lemma RelayTarget_spec: "RelayTarget dir self = relay_spec dir self"
  by (auto simp: RelayTarget_def relay_spec_def first_sat_def relayTarget_loop_spec split: option.split)

lemma first_sat_Some: "first_sat P xs = Some x \<Longrightarrow> x \<in> set xs \<and> P x"
  by (auto simp: first_sat_def find_Some_iff)

lemma first_sat_None: "first_sat P xs = None \<longleftrightarrow> (\<forall>x \<in> set xs. \<not> P x)"
  by (auto simp: first_sat_def find_None_iff)

lemma first_sat_Some_iff:
  "first_sat P xs = Some x \<longleftrightarrow> (\<exists>ys zs. xs = ys @ x # zs \<and> P x \<and> (\<forall>y \<in> set ys. \<not> P y))"
proof (induction xs)
  case (Cons a xs)
  show ?case
  proof (cases "P a")
    case True
    then show ?thesis by (auto simp: first_sat_def Cons_eq_append_conv)
  next
    case False
    then have "first_sat P (a # xs) = first_sat P xs" by (simp add: first_sat_def)
    moreover have "(\<exists>ys zs. a # xs = ys @ x # zs \<and> P x \<and> (\<forall>y \<in> set ys. \<not> P y)) \<longleftrightarrow>
        (\<exists>ys zs. xs = ys @ x # zs \<and> P x \<and> (\<forall>y \<in> set ys. \<not> P y))" (is "?l \<longleftrightarrow> ?r")
    proof
      assume ?l
      then obtain ys zs where l: "a # xs = ys @ x # zs" "P x" "\<forall>y \<in> set ys. \<not> P y" by blast
      with False show ?r by (cases ys) auto
    next
      assume ?r
      then obtain ys zs where "xs = ys @ x # zs" "P x" "\<forall>y \<in> set ys. \<not> P y" by blast
      with False show ?l by (intro exI [of _ "a # ys"] exI [of _ zs]) simp
    qed
    ultimately show ?thesis using Cons by simp
  qed
qed (simp add: first_sat_def)

lemma RelayTarget_reachable:
  "RelayTarget dir self = Some t \<Longrightarrow> t \<in> set (d_Nodes dir) \<and> reachable_node self t"
  by (auto simp: RelayTarget_spec relay_spec_def split: option.splits dest: first_sat_Some)

lemma RelayTarget_None:
  "RelayTarget dir self = None \<longleftrightarrow> (\<forall>n \<in> set (d_Nodes dir). \<not> reachable_node self n)"
  by (auto simp: RelayTarget_spec relay_spec_def first_sat_None split: option.splits dest: first_sat_Some)

text \<open>A node other than the hub of the whole network sees that hub as its own target.\<close>

lemma first_sat_mono:
  "first_sat P xs = Some x \<Longrightarrow> Q x \<Longrightarrow> (\<And>y. y \<in> set xs \<Longrightarrow> Q y \<Longrightarrow> P y) \<Longrightarrow> first_sat Q xs = Some x"
  by (induction xs) (auto simp: first_sat_def split: if_splits)

section \<open>Address allocation\<close>

definition addrToUint32 :: "addr \<Rightarrow> u32" where
  "addrToUint32 a =
     (case a of V4 w \<Rightarrow>
        (let b = ip4_bytes w
         in push_bit 24 (ucast (b ! 0)) OR push_bit 16 (ucast (b ! 1)) OR push_bit 8 (ucast (b ! 2))
            OR ucast (b ! 3))
      | V6 w z \<Rightarrow> 0)"

definition uint32ToAddr :: "u32 \<Rightarrow> addr" where
  "uint32ToAddr n =
     V4 (ip4_of_bytes [ucast (drop_bit 24 n), ucast (drop_bit 16 n), ucast (drop_bit 8 n), ucast n])"

definition addr_String4 :: "addr \<Rightarrow> string" where
  "addr_String4 a = (case a of V4 w \<Rightarrow> ip4_String w | V6 w z \<Rightarrow> ip_String w)"

text \<open>The loop over the 64-bit counter, which stays far below its range: the last address is
  below \<open>2 ^ 32\<close>.\<close>

function nextFree_loop :: "u32 list \<Rightarrow> nat \<Rightarrow> nat \<Rightarrow> string option" where
  "nextFree_loop used n lst =
     (if n \<le> lst then
        if word_of_nat n \<in> set used then nextFree_loop used (Suc n) lst
        else Some (addr_String4 (uint32ToAddr (word_of_nat n)))
      else None)"
  by pat_completeness auto
termination by (relation "measure (\<lambda>(used, n, lst). Suc lst - n)") auto

declare nextFree_loop.simps [simp del]

fun takenAddrs :: "string list \<Rightarrow> u32 list res" where
  "takenAddrs [] = Inr []"
| "takenAddrs (raw # rest) =
     (case parseAddr raw of
        None \<Rightarrow> Inl (Err ''invalid taken IPv4 address'')
      | Some a \<Rightarrow>
          if \<not> addr_Is4 a then Inl (Err ''invalid taken IPv4 address'')
          else bindR (takenAddrs rest) (\<lambda>us. Inr (addrToUint32 a # us)))"

definition NextFreeIP :: "string \<Rightarrow> string list \<Rightarrow> string res" where
  "NextFreeIP cidr taken =
     (case parsePrefix cidr of
        None \<Rightarrow> Inl (Wrap ''parse CIDR'' (Err ''netip''))
      | Some prefix0 \<Rightarrow>
          if \<not> addr_Is4 (p_Addr prefix0) then Inl (Err ''only IPv4 tunnel CIDRs are supported'')
          else
            let prefix = masked prefix0; bits = p_Bits prefix
            in if bits > 32 then Inl (Err ''invalid IPv4 prefix length'')
               else bindR (takenAddrs taken) (\<lambda>used.
                 let network = unat (addrToUint32 (p_Addr prefix));
                     size = 2 ^ (32 - bits);
                     first0 = network; last0 = network + size - 1;
                     frst = (if bits \<le> 30 then first0 + 1 else first0);
                     lst = (if bits \<le> 30 then last0 - 1 else last0)
                 in case nextFree_loop used frst lst of
                      Some ip \<Rightarrow> Inr ip
                    | None \<Rightarrow> Inl (Err ''no free IPs'')))"

lemma addrToUint32_V4 [simp]: "addrToUint32 (V4 w) = w"
proof -
  have "addrToUint32 (V4 w) = ip4_of_bytes (ip4_bytes w)"
    by (simp add: addrToUint32_def ip4_bytes_def Let_def numeral_eq_Suc)
  then show ?thesis by simp
qed

lemma uint32ToAddr_eq [simp]: "uint32ToAddr w = V4 w"
  unfolding uint32ToAddr_def ip4_bytes_def [symmetric] by simp

lemma takenAddrs_Inr:
  "takenAddrs taken = Inr us \<longleftrightarrow> taken = map ip4_String us"
proof (induction taken arbitrary: us)
  case (Cons raw taken)
  show ?case
  proof (cases "\<exists>w. raw = ip4_String w")
    case True
    then obtain w where "raw = ip4_String w" by blast
    then show ?thesis using Cons by auto
  next
    case False
    then have "\<not> (\<exists>w. parseAddr raw = Some (V4 w))" by (simp add: parseAddr_V4)
    with False show ?thesis by (auto simp: addr_Is4_iff split: option.splits)
  qed
qed auto

lemma nextFree_loop_Some:
  "nextFree_loop used n lst = Some s \<longleftrightarrow>
     (\<exists>m. n \<le> m \<and> m \<le> lst \<and> s = ip4_String (word_of_nat m) \<and> word_of_nat m \<notin> set used \<and>
          (\<forall>k. n \<le> k \<and> k < m \<longrightarrow> word_of_nat k \<in> set used))"
proof (induction used n lst arbitrary: s rule: nextFree_loop.induct)
  case (1 used n lst)
  show ?case
  proof (cases "n \<le> lst \<and> word_of_nat n \<in> set used")
    case True
    then have "nextFree_loop used n lst = nextFree_loop used (Suc n) lst"
      by (subst nextFree_loop.simps) simp
    moreover have "(\<exists>m. n \<le> m \<and> m \<le> lst \<and> s = ip4_String (word_of_nat m) \<and> word_of_nat m \<notin> set used \<and>
          (\<forall>k. n \<le> k \<and> k < m \<longrightarrow> word_of_nat k \<in> set used)) \<longleftrightarrow>
        (\<exists>m. Suc n \<le> m \<and> m \<le> lst \<and> s = ip4_String (word_of_nat m) \<and> word_of_nat m \<notin> set used \<and>
          (\<forall>k. Suc n \<le> k \<and> k < m \<longrightarrow> word_of_nat k \<in> set used))"
      by (metis True Suc_leD le_eq_less_or_eq less_eq_Suc_le)
    ultimately show ?thesis using 1 True by simp
  next
    case False
    then have "nextFree_loop used n lst = (if n \<le> lst then Some (ip4_String (word_of_nat n)) else None)"
      by (subst nextFree_loop.simps) (simp add: addr_String4_def)
    with False show ?thesis by (auto intro: le_neq_implies_less)
  qed
qed

lemma nextFree_loop_None:
  "nextFree_loop used n lst = None \<longleftrightarrow> (\<forall>m. n \<le> m \<and> m \<le> lst \<longrightarrow> word_of_nat m \<in> set used)"
proof (induction used n lst rule: nextFree_loop.induct)
  case (1 used n lst)
  then show ?case
    by (subst nextFree_loop.simps) (auto simp: le_Suc_eq, metis Suc_leI le_neq_implies_less)
qed

text \<open>The assignable addresses of a prefix: all of them for /31 and /32, without the network and
  the broadcast address otherwise.\<close>

definition usable :: "prefix \<Rightarrow> u32 \<Rightarrow> bool" where
  "usable p w =
     (prefix_Contains p (V4 w) \<and>
      (p_Bits p \<le> 30 \<longrightarrow>
        (case p_Addr (masked p) of V4 net \<Rightarrow>
           w \<noteq> net \<and> unat w \<noteq> unat net + 2 ^ (32 - p_Bits p) - 1
         | V6 _ _ \<Rightarrow> False)))"

lemma mask_word_room:
  assumes "bits \<le> 32"
  shows "unat (mask_word 32 bits (u :: u32)) + 2 ^ (32 - bits) \<le> 2 ^ 32"
proof -
  let ?s = "2 ^ (32 - bits) :: nat"
  have "unat u < 2 ^ 32" using unsigned_less [of u, where ?'a = nat] by simp
  also have "(2 :: nat) ^ 32 = 2 ^ bits * ?s" using assms by (simp flip: power_add)
  finally have "unat u div ?s < 2 ^ bits" by (simp add: less_mult_imp_div_less)
  then have "Suc (unat u div ?s) * ?s \<le> 2 ^ bits * ?s" by (intro mult_right_mono) simp_all
  also have "\<dots> = 2 ^ 32" using assms by (simp flip: power_add)
  finally show ?thesis by (simp only: unat_mask_word mult_Suc add.commute)
qed

lemma unat_word_of_nat32: "m < 2 ^ 32 \<Longrightarrow> unat (word_of_nat m :: u32) = m"
  by (simp add: unat_of_nat)

text \<open>The bounds of the loop enumerate the usable addresses.\<close>

definition loop_bounds :: "prefix \<Rightarrow> nat \<times> nat" where
  "loop_bounds p =
     (let network = unat (addrToUint32 (p_Addr (masked p))); size = 2 ^ (32 - p_Bits p)
      in (if p_Bits p \<le> 30 then network + 1 else network,
          if p_Bits p \<le> 30 then network + size - 1 - 1 else network + size - 1))"

lemma loop_bounds_usable:
  assumes "p_Addr p = V4 u" and "p_Bits p \<le> 32" and "loop_bounds p = (f, l)"
  shows "l < 2 ^ 32" and "usable p w \<longleftrightarrow> f \<le> unat w \<and> unat w \<le> l"
proof -
  define net where "net = unat (mask_word 32 (p_Bits p) u)"
  define sz where "sz = (2 ^ (32 - p_Bits p) :: nat)"
  have m: "p_Addr (masked p) = V4 (mask_word 32 (p_Bits p) u)" using assms(1) by (simp add: masked_def)
  have room: "net + sz \<le> 2 ^ 32" unfolding net_def sz_def using assms(2) by (rule mask_word_room)
  have s: "0 < sz" by (simp add: sz_def)
  have s4: "p_Bits p \<le> 30 \<Longrightarrow> 4 \<le> sz"
    using power_increasing [of 2 "32 - p_Bits p" "2 :: nat"] by (simp add: sz_def)
  have f: "f = (if p_Bits p \<le> 30 then net + 1 else net)"
    and l: "l = (if p_Bits p \<le> 30 then net + sz - 1 - 1 else net + sz - 1)"
    using assms(3) m by (auto simp: loop_bounds_def Let_def net_def sz_def)
  from l have "l \<le> net + sz - 1" by auto
  with s have "l < net + sz" by linarith
  with room show "l < 2 ^ 32" by (rule less_le_trans [rotated])
  have c: "prefix_Contains p (V4 w) \<longleftrightarrow> net \<le> unat w \<and> unat w < net + sz"
    unfolding sz_def using assms(1) net_def by (rule prefix_interval)
  have u: "usable p w \<longleftrightarrow> net \<le> unat w \<and> unat w < net + sz \<and>
      (p_Bits p \<le> 30 \<longrightarrow> unat w \<noteq> net \<and> unat w \<noteq> net + sz - 1)"
    unfolding usable_def c using m by (simp add: word_unat_eq_iff net_def sz_def)
  show "usable p w \<longleftrightarrow> f \<le> unat w \<and> unat w \<le> l"
  proof (cases "p_Bits p \<le> 30")
    case True
    then have "f = net + 1" and "l = net + sz - 2" using f l by simp_all
    with u True s4 show ?thesis by auto
  next
    case False
    with f l have "f = net" and "l = net + sz - 1" by simp_all
    with u False s show ?thesis by auto
  qed
qed

lemma NextFreeIP_loop:
  assumes "parsePrefix cidr = Some p" and "addr_Is4 (p_Addr p)"
  shows "NextFreeIP cidr taken =
    bindR (takenAddrs taken) (\<lambda>used.
      case nextFree_loop used (fst (loop_bounds p)) (snd (loop_bounds p)) of
        Some ip \<Rightarrow> Inr ip | None \<Rightarrow> Inl (Err ''no free IPs''))"
proof -
  have "p_Bits p \<le> 32" using parsePrefix_bits [OF assms(1)] assms(2) by (simp add: addr_BitLen_def)
  with assms show ?thesis
    by (simp add: NextFreeIP_def loop_bounds_def Let_def)
qed

section \<open>DNS names\<close>

definition NormalizeDomain :: "string \<Rightarrow> string" where
  "NormalizeDomain domain = toLower (trimSuffix domain ''.'')"

definition label_char :: "char \<Rightarrow> bool" where
  "label_char c = (is_lower c \<or> is_upper c \<or> is_digit c \<or> c = CHR ''-'')"

definition ValidateLabel :: "string \<Rightarrow> unit res" where
  "ValidateLabel name =
     (if name = [] then Inl (Err ''empty'')
      else if length name > 63 then Inl (Err ''too long (DNS labels max out at 63)'')
      else if hd name = CHR ''-'' \<or> last name = CHR ''-'' then
        Inl (Err ''must not start or end with a hyphen'')
      else if \<not> list_all label_char name then
        Inl (Err ''only letters, digits, and hyphens are allowed'')
      else Inr ())"

fun validateLabels :: "string list \<Rightarrow> unit res" where
  "validateLabels [] = Inr ()"
| "validateLabels (l # ls) =
     (case ValidateLabel l of Inl e \<Rightarrow> Inl (Err ''label'') | Inr _ \<Rightarrow> validateLabels ls)"

definition ValidateDomain :: "string \<Rightarrow> unit res" where
  "ValidateDomain domain =
     (if domain = [] then Inl (Err ''empty domain'')
      else if length domain > 253 then Inl (Err ''too long (DNS names max out at 253)'')
      else if domain \<noteq> NormalizeDomain domain then
        Inl (Err ''must be lowercase with no trailing dot'')
      else if parseAddr domain \<noteq> None then Inl (Err ''is an IP address, not a domain'')
      else validateLabels (splitOn (CHR ''.'') domain))"

lemma validateLabels_ok:
  "validateLabels ls = Inr () \<longleftrightarrow> (\<forall>l \<in> set ls. ValidateLabel l = Inr ())"
  by (induction ls) (auto split: sum.splits)

lemma ValidateLabel_ok:
  "ValidateLabel l = Inr () \<longleftrightarrow>
     l \<noteq> [] \<and> length l \<le> 63 \<and> hd l \<noteq> CHR ''-'' \<and> last l \<noteq> CHR ''-'' \<and> list_all label_char l"
  by (auto simp: ValidateLabel_def)

section \<open>Serials\<close>

definition IsRollback :: "u64 \<Rightarrow> u64 \<Rightarrow> bool" where
  "IsRollback newSerial cachedSerial = (newSerial < cachedSerial)"

section \<open>Validation\<close>

definition validateEndpoint :: "string \<Rightarrow> unit res" where
  "validateEndpoint endpoint =
     (if endpoint = [] then Inr ()
      else if containsAny endpoint [CHR 0x00, NL, CR, TAB] then Inl (Err ''contains control characters'')
      else case splitHostPort endpoint of
             None \<Rightarrow> Inl (Wrap ''must be host:port'' (Err ''net''))
           | Some (host, port) \<Rightarrow>
               if host = [] then Inl (Err ''has empty host'')
               else case atoi port of
                      None \<Rightarrow> Inl (Err ''has invalid port'')
                    | Some p \<Rightarrow> if p < 1 \<or> p > 65535 then Inl (Err ''has invalid port'') else Inr ())"

text \<open>The sets of names, lower-case names, keys and addresses the loop of \<open>Validate\<close> has seen.\<close>

record seen =
  seenNames :: "string list"
  seenLower :: "string list"
  seenKeys :: "string list"
  seenIPs :: "string list"

definition validateNode ::
  "wglib \<Rightarrow> agelib \<Rightarrow> string \<Rightarrow> prefix \<Rightarrow> seen \<Rightarrow> node \<Rightarrow> seen res" where
  "validateNode W A domain prefix s n =
     (if n_Name n = [] then Inl (Err ''directory contains node with empty name'')
      else if n_Name n \<in> set (seenNames s) then Inl (Err ''duplicate node name'')
      else bindR
        (if domain \<noteq> [] then
           (case ValidateLabel (n_Name n) of
              Inl e \<Rightarrow> Inl (Err ''node name is not a valid DNS label'')
            | Inr _ \<Rightarrow>
                if toLower (n_Name n) \<in> set (seenLower s) then Inl (Err ''node names resolve alike'')
                else Inr (toLower (n_Name n) # seenLower s))
         else Inr (seenLower s)) (\<lambda>lower.
        bindR (wrapR ''node has invalid WireGuard public key'' (ParseWGPublic W (n_PublicKey n))) (\<lambda>_.
        if n_PublicKey n \<in> set (seenKeys s) then Inl (Err ''duplicate node public key'')
        else case parseAddr (n_TunnelIP n) of
               None \<Rightarrow> Inl (Err ''node has invalid IPv4 tunnel IP'')
             | Some ip \<Rightarrow>
                 if \<not> addr_Is4 ip then Inl (Err ''node has invalid IPv4 tunnel IP'')
                 else if \<not> prefix_Contains prefix ip then Inl (Err ''node tunnel IP is outside the network'')
                 else if n_TunnelIP n \<in> set (seenIPs s) then Inl (Err ''duplicate tunnel IP'')
                 else bindR (wrapR ''node endpoint'' (validateEndpoint (n_Endpoint n))) (\<lambda>_.
                   bindR (wrapR ''node observed endpoint'' (validateEndpoint (n_ObservedEndpoint n))) (\<lambda>_.
                   bindR (if n_AgeRecipient n \<noteq> []
                          then wrapR ''node'' (bindR (ParseAgeRecipient A (n_AgeRecipient n)) (\<lambda>_. Inr ()))
                          else Inr ()) (\<lambda>_.
                   Inr \<lparr>seenNames = n_Name n # seenNames s, seenLower = lower,
                        seenKeys = n_PublicKey n # seenKeys s, seenIPs = n_TunnelIP n # seenIPs s\<rparr>))))))"

fun validateNodes :: "wglib \<Rightarrow> agelib \<Rightarrow> string \<Rightarrow> prefix \<Rightarrow> seen \<Rightarrow> node list \<Rightarrow> unit res" where
  "validateNodes W A domain prefix s [] = Inr ()"
| "validateNodes W A domain prefix s (n # ns) =
     bindR (validateNode W A domain prefix s n) (\<lambda>s'. validateNodes W A domain prefix s' ns)"

definition Validate :: "wglib \<Rightarrow> agelib \<Rightarrow> directory \<Rightarrow> unit res" where
  "Validate W A dir =
     (if d_SchemaVersion dir \<noteq> SchemaVersion then Inl (Err ''unsupported directory schema version'')
      else case parsePrefix (d_NetworkCIDR dir) of
             None \<Rightarrow> Inl (Wrap ''invalid network CIDR'' (Err ''netip''))
           | Some prefix0 \<Rightarrow>
               bindR (if d_Domain dir \<noteq> [] then
                        (case ValidateDomain (d_Domain dir) of
                           Inl e \<Rightarrow> Inl (Err ''invalid VPN domain'') | Inr _ \<Rightarrow> Inr ())
                      else Inr ()) (\<lambda>_.
               validateNodes W A (d_Domain dir) (masked prefix0)
                 \<lparr>seenNames = [], seenLower = [], seenKeys = [], seenIPs = []\<rparr> (d_Nodes dir)))"

text \<open>The specification: conditions on each node alone, and the fields that identify a node.\<close>

definition node_ok :: "wglib \<Rightarrow> agelib \<Rightarrow> string \<Rightarrow> prefix \<Rightarrow> node \<Rightarrow> bool" where
  "node_ok W A domain prefix n \<longleftrightarrow>
     n_Name n \<noteq> [] \<and>
     (domain \<noteq> [] \<longrightarrow> ValidateLabel (n_Name n) = Inr ()) \<and>
     is_ok (ParseWGPublic W (n_PublicKey n)) \<and>
     (\<exists>w. n_TunnelIP n = ip4_String w \<and> prefix_Contains prefix (V4 w)) \<and>
     validateEndpoint (n_Endpoint n) = Inr () \<and>
     validateEndpoint (n_ObservedEndpoint n) = Inr () \<and>
     (n_AgeRecipient n \<noteq> [] \<longrightarrow> is_ok (ParseAgeRecipient A (n_AgeRecipient n)))"

definition directory_ok :: "wglib \<Rightarrow> agelib \<Rightarrow> directory \<Rightarrow> bool" where
  "directory_ok W A dir \<longleftrightarrow>
     d_SchemaVersion dir = SchemaVersion \<and>
     (\<exists>p. parsePrefix (d_NetworkCIDR dir) = Some p \<and>
          list_all (node_ok W A (d_Domain dir) (masked p)) (d_Nodes dir)) \<and>
     (d_Domain dir \<noteq> [] \<longrightarrow>
        ValidateDomain (d_Domain dir) = Inr () \<and> distinct (map (toLower \<circ> n_Name) (d_Nodes dir))) \<and>
     distinct (map n_Name (d_Nodes dir)) \<and>
     distinct (map n_PublicKey (d_Nodes dir)) \<and>
     distinct (map n_TunnelIP (d_Nodes dir))"

lemma validateNode_ok:
  "validateNode W A domain prefix s n = Inr s' \<longleftrightarrow>
     node_ok W A domain prefix n \<and>
     n_Name n \<notin> set (seenNames s) \<and> n_PublicKey n \<notin> set (seenKeys s) \<and>
     n_TunnelIP n \<notin> set (seenIPs s) \<and>
     (domain \<noteq> [] \<longrightarrow> toLower (n_Name n) \<notin> set (seenLower s)) \<and>
     s' = \<lparr>seenNames = n_Name n # seenNames s,
           seenLower = (if domain \<noteq> [] then toLower (n_Name n) # seenLower s else seenLower s),
           seenKeys = n_PublicKey n # seenKeys s, seenIPs = n_TunnelIP n # seenIPs s\<rparr>"
proof -
  have ip: "(\<exists>w. n_TunnelIP n = ip4_String w \<and> prefix_Contains prefix (V4 w)) \<longleftrightarrow>
      (\<exists>ip. parseAddr (n_TunnelIP n) = Some ip \<and> addr_Is4 ip \<and> prefix_Contains prefix ip)"
    by (auto simp: addr_Is4_iff parseAddr_V4)
  show ?thesis
    unfolding node_ok_def ip validateNode_def
    by (auto simp: is_ok_iff split: option.splits sum.splits if_splits)
qed

lemma validateNodes_ok:
  "validateNodes W A domain prefix s ns = Inr () \<longleftrightarrow>
     list_all (node_ok W A domain prefix) ns \<and>
     distinct (map n_Name ns) \<and> set (map n_Name ns) \<inter> set (seenNames s) = {} \<and>
     distinct (map n_PublicKey ns) \<and> set (map n_PublicKey ns) \<inter> set (seenKeys s) = {} \<and>
     distinct (map n_TunnelIP ns) \<and> set (map n_TunnelIP ns) \<inter> set (seenIPs s) = {} \<and>
     (domain \<noteq> [] \<longrightarrow> distinct (map (toLower \<circ> n_Name) ns) \<and>
        set (map (toLower \<circ> n_Name) ns) \<inter> set (seenLower s) = {})"
proof (induction ns arbitrary: s)
  case (Cons n ns)
  show ?case by (simp add: validateNode_ok Cons) auto
qed simp

lemma Validate_ok: "Validate W A dir = Inr () \<longleftrightarrow> directory_ok W A dir"
  unfolding Validate_def directory_ok_def
  by (auto simp: validateNodes_ok split: option.splits sum.splits if_splits)

section \<open>Properties\<close>

definition demo_node :: "string \<Rightarrow> nat \<Rightarrow> string \<Rightarrow> string \<Rightarrow> bool \<Rightarrow> node" where
  "demo_node name k ip ep relay =
     zero_node\<lparr>n_Name := name, n_PublicKey := std_encode (replicate 32 (char_of k)), n_TunnelIP := ip,
       n_AgeRecipient := ''age'' @ decimal k, n_Endpoint := ep, n_Relay := relay\<rparr>"

lemma demo_node_fields:
  "n_Name (demo_node name k ip ep r) = name" "n_TunnelIP (demo_node name k ip ep r) = ip"
  "n_Endpoint (demo_node name k ip ep r) = ep" "n_Relay (demo_node name k ip ep r) = r"
  "n_AgeRecipient (demo_node name k ip ep r) = ''age'' @ decimal k"
  "n_ObservedEndpoint (demo_node name k ip ep r) = []" "n_PSK (demo_node name k ip ep r) = []"
  "n_PublicKey (demo_node name k ip ep r) = std_encode (replicate 32 (char_of k))"
  by (simp_all add: demo_node_def zero_node_def)

lemma demo_key_ok: "ParseWGPublic demo_wg (std_encode (replicate 32 c)) = Inr (replicate 32 c)"
  using wg_key_bytes(2) [OF demo_wg_ok, of "replicate 32 c"] by (simp add: demo_wg_def)

definition demo_dir :: directory where
  "demo_dir =
     \<lparr>d_SchemaVersion = 2, d_Serial = 5, d_CreatedAt = 7 * second, d_NetworkCIDR = ''10.42.0.0/29'',
      d_Domain = ''vpn'',
      d_Nodes = [demo_node ''a'' 65 ''10.42.0.1'' ''a.example:51820'' False,
                 demo_node ''b'' 66 ''10.42.0.2'' [] True,
                 demo_node ''c'' 67 ''10.42.0.3'' ''1.2.3.4:51820'' True]\<rparr>"

text \<open>\<open>RelayTarget\<close> returns a node exactly when some node other than the caller publishes an
  endpoint; the node it returns is the first reachable one that is marked as a relay, and when no
  reachable node is marked, the first reachable one.\<close>

theorem relay_target_choice:
  "RelayTarget dir self = Some t \<longleftrightarrow>
     (\<exists>ys zs. d_Nodes dir = ys @ t # zs \<and> n_PublicKey t \<noteq> self \<and> n_Endpoint t \<noteq> [] \<and>
        (if n_Relay t then list_all (\<lambda>y. \<not> (reachable_node self y \<and> n_Relay y)) ys
         else list_all (\<lambda>y. \<not> reachable_node self y) ys \<and>
              list_all (\<lambda>y. \<not> (reachable_node self y \<and> n_Relay y)) (d_Nodes dir)))"
proof (cases "first_sat (\<lambda>n. reachable_node self n \<and> n_Relay n) (d_Nodes dir)")
  case None
  then have "RelayTarget dir self = first_sat (reachable_node self) (d_Nodes dir)"
    by (simp add: RelayTarget_spec relay_spec_def)
  with None show ?thesis
    by (auto simp: first_sat_Some_iff first_sat_None list_all_iff reachable_node_def)
next
  case (Some r)
  then have r: "RelayTarget dir self = Some r" by (simp add: RelayTarget_spec relay_spec_def)
  let ?P = "\<lambda>n. reachable_node self n \<and> n_Relay n"
  have "r \<in> set (d_Nodes dir) \<and> ?P r" using Some by (rule first_sat_Some)
  moreover have "(\<exists>ys zs. d_Nodes dir = ys @ t # zs \<and> ?P t \<and> list_all (\<lambda>y. \<not> ?P y) ys) \<longleftrightarrow> r = t"
    using Some first_sat_Some_iff [of ?P "d_Nodes dir" t] by (auto simp: list_all_iff)
  ultimately show ?thesis unfolding r
    by (auto simp: list_all_iff reachable_node_def)
qed

text \<open>the hub of the network (the target computed for no node in particular) is the relay
  target of every member but itself, so that the members agree with the spokes on the hub.\<close>

theorem hub_is_common_target:
  assumes "list_all (\<lambda>n. n_PublicKey n \<noteq> []) (d_Nodes dir)"
    and "RelayTarget dir [] = Some hub" and "n_PublicKey hub \<noteq> self"
  shows "RelayTarget dir self = Some hub"
proof -
  let ?P = "\<lambda>k n. reachable_node k n \<and> n_Relay n"
  have sub: "reachable_node self n \<Longrightarrow> reachable_node [] n" if "n \<in> set (d_Nodes dir)" for n
    using that assms(1) by (auto simp: reachable_node_def list_all_iff)
  have h: "reachable_node self hub" using RelayTarget_reachable [OF assms(2)] assms(3)
    by (simp add: reachable_node_def)
  show ?thesis
  proof (cases "first_sat (?P []) (d_Nodes dir)")
    case None
    then have a: "first_sat (reachable_node []) (d_Nodes dir) = Some hub"
      using assms(2) by (simp add: RelayTarget_spec relay_spec_def)
    have "first_sat (?P self) (d_Nodes dir) = None" using None sub by (auto simp: first_sat_None)
    moreover have "first_sat (reachable_node self) (d_Nodes dir) = Some hub"
      using a h sub by (rule first_sat_mono)
    ultimately show ?thesis by (simp add: RelayTarget_spec relay_spec_def)
  next
    case (Some r)
    then have r: "first_sat (?P []) (d_Nodes dir) = Some hub"
      using assms(2) by (simp add: RelayTarget_spec relay_spec_def)
    have "first_sat (?P self) (d_Nodes dir) = Some hub"
      by (rule first_sat_mono [OF r]) (use h first_sat_Some [OF r] sub in auto)
    then show ?thesis by (simp add: RelayTarget_spec relay_spec_def)
  qed
qed

theorem hub_is_common_target_witness:
  "RelayTarget demo_dir (n_PublicKey (demo_node ''a'' 65 [] [] False)) =
     Some (demo_node ''c'' 67 ''10.42.0.3'' ''1.2.3.4:51820'' True)"
  by (rule hub_is_common_target) code_simp+

text \<open>\<open>NextFreeIP\<close> hands out the lowest assignable address of the network that is not taken:
  inside the prefix, neither the network nor the broadcast address unless the prefix is a /31 or
  /32. It fails only when every assignable address is taken.\<close>

theorem next_free_ip_lowest:
  assumes "parsePrefix cidr = Some p" and "addr_Is4 (p_Addr p)"
  shows "case NextFreeIP cidr (map ip4_String used) of
      Inr ip \<Rightarrow> \<exists>w. ip = ip4_String w \<and> usable p w \<and> w \<notin> set used \<and>
                   (\<forall>v. usable p v \<and> v < w \<longrightarrow> v \<in> set used)
    | Inl e \<Rightarrow> e = Err ''no free IPs'' \<and> (\<forall>w. usable p w \<longrightarrow> w \<in> set used)"
proof -
  obtain u where u: "p_Addr p = V4 u" using assms(2) by (auto simp: addr_Is4_iff)
  have b: "p_Bits p \<le> 32" using parsePrefix_bits [OF assms(1)] assms(2) by (simp add: addr_BitLen_def)
  obtain f l where fl: "loop_bounds p = (f, l)" by fastforce
  note us = loop_bounds_usable [OF u b fl]
  have tk: "takenAddrs (map ip4_String used) = Inr used" by (simp add: takenAddrs_Inr)
  show ?thesis
  proof (cases "nextFree_loop used f l")
    case None
    have "w \<in> set used" if "usable p w" for w
    proof -
      have "f \<le> unat w" "unat w \<le> l" using us(2) that by auto
      then have "word_of_nat (unat w) \<in> set used" using None by (simp only: nextFree_loop_None)
      then show ?thesis by simp
    qed
    with None show ?thesis by (simp add: NextFreeIP_loop [OF assms] tk fl)
  next
    case (Some ip)
    then obtain m where m: "f \<le> m" "m \<le> l" "ip = ip4_String (word_of_nat m)"
      "word_of_nat m \<notin> set used" and k: "\<And>k. f \<le> k \<and> k < m \<longrightarrow> word_of_nat k \<in> set used"
      by (auto simp: nextFree_loop_Some)
    have um: "unat (word_of_nat m :: u32) = m" using m(2) us(1) by (simp add: unat_word_of_nat32)
    have "v \<in> set used" if "usable p v" "v < word_of_nat m" for v
      using k [of "unat v"] us(2) [of v] that um by (simp add: word_less_nat_alt)
    with Some m um show ?thesis
      by (auto simp: NextFreeIP_loop [OF assms] tk fl us(2) intro!: exI [of _ "word_of_nat m"])
  qed
qed

theorem next_free_ip_lowest_witness:
  "\<exists>w. ''10.42.0.2'' = ip4_String w \<and> usable \<lparr>p_Addr = V4 0x0A2A0000, p_Bits = 16\<rparr> w \<and>
       w \<notin> set [0x0A2A0001, 0x0A2A0003]"
proof -
  have p: "parsePrefix ''10.42.0.0/16'' = Some \<lparr>p_Addr = V4 0x0A2A0000, p_Bits = 16\<rparr>" by code_simp
  have b: "loop_bounds \<lparr>p_Addr = V4 0x0A2A0000, p_Bits = 16\<rparr> = (170524673, 170590206)" by code_simp
  have f: "nextFree_loop [0x0A2A0001, 0x0A2A0003] 170524673 170590206 = Some ''10.42.0.2''" by code_simp
  have v: "NextFreeIP ''10.42.0.0/16'' (map ip4_String [0x0A2A0001, 0x0A2A0003]) = Inr ''10.42.0.2''"
    using takenAddrs_Inr [of _ "[0x0A2A0001, 0x0A2A0003]"] by (simp add: NextFreeIP_loop [OF p] b f)
  show ?thesis
    using next_free_ip_lowest [OF p, of "[0x0A2A0001, 0x0A2A0003]"] unfolding v by auto
qed

text \<open>C14: \<open>Validate\<close> accepts a directory exactly when it has the current schema, a network prefix, a
  proper domain if it has one, and members with distinct names, keys and tunnel addresses, each
  with a name (a DNS label, distinct up to case, when a domain is set), a WireGuard key, an IPv4
  address inside the network, well-formed endpoints and a well-formed age recipient if any.\<close>

theorem validate_exact: "is_ok (Validate W A dir) \<longleftrightarrow> directory_ok W A dir"
  by (simp add: is_ok_iff flip: Validate_ok)

text \<open>an endpoint that passes validation is empty, or a host and a port between 1 and 65535 with
  no newline, carriage return, tab or NUL in it, so that it cannot smuggle a line into a
  generated configuration file.\<close>

theorem valid_endpoint_safe:
  assumes "validateEndpoint e = Inr ()" and "e \<noteq> []"
  shows "set e \<inter> {CHR 0x00, CHR 0x0A, CHR 0x0D, CHR 0x09} = {} \<and>
    (\<exists>host port p. splitHostPort e = Some (host, port) \<and> host \<noteq> [] \<and> atoi port = Some p \<and>
       1 \<le> p \<and> p \<le> 65535)"
proof
  have c: "\<not> containsAny e [CHR 0x00, NL, CR, TAB]"
    using assms by (auto simp: validateEndpoint_def split: if_splits)
  then show "set e \<inter> {CHR 0x00, CHR 0x0A, CHR 0x0D, CHR 0x09} = {}"
    by (auto simp: containsAny_def list_ex_iff)
  show "\<exists>host port p. splitHostPort e = Some (host, port) \<and> host \<noteq> [] \<and> atoi port = Some p \<and>
       1 \<le> p \<and> p \<le> 65535"
    using assms c by (auto simp: validateEndpoint_def split: if_splits option.splits)
qed

theorem valid_endpoint_safe_witness:
  "set ''[fe80::1]:51820'' \<inter> {CHR 0x00, CHR 0x0A, CHR 0x0D, CHR 0x09} = {}"
proof -
  have "validateEndpoint ''[fe80::1]:51820'' = Inr ()" by code_simp
  from valid_endpoint_safe [OF this] show ?thesis by simp
qed

end
