(* ===== verification/Diff.thy ===== *)
theory Diff
  imports Directory
begin

text \<open>
  The summary of what changed between two revisions of a directory
  (\<open>src/internal/directory/diff.go\<close>), which the publisher logs: nodes are matched by public key,
  secrets are reported as transitions only.
\<close>

section \<open>The comparison\<close>

record FieldChange =
  f_Field :: string
  f_Detail :: string

record NodeDiff =
  nd_Name :: string
  nd_Fields :: "FieldChange list"

record Diff =
  df_OldSerial :: u64
  df_NewSerial :: u64
  df_CIDR :: "FieldChange option"
  df_Added :: "string list"
  df_Removed :: "string list"
  df_Changed :: "NodeDiff list"

definition orNone :: "string \<Rightarrow> string" where
  "orNone s = (if s = [] then ''(none)'' else s)"

definition transition :: "string \<Rightarrow> string \<Rightarrow> string" where
  "transition oldVal newVal = orNone oldVal @ '' -> '' @ orNone newVal"

definition secretTransition :: "string \<Rightarrow> string \<Rightarrow> string" where
  "secretTransition oldVal newVal =
     (if oldVal = [] \<and> newVal \<noteq> [] then ''set''
      else if oldVal \<noteq> [] \<and> newVal = [] then ''cleared'' else ''changed'')"

definition displayName :: "node \<Rightarrow> string" where
  "displayName n =
     (if n_Name n \<noteq> [] then n_Name n
      else if length (n_PublicKey n) > 8 then take 8 (n_PublicKey n) @ ''...''
      else if n_PublicKey n \<noteq> [] then n_PublicKey n
      else ''(unknown)'')"

definition observedAtRefresh :: "gotime \<Rightarrow> gotime \<Rightarrow> FieldChange" where
  "observedAtRefresh oldAt newAt =
     (if time_IsZero oldAt then \<lparr>f_Field = ''observed_at'', f_Detail = ''recorded''\<rparr>
      else
        let delta0 = time_Sub newAt oldAt;
            delta = (if delta0 < 0 then duration_neg delta0 else delta0)
        in \<lparr>f_Field = ''observed_at'',
            f_Detail = ''refreshed (+'' @ duration_String (duration_Round delta second) @ '')''\<rparr>)"

definition nodeFieldChanges :: "node \<Rightarrow> node \<Rightarrow> FieldChange list" where
  "nodeFieldChanges oldN newN =
     (if n_Name oldN \<noteq> n_Name newN
      then [\<lparr>f_Field = ''name'', f_Detail = transition (n_Name oldN) (n_Name newN)\<rparr>] else []) @
     (if n_TunnelIP oldN \<noteq> n_TunnelIP newN
      then [\<lparr>f_Field = ''tunnel_ip'', f_Detail = transition (n_TunnelIP oldN) (n_TunnelIP newN)\<rparr>] else []) @
     (if n_Endpoint oldN \<noteq> n_Endpoint newN
      then [\<lparr>f_Field = ''endpoint'', f_Detail = transition (n_Endpoint oldN) (n_Endpoint newN)\<rparr>] else []) @
     (if n_ObservedEndpoint oldN \<noteq> n_ObservedEndpoint newN
      then [\<lparr>f_Field = ''observed_endpoint'',
             f_Detail = transition (n_ObservedEndpoint oldN) (n_ObservedEndpoint newN)\<rparr>]
      else if n_ObservedAt oldN \<noteq> n_ObservedAt newN
      then [observedAtRefresh (n_ObservedAt oldN) (n_ObservedAt newN)] else []) @
     (if n_PSK oldN \<noteq> n_PSK newN
      then [\<lparr>f_Field = ''psk'', f_Detail = secretTransition (n_PSK oldN) (n_PSK newN)\<rparr>] else [])"

text \<open>A Go map filled in order: the last node with a key wins.\<close>

definition byKey :: "node list \<Rightarrow> string \<Rightarrow> node option" where
  "byKey ns = map_of (rev (map (\<lambda>n. (n_PublicKey n, n)) ns))"

fun compareNew :: "(string \<Rightarrow> node option) \<Rightarrow> node list \<Rightarrow> string list \<times> NodeDiff list" where
  "compareNew oldByKey [] = ([], [])"
| "compareNew oldByKey (n # ns) =
     (let (added, changed) = compareNew oldByKey ns
      in case oldByKey (n_PublicKey n) of
           None \<Rightarrow> (displayName n # added, changed)
         | Some prev \<Rightarrow>
             (let fields = nodeFieldChanges prev n
              in if fields \<noteq> [] then (added, \<lparr>nd_Name = displayName n, nd_Fields = fields\<rparr> # changed)
                 else (added, changed)))"

definition Compare :: "directory \<Rightarrow> directory \<Rightarrow> Diff" where
  "Compare oldDir newDir =
     (let (added, changed) = compareNew (byKey (d_Nodes oldDir)) (d_Nodes newDir)
      in \<lparr>df_OldSerial = d_Serial oldDir, df_NewSerial = d_Serial newDir,
          df_CIDR = (if d_NetworkCIDR oldDir \<noteq> d_NetworkCIDR newDir
                     then Some \<lparr>f_Field = ''network_cidr'',
                                f_Detail = transition (d_NetworkCIDR oldDir) (d_NetworkCIDR newDir)\<rparr>
                     else None),
          df_Added = added,
          df_Removed = map displayName
            (filter (\<lambda>n. byKey (d_Nodes newDir) (n_PublicKey n) = None) (d_Nodes oldDir)),
          df_Changed = changed\<rparr>)"

definition Diff_Empty :: "Diff \<Rightarrow> bool" where
  "Diff_Empty d = (df_CIDR d = None \<and> df_Added d = [] \<and> df_Removed d = [] \<and> df_Changed d = [])"

definition Summary :: "Diff \<Rightarrow> string" where
  "Summary d =
     (if Diff_Empty d then ''metadata only (serial/timestamp)''
      else joinWith ''; ''
        ((case df_CIDR d of None \<Rightarrow> [] | Some c \<Rightarrow> [f_Field c @ '' '' @ f_Detail c]) @
         (if df_Added d \<noteq> [] then [''added '' @ joinWith '', '' (df_Added d)] else []) @
         (if df_Removed d \<noteq> [] then [''removed '' @ joinWith '', '' (df_Removed d)] else []) @
         map (\<lambda>nd. nd_Name nd @ '': '' @
                joinWith '', '' (map (\<lambda>f. f_Field f @ '' '' @ f_Detail f) (nd_Fields nd)))
           (df_Changed d)))"

section \<open>What is compared\<close>

text \<open>Two revisions of a node that agree on the fields the comparison tracks.\<close>

definition same_tracked :: "node \<Rightarrow> node \<Rightarrow> bool" where
  "same_tracked m n \<longleftrightarrow>
     n_Name m = n_Name n \<and> n_TunnelIP m = n_TunnelIP n \<and> n_Endpoint m = n_Endpoint n \<and>
     n_ObservedEndpoint m = n_ObservedEndpoint n \<and> n_ObservedAt m = n_ObservedAt n \<and> n_PSK m = n_PSK n"

lemma nodeFieldChanges_empty: "nodeFieldChanges m n = [] \<longleftrightarrow> same_tracked m n"
  by (auto simp: nodeFieldChanges_def same_tracked_def)

lemma byKey_None: "byKey ns k = None \<longleftrightarrow> k \<notin> n_PublicKey ` set ns"
  by (auto simp: byKey_def map_of_eq_None_iff image_iff)

lemma byKey_Some:
  assumes "distinct (map n_PublicKey ns)"
  shows "byKey ns k = Some n \<longleftrightarrow> n \<in> set ns \<and> n_PublicKey n = k"
proof -
  have "distinct (map fst (rev (map (\<lambda>n. (n_PublicKey n, n)) ns)))"
    using assms by (simp add: rev_map [symmetric] comp_def)
  then show ?thesis by (auto simp: byKey_def)
qed

lemma compareNew_empty:
  "compareNew ob ns = ([], []) \<longleftrightarrow> (\<forall>n \<in> set ns. \<exists>m. ob (n_PublicKey n) = Some m \<and> same_tracked m n)"
proof (induction ns)
  case (Cons n ns)
  obtain a c where ac: "compareNew ob ns = (a, c)" by fastforce
  show ?case
    using Cons ac by (auto simp: Let_def nodeFieldChanges_empty split: option.splits)
qed simp

lemma Compare_fields:
  "df_CIDR (Compare o' n') = None \<longleftrightarrow> d_NetworkCIDR o' = d_NetworkCIDR n'"
  "df_Added (Compare o' n') = fst (compareNew (byKey (d_Nodes o')) (d_Nodes n'))"
  "df_Changed (Compare o' n') = snd (compareNew (byKey (d_Nodes o')) (d_Nodes n'))"
  "df_Removed (Compare o' n') = map displayName
     (filter (\<lambda>n. byKey (d_Nodes n') (n_PublicKey n) = None) (d_Nodes o'))"
  by (simp_all add: Compare_def split: prod.splits)

lemma Diff_Empty_Compare:
  assumes "distinct (map n_PublicKey (d_Nodes o'))"
  shows "Diff_Empty (Compare o' n') \<longleftrightarrow>
    d_NetworkCIDR o' = d_NetworkCIDR n' \<and>
    n_PublicKey ` set (d_Nodes o') \<subseteq> n_PublicKey ` set (d_Nodes n') \<and>
    (\<forall>n \<in> set (d_Nodes n'). \<exists>m \<in> set (d_Nodes o'). n_PublicKey m = n_PublicKey n \<and> same_tracked m n)"
proof -
  have c: "fst (compareNew ob ns) = [] \<and> snd (compareNew ob ns) = [] \<longleftrightarrow> compareNew ob ns = ([], [])" for ob ns
    by (cases "compareNew ob ns") auto
  have "df_Removed (Compare o' n') = [] \<longleftrightarrow> n_PublicKey ` set (d_Nodes o') \<subseteq> n_PublicKey ` set (d_Nodes n')"
    by (auto simp: Compare_fields filter_empty_conv byKey_None)
  then show ?thesis
    using c [of "byKey (d_Nodes o')" "d_Nodes n'"]
    by (auto simp: Diff_Empty_def Compare_fields compareNew_empty byKey_Some [OF assms])
qed

section \<open>Properties\<close>

text \<open>between two directories with distinct keys, the difference is empty exactly when the network
  prefix and the set of keys are the same and each node agrees on its name, tunnel address,
  endpoint, observed endpoint and time, and pre-shared key.\<close>

theorem diff_empty_iff:
  assumes "distinct (map n_PublicKey (d_Nodes old))" and "distinct (map n_PublicKey (d_Nodes new))"
  shows "Diff_Empty (Compare old new) \<longleftrightarrow>
    d_NetworkCIDR old = d_NetworkCIDR new \<and>
    n_PublicKey ` set (d_Nodes old) = n_PublicKey ` set (d_Nodes new) \<and>
    (\<forall>m \<in> set (d_Nodes old). \<forall>n \<in> set (d_Nodes new). n_PublicKey m = n_PublicKey n \<longrightarrow> same_tracked m n)"
proof -
  have u: "m = m'" if "m \<in> set (d_Nodes old)" "m' \<in> set (d_Nodes old)" "n_PublicKey m = n_PublicKey m'" for m m'
    using assms(1) that by (simp add: distinct_map inj_on_def)
  show ?thesis (is "?l \<longleftrightarrow> ?r")
  proof
    assume l: ?l
    then have "\<forall>n \<in> set (d_Nodes new). \<exists>m \<in> set (d_Nodes old). n_PublicKey m = n_PublicKey n \<and> same_tracked m n"
      using Diff_Empty_Compare [OF assms(1), of new] by blast
    moreover from this have "n_PublicKey ` set (d_Nodes new) \<subseteq> n_PublicKey ` set (d_Nodes old)"
      by (metis image_subsetI rev_image_eqI)
    ultimately show ?r using l Diff_Empty_Compare [OF assms(1), of new] u by (metis subset_antisym)
  next
    assume r: ?r
    then have "\<exists>m \<in> set (d_Nodes old). n_PublicKey m = n_PublicKey n \<and> same_tracked m n"
      if "n \<in> set (d_Nodes new)" for n
      using that by (metis (mono_tags, lifting) image_iff)
    with r show ?l using Diff_Empty_Compare [OF assms(1), of new] by blast
  qed
qed

theorem diff_empty_iff_witness: "Diff_Empty (Compare demo_dir (demo_dir\<lparr>d_Serial := 9\<rparr>))"
proof -
  have "distinct (map n_PublicKey (d_Nodes demo_dir))"
    by (simp add: demo_dir_def demo_node_def zero_node_def std.enc_eq_iff replicate_eq_replicate)
  moreover from this have "m = n" if "m \<in> set (d_Nodes demo_dir)" "n \<in> set (d_Nodes demo_dir)"
    "n_PublicKey m = n_PublicKey n" for m n using that by (simp add: distinct_map inj_on_def)
  ultimately show ?thesis
    using diff_empty_iff [of demo_dir "demo_dir\<lparr>d_Serial := 9\<rparr>"] by (auto simp: same_tracked_def)
qed

text \<open>The comparison does not look at the domain of the network, at relay marks or at age
  recipients: a revision that changes any of them is summarised as
  \<open>metadata only (serial/timestamp)\<close>.\<close>

theorem diff_untracked_fields:
  assumes "distinct (map n_PublicKey (d_Nodes d))"
  shows "Summary (Compare d (d\<lparr>d_Domain := domain,
      d_Nodes := map (\<lambda>n. n\<lparr>n_Relay := relay n, n_AgeRecipient := rcp n\<rparr>) (d_Nodes d)\<rparr>)) =
    ''metadata only (serial/timestamp)''"
proof -
  let ?d = "d\<lparr>d_Domain := domain, d_Nodes := map (\<lambda>n. n\<lparr>n_Relay := relay n, n_AgeRecipient := rcp n\<rparr>) (d_Nodes d)\<rparr>"
  have "Diff_Empty (Compare d ?d)"
    unfolding Diff_Empty_Compare [OF assms] by (auto simp: same_tracked_def image_image)
  then show ?thesis by (simp add: Summary_def)
qed

theorem diff_untracked_fields_witness:
  "Summary (Compare demo_dir (demo_dir\<lparr>d_Domain := ''lan'',
      d_Nodes := map (\<lambda>n. n\<lparr>n_Relay := False, n_AgeRecipient := []\<rparr>) (d_Nodes demo_dir)\<rparr>)) =
    ''metadata only (serial/timestamp)''"
  by (rule diff_untracked_fields)
    (simp add: demo_dir_def demo_node_def zero_node_def std.enc_eq_iff replicate_eq_replicate)

definition rename_psk :: "(string \<Rightarrow> string) \<Rightarrow> directory \<Rightarrow> directory" where
  "rename_psk h d = d\<lparr>d_Nodes := map (\<lambda>n. n\<lparr>n_PSK := h (n_PSK n)\<rparr>) (d_Nodes d)\<rparr>"

lemma byKey_rename:
  "byKey (map (\<lambda>n. n\<lparr>n_PSK := h (n_PSK n)\<rparr>) ns) k = map_option (\<lambda>n. n\<lparr>n_PSK := h (n_PSK n)\<rparr>) (byKey ns k)"
proof -
  have "map_of (map (\<lambda>n. (n_PublicKey n, n\<lparr>n_PSK := h (n_PSK n)\<rparr>)) ns) k =
      map_option (\<lambda>n. n\<lparr>n_PSK := h (n_PSK n)\<rparr>) (map_of (map (\<lambda>n. (n_PublicKey n, n)) ns) k)" for ns :: "node list"
    by (induction ns) auto
  from this [of "rev ns"] show ?thesis by (simp add: byKey_def rev_map [symmetric] comp_def)
qed

lemma nodeFieldChanges_rename:
  assumes "inj h" and "\<And>s. h s = [] \<longleftrightarrow> s = []"
  shows "nodeFieldChanges (m\<lparr>n_PSK := h (n_PSK m)\<rparr>) (n\<lparr>n_PSK := h (n_PSK n)\<rparr>) = nodeFieldChanges m n"
  using assms by (simp add: nodeFieldChanges_def secretTransition_def inj_eq)

lemma displayName_rename [simp]: "displayName (n\<lparr>n_PSK := p\<rparr>) = displayName n"
  by (simp add: displayName_def)

lemma compareNew_rename:
  assumes "inj h" and "\<And>s. h s = [] \<longleftrightarrow> s = []"
  shows "compareNew (byKey (map (\<lambda>n. n\<lparr>n_PSK := h (n_PSK n)\<rparr>) os)) (map (\<lambda>n. n\<lparr>n_PSK := h (n_PSK n)\<rparr>) ns) =
    compareNew (byKey os) ns"
proof (induction ns)
  case (Cons n ns)
  then show ?case
    by (cases "byKey os (n_PublicKey n)")
      (auto simp: byKey_rename nodeFieldChanges_rename [OF assms] Let_def split: prod.splits)
qed simp

text \<open>No pre-shared key shows in the difference: replacing the keys by others, in both revisions
  and consistently (equal stays equal, absent stays absent), leaves it as it is.\<close>

theorem diff_hides_psk:
  assumes "inj h" and "\<And>s. h s = [] \<longleftrightarrow> s = []"
  shows "Compare (rename_psk h old) (rename_psk h new) = Compare old new"
proof -
  have "map displayName (filter (\<lambda>n. byKey (map (\<lambda>n. n\<lparr>n_PSK := h (n_PSK n)\<rparr>) ns) (n_PublicKey n) = None)
          (map (\<lambda>n. n\<lparr>n_PSK := h (n_PSK n)\<rparr>) os)) =
      map displayName (filter (\<lambda>n. byKey ns (n_PublicKey n) = None) os)" for os ns
    by (induction os) (simp_all add: byKey_rename)
  then show ?thesis
    by (simp add: Compare_def rename_psk_def compareNew_rename [OF assms] split: prod.splits)
qed

theorem diff_hides_psk_witness:
  "Compare (rename_psk (\<lambda>s. if s = [] then [] else ''x'' @ s) (demo_dir\<lparr>d_Nodes := []\<rparr>)) (rename_psk (\<lambda>s. if s = [] then [] else ''x'' @ s) demo_dir) =
   Compare (demo_dir\<lparr>d_Nodes := []\<rparr>) demo_dir"
proof -
  have i: "inj (\<lambda>s :: string. if s = [] then [] else ''x'' @ s)" by (rule injI) (simp split: if_splits)
  show ?thesis by (rule diff_hides_psk [OF i]) simp
qed

end
