(* ===== verification/Relay.thy ===== *)
theory Relay
  imports Directory
begin

text \<open>
  Relay decisions (\<open>src/internal/relay\<close>): per peer, whether its traffic goes direct or through the
  relay node. \<open>Decide\<close> is the per-peer state machine driven by the age of the last handshake;
  \<open>Update\<close> runs it over the directory, after the rules that leave nothing to decide.
\<close>

section \<open>The state machine of one peer\<close>

datatype Mode = ModeDirect | ModeRelayed

primrec Mode_String :: "Mode \<Rightarrow> string" where
  "Mode_String ModeDirect = ''direct''"
| "Mode_String ModeRelayed = ''relayed''"

text \<open>What wgctrl reports of a kernel peer.\<close>

record wgpeer =
  wp_PublicKey :: bytes
  wp_Endpoint :: "string option"
  wp_LastHandshake :: gotime

definition zero_wgpeer :: wgpeer where
  "zero_wgpeer = \<lparr>wp_PublicKey = replicate 32 (CHR 0x00), wp_Endpoint = None, wp_LastHandshake = 0\<rparr>"

definition DefaultDirectFailedAfter :: duration where "DefaultDirectFailedAfter = 180 * second"
definition DefaultDirectGracePeriod :: duration where "DefaultDirectGracePeriod = 30 * second"

record relayConfig =
  rc_DirectFailedAfter :: duration
  rc_DirectGracePeriod :: duration

definition withDefaults :: "relayConfig \<Rightarrow> relayConfig" where
  "withDefaults c =
     \<lparr>rc_DirectFailedAfter =
        (if rc_DirectFailedAfter c \<le> 0 then DefaultDirectFailedAfter else rc_DirectFailedAfter c),
      rc_DirectGracePeriod =
        (if rc_DirectGracePeriod c \<le> 0 then DefaultDirectGracePeriod else rc_DirectGracePeriod c)\<rparr>"

record PeerState =
  ps_Mode :: Mode
  ps_EnteredAt :: gotime

definition Decide :: "gotime \<Rightarrow> PeerState \<Rightarrow> wgpeer \<Rightarrow> relayConfig \<Rightarrow> PeerState" where
  "Decide now prev peer cfg0 =
     (let cfg = withDefaults cfg0;
          handshakeFresh = (\<not> time_IsZero (wp_LastHandshake peer) \<and>
            time_Sub now (wp_LastHandshake peer) < rc_DirectFailedAfter cfg)
      in case ps_Mode prev of
           ModeDirect \<Rightarrow>
             if time_Sub now (ps_EnteredAt prev) < rc_DirectGracePeriod cfg then prev
             else
               let stale =
                 (if time_IsZero (wp_LastHandshake peer)
                  then time_Sub now (ps_EnteredAt prev) > rc_DirectFailedAfter cfg
                  else time_Sub now (wp_LastHandshake peer) > rc_DirectFailedAfter cfg)
               in if stale then \<lparr>ps_Mode = ModeRelayed, ps_EnteredAt = now\<rparr> else prev
         | ModeRelayed \<Rightarrow>
             if handshakeFresh then \<lparr>ps_Mode = ModeDirect, ps_EnteredAt = now\<rparr> else prev)"

section \<open>The controller\<close>

record Controller =
  ct_cfg :: relayConfig
  ct_states :: "(string \<times> PeerState) list"

definition NewController :: "relayConfig \<Rightarrow> Controller" where
  "NewController cfg = \<lparr>ct_cfg = withDefaults cfg, ct_states = []\<rparr>"

record Decision =
  de_Relayed :: "string list"
  de_PeerStates :: "(string \<times> PeerState) list"
  de_RelayTarget :: "node option"

definition pickRelayTarget :: "directory \<Rightarrow> string \<Rightarrow> node option" where
  "pickRelayTarget dir selfPub = RelayTarget dir selfPub"

definition indexPeers :: "wgpeer list \<Rightarrow> bytes \<Rightarrow> wgpeer option" where
  "indexPeers peers = map_of (rev (map (\<lambda>p. (wp_PublicKey p, p)) peers))"

text \<open>The body of the loop of \<open>Update\<close> for one node other than \<open>self\<close>: the state it gets.\<close>

definition nextState ::
  "wglib \<Rightarrow> Controller \<Rightarrow> node \<Rightarrow> directory \<Rightarrow> wgpeer list \<Rightarrow> gotime \<Rightarrow> node \<Rightarrow> PeerState" where
  "nextState W c self dir peers now n =
     (let direct = \<lparr>ps_Mode = ModeDirect, ps_EnteredAt = now\<rparr>;
          target = pickRelayTarget dir (n_PublicKey self)
      in if IsPlainWireGuard n then
           (case RelayTarget dir (n_PublicKey n) of
              Some hub \<Rightarrow>
                if n_PublicKey hub \<noteq> n_PublicKey self
                then \<lparr>ps_Mode = ModeRelayed, ps_EnteredAt = now\<rparr> else direct
            | None \<Rightarrow> direct)
         else if n_Endpoint n \<noteq> [] then direct
         else if n_Endpoint self \<noteq> [] then direct
         else (case target of
                 None \<Rightarrow> direct
               | Some t \<Rightarrow>
                   if n_PublicKey n = n_PublicKey t then direct
                   else
                     let prev = (case map_of (ct_states c) (n_PublicKey n) of Some p \<Rightarrow> p | None \<Rightarrow> direct)
                     in case ParseWGPublic W (n_PublicKey n) of
                          Inl _ \<Rightarrow> direct
                        | Inr pub \<Rightarrow>
                            Decide now prev
                              (case indexPeers peers pub of Some p \<Rightarrow> p | None \<Rightarrow> zero_wgpeer) (ct_cfg c)))"

fun update_loop ::
  "(node \<Rightarrow> PeerState) \<Rightarrow> string \<Rightarrow> node list \<Rightarrow> (string \<times> PeerState) list \<Rightarrow> string list \<Rightarrow>
   (string \<times> PeerState) list \<times> string list" where
  "update_loop next self [] states relayed = (states, relayed)"
| "update_loop next self (n # ns) states relayed =
     (if n_PublicKey n = self then update_loop next self ns states relayed
      else
        let s = next n
        in update_loop next self ns (AList.update (n_PublicKey n) s states)
             (if ps_Mode s = ModeRelayed then n_PublicKey n # relayed else relayed))"

definition relay_Update ::
  "wglib \<Rightarrow> Controller \<Rightarrow> node \<Rightarrow> directory \<Rightarrow> wgpeer list \<Rightarrow> gotime \<Rightarrow> Controller \<times> Decision" where
  "relay_Update W c self dir peers now =
     (case update_loop (nextState W c self dir peers now) (n_PublicKey self) (d_Nodes dir) [] [] of
        (newStates, relayed) \<Rightarrow>
          (c\<lparr>ct_states := newStates\<rparr>,
           \<lparr>de_Relayed = relayed, de_PeerStates = newStates,
            de_RelayTarget = pickRelayTarget dir (n_PublicKey self)\<rparr>))"

section \<open>Facts\<close>

lemma withDefaults_pos [simp]:
  "0 < rc_DirectFailedAfter (withDefaults c)" "0 < rc_DirectGracePeriod (withDefaults c)"
  by (simp_all add: withDefaults_def DefaultDirectFailedAfter_def DefaultDirectGracePeriod_def)

lemma withDefaults_idem [simp]: "withDefaults (withDefaults c) = withDefaults c"
  by (simp add: withDefaults_def DefaultDirectFailedAfter_def DefaultDirectGracePeriod_def)

text \<open>With distinct keys, the loop gives each node its state once.\<close>

lemma update_loop_spec:
  "distinct (map n_PublicKey ns) \<Longrightarrow>
   fst ` set states \<inter> n_PublicKey ` set ns = {} \<Longrightarrow> set relayed \<inter> n_PublicKey ` set ns = {} \<Longrightarrow>
   update_loop nxt self ns states relayed = (st, rl) \<Longrightarrow>
     (\<forall>k. map_of st k =
        (case find (\<lambda>n. n_PublicKey n = k \<and> k \<noteq> self) ns of Some n \<Rightarrow> Some (nxt n) | None \<Rightarrow> map_of states k)) \<and>
     set rl = set relayed \<union> {n_PublicKey n | n. n \<in> set ns \<and> n_PublicKey n \<noteq> self \<and> ps_Mode (nxt n) = ModeRelayed}"
proof (induction ns arbitrary: states relayed)
  case (Cons n ns)
  show ?case
  proof (cases "n_PublicKey n = self")
    case True
    with Cons.prems have "update_loop nxt self ns states relayed = (st, rl)" by simp
    with Cons.IH [OF _ _ _ this] Cons.prems True show ?thesis by auto
  next
    case False
    let ?st = "AList.update (n_PublicKey n) (nxt n) states"
    let ?rl = "if ps_Mode (nxt n) = ModeRelayed then n_PublicKey n # relayed else relayed"
    have u: "update_loop nxt self ns ?st ?rl = (st, rl)" using Cons.prems(4) False by (simp add: Let_def)
    have k: "fst ` set ?st = insert (n_PublicKey n) (fst ` set states)"
      using keys_of_update [of "n_PublicKey n" "nxt n" states] by (simp add: keys_of_def)
    have d: "fst ` set ?st \<inter> n_PublicKey ` set ns = {}" "set ?rl \<inter> n_PublicKey ` set ns = {}"
      using Cons.prems(1-3) k by auto
    have nf: "find (\<lambda>m. n_PublicKey m = n_PublicKey n \<and> n_PublicKey n \<noteq> self) ns = None"
      using Cons.prems(1) unfolding find_None_iff by (metis distinct.simps(2) image_eqI list.set_map list.simps(9))
    from Cons.IH [OF _ d u] Cons.prems(1) have IH:
      "\<And>k. map_of st k = (case find (\<lambda>n. n_PublicKey n = k \<and> k \<noteq> self) ns of Some n \<Rightarrow> Some (nxt n) | None \<Rightarrow> map_of ?st k)"
      "set rl = set ?rl \<union> {n_PublicKey n | n. n \<in> set ns \<and> n_PublicKey n \<noteq> self \<and> ps_Mode (nxt n) = ModeRelayed}"
      by simp_all
    have "map_of st k = (case find (\<lambda>n. n_PublicKey n = k \<and> k \<noteq> self) (n # ns) of Some n \<Rightarrow> Some (nxt n)
        | None \<Rightarrow> map_of states k)" for k
      using IH(1) [of k] nf False by (cases "k = n_PublicKey n") (auto split: option.splits)
    moreover have "set rl = set relayed \<union>
        {n_PublicKey m | m. m \<in> set (n # ns) \<and> n_PublicKey m \<noteq> self \<and> ps_Mode (nxt m) = ModeRelayed}"
      using IH(2) False by auto
    ultimately show ?thesis by blast
  qed
qed simp

lemma relay_Update_spec:
  assumes "distinct (map n_PublicKey (d_Nodes dir))" and "relay_Update W c self dir peers now = (c', de)"
  shows "de_PeerStates de = ct_states c'" and "de_RelayTarget de = RelayTarget dir (n_PublicKey self)"
    and "n \<in> set (d_Nodes dir) \<Longrightarrow> n_PublicKey n \<noteq> n_PublicKey self \<Longrightarrow>
      map_of (ct_states c') (n_PublicKey n) = Some (nextState W c self dir peers now n)"
    and "map_of (ct_states c') (n_PublicKey self) = None"
    and "k \<in> set (de_Relayed de) \<longleftrightarrow>
      (\<exists>n \<in> set (d_Nodes dir). n_PublicKey n = k \<and> k \<noteq> n_PublicKey self \<and>
         ps_Mode (nextState W c self dir peers now n) = ModeRelayed)"
proof -
  obtain st rl where u: "update_loop (nextState W c self dir peers now) (n_PublicKey self) (d_Nodes dir) [] [] = (st, rl)"
    by fastforce
  then have c': "c' = c\<lparr>ct_states := st\<rparr>"
    and de: "de = \<lparr>de_Relayed = rl, de_PeerStates = st, de_RelayTarget = RelayTarget dir (n_PublicKey self)\<rparr>"
    using assms(2) by (simp_all add: relay_Update_def pickRelayTarget_def)
  note sp = update_loop_spec [OF assms(1) _ _ u]
  show "de_PeerStates de = ct_states c'" "de_RelayTarget de = RelayTarget dir (n_PublicKey self)"
    using c' de by simp_all
  show "map_of (ct_states c') (n_PublicKey self) = None" 
  proof -
    have "find (\<lambda>n. False) xs = None" for xs :: "node list" by (induction xs) auto
    then show ?thesis using sp c' by simp
  qed
  show "map_of (ct_states c') (n_PublicKey n) = Some (nextState W c self dir peers now n)"
    if "n \<in> set (d_Nodes dir)" "n_PublicKey n \<noteq> n_PublicKey self"
  proof -
    have "find (\<lambda>m. n_PublicKey m = n_PublicKey n \<and> n_PublicKey n \<noteq> n_PublicKey self) (d_Nodes dir) = Some n"
    proof (cases "find (\<lambda>m. n_PublicKey m = n_PublicKey n \<and> n_PublicKey n \<noteq> n_PublicKey self) (d_Nodes dir)")
      case None
      with that show ?thesis by (auto simp: find_None_iff)
    next
      case (Some m)
      then have "m \<in> set (d_Nodes dir)" "n_PublicKey m = n_PublicKey n" by (auto simp: find_Some_iff)
      with that assms(1) have "m = n" by (simp add: distinct_map inj_on_def)
      with Some show ?thesis by simp
    qed
    then show ?thesis using sp c' by simp
  qed
  show "k \<in> set (de_Relayed de) \<longleftrightarrow>
      (\<exists>n \<in> set (d_Nodes dir). n_PublicKey n = k \<and> k \<noteq> n_PublicKey self \<and>
         ps_Mode (nextState W c self dir peers now n) = ModeRelayed)"
    using sp de by auto
qed

section \<open>Repeated decisions\<close>

text \<open>The state of one peer under a sequence of decisions at given times, with the same kernel peer.\<close>

definition decide_step :: "wgpeer \<Rightarrow> relayConfig \<Rightarrow> gotime \<Rightarrow> PeerState \<Rightarrow> PeerState" where
  "decide_step peer cfg now s = Decide now s peer cfg"

definition handshake_too_old :: "wgpeer \<Rightarrow> relayConfig \<Rightarrow> gotime \<Rightarrow> bool" where
  "handshake_too_old peer cfg now =
     (wp_LastHandshake peer = 0 \<or> time_Sub now (wp_LastHandshake peer) \<ge> rc_DirectFailedAfter (withDefaults cfg))"

lemma relayed_stays:
  "ps_Mode s = ModeRelayed \<Longrightarrow> handshake_too_old peer cfg now \<Longrightarrow> ps_Mode (decide_step peer cfg now s) = ModeRelayed"
  by (auto simp: decide_step_def Decide_def handshake_too_old_def time_IsZero_def Let_def)

interpretation relayed: event_machine "decide_step peer cfg" "\<lambda>s. ps_Mode s = ModeRelayed" "handshake_too_old peer cfg"
  for peer cfg
  by unfold_locales (rule relayed_stays)

lemma Decide_demotes:
  assumes "ps_Mode s = ModeDirect" and "ps_Mode (Decide now s peer cfg) = ModeRelayed" and "now \<le> later"
  shows "handshake_too_old peer cfg later"
proof (cases "wp_LastHandshake peer = 0")
  case False
  then have "rc_DirectFailedAfter (withDefaults cfg) < time_Sub now (wp_LastHandshake peer)"
    using assms(1,2) by (auto simp: Decide_def Let_def time_IsZero_def split: if_splits)
  moreover have "time_Sub now (wp_LastHandshake peer) \<le> time_Sub later (wp_LastHandshake peer)"
    using assms(3) by (auto simp: time_Sub_def)
  ultimately show ?thesis by (simp add: handshake_too_old_def)
qed (simp add: handshake_too_old_def)

section \<open>Properties\<close>

text \<open>Liveness decides. A peer with a handshake younger than the failure threshold is direct after
  the decision, whatever its mode was; a peer whose last handshake (or, if it never had one, whose
  entry into direct mode) is older than the threshold is relayed, once the grace period is over.\<close>

theorem decide_by_liveness:
  fixes cfg defines "lim \<equiv> rc_DirectFailedAfter (withDefaults cfg)"
  shows "(wp_LastHandshake peer \<noteq> 0 \<and> time_Sub now (wp_LastHandshake peer) < lim \<longrightarrow>
      ps_Mode (Decide now s peer cfg) = ModeDirect) \<and>
    ((if wp_LastHandshake peer = 0 then ps_Mode s = ModeRelayed \<or> lim < time_Sub now (ps_EnteredAt s)
      else lim < time_Sub now (wp_LastHandshake peer)) \<and>
     rc_DirectGracePeriod (withDefaults cfg) \<le> time_Sub now (ps_EnteredAt s) \<longrightarrow>
      ps_Mode (Decide now s peer cfg) = ModeRelayed)"
  unfolding lim_def
  by (cases "ps_Mode s") (auto simp: Decide_def Let_def time_IsZero_def)

theorem decide_by_liveness_witness:
  "ps_Mode (Decide (400 * second) \<lparr>ps_Mode = ModeDirect, ps_EnteredAt = 1 * second\<rparr>
     (zero_wgpeer\<lparr>wp_LastHandshake := 100 * second\<rparr>) \<lparr>rc_DirectFailedAfter = 0, rc_DirectGracePeriod = 0\<rparr>) = ModeRelayed"
  using decide_by_liveness [of "zero_wgpeer\<lparr>wp_LastHandshake := 100 * second\<rparr>" "400 * second"
      "\<lparr>rc_DirectFailedAfter = 0, rc_DirectGracePeriod = 0\<rparr>" "\<lparr>ps_Mode = ModeDirect, ps_EnteredAt = 1 * second\<rparr>"]
  by (simp add: withDefaults_def DefaultDirectFailedAfter_def DefaultDirectGracePeriod_def time_Sub_def
      minDuration_def maxDuration_def)

text \<open>C19: no flapping: once a peer has been moved to the relay, it stays there at every later decision
  until the kernel reports a new handshake.\<close>

theorem no_flapping:
  assumes "ps_Mode s = ModeDirect" and "ps_Mode (Decide now s peer cfg) = ModeRelayed"
    and "list_all (\<lambda>t. now \<le> t) ts"
  shows "ps_Mode (run (decide_step peer cfg) ts (Decide now s peer cfg)) = ModeRelayed"
proof -
  have "list_all (handshake_too_old peer cfg) ts"
    using assms Decide_demotes [OF assms(1,2)] by (auto simp: list_all_iff)
  with assms(2) show ?thesis by (rule relayed.run_inv)
qed

theorem no_flapping_witness:
  "ps_Mode (run (decide_step (zero_wgpeer\<lparr>wp_LastHandshake := 100 * second\<rparr>) \<lparr>rc_DirectFailedAfter = 0, rc_DirectGracePeriod = 0\<rparr>)
     [401 * second, 500 * second]
     (Decide (400 * second) \<lparr>ps_Mode = ModeDirect, ps_EnteredAt = 1 * second\<rparr>
       (zero_wgpeer\<lparr>wp_LastHandshake := 100 * second\<rparr>) \<lparr>rc_DirectFailedAfter = 0, rc_DirectGracePeriod = 0\<rparr>)) = ModeRelayed"
  by (rule no_flapping)
    (simp_all add: Decide_def withDefaults_def DefaultDirectFailedAfter_def DefaultDirectGracePeriod_def
      time_Sub_def minDuration_def maxDuration_def time_IsZero_def zero_wgpeer_def Let_def)

text \<open>The rules of \<open>Update\<close>, for a directory with distinct keys: the relayed set is exactly the set
  of peers in relayed mode; the local node never has a state; a plain WireGuard member is relayed
  exactly when it has a hub other than the local node; any other member is relayed only if neither
  it nor the local node publishes an endpoint and a relay other than itself exists.\<close>

theorem relay_update_rules:
  assumes "distinct (map n_PublicKey (d_Nodes dir))" and "n \<in> set (d_Nodes dir)"
    and "n_PublicKey n \<noteq> n_PublicKey self"
  shows "case relay_Update W c self dir peers now of (c', de) \<Rightarrow>
    (n_PublicKey n \<in> set (de_Relayed de) \<longleftrightarrow>
       (\<exists>s. map_of (ct_states c') (n_PublicKey n) = Some s \<and> ps_Mode s = ModeRelayed)) \<and>
    map_of (ct_states c') (n_PublicKey self) = None \<and>
    (if IsPlainWireGuard n
     then n_PublicKey n \<in> set (de_Relayed de) \<longleftrightarrow>
       (\<exists>hub. RelayTarget dir (n_PublicKey n) = Some hub \<and> n_PublicKey hub \<noteq> n_PublicKey self)
     else n_PublicKey n \<in> set (de_Relayed de) \<longrightarrow> n_Endpoint n = [] \<and> n_Endpoint self = [] \<and>
       (\<exists>t. RelayTarget dir (n_PublicKey self) = Some t \<and> n_PublicKey t \<noteq> n_PublicKey n))"
proof -
  obtain c' de where u: "relay_Update W c self dir peers now = (c', de)" by fastforce
  note sp = relay_Update_spec [OF assms(1) u]
  have uniq: "m = n" if "m \<in> set (d_Nodes dir)" "n_PublicKey m = n_PublicKey n" for m
    using that assms(1,2) by (simp add: distinct_map inj_on_def)
  have r: "n_PublicKey n \<in> set (de_Relayed de) \<longleftrightarrow> ps_Mode (nextState W c self dir peers now n) = ModeRelayed"
    using sp(5) [of "n_PublicKey n"] uniq assms(2,3) by auto
  have "n_PublicKey n \<in> set (de_Relayed de) \<longleftrightarrow>
       (\<exists>s. map_of (ct_states c') (n_PublicKey n) = Some s \<and> ps_Mode s = ModeRelayed)"
    using r sp(3) [OF assms(2,3)] by auto
  moreover have "IsPlainWireGuard n \<Longrightarrow> n_PublicKey n \<in> set (de_Relayed de) \<longleftrightarrow>
       (\<exists>hub. RelayTarget dir (n_PublicKey n) = Some hub \<and> n_PublicKey hub \<noteq> n_PublicKey self)"
    unfolding r nextState_def Let_def by (auto split: option.splits)
  moreover have "\<not> IsPlainWireGuard n \<Longrightarrow> n_PublicKey n \<in> set (de_Relayed de) \<Longrightarrow> n_Endpoint n = [] \<and> n_Endpoint self = [] \<and>
       (\<exists>t. RelayTarget dir (n_PublicKey self) = Some t \<and> n_PublicKey t \<noteq> n_PublicKey n)"
    unfolding r nextState_def Let_def pickRelayTarget_def by (auto split: option.splits if_splits)
  ultimately show ?thesis unfolding u using sp(4) by simp
qed

definition demo_spokes :: directory where
  "demo_spokes = demo_dir\<lparr>d_Nodes :=
     [zero_node\<lparr>n_PublicKey := ''me'', n_AgeRecipient := ''age''\<rparr>,
      zero_node\<lparr>n_PublicKey := ''spoke'', n_Endpoint := ''5.6.7.8:51820''\<rparr>,
      zero_node\<lparr>n_PublicKey := ''hub'', n_AgeRecipient := ''age'', n_Endpoint := ''1.2.3.4:51820''\<rparr>]\<rparr>"

theorem relay_update_rules_witness:
  "''spoke'' \<in> set (de_Relayed (snd (relay_Update demo_wg (NewController \<lparr>rc_DirectFailedAfter = 0, rc_DirectGracePeriod = 0\<rparr>)
     (zero_node\<lparr>n_PublicKey := ''me'', n_AgeRecipient := ''age''\<rparr>) demo_spokes [] 5)))"
  using relay_update_rules [of demo_spokes "zero_node\<lparr>n_PublicKey := ''spoke'', n_Endpoint := ''5.6.7.8:51820''\<rparr>"
      "zero_node\<lparr>n_PublicKey := ''me'', n_AgeRecipient := ''age''\<rparr>" demo_wg
      "NewController \<lparr>rc_DirectFailedAfter = 0, rc_DirectGracePeriod = 0\<rparr>" "[]" 5]
  by (auto simp: demo_spokes_def zero_node_def IsPlainWireGuard_def RelayTarget_def split: prod.splits)

text \<open>A plain WireGuard member that publishes an endpoint can be the relay target of the others,
  although it forwards for nobody: the hub of the member and the relay target of the local node
  then differ, with neither of them being the local node.\<close>

theorem plain_member_as_relay_target:
  "\<exists>dir self spoke hub. set [self, spoke, hub] = set (d_Nodes dir) \<and> distinct (map n_PublicKey (d_Nodes dir)) \<and>
     IsPlainWireGuard spoke \<and> RelayTarget dir (n_PublicKey spoke) = Some hub \<and>
     n_PublicKey hub \<noteq> n_PublicKey self \<and> RelayTarget dir (n_PublicKey self) = Some spoke"
proof -
  let ?me = "zero_node\<lparr>n_PublicKey := ''me'', n_AgeRecipient := ''age''\<rparr>"
    and ?spoke = "zero_node\<lparr>n_PublicKey := ''spoke'', n_Endpoint := ''5.6.7.8:51820''\<rparr>"
    and ?hub = "zero_node\<lparr>n_PublicKey := ''hub'', n_AgeRecipient := ''age'', n_Endpoint := ''1.2.3.4:51820''\<rparr>"
  have "set [?me, ?spoke, ?hub] = set (d_Nodes demo_spokes) \<and> distinct (map n_PublicKey (d_Nodes demo_spokes)) \<and>
     IsPlainWireGuard ?spoke \<and> RelayTarget demo_spokes (n_PublicKey ?spoke) = Some ?hub \<and>
     n_PublicKey ?hub \<noteq> n_PublicKey ?me \<and> RelayTarget demo_spokes (n_PublicKey ?me) = Some ?spoke"
    by (simp add: demo_spokes_def RelayTarget_def zero_node_def IsPlainWireGuard_def)
  then show ?thesis by blast
qed

end
