(* ===== verification/Settings.thy ===== *)
theory Settings
  imports GoNet
begin

text \<open>
  The configuration of a node as data (\<open>src/internal/config/schema.go\<close>): the sections of
  \<open>config.toml\<close>, their defaults and the accessors the other components call. Pointers to booleans
  are options. Reading and validating a configuration is in theory \<open>Config\<close>.
\<close>

record OptionalDuration =
  od_Duration :: duration
  od_Set :: bool

definition no_duration :: OptionalDuration where
  "no_duration = \<lparr>od_Duration = 0, od_Set = False\<rparr>"

definition NewDuration :: "duration \<Rightarrow> OptionalDuration" where
  "NewDuration d = \<lparr>od_Duration = d, od_Set = True\<rparr>"

definition od_Or :: "OptionalDuration \<Rightarrow> duration \<Rightarrow> duration" where
  "od_Or d defaultValue = (if \<not> od_Set d then defaultValue else od_Duration d)"

definition od_MarshalText :: "OptionalDuration \<Rightarrow> string" where
  "od_MarshalText d = (if \<not> od_Set d then ''0s'' else duration_String (od_Duration d))"

definition od_IsZero :: "OptionalDuration \<Rightarrow> bool" where
  "od_IsZero d = (\<not> od_Set d)"

definition od_UnmarshalText :: "(string \<Rightarrow> duration option) \<Rightarrow> string \<Rightarrow> OptionalDuration res" where
  "od_UnmarshalText parseDuration text =
     (case parseDuration text of None \<Rightarrow> Inl (Wrap ''parse duration'' (Err ''time''))
      | Some d \<Rightarrow> Inr (NewDuration d))"

section \<open>Sections\<close>

record WireguardConfig =
  wc_Name :: string
  wc_PublicKey :: string
  wc_PrivateKey :: string
  wc_Interface :: string
  wc_ListenPort :: int
  wc_MTU :: int
  wc_Keepalive :: OptionalDuration

record DirectoryConfig =
  dc_NetworkIdentity :: string
  dc_PublisherPubKey :: string
  dc_PublisherKey :: string

record DropBackend =
  db_Type :: string
  db_Endpoint :: string
  db_Region :: string
  db_Bucket :: string
  db_ObjectKey :: string
  db_AccessKey :: string
  db_SecretKey :: string
  db_TLS :: "bool option"
  db_URL :: string
  db_Username :: string
  db_Password :: string
  db_Path :: string
  db_Provider :: string
  db_Zone :: string
  db_RecordName :: string
  db_APIToken :: string
  db_AppKey :: string
  db_AppSecret :: string
  db_ConsumerKey :: string
  db_TTL :: int
  db_Resolver :: string
  db_Relays :: "string list"
  db_Author :: string
  db_Nsec :: string
  db_Identifier :: string

definition zero_DropBackend :: DropBackend where
  "zero_DropBackend =
     \<lparr>db_Type = [], db_Endpoint = [], db_Region = [], db_Bucket = [], db_ObjectKey = [], db_AccessKey = [],
      db_SecretKey = [], db_TLS = None, db_URL = [], db_Username = [], db_Password = [], db_Path = [],
      db_Provider = [], db_Zone = [], db_RecordName = [], db_APIToken = [], db_AppKey = [], db_AppSecret = [],
      db_ConsumerKey = [], db_TTL = 0, db_Resolver = [], db_Relays = [], db_Author = [], db_Nsec = [],
      db_Identifier = []\<rparr>"

definition S3UseTLS :: "DropBackend \<Rightarrow> bool" where
  "S3UseTLS c = (case db_TLS c of None \<Rightarrow> True | Some b \<Rightarrow> b)"

record DropConfig =
  dr_Admin :: DropBackend
  dr_Client :: DropBackend

record SyncConfig =
  sc_Interval :: OptionalDuration
  sc_StateDir :: string
  sc_PIDFile :: string
  sc_MaxDirectoryAge :: OptionalDuration

record ObserveConfig =
  oc_Enabled :: "bool option"
  oc_HandshakeFresh :: OptionalDuration
  oc_RefreshInterval :: OptionalDuration

definition observe_IsEnabled :: "ObserveConfig \<Rightarrow> bool" where
  "observe_IsEnabled o' = (case oc_Enabled o' of None \<Rightarrow> True | Some b \<Rightarrow> b)"

record DiscoveryConfig =
  xc_Enabled :: "bool option"
  xc_MulticastIPv4 :: string
  xc_MulticastIPv6 :: string
  xc_BeaconInterval :: OptionalDuration
  xc_BeaconTTL :: OptionalDuration

definition discovery_IsEnabled :: "DiscoveryConfig \<Rightarrow> bool" where
  "discovery_IsEnabled d = (case xc_Enabled d of None \<Rightarrow> True | Some b \<Rightarrow> b)"

record DNSConfig =
  nc_ManageHosts :: "bool option"
  nc_Serve :: "bool option"
  nc_Upstream :: string
  nc_HostsPath :: string

definition ManageHostsEnabled :: "DNSConfig \<Rightarrow> bool" where
  "ManageHostsEnabled d = (case nc_ManageHosts d of None \<Rightarrow> True | Some b \<Rightarrow> b)"

record Config =
  c_Wireguard :: WireguardConfig
  c_Directory :: DirectoryConfig
  c_Drop :: DropConfig
  c_Sync :: SyncConfig
  c_Observe :: ObserveConfig
  c_Discovery :: DiscoveryConfig
  c_DNS :: DNSConfig

definition ReadDrop :: "Config \<Rightarrow> DropBackend" where
  "ReadDrop c = (if db_Type (dr_Admin (c_Drop c)) \<noteq> [] then dr_Admin (c_Drop c) else dr_Client (c_Drop c))"

section \<open>Defaults\<close>

definition DefaultStateDir :: string where "DefaultStateDir = ''/var/lib/tincan''"
definition DefaultPIDFile :: string where "DefaultPIDFile = ''/run/tincan.pid''"
definition DefaultInterface :: string where "DefaultInterface = ''tincan0''"
definition DefaultMTU :: int where "DefaultMTU = 1420"
definition DefaultInterval :: duration where "DefaultInterval = 300 * second"
definition DefaultNetwork :: string where "DefaultNetwork = ''10.42.0.0/24''"
definition DefaultDiscoveryMulticastIPv4 :: string where
  "DefaultDiscoveryMulticastIPv4 = ''239.255.84.67:51821''"
definition DefaultDiscoveryMulticastIPv6 :: string where
  "DefaultDiscoveryMulticastIPv6 = ''[ff02::1:8443]:51821''"
definition DefaultDiscoveryBeaconInterval :: duration where "DefaultDiscoveryBeaconInterval = 30 * second"
definition DefaultDiscoveryBeaconTTL :: duration where "DefaultDiscoveryBeaconTTL = 90 * second"

lemma od_Or_simps [simp]:
  "od_Or (NewDuration d) x = d"
  "od_Or no_duration x = x"
  by (simp_all add: od_Or_def NewDuration_def no_duration_def)

end
