(* ===== verification/DropDns.thy ===== *)
theory DropDns
  imports Settings Encoding "HOL-Library.Multiset"
begin

text \<open>
  The dead drop on DNS TXT records (\<open>src/internal/drop/dns.go\<close>): the sealed directory as numbered
  chunks, their reassembly, and the reconciliation of the records at one name through a provider.
  The provider's API and the resolver are parameters over a state \<open>'s\<close> of the DNS.
\<close>

section \<open>Chunks\<close>

definition chunkPrefix :: string where "chunkPrefix = ''tc1''"
definition dataPerChunk :: nat where "dataPerChunk = 220"
definition maxDNSChunks :: nat where "maxDNSChunks = 100"

definition chunkValue :: "string \<Rightarrow> nat \<Rightarrow> nat \<Rightarrow> string" where
  "chunkValue encoded tot seq =
     (let start = seq * dataPerChunk; stop = min (start + dataPerChunk) (length encoded)
      in chunkPrefix @ '';'' @ decimal seq @ '';'' @ decimal tot @ '';'' @ take (stop - start) (drop start encoded))"

definition chunkBlob :: "bytes \<Rightarrow> string list res" where
  "chunkBlob blob =
     (let encoded = rawurl_encode blob;
          n = (length encoded + dataPerChunk - 1) div dataPerChunk;
          tot = (if n = 0 then 1 else n)
      in if tot > maxDNSChunks then Inl (Err ''directory too large for dns drop'')
         else Inr (map (chunkValue encoded tot) [0..<tot]))"

definition isChunk :: "string \<Rightarrow> bool" where
  "isChunk v = hasPrefix v (chunkPrefix @ '';'')"

text \<open>The scan of \<open>reassembleChunks\<close>: \<open>tot\<close> is \<open>-1\<close> until a chunk gives it.\<close>

fun scanChunks :: "string list \<Rightarrow> int \<Rightarrow> (int \<times> string) list \<Rightarrow> (int \<times> (int \<times> string) list) res" where
  "scanChunks [] tot parts = Inr (tot, parts)"
| "scanChunks (v # vs) tot parts =
     (if \<not> isChunk v then scanChunks vs tot parts
      else case splitN (CHR '';'') v 4 of
        [_, f1, f2, f3] \<Rightarrow>
          (case atoi f1 of None \<Rightarrow> Inl (Wrap ''dns drop: bad chunk seq'' (Err ''strconv''))
           | Some seq \<Rightarrow>
               (case atoi f2 of None \<Rightarrow> Inl (Wrap ''dns drop: bad chunk total'' (Err ''strconv''))
                | Some t \<Rightarrow>
                    if tot = -1 then scanChunks vs t (parts @ [(seq, f3)])
                    else if tot \<noteq> t then Inl (Err ''dns drop: inconsistent chunk totals'')
                    else scanChunks vs tot (parts @ [(seq, f3)])))
      | _ \<Rightarrow> Inl (Err ''dns drop: malformed chunk''))"

fun joinParts :: "nat \<Rightarrow> (int \<times> string) list \<Rightarrow> string res" where
  "joinParts i [] = Inr []"
| "joinParts i ((seq, dat) # ps) =
     (if seq \<noteq> int i then Inl (Err ''dns drop: chunk sequence gap or duplicate'')
      else bindR (joinParts (Suc i) ps) (\<lambda>rest. Inr (dat @ rest)))"

definition reassembleChunks :: "string list \<Rightarrow> bytes res" where
  "reassembleChunks values =
     bindR (scanChunks values (-1) []) (\<lambda>(tot, parts).
       if parts = [] then Inl ErrNotFound
       else if tot \<le> 0 then Inl (Err ''dns drop: invalid chunk total'')
       else if int (length parts) \<noteq> tot then Inl (Err ''dns drop: incomplete directory'')
       else bindR (joinParts 0 (sort_key fst parts)) (\<lambda>encoded.
         case rawurl_decode encoded of
           None \<Rightarrow> Inl (Wrap ''dns drop: decode chunks'' (Err ''base64''))
         | Some blob \<Rightarrow> Inr blob))"

section \<open>Records at a name\<close>

record TXTRecord =
  tx_ID :: string
  tx_Value :: string

definition chunkSeq :: "string \<Rightarrow> int option" where
  "chunkSeq v =
     (case splitN (CHR '';'') v 4 of
        [_, f1, f2, _] \<Rightarrow>
          (case atoi f1 of None \<Rightarrow> None
           | Some seq \<Rightarrow>
               if seq < 0 then None
               else (case atoi f2 of None \<Rightarrow> None
                     | Some tot \<Rightarrow> if tot \<le> 0 then None else Some seq))
      | _ \<Rightarrow> None)"

text \<open>The stable sort puts the well-formed chunks first, by sequence number, then the others in
  their order.\<close>

definition splitTXTRecords :: "TXTRecord list \<Rightarrow> TXTRecord list \<times> TXTRecord list" where
  "splitTXTRecords records =
     (let chunks = filter (\<lambda>r. isChunk (tx_Value r)) records
      in (sort_key (\<lambda>r. the (chunkSeq (tx_Value r))) (filter (\<lambda>r. chunkSeq (tx_Value r) \<noteq> None) chunks) @
            filter (\<lambda>r. chunkSeq (tx_Value r) = None) chunks,
          filter (\<lambda>r. \<not> isChunk (tx_Value r)) records))"

definition mergeForeignTXTValues :: "TXTRecord list \<Rightarrow> string list \<Rightarrow> string list" where
  "mergeForeignTXTValues foreign desired = (if foreign = [] then desired else map tx_Value foreign @ desired)"

section \<open>The drop\<close>

definition dnsprovider_ErrAuth :: error where "dnsprovider_ErrAuth = Err ''dns provider: authentication failed''"
definition dnsprovider_ErrNotFound :: error where "dnsprovider_ErrNotFound = Err ''dns provider: not found''"

definition mapProviderErr :: "error \<Rightarrow> error" where
  "mapProviderErr e =
     (if errors_Is e dnsprovider_ErrAuth then ErrAuth
      else if errors_Is e dnsprovider_ErrNotFound then ErrNotFound else e)"

text \<open>The provider interface; \<open>Replacer\<close> and \<open>Flusher\<close> are implemented by some providers only.\<close>

record 's provider =
  pv_ListTXT :: "'s \<Rightarrow> string \<Rightarrow> string \<Rightarrow> 's \<times> TXTRecord list res"
  pv_CreateTXT :: "'s \<Rightarrow> string \<Rightarrow> string \<Rightarrow> string \<Rightarrow> 's \<times> error option"
  pv_UpdateTXT :: "'s \<Rightarrow> string \<Rightarrow> string \<Rightarrow> string \<Rightarrow> 's \<times> error option"
  pv_DeleteTXT :: "'s \<Rightarrow> string \<Rightarrow> string \<Rightarrow> 's \<times> error option"
  pv_ReplaceTXT :: "('s \<Rightarrow> string \<Rightarrow> string \<Rightarrow> string list \<Rightarrow> 's \<times> error option) option"
  pv_Flush :: "('s \<Rightarrow> string \<Rightarrow> 's \<times> error option) option"

text \<open>A failed lookup says whether the name has no records (\<open>DNSError.IsNotFound\<close>).\<close>

datatype lookupErr = DNSNotFound error | LookupErr error

record 's DNS =
  dn_zone :: string
  dn_name :: string
  dn_fqdn :: string
  dn_provider :: "'s provider option"
  dn_lookup :: "'s \<Rightarrow> string \<Rightarrow> lookupErr + string list"

definition txtFQDN :: "string \<Rightarrow> string \<Rightarrow> string" where
  "txtFQDN name0 zone0 =
     (let name = trimSuffix name0 ''.''; zone = trimSuffix zone0 ''.''
      in if name = [] \<or> name = ''@'' then zone else name @ ''.'' @ zone)"

text \<open>The address of the resolver: none for the system's.\<close>

definition resolverLookup :: "string \<Rightarrow> string option" where
  "resolverLookup addr =
     (if addr = [] then None
      else case splitHostPort addr of None \<Rightarrow> Some (joinHostPort addr ''53'') | Some _ \<Rightarrow> Some addr)"

record ProviderConfig =
  pf_Name :: string
  pf_Token :: string
  pf_AppKey :: string
  pf_AppSecret :: string
  pf_ConsumerKey :: string
  pf_Endpoint :: string
  pf_AccessKey :: string
  pf_SecretKey :: string
  pf_TTL :: int

definition NewDNS ::
  "(ProviderConfig \<Rightarrow> 's provider res) \<Rightarrow> (string option \<Rightarrow> 's \<Rightarrow> string \<Rightarrow> lookupErr + string list) \<Rightarrow>
   DropBackend \<Rightarrow> 's DNS res" where
  "NewDNS dnsprovider_New lookup cfg =
     (let zone = toLower (db_Zone cfg);
          recordName = toLower (db_RecordName cfg);
          d = \<lparr>dn_zone = zone, dn_name = recordName, dn_fqdn = txtFQDN recordName zone, dn_provider = None,
               dn_lookup = lookup (resolverLookup (db_Resolver cfg))\<rparr>
      in if db_Provider cfg \<noteq> [] then
           bindR (dnsprovider_New
               \<lparr>pf_Name = db_Provider cfg, pf_Token = db_APIToken cfg, pf_AppKey = db_AppKey cfg,
                pf_AppSecret = db_AppSecret cfg, pf_ConsumerKey = db_ConsumerKey cfg, pf_Endpoint = db_Endpoint cfg,
                pf_AccessKey = db_AccessKey cfg, pf_SecretKey = db_SecretKey cfg, pf_TTL = db_TTL cfg\<rparr>)
             (\<lambda>p. Inr (d\<lparr>dn_provider := Some p\<rparr>))
         else Inr d)"

definition dns_Name :: "'s DNS \<Rightarrow> string" where
  "dns_Name d = ''dns:'' @ dn_fqdn d"

definition mapLookupErr :: "lookupErr \<Rightarrow> error" where
  "mapLookupErr e = (case e of DNSNotFound _ \<Rightarrow> ErrNotFound | LookupErr e \<Rightarrow> e)"

definition dns_Get :: "'s DNS \<Rightarrow> 's \<Rightarrow> bytes res" where
  "dns_Get d s =
     (case dn_lookup d s (dn_fqdn d) of
        Inl e \<Rightarrow> Inl (mapLookupErr e)
      | Inr values \<Rightarrow> reassembleChunks values)"

text \<open>The two loops of \<open>Put\<close>: reuse records by index, create the shortfall, delete the surplus.
  The result is the state, the error if one step failed, and whether anything was changed.\<close>

fun reconcile ::
  "'s provider \<Rightarrow> string \<Rightarrow> string \<Rightarrow> string list \<Rightarrow> TXTRecord list \<Rightarrow> bool \<Rightarrow> 's \<Rightarrow> 's \<times> error option \<times> bool" where
  "reconcile P zone name [] [] changed s = (s, None, changed)"
| "reconcile P zone name (v # vs) [] changed s =
     (case pv_CreateTXT P s zone name v of
        (s', Some e) \<Rightarrow> (s', Some (mapProviderErr e), changed)
      | (s', None) \<Rightarrow> reconcile P zone name vs [] True s')"
| "reconcile P zone name (v # vs) (r # rs) changed s =
     (if tx_Value r \<noteq> v then
        (case pv_UpdateTXT P s zone (tx_ID r) v of
           (s', Some e) \<Rightarrow> (s', Some (mapProviderErr e), changed)
         | (s', None) \<Rightarrow> reconcile P zone name vs rs True s')
      else reconcile P zone name vs rs changed s)"
| "reconcile P zone name [] (r # rs) changed s =
     (case pv_DeleteTXT P s zone (tx_ID r) of
        (s', Some e) \<Rightarrow> (s', Some (mapProviderErr e), changed)
      | (s', None) \<Rightarrow> reconcile P zone name [] rs True s')"

definition dns_Put :: "'s DNS \<Rightarrow> bytes \<Rightarrow> 's \<Rightarrow> 's \<times> error option" where
  "dns_Put d dat s =
     (case dn_provider d of
        None \<Rightarrow> (s, Some (Wrap ''dns drop has no provider configured'' ErrReadOnly))
      | Some P \<Rightarrow>
          (case chunkBlob dat of
             Inl e \<Rightarrow> (s, Some e)
           | Inr desired \<Rightarrow>
               (case pv_ListTXT P s (dn_zone d) (dn_name d) of
                  (s1, Inl e) \<Rightarrow> (s1, Some (mapProviderErr e))
                | (s1, Inr existing) \<Rightarrow>
                    (case pv_ReplaceTXT P of
                       Some replace \<Rightarrow>
                         (case replace s1 (dn_zone d) (dn_name d)
                             (mergeForeignTXTValues (snd (splitTXTRecords existing)) desired) of
                            (s', Some e) \<Rightarrow> (s', Some (mapProviderErr e))
                          | (s', None) \<Rightarrow> (s', None))
                     | None \<Rightarrow>
                         (case reconcile P (dn_zone d) (dn_name d) desired (fst (splitTXTRecords existing)) False s1 of
                            (s', Some e, _) \<Rightarrow> (s', Some e)
                          | (s', None, changed) \<Rightarrow>
                              (case pv_Flush P of
                                 Some flush \<Rightarrow>
                                   if changed then
                                     (case flush s' (dn_zone d) of
                                        (s'', Some e) \<Rightarrow> (s'', Some (mapProviderErr e))
                                      | (s'', None) \<Rightarrow> (s'', None))
                                   else (s', None)
                               | None \<Rightarrow> (s', None)))))))"

record Metadata =
  md_Size :: int
  md_UpdatedAt :: gotime
  md_ETag :: string

definition dns_Stat :: "(bytes \<Rightarrow> bytes) \<Rightarrow> 's DNS \<Rightarrow> 's \<Rightarrow> Metadata res" where
  "dns_Stat sha256 d s =
     bindR (dns_Get d s) (\<lambda>blob.
       Inr \<lparr>md_Size = int (length blob), md_UpdatedAt = 0, md_ETag = hex_encode (take 8 (sha256 blob))\<rparr>)"

section \<open>Reassembly of what was cut\<close>

definition payload :: "string \<Rightarrow> nat \<Rightarrow> string" where
  "payload encoded seq =
     take (min (seq * dataPerChunk + dataPerChunk) (length encoded) - seq * dataPerChunk) (drop (seq * dataPerChunk) encoded)"

lemma payload_take: "payload encoded seq = take dataPerChunk (drop (seq * dataPerChunk) encoded)"
  by (auto simp: payload_def min_def)

lemma chunkValue_payload:
  "chunkValue encoded n i = ''tc1;'' @ decimal i @ CHR '';'' # decimal n @ CHR '';'' # payload encoded i"
  by (simp add: chunkValue_def chunkPrefix_def payload_def Let_def)

lemma decimal_no_semicolon [simp]: "CHR '';'' \<notin> set (decimal n)"
  by (rule is_digit_not_in) (simp add: is_digit_def)

lemma splitN_chunkValue:
  "splitN (CHR '';'') (chunkValue encoded n i) 4 = [''tc1'', decimal i, decimal n, payload encoded i]"
  using cutOn_append [of "CHR '';''" "''tc1''" "decimal i @ CHR '';'' # decimal n @ CHR '';'' # payload encoded i"]
  by (simp add: chunkValue_payload numeral_eq_Suc)

lemma isChunk_chunkValue [simp]: "isChunk (chunkValue encoded n i)"
  by (simp add: isChunk_def chunkValue_def chunkPrefix_def hasPrefix_iff Let_def)

lemma scanChunks_cut:
  assumes "0 < n" and "n < 2 ^ 63" and "\<forall>i \<in> set is. i < n"
    and "filter isChunk vs = map (chunkValue encoded n) is" and "t = -1 \<or> t = int n"
  shows "scanChunks vs t parts =
    Inr (if is = [] then t else int n, parts @ map (\<lambda>i. (int i, payload encoded i)) is)"
  using assms
proof (induction vs arbitrary: t parts "is")
  case (Cons v vs)
  show ?case
  proof (cases "isChunk v")
    case True
    then obtain i js where js: "is = i # js" "v = chunkValue encoded n i" "filter isChunk vs = map (chunkValue encoded n) js"
      using Cons.prems(4) by (cases "is") auto
    have "i < 2 ^ 63" using Cons.prems(2,3) js(1) by auto
    then have a: "atoi (decimal i) = Some (int i)" "atoi (decimal n) = Some (int n)"
      using Cons.prems(2) by (simp_all add: atoi_decimal)
    have "scanChunks vs (int n) (parts @ [(int i, payload encoded i)]) =
        Inr (if js = [] then int n else int n, (parts @ [(int i, payload encoded i)]) @ map (\<lambda>i. (int i, payload encoded i)) js)"
      using Cons.prems js by (intro Cons.IH) simp_all
    then show ?thesis using True Cons.prems(1,5) js(1,2) by (auto simp: splitN_chunkValue a)
  next
    case False
    with Cons show ?thesis by simp
  qed
qed simp

lemma joinParts_upt: "joinParts k (map (\<lambda>i. (int i, f i)) [k..<m]) = Inr (concat (map f [k..<m]))"
proof (induction "m - k" arbitrary: k)
  case (Suc d)
  then have "[k..<m] = k # [Suc k..<m]" by (simp add: upt_conv_Cons)
  moreover have "joinParts (Suc k) (map (\<lambda>i. (int i, f i)) [Suc k..<m]) = Inr (concat (map f [Suc k..<m]))"
    using Suc by simp
  ultimately show ?case by simp
qed simp

lemma concat_payload: "concat (map (payload encoded) [0..<n]) = take (n * dataPerChunk) encoded"
proof (induction n)
  case (Suc n)
  have "take (Suc n * dataPerChunk) encoded = take (n * dataPerChunk) encoded @ payload encoded n"
    unfolding payload_take take_add [symmetric] by (simp add: add.commute)
  with Suc show ?case by simp
qed simp

lemma mset_eq_map:
  "mset ys = mset (map f xs) \<Longrightarrow> \<exists>zs. ys = map f zs \<and> mset zs = mset xs"
proof (induction ys arbitrary: xs)
  case (Cons y ys)
  then have "y \<in> set (map f xs)" by (metis list.set_intros(1) set_mset_mset)
  then obtain x where x: "x \<in> set xs" "y = f x" by auto
  have "mset (map f xs) = add_mset y (mset (map f (remove1 x xs)))"
    using x(1) unfolding x(2) by (induction xs) auto
  with Cons.prems have "mset ys = mset (map f (remove1 x xs))" by simp
  from Cons.IH [OF this] obtain zs where "ys = map f zs" "mset zs = mset (remove1 x xs)" by blast
  with x show ?case by (intro exI [of _ "x # zs"]) simp
qed simp

lemma sort_key_perm:
  assumes "mset xs = mset ys" and "sorted (map f ys)" and "distinct (map f ys)"
  shows "sort_key f xs = ys"
proof (rule properties_for_sort_key)
  show "mset ys = mset xs" using assms(1) by simp
  fix k assume k: "k \<in> set ys"
  have d: "distinct (map f xs)" using assms(1,3) by (metis mset_eq_imp_distinct_iff mset_map)
  have one: "filter (\<lambda>x. f k = f x) zs = [k]" if "k \<in> set zs" "distinct (map f zs)" for zs
    using that
  proof (induction zs)
    case (Cons z zs)
    then have "k \<noteq> z \<Longrightarrow> f k \<noteq> f z" by (metis distinct.simps(2) image_eqI list.set_map list.simps(9) set_ConsD)
    with Cons show ?case by (cases "k = z") (auto simp: filter_empty_conv)
  qed simp
  show "filter (\<lambda>x. f k = f x) ys = filter (\<lambda>x. f k = f x) xs"
    using one k d assms(1,3) by (metis set_mset_mset)
qed (rule assms(2))

definition chunk_count :: "bytes \<Rightarrow> nat" where
  "chunk_count blob = max 1 ((length (rawurl_encode blob) + dataPerChunk - 1) div dataPerChunk)"

lemma chunkBlob_Inr:
  "chunkBlob blob = Inr cs \<longleftrightarrow> chunk_count blob \<le> maxDNSChunks \<and>
     cs = map (chunkValue (rawurl_encode blob) (chunk_count blob)) [0..<chunk_count blob]"
  by (auto simp: chunkBlob_def Let_def chunk_count_def max_def)

lemma chunk_count_enough: "length (rawurl_encode blob) \<le> chunk_count blob * dataPerChunk"
proof -
  have "l \<le> max 1 ((l + 220 - 1) div 220) * (220 :: nat)" for l by (simp add: max_def) linarith
  then show ?thesis unfolding chunk_count_def dataPerChunk_def by blast
qed

lemma reassemble_cut:
  assumes "chunkBlob blob = Inr cs" and "mset (filter isChunk values) = mset cs"
  shows "reassembleChunks values = Inr blob"
proof -
  let ?n = "chunk_count blob" and ?e = "rawurl_encode blob"
  let ?part = "\<lambda>i. (int i, payload ?e i)"
  have cs: "cs = map (chunkValue ?e ?n) [0..<?n]" and n: "?n \<le> 100"
    using assms(1) by (simp_all add: chunkBlob_Inr maxDNSChunks_def)
  have "0 < ?n" by (simp add: chunk_count_def)
  obtain "is" where "is": "filter isChunk values = map (chunkValue ?e ?n) is" "mset is = mset [0..<?n]"
    using assms(2) unfolding cs by (metis mset_eq_map)
  have "scanChunks values (-1) [] = Inr (if is = [] then -1 else int ?n, [] @ map ?part is)"
    using \<open>0 < ?n\<close> n "is" by (intro scanChunks_cut) (auto simp: simp flip: set_mset_mset)
  moreover have len: "length is = ?n" using mset_eq_length [OF "is"(2)] by simp
  moreover have "is \<noteq> []" using len \<open>0 < ?n\<close> by auto
  moreover have "sort_key fst (map ?part is) = map ?part [0..<?n]"
  proof (rule sort_key_perm)
    show "mset (map ?part is) = mset (map ?part [0..<?n])" using "is"(2) by (metis mset_map)
  qed (simp_all add: comp_def distinct_map inj_on_def sorted_map sorted_wrt_iff_nth_less)
  moreover have "concat (map (payload ?e) [0..<?n]) = ?e"
    using chunk_count_enough [of blob] by (simp add: concat_payload)
  ultimately show ?thesis
    using \<open>0 < ?n\<close> by (simp add: reassembleChunks_def joinParts_upt rawurl_roundtrip)
qed

section \<open>Publishing through a provider\<close>

text \<open>What the drop relies on of a provider, for the records at one name: \<open>table s\<close> maps record ids to
  values. A provider that can replace the whole set is not asked for changes of single records. \<open>listing\<close>: some order of the whole table.\<close>

definition listing :: "(string \<Rightarrow> string option) \<Rightarrow> TXTRecord list \<Rightarrow> bool" where
  "listing t rs \<longleftrightarrow> distinct (map tx_ID rs) \<and> t = map_of (map (\<lambda>r. (tx_ID r, tx_Value r)) rs)"

definition provider_ok :: "'s provider \<Rightarrow> string \<Rightarrow> string \<Rightarrow> ('s \<Rightarrow> string \<Rightarrow> string option) \<Rightarrow> bool" where
  "provider_ok P zone name table \<longleftrightarrow>
     (\<forall>s s' r. pv_ListTXT P s zone name = (s', r) \<longrightarrow> table s' = table s \<and> (\<forall>rs. r = Inr rs \<longrightarrow> listing (table s) rs)) \<and>
     (pv_ReplaceTXT P = None \<longrightarrow>
        (\<forall>s v s'. pv_CreateTXT P s zone name v = (s', None) \<longrightarrow>
           (\<exists>i. table s i = None \<and> table s' = (table s)(i \<mapsto> v))) \<and>
        (\<forall>s i v s'. pv_UpdateTXT P s zone i v = (s', None) \<longrightarrow> i \<in> dom (table s) \<longrightarrow> table s' = (table s)(i \<mapsto> v)) \<and>
        (\<forall>s i s'. pv_DeleteTXT P s zone i = (s', None) \<longrightarrow> i \<in> dom (table s) \<longrightarrow> table s' = (table s)(i := None))) \<and>
     (\<forall>f s vs s'. pv_ReplaceTXT P = Some f \<longrightarrow> f s zone name vs = (s', None) \<longrightarrow>
        (\<exists>rs. listing (table s') rs \<and> map tx_Value rs = vs)) \<and>
     (\<forall>f s s'. pv_Flush P = Some f \<longrightarrow> f s zone = (s', None) \<longrightarrow> table s' = table s)"

lemma provider_okD:
  assumes "provider_ok P zone name table"
  shows "pv_ListTXT P s zone name = (s', Inr rs) \<Longrightarrow> table s' = table s \<and> listing (table s) rs"
    and "pv_ReplaceTXT P = None \<Longrightarrow> pv_CreateTXT P s zone name v = (s', None) \<Longrightarrow>
      \<exists>i. table s i = None \<and> table s' = (table s)(i \<mapsto> v)"
    and "pv_ReplaceTXT P = None \<Longrightarrow> pv_UpdateTXT P s zone i v = (s', None) \<Longrightarrow> i \<in> dom (table s) \<Longrightarrow> table s' = (table s)(i \<mapsto> v)"
    and "pv_ReplaceTXT P = None \<Longrightarrow> pv_DeleteTXT P s zone i = (s', None) \<Longrightarrow> i \<in> dom (table s) \<Longrightarrow> table s' = (table s)(i := None)"
    and "pv_ReplaceTXT P = Some f \<Longrightarrow> f s zone name vs = (s', None) \<Longrightarrow>
      \<exists>rs. listing (table s') rs \<and> map tx_Value rs = vs"
    and "pv_Flush P = Some g \<Longrightarrow> g s zone = (s', None) \<Longrightarrow> table s' = table s"
proof -
  note ok = assms [unfolded provider_ok_def]
  note single = ok [THEN conjunct2, THEN conjunct1, rule_format]
  show "pv_ListTXT P s zone name = (s', Inr rs) \<Longrightarrow> table s' = table s \<and> listing (table s) rs"
    using ok [THEN conjunct1] by blast
  show "pv_ReplaceTXT P = None \<Longrightarrow> pv_CreateTXT P s zone name v = (s', None) \<Longrightarrow>
      \<exists>i. table s i = None \<and> table s' = (table s)(i \<mapsto> v)" using single by blast
  show "pv_ReplaceTXT P = None \<Longrightarrow> pv_UpdateTXT P s zone i v = (s', None) \<Longrightarrow> i \<in> dom (table s) \<Longrightarrow> table s' = (table s)(i \<mapsto> v)"
    using single by blast
  show "pv_ReplaceTXT P = None \<Longrightarrow> pv_DeleteTXT P s zone i = (s', None) \<Longrightarrow> i \<in> dom (table s) \<Longrightarrow> table s' = (table s)(i := None)"
    using single by blast
  show "pv_ReplaceTXT P = Some f \<Longrightarrow> f s zone name vs = (s', None) \<Longrightarrow>
      \<exists>rs. listing (table s') rs \<and> map tx_Value rs = vs" using ok [THEN conjunct2, THEN conjunct2, THEN conjunct1] by blast
  show "pv_Flush P = Some g \<Longrightarrow> g s zone = (s', None) \<Longrightarrow> table s' = table s"
    using ok [THEN conjunct2, THEN conjunct2, THEN conjunct2] by blast
qed

text \<open>The table of a list of records, under the changes a provider makes to it.\<close>

lemma table_update:
  assumes "map_of (map (\<lambda>r. (tx_ID r, tx_Value r)) rs) i = Some y"
  shows "map_of (map (\<lambda>r. (tx_ID r, tx_Value r)) (map (\<lambda>r. if tx_ID r = i then r\<lparr>tx_Value := v\<rparr> else r) rs)) =
    (map_of (map (\<lambda>r. (tx_ID r, tx_Value r)) rs))(i \<mapsto> v)"
proof
  fix x
  have "map_of (map (\<lambda>r. (tx_ID r, tx_Value r)) (map (\<lambda>r. if tx_ID r = i then r\<lparr>tx_Value := v\<rparr> else r) rs)) x =
      (if x = i then map_option (\<lambda>_. v) (map_of (map (\<lambda>r. (tx_ID r, tx_Value r)) rs) x)
       else map_of (map (\<lambda>r. (tx_ID r, tx_Value r)) rs) x)"
    by (induction rs) auto
  with assms show "map_of (map (\<lambda>r. (tx_ID r, tx_Value r)) (map (\<lambda>r. if tx_ID r = i then r\<lparr>tx_Value := v\<rparr> else r) rs)) x =
      ((map_of (map (\<lambda>r. (tx_ID r, tx_Value r)) rs))(i \<mapsto> v)) x" by auto
qed

lemma table_delete:
  "map_of (map (\<lambda>r. (tx_ID r, tx_Value r)) (filter (\<lambda>r. tx_ID r \<noteq> i) rs)) =
    (map_of (map (\<lambda>r. (tx_ID r, tx_Value r)) rs))(i := None)"
  by (induction rs) auto

lemma table_create:
  "map_of (map (\<lambda>r. (tx_ID r, tx_Value r)) rs) i = None \<Longrightarrow>
    map_of (map (\<lambda>r. (tx_ID r, tx_Value r)) (rs @ [\<lparr>tx_ID = i, tx_Value = v\<rparr>])) =
    (map_of (map (\<lambda>r. (tx_ID r, tx_Value r)) rs))(i \<mapsto> v)"
  by (simp add: map_add_upd_left map_add_def fun_eq_iff split: option.split)

text \<open>A lookup that succeeds returns the values at the name, in any order.\<close>

definition lookup_ok :: "('s \<Rightarrow> string \<Rightarrow> lookupErr + string list) \<Rightarrow> string \<Rightarrow> ('s \<Rightarrow> string \<Rightarrow> string option) \<Rightarrow> bool" where
  "lookup_ok lookup fqdn table \<longleftrightarrow>
     (\<forall>s vs. lookup s fqdn = Inr vs \<longrightarrow> (\<exists>rs. listing (table s) rs \<and> mset vs = mset (map tx_Value rs)))"

lemma listing_mset:
  assumes "listing t rs" and "listing t rs'"
  shows "mset rs = mset rs'"
proof -
  have inj: "r = r'" if "r \<in> set xs" "r' \<in> set xs" "tx_ID r = tx_ID r'" "listing t xs" for r r' xs
    using that by (auto simp: listing_def distinct_map inj_on_def)
  have mem: "r \<in> set xs \<longleftrightarrow> t (tx_ID r) = Some (tx_Value r)" if "listing t xs" for r xs
  proof
    assume "r \<in> set xs"
    then show "t (tx_ID r) = Some (tx_Value r)" using that by (auto simp: listing_def comp_def intro!: map_of_is_SomeI)
  next
    assume "t (tx_ID r) = Some (tx_Value r)"
    then have "(tx_ID r, tx_Value r) \<in> set (map (\<lambda>r. (tx_ID r, tx_Value r)) xs)"
      using that unfolding listing_def by (metis map_of_SomeD)
    then obtain r' where "r' \<in> set xs" "tx_ID r' = tx_ID r" "tx_Value r' = tx_Value r" by auto
    moreover from this(2,3) have "r' = r" by (simp add: TXTRecord.equality)
    ultimately show "r \<in> set xs" by simp
  qed
  have "set rs = set rs'" using mem assms by blast
  moreover have "distinct rs" "distinct rs'" using assms by (simp_all add: listing_def distinct_map)
  ultimately show ?thesis by (simp add: set_eq_iff_mset_eq_distinct)
qed

text \<open>The records that reconciliation leaves: those it was not given, and the wanted values under
  distinct ids of their own.\<close>

definition reconciled ::
  "(string \<Rightarrow> string option) \<Rightarrow> (string \<Rightarrow> string option) \<Rightarrow> string list \<Rightarrow> TXTRecord list \<Rightarrow> string list \<Rightarrow> bool" where
  "reconciled t t' vs rs ids \<longleftrightarrow> length ids = length vs \<and> distinct ids \<and>
     set ids \<inter> (dom t - tx_ID ` set rs) = {} \<and> t' = (t |` (- (tx_ID ` set rs))) ++ map_of (zip ids vs)"

lemma restrict_UNIV: "m |` UNIV = m"
  by (simp add: restrict_map_def)

lemma reconciled_create:
  assumes "t i = None" and "reconciled (t(i \<mapsto> v)) t' vs [] ids"
  shows "reconciled t t' (v # vs) [] (i # ids)"
proof -
  have i: "i \<notin> set ids" using assms(2) by (auto simp: reconciled_def)
  then have "i \<notin> dom (map_of (zip ids vs))" using assms(2) by (simp add: reconciled_def)
  moreover have "t' = t(i \<mapsto> v) ++ map_of (zip ids vs)"
    using assms(2) by (simp add: reconciled_def restrict_UNIV del: restrict_fun_upd)
  ultimately show ?thesis using assms i by (auto simp: reconciled_def map_add_upd_left restrict_UNIV)
qed

lemma reconciled_update:
  assumes "tx_ID r \<notin> tx_ID ` set rs" and "reconciled (t(tx_ID r \<mapsto> v)) t' vs rs ids"
  shows "reconciled t t' (v # vs) (r # rs) (tx_ID r # ids)"
proof -
  have i: "tx_ID r \<notin> set ids" using assms by (auto simp: reconciled_def)
  then have "tx_ID r \<notin> dom (map_of (zip ids vs))" using assms(2) by (simp add: reconciled_def)
  moreover have "(t(tx_ID r \<mapsto> v)) |` (- (tx_ID ` set rs)) = (t |` (- (tx_ID ` set (r # rs))))(tx_ID r \<mapsto> v)"
    using assms(1) by (auto simp: restrict_map_def)
  ultimately show ?thesis using assms i by (auto simp: reconciled_def map_add_upd_left)
qed

lemma reconciled_delete:
  assumes "reconciled (t(tx_ID r := None)) t' [] rs []"
  shows "reconciled t t' [] (r # rs) []"
  using assms by (auto simp: reconciled_def restrict_map_def)

lemma reconcile_table:
  assumes "provider_ok P zone name table" and "reconcile P zone name vs rs ch s = (s', None, ch')"
    and "distinct (map tx_ID rs)" and "\<forall>r \<in> set rs. table s (tx_ID r) = Some (tx_Value r)"
    and "pv_ReplaceTXT P = None"
  shows "\<exists>ids. reconciled (table s) (table s') vs rs ids"
  using assms(2-4)
proof (induction vs arbitrary: rs ch s)
  case Nil
  then have "reconciled (table s) (table s') [] rs []"
  proof (induction rs arbitrary: ch s)
    case Nil
    then show ?case by (simp add: reconciled_def restrict_UNIV)
  next
    case (Cons r rs)
    then obtain s1 where s1: "pv_DeleteTXT P s zone (tx_ID r) = (s1, None)"
      and rec: "reconcile P zone name [] rs True s1 = (s', None, ch')" by (auto split: prod.splits option.splits)
    have t1: "table s1 = (table s)(tx_ID r := None)" using provider_okD(4) [OF assms(1,5) s1] Cons.prems(3) by auto
    have "\<forall>q \<in> set rs. table s1 (tx_ID q) = Some (tx_Value q)" using Cons.prems(3) t1 distinct_map_neq [OF Cons.prems(2)] by simp
    from Cons.IH [OF rec _ this] have "reconciled (table s1) (table s') [] rs []" using Cons.prems(2) by simp
    then show ?case unfolding t1 by (rule reconciled_delete)
  qed
  then show ?case by blast
next
  case (Cons v vs)
  show ?case
  proof (cases rs)
    case Nil
    with Cons.prems obtain s1 where s1: "pv_CreateTXT P s zone name v = (s1, None)"
      and rec: "reconcile P zone name vs [] True s1 = (s', None, ch')" by (auto split: prod.splits option.splits)
    obtain i where i: "table s i = None" "table s1 = (table s)(i \<mapsto> v)"
      using provider_okD(2) [OF assms(1,5) s1] by blast
    from Cons.IH [OF rec] obtain ids where "reconciled (table s1) (table s') vs [] ids" by auto
    with i Nil show ?thesis using reconciled_create by metis
  next
    case (Cons r qs)
    note rs = this
    have "table s (tx_ID r) = Some (tx_Value r)" and nr: "tx_ID r \<notin> tx_ID ` set qs"
      using Cons.prems rs by auto
    have "\<exists>s1 ch1. reconcile P zone name vs qs ch1 s1 = (s', None, ch') \<and> table s1 = (table s)(tx_ID r \<mapsto> v)"
    proof (cases "tx_Value r = v")
      case True
      then have "table s = (table s)(tx_ID r \<mapsto> v)" using \<open>table s (tx_ID r) = _\<close> by auto
      moreover have "reconcile P zone name vs qs ch s = (s', None, ch')" using Cons.prems rs True by simp
      ultimately show ?thesis by blast
    next
      case False
      with Cons.prems rs obtain s1 where "pv_UpdateTXT P s zone (tx_ID r) v = (s1, None)"
        and "reconcile P zone name vs qs True s1 = (s', None, ch')" by (auto split: prod.splits option.splits)
      moreover from this(1) have "table s1 = (table s)(tx_ID r \<mapsto> v)"
        using provider_okD(3) [OF assms(1,5)] \<open>table s (tx_ID r) = _\<close> by blast
      ultimately show ?thesis by blast
    qed
    then obtain s1 ch1 where rec: "reconcile P zone name vs qs ch1 s1 = (s', None, ch')"
      and t1: "table s1 = (table s)(tx_ID r \<mapsto> v)" by blast
    have "\<forall>q \<in> set qs. table s1 (tx_ID q) = Some (tx_Value q)" using Cons.prems(2,3) rs t1 distinct_map_neq [of tx_ID r qs] by simp
    from Cons.IH [OF rec _ this] Cons.prems rs obtain ids where "reconciled (table s1) (table s') vs qs ids" by auto
    then show ?thesis unfolding rs t1 using reconciled_update [OF nr] by blast
  qed
qed

text \<open>Two listings of one table hold the same values, so what a lookup sees after reconciliation are
  the foreign values and the wanted ones.\<close>

lemma listing_values:
  "listing t rs \<Longrightarrow> listing t rs' \<Longrightarrow> mset (map tx_Value rs) = mset (map tx_Value rs')"
  by (metis listing_mset mset_map)

lemma split_mset:
  "mset (fst (splitTXTRecords rs)) = mset (filter (\<lambda>r. isChunk (tx_Value r)) rs)"
proof -
  have "mset (filter (\<lambda>r. chunkSeq (tx_Value r) \<noteq> None) xs) + mset (filter (\<lambda>r. chunkSeq (tx_Value r) = None) xs) = mset xs" for xs
    by (induction xs) auto
  then show ?thesis unfolding splitTXTRecords_def Let_def by (simp only: fst_conv mset_append mset_sort)
qed

lemma reconciled_listing:
  assumes "listing t ex" and "reconciled t t' vs (fst (splitTXTRecords ex)) ids"
  shows "listing t' (snd (splitTXTRecords ex) @ map2 (\<lambda>i v. \<lparr>tx_ID = i, tx_Value = v\<rparr>) ids vs)"
proof -
  let ?own = "fst (splitTXTRecords ex)" and ?for = "filter (\<lambda>r. \<not> isChunk (tx_Value r)) ex"
  let ?new = "map2 (\<lambda>i v. \<lparr>tx_ID = i, tx_Value = v\<rparr>) ids vs"
  let ?pair = "\<lambda>r. (tx_ID r, tx_Value r)"
  have f: "snd (splitTXTRecords ex) = ?for" by (simp add: splitTXTRecords_def Let_def)
  have own: "set ?own = {r \<in> set ex. isChunk (tx_Value r)}"
    using split_mset [of ex] by (metis set_filter set_mset_mset)
  have inj: "inj_on tx_ID (set ex)" and t: "t = map_of (map ?pair ex)" using assms(1) by (simp_all add: listing_def distinct_map)
  have len: "length ids = length vs" and d: "distinct ids"
    and dis: "set ids \<inter> (dom t - tx_ID ` set ?own) = {}"
    and t': "t' = (t |` (- (tx_ID ` set ?own))) ++ map_of (zip ids vs)" using assms(2) by (simp_all add: reconciled_def)
  have new: "map ?pair ?new = zip ids vs" "map tx_ID ?new = ids"
    using len by (simp_all add: comp_def split_def map_fst_zip)
  have dom: "dom t = tx_ID ` set ex" by (simp add: t dom_map_of_conv_image_fst image_image)
  have rest: "t |` (- (tx_ID ` set ?own)) = map_of (map ?pair ?for)"
  proof
    fix i
    have keep: "map_of (map ?pair (filter (\<lambda>r. tx_ID r \<notin> D) xs)) i = (if i \<in> D then None else map_of (map ?pair xs) i)" for D xs
      by (induction xs) auto
    have "?for = filter (\<lambda>r. tx_ID r \<notin> tx_ID ` set ?own) ex"
      by (rule filter_cong) (use own inj in \<open>auto simp: inj_on_def\<close>)
    then show "(t |` (- (tx_ID ` set ?own))) i = map_of (map ?pair ?for) i"
      using keep [of "tx_ID ` set ?own" ex] by (simp add: restrict_map_def t)
  qed
  have idf: "tx_ID ` set ?for = dom t - tx_ID ` set ?own" using own inj unfolding dom by (auto simp: inj_on_def)
  have "distinct (map tx_ID ?for)" using assms(1) by (simp add: listing_def distinct_map_filter)
  then have "distinct (map tx_ID (?for @ ?new))" using d dis idf new(2) by auto
  moreover have "t' = map_of (map ?pair (?for @ ?new))"
  proof -
    have "dom (map_of (map ?pair ?for)) \<inter> dom (map_of (zip ids vs)) = {}"
      using dis idf len by (auto simp: dom_map_of_conv_image_fst image_image dest: set_zip_leftD)
    then have "map_of (map ?pair ?for) ++ map_of (zip ids vs) = map_of (zip ids vs) ++ map_of (map ?pair ?for)"
      by (rule map_add_comm)
    then show ?thesis unfolding t' rest map_append map_of_append new(1) by simp
  qed
  ultimately show ?thesis unfolding listing_def f by blast
qed

text \<open>The values at the name after a successful \<open>Put\<close>: the foreign ones that were there, and the
  chunks of the blob.\<close>

lemma dns_Put_values:
  assumes "dn_provider d = Some P" and "provider_ok P (dn_zone d) (dn_name d) table"
    and "dns_Put d dat s = (s', None)"
  shows "\<exists>cs ex rs. chunkBlob dat = Inr cs \<and> listing (table s) ex \<and> listing (table s') rs \<and>
    map tx_Value rs = map tx_Value (filter (\<lambda>r. \<not> isChunk (tx_Value r)) ex) @ cs"
proof -
  obtain cs ex s0 where cs: "chunkBlob dat = Inr cs" and l: "pv_ListTXT P s (dn_zone d) (dn_name d) = (s0, Inr ex)"
    using assms(1,3) by (auto simp: dns_Put_def split: sum.splits prod.splits)
  have ex: "listing (table s) ex" and t0: "table s0 = table s" using provider_okD(1) [OF assms(2) l] by simp_all
  have f: "snd (splitTXTRecords ex) = filter (\<lambda>r. \<not> isChunk (tx_Value r)) ex" by (simp add: splitTXTRecords_def Let_def)
  show ?thesis
  proof (cases "pv_ReplaceTXT P")
    case (Some replace)
    have "replace s0 (dn_zone d) (dn_name d) (mergeForeignTXTValues (snd (splitTXTRecords ex)) cs) = (s', None)"
      using assms(1,3) cs l Some by (auto simp: dns_Put_def split: prod.splits option.splits)
    from provider_okD(5) [OF assms(2) Some this] show ?thesis
      using cs ex unfolding f by (auto simp: mergeForeignTXTValues_def split: if_splits)
  next
    case None
    obtain s1 ch where r: "reconcile P (dn_zone d) (dn_name d) cs (fst (splitTXTRecords ex)) False s0 = (s1, None, ch)"
      and t1: "table s' = table s1"
      using assms(1,3) cs l None provider_okD(6) [OF assms(2)]
      by (auto simp: dns_Put_def split: prod.splits option.splits if_splits)
    have own: "set (fst (splitTXTRecords ex)) \<subseteq> set ex"
      using split_mset [of ex] by (metis filter_is_subset set_mset_mset)
    have "mset (map tx_ID (fst (splitTXTRecords ex))) = mset (map tx_ID (filter (\<lambda>r. isChunk (tx_Value r)) ex))"
      using split_mset [of ex] by (metis mset_map)
    then have "distinct (map tx_ID (fst (splitTXTRecords ex)))"
      using ex by (metis distinct_map_filter listing_def mset_eq_imp_distinct_iff)
    moreover have "\<forall>r \<in> set (fst (splitTXTRecords ex)). table s0 (tx_ID r) = Some (tx_Value r)" unfolding t0
      using ex own by (auto simp: listing_def comp_def intro!: map_of_is_SomeI)
    ultimately obtain ids where "reconciled (table s) (table s1) cs (fst (splitTXTRecords ex)) ids"
      using reconcile_table [OF assms(2) r _ _ None] unfolding t0 by blast
    note rl = reconciled_listing [OF ex this]
    have "map tx_Value (map2 (\<lambda>i v. \<lparr>tx_ID = i, tx_Value = v\<rparr>) ids cs) = cs"
      using \<open>reconciled _ _ _ _ _\<close> by (simp add: reconciled_def comp_def split_def map_snd_zip)
    with rl cs ex show ?thesis unfolding f t1
      by (intro exI [of _ cs] exI [of _ ex] exI [of _ "filter (\<lambda>r. \<not> isChunk (tx_Value r)) ex @ _"]) auto
  qed
qed

section \<open>The contract of a dead drop\<close>

text \<open>What publishing and syncing rely on, whatever the backend: after a \<open>Put\<close> that succeeded, a \<open>Get\<close> that
  succeeds returns what was put. It follows that the last successful publication is what is read.\<close>

locale dead_drop =
  fixes put :: "bytes \<Rightarrow> 's \<Rightarrow> 's \<times> error option" and get :: "'s \<Rightarrow> bytes res" and inv :: "'s \<Rightarrow> bool"
  assumes put_inv: "inv s \<Longrightarrow> put dat s = (s', e) \<Longrightarrow> inv s'"
    and put_get: "inv s \<Longrightarrow> put dat s = (s', None) \<Longrightarrow> get s' = Inr blob \<Longrightarrow> blob = dat"
begin

definition puts :: "bytes list \<Rightarrow> 's \<Rightarrow> 's" where
  "puts blobs s = fold (\<lambda>dat st. fst (put dat st)) blobs s"

lemma puts_inv: "inv s \<Longrightarrow> inv (puts blobs s)"
proof (induction blobs arbitrary: s)
  case (Cons dat blobs)
  then have "inv (fst (put dat s))" by (cases "put dat s") (auto intro: put_inv)
  from Cons.IH [OF this] show ?case by (simp add: puts_def)
qed (simp add: puts_def)

lemma last_put_read:
  "inv s \<Longrightarrow> put dat (puts blobs s) = (s', None) \<Longrightarrow> get s' = Inr blob \<Longrightarrow> blob = dat"
  using puts_inv put_get by blast

end

definition dns_laws :: "('s \<Rightarrow> string \<Rightarrow> string option) \<Rightarrow> 's DNS \<Rightarrow> bool" where
  "dns_laws table d \<longleftrightarrow>
     (\<forall>P. dn_provider d = Some P \<longrightarrow> provider_ok P (dn_zone d) (dn_name d) table) \<and>
     lookup_ok (dn_lookup d) (dn_fqdn d) table"

lemma dns_Put_Get:
  assumes "dns_laws table d" and "dns_Put d dat s = (s', None)" and "dn_lookup d s' (dn_fqdn d) = Inr values"
  shows "dns_Get d s' = Inr dat" and "listing (table s) ex \<Longrightarrow>
    mset (filter (\<lambda>v. \<not> isChunk v) values) = mset (filter (\<lambda>v. \<not> isChunk v) (map tx_Value ex))"
proof -
  obtain P where P: "dn_provider d = Some P" using assms(2) by (auto simp: dns_Put_def split: option.splits)
  with assms(1) have "provider_ok P (dn_zone d) (dn_name d) table" by (simp add: dns_laws_def)
  from dns_Put_values [OF P this assms(2)] obtain cs ex0 rs where cs: "chunkBlob dat = Inr cs"
    and l: "listing (table s) ex0" "listing (table s') rs"
    and v: "map tx_Value rs = map tx_Value (filter (\<lambda>r. \<not> isChunk (tx_Value r)) ex0) @ cs" by blast
  obtain rs' where "listing (table s') rs'" "mset values = mset (map tx_Value rs')"
    using assms(1,3) unfolding dns_laws_def lookup_ok_def by blast
  then have m: "mset values = mset (map tx_Value rs)" using listing_values [OF l(2)] by metis
  have c: "list_all isChunk cs" using cs by (auto simp: chunkBlob_Inr list_all_iff)
  have foreign: "filter isChunk (map tx_Value (filter (\<lambda>r. \<not> isChunk (tx_Value r)) xs)) = []"
    "filter (\<lambda>v. \<not> isChunk v) (map tx_Value (filter (\<lambda>r. \<not> isChunk (tx_Value r)) xs)) =
      filter (\<lambda>v. \<not> isChunk v) (map tx_Value xs)" for xs by (induction xs) auto
  have "filter isChunk cs = cs" "filter (\<lambda>v. \<not> isChunk v) cs = []" using c by (induction cs) auto
  with foreign [of ex0] have f: "filter isChunk (map tx_Value rs) = cs"
    "filter (\<lambda>v. \<not> isChunk v) (map tx_Value rs) = filter (\<lambda>v. \<not> isChunk v) (map tx_Value ex0)"
    unfolding v by simp_all
  have "mset (filter isChunk values) = mset cs" using m f(1) by (metis mset_filter)
  with reassemble_cut [OF cs] show "dns_Get d s' = Inr dat" by (simp add: dns_Get_def assms(3))
  show "mset (filter (\<lambda>v. \<not> isChunk v) values) = mset (filter (\<lambda>v. \<not> isChunk v) (map tx_Value ex))" if "listing (table s) ex"
    using m f(2) listing_values [OF l(1) that] by (metis mset_filter)
qed

interpretation dns: dead_drop "dns_Put d" "dns_Get d" "\<lambda>_. dns_laws table d" for d table
proof unfold_locales
  fix s s' dat blob
  assume "dns_laws table d" "dns_Put d dat s = (s', None)" "dns_Get d s' = Inr blob"
  then show "blob = dat" using dns_Put_Get(1) by (fastforce simp: dns_Get_def split: sum.splits)
qed

section \<open>Properties\<close>

text \<open>A DNS zone with one name, for the witnesses: the records in a list, a fresh id longer than all.\<close>

definition demo_zone :: "TXTRecord list DNS" where
  "demo_zone =
     \<lparr>dn_zone = ''example.com'', dn_name = ''_tincan'', dn_fqdn = ''_tincan.example.com'',
      dn_provider = Some
        \<lparr>pv_ListTXT = (\<lambda>s z n. (s, if distinct (map tx_ID s) then Inr s else Inl (Err ''zone''))),
         pv_CreateTXT = (\<lambda>s z n v. (s @ [\<lparr>tx_ID = CHR ''x'' # concat (map tx_ID s), tx_Value = v\<rparr>], None)),
         pv_UpdateTXT = (\<lambda>s z i v. (map (\<lambda>r. if tx_ID r = i then r\<lparr>tx_Value := v\<rparr> else r) s, None)),
         pv_DeleteTXT = (\<lambda>s z i. (filter (\<lambda>r. tx_ID r \<noteq> i) s, None)),
         pv_ReplaceTXT = None, pv_Flush = None\<rparr>,
      dn_lookup = (\<lambda>s n. if distinct (map tx_ID s) then Inr (map tx_Value s) else Inl (LookupErr (Err ''zone'')))\<rparr>"

text \<open>C25: what is published on DNS is what is read back: after a successful \<open>Put\<close>, with the provider and the
  resolver behaving as documented and the answer in any order, a lookup that succeeds reassembles
  to exactly the published blob, and the records at the name that are not chunks are as before.\<close>

theorem dns_publish_read:
  assumes "dns_laws table d" and "dns_Put d dat s = (s', None)" and "dn_lookup d s' (dn_fqdn d) = Inr values"
    and "listing (table s) ex"
  shows "dns_Get d s' = Inr dat \<and>
    mset (filter (\<lambda>v. \<not> isChunk v) values) = mset (filter (\<lambda>v. \<not> isChunk v) (map tx_Value ex))"
  using dns_Put_Get [OF assms(1-3)] assms(4) by blast

definition chunkPart :: "string \<Rightarrow> (int \<times> string) option" where
  "chunkPart v = (case splitN (CHR '';'') v 4 of [_, f1, _, f3] \<Rightarrow> map_option (\<lambda>i. (i, f3)) (atoi f1) | _ \<Rightarrow> None)"

lemma scanChunks_parts:
  "scanChunks vs t parts = Inr (t', parts') \<Longrightarrow> map Some parts' = map Some parts @ map chunkPart (filter isChunk vs)"
proof (induction vs arbitrary: t parts)
  case (Cons v vs)
  show ?case
  proof (cases "isChunk v")
    case True
    with Cons.prems obtain f0 f1 f2 f3 seq t1 where f: "splitN (CHR '';'') v 4 = [f0, f1, f2, f3]" "atoi f1 = Some seq"
      and rec: "scanChunks vs t1 (parts @ [(seq, f3)]) = Inr (t', parts')"
      by (auto split: list.splits option.splits if_splits)
    have "chunkPart v = Some (seq, f3)" using f by (simp add: chunkPart_def)
    with Cons.IH [OF rec] True show ?thesis by simp
  next
    case False
    with Cons show ?thesis by simp
  qed
qed simp

lemma numbered_pairs:
  assumes "map fst xs = map int [0..<length xs]"
  shows "xs = map (\<lambda>i. (int i, map snd xs ! i)) [0..<length xs]"
proof (rule nth_equalityI)
  fix i assume i: "i < length xs"
  have "fst (xs ! i) = int i" using arg_cong [OF assms, of "\<lambda>l. l ! i"] i by simp
  with i show "xs ! i = map (\<lambda>i. (int i, map snd xs ! i)) [0..<length xs] ! i" by (simp add: prod_eq_iff)
qed simp

lemma joinParts_Inr:
  "joinParts k ps = Inr e \<Longrightarrow> e = concat (map snd ps) \<and> map fst ps = map int [k..<k + length ps]"
  by (induction k ps arbitrary: e rule: joinParts.induct) (auto simp: upt_conv_Cons simp del: upt_Suc split: if_splits)

text \<open>a set of records that reassembles is complete: the chunks are numbered \<open>0\<close> up, without a gap or a
  duplicate, and the blob is the decoding of their payloads in that order. A partial or doubled set
  is an error, not a truncated directory.\<close>

theorem reassembled_complete:
  assumes "reassembleChunks values = Inr blob"
  shows "\<exists>ds. ds \<noteq> [] \<and> rawurl_decode (concat ds) = Some blob \<and>
    mset (map chunkPart (filter isChunk values)) = mset (map (\<lambda>i. Some (int i, ds ! i)) [0..<length ds])"
proof -
  obtain t parts e where sc: "scanChunks values (-1) [] = Inr (t, parts)" and ne: "parts \<noteq> []"
    and j: "joinParts 0 (sort_key fst parts) = Inr e" and b: "rawurl_decode e = Some blob"
    using assms by (auto simp: reassembleChunks_def split: if_splits option.splits)
  let ?ds = "map snd (sort_key fst parts)"
  have e: "e = concat ?ds" and f: "map fst (sort_key fst parts) = map int [0..<length ?ds]"
    using joinParts_Inr [OF j] by simp_all
  have "sort_key fst parts = map (\<lambda>i. (int i, ?ds ! i)) [0..<length ?ds]"
    using numbered_pairs [OF f [unfolded length_map]] by simp
  then have "mset parts = mset (map (\<lambda>i. (int i, ?ds ! i)) [0..<length ?ds])" by (metis mset_sort)
  then have "mset (map Some parts) = mset (map (\<lambda>i. Some (int i, ?ds ! i)) [0..<length ?ds])"
    by (simp only: mset_map image_mset.compositionality comp_def)
  moreover have "map Some parts = map chunkPart (filter isChunk values)" using scanChunks_parts [OF sc] by simp
  moreover have "?ds \<noteq> []" using ne by (metis length_0_conv length_map length_sort)
  ultimately show ?thesis using b e by (intro exI [of _ ?ds]) simp
qed

lemma length_b64_digits: "length (b64_digits bs) = (4 * length bs + 2) div 3"
  by (induction bs rule: b64_digits.induct) auto

lemma length_rawurl: "length (rawurl_encode b) = (4 * length b + 2) div 3"
  by (simp add: rawurl_encode_def length_b64_digits bytes_nat_def)

lemma length_decimal: "0 < k \<Longrightarrow> n < 10 ^ k \<Longrightarrow> length (decimal n) \<le> k"
proof (induction k arbitrary: n)
  case (Suc k)
  show ?case
  proof (cases "n < 10")
    case True
    then show ?thesis by (subst decimal.simps) simp
  next
    case False
    with Suc.prems have "n div 10 < 10 ^ k" "0 < k" by (auto simp: div_less_iff_less_mult mult.commute intro: gr0I)
    with Suc.IH have "length (decimal (n div 10)) \<le> k" by blast
    with False show ?thesis by (subst decimal.simps) simp
  qed
qed simp

text \<open>The bounds of the DNS format: a blob can be published exactly when it is at most 16500 bytes long;
  then there are between 1 and 100 records, and every record is at most 231 bytes long, below the
  255 bytes of a DNS character string.\<close>

theorem chunk_bounds:
  "(is_ok (chunkBlob blob) \<longleftrightarrow> length blob \<le> 16500) \<and>
   (\<forall>cs. chunkBlob blob = Inr cs \<longrightarrow> 1 \<le> length cs \<and> length cs \<le> 100 \<and> list_all (\<lambda>c. length c \<le> 231) cs)"
proof -
  have "((4 * l + 2) div 3 + 220 - 1) div 220 \<le> (100 :: nat) \<longleftrightarrow> l \<le> 16500" for l
  proof -
    have "((4 * l + 2) div 3 + 220 - 1) div 220 < (101 :: nat) \<longleftrightarrow> (4 * l + 2) div 3 < 22001"
      by (subst div_less_iff_less_mult) auto
    also have "\<dots> \<longleftrightarrow> 4 * l + 2 < 66003" by (subst div_less_iff_less_mult) auto
    finally show ?thesis by linarith
  qed
  then have ok: "is_ok (chunkBlob blob) \<longleftrightarrow> length blob \<le> 16500"
    by (simp add: is_ok_iff chunkBlob_Inr chunk_count_def dataPerChunk_def maxDNSChunks_def length_rawurl)
  moreover have "1 \<le> length cs \<and> length cs \<le> 100 \<and> list_all (\<lambda>c. length c \<le> 231) cs" if "chunkBlob blob = Inr cs" for cs
  proof -
    let ?n = "chunk_count blob"
    have n: "?n \<le> 100" "1 \<le> ?n" and cs: "cs = map (chunkValue (rawurl_encode blob) ?n) [0..<?n]"
      using that by (simp_all add: chunkBlob_Inr maxDNSChunks_def chunk_count_def)
    have "length (chunkValue (rawurl_encode blob) ?n i) \<le> 231" if "i < ?n" for i
    proof -
      have "length (decimal i) \<le> 2" "length (decimal ?n) \<le> 3"
        using that n by (auto intro!: length_decimal)
      moreover have "length (payload (rawurl_encode blob) i) \<le> 220" by (simp add: payload_take dataPerChunk_def)
      ultimately show ?thesis by (simp add: chunkValue_payload)
    qed
    with n cs show ?thesis by (auto simp: list_all_iff)
  qed
  ultimately show ?thesis by blast
qed

lemma demo_zone_laws: "dns_laws (\<lambda>s. map_of (map (\<lambda>r. (tx_ID r, tx_Value r)) s)) demo_zone"
proof -
  let ?pair = "\<lambda>r. (tx_ID r, tx_Value r)"
  have fresh: "map_of (map ?pair s) (CHR ''x'' # concat (map tx_ID s)) = None" for s
  proof -
    have "length (tx_ID r) \<le> length (concat (map tx_ID s))" if "r \<in> set s" for r
      using that by (induction s) auto
    then have "CHR ''x'' # concat (map tx_ID s) \<notin> tx_ID ` set s" by (metis Suc_n_not_le_n imageE length_Cons)
    then show ?thesis by (simp add: map_of_eq_None_iff image_image)
  qed
  show ?thesis
    unfolding dns_laws_def provider_ok_def lookup_ok_def demo_zone_def
    using fresh table_create [OF fresh] table_update table_delete by (auto simp: listing_def split: if_splits)
qed

theorem dns_publish_read_witness:
  "dns_Get demo_zone (fst (dns_Put demo_zone ''hi'' [\<lparr>tx_ID = ''1'', tx_Value = ''v=spf1''\<rparr>])) = Inr ''hi''"
proof -
  let ?s = "[\<lparr>tx_ID = ''1'', tx_Value = ''v=spf1''\<rparr>]"
  have c: "chunkBlob ''hi'' = Inr [''tc1;0;1;aGk'']" by code_simp
  have n: "\<not> isChunk ''v=spf1''" by code_simp
  have p: "dns_Put demo_zone ''hi'' ?s = (?s @ [\<lparr>tx_ID = ''x1'', tx_Value = ''tc1;0;1;aGk''\<rparr>], None)"
    using c n by (simp add: dns_Put_def demo_zone_def splitTXTRecords_def)
  have "dn_lookup demo_zone (?s @ [\<lparr>tx_ID = ''x1'', tx_Value = ''tc1;0;1;aGk''\<rparr>]) (dn_fqdn demo_zone) =
      Inr [''v=spf1'', ''tc1;0;1;aGk'']" by (simp add: demo_zone_def)
  from dns_publish_read [OF demo_zone_laws p this, of ?s] show ?thesis
    using p by (simp add: listing_def)
qed

theorem reassembled_complete_witness:
  "\<exists>ds. ds \<noteq> [] \<and> rawurl_decode (concat ds) = Some ''hi'' \<and>
     mset [Some (0, ''aGk'')] = mset (map (\<lambda>i. Some (int i, ds ! i)) [0..<length ds])"
proof -
  have c: "chunkBlob ''hi'' = Inr [''tc1;0;1;aGk'']" by code_simp
  have f: "filter isChunk [''v=spf1'', ''tc1;0;1;aGk''] = [''tc1;0;1;aGk'']" by code_simp
  have p: "chunkPart ''tc1;0;1;aGk'' = Some (0, ''aGk'')" by code_simp
  have "reassembleChunks [''v=spf1'', ''tc1;0;1;aGk''] = Inr ''hi''" by (rule reassemble_cut [OF c]) (simp only: f)
  from reassembled_complete [OF this] show ?thesis unfolding f by (simp only: list.map p)
qed

theorem chunk_bounds_witness:
  "is_ok (chunkBlob ''hi'') \<and> list_all (\<lambda>c. length c \<le> 231) [''tc1;0;1;aGk'']"
proof -
  have c: "chunkBlob ''hi'' = Inr [''tc1;0;1;aGk'']" by code_simp
  show ?thesis using chunk_bounds [THEN conjunct2, rule_format, OF c] by (simp only: c is_ok_simps simp_thms)
qed

end
