(* ===== verification/Providers.thy ===== *)
theory Providers
  imports DropDns
begin

text \<open>
  The selection of a DNS provider (\<open>src/internal/dnsprovider/\<close>): the table of constructors, the
  settings each one builds, the mapping of HTTP statuses to errors and the quoting of TXT values.
  The HTTP clients behind the settings are a parameter of \<open>dnsprovider_New\<close> here; \<open>DnsApi\<close> and \<open>DnsRRset\<close> model them.
\<close>

record providerSettings =
  ps_kind :: string
  ps_token :: string
  ps_appKey :: string
  ps_appSecret :: string
  ps_consumerKey :: string
  ps_accessKey :: string
  ps_secretKey :: string
  ps_ttl :: int
  ps_baseURL :: string

definition zero_settings :: providerSettings where
  "zero_settings = \<lparr>ps_kind = [], ps_token = [], ps_appKey = [], ps_appSecret = [], ps_consumerKey = [],
     ps_accessKey = [], ps_secretKey = [], ps_ttl = 0, ps_baseURL = []\<rparr>"

definition newLinode :: "ProviderConfig \<Rightarrow> providerSettings" where
  "newLinode cfg = zero_settings\<lparr>ps_kind := ''linode'', ps_token := pf_Token cfg, ps_ttl := pf_TTL cfg,
     ps_baseURL := ''https://api.linode.com/v4''\<rparr>"

definition newDigitalOcean :: "ProviderConfig \<Rightarrow> providerSettings" where
  "newDigitalOcean cfg = zero_settings\<lparr>ps_kind := ''digitalocean'', ps_token := pf_Token cfg, ps_ttl := pf_TTL cfg,
     ps_baseURL := ''https://api.digitalocean.com/v2''\<rparr>"

definition newCloudflare :: "ProviderConfig \<Rightarrow> providerSettings" where
  "newCloudflare cfg = zero_settings\<lparr>ps_kind := ''cloudflare'', ps_token := pf_Token cfg, ps_ttl := pf_TTL cfg,
     ps_baseURL := ''https://api.cloudflare.com/client/v4''\<rparr>"

definition newHetzner :: "ProviderConfig \<Rightarrow> providerSettings" where
  "newHetzner cfg = zero_settings\<lparr>ps_kind := ''hetzner'', ps_token := pf_Token cfg, ps_ttl := pf_TTL cfg,
     ps_baseURL := ''https://dns.hetzner.com/api/v1''\<rparr>"

definition newDeSEC :: "ProviderConfig \<Rightarrow> providerSettings" where
  "newDeSEC cfg = zero_settings\<lparr>ps_kind := ''desec'', ps_token := pf_Token cfg,
     ps_ttl := (if pf_TTL cfg \<le> 0 then 3600 else pf_TTL cfg), ps_baseURL := ''https://desec.io/api/v1''\<rparr>"

definition newRoute53 :: "ProviderConfig \<Rightarrow> providerSettings" where
  "newRoute53 cfg = zero_settings\<lparr>ps_kind := ''route53'', ps_accessKey := pf_AccessKey cfg,
     ps_secretKey := pf_SecretKey cfg, ps_ttl := (if pf_TTL cfg \<le> 0 then 300 else pf_TTL cfg),
     ps_baseURL := ''https://route53.amazonaws.com''\<rparr>"

definition ovhEndpoints :: "(string \<times> string) list" where
  "ovhEndpoints =
     [(''ovh-eu'', ''https://eu.api.ovh.com/1.0''),
      (''ovh-ca'', ''https://ca.api.ovh.com/1.0''),
      (''ovh-us'', ''https://api.us.ovhcloud.com/1.0''),
      (''kimsufi-eu'', ''https://eu.api.kimsufi.com/1.0''),
      (''kimsufi-ca'', ''https://ca.api.kimsufi.com/1.0''),
      (''soyoustart-eu'', ''https://eu.api.soyoustart.com/1.0''),
      (''soyoustart-ca'', ''https://ca.api.soyoustart.com/1.0'')]"

definition newOVH :: "ProviderConfig \<Rightarrow> providerSettings res" where
  "newOVH cfg =
     (case map_of ovhEndpoints (if pf_Endpoint cfg = [] then ''ovh-eu'' else pf_Endpoint cfg) of
        None \<Rightarrow> Inl (Err ''unknown ovh endpoint'')
      | Some base \<Rightarrow>
          Inr (zero_settings\<lparr>ps_kind := ''ovh'', ps_appKey := pf_AppKey cfg, ps_appSecret := pf_AppSecret cfg,
            ps_consumerKey := pf_ConsumerKey cfg, ps_ttl := pf_TTL cfg, ps_baseURL := base\<rparr>))"

definition constructors :: "(string \<times> (ProviderConfig \<Rightarrow> providerSettings res)) list" where
  "constructors =
     [(''linode'', Inr \<circ> newLinode), (''digitalocean'', Inr \<circ> newDigitalOcean), (''cloudflare'', Inr \<circ> newCloudflare),
      (''desec'', Inr \<circ> newDeSEC), (''hetzner'', Inr \<circ> newHetzner), (''route53'', Inr \<circ> newRoute53), (''ovh'', newOVH)]"

definition dnsprovider_New :: "(providerSettings \<Rightarrow> 's provider) \<Rightarrow> ProviderConfig \<Rightarrow> 's provider res" where
  "dnsprovider_New api cfg =
     (case map_of constructors (pf_Name cfg) of
        None \<Rightarrow> Inl (Err ''unsupported dns provider'')
      | Some ctor \<Rightarrow> bindR (ctor cfg) (\<lambda>ps. Inr (api ps)))"

definition Supported :: "string \<Rightarrow> bool" where
  "Supported name = (map_of constructors name \<noteq> None)"

definition statusError :: "string \<Rightarrow> int \<Rightarrow> bytes \<Rightarrow> (bytes \<Rightarrow> string) \<Rightarrow> error option" where
  "statusError pname status body reason =
     (if status = 401 \<or> status = 403 then Some dnsprovider_ErrAuth
      else if status = 404 then Some dnsprovider_ErrNotFound
      else if status < 200 \<or> status \<ge> 300 then Some (Err (pname @ '' API status '' @ itoa status @ '': '' @ reason body))
      else None)"

definition quoteTXT :: "string \<Rightarrow> string" where
  "quoteTXT s = [CHR 0x22] @ s @ [CHR 0x22]"

definition unquoteTXT :: "string \<Rightarrow> string" where
  "unquoteTXT s =
     (if 2 \<le> length s \<and> hd s = CHR 0x22 \<and> last s = CHR 0x22 then butlast (tl s) else s)"

lemma unquote_quote [simp]: "unquoteTXT (quoteTXT s) = s"
  by (simp add: unquoteTXT_def quoteTXT_def)

text \<open>The only supported provider whose construction can fail is OVH, on an endpoint it does not know.\<close>

lemma dnsprovider_New_ok:
  assumes "Supported (pf_Name cfg)" and "pf_Name cfg = ''ovh'' \<Longrightarrow> is_ok (newOVH cfg)"
  shows "is_ok (dnsprovider_New api cfg)"
proof -
  obtain ctor where c: "map_of constructors (pf_Name cfg) = Some ctor" using assms(1) by (auto simp: Supported_def)
  then have "is_ok (ctor cfg)"
    using assms(2) by (auto simp: constructors_def split: if_splits)
  then show ?thesis by (auto simp: dnsprovider_New_def c is_ok_iff)
qed

end
