(* ===== verification/GoUrl.thy ===== *)
theory GoUrl
  imports GoNet Encoding
begin

text \<open>
  \<open>net/url\<close> as the program uses it (Go 1.25): parsing a URL into its parts, printing it back,
  the host without its port and the form with a hidden password. Every error of the parser is \<open>None\<close>.
\<close>

datatype encoding = EncPath | EncUserPassword | EncHost | EncZone | EncFragment

record url =
  u_Scheme :: string
  u_Opaque :: string
  u_User :: "(string \<times> string option) option"
  u_Host :: string
  u_Path :: string
  u_RawPath :: string
  u_OmitHost :: bool
  u_ForceQuery :: bool
  u_RawQuery :: string
  u_Fragment :: string
  u_RawFragment :: string

definition zero_url :: url where
  "zero_url = \<lparr>u_Scheme = [], u_Opaque = [], u_User = None, u_Host = [], u_Path = [], u_RawPath = [],
     u_OmitHost = False, u_ForceQuery = False, u_RawQuery = [], u_Fragment = [], u_RawFragment = []\<rparr>"

section \<open>Escapes\<close>

definition is_alnum :: "char \<Rightarrow> bool" where
  "is_alnum c = (is_lower c \<or> is_upper c \<or> is_digit c)"

definition host_mark :: string where
  "host_mark = ''!$&()*+,;=:[]<>'' @ [char_of (39 :: nat), char_of (34 :: nat)]"

definition shouldEscape :: "encoding \<Rightarrow> char \<Rightarrow> bool" where
  "shouldEscape mode c =
     (if is_alnum c then False
      else if (mode = EncHost \<or> mode = EncZone) \<and> c \<in> set host_mark then False
      else if c \<in> set ''-_.~'' then False
      else if c \<in> set ''$&+,/:;=?@'' then
        (case mode of EncPath \<Rightarrow> c = CHR ''?'' | EncUserPassword \<Rightarrow> c \<in> set ''@/?:'' | EncFragment \<Rightarrow> False | _ \<Rightarrow> True)
      else if mode = EncFragment \<and> c \<in> set ''!()*'' then False
      else True)"

definition upper_hex :: string where "upper_hex = ''0123456789ABCDEF''"

definition url_escape :: "encoding \<Rightarrow> string \<Rightarrow> string" where
  "url_escape mode s =
     concat (map (\<lambda>c. if shouldEscape mode c then [CHR ''%'', upper_hex ! (code c div 16), upper_hex ! (code c mod 16)] else [c]) s)"

text \<open>A percent escape is two hexadecimal digits; in a host it must stand for a byte that is not ASCII
  or be \<open>%25\<close>, in a zone for a byte that a host may have.\<close>

fun url_unescape :: "encoding \<Rightarrow> string \<Rightarrow> string option" where
  "url_unescape mode [] = Some []"
| "url_unescape mode (c # cs) =
     (if c = CHR ''%'' then
        (case cs of
           a # b # rest \<Rightarrow>
             (case (hex_val a, hex_val b) of
                (Some x, Some y) \<Rightarrow>
                  if mode = EncHost \<and> x < 8 \<and> \<not> (a = CHR ''2'' \<and> b = CHR ''5'') then None
                  else if mode = EncZone \<and> \<not> (a = CHR ''2'' \<and> b = CHR ''5'') \<and> 16 * x + y \<noteq> 32 \<and>
                            shouldEscape EncHost (char_of (16 * x + y)) then None
                  else map_option ((#) (char_of (16 * x + y))) (url_unescape mode rest)
              | _ \<Rightarrow> None)
         | _ \<Rightarrow> None)
      else if (mode = EncHost \<or> mode = EncZone) \<and> code c < 128 \<and> shouldEscape mode c then None
      else map_option ((#) c) (url_unescape mode cs))"

definition validEncoded :: "encoding \<Rightarrow> string \<Rightarrow> bool" where
  "validEncoded mode s =
     list_all (\<lambda>c. c \<in> set (''!$&()*+,;=:@[]%'' @ [char_of (39 :: nat)]) \<or> \<not> shouldEscape mode c) s"

section \<open>Parsing\<close>

text \<open>\<open>getScheme\<close>: \<open>i\<close> is whether a character was read already; the scheme is empty when there is none.\<close>

fun schemeLoop :: "string \<Rightarrow> string \<Rightarrow> (string \<times> string) option" where
  "schemeLoop read [] = Some ([], read)"
| "schemeLoop read (c # cs) =
     (if is_lower c \<or> is_upper c then schemeLoop (read @ [c]) cs
      else if is_digit c \<or> c \<in> set ''+-.'' then
        (if read = [] then Some ([], c # cs) else schemeLoop (read @ [c]) cs)
      else if c = CHR '':'' then (if read = [] then None else Some (read, cs))
      else Some ([], read @ c # cs))"

definition getScheme :: "string \<Rightarrow> (string \<times> string) option" where
  "getScheme rawURL = schemeLoop [] rawURL"

fun validOptionalPort :: "string \<Rightarrow> bool" where
  "validOptionalPort [] = True"
| "validOptionalPort (c # cs) = (c = CHR '':'' \<and> list_all is_digit cs)"

definition validUserinfo :: "string \<Rightarrow> bool" where
  "validUserinfo s =
     list_all (\<lambda>c. is_alnum c \<or> c \<in> set (''-._:~!$&()*+,;=%@'' @ [char_of (39 :: nat)])) s"

fun index_of :: "string \<Rightarrow> string \<Rightarrow> nat option" where
  "index_of t [] = (if t = [] then Some 0 else None)"
| "index_of t (c # s) = (if hasPrefix (c # s) t then Some 0 else map_option Suc (index_of t s))"

definition parseHost :: "string \<Rightarrow> string option" where
  "parseHost host =
     (if hasPrefix host ''['' then
        (case cutLast (CHR '']'') host of
           None \<Rightarrow> None
         | Some (inner, colonPort) \<Rightarrow>
             if \<not> validOptionalPort colonPort then None
             else (case index_of ''%25'' inner of
                     None \<Rightarrow> url_unescape EncHost host
                   | Some z \<Rightarrow>
                       (case (url_unescape EncHost (take z host), url_unescape EncZone (drop z inner),
                              url_unescape EncHost (drop (length inner) host)) of
                          (Some h1, Some h2, Some h3) \<Rightarrow> Some (h1 @ h2 @ h3)
                        | _ \<Rightarrow> None)))
      else (case cutLast (CHR '':'') host of
              None \<Rightarrow> url_unescape EncHost host
            | Some (_, port) \<Rightarrow> if \<not> validOptionalPort (CHR '':'' # port) then None else url_unescape EncHost host))"

definition parseUserinfo :: "string \<Rightarrow> (string \<times> string option) option" where
  "parseUserinfo userinfo =
     (if \<not> validUserinfo userinfo then None
      else case cutOn (CHR '':'') userinfo of
        None \<Rightarrow> map_option (\<lambda>u. (u, None)) (url_unescape EncUserPassword userinfo)
      | Some (name, pass) \<Rightarrow>
          (case (url_unescape EncUserPassword name, url_unescape EncUserPassword pass) of
             (Some u, Some p) \<Rightarrow> Some (u, Some p)
           | _ \<Rightarrow> None))"

definition parseAuthority :: "string \<Rightarrow> ((string \<times> string option) option \<times> string) option" where
  "parseAuthority authority =
     (case cutLast (CHR ''@'') authority of
        None \<Rightarrow> map_option (\<lambda>h. (None, h)) (parseHost authority)
      | Some (userinfo, hostpart) \<Rightarrow>
          (case parseHost hostpart of None \<Rightarrow> None
           | Some host \<Rightarrow> map_option (\<lambda>u. (Some u, host)) (parseUserinfo userinfo)))"

definition setPath :: "string \<Rightarrow> url \<Rightarrow> url option" where
  "setPath p u =
     map_option (\<lambda>path. u\<lparr>u_Path := path, u_RawPath := (if p = url_escape EncPath path then [] else p)\<rparr>)
       (url_unescape EncPath p)"

definition setFragment :: "string \<Rightarrow> url \<Rightarrow> url option" where
  "setFragment f u =
     map_option (\<lambda>frag. u\<lparr>u_Fragment := frag, u_RawFragment := (if f = url_escape EncFragment frag then [] else f)\<rparr>)
       (url_unescape EncFragment f)"

definition cut :: "char \<Rightarrow> string \<Rightarrow> string \<times> string" where
  "cut c s = (case cutOn c s of None \<Rightarrow> (s, []) | Some p \<Rightarrow> p)"

definition splitQuery :: "string \<Rightarrow> bool \<times> string \<times> string" where
  "splitQuery rest =
     (if hasSuffix rest ''?'' \<and> count_list rest (CHR ''?'') = 1 then (True, butlast rest, [])
      else (False, cut (CHR ''?'') rest))"

definition parseRest :: "string \<Rightarrow> url \<Rightarrow> url option" where
  "parseRest rest u =
     (if \<not> hasPrefix rest ''/'' \<and> u_Scheme u \<noteq> [] then Some (u\<lparr>u_Opaque := rest\<rparr>)
      else if \<not> hasPrefix rest ''/'' \<and> CHR '':'' \<in> set (fst (cut (CHR ''/'') rest)) then None
      else if (u_Scheme u \<noteq> [] \<or> \<not> hasPrefix rest ''///'') \<and> hasPrefix rest ''//'' then
        (let a = drop 2 rest;
             authority = takeWhile (\<lambda>c. c \<noteq> CHR ''/'') a;
             path = dropWhile (\<lambda>c. c \<noteq> CHR ''/'') a
         in case parseAuthority authority of
              None \<Rightarrow> None
            | Some (user, host) \<Rightarrow> setPath path (u\<lparr>u_User := user, u_Host := host\<rparr>))
      else setPath rest (u\<lparr>u_OmitHost := (u_Scheme u \<noteq> [] \<and> hasPrefix rest ''/'')\<rparr>))"

definition url_parse :: "string \<Rightarrow> url option" where
  "url_parse rawURL =
     (if \<not> list_all (\<lambda>c. 32 \<le> code c \<and> code c \<noteq> 127) rawURL then None
      else if rawURL = ''*'' then Some (zero_url\<lparr>u_Path := ''*''\<rparr>)
      else case getScheme rawURL of
        None \<Rightarrow> None
      | Some (scheme, rest) \<Rightarrow>
          (let (force, rest', query) = splitQuery rest
           in parseRest rest' (zero_url\<lparr>u_Scheme := toLower scheme, u_ForceQuery := force, u_RawQuery := query\<rparr>)))"

definition url_Parse :: "string \<Rightarrow> url option" where
  "url_Parse rawURL =
     (let (u, frag) = cut (CHR ''#'') rawURL
      in case url_parse u of None \<Rightarrow> None
         | Some url \<Rightarrow> if frag = [] then Some url else setFragment frag url)"

section \<open>Printing\<close>

definition EscapedPath :: "url \<Rightarrow> string" where
  "EscapedPath u =
     (if u_RawPath u \<noteq> [] \<and> validEncoded EncPath (u_RawPath u) \<and> url_unescape EncPath (u_RawPath u) = Some (u_Path u)
      then u_RawPath u
      else if u_Path u = ''*'' then ''*'' else url_escape EncPath (u_Path u))"

definition EscapedFragment :: "url \<Rightarrow> string" where
  "EscapedFragment u =
     (if u_RawFragment u \<noteq> [] \<and> validEncoded EncFragment (u_RawFragment u) \<and>
         url_unescape EncFragment (u_RawFragment u) = Some (u_Fragment u)
      then u_RawFragment u
      else url_escape EncFragment (u_Fragment u))"

definition Userinfo_String :: "string \<times> string option \<Rightarrow> string" where
  "Userinfo_String ui =
     url_escape EncUserPassword (fst ui) @
     (case snd ui of None \<Rightarrow> [] | Some p \<Rightarrow> '':'' @ url_escape EncUserPassword p)"

definition url_authority :: "url \<Rightarrow> string" where
  "url_authority u =
     (if u_Scheme u = [] \<and> u_Host u = [] \<and> u_User u = None then []
      else if u_OmitHost u \<and> u_Host u = [] \<and> u_User u = None then []
      else (if u_Host u \<noteq> [] \<or> u_Path u \<noteq> [] \<or> u_User u \<noteq> None then ''//'' else []) @
           (case u_User u of None \<Rightarrow> [] | Some ui \<Rightarrow> Userinfo_String ui @ ''@'') @
           url_escape EncHost (u_Host u))"

definition url_String :: "url \<Rightarrow> string" where
  "url_String u =
     (let scheme = (if u_Scheme u \<noteq> [] then u_Scheme u @ '':'' else []);
          body =
            (if u_Opaque u \<noteq> [] then scheme @ u_Opaque u
             else
               let pre = scheme @ url_authority u;
                   path = EscapedPath u;
                   sl = (if path \<noteq> [] \<and> \<not> hasPrefix path ''/'' \<and> u_Host u \<noteq> [] then ''/'' else []);
                   dot = (if pre @ sl = [] \<and> CHR '':'' \<in> set (fst (cut (CHR ''/'') path)) then ''./'' else [])
               in pre @ sl @ dot @ path)
      in body @ (if u_ForceQuery u \<or> u_RawQuery u \<noteq> [] then ''?'' @ u_RawQuery u else []) @
           (if u_Fragment u \<noteq> [] then ''#'' @ EscapedFragment u else []))"

definition url_Redacted :: "url \<Rightarrow> string" where
  "url_Redacted u =
     (case u_User u of Some (name, Some _) \<Rightarrow> url_String (u\<lparr>u_User := Some (name, Some ''xxxxx'')\<rparr>)
      | _ \<Rightarrow> url_String u)"

definition url_Hostname :: "url \<Rightarrow> string" where
  "url_Hostname u =
     (let host =
        (case cutLast (CHR '':'') (u_Host u) of
           Some (h, port) \<Rightarrow> if validOptionalPort (CHR '':'' # port) then h else u_Host u
         | None \<Rightarrow> u_Host u)
      in if hasPrefix host ''['' \<and> hasSuffix host '']'' then butlast (tl host) else host)"

end
