(* ===== verification/DnsApi.thy ===== *)
theory DnsApi
  imports Providers GoUrl "HOL-Library.List_Lexorder" "HOL-Library.Char_ord"
begin

text \<open>
  The HTTP clients of the DNS providers (\<open>src/internal/dnsprovider/\<close>): the shared request path of
  \<open>http.go\<close> and the providers whose API has records with identifiers, \<open>linode.go\<close>, \<open>digitalocean.go\<close>,
  \<open>cloudflare.go\<close> and \<open>hetzner.go\<close>. The service is a state \<open>'s\<close> that every request may change; the client
  (\<open>http.Client.Do\<close>), the JSON library and \<open>strconv.Quote\<close> are the fields of \<open>apiEnv\<close>, with one decoder for each
  response type. What a Go object of a provider remembers between calls is \<open>apiClient\<close>.
\<close>

section \<open>Requests\<close>

datatype jsonValue = JString string | JInt int | JList "jsonValue list" | JObject "(string \<times> jsonValue) list"

record apiRequest =
  ar_Method :: string
  ar_URL :: string
  ar_Header :: "(string \<times> string) list"
  ar_Body :: "bytes option"

record apiResponse =
  as_StatusCode :: int
  as_Body :: bytes
  as_BodyErr :: "error option"

record linodeDomain =
  ld_ID :: int
  ld_Domain :: string

record linodeRecord =
  lr_ID :: int
  lr_Type :: string
  lr_Name :: string
  lr_Target :: string

record doRecord =
  dor_ID :: int
  dor_Type :: string
  dor_Name :: string
  dor_Data :: string

record cfEnvelope =
  ce_Result :: bytes
  ce_TotalPages :: int

record cfZone =
  cz_ID :: string
  cz_Name :: string

record cfRecord =
  cr_ID :: string
  cr_Type :: string
  cr_Name :: string
  cr_Content :: string

record hetznerZone =
  hz_ID :: string
  hz_Name :: string

record hetznerRecord =
  hr_ID :: string
  hr_Type :: string
  hr_Name :: string
  hr_Value :: string
  hr_ZoneID :: string

text \<open>The decoders give what the code reads of a response: the records and the page count, the link to the
  next page, the raw result of Cloudflare's envelope, the fields of an error body.\<close>

record 's apiEnv =
  ae_Do :: "apiRequest \<Rightarrow> 's \<Rightarrow> 's \<times> apiResponse res"
  ae_Marshal :: "jsonValue \<Rightarrow> bytes res"
  ae_Quote :: "string \<Rightarrow> string"
  ae_linodeDomains :: "bytes \<Rightarrow> linodeDomain list res"
  ae_linodeRecords :: "bytes \<Rightarrow> (linodeRecord list \<times> int) res"
  ae_linodeErrors :: "bytes \<Rightarrow> (string \<times> string) list res"
  ae_doRecords :: "bytes \<Rightarrow> (doRecord list \<times> string) res"
  ae_cfEnvelope :: "bytes \<Rightarrow> cfEnvelope res"
  ae_cfZones :: "bytes \<Rightarrow> cfZone list res"
  ae_cfRecords :: "bytes \<Rightarrow> cfRecord list res"
  ae_cfErrors :: "bytes \<Rightarrow> (int \<times> string) list res"
  ae_hetznerZones :: "bytes \<Rightarrow> hetznerZone list res"
  ae_hetznerRecords :: "bytes \<Rightarrow> (hetznerRecord list \<times> int) res"
  ae_hetznerRecord :: "bytes \<Rightarrow> hetznerRecord res"
  ae_hetznerError :: "bytes \<Rightarrow> ((string \<times> int) \<times> string) res"
  ae_message :: "string \<Rightarrow> bytes \<Rightarrow> string res"

text \<open>The service and the fields of the provider's object that calls change: the cached identifier of the zone
  (\<open>''''\<close> or 0 until it is resolved) and OVH's clock difference.\<close>

record 's apiClient =
  cl_net :: 's
  cl_zoneID :: string
  cl_domainID :: int
  cl_delta :: "int option"

definition new_client :: "'s \<Rightarrow> 's apiClient" where
  "new_client s = \<lparr>cl_net = s, cl_zoneID = [], cl_domainID = 0, cl_delta = None\<rparr>"

text \<open>Computations that change the client and may fail.\<close>

definition spure :: "'a res \<Rightarrow> 'c \<Rightarrow> 'c \<times> 'a res" where
  "spure r c = (c, r)"

definition sbind :: "('c \<Rightarrow> 'c \<times> 'a res) \<Rightarrow> ('a \<Rightarrow> 'c \<Rightarrow> 'c \<times> 'b res) \<Rightarrow> 'c \<Rightarrow> 'c \<times> 'b res" where
  "sbind m f c = (case m c of (c', Inl e) \<Rightarrow> (c', Inl e) | (c', Inr a) \<Rightarrow> f a c')"

definition outcome :: "'c \<times> 'a res \<Rightarrow> 'c \<times> error option" where
  "outcome p = (fst p, case snd p of Inl e \<Rightarrow> Some e | Inr _ \<Rightarrow> None)"

definition apiResponseLimit :: nat where "apiResponseLimit = 1048576"

definition readResponseBody :: "string \<Rightarrow> nat \<Rightarrow> apiResponse \<Rightarrow> bytes res" where
  "readResponseBody msg limit resp =
     (if length (as_Body resp) < limit
      then (case as_BodyErr resp of Some e \<Rightarrow> Inl (Wrap msg e) | None \<Rightarrow> Inr (as_Body resp))
      else Inr (take limit (as_Body resp)))"

text \<open>\<open>http.NewRequestWithContext\<close> fails on a URL that does not parse; then one exchange.\<close>

definition client_send :: "'s apiEnv \<Rightarrow> string \<Rightarrow> string \<Rightarrow> nat \<Rightarrow> string \<Rightarrow> apiRequest \<Rightarrow> 's apiClient \<Rightarrow> 's apiClient \<times> (int \<times> bytes) res" where
  "client_send E createMsg doMsg limit readMsg req c =
     (case url_Parse (ar_URL req) of
        None \<Rightarrow> (c, Inl (Wrap createMsg (Err ''url'')))
      | Some _ \<Rightarrow>
          (case ae_Do E req (cl_net c) of
             (s, Inl e) \<Rightarrow> (c\<lparr>cl_net := s\<rparr>, Inl (Wrap doMsg e))
           | (s, Inr resp) \<Rightarrow>
               (c\<lparr>cl_net := s\<rparr>, bindR (readResponseBody readMsg limit resp) (\<lambda>dat. Inr (as_StatusCode resp, dat)))))"

definition jsonBody :: "'s apiEnv \<Rightarrow> string \<Rightarrow> jsonValue option \<Rightarrow> bytes option res" where
  "jsonBody E prov body =
     (case body of
        None \<Rightarrow> Inr None
      | Some v \<Rightarrow> bindR (wrapR (''marshal '' @ prov @ '' request'') (ae_Marshal E v)) (\<lambda>b. Inr (Some b)))"

definition doJSONRaw ::
  "'s apiEnv \<Rightarrow> string \<Rightarrow> string \<Rightarrow> string \<Rightarrow> jsonValue option \<Rightarrow> (string \<times> string) list \<Rightarrow>
   's apiClient \<Rightarrow> 's apiClient \<times> (int \<times> bytes) res" where
  "doJSONRaw E prov meth reqURL body headers =
     sbind (spure (jsonBody E prov body)) (\<lambda>rdr.
       client_send E (''create '' @ prov @ '' request'') (prov @ '' API request'') apiResponseLimit (''read '' @ prov @ '' response'')
         \<lparr>ar_Method = meth, ar_URL = reqURL,
          ar_Header = (if rdr \<noteq> None then [(''Content-Type'', ''application/json'')] else []) @ headers, ar_Body = rdr\<rparr>)"

definition statusR :: "string \<Rightarrow> (bytes \<Rightarrow> string) \<Rightarrow> int \<times> bytes \<Rightarrow> bytes res" where
  "statusR prov reason = (\<lambda>(status, dat). case statusError prov status dat reason of Some e \<Rightarrow> Inl e | None \<Rightarrow> Inr dat)"

definition doJSON ::
  "'s apiEnv \<Rightarrow> string \<Rightarrow> string \<Rightarrow> string \<Rightarrow> jsonValue option \<Rightarrow> (string \<times> string) list \<Rightarrow> (bytes \<Rightarrow> string) \<Rightarrow>
   's apiClient \<Rightarrow> 's apiClient \<times> bytes res" where
  "doJSON E prov meth reqURL body headers reason =
     sbind (doJSONRaw E prov meth reqURL body headers) (\<lambda>r. spure (statusR prov reason r))"

text \<open>\<open>url.QueryEscape\<close> and \<open>url.Values.Encode\<close>, for keys with one value each.\<close>

definition queryEscape :: "string \<Rightarrow> string" where
  "queryEscape s =
     concat (map (\<lambda>c. if is_alnum c \<or> c \<in> set ''-_.~'' then [c]
                      else if c = CHR '' '' then ''+''
                      else [CHR ''%'', upper_hex ! (code c div 16), upper_hex ! (code c mod 16)]) s)"

definition values_Encode :: "(string \<times> string) list \<Rightarrow> string" where
  "values_Encode q = joinWith ''&'' (map (\<lambda>(k, v). queryEscape k @ ''='' @ queryEscape v) (sort_key fst q))"

text \<open>The loop \<open>for page := 1; ; page++\<close> of the listings: fetch a page, keep what \<open>pick\<close> selects, and stop when the
  page says so. \<open>None\<close> is a loop that does not end.\<close>

partial_function (option) page_loop ::
  "(nat \<Rightarrow> 'c \<Rightarrow> 'c \<times> ('r list \<times> bool) res) \<Rightarrow> ('r \<Rightarrow> TXTRecord option) \<Rightarrow> nat \<Rightarrow> TXTRecord list \<Rightarrow> 'c \<Rightarrow>
   ('c \<times> TXTRecord list res) option" where
  "page_loop fetch pick page out c =
     (case fetch page c of
        (c', Inl e) \<Rightarrow> Some (c', Inl e)
      | (c', Inr (rs, stop)) \<Rightarrow>
          if stop then Some (c', Inr (out @ List.map_filter pick rs))
          else page_loop fetch pick (Suc page) (out @ List.map_filter pick rs) c')"

definition ttlField :: "string \<Rightarrow> int \<Rightarrow> (string \<times> jsonValue) list" where
  "ttlField key ttl = (if ttl > 0 then [(key, JInt ttl)] else [])"

text \<open>The text of an error body when it does not decode to a message.\<close>

definition bodyReason :: "bytes \<Rightarrow> string" where
  "bodyReason body = (if body \<noteq> [] then body else ''(no body)'')"

definition messageReason :: "'s apiEnv \<Rightarrow> string \<Rightarrow> bytes \<Rightarrow> string" where
  "messageReason E field body =
     (case ae_message E field body of Inr m \<Rightarrow> if m \<noteq> [] then m else bodyReason body | Inl _ \<Rightarrow> bodyReason body)"

section \<open>Linode\<close>

definition linodeErrReason :: "'s apiEnv \<Rightarrow> bytes \<Rightarrow> string" where
  "linodeErrReason E body =
     (case ae_linodeErrors E body of
        Inl _ \<Rightarrow> bodyReason body
      | Inr es \<Rightarrow>
          if es = [] then bodyReason body
          else joinWith ''; '' (map (\<lambda>(field, reason). if field \<noteq> [] then field @ '': '' @ reason else reason) es))"

definition bearer :: "providerSettings \<Rightarrow> (string \<times> string) list" where
  "bearer P = [(''Authorization'', ''Bearer '' @ ps_token P)]"

definition linode_headers :: "providerSettings \<Rightarrow> string \<Rightarrow> (string \<times> string) list" where
  "linode_headers P xfilter = bearer P @ (if xfilter \<noteq> [] then [(''X-Filter'', xfilter)] else [])"

definition linode_do ::
  "'s apiEnv \<Rightarrow> providerSettings \<Rightarrow> string \<Rightarrow> string \<Rightarrow> string \<Rightarrow> jsonValue option \<Rightarrow> 's apiClient \<Rightarrow> 's apiClient \<times> bytes res" where
  "linode_do E P meth url xfilter body =
     doJSON E ''linode'' meth url body (linode_headers P xfilter) (linodeErrReason E)"

fun find_domain :: "linodeDomain list \<Rightarrow> string \<Rightarrow> int option" where
  "find_domain [] zone = None"
| "find_domain (d # ds) zone = (if ld_Domain d = zone then Some (ld_ID d) else find_domain ds zone)"

definition domain_filter :: "'s apiEnv \<Rightarrow> string \<Rightarrow> string" where
  "domain_filter E zone = [CHR ''{'', CHR 0x22] @ ''domain'' @ [CHR 0x22] @ '': '' @ ae_Quote E zone @ ''}''"

definition record_filter :: "'s apiEnv \<Rightarrow> string \<Rightarrow> string" where
  "record_filter E name =
     [CHR ''{'', CHR 0x22] @ ''type'' @ [CHR 0x22] @ '': '' @ [CHR 0x22] @ ''TXT'' @ [CHR 0x22] @ '', '' @
     [CHR 0x22] @ ''name'' @ [CHR 0x22] @ '': '' @ ae_Quote E name @ ''}''"

definition resolveDomainID :: "'s apiEnv \<Rightarrow> providerSettings \<Rightarrow> string \<Rightarrow> 's apiClient \<Rightarrow> 's apiClient \<times> int res" where
  "resolveDomainID E P zone c =
     (if cl_domainID c \<noteq> 0 then (c, Inr (cl_domainID c))
      else sbind (linode_do E P ''GET'' (ps_baseURL P @ ''/domains'') (domain_filter E zone) None) (\<lambda>dat c.
        case wrapR ''decode linode domains'' (ae_linodeDomains E dat) of
          Inl e \<Rightarrow> (c, Inl e)
        | Inr ds \<Rightarrow>
            (case find_domain ds zone of
               None \<Rightarrow> (c, Inl (Wrap ''linode: domain not found'' dnsprovider_ErrNotFound))
             | Some i \<Rightarrow> (c\<lparr>cl_domainID := i\<rparr>, Inr i))) c)"

definition linode_recordsURL :: "providerSettings \<Rightarrow> int \<Rightarrow> nat \<Rightarrow> string" where
  "linode_recordsURL P i page =
     ps_baseURL P @ ''/domains/'' @ itoa i @ ''/records?page='' @ decimal page @ ''&page_size=500''"

definition linode_page ::
  "'s apiEnv \<Rightarrow> providerSettings \<Rightarrow> int \<Rightarrow> string \<Rightarrow> nat \<Rightarrow> 's apiClient \<Rightarrow> 's apiClient \<times> (linodeRecord list \<times> bool) res" where
  "linode_page E P i name page =
     sbind (linode_do E P ''GET'' (linode_recordsURL P i page) (record_filter E name) None)
       (\<lambda>dat. spure (bindR (wrapR ''decode linode records'' (ae_linodeRecords E dat)) (\<lambda>(rs, pages).
          Inr (rs, int page \<ge> pages \<or> rs = []))))"

definition linode_pick :: "string \<Rightarrow> linodeRecord \<Rightarrow> TXTRecord option" where
  "linode_pick name r =
     (if lr_Type r = ''TXT'' \<and> equalFold (lr_Name r) name then Some \<lparr>tx_ID = itoa (lr_ID r), tx_Value = lr_Target r\<rparr> else None)"

definition linode_ListTXT ::
  "'s apiEnv \<Rightarrow> providerSettings \<Rightarrow> string \<Rightarrow> string \<Rightarrow> 's apiClient \<Rightarrow> ('s apiClient \<times> TXTRecord list res) option" where
  "linode_ListTXT E P zone name c =
     (case resolveDomainID E P zone c of
        (c', Inl e) \<Rightarrow> Some (c', Inl e)
      | (c', Inr i) \<Rightarrow> page_loop (linode_page E P i name) (linode_pick name) 1 [] c')"

definition linode_recordBody :: "providerSettings \<Rightarrow> string \<Rightarrow> (string \<times> jsonValue) list" where
  "linode_recordBody P v = (''target'', JString v) # ttlField ''ttl_sec'' (ps_ttl P)"

definition linode_CreateTXT ::
  "'s apiEnv \<Rightarrow> providerSettings \<Rightarrow> string \<Rightarrow> string \<Rightarrow> string \<Rightarrow> 's apiClient \<Rightarrow> 's apiClient \<times> bytes res" where
  "linode_CreateTXT E P zone name v =
     sbind (resolveDomainID E P zone) (\<lambda>i.
       linode_do E P ''POST'' (ps_baseURL P @ ''/domains/'' @ itoa i @ ''/records'') []
         (Some (JObject (linode_recordBody P v @ [(''type'', JString ''TXT''), (''name'', JString name)]))))"

definition linode_UpdateTXT ::
  "'s apiEnv \<Rightarrow> providerSettings \<Rightarrow> string \<Rightarrow> string \<Rightarrow> string \<Rightarrow> 's apiClient \<Rightarrow> 's apiClient \<times> bytes res" where
  "linode_UpdateTXT E P zone recordID v =
     sbind (resolveDomainID E P zone) (\<lambda>i.
       linode_do E P ''PUT'' (ps_baseURL P @ ''/domains/'' @ itoa i @ ''/records/'' @ recordID) [] (Some (JObject (linode_recordBody P v))))"

definition linode_DeleteTXT ::
  "'s apiEnv \<Rightarrow> providerSettings \<Rightarrow> string \<Rightarrow> string \<Rightarrow> 's apiClient \<Rightarrow> 's apiClient \<times> bytes res" where
  "linode_DeleteTXT E P zone recordID =
     sbind (resolveDomainID E P zone) (\<lambda>i.
       linode_do E P ''DELETE'' (ps_baseURL P @ ''/domains/'' @ itoa i @ ''/records/'' @ recordID) [] None)"

section \<open>DigitalOcean\<close>

definition doRelName :: "string \<Rightarrow> string" where
  "doRelName name = (if name = [] then ''@'' else name)"

definition doFQDN :: "string \<Rightarrow> string \<Rightarrow> string" where
  "doFQDN rel zone0 = (let zone = trimSuffix zone0 ''.'' in if rel = ''@'' then zone else rel @ ''.'' @ zone)"

definition do_do ::
  "'s apiEnv \<Rightarrow> providerSettings \<Rightarrow> string \<Rightarrow> string \<Rightarrow> jsonValue option \<Rightarrow> 's apiClient \<Rightarrow> 's apiClient \<times> bytes res" where
  "do_do E P meth url body =
     doJSON E ''digitalocean'' meth url body (bearer P) (messageReason E ''message'')"

definition do_recordsURL :: "providerSettings \<Rightarrow> string \<Rightarrow> string \<Rightarrow> nat \<Rightarrow> string" where
  "do_recordsURL P zone rel page =
     ps_baseURL P @ ''/domains/'' @ zone @ ''/records?'' @
     values_Encode [(''type'', ''TXT''), (''name'', doFQDN rel zone), (''per_page'', ''200''), (''page'', decimal page)]"

definition do_page ::
  "'s apiEnv \<Rightarrow> providerSettings \<Rightarrow> string \<Rightarrow> string \<Rightarrow> nat \<Rightarrow> 's apiClient \<Rightarrow> 's apiClient \<times> (doRecord list \<times> bool) res" where
  "do_page E P zone rel page =
     sbind (do_do E P ''GET'' (do_recordsURL P zone rel page) None)
       (\<lambda>dat. spure (bindR (wrapR ''decode digitalocean records'' (ae_doRecords E dat)) (\<lambda>(rs, next).
          Inr (rs, next = [] \<or> rs = []))))"

definition do_pick :: "string \<Rightarrow> doRecord \<Rightarrow> TXTRecord option" where
  "do_pick rel r =
     (if dor_Type r = ''TXT'' \<and> equalFold (dor_Name r) rel then Some \<lparr>tx_ID = itoa (dor_ID r), tx_Value = dor_Data r\<rparr> else None)"

definition do_ListTXT ::
  "'s apiEnv \<Rightarrow> providerSettings \<Rightarrow> string \<Rightarrow> string \<Rightarrow> 's apiClient \<Rightarrow> ('s apiClient \<times> TXTRecord list res) option" where
  "do_ListTXT E P zone name = page_loop (do_page E P zone (doRelName name)) (do_pick (doRelName name)) 1 []"

definition do_recordBody :: "providerSettings \<Rightarrow> string \<Rightarrow> (string \<times> jsonValue) list" where
  "do_recordBody P v = (''data'', JString v) # ttlField ''ttl'' (ps_ttl P)"

definition do_CreateTXT ::
  "'s apiEnv \<Rightarrow> providerSettings \<Rightarrow> string \<Rightarrow> string \<Rightarrow> string \<Rightarrow> 's apiClient \<Rightarrow> 's apiClient \<times> bytes res" where
  "do_CreateTXT E P zone name v =
     do_do E P ''POST'' (ps_baseURL P @ ''/domains/'' @ zone @ ''/records'')
       (Some (JObject (do_recordBody P v @ [(''type'', JString ''TXT''), (''name'', JString (doRelName name))])))"

definition do_UpdateTXT ::
  "'s apiEnv \<Rightarrow> providerSettings \<Rightarrow> string \<Rightarrow> string \<Rightarrow> string \<Rightarrow> 's apiClient \<Rightarrow> 's apiClient \<times> bytes res" where
  "do_UpdateTXT E P zone recordID v =
     do_do E P ''PUT'' (ps_baseURL P @ ''/domains/'' @ zone @ ''/records/'' @ recordID)
       (Some (JObject (do_recordBody P v @ [(''type'', JString ''TXT'')])))"

definition do_DeleteTXT ::
  "'s apiEnv \<Rightarrow> providerSettings \<Rightarrow> string \<Rightarrow> string \<Rightarrow> 's apiClient \<Rightarrow> 's apiClient \<times> bytes res" where
  "do_DeleteTXT E P zone recordID =
     do_do E P ''DELETE'' (ps_baseURL P @ ''/domains/'' @ zone @ ''/records/'' @ recordID) None"

section \<open>Cloudflare\<close>

definition cfFQDN :: "string \<Rightarrow> string \<Rightarrow> string" where
  "cfFQDN name0 zone0 =
     (let zone = trimSuffix zone0 ''.''; name = trimSuffix name0 ''.''
      in if name = [] \<or> name = ''@'' then zone else name @ ''.'' @ zone)"

definition cloudflareErrReason :: "'s apiEnv \<Rightarrow> bytes \<Rightarrow> string" where
  "cloudflareErrReason E body =
     (case ae_cfErrors E body of
        Inl _ \<Rightarrow> bodyReason body
      | Inr es \<Rightarrow>
          if es = [] then bodyReason body
          else joinWith ''; '' (map (\<lambda>(cd, msg). if cd \<noteq> 0 then itoa cd @ '': '' @ msg else msg) es))"

definition cf_do ::
  "'s apiEnv \<Rightarrow> providerSettings \<Rightarrow> string \<Rightarrow> string \<Rightarrow> jsonValue option \<Rightarrow> 's apiClient \<Rightarrow> 's apiClient \<times> bytes res" where
  "cf_do E P meth url body =
     doJSON E ''cloudflare'' meth url body (bearer P) (cloudflareErrReason E)"

fun cf_find_zone :: "cfZone list \<Rightarrow> string \<Rightarrow> string option" where
  "cf_find_zone [] zone = None"
| "cf_find_zone (z # zs) zone = (if equalFold (cz_Name z) zone then Some (cz_ID z) else cf_find_zone zs zone)"

definition cf_resolveZoneID :: "'s apiEnv \<Rightarrow> providerSettings \<Rightarrow> string \<Rightarrow> 's apiClient \<Rightarrow> 's apiClient \<times> string res" where
  "cf_resolveZoneID E P zone c =
     (if cl_zoneID c \<noteq> [] then (c, Inr (cl_zoneID c))
      else sbind (cf_do E P ''GET'' (ps_baseURL P @ ''/zones?'' @ values_Encode [(''name'', zone)]) None) (\<lambda>dat c.
        case wrapR ''decode cloudflare zones'' (bindR (ae_cfEnvelope E dat) (\<lambda>env. ae_cfZones E (ce_Result env))) of
          Inl e \<Rightarrow> (c, Inl e)
        | Inr zs \<Rightarrow>
            (case cf_find_zone zs zone of
               None \<Rightarrow> (c, Inl (Wrap ''cloudflare: zone not found'' dnsprovider_ErrNotFound))
             | Some i \<Rightarrow> (c\<lparr>cl_zoneID := i\<rparr>, Inr i))) c)"

definition cf_recordsURL :: "providerSettings \<Rightarrow> string \<Rightarrow> string \<Rightarrow> nat \<Rightarrow> string" where
  "cf_recordsURL P i fqdn page =
     ps_baseURL P @ ''/zones/'' @ i @ ''/dns_records?'' @
     values_Encode [(''type'', ''TXT''), (''name'', fqdn), (''per_page'', ''100''), (''page'', decimal page)]"

definition cf_decode :: "'s apiEnv \<Rightarrow> bytes \<Rightarrow> (cfRecord list \<times> int) res" where
  "cf_decode E dat =
     bindR (ae_cfEnvelope E dat) (\<lambda>env. bindR (ae_cfRecords E (ce_Result env)) (\<lambda>rs. Inr (rs, ce_TotalPages env)))"

definition cf_page ::
  "'s apiEnv \<Rightarrow> providerSettings \<Rightarrow> string \<Rightarrow> string \<Rightarrow> nat \<Rightarrow> 's apiClient \<Rightarrow> 's apiClient \<times> (cfRecord list \<times> bool) res" where
  "cf_page E P i fqdn page =
     sbind (cf_do E P ''GET'' (cf_recordsURL P i fqdn page) None)
       (\<lambda>dat. spure (bindR (wrapR ''decode cloudflare records'' (cf_decode E dat)) (\<lambda>(rs, totalPages).
          Inr (rs, int page \<ge> totalPages \<or> rs = []))))"

definition cf_pick :: "string \<Rightarrow> cfRecord \<Rightarrow> TXTRecord option" where
  "cf_pick fqdn r =
     (if cr_Type r = ''TXT'' \<and> equalFold (cr_Name r) fqdn then Some \<lparr>tx_ID = cr_ID r, tx_Value = cr_Content r\<rparr> else None)"

definition cf_ListTXT ::
  "'s apiEnv \<Rightarrow> providerSettings \<Rightarrow> string \<Rightarrow> string \<Rightarrow> 's apiClient \<Rightarrow> ('s apiClient \<times> TXTRecord list res) option" where
  "cf_ListTXT E P zone name c =
     (case cf_resolveZoneID E P zone c of
        (c', Inl e) \<Rightarrow> Some (c', Inl e)
      | (c', Inr i) \<Rightarrow> page_loop (cf_page E P i (cfFQDN name zone)) (cf_pick (cfFQDN name zone)) 1 [] c')"

definition cf_recordBody :: "providerSettings \<Rightarrow> string \<Rightarrow> (string \<times> jsonValue) list" where
  "cf_recordBody P v = (''content'', JString v) # ttlField ''ttl'' (ps_ttl P)"

definition cf_CreateTXT ::
  "'s apiEnv \<Rightarrow> providerSettings \<Rightarrow> string \<Rightarrow> string \<Rightarrow> string \<Rightarrow> 's apiClient \<Rightarrow> 's apiClient \<times> bytes res" where
  "cf_CreateTXT E P zone name v =
     sbind (cf_resolveZoneID E P zone) (\<lambda>i.
       cf_do E P ''POST'' (ps_baseURL P @ ''/zones/'' @ i @ ''/dns_records'')
         (Some (JObject (cf_recordBody P v @ [(''type'', JString ''TXT''), (''name'', JString (cfFQDN name zone))]))))"

definition cf_UpdateTXT ::
  "'s apiEnv \<Rightarrow> providerSettings \<Rightarrow> string \<Rightarrow> string \<Rightarrow> string \<Rightarrow> 's apiClient \<Rightarrow> 's apiClient \<times> bytes res" where
  "cf_UpdateTXT E P zone recordID v =
     sbind (cf_resolveZoneID E P zone) (\<lambda>i.
       cf_do E P ''PATCH'' (ps_baseURL P @ ''/zones/'' @ i @ ''/dns_records/'' @ recordID) (Some (JObject (cf_recordBody P v))))"

definition cf_DeleteTXT ::
  "'s apiEnv \<Rightarrow> providerSettings \<Rightarrow> string \<Rightarrow> string \<Rightarrow> 's apiClient \<Rightarrow> 's apiClient \<times> bytes res" where
  "cf_DeleteTXT E P zone recordID =
     sbind (cf_resolveZoneID E P zone) (\<lambda>i.
       cf_do E P ''DELETE'' (ps_baseURL P @ ''/zones/'' @ i @ ''/dns_records/'' @ recordID) None)"

section \<open>Hetzner\<close>

definition hetznerRelName :: "string \<Rightarrow> string" where
  "hetznerRelName name0 = (let name = trimSuffix name0 ''.'' in if name = [] \<or> name = ''@'' then ''@'' else name)"

definition hetznerErrReason :: "'s apiEnv \<Rightarrow> bytes \<Rightarrow> string" where
  "hetznerErrReason E body =
     (case ae_hetznerError E body of
        Inl _ \<Rightarrow> bodyReason body
      | Inr ((msg, cd), plain) \<Rightarrow>
          if msg \<noteq> [] \<and> cd \<noteq> 0 then itoa cd @ '': '' @ msg
          else if msg \<noteq> [] then msg
          else if plain \<noteq> [] then plain
          else bodyReason body)"

definition hetzner_do ::
  "'s apiEnv \<Rightarrow> providerSettings \<Rightarrow> string \<Rightarrow> string \<Rightarrow> jsonValue option \<Rightarrow> 's apiClient \<Rightarrow> 's apiClient \<times> bytes res" where
  "hetzner_do E P meth url body =
     doJSON E ''hetzner'' meth url body [(''Auth-API-Token'', ps_token P)] (hetznerErrReason E)"

fun hetzner_find_zone :: "hetznerZone list \<Rightarrow> string \<Rightarrow> string option" where
  "hetzner_find_zone [] zone = None"
| "hetzner_find_zone (z # zs) zone = (if equalFold (hz_Name z) zone then Some (hz_ID z) else hetzner_find_zone zs zone)"

definition hetzner_resolveZoneID :: "'s apiEnv \<Rightarrow> providerSettings \<Rightarrow> string \<Rightarrow> 's apiClient \<Rightarrow> 's apiClient \<times> string res" where
  "hetzner_resolveZoneID E P zone c =
     (if cl_zoneID c \<noteq> [] then (c, Inr (cl_zoneID c))
      else sbind (hetzner_do E P ''GET'' (ps_baseURL P @ ''/zones?'' @ values_Encode [(''name'', zone)]) None) (\<lambda>dat c.
        case wrapR ''decode hetzner zones'' (ae_hetznerZones E dat) of
          Inl e \<Rightarrow> (c, Inl e)
        | Inr zs \<Rightarrow>
            (case hetzner_find_zone zs zone of
               None \<Rightarrow> (c, Inl (Wrap ''hetzner: zone not found'' dnsprovider_ErrNotFound))
             | Some i \<Rightarrow> (c\<lparr>cl_zoneID := i\<rparr>, Inr i))) c)"

definition hetzner_recordsURL :: "providerSettings \<Rightarrow> string \<Rightarrow> nat \<Rightarrow> string" where
  "hetzner_recordsURL P i page =
     ps_baseURL P @ ''/records?'' @ values_Encode [(''zone_id'', i), (''per_page'', ''100''), (''page'', decimal page)]"

definition hetzner_page ::
  "'s apiEnv \<Rightarrow> providerSettings \<Rightarrow> string \<Rightarrow> nat \<Rightarrow> 's apiClient \<Rightarrow> 's apiClient \<times> (hetznerRecord list \<times> bool) res" where
  "hetzner_page E P i page =
     sbind (hetzner_do E P ''GET'' (hetzner_recordsURL P i page) None)
       (\<lambda>dat. spure (bindR (wrapR ''decode hetzner records'' (ae_hetznerRecords E dat)) (\<lambda>(rs, lastPage).
          Inr (rs, rs = [] \<or> lastPage \<le> int page))))"

definition hetzner_pick :: "string \<Rightarrow> hetznerRecord \<Rightarrow> TXTRecord option" where
  "hetzner_pick rel r =
     (if hr_Type r = ''TXT'' \<and> equalFold (hr_Name r) rel then Some \<lparr>tx_ID = hr_ID r, tx_Value = hr_Value r\<rparr> else None)"

definition hetzner_ListTXT ::
  "'s apiEnv \<Rightarrow> providerSettings \<Rightarrow> string \<Rightarrow> string \<Rightarrow> 's apiClient \<Rightarrow> ('s apiClient \<times> TXTRecord list res) option" where
  "hetzner_ListTXT E P zone name c =
     (case hetzner_resolveZoneID E P zone c of
        (c', Inl e) \<Rightarrow> Some (c', Inl e)
      | (c', Inr i) \<Rightarrow> page_loop (hetzner_page E P i) (hetzner_pick (hetznerRelName name)) 1 [] c')"

definition hetzner_body :: "providerSettings \<Rightarrow> string \<Rightarrow> string \<Rightarrow> string \<Rightarrow> string \<Rightarrow> jsonValue" where
  "hetzner_body P zoneID typ name v =
     JObject ([(''zone_id'', JString zoneID), (''type'', JString typ), (''name'', JString name), (''value'', JString v)] @
       ttlField ''ttl'' (ps_ttl P))"

definition hetzner_CreateTXT ::
  "'s apiEnv \<Rightarrow> providerSettings \<Rightarrow> string \<Rightarrow> string \<Rightarrow> string \<Rightarrow> 's apiClient \<Rightarrow> 's apiClient \<times> bytes res" where
  "hetzner_CreateTXT E P zone name v =
     sbind (hetzner_resolveZoneID E P zone) (\<lambda>i.
       hetzner_do E P ''POST'' (ps_baseURL P @ ''/records'') (Some (hetzner_body P i ''TXT'' (hetznerRelName name) v)))"

definition hetzner_getRecord ::
  "'s apiEnv \<Rightarrow> providerSettings \<Rightarrow> string \<Rightarrow> 's apiClient \<Rightarrow> 's apiClient \<times> hetznerRecord res" where
  "hetzner_getRecord E P recordID =
     sbind (hetzner_do E P ''GET'' (ps_baseURL P @ ''/records/'' @ recordID) None)
       (\<lambda>dat. spure (wrapR ''decode hetzner record'' (ae_hetznerRecord E dat)))"

definition hetzner_UpdateTXT ::
  "'s apiEnv \<Rightarrow> providerSettings \<Rightarrow> string \<Rightarrow> string \<Rightarrow> string \<Rightarrow> 's apiClient \<Rightarrow> 's apiClient \<times> bytes res" where
  "hetzner_UpdateTXT E P zone recordID v =
     sbind (hetzner_getRecord E P recordID) (\<lambda>r.
       hetzner_do E P ''PUT'' (ps_baseURL P @ ''/records/'' @ recordID) (Some (hetzner_body P (hr_ZoneID r) (hr_Type r) (hr_Name r) v)))"

definition hetzner_DeleteTXT ::
  "'s apiEnv \<Rightarrow> providerSettings \<Rightarrow> string \<Rightarrow> string \<Rightarrow> 's apiClient \<Rightarrow> 's apiClient \<times> bytes res" where
  "hetzner_DeleteTXT E P zone recordID = hetzner_do E P ''DELETE'' (ps_baseURL P @ ''/records/'' @ recordID) None"

section \<open>The providers behind the interface\<close>

text \<open>The Go function that does not return has no value, and the interface of the drop has no place for one: \<open>listed\<close>
  makes the model's interface total by an error in the state before the call. This case stands for no behaviour of
  the code; with pages served as documented it is excluded, since the loops end (\<open>listings_complete\<close>). Properties that
  hold whatever a service answers say of such a listing only that it changed nothing.\<close>

definition listed :: "'c \<Rightarrow> ('c \<times> TXTRecord list res) option \<Rightarrow> 'c \<times> TXTRecord list res" where
  "listed c r = (case r of Some p \<Rightarrow> p | None \<Rightarrow> (c, Inl (Err ''listing does not end'')))"

definition linode_provider :: "'s apiEnv \<Rightarrow> providerSettings \<Rightarrow> 's apiClient provider" where
  "linode_provider E P =
     \<lparr>pv_ListTXT = (\<lambda>c zone name. listed c (linode_ListTXT E P zone name c)),
      pv_CreateTXT = (\<lambda>c zone name v. outcome (linode_CreateTXT E P zone name v c)),
      pv_UpdateTXT = (\<lambda>c zone i v. outcome (linode_UpdateTXT E P zone i v c)),
      pv_DeleteTXT = (\<lambda>c zone i. outcome (linode_DeleteTXT E P zone i c)),
      pv_ReplaceTXT = None, pv_Flush = None\<rparr>"

definition do_provider :: "'s apiEnv \<Rightarrow> providerSettings \<Rightarrow> 's apiClient provider" where
  "do_provider E P =
     \<lparr>pv_ListTXT = (\<lambda>c zone name. listed c (do_ListTXT E P zone name c)),
      pv_CreateTXT = (\<lambda>c zone name v. outcome (do_CreateTXT E P zone name v c)),
      pv_UpdateTXT = (\<lambda>c zone i v. outcome (do_UpdateTXT E P zone i v c)),
      pv_DeleteTXT = (\<lambda>c zone i. outcome (do_DeleteTXT E P zone i c)),
      pv_ReplaceTXT = None, pv_Flush = None\<rparr>"

definition cf_provider :: "'s apiEnv \<Rightarrow> providerSettings \<Rightarrow> 's apiClient provider" where
  "cf_provider E P =
     \<lparr>pv_ListTXT = (\<lambda>c zone name. listed c (cf_ListTXT E P zone name c)),
      pv_CreateTXT = (\<lambda>c zone name v. outcome (cf_CreateTXT E P zone name v c)),
      pv_UpdateTXT = (\<lambda>c zone i v. outcome (cf_UpdateTXT E P zone i v c)),
      pv_DeleteTXT = (\<lambda>c zone i. outcome (cf_DeleteTXT E P zone i c)),
      pv_ReplaceTXT = None, pv_Flush = None\<rparr>"

definition hetzner_provider :: "'s apiEnv \<Rightarrow> providerSettings \<Rightarrow> 's apiClient provider" where
  "hetzner_provider E P =
     \<lparr>pv_ListTXT = (\<lambda>c zone name. listed c (hetzner_ListTXT E P zone name c)),
      pv_CreateTXT = (\<lambda>c zone name v. outcome (hetzner_CreateTXT E P zone name v c)),
      pv_UpdateTXT = (\<lambda>c zone i v. outcome (hetzner_UpdateTXT E P zone i v c)),
      pv_DeleteTXT = (\<lambda>c zone i. outcome (hetzner_DeleteTXT E P zone i c)),
      pv_ReplaceTXT = None, pv_Flush = None\<rparr>"

section \<open>Listings\<close>

lemma sbind_Inr: "sbind m f c = (c', Inr b) \<longleftrightarrow> (\<exists>c1 a. m c = (c1, Inr a) \<and> f a c1 = (c', Inr b))"
  by (auto simp: sbind_def split: prod.splits sum.splits)

lemma spure_eq [simp]: "spure r c = (c', r') \<longleftrightarrow> c' = c \<and> r = r'"
  by (auto simp: spure_def)

lemma sbind_spure: "sbind (spure (Inr a)) f = f a"
  by (rule ext) (simp add: sbind_def spure_def)

lemma readResponseBody_Inr: "readResponseBody msg limit resp = Inr dat \<Longrightarrow> dat = take limit (as_Body resp)"
  by (auto simp: readResponseBody_def split: if_splits option.splits)

text \<open>A property of the service that a computation keeps.\<close>

definition keeps :: "('c \<Rightarrow> bool) \<Rightarrow> ('c \<Rightarrow> 'c \<times> 'r) \<Rightarrow> bool" where
  "keeps I m \<longleftrightarrow> (\<forall>c c' r. m c = (c', r) \<longrightarrow> I c \<longrightarrow> I c')"

named_theorems keeps_intros

lemma keepsD: "keeps I m \<Longrightarrow> m c = (c', r) \<Longrightarrow> I c \<Longrightarrow> I c'"
  by (auto simp: keeps_def)

lemma keeps_spure [keeps_intros]: "keeps I (spure r)"
  by (simp add: keeps_def)

lemma keeps_sbind [keeps_intros]: "keeps I m \<Longrightarrow> (\<And>a. keeps I (f a)) \<Longrightarrow> keeps I (sbind m f)"
  unfolding keeps_def sbind_def by (fastforce split: prod.splits sum.splits)

lemma keeps_if [keeps_intros]: "keeps I m \<Longrightarrow> keeps I m' \<Longrightarrow> keeps I (if b then m else m')"
  by simp

lemma keeps_case_prod [keeps_intros]: "(\<And>a b. keeps I (f a b)) \<Longrightarrow> keeps I (case p of (a, b) \<Rightarrow> f a b)"
  by (cases p) simp

lemma keeps_case_option [keeps_intros]: "keeps I m \<Longrightarrow> (\<And>a. keeps I (f a)) \<Longrightarrow> keeps I (case x of None \<Rightarrow> m | Some a \<Rightarrow> f a)"
  by (cases x) simp_all

lemma keeps_outcome [keeps_intros]: "keeps I m \<Longrightarrow> keeps I (\<lambda>c. outcome (m c))"
  unfolding keeps_def outcome_def by (metis fst_conv prod.collapse)

lemma keeps_send [keeps_intros]:
  assumes "\<And>s s' r. ae_Do E req s = (s', r) \<Longrightarrow> N s \<Longrightarrow> N s'"
  shows "keeps (\<lambda>c. N (cl_net c)) (client_send E m1 m2 limit m3 req)"
  using assms unfolding keeps_def client_send_def by (auto split: option.splits prod.splits sum.splits)

lemma keeps_doJSONRaw [keeps_intros]:
  assumes "\<And>req s s' r. ar_Method req = meth \<Longrightarrow> ar_URL req = url \<Longrightarrow> ae_Do E req s = (s', r) \<Longrightarrow> N s \<Longrightarrow> N s'"
  shows "keeps (\<lambda>c. N (cl_net c)) (doJSONRaw E prov meth url body headers)"
  unfolding doJSONRaw_def by (intro keeps_intros) (rule assms; simp)+

lemma keeps_doJSON [keeps_intros]:
  assumes "\<And>req s s' r. ar_Method req = meth \<Longrightarrow> ar_URL req = url \<Longrightarrow> ae_Do E req s = (s', r) \<Longrightarrow> N s \<Longrightarrow> N s'"
  shows "keeps (\<lambda>c. N (cl_net c)) (doJSON E prov meth url body headers reason)"
  unfolding doJSON_def by (intro keeps_intros) (rule assms; simp)+

lemma keeps_GET:
  assumes "\<And>req s s' r. ar_Method req = ''GET'' \<Longrightarrow> ar_URL req = url \<Longrightarrow> ar_Header req = headers \<Longrightarrow> ae_Do E req s = (s', r) \<Longrightarrow>
      N s \<Longrightarrow> N s'"
  shows "keeps (\<lambda>c. N (cl_net c)) (doJSON E prov ''GET'' url None headers reason)"
proof -
  have "jsonBody E prov None = Inr None" by (simp add: jsonBody_def)
  then have "doJSON E prov ''GET'' url None headers reason = sbind (client_send E (''create '' @ prov @ '' request'')
      (prov @ '' API request'') apiResponseLimit (''read '' @ prov @ '' response'')
      \<lparr>ar_Method = ''GET'', ar_URL = url, ar_Header = headers, ar_Body = None\<rparr>) (\<lambda>r. spure (statusR prov reason r))"
    by (simp add: doJSON_def doJSONRaw_def sbind_spure)
  then show ?thesis by (simp only:) (intro keeps_sbind keeps_spure keeps_send, rule assms; simp)
qed

lemma client_send_Inr:
  "client_send E m1 m2 limit m3 req c = (c', Inr (status, dat)) \<Longrightarrow>
     \<exists>s resp. ae_Do E req (cl_net c) = (s, Inr resp) \<and> c' = c\<lparr>cl_net := s\<rparr> \<and>
       dat = take limit (as_Body resp) \<and> status = as_StatusCode resp"
  unfolding client_send_def by (auto dest!: readResponseBody_Inr split: option.splits prod.splits sum.splits)

text \<open>A successful call: the exchange, with its request, and a status of success.\<close>

lemma doJSONRaw_Inr:
  assumes "doJSONRaw E prov meth url body headers c = (c', Inr (status, dat))"
  obtains req s resp where "ar_Method req = meth" and "ar_URL req = url" and "ae_Do E req (cl_net c) = (s, Inr resp)"
    and "c' = c\<lparr>cl_net := s\<rparr>" and "dat = take apiResponseLimit (as_Body resp)" and "status = as_StatusCode resp"
    and "case body of None \<Rightarrow> ar_Body req = None \<and> ar_Header req = headers | Some v \<Rightarrow> \<exists>b. ar_Body req = Some b \<and> ae_Marshal E v = Inr b"
proof -
  obtain rdr where b: "jsonBody E prov body = Inr rdr"
    and snd: "client_send E (''create '' @ prov @ '' request'') (prov @ '' API request'') apiResponseLimit (''read '' @ prov @ '' response'')
       \<lparr>ar_Method = meth, ar_URL = url,
        ar_Header = (if rdr \<noteq> None then [(''Content-Type'', ''application/json'')] else []) @ headers, ar_Body = rdr\<rparr> c =
       (c', Inr (status, dat))" (is "client_send _ _ _ _ _ ?req c = _")
    using assms by (auto simp: doJSONRaw_def sbind_Inr)
  from client_send_Inr [OF snd] obtain s resp where "ae_Do E ?req (cl_net c) = (s, Inr resp)" "c' = c\<lparr>cl_net := s\<rparr>"
    "dat = take apiResponseLimit (as_Body resp)" "status = as_StatusCode resp" by blast
  then show ?thesis using b
    by (intro that [of ?req s resp]) (auto simp: jsonBody_def wrapR_def split: option.splits sum.splits)
qed

lemma statusR_Inr: "statusR prov reason (status, dat) = Inr dat' \<longleftrightarrow> dat' = dat \<and> 200 \<le> status \<and> status < 300"
  by (auto simp: statusR_def statusError_def split: if_splits)

lemma doJSON_Inr:
  assumes "doJSON E prov meth url body headers reason c = (c', Inr dat)"
  obtains req s resp where "ar_Method req = meth" and "ar_URL req = url" and "ae_Do E req (cl_net c) = (s, Inr resp)"
    and "c' = c\<lparr>cl_net := s\<rparr>" and "dat = take apiResponseLimit (as_Body resp)"
    and "200 \<le> as_StatusCode resp" and "as_StatusCode resp < 300"
    and "case body of None \<Rightarrow> ar_Body req = None \<and> ar_Header req = headers | Some v \<Rightarrow> \<exists>b. ar_Body req = Some b \<and> ae_Marshal E v = Inr b"
proof -
  obtain c1 status where "doJSONRaw E prov meth url body headers c = (c1, Inr (status, dat))" "c1 = c'" "200 \<le> status" "status < 300"
    using assms by (auto simp: doJSON_def sbind_Inr statusR_Inr)
  from this(1)[unfolded this(2)] show ?thesis
    by (rule doJSONRaw_Inr) (use \<open>200 \<le> status\<close> \<open>status < 300\<close> that in blast)
qed

text \<open>The contract of a listing in pages: the records do not change under it, page \<open>p\<close> holds its share of them, and the
  code stops at the page that is the last.\<close>

locale paged_listing =
  fixes fetch :: "nat \<Rightarrow> 'c \<Rightarrow> 'c \<times> ('r list \<times> bool) res" and recs :: "'c \<Rightarrow> 'r list" and inv :: "'c \<Rightarrow> bool" and per :: nat
  assumes fetch_keeps: "inv c \<Longrightarrow> 0 < p \<Longrightarrow> fetch p c = (c', r) \<Longrightarrow> inv c' \<and> recs c' = recs c"
    and fetch_page: "inv c \<Longrightarrow> 0 < p \<Longrightarrow> fetch p c = (c', Inr (rs, stop)) \<Longrightarrow>
      rs = take per (drop (per * (p - 1)) (recs c)) \<and> (stop \<longleftrightarrow> length (recs c) \<le> per * p)"
    and per_pos: "0 < per"
begin

lemma page_loop_ends:
  "inv c \<Longrightarrow> 0 < p \<Longrightarrow> \<exists>c' r. page_loop fetch pick p out c = Some (c', r) \<and> inv c' \<and> recs c' = recs c \<and>
     (\<forall>rs. r = Inr rs \<longrightarrow> rs = out @ List.map_filter pick (drop (per * (p - 1)) (recs c))) \<and>
     (\<forall>e. r = Inl e \<longrightarrow> (\<exists>q c1. snd (fetch q c1) = Inl e))"
proof (induction "length (recs c) - per * p" arbitrary: c p out rule: less_induct)
  case less
  obtain c1 r where f: "fetch p c = (c1, r)" by fastforce
  note k = fetch_keeps [OF less.prems f]
  show ?case
  proof (cases r)
    case (Inl e)
    then have "\<exists>q c1. snd (fetch q c1) = Inl e" using f by (intro exI [of _ p] exI [of _ c]) simp
    with Inl show ?thesis using f k by (subst page_loop.simps) simp
  next
    case (Inr b)
    then obtain rs stop where b: "fetch p c = (c1, Inr (rs, stop))" using f by (cases b) auto
    note pg = fetch_page [OF less.prems b]
    have p: "per * p = per * (p - 1) + per" using less.prems(2) by (cases p) auto
    have tl: "drop (per * (p - 1)) (recs c) = rs @ drop (per * p) (recs c)"
      unfolding p pg [THEN conjunct1] by (simp add: add.commute flip: drop_drop)
    have mf: "List.map_filter pick (drop (per * (p - Suc 0)) (recs c)) =
        List.map_filter pick rs @ List.map_filter pick (drop (per * p) (recs c))"
      unfolding tl [unfolded One_nat_def] by (simp add: map_filter_def)
    show ?thesis
    proof (cases stop)
      case True
      then have "List.map_filter pick (drop (per * p) (recs c)) = []" using pg by (simp add: map_filter_def)
      then show ?thesis using True b k mf by (subst page_loop.simps) auto
    next
      case False
      then have "length (recs c1) - per * Suc p < length (recs c) - per * p" using pg k per_pos by simp
      from less.hyps [OF this, of "out @ List.map_filter pick rs"] k obtain c' r' where
        "page_loop fetch pick (Suc p) (out @ List.map_filter pick rs) c1 = Some (c', r')" "inv c'" "recs c' = recs c"
        "\<forall>xs. r' = Inr xs \<longrightarrow> xs = (out @ List.map_filter pick rs) @ List.map_filter pick (drop (per * p) (recs c))"
        "\<forall>e. r' = Inl e \<longrightarrow> (\<exists>q c1. snd (fetch q c1) = Inl e)"
        by auto
      then show ?thesis using False b mf by (subst page_loop.simps) simp
    qed
  qed
qed

lemma page_loop_complete:
  "inv c \<Longrightarrow> \<exists>c' r. page_loop fetch pick 1 [] c = Some (c', r) \<and> recs c' = recs c \<and>
     (\<forall>rs. r = Inr rs \<longrightarrow> rs = List.map_filter pick (recs c)) \<and> (\<forall>e. r = Inl e \<longrightarrow> (\<exists>q c1. snd (fetch q c1) = Inl e))"
  using page_loop_ends [of c 1 pick "[]"] by auto

end

text \<open>What the listing endpoints document for the requests of one listing, those with its address and its headers: a
  successful answer for page \<open>p\<close> decodes to the \<open>p\<close>-th share of the records together with a mark, the number of pages
  or the link to the next one. The records are those that the request selects; a Linode listing selects with its
  \<open>X-Filter\<close> header, so the contract is about requests with just the headers that the client sends.\<close>

definition serves_pages ::
  "'s apiEnv \<Rightarrow> (string \<times> string) list \<Rightarrow> (nat \<Rightarrow> string) \<Rightarrow> (bytes \<Rightarrow> ('r list \<times> 't) res) \<Rightarrow> ('s \<Rightarrow> 'r list) \<Rightarrow> (nat \<Rightarrow> nat \<Rightarrow> 't \<Rightarrow> bool) \<Rightarrow> nat \<Rightarrow> bool" where
  "serves_pages E headers url decode recs marks per \<longleftrightarrow>
     (\<forall>page s s' r req. 0 < page \<longrightarrow> ar_Method req = ''GET'' \<longrightarrow> ar_URL req = url page \<longrightarrow> ar_Header req = headers \<longrightarrow> ae_Do E req s = (s', r) \<longrightarrow>
        recs s' = recs s \<and>
        (\<forall>resp rs t. r = Inr resp \<longrightarrow> 200 \<le> as_StatusCode resp \<longrightarrow> as_StatusCode resp < 300 \<longrightarrow>
           decode (take apiResponseLimit (as_Body resp)) = Inr (rs, t) \<longrightarrow>
           rs = take per (drop (per * (page - 1)) (recs s)) \<and> marks page (length (recs s)) t))"

definition page_count :: "nat \<Rightarrow> nat \<Rightarrow> nat" where
  "page_count per n = (n + per - 1) div per"

definition counts_pages :: "nat \<Rightarrow> nat \<Rightarrow> nat \<Rightarrow> int \<Rightarrow> bool" where
  "counts_pages per page n pages \<longleftrightarrow> pages = int (page_count per n)"

definition links_next :: "nat \<Rightarrow> nat \<Rightarrow> nat \<Rightarrow> string \<Rightarrow> bool" where
  "links_next per page n next \<longleftrightarrow> (next = [] \<longleftrightarrow> n \<le> per * page)"

lemma page_count_le:
  assumes "0 < per"
  shows "page_count per n \<le> page \<longleftrightarrow> n \<le> per * page"
proof -
  have "page_count per n \<le> page \<longleftrightarrow> n + per - 1 < Suc page * per"
    unfolding page_count_def by (metis assms div_less_iff_less_mult less_Suc_eq_le)
  also have "\<dots> \<longleftrightarrow> n \<le> per * page" using assms by (auto simp: algebra_simps)
  finally show ?thesis .
qed

text \<open>A page fetched with a call and decoded meets the contract when its stop condition agrees with the mark.\<close>

lemma paged_listingI:
  fixes E :: "'s apiEnv" and recs :: "'s \<Rightarrow> 'r list"
  assumes per: "0 < per" and stop: "\<And>p rs t xs. 0 < p \<Longrightarrow> marks p (length xs) t \<Longrightarrow>
      rs = take per (drop (per * (p - 1)) (xs :: 'r list)) \<Longrightarrow> stop p rs t \<longleftrightarrow> length xs \<le> per * p"
  shows "paged_listing
    (\<lambda>p. sbind (doJSON E prov ''GET'' (url p) None headers reason)
       (\<lambda>dat. spure (bindR (wrapR msg (decode dat)) (\<lambda>(rs, t). Inr (rs, stop p rs t)))))
    (\<lambda>c. recs (cl_net c)) (\<lambda>_. serves_pages E headers url decode recs marks per) per" (is "paged_listing ?fetch _ ?inv _")
proof
  fix c c' r and p :: nat
  assume inv: "?inv c" and p: "0 < p"
  show "?inv c' \<and> recs (cl_net c') = recs (cl_net c)" if "?fetch p c = (c', r)"
  proof -
    have "keeps (\<lambda>c1. recs (cl_net c1) = recs (cl_net c)) (?fetch p)"
      using inv p unfolding serves_pages_def by (intro keeps_sbind keeps_spure keeps_GET) metis
    from keepsD [OF this that] show ?thesis using inv by simp
  qed
  fix rs b
  assume "?fetch p c = (c', Inr (rs, b))"
  then obtain c1 dat t where d: "doJSON E prov ''GET'' (url p) None headers reason c = (c1, Inr dat)"
    "decode dat = Inr (rs, t)" "b = stop p rs t" by (auto simp: sbind_Inr)
  from d(1) obtain req s resp where "ar_Method req = ''GET''" "ar_URL req = url p" "ar_Header req = headers" "ae_Do E req (cl_net c) = (s, Inr resp)"
    "dat = take apiResponseLimit (as_Body resp)" "200 \<le> as_StatusCode resp" "as_StatusCode resp < 300"
    by (rule doJSON_Inr) simp
  with inv p d(2) have "rs = take per (drop (per * (p - 1)) (recs (cl_net c))) \<and> marks p (length (recs (cl_net c))) t"
    unfolding serves_pages_def by metis
  with stop [OF p] d(3) show "rs = take per (drop (per * (p - 1)) (recs (cl_net c))) \<and> (b \<longleftrightarrow> length (recs (cl_net c)) \<le> per * p)"
    by blast
qed (rule per)

lemma stop_by_count:
  "0 < per \<Longrightarrow> 0 < p \<Longrightarrow> counts_pages per p (length xs) t \<Longrightarrow> rs = take per (drop (per * (p - 1)) xs) \<Longrightarrow>
     (t \<le> int p \<or> rs = []) \<longleftrightarrow> length xs \<le> per * p"
  using page_count_le [of per "length xs" p] by (cases p) (auto simp: counts_pages_def)

lemma stop_by_link:
  "0 < per \<Longrightarrow> 0 < p \<Longrightarrow> links_next per p (length xs) t \<Longrightarrow> rs = take per (drop (per * (p - 1)) xs) \<Longrightarrow>
     (t = [] \<or> rs = []) \<longleftrightarrow> length xs \<le> per * p"
  by (cases p) (auto simp: links_next_def)

interpretation linode_pages: paged_listing "linode_page E P i name" "\<lambda>c. recs (cl_net c)"
  "\<lambda>_. serves_pages E (linode_headers P (record_filter E name)) (linode_recordsURL P i) (ae_linodeRecords E) recs (counts_pages 500) 500" 500 for E P i name recs
  unfolding linode_page_def [abs_def] linode_do_def by (rule paged_listingI, simp) (rule stop_by_count; simp)

interpretation do_pages: paged_listing "do_page E P zone rel" "\<lambda>c. recs (cl_net c)"
  "\<lambda>_. serves_pages E (bearer P) (do_recordsURL P zone rel) (ae_doRecords E) recs (links_next 200) 200" 200 for E P zone rel recs
  unfolding do_page_def [abs_def] do_do_def by (rule paged_listingI, simp) (rule stop_by_link; simp)

interpretation cf_pages: paged_listing "cf_page E P i fqdn" "\<lambda>c. recs (cl_net c)"
  "\<lambda>_. serves_pages E (bearer P) (cf_recordsURL P i fqdn) (cf_decode E) recs (counts_pages 100) 100" 100 for E P i fqdn recs
  unfolding cf_page_def [abs_def] cf_do_def by (rule paged_listingI, simp) (rule stop_by_count; simp)

interpretation hetzner_pages: paged_listing "hetzner_page E P i" "\<lambda>c. recs (cl_net c)"
  "\<lambda>_. serves_pages E [(''Auth-API-Token'', ps_token P)] (hetzner_recordsURL P i) (ae_hetznerRecords E) recs (counts_pages 100) 100" 100 for E P i recs
  unfolding hetzner_page_def [abs_def] hetzner_do_def
  by (rule paged_listingI, simp) (rule stop_by_count [unfolded disj_commute [of "_ \<le> _"]]; simp)

section \<open>DigitalOcean behind the interface\<close>

text \<open>What DigitalOcean documents for the records of one name, \<open>recs s\<close>: identifiers are unique; a successful \<open>POST\<close>
  adds the record of its body under a new identifier; a successful \<open>PUT\<close> replaces the data of the record of
  its path; a successful \<open>DELETE\<close> removes it.\<close>

definition accepted :: "'s apiEnv \<Rightarrow> apiRequest \<Rightarrow> 's \<Rightarrow> 's \<Rightarrow> bool" where
  "accepted E req s s' \<longleftrightarrow> (\<exists>resp. ae_Do E req s = (s', Inr resp) \<and> 200 \<le> as_StatusCode resp \<and> as_StatusCode resp < 300)"

definition has_body :: "'s apiEnv \<Rightarrow> apiRequest \<Rightarrow> (string \<times> jsonValue) list \<Rightarrow> bool" where
  "has_body E req fs \<longleftrightarrow> (\<exists>b. ar_Body req = Some b \<and> ae_Marshal E (JObject fs) = Inr b)"

definition do_service :: "'s apiEnv \<Rightarrow> providerSettings \<Rightarrow> string \<Rightarrow> string \<Rightarrow> ('s \<Rightarrow> doRecord list) \<Rightarrow> bool" where
  "do_service E P zone rel recs \<longleftrightarrow>
     serves_pages E (bearer P) (do_recordsURL P zone rel) (ae_doRecords E) recs (links_next 200) 200 \<and>
     (\<forall>s. distinct (map dor_ID (recs s))) \<and>
     (\<forall>req s s' fs v. accepted E req s s' \<longrightarrow> ar_Method req = ''POST'' \<longrightarrow>
        ar_URL req = ps_baseURL P @ ''/domains/'' @ zone @ ''/records'' \<longrightarrow> has_body E req fs \<longrightarrow>
        map_of fs ''type'' = Some (JString ''TXT'') \<longrightarrow> map_of fs ''name'' = Some (JString rel) \<longrightarrow> map_of fs ''data'' = Some (JString v) \<longrightarrow>
        (\<exists>i. i \<notin> dor_ID ` set (recs s) \<and> recs s' = recs s @ [\<lparr>dor_ID = i, dor_Type = ''TXT'', dor_Name = rel, dor_Data = v\<rparr>])) \<and>
     (\<forall>req s s' fs v i. accepted E req s s' \<longrightarrow> ar_Method req = ''PUT'' \<longrightarrow>
        ar_URL req = ps_baseURL P @ ''/domains/'' @ zone @ ''/records/'' @ itoa i \<longrightarrow> has_body E req fs \<longrightarrow>
        map_of fs ''type'' = Some (JString ''TXT'') \<longrightarrow> map_of fs ''name'' = None \<longrightarrow> map_of fs ''data'' = Some (JString v) \<longrightarrow>
        i \<in> dor_ID ` set (recs s) \<longrightarrow> recs s' = map (\<lambda>r. if dor_ID r = i then r\<lparr>dor_Data := v\<rparr> else r) (recs s)) \<and>
     (\<forall>req s s' i. accepted E req s s' \<longrightarrow> ar_Method req = ''DELETE'' \<longrightarrow>
        ar_URL req = ps_baseURL P @ ''/domains/'' @ zone @ ''/records/'' @ itoa i \<longrightarrow>
        i \<in> dor_ID ` set (recs s) \<longrightarrow> recs s' = filter (\<lambda>r. dor_ID r \<noteq> i) (recs s))"

text \<open>The records of the interface, and the table of a state.\<close>

definition do_records :: "string \<Rightarrow> ('s \<Rightarrow> doRecord list) \<Rightarrow> 's apiClient \<Rightarrow> TXTRecord list" where
  "do_records rel recs c = List.map_filter (do_pick rel) (recs (cl_net c))"

definition do_table :: "string \<Rightarrow> ('s \<Rightarrow> doRecord list) \<Rightarrow> 's apiClient \<Rightarrow> string \<Rightarrow> string option" where
  "do_table rel recs c = map_of (map (\<lambda>r. (tx_ID r, tx_Value r)) (do_records rel recs c))"

lemma map_filter_Cons: "List.map_filter f (x # xs) = (case f x of None \<Rightarrow> List.map_filter f xs | Some y \<Rightarrow> y # List.map_filter f xs)"
  by (simp add: map_filter_def split: option.splits)

lemma map_filter_Nil: "List.map_filter f [] = []"
  by (simp add: map_filter_def)

lemmas map_filter_simps = map_filter_Cons map_filter_Nil

lemma do_pick_ids: "tx_ID ` set (List.map_filter (do_pick rel) rs) \<subseteq> itoa ` dor_ID ` set rs"
  by (induction rs) (auto simp: map_filter_simps do_pick_def split: option.splits if_splits)

lemma do_pick_distinct: "distinct (map dor_ID rs) \<Longrightarrow> distinct (map tx_ID (List.map_filter (do_pick rel) rs))"
proof (induction rs)
  case (Cons r rs)
  then have "itoa (dor_ID r) \<notin> tx_ID ` set (List.map_filter (do_pick rel) rs)"
    using do_pick_ids [of rel rs] by (auto simp: itoa_inject)
  moreover have "do_pick rel r = None \<or> (\<exists>t. do_pick rel r = Some t \<and> tx_ID t = itoa (dor_ID r))" by (auto simp: do_pick_def)
  ultimately show ?case using Cons by (auto simp: map_filter_simps)
qed (simp add: map_filter_simps)

lemma do_pick_update:
  "List.map_filter (do_pick rel) (map (\<lambda>r. if dor_ID r = i then r\<lparr>dor_Data := v\<rparr> else r) rs) =
    map (\<lambda>t. if tx_ID t = itoa i then t\<lparr>tx_Value := v\<rparr> else t) (List.map_filter (do_pick rel) rs)"
  by (induction rs) (auto simp: map_filter_simps do_pick_def itoa_inject)

lemma do_pick_delete:
  "List.map_filter (do_pick rel) (filter (\<lambda>r. dor_ID r \<noteq> i) rs) = filter (\<lambda>t. tx_ID t \<noteq> itoa i) (List.map_filter (do_pick rel) rs)"
  by (induction rs) (auto simp: map_filter_simps do_pick_def itoa_inject)

lemma outcome_None: "outcome p = (c', None) \<longleftrightarrow> (\<exists>a. p = (c', Inr a))"
  by (cases p; cases "snd p") (auto simp: outcome_def)

lemma do_do_accepted:
  assumes "do_do E P meth url body c = (c', Inr dat)"
  obtains req where "ar_Method req = meth" and "ar_URL req = url" and "accepted E req (cl_net c) (cl_net c')"
    and "\<forall>fs. body = Some (JObject fs) \<longrightarrow> has_body E req fs"
  using assms unfolding do_do_def
  by (rule doJSON_Inr) (rule that; force simp: accepted_def has_body_def)

lemma do_known:
  "i \<in> dom (do_table rel recs c) \<Longrightarrow> \<exists>j. i = itoa j \<and> j \<in> dor_ID ` set (recs (cl_net c))"
proof -
  assume "i \<in> dom (do_table rel recs c)"
  then have "i \<in> tx_ID ` set (do_records rel recs c)" by (auto simp: do_table_def dest!: map_of_SomeD)
  then show ?thesis using do_pick_ids [of rel "recs (cl_net c)"] unfolding do_records_def by blast
qed

lemma do_list_law:
  assumes "do_service E P zone (doRelName name) recs" and "listed c (do_ListTXT E P zone name c) = (c', r)"
  shows "do_table (doRelName name) recs c' = do_table (doRelName name) recs c \<and>
    (\<forall>rs. r = Inr rs \<longrightarrow> listing (do_table (doRelName name) recs c) rs)"
proof -
  let ?rel = "doRelName name"
  have sp: "serves_pages E (bearer P) (do_recordsURL P zone ?rel) (ae_doRecords E) recs (links_next 200) 200"
    and dist: "distinct (map dor_ID (recs s))" for s
    using assms(1) unfolding do_service_def by simp_all
  obtain c1 r1 where l: "do_ListTXT E P zone name c = Some (c1, r1)" and "recs (cl_net c1) = recs (cl_net c)"
    "\<forall>rs. r1 = Inr rs \<longrightarrow> rs = do_records ?rel recs c"
    using do_pages.page_loop_complete [OF sp] unfolding do_ListTXT_def do_records_def by blast
  moreover have "c1 = c'" "r1 = r" using assms(2) l by (simp_all add: listed_def)
  ultimately show ?thesis
    using do_pick_distinct [OF dist] by (auto simp: do_table_def listing_def do_records_def)
qed

lemma do_create_law:
  assumes srv: "do_service E P zone (doRelName name) recs" and "do_CreateTXT E P zone name v c = (c', Inr dat)"
  shows "\<exists>i. do_table (doRelName name) recs c i = None \<and>
    do_table (doRelName name) recs c' = (do_table (doRelName name) recs c)(i \<mapsto> v)"
proof -
  let ?rel = "doRelName name" and ?fs = "do_recordBody P v @ [(''type'', JString ''TXT''), (''name'', JString (doRelName name))]"
  from assms(2) obtain req where req: "ar_Method req = ''POST''" "ar_URL req = ps_baseURL P @ ''/domains/'' @ zone @ ''/records''"
    "accepted E req (cl_net c) (cl_net c')" "has_body E req ?fs"
    unfolding do_CreateTXT_def by (auto elim: do_do_accepted)
  have fs: "map_of ?fs ''type'' = Some (JString ''TXT'')" "map_of ?fs ''name'' = Some (JString ?rel)" "map_of ?fs ''data'' = Some (JString v)"
    by (simp_all add: do_recordBody_def ttlField_def)
  from srv [unfolded do_service_def, THEN conjunct2, THEN conjunct2, THEN conjunct1, rule_format, OF req(3,1,2,4) fs]
  obtain i where i: "i \<notin> dor_ID ` set (recs (cl_net c))"
    "recs (cl_net c') = recs (cl_net c) @ [\<lparr>dor_ID = i, dor_Type = ''TXT'', dor_Name = ?rel, dor_Data = v\<rparr>]" by blast
  have "do_records ?rel recs c' = do_records ?rel recs c @ [\<lparr>tx_ID = itoa i, tx_Value = v\<rparr>]"
    unfolding do_records_def i(2) by (simp add: map_filter_def do_pick_def equalFold_def)
  moreover have "itoa i \<notin> tx_ID ` set (do_records ?rel recs c)"
    using do_pick_ids [of ?rel "recs (cl_net c)"] i(1) by (auto simp: do_records_def itoa_inject)
  then have none: "do_table ?rel recs c (itoa i) = None" by (simp add: do_table_def map_of_eq_None_iff image_image)
  ultimately show ?thesis using table_create [OF none [unfolded do_table_def], of v] unfolding do_table_def by auto
qed

lemma do_update_law:
  assumes srv: "do_service E P zone rel recs" and "do_UpdateTXT E P zone i v c = (c', Inr dat)" and dom: "i \<in> dom (do_table rel recs c)"
  shows "do_table rel recs c' = (do_table rel recs c)(i \<mapsto> v)"
proof -
  let ?fs = "do_recordBody P v @ [(''type'', JString ''TXT'')]"
  obtain j where j: "i = itoa j" "j \<in> dor_ID ` set (recs (cl_net c))" using do_known [OF dom] by blast
  from assms(2) obtain req where req: "ar_Method req = ''PUT''"
    "ar_URL req = ps_baseURL P @ ''/domains/'' @ zone @ ''/records/'' @ itoa j" "accepted E req (cl_net c) (cl_net c')" "has_body E req ?fs"
    unfolding do_UpdateTXT_def j(1) by (auto elim: do_do_accepted)
  have fs: "map_of ?fs ''type'' = Some (JString ''TXT'')" "map_of ?fs ''name'' = None" "map_of ?fs ''data'' = Some (JString v)"
    by (simp_all add: do_recordBody_def ttlField_def)
  from srv [unfolded do_service_def, THEN conjunct2, THEN conjunct2, THEN conjunct2, THEN conjunct1, rule_format, OF req(3,1,2,4) fs j(2)]
  have "do_records rel recs c' = map (\<lambda>t. if tx_ID t = i then t\<lparr>tx_Value := v\<rparr> else t) (do_records rel recs c)"
    by (simp add: do_records_def do_pick_update j(1))
  then show ?thesis using dom table_update [of "do_records rel recs c" i _ v] by (auto simp: do_table_def)
qed

lemma do_delete_law:
  assumes srv: "do_service E P zone rel recs" and "do_DeleteTXT E P zone i c = (c', Inr dat)" and dom: "i \<in> dom (do_table rel recs c)"
  shows "do_table rel recs c' = (do_table rel recs c)(i := None)"
proof -
  obtain j where j: "i = itoa j" "j \<in> dor_ID ` set (recs (cl_net c))" using do_known [OF dom] by blast
  from assms(2) obtain req where req: "ar_Method req = ''DELETE''"
    "ar_URL req = ps_baseURL P @ ''/domains/'' @ zone @ ''/records/'' @ itoa j" "accepted E req (cl_net c) (cl_net c')"
    unfolding do_DeleteTXT_def j(1) by (auto elim: do_do_accepted)
  from srv [unfolded do_service_def, THEN conjunct2, THEN conjunct2, THEN conjunct2, THEN conjunct2, rule_format, OF req(3,1,2) j(2)]
  show ?thesis by (simp add: do_table_def do_records_def do_pick_delete j(1) table_delete)
qed

lemma do_provider_ok:
  assumes "do_service E P zone (doRelName name) recs"
  shows "provider_ok (do_provider E P) zone name (do_table (doRelName name) recs)"
  unfolding provider_ok_def do_provider_def
  by (intro conjI allI impI)
    (auto simp: outcome_None dest: do_list_law [OF assms] do_create_law [OF assms] do_update_law [OF assms] do_delete_law [OF assms])

end
