(* ===== verification/DnsRRset.thy ===== *)
theory DnsRRset
  imports DnsApi "HOL-Library.Product_Lexorder"
begin

text \<open>
  The other DNS providers (\<open>src/internal/dnsprovider/\<close>): \<open>desec.go\<close> and \<open>route53.go\<close>, whose API has whole record
  sets, and \<open>ovh.go\<close>, whose writes are staged. Route 53 and OVH sign their requests: the hash functions and
  encodings are the fields of \<open>signEnv\<close>. The first part is the code; then deSEC is shown to meet the interface of
  the drop, requests are shown to stay at the API's address, and what Route 53 signs is what it sends.
\<close>

section \<open>deSEC\<close>

definition urlSubname :: "string \<Rightarrow> string" where
  "urlSubname name0 = (let name = trimSuffix name0 ''.'' in if name = [] \<or> name = ''@'' then ''@'' else name)"

definition bodySubname :: "string \<Rightarrow> string" where
  "bodySubname name0 = (let name = trimSuffix name0 ''.'' in if name = ''@'' then [] else name)"

definition desecID :: "string \<Rightarrow> string \<Rightarrow> string" where
  "desecID name v = name @ ''/'' @ v"

definition splitDesecID :: "string \<Rightarrow> string \<times> string" where
  "splitDesecID i = (case cutOn (CHR ''/'') i of Some p \<Rightarrow> p | None \<Rightarrow> ([], i))"

definition rrsetURL :: "providerSettings \<Rightarrow> string \<Rightarrow> string \<Rightarrow> string" where
  "rrsetURL P zone name = ps_baseURL P @ ''/domains/'' @ zone @ ''/rrsets/'' @ urlSubname name @ ''/TXT/''"

definition rrsetsURL :: "providerSettings \<Rightarrow> string \<Rightarrow> string" where
  "rrsetsURL P zone = ps_baseURL P @ ''/domains/'' @ zone @ ''/rrsets/''"

text \<open>The records of an RRset body; \<open>decodeRRset\<close> is \<open>json.Unmarshal\<close> into it.\<close>

definition desec_do ::
  "'s apiEnv \<Rightarrow> providerSettings \<Rightarrow> string \<Rightarrow> string \<Rightarrow> jsonValue option \<Rightarrow> 's apiClient \<Rightarrow> 's apiClient \<times> (int \<times> bytes) res" where
  "desec_do E P meth url body = doJSONRaw E ''desec'' meth url body [(''Authorization'', ''Token '' @ ps_token P)]"

definition desecErrReason :: "'s apiEnv \<Rightarrow> bytes \<Rightarrow> string" where
  "desecErrReason E = messageReason E ''detail''"

definition getRecords ::
  "'s apiEnv \<Rightarrow> (bytes \<Rightarrow> string list res) \<Rightarrow> providerSettings \<Rightarrow> string \<Rightarrow> string \<Rightarrow> 's apiClient \<Rightarrow> 's apiClient \<times> string list res" where
  "getRecords E decodeRRset P zone name =
     sbind (desec_do E P ''GET'' (rrsetURL P zone name) None) (\<lambda>(status, dat).
       if status = 404 then spure (Inr [])
       else spure (bindR (statusR ''desec'' (desecErrReason E) (status, dat)) (\<lambda>dat.
         bindR (wrapR ''decode desec rrset'' (decodeRRset dat)) (\<lambda>rs. Inr (map unquoteTXT rs)))))"

definition deleteRRset ::
  "'s apiEnv \<Rightarrow> providerSettings \<Rightarrow> string \<Rightarrow> string \<Rightarrow> 's apiClient \<Rightarrow> 's apiClient \<times> bytes res" where
  "deleteRRset E P zone name =
     sbind (desec_do E P ''DELETE'' (rrsetURL P zone name) None) (\<lambda>r. spure (statusR ''desec'' (desecErrReason E) r))"

definition rrset_body :: "providerSettings \<Rightarrow> string \<Rightarrow> string list \<Rightarrow> jsonValue" where
  "rrset_body P name vs =
     JObject [(''subname'', JString (bodySubname name)), (''type'', JString ''TXT''), (''ttl'', JInt (ps_ttl P)),
       (''records'', JList (map (\<lambda>v. JString (quoteTXT v)) vs))]"

definition putRecords ::
  "'s apiEnv \<Rightarrow> providerSettings \<Rightarrow> string \<Rightarrow> string \<Rightarrow> string list \<Rightarrow> 's apiClient \<Rightarrow> 's apiClient \<times> bytes res" where
  "putRecords E P zone name vs =
     (if vs = [] then deleteRRset E P zone name
      else sbind (desec_do E P ''PUT'' (rrsetURL P zone name) (Some (rrset_body P name vs))) (\<lambda>(status, dat).
        if status = 404
        then sbind (desec_do E P ''POST'' (rrsetsURL P zone) (Some (rrset_body P name vs))) (\<lambda>r. spure (statusR ''desec'' (desecErrReason E) r))
        else spure (statusR ''desec'' (desecErrReason E) (status, dat))))"

definition desec_ReplaceTXT ::
  "'s apiEnv \<Rightarrow> providerSettings \<Rightarrow> string \<Rightarrow> string \<Rightarrow> string list \<Rightarrow> 's apiClient \<Rightarrow> 's apiClient \<times> bytes res" where
  "desec_ReplaceTXT E P zone name vs = putRecords E P zone name vs"

definition desec_ListTXT ::
  "'s apiEnv \<Rightarrow> (bytes \<Rightarrow> string list res) \<Rightarrow> providerSettings \<Rightarrow> string \<Rightarrow> string \<Rightarrow> 's apiClient \<Rightarrow> 's apiClient \<times> TXTRecord list res" where
  "desec_ListTXT E decodeRRset P zone name =
     sbind (getRecords E decodeRRset P zone name) (\<lambda>vs. spure (Inr (map (\<lambda>v. \<lparr>tx_ID = desecID name v, tx_Value = v\<rparr>) vs)))"

definition desec_CreateTXT ::
  "'s apiEnv \<Rightarrow> (bytes \<Rightarrow> string list res) \<Rightarrow> providerSettings \<Rightarrow> string \<Rightarrow> string \<Rightarrow> string \<Rightarrow> 's apiClient \<Rightarrow> 's apiClient \<times> bytes res" where
  "desec_CreateTXT E decodeRRset P zone name v =
     sbind (getRecords E decodeRRset P zone name) (\<lambda>vs. putRecords E P zone name (vs @ [v]))"

text \<open>The loop that replaces the first value that matches.\<close>

fun replaceFirst :: "string \<Rightarrow> string \<Rightarrow> string list \<Rightarrow> string list" where
  "replaceFirst old v [] = []"
| "replaceFirst old v (x # xs) = (if x = old then v # xs else x # replaceFirst old v xs)"

definition desec_UpdateTXT ::
  "'s apiEnv \<Rightarrow> (bytes \<Rightarrow> string list res) \<Rightarrow> providerSettings \<Rightarrow> string \<Rightarrow> string \<Rightarrow> string \<Rightarrow> 's apiClient \<Rightarrow> 's apiClient \<times> bytes res" where
  "desec_UpdateTXT E decodeRRset P zone i v =
     (let (name, old) = splitDesecID i
      in sbind (getRecords E decodeRRset P zone name) (\<lambda>vs. putRecords E P zone name (replaceFirst old v vs)))"

definition desec_DeleteTXT ::
  "'s apiEnv \<Rightarrow> (bytes \<Rightarrow> string list res) \<Rightarrow> providerSettings \<Rightarrow> string \<Rightarrow> string \<Rightarrow> 's apiClient \<Rightarrow> 's apiClient \<times> bytes res" where
  "desec_DeleteTXT E decodeRRset P zone i =
     (let (name, old) = splitDesecID i
      in sbind (getRecords E decodeRRset P zone name) (\<lambda>vs. putRecords E P zone name (filter (\<lambda>v. v \<noteq> old) vs)))"

definition desec_provider :: "'s apiEnv \<Rightarrow> (bytes \<Rightarrow> string list res) \<Rightarrow> providerSettings \<Rightarrow> 's apiClient provider" where
  "desec_provider E decodeRRset P =
     \<lparr>pv_ListTXT = (\<lambda>c zone name. desec_ListTXT E decodeRRset P zone name c),
      pv_CreateTXT = (\<lambda>c zone name v. outcome (desec_CreateTXT E decodeRRset P zone name v c)),
      pv_UpdateTXT = (\<lambda>c zone i v. outcome (desec_UpdateTXT E decodeRRset P zone i v c)),
      pv_DeleteTXT = (\<lambda>c zone i. outcome (desec_DeleteTXT E decodeRRset P zone i c)),
      pv_ReplaceTXT = Some (\<lambda>c zone name vs. outcome (desec_ReplaceTXT E P zone name vs c)), pv_Flush = None\<rparr>"

section \<open>OVH\<close>

text \<open>The clock in seconds, \<open>time.Now().Unix()\<close>, is a function of the state; its first argument tells two reads in
  one state apart. Its differences are those of \<open>int64\<close>, and wrap around; the server's time is parsed with the range check of
  \<open>strconv.ParseInt\<close>.\<close>

record ovhRecord =
  ovr_ID :: int
  ovr_SubDomain :: string
  ovr_FieldType :: string
  ovr_Target :: string

record 's signEnv =
  sg_Unix :: "nat \<Rightarrow> 's \<Rightarrow> int"
  sg_sha1 :: "bytes \<Rightarrow> bytes"
  sg_sha256 :: "bytes \<Rightarrow> bytes"
  sg_hmac :: "bytes \<Rightarrow> bytes \<Rightarrow> bytes"
  sg_ovhIDs :: "bytes \<Rightarrow> int list res"
  sg_ovhRecord :: "bytes \<Rightarrow> ovhRecord res"

definition serverTime :: "'s apiEnv \<Rightarrow> providerSettings \<Rightarrow> 's apiClient \<Rightarrow> 's apiClient \<times> int res" where
  "serverTime E P =
     sbind (client_send E ''create ovh time request'' ''ovh time request'' 64 ''read ovh server time''
         \<lparr>ar_Method = ''GET'', ar_URL = ps_baseURL P @ ''/auth/time'', ar_Header = [], ar_Body = None\<rparr>)
       (\<lambda>r. spure (bindR (statusR ''ovh'' (messageReason E ''message'') r) (\<lambda>dat.
          case atoi (trimSpace dat) of None \<Rightarrow> Inl (Wrap ''parse ovh server time'' (Err ''strconv'')) | Some t \<Rightarrow> Inr t)))"

definition sub64 :: "int \<Rightarrow> int \<Rightarrow> int" where
  "sub64 a b = sint (word_of_int (a - b) :: 64 word)"

definition timestamp :: "'s apiEnv \<Rightarrow> 's signEnv \<Rightarrow> providerSettings \<Rightarrow> 's apiClient \<Rightarrow> 's apiClient \<times> int res" where
  "timestamp E S P c =
     (case cl_delta c of
        Some delta \<Rightarrow> (c, Inr (sub64 (sg_Unix S 1 (cl_net c)) delta))
      | None \<Rightarrow>
          sbind (serverTime E P) (\<lambda>st c.
            let delta = sub64 (sg_Unix S 0 (cl_net c)) st
            in (c\<lparr>cl_delta := Some delta\<rparr>, Inr (sub64 (sg_Unix S 1 (cl_net c)) delta))) c)"

definition ovh_sign :: "'s signEnv \<Rightarrow> providerSettings \<Rightarrow> string \<Rightarrow> string \<Rightarrow> bytes \<Rightarrow> int \<Rightarrow> string" where
  "ovh_sign S P meth fullURL body ts =
     ''$1$'' @ hex_encode (sg_sha1 S (ps_appSecret P @ ''+'' @ ps_consumerKey P @ ''+'' @ meth @ ''+'' @ fullURL @ ''+'' @ body @ ''+'' @ itoa ts))"

definition ovh_do ::
  "'s apiEnv \<Rightarrow> 's signEnv \<Rightarrow> providerSettings \<Rightarrow> string \<Rightarrow> string \<Rightarrow> string \<Rightarrow> jsonValue option \<Rightarrow> 's apiClient \<Rightarrow> 's apiClient \<times> bytes res" where
  "ovh_do E S P meth path rawQuery reqBody =
     (let fullURL = ps_baseURL P @ path @ (if rawQuery \<noteq> [] then ''?'' @ rawQuery else [])
      in sbind (spure (jsonBody E ''ovh'' reqBody)) (\<lambda>body.
         sbind (timestamp E S P) (\<lambda>ts.
         sbind (client_send E ''create ovh request'' ''ovh API request'' apiResponseLimit ''read ovh response''
             \<lparr>ar_Method = meth, ar_URL = fullURL,
              ar_Header = [(''X-Ovh-Application'', ps_appKey P), (''X-Ovh-Consumer'', ps_consumerKey P), (''X-Ovh-Timestamp'', itoa ts),
                (''X-Ovh-Signature'', ovh_sign S P meth fullURL (case body of Some b \<Rightarrow> b | None \<Rightarrow> []) ts)] @
                (if body \<noteq> None then [(''Content-Type'', ''application/json;charset=utf-8'')] else []),
              ar_Body = body\<rparr>)
           (\<lambda>r. spure (statusR ''ovh'' (messageReason E ''message'') r)))))"

definition ovh_pick :: "string \<Rightarrow> ovhRecord \<Rightarrow> TXTRecord option" where
  "ovh_pick name r =
     (if ovr_FieldType r = ''TXT'' \<and> equalFold (ovr_SubDomain r) name then Some \<lparr>tx_ID = itoa (ovr_ID r), tx_Value = ovr_Target r\<rparr> else None)"

fun ovh_fetch ::
  "'s apiEnv \<Rightarrow> 's signEnv \<Rightarrow> providerSettings \<Rightarrow> string \<Rightarrow> string \<Rightarrow> int list \<Rightarrow> 's apiClient \<Rightarrow> 's apiClient \<times> TXTRecord list res" where
  "ovh_fetch E S P zone name [] = spure (Inr [])"
| "ovh_fetch E S P zone name (i # is) =
     sbind (sbind (ovh_do E S P ''GET'' (''/domain/zone/'' @ zone @ ''/record/'' @ itoa i) [] None)
              (\<lambda>dat. spure (wrapR ''decode ovh response'' (sg_ovhRecord S dat)))) (\<lambda>r.
     sbind (ovh_fetch E S P zone name is) (\<lambda>rest.
       spure (Inr ((case ovh_pick name r of None \<Rightarrow> [] | Some t \<Rightarrow> [t]) @ rest))))"

definition ovh_ListTXT ::
  "'s apiEnv \<Rightarrow> 's signEnv \<Rightarrow> providerSettings \<Rightarrow> string \<Rightarrow> string \<Rightarrow> 's apiClient \<Rightarrow> 's apiClient \<times> TXTRecord list res" where
  "ovh_ListTXT E S P zone name =
     sbind (sbind (ovh_do E S P ''GET'' (''/domain/zone/'' @ zone @ ''/record'')
                (values_Encode [(''fieldType'', ''TXT''), (''subDomain'', name)]) None)
              (\<lambda>dat. spure (wrapR ''decode ovh response'' (sg_ovhIDs S dat))))
       (ovh_fetch E S P zone name)"

definition omitempty :: "string \<Rightarrow> string \<Rightarrow> (string \<times> jsonValue) list" where
  "omitempty key v = (if v = [] then [] else [(key, JString v)])"

definition ovh_body :: "providerSettings \<Rightarrow> string \<Rightarrow> string \<Rightarrow> string \<Rightarrow> jsonValue" where
  "ovh_body P sub typ target =
     JObject (omitempty ''subDomain'' sub @ omitempty ''fieldType'' typ @ omitempty ''target'' target @
       (if ps_ttl P = 0 then [] else [(''ttl'', JInt (ps_ttl P))]))"

definition ovh_CreateTXT ::
  "'s apiEnv \<Rightarrow> 's signEnv \<Rightarrow> providerSettings \<Rightarrow> string \<Rightarrow> string \<Rightarrow> string \<Rightarrow> 's apiClient \<Rightarrow> 's apiClient \<times> bytes res" where
  "ovh_CreateTXT E S P zone name v =
     ovh_do E S P ''POST'' (''/domain/zone/'' @ zone @ ''/record'') [] (Some (ovh_body P name ''TXT'' v))"

definition ovh_UpdateTXT ::
  "'s apiEnv \<Rightarrow> 's signEnv \<Rightarrow> providerSettings \<Rightarrow> string \<Rightarrow> string \<Rightarrow> string \<Rightarrow> 's apiClient \<Rightarrow> 's apiClient \<times> bytes res" where
  "ovh_UpdateTXT E S P zone recordID v =
     ovh_do E S P ''PUT'' (''/domain/zone/'' @ zone @ ''/record/'' @ recordID) [] (Some (ovh_body P [] [] v))"

definition ovh_DeleteTXT ::
  "'s apiEnv \<Rightarrow> 's signEnv \<Rightarrow> providerSettings \<Rightarrow> string \<Rightarrow> string \<Rightarrow> 's apiClient \<Rightarrow> 's apiClient \<times> bytes res" where
  "ovh_DeleteTXT E S P zone recordID =
     ovh_do E S P ''DELETE'' (''/domain/zone/'' @ zone @ ''/record/'' @ recordID) [] None"

definition ovh_Flush :: "'s apiEnv \<Rightarrow> 's signEnv \<Rightarrow> providerSettings \<Rightarrow> string \<Rightarrow> 's apiClient \<Rightarrow> 's apiClient \<times> bytes res" where
  "ovh_Flush E S P zone = ovh_do E S P ''POST'' (''/domain/zone/'' @ zone @ ''/refresh'') [] None"

definition ovh_provider :: "'s apiEnv \<Rightarrow> 's signEnv \<Rightarrow> providerSettings \<Rightarrow> 's apiClient provider" where
  "ovh_provider E S P =
     \<lparr>pv_ListTXT = (\<lambda>c zone name. ovh_ListTXT E S P zone name c),
      pv_CreateTXT = (\<lambda>c zone name v. outcome (ovh_CreateTXT E S P zone name v c)),
      pv_UpdateTXT = (\<lambda>c zone i v. outcome (ovh_UpdateTXT E S P zone i v c)),
      pv_DeleteTXT = (\<lambda>c zone i. outcome (ovh_DeleteTXT E S P zone i c)),
      pv_ReplaceTXT = None, pv_Flush = Some (\<lambda>c zone. outcome (ovh_Flush E S P zone c))\<rparr>"

section \<open>Route 53\<close>

definition route53APIVersion :: string where "route53APIVersion = ''2013-04-01''"
definition route53Region :: string where "route53Region = ''us-east-1''"
definition route53Service :: string where "route53Service = ''route53''"
definition route53XMLNS :: string where "route53XMLNS = ''https://route53.amazonaws.com/doc/2013-04-01/''"

record r53RRSet =
  rr_Name :: string
  rr_Type :: string
  rr_TTL :: int
  rr_Records :: "string list"

record r53HostedZone =
  hzn_ID :: string
  hzn_Name :: string

record changeRRSetsRequest =
  cq_XMLNS :: string
  cq_Changes :: "(string \<times> r53RRSet) list"

text \<open>\<open>encoding/xml\<close>, for the request and the responses.\<close>

record xmlEnv =
  xe_Marshal :: "changeRRSetsRequest \<Rightarrow> bytes res"
  xe_Zones :: "bytes \<Rightarrow> r53HostedZone list res"
  xe_RRSets :: "bytes \<Rightarrow> r53RRSet list res"
  xe_Error :: "bytes \<Rightarrow> (string \<times> string) res"

definition awsURIEncode :: "string \<Rightarrow> string" where
  "awsURIEncode s = concat (map (\<lambda>c. if c = CHR ''+'' then ''%20'' else [c]) (queryEscape s))"

text \<open>The keys in order, and the values of each key in order: the pairs in lexicographic order.\<close>

definition awsCanonicalQuery :: "(string \<times> string) list \<Rightarrow> string" where
  "awsCanonicalQuery q =
     joinWith ''&'' (map (\<lambda>(k, v). awsURIEncode k @ ''='' @ awsURIEncode v) (sort q))"

text \<open>\<open>url.QueryUnescape\<close> and \<open>URL.Query\<close>: pairs that have a semicolon or do not unescape are dropped.\<close>

fun queryUnescape :: "string \<Rightarrow> string option" where
  "queryUnescape [] = Some []"
| "queryUnescape (c # cs) =
     (if c = CHR ''%'' then
        (case cs of
           a # b # rest \<Rightarrow>
             (case (hex_val a, hex_val b) of
                (Some x, Some y) \<Rightarrow> map_option ((#) (char_of (16 * x + y))) (queryUnescape rest)
              | _ \<Rightarrow> None)
         | _ \<Rightarrow> None)
      else if c = CHR ''+'' then map_option ((#) (CHR '' '')) (queryUnescape cs)
      else map_option ((#) c) (queryUnescape cs))"

definition parsePair :: "string \<Rightarrow> (string \<times> string) option" where
  "parsePair part =
     (if CHR '';'' \<in> set part \<or> part = [] then None
      else let (k, v) = cut (CHR ''='') part
           in case (queryUnescape k, queryUnescape v) of (Some k', Some v') \<Rightarrow> Some (k', v') | _ \<Rightarrow> None)"

definition url_Query :: "string \<Rightarrow> (string \<times> string) list" where
  "url_Query raw = List.map_filter parsePair (splitOn (CHR ''&'') raw)"

definition sha256Hex :: "'s signEnv \<Rightarrow> bytes \<Rightarrow> string" where
  "sha256Hex S b = hex_encode (sg_sha256 S b)"

definition awsSigningKey :: "'s signEnv \<Rightarrow> string \<Rightarrow> string \<Rightarrow> string \<Rightarrow> string \<Rightarrow> bytes" where
  "awsSigningKey S secret dateStamp region service =
     (let kDate = sg_hmac S (''AWS4'' @ secret) dateStamp;
          kRegion = sg_hmac S kDate region;
          kService = sg_hmac S kRegion service
      in sg_hmac S kService ''aws4_request'')"

text \<open>The date of a day number since 1970-01-01 in the proleptic Gregorian calendar, and \<open>Format(''20060102'')\<close>
  and \<open>Format(''20060102T150405Z'')\<close> of a time in seconds, for years of four digits.\<close>

definition civil :: "int \<Rightarrow> int \<times> int \<times> int" where
  "civil days =
     (let z = days + 719468;
          era = z div 146097;
          doe = z mod 146097;
          yoe = (doe - doe div 1460 + doe div 36524 - doe div 146096) div 365;
          doy = doe - (365 * yoe + yoe div 4 - yoe div 100);
          mp = (5 * doy + 2) div 153;
          d = doy - (153 * mp + 2) div 5 + 1;
          m = (if mp < 10 then mp + 3 else mp - 9);
          y = yoe + era * 400
      in (if m \<le> 2 then y + 1 else y, m, d))"

definition dateStamp_of :: "int \<Rightarrow> string" where
  "dateStamp_of unix =
     (let (y, m, d) = civil (unix div 86400)
      in padLeft 4 (decimal (nat y)) @ padLeft 2 (decimal (nat m)) @ padLeft 2 (decimal (nat d)))"

definition amzDate_of :: "int \<Rightarrow> string" where
  "amzDate_of unix =
     (let t = unix mod 86400
      in dateStamp_of unix @ ''T'' @ padLeft 2 (decimal (nat (t div 3600))) @ padLeft 2 (decimal (nat (t div 60 mod 60))) @
         padLeft 2 (decimal (nat (t mod 60))) @ ''Z'')"

text \<open>What \<open>awsSignV4\<close> signs: \<open>req.Host\<close> of a new request is the host of its URL.\<close>

definition canonicalRequest :: "'s signEnv \<Rightarrow> string \<Rightarrow> url \<Rightarrow> string \<Rightarrow> bytes \<Rightarrow> string" where
  "canonicalRequest S meth u amzDate body =
     joinWith [NL]
       [meth, (if EscapedPath u = [] then ''/'' else EscapedPath u), awsCanonicalQuery (url_Query (u_RawQuery u)),
        ''host:'' @ u_Host u @ [NL] @ ''x-amz-date:'' @ amzDate @ [NL], ''host;x-amz-date'', sha256Hex S body]"

definition awsSignV4 :: "'s signEnv \<Rightarrow> string \<Rightarrow> url \<Rightarrow> string \<Rightarrow> string \<Rightarrow> string \<Rightarrow> string \<Rightarrow> bytes \<Rightarrow> int \<Rightarrow> (string \<times> string) list" where
  "awsSignV4 S meth u accessKey secretKey region service body unix =
     (let amzDate = amzDate_of unix; dateStamp = dateStamp_of unix;
          scope = dateStamp @ ''/'' @ region @ ''/'' @ service @ ''/aws4_request'';
          stringToSign = joinWith [NL] [''AWS4-HMAC-SHA256'', amzDate, scope, sha256Hex S (canonicalRequest S meth u amzDate body)];
          signature = hex_encode (sg_hmac S (awsSigningKey S secretKey dateStamp region service) stringToSign)
      in [(''X-Amz-Date'', amzDate),
          (''Authorization'', ''AWS4-HMAC-SHA256 Credential='' @ accessKey @ ''/'' @ scope @
             '', SignedHeaders=host;x-amz-date, Signature='' @ signature)])"

definition route53ErrReason :: "xmlEnv \<Rightarrow> bytes \<Rightarrow> string" where
  "route53ErrReason X body =
     (case xe_Error X body of
        Inl _ \<Rightarrow> bodyReason body
      | Inr (cd, msg) \<Rightarrow>
          if cd \<noteq> [] \<and> msg \<noteq> [] then cd @ '': '' @ msg
          else if msg \<noteq> [] then msg
          else if cd \<noteq> [] then cd
          else bodyReason body)"

definition r53_do ::
  "'s apiEnv \<Rightarrow> 's signEnv \<Rightarrow> xmlEnv \<Rightarrow> providerSettings \<Rightarrow> string \<Rightarrow> string \<Rightarrow> changeRRSetsRequest option \<Rightarrow> 's apiClient \<Rightarrow> 's apiClient \<times> bytes res" where
  "r53_do E S X P meth reqURL body =
     sbind (spure (case body of
              None \<Rightarrow> Inr None
            | Some v \<Rightarrow> bindR (wrapR ''marshal route53 request'' (xe_Marshal X v)) (\<lambda>b. Inr (Some b)))) (\<lambda>payload c.
       case url_Parse reqURL of
         None \<Rightarrow> (c, Inl (Wrap ''create route53 request'' (Err ''url'')))
       | Some u \<Rightarrow>
           sbind (client_send E ''create route53 request'' ''route53 API request'' apiResponseLimit ''read route53 response''
               \<lparr>ar_Method = meth, ar_URL = reqURL,
                ar_Header = (if payload \<noteq> None then [(''Content-Type'', ''application/xml'')] else []) @
                  awsSignV4 S meth u (ps_accessKey P) (ps_secretKey P) route53Region route53Service
                    (case payload of Some b \<Rightarrow> b | None \<Rightarrow> []) (sg_Unix S 0 (cl_net c)),
                ar_Body = payload\<rparr>)
             (\<lambda>r. spure (statusR ''route53'' (route53ErrReason X) r)) c)"

definition r53FQDN :: "string \<Rightarrow> string \<Rightarrow> string" where
  "r53FQDN name0 zone0 =
     (let zone = trimSuffix zone0 ''.''; name = trimSuffix name0 ''.''
      in if name = [] \<or> name = ''@'' then zone else name @ ''.'' @ zone)"

definition r53ID :: "string \<Rightarrow> string \<Rightarrow> string" where
  "r53ID name v = name @ ''/'' @ v"

definition splitR53ID :: "string \<Rightarrow> string \<times> string" where
  "splitR53ID i = (case cutOn (CHR ''/'') i of Some p \<Rightarrow> p | None \<Rightarrow> ([], i))"

fun r53_find_zone :: "r53HostedZone list \<Rightarrow> string \<Rightarrow> string option" where
  "r53_find_zone [] want = None"
| "r53_find_zone (z # zs) want =
     (if equalFold (trimSuffix (hzn_Name z) ''.'') want then Some (trimPrefix (hzn_ID z) ''/hostedzone/'') else r53_find_zone zs want)"

definition r53_resolveZoneID ::
  "'s apiEnv \<Rightarrow> 's signEnv \<Rightarrow> xmlEnv \<Rightarrow> providerSettings \<Rightarrow> string \<Rightarrow> 's apiClient \<Rightarrow> 's apiClient \<times> string res" where
  "r53_resolveZoneID E S X P zone c =
     (if cl_zoneID c \<noteq> [] then (c, Inr (cl_zoneID c))
      else sbind (r53_do E S X P ''GET''
          (ps_baseURL P @ ''/'' @ route53APIVersion @ ''/hostedzonesbyname?'' @ awsCanonicalQuery [(''dnsname'', zone), (''maxitems'', ''1'')]) None)
        (\<lambda>dat c.
           case wrapR ''decode route53 hosted zones'' (xe_Zones X dat) of
             Inl e \<Rightarrow> (c, Inl e)
           | Inr zs \<Rightarrow>
               (case r53_find_zone zs (trimSuffix zone ''.'') of
                  None \<Rightarrow> (c, Inl (Wrap ''route53: hosted zone not found'' dnsprovider_ErrNotFound))
                | Some i \<Rightarrow> (c\<lparr>cl_zoneID := i\<rparr>, Inr i))) c)"

fun r53_find_rrset :: "r53RRSet list \<Rightarrow> string \<Rightarrow> r53RRSet option" where
  "r53_find_rrset [] fqdn = None"
| "r53_find_rrset (r # rs) fqdn =
     (if equalFold (rr_Type r) ''TXT'' \<and> equalFold (trimSuffix (rr_Name r) ''.'') fqdn then Some r else r53_find_rrset rs fqdn)"

definition getRecordSet ::
  "'s apiEnv \<Rightarrow> 's signEnv \<Rightarrow> xmlEnv \<Rightarrow> providerSettings \<Rightarrow> string \<Rightarrow> string \<Rightarrow> 's apiClient \<Rightarrow> 's apiClient \<times> r53RRSet option res" where
  "getRecordSet E S X P zone name =
     sbind (r53_resolveZoneID E S X P zone) (\<lambda>i.
     sbind (r53_do E S X P ''GET''
         (ps_baseURL P @ ''/'' @ route53APIVersion @ ''/hostedzone/'' @ i @ ''/rrset?'' @
          awsCanonicalQuery [(''name'', r53FQDN name zone), (''type'', ''TXT'')]) None)
       (\<lambda>dat. spure (bindR (wrapR ''decode route53 record sets'' (xe_RRSets X dat)) (\<lambda>rs. Inr (r53_find_rrset rs (r53FQDN name zone))))))"

definition getValues ::
  "'s apiEnv \<Rightarrow> 's signEnv \<Rightarrow> xmlEnv \<Rightarrow> providerSettings \<Rightarrow> string \<Rightarrow> string \<Rightarrow> 's apiClient \<Rightarrow> 's apiClient \<times> string list res" where
  "getValues E S X P zone name =
     sbind (getRecordSet E S X P zone name) (\<lambda>r.
       spure (Inr (case r of None \<Rightarrow> [] | Some rr \<Rightarrow> map unquoteTXT (rr_Records rr))))"

definition r53_change ::
  "'s apiEnv \<Rightarrow> 's signEnv \<Rightarrow> xmlEnv \<Rightarrow> providerSettings \<Rightarrow> string \<Rightarrow> string \<Rightarrow> r53RRSet \<Rightarrow> 's apiClient \<Rightarrow> 's apiClient \<times> bytes res" where
  "r53_change E S X P zone action rr =
     sbind (r53_resolveZoneID E S X P zone) (\<lambda>i.
       r53_do E S X P ''POST'' (ps_baseURL P @ ''/'' @ route53APIVersion @ ''/hostedzone/'' @ i @ ''/rrset/'')
         (Some \<lparr>cq_XMLNS = route53XMLNS, cq_Changes = [(action, rr)]\<rparr>))"

definition deleteRecordSet ::
  "'s apiEnv \<Rightarrow> 's signEnv \<Rightarrow> xmlEnv \<Rightarrow> providerSettings \<Rightarrow> string \<Rightarrow> string \<Rightarrow> 's apiClient \<Rightarrow> 's apiClient \<times> bytes res" where
  "deleteRecordSet E S X P zone name =
     sbind (getRecordSet E S X P zone name) (\<lambda>r.
       case r of None \<Rightarrow> spure (Inr []) | Some rr \<Rightarrow> r53_change E S X P zone ''DELETE'' rr)"

definition putValues ::
  "'s apiEnv \<Rightarrow> 's signEnv \<Rightarrow> xmlEnv \<Rightarrow> providerSettings \<Rightarrow> string \<Rightarrow> string \<Rightarrow> string list \<Rightarrow> 's apiClient \<Rightarrow> 's apiClient \<times> bytes res" where
  "putValues E S X P zone name vs =
     (if vs = [] then deleteRecordSet E S X P zone name
      else r53_change E S X P zone ''UPSERT''
             \<lparr>rr_Name = r53FQDN name zone, rr_Type = ''TXT'', rr_TTL = ps_ttl P, rr_Records = map quoteTXT vs\<rparr>)"

definition r53_ReplaceTXT ::
  "'s apiEnv \<Rightarrow> 's signEnv \<Rightarrow> xmlEnv \<Rightarrow> providerSettings \<Rightarrow> string \<Rightarrow> string \<Rightarrow> string list \<Rightarrow> 's apiClient \<Rightarrow> 's apiClient \<times> bytes res" where
  "r53_ReplaceTXT E S X P zone name vs = putValues E S X P zone name vs"

definition r53_ListTXT ::
  "'s apiEnv \<Rightarrow> 's signEnv \<Rightarrow> xmlEnv \<Rightarrow> providerSettings \<Rightarrow> string \<Rightarrow> string \<Rightarrow> 's apiClient \<Rightarrow> 's apiClient \<times> TXTRecord list res" where
  "r53_ListTXT E S X P zone name =
     sbind (getValues E S X P zone name) (\<lambda>vs. spure (Inr (map (\<lambda>v. \<lparr>tx_ID = r53ID name v, tx_Value = v\<rparr>) vs)))"

definition r53_CreateTXT ::
  "'s apiEnv \<Rightarrow> 's signEnv \<Rightarrow> xmlEnv \<Rightarrow> providerSettings \<Rightarrow> string \<Rightarrow> string \<Rightarrow> string \<Rightarrow> 's apiClient \<Rightarrow> 's apiClient \<times> bytes res" where
  "r53_CreateTXT E S X P zone name v =
     sbind (getValues E S X P zone name) (\<lambda>vs. putValues E S X P zone name (vs @ [v]))"

definition r53_UpdateTXT ::
  "'s apiEnv \<Rightarrow> 's signEnv \<Rightarrow> xmlEnv \<Rightarrow> providerSettings \<Rightarrow> string \<Rightarrow> string \<Rightarrow> string \<Rightarrow> 's apiClient \<Rightarrow> 's apiClient \<times> bytes res" where
  "r53_UpdateTXT E S X P zone i v =
     (let (name, old) = splitR53ID i
      in sbind (getValues E S X P zone name) (\<lambda>vs. putValues E S X P zone name (replaceFirst old v vs)))"

definition r53_DeleteTXT ::
  "'s apiEnv \<Rightarrow> 's signEnv \<Rightarrow> xmlEnv \<Rightarrow> providerSettings \<Rightarrow> string \<Rightarrow> string \<Rightarrow> 's apiClient \<Rightarrow> 's apiClient \<times> bytes res" where
  "r53_DeleteTXT E S X P zone i =
     (let (name, old) = splitR53ID i
      in sbind (getValues E S X P zone name) (\<lambda>vs. putValues E S X P zone name (filter (\<lambda>v. v \<noteq> old) vs)))"

definition r53_provider :: "'s apiEnv \<Rightarrow> 's signEnv \<Rightarrow> xmlEnv \<Rightarrow> providerSettings \<Rightarrow> 's apiClient provider" where
  "r53_provider E S X P =
     \<lparr>pv_ListTXT = (\<lambda>c zone name. r53_ListTXT E S X P zone name c),
      pv_CreateTXT = (\<lambda>c zone name v. outcome (r53_CreateTXT E S X P zone name v c)),
      pv_UpdateTXT = (\<lambda>c zone i v. outcome (r53_UpdateTXT E S X P zone i v c)),
      pv_DeleteTXT = (\<lambda>c zone i. outcome (r53_DeleteTXT E S X P zone i c)),
      pv_ReplaceTXT = Some (\<lambda>c zone name vs. outcome (r53_ReplaceTXT E S X P zone name vs c)), pv_Flush = None\<rparr>"

section \<open>The provider that the settings name\<close>

definition api_provider ::
  "'s apiEnv \<Rightarrow> 's signEnv \<Rightarrow> xmlEnv \<Rightarrow> (bytes \<Rightarrow> string list res) \<Rightarrow> providerSettings \<Rightarrow> 's apiClient provider" where
  "api_provider E S X decodeRRset P =
     (if ps_kind P = ''linode'' then linode_provider E P
      else if ps_kind P = ''digitalocean'' then do_provider E P
      else if ps_kind P = ''cloudflare'' then cf_provider E P
      else if ps_kind P = ''desec'' then desec_provider E decodeRRset P
      else if ps_kind P = ''hetzner'' then hetzner_provider E P
      else if ps_kind P = ''route53'' then r53_provider E S X P
      else ovh_provider E S P)"

section \<open>What Route 53 signs\<close>

lemma upper_hex_nth:
  "n < 16 \<Longrightarrow> hex_val (upper_hex ! n) = Some n \<and> is_alnum (upper_hex ! n) \<and> upper_hex ! n \<noteq> CHR ''+''"
proof -
  have "\<forall>n \<in> set [0..<16]. hex_val (upper_hex ! n) = Some n \<and> is_alnum (upper_hex ! n) \<and> upper_hex ! n \<noteq> CHR ''+''" by code_simp
  then show "n < 16 \<Longrightarrow> ?thesis" by simp
qed

lemma code_hex: "code c div 16 < 16" "code c mod 16 < 16"
  by (auto simp: div_less_iff_less_mult)

lemma not_alnum: "\<not> is_alnum (CHR ''+'')" "\<not> is_alnum (CHR ''%'')" "\<not> is_alnum (CHR ''&'')" "\<not> is_alnum (CHR ''='')" "\<not> is_alnum (CHR '';'')"
  by code_simp+

definition awsEncodeC :: "char \<Rightarrow> string" where
  "awsEncodeC c =
     (if is_alnum c \<or> c \<in> set ''-_.~'' then [c] else [CHR ''%'', upper_hex ! (code c div 16), upper_hex ! (code c mod 16)])"

lemma awsURIEncode_chars: "awsURIEncode s = concat (map awsEncodeC s)"
proof -
  have sp: "upper_hex ! 2 = CHR ''2''" "upper_hex ! 0 = CHR ''0''" by code_simp+
  show ?thesis
    by (induction s) (auto simp: awsURIEncode_def queryEscape_def awsEncodeC_def not_alnum upper_hex_nth code_hex sp)
qed

lemma queryUnescape_encode: "queryUnescape (awsURIEncode s) = Some s"
proof -
  have "char_of (16 * (code c div 16) + code c mod 16) = c" for c :: char by (metis char_of_char mult_div_mod_eq)
  then have "queryUnescape (awsEncodeC c @ cs) = map_option ((#) c) (queryUnescape cs)" for c cs
    using not_alnum by (auto simp: awsEncodeC_def upper_hex_nth code_hex)
  then show ?thesis unfolding awsURIEncode_chars by (induction s) auto
qed

lemma awsURIEncode_plain: "x \<in> set (awsURIEncode s) \<Longrightarrow> is_alnum x \<or> x \<in> set ''-_.~%''"
  unfolding awsURIEncode_chars by (auto simp: awsEncodeC_def upper_hex_nth code_hex split: if_splits)

lemma encode_separators:
  "CHR ''&'' \<notin> set (awsURIEncode s)" "CHR ''='' \<notin> set (awsURIEncode s)" "CHR '';'' \<notin> set (awsURIEncode s)"
  using awsURIEncode_plain not_alnum by fastforce+

lemma parsePair_encode: "parsePair (awsURIEncode k @ ''='' @ awsURIEncode v) = Some (k, v)"
  using cutOn_append [of "CHR ''=''" "awsURIEncode k" "awsURIEncode v"] encode_separators
  by (simp add: parsePair_def cut_def queryUnescape_encode)

lemma url_Query_canonical: "q \<noteq> [] \<Longrightarrow> url_Query (awsCanonicalQuery q) = sort q"
proof -
  let ?f = "\<lambda>(k, v). awsURIEncode k @ ''='' @ awsURIEncode v"
  assume "q \<noteq> []"
  then have "sort q \<noteq> []" by (metis length_0_conv length_sort)
  moreover have "\<forall>p \<in> set (map ?f (sort q)). CHR ''&'' \<notin> set p" using encode_separators(1) by auto
  ultimately have "splitOn (CHR ''&'') (awsCanonicalQuery q) = map ?f (sort q)"
    unfolding awsCanonicalQuery_def by (intro splitOn_joinWith) auto
  moreover have "List.map_filter parsePair (map ?f xs) = xs" for xs
    by (induction xs) (auto simp: map_filter_simps parsePair_encode [simplified])
  ultimately show ?thesis by (simp add: url_Query_def)
qed

section \<open>deSEC behind the interface\<close>

text \<open>What deSEC documents for the RRset at one name, \<open>recs s\<close>, empty when there is none: it has no duplicates and its
  records are quoted; a successful \<open>GET\<close> returns it and a 404 says that there is none; a successful \<open>PUT\<close> to the RRset, or
  \<open>POST\<close> to the collection, stores the records of the body; a successful \<open>DELETE\<close> removes it.\<close>

definition desec_service :: "'s apiEnv \<Rightarrow> (bytes \<Rightarrow> string list res) \<Rightarrow> providerSettings \<Rightarrow> string \<Rightarrow> string \<Rightarrow> ('s \<Rightarrow> string list) \<Rightarrow> bool" where
  "desec_service E decodeRRset P zone name recs \<longleftrightarrow>
     (\<forall>s. distinct (recs s) \<and> (\<forall>r \<in> set (recs s). \<exists>v. r = quoteTXT v)) \<and>
     (\<forall>req s s' r. ar_Method req = ''GET'' \<longrightarrow> ar_URL req = rrsetURL P zone name \<longrightarrow> ae_Do E req s = (s', r) \<longrightarrow>
        recs s' = recs s \<and>
        (\<forall>resp. r = Inr resp \<longrightarrow> (as_StatusCode resp = 404 \<longrightarrow> recs s = []) \<and>
           (\<forall>rs. 200 \<le> as_StatusCode resp \<longrightarrow> as_StatusCode resp < 300 \<longrightarrow>
              decodeRRset (take apiResponseLimit (as_Body resp)) = Inr rs \<longrightarrow> rs = recs s))) \<and>
     (\<forall>req s s' fs rs. accepted E req s s' \<longrightarrow> has_body E req fs \<longrightarrow> map_of fs ''records'' = Some (JList (map JString rs)) \<longrightarrow>
        ar_Method req = ''PUT'' \<and> ar_URL req = rrsetURL P zone name \<or>
        ar_Method req = ''POST'' \<and> ar_URL req = rrsetsURL P zone \<and> map_of fs ''subname'' = Some (JString (bodySubname name)) \<and>
          map_of fs ''type'' = Some (JString ''TXT'') \<longrightarrow> recs s' = rs) \<and>
     (\<forall>req s s'. accepted E req s s' \<longrightarrow> ar_Method req = ''DELETE'' \<longrightarrow> ar_URL req = rrsetURL P zone name \<longrightarrow> recs s' = [])"

definition desec_values :: "('s \<Rightarrow> string list) \<Rightarrow> 's apiClient \<Rightarrow> string list" where
  "desec_values recs c = map unquoteTXT (recs (cl_net c))"

definition desec_table :: "string \<Rightarrow> ('s \<Rightarrow> string list) \<Rightarrow> 's apiClient \<Rightarrow> string \<Rightarrow> string option" where
  "desec_table name recs c = map_of (map (\<lambda>v. (desecID name v, v)) (desec_values recs c))"

lemma desec_do_Inr:
  assumes "desec_do E P meth url body c = (c', Inr (status, dat))"
  obtains req s resp where "ar_Method req = meth" and "ar_URL req = url" and "ae_Do E req (cl_net c) = (s, Inr resp)"
    and "cl_net c' = s" and "dat = take apiResponseLimit (as_Body resp)" and "status = as_StatusCode resp"
    and "\<forall>fs. body = Some (JObject fs) \<longrightarrow> has_body E req fs"
  using assms unfolding desec_do_def
  by (rule doJSONRaw_Inr) (rule that; force simp: has_body_def)

lemma desec_accepted:
  assumes "sbind (desec_do E P meth url body) (\<lambda>r. spure (statusR prov reason r)) c = (c', Inr dat)"
  obtains req where "ar_Method req = meth" and "ar_URL req = url" and "accepted E req (cl_net c) (cl_net c')"
    and "\<forall>fs. body = Some (JObject fs) \<longrightarrow> has_body E req fs"
proof -
  obtain status d where d: "desec_do E P meth url body c = (c', Inr (status, d))" "200 \<le> status" "status < 300"
    using assms by (auto simp: sbind_Inr statusR_Inr)
  from d(1) show ?thesis by (rule desec_do_Inr) (rule that, use d(2,3) in \<open>auto simp: accepted_def\<close>)
qed

lemma getRecords_law:
  assumes srv: "desec_service E decodeRRset P zone name recs" and g: "getRecords E decodeRRset P zone name c = (c', r)"
  shows "recs (cl_net c') = recs (cl_net c)" and "r = Inr vs \<Longrightarrow> vs = desec_values recs c"
proof -
  note get = srv [unfolded desec_service_def, THEN conjunct2, THEN conjunct1, rule_format]
  have "keeps (\<lambda>c1. recs (cl_net c1) = recs (cl_net c)) (getRecords E decodeRRset P zone name)"
    unfolding getRecords_def desec_do_def
  proof (rule keeps_sbind)
    show "keeps (\<lambda>c1. recs (cl_net c1) = recs (cl_net c)) (doJSONRaw E ''desec'' ''GET'' (rrsetURL P zone name) None [(''Authorization'', ''Token '' @ ps_token P)])"
      using get by (intro keeps_intros) metis
  qed (auto simp: keeps_def split: if_splits)
  from keepsD [OF this g] show "recs (cl_net c') = recs (cl_net c)" by simp
  assume r: "r = Inr vs"
  obtain status dat where d: "desec_do E P ''GET'' (rrsetURL P zone name) None c = (c', Inr (status, dat))"
    and v: "status = 404 \<and> vs = [] \<or> status \<noteq> 404 \<and> (\<exists>rs. 200 \<le> status \<and> status < 300 \<and> decodeRRset dat = Inr rs \<and> vs = map unquoteTXT rs)"
    using g unfolding r getRecords_def sbind_Inr by (auto simp: statusR_Inr split: if_splits)
  from d obtain req s resp where "ar_Method req = ''GET''" "ar_URL req = rrsetURL P zone name" "ae_Do E req (cl_net c) = (s, Inr resp)"
    "dat = take apiResponseLimit (as_Body resp)" "status = as_StatusCode resp" by (rule desec_do_Inr)
  with get [of req "cl_net c" s "Inr resp"] v show "vs = desec_values recs c" by (auto simp: desec_values_def)
qed

lemma putRecords_law:
  assumes srv: "desec_service E decodeRRset P zone name recs" and p: "putRecords E P zone name vs c = (c', Inr dat)"
  shows "recs (cl_net c') = map quoteTXT vs"
proof (cases "vs = []")
  case True
  then obtain req where "ar_Method req = ''DELETE''" "ar_URL req = rrsetURL P zone name" "accepted E req (cl_net c) (cl_net c')"
    using p unfolding putRecords_def deleteRRset_def by (auto elim: desec_accepted)
  with srv [unfolded desec_service_def, THEN conjunct2, THEN conjunct2, THEN conjunct2] True show ?thesis by simp
next
  case False
  let ?fs = "[(''subname'', JString (bodySubname name)), (''type'', JString ''TXT''), (''ttl'', JInt (ps_ttl P)),
       (''records'', JList (map (\<lambda>v. JString (quoteTXT v)) vs))]"
  note put = srv [unfolded desec_service_def, THEN conjunct2, THEN conjunct2, THEN conjunct1, rule_format, of _ _ _ ?fs "map quoteTXT vs"]
  have body: "rrset_body P name vs = JObject ?fs" by (simp add: rrset_body_def)
  obtain c1 status d where d: "desec_do E P ''PUT'' (rrsetURL P zone name) (Some (JObject ?fs)) c = (c1, Inr (status, d))"
    and rest: "status = 404 \<and> sbind (desec_do E P ''POST'' (rrsetsURL P zone) (Some (JObject ?fs))) (\<lambda>r. spure (statusR ''desec'' (desecErrReason E) r)) c1 = (c', Inr dat)
      \<or> status \<noteq> 404 \<and> 200 \<le> status \<and> status < 300 \<and> c' = c1"
    using p False unfolding putRecords_def body by (auto simp: sbind_Inr [of "desec_do E P ''PUT'' _ _"] statusR_Inr split: if_splits)
  from rest show ?thesis
  proof
    assume "status \<noteq> 404 \<and> 200 \<le> status \<and> status < 300 \<and> c' = c1"
    with d obtain req where "ar_Method req = ''PUT''" "ar_URL req = rrsetURL P zone name" "accepted E req (cl_net c) (cl_net c')" "has_body E req ?fs"
      by (auto elim!: desec_do_Inr simp: accepted_def)
    then show ?thesis by (intro put) (auto simp: comp_def)
  next
    assume "status = 404 \<and> sbind (desec_do E P ''POST'' (rrsetsURL P zone) (Some (JObject ?fs))) (\<lambda>r. spure (statusR ''desec'' (desecErrReason E) r)) c1 = (c', Inr dat)"
    then obtain req where "ar_Method req = ''POST''" "ar_URL req = rrsetsURL P zone" "accepted E req (cl_net c1) (cl_net c')" "has_body E req ?fs"
      by (auto elim: desec_accepted)
    then show ?thesis by (intro put) (auto simp: comp_def)
  qed
qed

lemma desecID_inject: "desecID name v = desecID name w \<longleftrightarrow> v = w"
  by (simp add: desecID_def)

lemma desec_listing:
  assumes "desec_service E decodeRRset P zone name recs"
  shows "listing (desec_table name recs c) (map (\<lambda>v. \<lparr>tx_ID = desecID name v, tx_Value = v\<rparr>) (desec_values recs c))"
proof -
  have q: "distinct (recs s)" "\<forall>r \<in> set (recs s). \<exists>v. r = quoteTXT v" for s
    using assms [unfolded desec_service_def, THEN conjunct1] by blast+
  have "inj_on unquoteTXT (set (recs s))" for s using q(2) [of s] by (intro inj_on_inverseI [of _ quoteTXT]) auto
  then have "distinct (desec_values recs c)" using q(1) by (simp add: desec_values_def distinct_map)
  then show ?thesis by (simp add: listing_def desec_table_def comp_def distinct_map inj_on_def desecID_inject)
qed

lemma desec_provider_ok:
  assumes srv: "desec_service E decodeRRset P zone name recs"
  shows "provider_ok (desec_provider E decodeRRset P) zone name (desec_table name recs)"
  unfolding provider_ok_def
proof (intro conjI allI impI)
  fix c c' r rs assume l: "pv_ListTXT (desec_provider E decodeRRset P) c zone name = (c', r)"
  obtain c1 g where g: "getRecords E decodeRRset P zone name c = (c1, g)" by fastforce
  have r: "c1 = c'" "r = (case g of Inl e \<Rightarrow> Inl e | Inr vs \<Rightarrow> Inr (map (\<lambda>v. \<lparr>tx_ID = desecID name v, tx_Value = v\<rparr>) vs))"
    using l g by (auto simp: desec_provider_def desec_ListTXT_def sbind_def spure_def split: sum.splits)
  show "desec_table name recs c' = desec_table name recs c"
    using getRecords_law(1) [OF srv g] r(1) by (simp add: desec_table_def desec_values_def)
  assume "r = Inr rs"
  then show "listing (desec_table name recs c) rs"
    using r(2) getRecords_law(2) [OF srv g] desec_listing [OF srv, of c] by (auto split: sum.splits)
next
  fix f c vs c' assume "pv_ReplaceTXT (desec_provider E decodeRRset P) = Some f" "f c zone name vs = (c', None)"
  then have "recs (cl_net c') = map quoteTXT vs"
    by (auto simp: desec_provider_def outcome_None desec_ReplaceTXT_def dest: putRecords_law [OF srv])
  then have "desec_values recs c' = vs" by (simp add: desec_values_def comp_def)
  then show "\<exists>rs. listing (desec_table name recs c') rs \<and> map tx_Value rs = vs"
    using desec_listing [OF srv, of c'] by (intro exI [of _ "map (\<lambda>v. \<lparr>tx_ID = desecID name v, tx_Value = v\<rparr>) vs"]) (simp add: comp_def)
qed (simp_all add: desec_provider_def)

section \<open>Requests stay at the API\<close>

text \<open>A property of the world that every request below the base address keeps is kept by every operation.\<close>

definition kept_below :: "'s apiEnv \<Rightarrow> string \<Rightarrow> ('s \<Rightarrow> bool) \<Rightarrow> bool" where
  "kept_below E base N \<longleftrightarrow>
     (\<forall>req s s' r. hasPrefix (ar_URL req) (base @ ''/'') \<longrightarrow> ae_Do E req s = (s', r) \<longrightarrow> N s \<longrightarrow> N s')"

lemma kept_belowD: "kept_below E base N \<Longrightarrow> ar_URL req = base @ CHR ''/'' # path \<Longrightarrow> ae_Do E req s = (s', r) \<Longrightarrow> N s \<Longrightarrow> N s'"
  unfolding kept_below_def by (auto simp: hasPrefix_iff)

lemma keeps_page_loop:
  assumes "page_loop fetch pick p out c = Some y" and "\<And>p. keeps I (fetch p)" and "I c"
  shows "I (fst y)"
proof -
  have "(\<forall>p. keeps I (fetch p)) \<longrightarrow> I c \<longrightarrow> I (fst y)"
  proof (rule page_loop.raw_induct [OF _ assms(1), where P = "\<lambda>fetch pick p out c y. (\<forall>p. keeps I (fetch p)) \<longrightarrow> I c \<longrightarrow> I (fst y)"])
    fix loop :: "(nat \<Rightarrow> 'a \<Rightarrow> 'a \<times> ('b list \<times> bool) res) \<Rightarrow> ('b \<Rightarrow> TXTRecord option) \<Rightarrow> nat \<Rightarrow> TXTRecord list \<Rightarrow> 'a \<Rightarrow> ('a \<times> TXTRecord list res) option"
    fix fetch :: "nat \<Rightarrow> 'a \<Rightarrow> 'a \<times> ('b list \<times> bool) res" and pick p out c y
    assume ih: "\<And>fetch pick p out c y. loop fetch pick p out c = Some y \<Longrightarrow> (\<forall>p. keeps I (fetch p)) \<longrightarrow> I c \<longrightarrow> I (fst y)"
      and step: "(case fetch p c of (c', Inl e) \<Rightarrow> Some (c', Inl e)
        | (c', Inr (rs, stop)) \<Rightarrow> if stop then Some (c', Inr (out @ List.map_filter pick rs))
            else loop fetch pick (Suc p) (out @ List.map_filter pick rs) c') = Some y"
    show "(\<forall>p. keeps I (fetch p)) \<longrightarrow> I c \<longrightarrow> I (fst y)"
      using step ih keepsD [of I "fetch p" c] by (auto split: prod.splits sum.splits if_splits)
  qed
  with assms(2,3) show ?thesis by simp
qed

lemmas api_do_defs = linode_do_def do_do_def cf_do_def hetzner_do_def

lemma keeps_cache [keeps_intros]:
  assumes "keeps (\<lambda>c. N (cl_net c)) m" and "\<And>dat c c' r. f dat c = (c', r) \<Longrightarrow> cl_net c' = cl_net c"
  shows "keeps (\<lambda>c. N (cl_net c)) (\<lambda>c. if P c then (c, g c) else sbind m f c)"
  using assms unfolding keeps_def sbind_def by (fastforce split: prod.splits sum.splits if_splits)

lemma below_send:
  "kept_below E base N \<Longrightarrow> hasPrefix (ar_URL req) (base @ ''/'') \<Longrightarrow> keeps (\<lambda>c. N (cl_net c)) (client_send E m1 m2 limit m3 req)"
  unfolding kept_below_def by (intro keeps_send) metis

lemma below_doJSONRaw:
  "kept_below E base N \<Longrightarrow> hasPrefix url (base @ ''/'') \<Longrightarrow> keeps (\<lambda>c. N (cl_net c)) (doJSONRaw E prov meth url body headers)"
  unfolding kept_below_def by (intro keeps_doJSONRaw) metis

lemma below_doJSON:
  "kept_below E base N \<Longrightarrow> hasPrefix url (base @ ''/'') \<Longrightarrow> keeps (\<lambda>c. N (cl_net c)) (doJSON E prov meth url body headers reason)"
  unfolding kept_below_def by (intro keeps_doJSON) metis

lemma below_api_do [keeps_intros]:
  assumes "kept_below E (ps_baseURL P) N" and "hasPrefix url (ps_baseURL P @ ''/'')"
  shows "keeps (\<lambda>c. N (cl_net c)) (linode_do E P meth url xf body)" "keeps (\<lambda>c. N (cl_net c)) (do_do E P meth url body)"
    "keeps (\<lambda>c. N (cl_net c)) (cf_do E P meth url body)" "keeps (\<lambda>c. N (cl_net c)) (hetzner_do E P meth url body)"
    "keeps (\<lambda>c. N (cl_net c)) (desec_do E P meth url body)"
  unfolding api_do_defs desec_do_def using assms by (simp_all add: below_doJSON below_doJSONRaw)

lemma below_resolve [keeps_intros]:
  assumes "kept_below E (ps_baseURL P) N"
  shows "keeps (\<lambda>c. N (cl_net c)) (resolveDomainID E P zone)" "keeps (\<lambda>c. N (cl_net c)) (cf_resolveZoneID E P zone)"
    "keeps (\<lambda>c. N (cl_net c)) (hetzner_resolveZoneID E P zone)"
  unfolding resolveDomainID_def [abs_def] cf_resolveZoneID_def [abs_def] hetzner_resolveZoneID_def [abs_def]
  by (intro keeps_cache below_api_do [OF assms]; auto simp: hasPrefix_iff split: sum.splits option.splits)+

lemma keeps_reads: "(\<And>c. keeps I (m c)) \<Longrightarrow> keeps I (\<lambda>c. m c c)"
  unfolding keeps_def by blast

lemma below_r53_do [keeps_intros]:
  assumes "kept_below E (ps_baseURL P) N" and "hasPrefix url (ps_baseURL P @ ''/'')"
  shows "keeps (\<lambda>c. N (cl_net c)) (r53_do E S X P meth url body)"
proof (cases "url_Parse url")
  case None
  then show ?thesis unfolding r53_do_def by (intro keeps_sbind keeps_spure) (simp add: keeps_def)
next
  case (Some u)
  have send: "keeps (\<lambda>c. N (cl_net c)) (sbind (client_send E m1 m2 limit m3 \<lparr>ar_Method = meth, ar_URL = url, ar_Header = h, ar_Body = b\<rparr>) (\<lambda>r. spure (g r)))"
    for m1 m2 limit m3 h b and g :: "int \<times> bytes \<Rightarrow> bytes res"
    using assms(2) by (intro keeps_sbind keeps_spure below_send [OF assms(1)]) simp
  show ?thesis unfolding r53_do_def Some option.case
    by (intro keeps_sbind keeps_spure) (rule keeps_reads, rule send)
qed

lemma below_r53_resolve [keeps_intros]:
  assumes "kept_below E (ps_baseURL P) N"
  shows "keeps (\<lambda>c. N (cl_net c)) (r53_resolveZoneID E S X P zone)"
  unfolding r53_resolveZoneID_def [abs_def]
  by (intro keeps_cache below_r53_do [OF assms]; auto simp: hasPrefix_iff split: sum.splits option.splits)

lemma below_timestamp [keeps_intros]:
  assumes "kept_below E (ps_baseURL P) N"
  shows "keeps (\<lambda>c. N (cl_net c)) (timestamp E S P)"
proof -
  have st: "keeps (\<lambda>c. N (cl_net c)) (serverTime E P)"
    unfolding serverTime_def by (intro keeps_sbind keeps_spure below_send [OF assms]) (simp add: hasPrefix_iff)
  have "keeps (\<lambda>c. N (cl_net c)) (sbind (serverTime E P) (\<lambda>st c.
            let delta = sub64 (sg_Unix S 0 (cl_net c)) st
            in (c\<lparr>cl_delta := Some delta\<rparr>, Inr (sub64 (sg_Unix S 1 (cl_net c)) delta))))"
    by (rule keeps_sbind [OF st]) (auto simp: keeps_def Let_def)
  then show ?thesis unfolding timestamp_def keeps_def by (fastforce split: option.splits)
qed

lemma below_ovh_do [keeps_intros]:
  assumes "kept_below E (ps_baseURL P) N" and "hasPrefix path ''/''"
  shows "keeps (\<lambda>c. N (cl_net c)) (ovh_do E S P meth path q body)"
  unfolding ovh_do_def Let_def
  by (intro keeps_sbind keeps_spure below_timestamp [OF assms(1)] below_send [OF assms(1)]) (use assms(2) in \<open>auto simp: hasPrefix_iff\<close>)

lemma keeps_ovh_fetch [keeps_intros]:
  assumes "kept_below E (ps_baseURL P) N"
  shows "keeps (\<lambda>c. N (cl_net c)) (ovh_fetch E S P zone name is)"
  by (induction "is") (auto intro!: keeps_intros simp: assms hasPrefix_iff)

lemma keeps_loop:
  assumes "\<And>p. keeps I (fetch p)"
  shows "keeps I (\<lambda>c. listed c (page_loop fetch pick p out c))"
  unfolding keeps_def listed_def
  using keeps_page_loop [OF _ assms] by (fastforce split: option.splits)

lemma keeps_listing:
  assumes "keeps I resolve" and "\<And>i p. keeps I (fetch i p)"
  shows "keeps I (\<lambda>c. listed c (case resolve c of (c', Inl e) \<Rightarrow> Some (c', Inl e) | (c', Inr i) \<Rightarrow> page_loop (fetch i) pick 1 [] c'))"
  unfolding keeps_def
proof (intro allI impI)
  fix c c' r
  assume l: "listed c (case resolve c of (c', Inl e) \<Rightarrow> Some (c', Inl e) | (c', Inr i) \<Rightarrow> page_loop (fetch i) pick 1 [] c') = (c', r)" and "I c"
  obtain c1 x where x: "resolve c = (c1, x)" by fastforce
  with assms(1) \<open>I c\<close> have "I c1" by (auto dest: keepsD)
  then have "I (fst y)" if "page_loop (fetch i) pick 1 [] c1 = Some y" for i y
    by (rule keeps_page_loop [OF that assms(2)])
  then show "I c'" using l x \<open>I c\<close> \<open>I c1\<close> by (cases x) (auto simp: listed_def split: option.splits)
qed

text \<open>Every operation of a provider keeps a property.\<close>

definition provider_keeps :: "('c \<Rightarrow> bool) \<Rightarrow> 'c provider \<Rightarrow> bool" where
  "provider_keeps I Q \<longleftrightarrow>
     (\<forall>zone name. keeps I (\<lambda>c. pv_ListTXT Q c zone name)) \<and>
     (\<forall>zone name v. keeps I (\<lambda>c. pv_CreateTXT Q c zone name v)) \<and>
     (\<forall>zone i v. keeps I (\<lambda>c. pv_UpdateTXT Q c zone i v)) \<and>
     (\<forall>zone i. keeps I (\<lambda>c. pv_DeleteTXT Q c zone i)) \<and>
     (\<forall>f zone name vs. pv_ReplaceTXT Q = Some f \<longrightarrow> keeps I (\<lambda>c. f c zone name vs)) \<and>
     (\<forall>f zone. pv_Flush Q = Some f \<longrightarrow> keeps I (\<lambda>c. f c zone))"

lemma below_pages [keeps_intros]:
  assumes "kept_below E (ps_baseURL P) N"
  shows "keeps (\<lambda>c. N (cl_net c)) (linode_page E P j name p)" "keeps (\<lambda>c. N (cl_net c)) (do_page E P zone rel p)"
    "keeps (\<lambda>c. N (cl_net c)) (cf_page E P i fqdn p)" "keeps (\<lambda>c. N (cl_net c)) (hetzner_page E P i p)"
  unfolding linode_page_def do_page_def cf_page_def hetzner_page_def
  by (intro keeps_sbind keeps_spure below_api_do [OF assms];
      simp add: hasPrefix_iff linode_recordsURL_def do_recordsURL_def cf_recordsURL_def hetzner_recordsURL_def)+

lemma below_lists [keeps_intros]:
  assumes "kept_below E (ps_baseURL P) N"
  shows "keeps (\<lambda>c. N (cl_net c)) (\<lambda>c. listed c (linode_ListTXT E P zone name c))"
    "keeps (\<lambda>c. N (cl_net c)) (\<lambda>c. listed c (do_ListTXT E P zone name c))"
    "keeps (\<lambda>c. N (cl_net c)) (\<lambda>c. listed c (cf_ListTXT E P zone name c))"
    "keeps (\<lambda>c. N (cl_net c)) (\<lambda>c. listed c (hetzner_ListTXT E P zone name c))"
  unfolding linode_ListTXT_def do_ListTXT_def cf_ListTXT_def hetzner_ListTXT_def
  by (intro keeps_listing keeps_loop below_resolve below_pages assms)+

lemmas record_operations =
  linode_CreateTXT_def linode_UpdateTXT_def linode_DeleteTXT_def do_CreateTXT_def do_UpdateTXT_def do_DeleteTXT_def
  cf_CreateTXT_def cf_UpdateTXT_def cf_DeleteTXT_def hetzner_CreateTXT_def hetzner_UpdateTXT_def hetzner_DeleteTXT_def hetzner_getRecord_def

lemma record_APIs_confined:
  assumes "kept_below E (ps_baseURL P) N"
  shows "provider_keeps (\<lambda>c. N (cl_net c)) (linode_provider E P)" "provider_keeps (\<lambda>c. N (cl_net c)) (do_provider E P)"
    "provider_keeps (\<lambda>c. N (cl_net c)) (cf_provider E P)" "provider_keeps (\<lambda>c. N (cl_net c)) (hetzner_provider E P)"
  unfolding provider_keeps_def linode_provider_def do_provider_def cf_provider_def hetzner_provider_def
  by (auto intro!: keeps_intros assms simp: hasPrefix_iff record_operations)

lemma below_rrset [keeps_intros]:
  assumes "kept_below E (ps_baseURL P) N"
  shows "keeps (\<lambda>c. N (cl_net c)) (getRecords E dec P zone name)" "keeps (\<lambda>c. N (cl_net c)) (putRecords E P zone name vs)"
  unfolding getRecords_def putRecords_def deleteRRset_def
  by (auto intro!: keeps_intros assms simp: hasPrefix_iff rrsetURL_def rrsetsURL_def)

lemma below_r53_sets [keeps_intros]:
  assumes "kept_below E (ps_baseURL P) N"
  shows "keeps (\<lambda>c. N (cl_net c)) (getRecordSet E S X P zone name)" "keeps (\<lambda>c. N (cl_net c)) (r53_change E S X P zone action rr)"
  unfolding getRecordSet_def r53_change_def
  by (auto intro!: keeps_intros assms simp: hasPrefix_iff)

lemma set_APIs_confined:
  assumes "kept_below E (ps_baseURL P) N"
  shows "provider_keeps (\<lambda>c. N (cl_net c)) (desec_provider E dec P)" "provider_keeps (\<lambda>c. N (cl_net c)) (r53_provider E S X P)"
    "provider_keeps (\<lambda>c. N (cl_net c)) (ovh_provider E S P)"
  unfolding provider_keeps_def desec_provider_def r53_provider_def ovh_provider_def
    desec_ListTXT_def desec_CreateTXT_def desec_UpdateTXT_def desec_DeleteTXT_def desec_ReplaceTXT_def
    r53_ListTXT_def r53_CreateTXT_def r53_UpdateTXT_def r53_DeleteTXT_def r53_ReplaceTXT_def getValues_def putValues_def deleteRecordSet_def
    ovh_ListTXT_def ovh_CreateTXT_def ovh_UpdateTXT_def ovh_DeleteTXT_def ovh_Flush_def Let_def
  by (auto intro!: keeps_intros assms simp: hasPrefix_iff)

end
