(* ===== verification/DnsClients.thy ===== *)
theory DnsClients
  imports DnsRRset
begin

text \<open>
  What the HTTP clients of the DNS providers guarantee (\<open>src/internal/dnsprovider/\<close>): listings in pages end and are
  complete, a drop on DigitalOcean or deSEC gives back what was published, no request leaves the address of the API, and
  Route 53 signs the query that it sends. The witnesses run the clients against small services.
\<close>

section \<open>Services for the witnesses\<close>

definition no_decoder :: "bytes \<Rightarrow> 'a res" where "no_decoder dat = Inl (Err ''json'')"

definition plain_api :: "(apiRequest \<Rightarrow> 's \<Rightarrow> 's \<times> apiResponse res) \<Rightarrow> 's apiEnv" where
  "plain_api send =
     \<lparr>ae_Do = send, ae_Marshal = (\<lambda>_. Inl (Err ''json'')), ae_Quote = (\<lambda>s. s), ae_linodeDomains = no_decoder,
      ae_linodeRecords = no_decoder, ae_linodeErrors = no_decoder, ae_doRecords = no_decoder, ae_cfEnvelope = no_decoder,
      ae_cfZones = no_decoder, ae_cfRecords = no_decoder, ae_cfErrors = no_decoder, ae_hetznerZones = no_decoder,
      ae_hetznerRecords = no_decoder, ae_hetznerRecord = no_decoder, ae_hetznerError = no_decoder, ae_message = (\<lambda>_. no_decoder)\<rparr>"

definition plain_sign :: "'s signEnv" where
  "plain_sign = \<lparr>sg_Unix = (\<lambda>_ _. 1700000000), sg_sha1 = (\<lambda>b. b), sg_sha256 = (\<lambda>b. b), sg_hmac = (\<lambda>_ b. b),
     sg_ovhIDs = no_decoder, sg_ovhRecord = no_decoder\<rparr>"

definition plain_xml :: xmlEnv where
  "plain_xml = \<lparr>xe_Marshal = (\<lambda>_. Inl (Err ''xml'')), xe_Zones = no_decoder, xe_RRSets = no_decoder, xe_Error = no_decoder\<rparr>"

definition demo_config :: "string \<Rightarrow> ProviderConfig" where
  "demo_config name = \<lparr>pf_Name = name, pf_Token = ''t'', pf_AppKey = [], pf_AppSecret = [], pf_ConsumerKey = [], pf_Endpoint = [],
     pf_AccessKey = [], pf_SecretKey = [], pf_TTL = 0\<rparr>"

text \<open>A service that writes down the address of every request and answers none.\<close>

definition log_api :: "string list apiEnv" where
  "log_api = plain_api (\<lambda>req s. (s @ [ar_URL req], Inl (Err ''offline'')))"

text \<open>Services that have one record at \<open>_tincan.example.com\<close>: one answers the four listings, the other is DigitalOcean with a
  record that a \<open>POST\<close> creates.\<close>

definition demo_value :: string where "demo_value = ''tc1;0;1;aGk''"

definition demo_L :: providerSettings where "demo_L = newLinode (demo_config ''linode'')"
definition demo_D :: providerSettings where "demo_D = newDigitalOcean (demo_config ''digitalocean'')"
definition demo_C :: providerSettings where "demo_C = newCloudflare (demo_config ''cloudflare'')"
definition demo_H :: providerSettings where "demo_H = newHetzner (demo_config ''hetzner'')"

definition demo_linodeRecord :: linodeRecord where
  "demo_linodeRecord = \<lparr>lr_ID = 1, lr_Type = ''TXT'', lr_Name = ''_tincan'', lr_Target = demo_value\<rparr>"

definition demo_doRecord :: doRecord where
  "demo_doRecord = \<lparr>dor_ID = 1, dor_Type = ''TXT'', dor_Name = ''_tincan'', dor_Data = demo_value\<rparr>"

definition demo_cfRecord :: cfRecord where
  "demo_cfRecord = \<lparr>cr_ID = ''r1'', cr_Type = ''TXT'', cr_Name = ''_tincan.example.com'', cr_Content = demo_value\<rparr>"

definition demo_hetznerRecord :: hetznerRecord where
  "demo_hetznerRecord = \<lparr>hr_ID = ''r1'', hr_Type = ''TXT'', hr_Name = ''_tincan'', hr_Value = demo_value, hr_ZoneID = ''z''\<rparr>"

definition first_pages :: "string list" where
  "first_pages =
     [linode_recordsURL demo_L 7 1, do_recordsURL demo_D ''example.com'' ''_tincan'' 1,
      cf_recordsURL demo_C ''z'' ''_tincan.example.com'' 1, hetzner_recordsURL demo_H ''z'' 1]"

definition list_api :: "unit apiEnv" where
  "list_api = (plain_api (\<lambda>req s. (s, Inr \<lparr>as_StatusCode = (if ar_URL req \<in> set first_pages then 200 else 404), as_Body = [], as_BodyErr = None\<rparr>)))
     \<lparr>ae_linodeRecords := \<lambda>_. Inr ([demo_linodeRecord], 1), ae_doRecords := \<lambda>_. Inr ([demo_doRecord], []),
      ae_cfEnvelope := \<lambda>_. Inr \<lparr>ce_Result = [], ce_TotalPages = 1\<rparr>, ae_cfRecords := \<lambda>_. Inr [demo_cfRecord],
      ae_hetznerRecords := \<lambda>_. Inr ([demo_hetznerRecord], 1)\<rparr>"

definition create_body :: "(string \<times> jsonValue) list" where
  "create_body = do_recordBody demo_D demo_value @ [(''type'', JString ''TXT''), (''name'', JString ''_tincan'')]"

definition store_api :: "bool apiEnv" where
  "store_api = (plain_api (\<lambda>req s.
       if ar_Method req = ''GET'' \<and> ar_URL req = do_recordsURL demo_D ''example.com'' ''_tincan'' 1
       then (s, Inr \<lparr>as_StatusCode = 200, as_Body = (if s then ''1'' else []), as_BodyErr = None\<rparr>)
       else if ar_Method req = ''POST'' \<and> ar_Body req = Some ''b'' \<and> \<not> s
       then (True, Inr \<lparr>as_StatusCode = 201, as_Body = [], as_BodyErr = None\<rparr>)
       else (s, Inr \<lparr>as_StatusCode = 404, as_Body = [], as_BodyErr = None\<rparr>)))
     \<lparr>ae_Marshal := \<lambda>v. if v = JObject create_body then Inr ''b'' else Inl (Err ''json''),
      ae_doRecords := \<lambda>b. Inr (if b = [] then [] else [demo_doRecord], [])\<rparr>"

definition stored :: "bool \<Rightarrow> doRecord list" where
  "stored s = (if s then [demo_doRecord] else [])"

lemma queryEscape_decimal: "queryEscape (decimal n) = decimal n"
proof -
  have "is_alnum c" if "c \<in> set (decimal n)" for c using that decimal_digits [of n] by (auto simp: is_alnum_def list_all_iff)
  then have "queryEscape xs = xs" if "set xs \<subseteq> set (decimal n)" for xs
    using that by (induction xs) (auto simp: queryEscape_def)
  then show ?thesis by simp
qed

lemma query_order:
  "values_Encode [(''type'', a), (''name'', b), (''per_page'', n), (''page'', p)] =
     ''name='' @ queryEscape b @ ''&page='' @ queryEscape p @ ''&per_page='' @ queryEscape n @ ''&type='' @ queryEscape a"
  "values_Encode [(''zone_id'', a), (''per_page'', n), (''page'', p)] =
     ''page='' @ queryEscape p @ ''&per_page='' @ queryEscape n @ ''&zone_id='' @ queryEscape a"
proof -
  have "sort_key fst [(''type'', a), (''name'', b), (''per_page'', n), (''page'', p)] = [(''name'', b), (''page'', p), (''per_page'', n), (''type'', a)]"
    "sort_key fst [(''zone_id'', a), (''per_page'', n), (''page'', p)] = [(''page'', p), (''per_page'', n), (''zone_id'', a)]"
    "queryEscape ''name'' = ''name''" "queryEscape ''page'' = ''page''" "queryEscape ''per_page'' = ''per_page''"
    "queryEscape ''type'' = ''type''" "queryEscape ''zone_id'' = ''zone_id''"
    by code_simp+
  then show "values_Encode [(''type'', a), (''name'', b), (''per_page'', n), (''page'', p)] =
     ''name='' @ queryEscape b @ ''&page='' @ queryEscape p @ ''&per_page='' @ queryEscape n @ ''&type='' @ queryEscape a"
    "values_Encode [(''zone_id'', a), (''per_page'', n), (''page'', p)] =
     ''page='' @ queryEscape p @ ''&per_page='' @ queryEscape n @ ''&zone_id='' @ queryEscape a"
    unfolding values_Encode_def by simp_all
qed

lemma first_page_only:
  "0 < p \<Longrightarrow> linode_recordsURL demo_L 7 p \<in> set first_pages \<longleftrightarrow> p = 1"
  "0 < p \<Longrightarrow> do_recordsURL demo_D ''example.com'' ''_tincan'' p \<in> set first_pages \<longleftrightarrow> p = 1"
  "0 < p \<Longrightarrow> cf_recordsURL demo_C ''z'' ''_tincan.example.com'' p \<in> set first_pages \<longleftrightarrow> p = 1"
  "0 < p \<Longrightarrow> hetzner_recordsURL demo_H ''z'' p \<in> set first_pages \<longleftrightarrow> p = 1"
  unfolding first_pages_def linode_recordsURL_def do_recordsURL_def cf_recordsURL_def hetzner_recordsURL_def query_order
    demo_L_def demo_D_def demo_C_def demo_H_def newLinode_def newDigitalOcean_def newCloudflare_def newHetzner_def
  by (auto simp: queryEscape_decimal decimal_inject)

lemma list_api_pages:
  "serves_pages list_api h (linode_recordsURL demo_L 7) (ae_linodeRecords list_api) (\<lambda>_. [demo_linodeRecord]) (counts_pages 500) 500"
  "serves_pages list_api h (do_recordsURL demo_D ''example.com'' ''_tincan'') (ae_doRecords list_api) (\<lambda>_. [demo_doRecord]) (links_next 200) 200"
  "serves_pages list_api h (cf_recordsURL demo_C ''z'' ''_tincan.example.com'') (cf_decode list_api) (\<lambda>_. [demo_cfRecord]) (counts_pages 100) 100"
  "serves_pages list_api h (hetzner_recordsURL demo_H ''z'') (ae_hetznerRecords list_api) (\<lambda>_. [demo_hetznerRecord]) (counts_pages 100) 100"
  unfolding serves_pages_def list_api_def plain_api_def counts_pages_def links_next_def page_count_def cf_decode_def
  by (auto simp: first_page_only split: if_splits)

lemma store_api_pages:
  "serves_pages store_api h (do_recordsURL demo_D ''example.com'' ''_tincan'') (ae_doRecords store_api) stored (links_next 200) 200"
  unfolding serves_pages_def
proof (intro allI impI)
  fix page s s' r req
  assume p: "0 < page" and m: "ar_Method req = ''GET''" and u: "ar_URL req = do_recordsURL demo_D ''example.com'' ''_tincan'' page"
    and d: "ae_Do store_api req s = (s', r)"
  have lim: "apiResponseLimit \<noteq> 0" by (simp add: apiResponseLimit_def)
  show "stored s' = stored s \<and> (\<forall>resp rs t. r = Inr resp \<longrightarrow> 200 \<le> as_StatusCode resp \<longrightarrow> as_StatusCode resp < 300 \<longrightarrow>
      ae_doRecords store_api (take apiResponseLimit (as_Body resp)) = Inr (rs, t) \<longrightarrow>
      rs = take 200 (drop (200 * (page - 1)) (stored s)) \<and> links_next 200 page (length (stored s)) t)"
  proof (cases "page = 1")
    case True
    then have "s' = s" "r = Inr \<lparr>as_StatusCode = 200, as_Body = (if s then ''1'' else []), as_BodyErr = None\<rparr>"
      using m u d by (auto simp: store_api_def plain_api_def)
    then show ?thesis using True lim by (auto simp: store_api_def stored_def links_next_def)
  next
    case False
    then have "ar_URL req \<noteq> do_recordsURL demo_D ''example.com'' ''_tincan'' 1"
      using first_page_only(2) [OF p] u by (auto simp: first_pages_def)
    then have "s' = s" "r = Inr \<lparr>as_StatusCode = 404, as_Body = [], as_BodyErr = None\<rparr>"
      using m d by (simp_all add: store_api_def plain_api_def)
    then show ?thesis by simp
  qed
qed

lemma store_api_accepts:
  "accepted store_api req s s' \<Longrightarrow> ar_Method req = ''GET'' \<or> ar_Method req = ''POST'' \<and> ar_Body req = Some ''b'' \<and> \<not> s \<and> s'"
  unfolding accepted_def store_api_def plain_api_def by (auto split: if_splits)

lemma store_api_service: "do_service store_api demo_D ''example.com'' ''_tincan'' stored"
proof -
  have body: "map_of create_body ''data'' = Some (JString demo_value)" by code_simp
  have fs: "fs = create_body" if "has_body store_api req fs" for req fs
    using that by (auto simp: has_body_def store_api_def split: if_splits)
  have post: "\<exists>i. i \<notin> dor_ID ` set (stored s) \<and> stored s' = stored s @ [\<lparr>dor_ID = i, dor_Type = ''TXT'', dor_Name = ''_tincan'', dor_Data = v\<rparr>]"
    if "accepted store_api req s s'" "ar_Method req = ''POST''" "has_body store_api req f" "map_of f ''data'' = Some (JString v)" for req s s' f v
    using store_api_accepts [OF that(1)] that(2,4) body unfolding fs [OF that(3)] by (auto simp: stored_def demo_doRecord_def)
  have none: "\<not> accepted store_api req s s'" if "ar_Method req = ''PUT'' \<or> ar_Method req = ''DELETE''" for req s s'
    using store_api_accepts [of req s s'] that by auto
  show ?thesis
    unfolding do_service_def
    by (intro conjI allI impI store_api_pages post) (simp_all add: none, simp add: stored_def)
qed

section \<open>Requests stay at the API\<close>

text \<open>C28: no request of a provider leaves the address of its API: for the provider that a configuration selects,
  the address is a fixed one with TLS, and whatever is true of the world and kept by every request to an address below
  it is kept by every listing, creation, update, deletion, replacement and flush, whatever zone, name, identifier and values they are given. (Redirections are followed by the HTTP client.)\<close>

theorem api_confined:
  assumes "map_of constructors (pf_Name cfg) = Some ctor" and "ctor cfg = Inr P" and "kept_below E (ps_baseURL P) N"
  shows "dnsprovider_New (api_provider E S X decodeRRset) cfg = Inr (api_provider E S X decodeRRset P) \<and>
    hasPrefix (ps_baseURL P) ''https://'' \<and> provider_keeps (\<lambda>c. N (cl_net c)) (api_provider E S X decodeRRset P)"
proof (intro conjI)
  show "dnsprovider_New (api_provider E S X decodeRRset) cfg = Inr (api_provider E S X decodeRRset P)"
    using assms(1,2) by (simp add: dnsprovider_New_def)
  show "hasPrefix (ps_baseURL P) ''https://''"
    using assms(1,2) by (auto simp: constructors_def hasPrefix_iff newOVH_def ovhEndpoints_def newLinode_def newDigitalOcean_def
      newCloudflare_def newHetzner_def newDeSEC_def newRoute53_def split: if_splits option.splits)
  show "provider_keeps (\<lambda>c. N (cl_net c)) (api_provider E S X decodeRRset P)"
    unfolding api_provider_def
    using record_APIs_confined [OF assms(3)] set_APIs_confined [OF assms(3)] by simp
qed

theorem api_confined_witness:
  "list_all (\<lambda>u. hasPrefix u ''https://api.linode.com/v4/'')
     (cl_net (fst (pv_DeleteTXT (api_provider log_api plain_sign plain_xml no_decoder (newLinode (demo_config ''linode'')))
        (new_client []) ''example.com'' ''../../x'')))"
proof -
  let ?P = "newLinode (demo_config ''linode'')" and ?N = "list_all (\<lambda>u. hasPrefix u ''https://api.linode.com/v4/'')"
  have "kept_below log_api (ps_baseURL ?P) ?N"
    by (auto simp: kept_below_def log_api_def plain_api_def newLinode_def)
  then have "provider_keeps (\<lambda>c. ?N (cl_net c)) (api_provider log_api plain_sign plain_xml no_decoder ?P)"
    using api_confined [of "demo_config ''linode''" "Inr \<circ> newLinode" ?P log_api ?N plain_sign plain_xml no_decoder]
    by (simp add: constructors_def demo_config_def)
  then have "keeps (\<lambda>c. ?N (cl_net c)) (\<lambda>c. pv_DeleteTXT (api_provider log_api plain_sign plain_xml no_decoder ?P) c ''example.com'' ''../../x'')"
    by (simp only: provider_keeps_def)
  then show ?thesis by (rule keepsD [OF _ prod.collapse [symmetric]]) (simp add: new_client_def)
qed

section \<open>Listings\<close>

text \<open>C27: listing the records of a name ends, and lists them all: with the pages served as the APIs document (page \<open>p\<close> holds the
  \<open>p\<close>-th share of the records, with the number of pages or a link to the next one), the loops of Linode, DigitalOcean, Cloudflare and
  Hetzner end; a successful listing has exactly the TXT records of the name, over all pages and in order, and an
  error is the error of a page.\<close>

theorem listings_complete:
  assumes "resolveDomainID E PL zone c = (cL, Inr j)" and "cf_resolveZoneID E PC zone c = (cC, Inr z)"
    and "hetzner_resolveZoneID E PH zone c = (cH, Inr h)"
    and "serves_pages E (linode_headers PL (record_filter E name)) (linode_recordsURL PL j) (ae_linodeRecords E) recsL (counts_pages 500) 500"
    and "serves_pages E (bearer PD) (do_recordsURL PD zone (doRelName name)) (ae_doRecords E) recsD (links_next 200) 200"
    and "serves_pages E (bearer PC) (cf_recordsURL PC z (cfFQDN name zone)) (cf_decode E) recsC (counts_pages 100) 100"
    and "serves_pages E [(''Auth-API-Token'', ps_token PH)] (hetzner_recordsURL PH h) (ae_hetznerRecords E) recsH (counts_pages 100) 100"
  shows "(\<exists>c' r. linode_ListTXT E PL zone name c = Some (c', r) \<and>
      (\<forall>rs. r = Inr rs \<longrightarrow> rs = List.map_filter (linode_pick name) (recsL (cl_net cL))) \<and>
      (\<forall>e. r = Inl e \<longrightarrow> (\<exists>p c1. snd (linode_page E PL j name p c1) = Inl e))) \<and>
    (\<exists>c' r. do_ListTXT E PD zone name c = Some (c', r) \<and>
      (\<forall>rs. r = Inr rs \<longrightarrow> rs = List.map_filter (do_pick (doRelName name)) (recsD (cl_net c))) \<and>
      (\<forall>e. r = Inl e \<longrightarrow> (\<exists>p c1. snd (do_page E PD zone (doRelName name) p c1) = Inl e))) \<and>
    (\<exists>c' r. cf_ListTXT E PC zone name c = Some (c', r) \<and>
      (\<forall>rs. r = Inr rs \<longrightarrow> rs = List.map_filter (cf_pick (cfFQDN name zone)) (recsC (cl_net cC))) \<and>
      (\<forall>e. r = Inl e \<longrightarrow> (\<exists>p c1. snd (cf_page E PC z (cfFQDN name zone) p c1) = Inl e))) \<and>
    (\<exists>c' r. hetzner_ListTXT E PH zone name c = Some (c', r) \<and>
      (\<forall>rs. r = Inr rs \<longrightarrow> rs = List.map_filter (hetzner_pick (hetznerRelName name)) (recsH (cl_net cH))) \<and>
      (\<forall>e. r = Inl e \<longrightarrow> (\<exists>p c1. snd (hetzner_page E PH h p c1) = Inl e)))"
  using linode_pages.page_loop_complete [OF assms(4), where c = cL and pick = "linode_pick name"]
    do_pages.page_loop_complete [OF assms(5), where c = c and pick = "do_pick (doRelName name)"]
    cf_pages.page_loop_complete [OF assms(6), where c = cC and pick = "cf_pick (cfFQDN name zone)"]
    hetzner_pages.page_loop_complete [OF assms(7), where c = cH and pick = "hetzner_pick (hetznerRelName name)"]
  unfolding linode_ListTXT_def do_ListTXT_def cf_ListTXT_def hetzner_ListTXT_def assms(1-3)
  by (intro conjI) auto

definition demo_client :: "unit apiClient" where
  "demo_client = \<lparr>cl_net = (), cl_zoneID = ''z'', cl_domainID = 7, cl_delta = None\<rparr>"

declare page_loop.simps [code]

lemma demo_listings_ok:
  "case linode_ListTXT list_api demo_L ''example.com'' ''_tincan'' demo_client of Some (c, Inr rs) \<Rightarrow> True | _ \<Rightarrow> False"
  "case do_ListTXT list_api demo_D ''example.com'' ''_tincan'' demo_client of Some (c, Inr rs) \<Rightarrow> True | _ \<Rightarrow> False"
  "case cf_ListTXT list_api demo_C ''example.com'' ''_tincan'' demo_client of Some (c, Inr rs) \<Rightarrow> True | _ \<Rightarrow> False"
  "case hetzner_ListTXT list_api demo_H ''example.com'' ''_tincan'' demo_client of Some (c, Inr rs) \<Rightarrow> True | _ \<Rightarrow> False"
  by code_simp+

lemma listed_records:
  "case l of Some (c, Inr rs) \<Rightarrow> True | _ \<Rightarrow> False \<Longrightarrow>
     \<exists>c' r. l = Some (c', r) \<and> (\<forall>rs. r = Inr rs \<longrightarrow> rs = xs) \<and> Q r \<Longrightarrow> \<exists>c. l = Some (c, Inr xs)"
  by (auto split: sum.splits) (metis sum.exhaust)

theorem listings_complete_witness:
  "(\<exists>c. linode_ListTXT list_api demo_L ''example.com'' ''_tincan'' demo_client = Some (c, Inr [\<lparr>tx_ID = ''1'', tx_Value = demo_value\<rparr>])) \<and>
   (\<exists>c. do_ListTXT list_api demo_D ''example.com'' ''_tincan'' demo_client = Some (c, Inr [\<lparr>tx_ID = ''1'', tx_Value = demo_value\<rparr>])) \<and>
   (\<exists>c. cf_ListTXT list_api demo_C ''example.com'' ''_tincan'' demo_client = Some (c, Inr [\<lparr>tx_ID = ''r1'', tx_Value = demo_value\<rparr>])) \<and>
   (\<exists>c. hetzner_ListTXT list_api demo_H ''example.com'' ''_tincan'' demo_client = Some (c, Inr [\<lparr>tx_ID = ''r1'', tx_Value = demo_value\<rparr>]))"
proof -
  have r: "resolveDomainID list_api demo_L ''example.com'' demo_client = (demo_client, Inr 7)"
    "cf_resolveZoneID list_api demo_C ''example.com'' demo_client = (demo_client, Inr ''z'')"
    "hetzner_resolveZoneID list_api demo_H ''example.com'' demo_client = (demo_client, Inr ''z'')"
    by (simp_all add: demo_client_def resolveDomainID_def cf_resolveZoneID_def hetzner_resolveZoneID_def)
  have n: "doRelName ''_tincan'' = ''_tincan''" "cfFQDN ''_tincan'' ''example.com'' = ''_tincan.example.com''" by code_simp+
  have picked: "List.map_filter (linode_pick ''_tincan'') [demo_linodeRecord] = [\<lparr>tx_ID = ''1'', tx_Value = demo_value\<rparr>]"
    "List.map_filter (do_pick ''_tincan'') [demo_doRecord] = [\<lparr>tx_ID = ''1'', tx_Value = demo_value\<rparr>]"
    "List.map_filter (cf_pick ''_tincan.example.com'') [demo_cfRecord] = [\<lparr>tx_ID = ''r1'', tx_Value = demo_value\<rparr>]"
    "List.map_filter (hetzner_pick (hetznerRelName ''_tincan'')) [demo_hetznerRecord] = [\<lparr>tx_ID = ''r1'', tx_Value = demo_value\<rparr>]"
    by code_simp+
  note all = listings_complete [OF r list_api_pages(1), of demo_D "''_tincan''" "\<lambda>_. [demo_doRecord]" "\<lambda>_. [demo_cfRecord]" "\<lambda>_. [demo_hetznerRecord]",
    unfolded n, OF list_api_pages(2-4), unfolded picked]
  show ?thesis
    using demo_listings_ok [THEN listed_records] all by (elim conjE) (intro conjI; assumption)
qed

section \<open>A drop on an API\<close>

text \<open>The drop's provider is one of the two clients, and its service behaves as documented; \<open>table\<close> is what is stored at the name.\<close>

definition api_drop ::
  "'s apiEnv \<Rightarrow> (bytes \<Rightarrow> string list res) \<Rightarrow> providerSettings \<Rightarrow> 's apiClient DNS \<Rightarrow> ('s apiClient \<Rightarrow> string \<Rightarrow> string option) \<Rightarrow> bool" where
  "api_drop E decodeRRset P d table \<longleftrightarrow>
     (\<exists>recs. dn_provider d = Some (do_provider E P) \<and> do_service E P (dn_zone d) (doRelName (dn_name d)) recs \<and>
        table = do_table (doRelName (dn_name d)) recs) \<or>
     (\<exists>recs. dn_provider d = Some (desec_provider E decodeRRset P) \<and> desec_service E decodeRRset P (dn_zone d) (dn_name d) recs \<and>
        table = desec_table (dn_name d) recs)"

lemma api_drop_laws:
  "api_drop E decodeRRset P d table \<Longrightarrow> lookup_ok (dn_lookup d) (dn_fqdn d) table \<Longrightarrow> dns_laws table d"
  unfolding api_drop_def dns_laws_def by (auto dest: do_provider_ok desec_provider_ok)

text \<open>C26: a directory published through DigitalOcean or deSEC comes back: the sequence of HTTP requests that \<open>Put\<close> makes through the
  client (list the pages, then create, update and delete records one by one, or replace the whole record set) stores exactly the
  blob, and the records at the name that are not the drop's are left alone.\<close>

theorem api_publish_read:
  assumes "api_drop E decodeRRset P d table" and "lookup_ok (dn_lookup d) (dn_fqdn d) table"
    and "dns_Put d dat c = (c', None)" and "dn_lookup d c' (dn_fqdn d) = Inr values" and "listing (table c) ex"
  shows "dns_Get d c' = Inr dat \<and>
    mset (filter (\<lambda>v. \<not> isChunk v) values) = mset (filter (\<lambda>v. \<not> isChunk v) (map tx_Value ex))"
  using dns_Put_Get [OF api_drop_laws [OF assms(1,2)] assms(3,4)] assms(5) by blast

definition store_drop :: "bool apiClient DNS" where
  "store_drop =
     \<lparr>dn_zone = ''example.com'', dn_name = ''_tincan'', dn_fqdn = ''_tincan.example.com'', dn_provider = Some (do_provider store_api demo_D),
      dn_lookup = (\<lambda>c n. Inr (map dor_Data (stored (cl_net c))))\<rparr>"

theorem api_publish_read_witness:
  "dns_Get store_drop (fst (dns_Put store_drop ''hi'' (new_client False))) = Inr ''hi''"
proof -
  let ?t = "do_table ''_tincan'' stored"
  have rel: "doRelName ''_tincan'' = ''_tincan''" by code_simp
  have rs: "do_records ''_tincan'' stored c = map (\<lambda>r. \<lparr>tx_ID = itoa (dor_ID r), tx_Value = dor_Data r\<rparr>) (stored (cl_net c))" for c
    by (auto simp: do_records_def stored_def demo_doRecord_def do_pick_def map_filter_simps equalFold_def)
  have l: "listing (?t c) (do_records ''_tincan'' stored c)" for c
    by (auto simp: listing_def do_table_def rs stored_def)
  have "lookup_ok (dn_lookup store_drop) (dn_fqdn store_drop) ?t"
    unfolding lookup_ok_def store_drop_def
    by (intro allI impI, rule exI [of _ "do_records ''_tincan'' stored _"]) (use l in \<open>auto simp: rs comp_def\<close>)
  moreover have "api_drop store_api no_decoder demo_D store_drop ?t"
    unfolding api_drop_def using store_api_service by (auto simp: store_drop_def rel)
  moreover have "dns_Put store_drop ''hi'' (new_client False) = (new_client True, None)"
  proof -
    have pg: "do_page store_api demo_D ''example.com'' ''_tincan'' 1 (new_client False) = (new_client False, Inr ([], True))"
      and cr: "do_CreateTXT store_api demo_D ''example.com'' ''_tincan'' ''tc1;0;1;aGk'' (new_client False) = (new_client True, Inr [])"
      and ch: "chunkBlob ''hi'' = Inr [''tc1;0;1;aGk'']" by code_simp+
    have "do_ListTXT store_api demo_D ''example.com'' ''_tincan'' (new_client False) = Some (new_client False, Inr [])"
      unfolding do_ListTXT_def rel by (subst page_loop.simps) (simp add: pg [simplified] map_filter_simps)
    then show ?thesis
      by (simp add: dns_Put_def store_drop_def ch do_provider_def listed_def splitTXTRecords_def cr outcome_def)
  qed
  ultimately show ?thesis
    using api_publish_read [of store_api no_decoder demo_D store_drop ?t "''hi''" "new_client False" "new_client True" _
      "do_records ''_tincan'' stored (new_client False)"] l by (simp add: store_drop_def)
qed

section \<open>What Route 53 signs\<close>

text \<open>Route 53 signs the query that it sends: the query string of a request, written by \<open>awsCanonicalQuery\<close>, is read back by
  \<open>URL.Query\<close> as the same pairs, whatever bytes the keys and values have, and encoding them again for the signature gives the
  same string.\<close>

theorem route53_signs_what_it_sends:
  assumes "q \<noteq> []"
  shows "mset (url_Query (awsCanonicalQuery q)) = mset q \<and> awsCanonicalQuery (url_Query (awsCanonicalQuery q)) = awsCanonicalQuery q"
  using url_Query_canonical [OF assms] by (simp add: awsCanonicalQuery_def sorted_sort_id)

theorem route53_signs_what_it_sends_witness:
  "awsCanonicalQuery (url_Query (awsCanonicalQuery [(''type'', ''TXT''), (''name'', ''_a b&c=d;+%.example.com'')])) =
     ''name=_a%20b%26c%3Dd%3B%2B%25.example.com&type=TXT''"
proof -
  have "awsCanonicalQuery [(''type'', ''TXT''), (''name'', ''_a b&c=d;+%.example.com'')] = ''name=_a%20b%26c%3Dd%3B%2B%25.example.com&type=TXT''"
    by code_simp
  then show ?thesis
    using route53_signs_what_it_sends [of "[(''type'', ''TXT''), (''name'', ''_a b&c=d;+%.example.com'')]"] by simp
qed

end
