(* ===== verification/Codec.thy ===== *)
theory Codec
  imports Directory
begin

text \<open>
  Sealing and opening a directory (\<open>src/internal/directory/codec.go\<close>): the compact wire form of a
  node, the signed envelope and its encryption to the members. msgpack is a parameter: it encodes
  the header of the directory with the wire forms of its nodes, and the envelope.
\<close>

section \<open>Wire forms\<close>

record wireNode =
  w_Name :: string
  w_PublicKey :: bytes
  w_TunnelIP :: "u8 list"
  w_AgeRecipient :: string
  w_Endpoint :: string
  w_Relay :: bool
  w_ObservedEndpoint :: string
  w_ObservedAt :: gotime
  w_PSK :: bytes

record envelope =
  e_Payload :: bytes
  e_Signature :: bytes

text \<open>What msgpack sees of a directory: its header and its nodes in wire form.\<close>

record wireDirectory =
  wd_SchemaVersion :: u32
  wd_Serial :: u64
  wd_CreatedAt :: gotime
  wd_NetworkCIDR :: string
  wd_Domain :: string
  wd_Nodes :: "wireNode list"

record mplib =
  mp_EncodeDir :: "wireDirectory \<Rightarrow> bytes res"
  mp_DecodeDir :: "bytes \<Rightarrow> wireDirectory res"
  mp_EncodeEnv :: "envelope \<Rightarrow> bytes res"
  mp_DecodeEnv :: "bytes \<Rightarrow> envelope res"

definition mplib_ok :: "mplib \<Rightarrow> bool" where
  "mplib_ok M \<longleftrightarrow>
     (\<forall>w b. mp_EncodeDir M w = Inr b \<longrightarrow> mp_DecodeDir M b = Inr w \<and> b \<noteq> []) \<and>
     (\<forall>e b. mp_EncodeEnv M e = Inr b \<longrightarrow> mp_DecodeEnv M b = Inr e)"

definition Stamp :: "gotime \<Rightarrow> gotime" where
  "Stamp now = time_Truncate now second"

definition toWire :: "wglib \<Rightarrow> node \<Rightarrow> wireNode res" where
  "toWire W n =
     bindR (wrapR ''encode node'' (WGKeyToBytes W (n_PublicKey n))) (\<lambda>pk.
     case parseAddr (n_TunnelIP n) of
       None \<Rightarrow> Inl (Err ''encode node: tunnel IP is not IPv4'')
     | Some (V6 _ _) \<Rightarrow> Inl (Err ''encode node: tunnel IP is not IPv4'')
     | Some (V4 ip) \<Rightarrow>
         bindR (if n_PSK n \<noteq> [] then wrapR ''encode node PSK'' (WGKeyToBytes W (n_PSK n)) else Inr []) (\<lambda>psk.
         Inr \<lparr>w_Name = n_Name n, w_PublicKey = pk, w_TunnelIP = ip4_bytes ip,
              w_AgeRecipient = n_AgeRecipient n, w_Endpoint = n_Endpoint n, w_Relay = n_Relay n,
              w_ObservedEndpoint = n_ObservedEndpoint n, w_ObservedAt = n_ObservedAt n,
              w_PSK = psk\<rparr>))"

definition fromWire :: "wglib \<Rightarrow> wireNode \<Rightarrow> node res" where
  "fromWire W w =
     bindR (wrapR ''decode node'' (WGKeyFromBytes W (w_PublicKey w))) (\<lambda>pk.
     if length (w_TunnelIP w) \<noteq> 4 then Inl (Err ''decode node: tunnel IP size'')
     else
       bindR (if w_PSK w \<noteq> [] then wrapR ''decode node PSK'' (WGKeyFromBytes W (w_PSK w)) else Inr []) (\<lambda>psk.
       Inr \<lparr>n_Name = w_Name w, n_PublicKey = pk, n_TunnelIP = ip4_String (ip4_of_bytes (w_TunnelIP w)),
            n_AgeRecipient = w_AgeRecipient w, n_Endpoint = w_Endpoint w, n_Relay = w_Relay w,
            n_ObservedEndpoint = w_ObservedEndpoint w, n_ObservedAt = w_ObservedAt w,
            n_PSK = psk\<rparr>))"

text \<open>The calls msgpack makes on each element of \<open>Nodes\<close>; the first error ends the encoding.\<close>

fun EncodeMsgpack :: "wglib \<Rightarrow> node list \<Rightarrow> wireNode list res" where
  "EncodeMsgpack W [] = Inr []"
| "EncodeMsgpack W (n # ns) =
     bindR (toWire W n) (\<lambda>w. bindR (EncodeMsgpack W ns) (\<lambda>ws. Inr (w # ws)))"

fun DecodeMsgpack :: "wglib \<Rightarrow> wireNode list \<Rightarrow> node list res" where
  "DecodeMsgpack W [] = Inr []"
| "DecodeMsgpack W (w # ws) =
     bindR (fromWire W w) (\<lambda>n. bindR (DecodeMsgpack W ws) (\<lambda>ns. Inr (n # ns)))"

definition msgpack_Marshal :: "wglib \<Rightarrow> mplib \<Rightarrow> directory \<Rightarrow> bytes res" where
  "msgpack_Marshal W M dir =
     bindR (EncodeMsgpack W (d_Nodes dir)) (\<lambda>ws.
     mp_EncodeDir M \<lparr>wd_SchemaVersion = d_SchemaVersion dir, wd_Serial = d_Serial dir,
       wd_CreatedAt = d_CreatedAt dir, wd_NetworkCIDR = d_NetworkCIDR dir,
       wd_Domain = d_Domain dir, wd_Nodes = ws\<rparr>)"

definition msgpack_Unmarshal :: "wglib \<Rightarrow> mplib \<Rightarrow> bytes \<Rightarrow> directory res" where
  "msgpack_Unmarshal W M data =
     bindR (mp_DecodeDir M data) (\<lambda>wd.
     bindR (DecodeMsgpack W (wd_Nodes wd)) (\<lambda>ns.
     Inr \<lparr>d_SchemaVersion = wd_SchemaVersion wd, d_Serial = wd_Serial wd,
       d_CreatedAt = wd_CreatedAt wd, d_NetworkCIDR = wd_NetworkCIDR wd,
       d_Domain = wd_Domain wd, d_Nodes = ns\<rparr>))"

definition stamped :: "gotime \<Rightarrow> directory \<Rightarrow> directory" where
  "stamped now dir =
     dir\<lparr>d_SchemaVersion := SchemaVersion,
         d_CreatedAt := (if time_IsZero (d_CreatedAt dir) then Stamp now else d_CreatedAt dir)\<rparr>"

definition MarshalPlain :: "wglib \<Rightarrow> agelib \<Rightarrow> mplib \<Rightarrow> gotime \<Rightarrow> directory \<Rightarrow> bytes res" where
  "MarshalPlain W A M now dir0 =
     (let dir = stamped now dir0
      in bindR (Validate W A dir) (\<lambda>_. msgpack_Marshal W M dir))"

definition UnmarshalPlain :: "wglib \<Rightarrow> agelib \<Rightarrow> mplib \<Rightarrow> bytes \<Rightarrow> directory res" where
  "UnmarshalPlain W A M data =
     bindR (wrapR ''decode directory'' (msgpack_Unmarshal W M data)) (\<lambda>dir.
     bindR (Validate W A dir) (\<lambda>_. Inr dir))"

section \<open>Seal and Open\<close>

definition signingDomain :: bytes where
  "signingDomain = ''tincan directory v2 signature'' @ [CHR 0x00]"

definition signingBytes :: "bytes \<Rightarrow> bytes" where
  "signingBytes payload = signingDomain @ payload"

fun recipientsOf :: "agelib \<Rightarrow> node list \<Rightarrow> bytes list res" where
  "recipientsOf A [] = Inr []"
| "recipientsOf A (n # ns) =
     (if n_AgeRecipient n = [] then recipientsOf A ns
      else bindR (wrapR ''node'' (ParseAgeRecipient A (n_AgeRecipient n))) (\<lambda>r.
           bindR (recipientsOf A ns) (\<lambda>rs. Inr (r # rs))))"

text \<open>The libraries a sealed directory depends on.\<close>

record libs =
  l_wg :: wglib
  l_age :: agelib
  l_ed :: edlib
  l_mp :: mplib

definition libs_ok :: "libs \<Rightarrow> bool" where
  "libs_ok L \<longleftrightarrow> wglib_ok (l_wg L) \<and> agelib_ok (l_age L) \<and> edlib_ok (l_ed L) \<and> mplib_ok (l_mp L)"

definition Seal :: "libs \<Rightarrow> nat \<Rightarrow> gotime \<Rightarrow> directory \<Rightarrow> string \<Rightarrow> bytes res" where
  "Seal L rnd now dir publisherPrivateKey =
     bindR (MarshalPlain (l_wg L) (l_age L) (l_mp L) now dir) (\<lambda>payload.
     bindR (recipientsOf (l_age L) (d_Nodes dir)) (\<lambda>recipients.
     if recipients = [] then Inl (Err ''directory has no age recipients to seal to'')
     else bindR (DecodeEd25519Private publisherPrivateKey) (\<lambda>publisherKey.
     bindR (wrapR ''encode directory envelope''
              (mp_EncodeEnv (l_mp L)
                 \<lparr>e_Payload = payload, e_Signature = ed_Sign (l_ed L) publisherKey (signingBytes payload)\<rparr>))
       (\<lambda>envelopeBytes. wrapR ''age encryption'' (age_Encrypt (l_age L) rnd recipients envelopeBytes)))))"

definition MaxBlobSize :: nat where "MaxBlobSize = 4194304"

text \<open>\<open>io.ReadAll\<close> on a reader limited to \<open>n + 1\<close> bytes.\<close>

definition readAll_limited :: "nat \<Rightarrow> bytes \<times> error option \<Rightarrow> bytes res" where
  "readAll_limited n r =
     (if length (fst r) > n then Inr (take (Suc n) (fst r))
      else case snd r of Some e \<Rightarrow> Inl e | None \<Rightarrow> Inr (fst r))"

definition Open :: "libs \<Rightarrow> bytes \<Rightarrow> string \<Rightarrow> string \<Rightarrow> (directory \<times> bytes) res" where
  "Open L blob networkIdentity publisherPublicKey =
     (if length blob > MaxBlobSize then Inl (Err ''directory blob too large'')
      else
        bindR (ParseAgeIdentity (l_age L) networkIdentity) (\<lambda>identity.
        bindR (DecodeEd25519Public publisherPublicKey) (\<lambda>publisherKey.
        bindR (wrapR ''decrypt directory'' (age_Decrypt (l_age L) blob identity)) (\<lambda>r.
        bindR (wrapR ''read decrypted directory'' (readAll_limited MaxBlobSize r)) (\<lambda>plaintext.
        if length plaintext > MaxBlobSize then Inl (Err ''decrypted directory too large'')
        else bindR (wrapR ''decode directory envelope'' (mp_DecodeEnv (l_mp L) plaintext)) (\<lambda>env.
        if e_Payload env = [] \<or> e_Signature env = [] then
          Inl (Err ''directory envelope missing payload or signature'')
        else if \<not> ed_Verify (l_ed L) publisherKey (signingBytes (e_Payload env)) (e_Signature env) then
          Inl (Err ''directory signature verification failed'')
        else bindR (UnmarshalPlain (l_wg L) (l_age L) (l_mp L) (e_Payload env)) (\<lambda>dir.
          Inr (dir, e_Payload env))))))))"

section \<open>The wire form of a node\<close>

text \<open>A key string is canonical when it is what the library prints.\<close>

definition canonical_key :: "wglib \<Rightarrow> string \<Rightarrow> bool" where
  "canonical_key W s = (\<exists>k. length k = 32 \<and> s = wg_String W k)"

definition canonical_node :: "wglib \<Rightarrow> node \<Rightarrow> bool" where
  "canonical_node W n = (canonical_key W (n_PublicKey n) \<and> (n_PSK n = [] \<or> canonical_key W (n_PSK n)))"

text \<open>The canonical spelling of a key, as the wire form gives it back.\<close>

definition canon_key :: "wglib \<Rightarrow> string \<Rightarrow> string" where
  "canon_key W s = (case WGKeyToBytes W s of Inl _ \<Rightarrow> s | Inr k \<Rightarrow> wg_String W k)"

definition canon_node :: "wglib \<Rightarrow> node \<Rightarrow> node" where
  "canon_node W n =
     n\<lparr>n_PublicKey := canon_key W (n_PublicKey n),
       n_PSK := (if n_PSK n = [] then [] else canon_key W (n_PSK n))\<rparr>"

lemma canon_key_canonical: "wglib_ok W \<Longrightarrow> canonical_key W s \<Longrightarrow> canon_key W s = s"
  by (auto simp: canonical_key_def canon_key_def wg_key_bytes)

lemma canon_node_canonical: "wglib_ok W \<Longrightarrow> canonical_node W n \<Longrightarrow> canon_node W n = n"
  by (auto simp: canonical_node_def canon_node_def canon_key_canonical)

lemma fromWire_toWire:
  assumes W: "wglib_ok W" and t: "toWire W n = Inr w"
  shows "fromWire W w = Inr (canon_node W n)"
proof -
  obtain pk where pk: "WGKeyToBytes W (n_PublicKey n) = Inr pk" using t by (auto simp: toWire_def)
  obtain a where a: "parseAddr (n_TunnelIP n) = Some a"
    using t by (cases "parseAddr (n_TunnelIP n)") (auto simp: toWire_def)
  obtain ip where "a = V4 ip" using t a by (cases a) (auto simp: toWire_def)
  with a have ip: "n_TunnelIP n = ip4_String ip" by (simp add: parseAddr_V4)
  have lpk: "length pk = 32" using wg_key_bytes(4) [OF W pk] .
  show ?thesis
  proof (cases "n_PSK n = []")
    case True
    then show ?thesis using t pk lpk ip
      by (auto simp: toWire_def fromWire_def wg_key_bytes(3) [OF W] canon_node_def canon_key_def)
  next
    case False
    then obtain psk where psk: "WGKeyToBytes W (n_PSK n) = Inr psk"
      using t pk ip by (auto simp: toWire_def)
    then have "length psk = 32" by (rule wg_key_bytes(4) [OF W])
    moreover from this have "psk \<noteq> []" by auto
    ultimately show ?thesis using t pk lpk ip False psk
      by (auto simp: toWire_def fromWire_def wg_key_bytes(3) [OF W] canon_node_def canon_key_def)
  qed
qed

lemma DecodeMsgpack_EncodeMsgpack:
  assumes "wglib_ok W"
  shows "EncodeMsgpack W ns = Inr ws \<Longrightarrow> DecodeMsgpack W ws = Inr (map (canon_node W) ns)"
  by (induction ns arbitrary: ws) (auto simp: fromWire_toWire [OF assms])

definition canon_dir :: "wglib \<Rightarrow> directory \<Rightarrow> directory" where
  "canon_dir W dir = dir\<lparr>d_Nodes := map (canon_node W) (d_Nodes dir)\<rparr>"

lemma canon_dir_canonical:
  "wglib_ok W \<Longrightarrow> list_all (canonical_node W) (d_Nodes dir) \<Longrightarrow> canon_dir W dir = dir"
proof -
  assume "wglib_ok W" and "list_all (canonical_node W) (d_Nodes dir)"
  then have "map (canon_node W) (d_Nodes dir) = d_Nodes dir"
    by (simp add: list_all_iff canon_node_canonical map_idI)
  then show ?thesis by (simp add: canon_dir_def)
qed

lemma Unmarshal_Marshal:
  assumes "wglib_ok W" and "mplib_ok M" and "msgpack_Marshal W M dir = Inr b"
  shows "msgpack_Unmarshal W M b = Inr (canon_dir W dir)"
proof -
  obtain ws where ws: "EncodeMsgpack W (d_Nodes dir) = Inr ws"
    and b: "mp_EncodeDir M \<lparr>wd_SchemaVersion = d_SchemaVersion dir, wd_Serial = d_Serial dir,
       wd_CreatedAt = d_CreatedAt dir, wd_NetworkCIDR = d_NetworkCIDR dir,
       wd_Domain = d_Domain dir, wd_Nodes = ws\<rparr> = Inr b"
    using assms(3) by (auto simp: msgpack_Marshal_def)
  have "mp_DecodeDir M b = Inr \<lparr>wd_SchemaVersion = d_SchemaVersion dir, wd_Serial = d_Serial dir,
       wd_CreatedAt = d_CreatedAt dir, wd_NetworkCIDR = d_NetworkCIDR dir,
       wd_Domain = d_Domain dir, wd_Nodes = ws\<rparr>"
    using assms(2) b by (auto simp: mplib_ok_def)
  then show ?thesis
    by (simp add: msgpack_Unmarshal_def DecodeMsgpack_EncodeMsgpack [OF assms(1) ws] canon_dir_def)
qed

lemma EncodeMsgpack_total:
  assumes "list_all (node_ok W A domain prefix) ns"
    and "list_all (\<lambda>n. n_PSK n = [] \<or> is_ok (WGKeyToBytes W (n_PSK n))) ns"
  shows "is_ok (EncodeMsgpack W ns)"
  using assms
proof (induction ns)
  case (Cons n ns)
  then obtain w where ip: "n_TunnelIP n = ip4_String w" by (auto simp: node_ok_def)
  obtain pk where "WGKeyToBytes W (n_PublicKey n) = Inr pk"
    using Cons.prems(1) by (auto simp: node_ok_def is_ok_iff ParseWGPublic_WGKeyToBytes)
  then have "is_ok (toWire W n)" using Cons.prems(2) ip
    by (auto simp: toWire_def is_ok_iff)
  moreover have "is_ok (EncodeMsgpack W ns)" using Cons by simp
  ultimately show ?case by (auto simp: is_ok_iff)
qed simp

lemma recipientsOf_members:
  "recipientsOf A ns = Inr rs \<Longrightarrow>
     set rs = {r. \<exists>n \<in> set ns. n_AgeRecipient n \<noteq> [] \<and> ParseAgeRecipient A (n_AgeRecipient n) = Inr r}"
  by (induction ns arbitrary: rs) (auto split: if_splits)

lemma Seal_parts:
  assumes "Seal L rnd now dir priv = Inr blob"
  obtains payload rs k env where
    "MarshalPlain (l_wg L) (l_age L) (l_mp L) now dir = Inr payload"
    "recipientsOf (l_age L) (d_Nodes dir) = Inr rs" "rs \<noteq> []"
    "DecodeEd25519Private priv = Inr k"
    "mp_EncodeEnv (l_mp L) \<lparr>e_Payload = payload, e_Signature = ed_Sign (l_ed L) k (signingBytes payload)\<rparr> = Inr env"
    "age_Encrypt (l_age L) rnd rs env = Inr blob"
  using assms by (auto simp: Seal_def split: if_splits)

lemma MarshalPlain_Unmarshal:
  assumes "wglib_ok W" and "mplib_ok M" and "MarshalPlain W A M now dir = Inr b"
  shows "Validate W A (stamped now dir) = Inr ()" and "b \<noteq> []"
    and "msgpack_Unmarshal W M b = Inr (canon_dir W (stamped now dir))"
proof -
  have m: "msgpack_Marshal W M (stamped now dir) = Inr b"
    using assms(3) by (auto simp: MarshalPlain_def Let_def)
  show "Validate W A (stamped now dir) = Inr ()"
    using assms(3) by (auto simp: MarshalPlain_def Let_def)
  show "b \<noteq> []" using m assms(2) by (auto simp: msgpack_Marshal_def mplib_ok_def)
  show "msgpack_Unmarshal W M b = Inr (canon_dir W (stamped now dir))"
    by (rule Unmarshal_Marshal [OF assms(1,2) m])
qed

lemma marshal_unmarshal_lemma:
  assumes "wglib_ok W" and "mplib_ok M" and "list_all (canonical_node W) (d_Nodes dir)"
    and "MarshalPlain W A M now dir = Inr b"
  shows "UnmarshalPlain W A M b = Inr (stamped now dir)"
proof -
  have "canon_dir W (stamped now dir) = stamped now dir"
    using assms(1,3) by (intro canon_dir_canonical) (simp_all add: stamped_def)
  then show ?thesis
    using MarshalPlain_Unmarshal [OF assms(1,2,4)] by (simp add: UnmarshalPlain_def)
qed

text \<open>Two members are the same to WireGuard when their keys decode to the same bytes.\<close>

definition distinct_keys :: "wglib \<Rightarrow> directory \<Rightarrow> bool" where
  "distinct_keys W dir = distinct (map (WGKeyToBytes W \<circ> n_PublicKey) (d_Nodes dir))"

lemma canon_node_fields [simp]:
  "n_Name (canon_node W n) = n_Name n" "n_TunnelIP (canon_node W n) = n_TunnelIP n"
  "n_Endpoint (canon_node W n) = n_Endpoint n" "n_ObservedEndpoint (canon_node W n) = n_ObservedEndpoint n"
  "n_AgeRecipient (canon_node W n) = n_AgeRecipient n"
  "n_PublicKey (canon_node W n) = canon_key W (n_PublicKey n)"
  by (simp_all add: canon_node_def)

lemma WGKeyToBytes_canon_key [simp]:
  "wglib_ok W \<Longrightarrow> is_ok (WGKeyToBytes W s) \<Longrightarrow> WGKeyToBytes W (canon_key W s) = WGKeyToBytes W s"
  by (auto simp: canon_key_def is_ok_iff wg_key_bytes)

lemma canon_key_eq_iff:
  assumes "wglib_ok W" and "is_ok (WGKeyToBytes W s)" and "is_ok (WGKeyToBytes W t)"
  shows "canon_key W s = canon_key W t \<longleftrightarrow> WGKeyToBytes W s = WGKeyToBytes W t"
proof
  assume "canon_key W s = canon_key W t"
  then have "WGKeyToBytes W (canon_key W s) = WGKeyToBytes W (canon_key W t)" by simp
  then show "WGKeyToBytes W s = WGKeyToBytes W t" using assms by simp
qed (use assms in \<open>auto simp: canon_key_def is_ok_iff\<close>)

lemma node_ok_key: "node_ok W A domain p n \<Longrightarrow> is_ok (WGKeyToBytes W (n_PublicKey n))"
  by (auto simp: node_ok_def is_ok_iff ParseWGPublic_WGKeyToBytes)

lemma node_ok_canon:
  assumes "wglib_ok W" and "node_ok W A domain p n"
  shows "node_ok W A domain p (canon_node W n)"
  using assms(2) node_ok_key [OF assms(2)] WGKeyToBytes_canon_key [OF assms(1)]
  by (auto simp: node_ok_def is_ok_iff ParseWGPublic_WGKeyToBytes)

lemma canon_keys_distinct:
  assumes W: "wglib_ok W" and ok: "\<forall>n \<in> set ns. is_ok (WGKeyToBytes W (n_PublicKey n))"
  shows "distinct (map (n_PublicKey \<circ> canon_node W) ns) \<longleftrightarrow> distinct (map (WGKeyToBytes W \<circ> n_PublicKey) ns)"
  using ok canon_key_eq_iff [OF W] by (auto simp: distinct_map inj_on_def)

lemma canon_dir_fields [simp]:
  "d_SchemaVersion (canon_dir W dir) = d_SchemaVersion dir" "d_Domain (canon_dir W dir) = d_Domain dir"
  "d_NetworkCIDR (canon_dir W dir) = d_NetworkCIDR dir" "d_CreatedAt (canon_dir W dir) = d_CreatedAt dir"
  "d_Serial (canon_dir W dir) = d_Serial dir" "d_Nodes (canon_dir W dir) = map (canon_node W) (d_Nodes dir)"
  by (simp_all add: canon_dir_def)

text \<open>A valid directory stays valid in its canonical spelling exactly when no two of its members
  have the same key.\<close>

lemma Validate_canon_dir:
  assumes W: "wglib_ok W" and v: "Validate W A dir = Inr ()"
  shows "Validate W A (canon_dir W dir) = Inr () \<longleftrightarrow> distinct_keys W dir"
proof -
  have ok: "directory_ok W A dir" using v by (simp add: Validate_ok)
  then obtain p where p: "parsePrefix (d_NetworkCIDR dir) = Some p"
    and n: "\<forall>n \<in> set (d_Nodes dir). node_ok W A (d_Domain dir) (masked p) n"
    by (auto simp: directory_ok_def list_all_iff)
  have k: "\<forall>n \<in> set (d_Nodes dir). is_ok (WGKeyToBytes W (n_PublicKey n))"
    using n node_ok_key by blast
  have "list_all (node_ok W A (d_Domain dir) (masked p)) (map (canon_node W) (d_Nodes dir))"
    using n node_ok_canon [OF W] by (auto simp: list_all_iff)
  with ok p canon_keys_distinct [OF W k] show ?thesis
    by (auto simp: Validate_ok directory_ok_def distinct_keys_def comp_def)
qed

lemma UnmarshalPlain_Marshal:
  assumes "wglib_ok W" and "mplib_ok M" and "MarshalPlain W A M now dir = Inr b"
  shows "UnmarshalPlain W A M b = Inr d \<longleftrightarrow> distinct_keys W dir \<and> d = canon_dir W (stamped now dir)"
proof -
  have "distinct_keys W (stamped now dir) = distinct_keys W dir"
    by (simp add: distinct_keys_def stamped_def)
  then show ?thesis
    using MarshalPlain_Unmarshal [OF assms] Validate_canon_dir [OF assms(1) MarshalPlain_Unmarshal(1) [OF assms]]
    by (cases "Validate W A (canon_dir W (stamped now dir))") (auto simp: UnmarshalPlain_def)
qed

text \<open>The canonical spelling has the same wire form, so that writing what was read gives the same
  bytes.\<close>

lemma toWire_canon_node:
  assumes W: "wglib_ok W" and t: "toWire W n = Inr w"
  shows "toWire W (canon_node W n) = Inr w"
proof -
  obtain pk where pk: "WGKeyToBytes W (n_PublicKey n) = Inr pk" using t by (auto simp: toWire_def)
  obtain a where a: "parseAddr (n_TunnelIP n) = Some a"
    using t by (cases "parseAddr (n_TunnelIP n)") (auto simp: toWire_def)
  obtain ip where ip: "a = V4 ip" using t a by (cases a) (auto simp: toWire_def)
  have pk': "WGKeyToBytes W (canon_key W (n_PublicKey n)) = Inr pk"
    using WGKeyToBytes_canon_key [OF W, of "n_PublicKey n"] pk by (simp add: is_ok_iff)
  show ?thesis
  proof (cases "n_PSK n = []")
    case False
    then obtain psk where psk: "WGKeyToBytes W (n_PSK n) = Inr psk" using t pk a ip by (auto simp: toWire_def)
    then have "WGKeyToBytes W (canon_key W (n_PSK n)) = Inr psk" "canon_key W (n_PSK n) \<noteq> []"
      using WGKeyToBytes_canon_key [OF W, of "n_PSK n"] wg_key_bytes(4) [OF W psk] W
      by (auto simp: is_ok_iff canon_key_def wglib_ok_def)
    with False psk pk pk' a ip t show ?thesis by (simp add: toWire_def canon_node_def)
  qed (use pk pk' a ip t in \<open>simp add: toWire_def canon_node_def\<close>)
qed

lemma EncodeMsgpack_canon:
  assumes "wglib_ok W"
  shows "EncodeMsgpack W ns = Inr ws \<Longrightarrow> EncodeMsgpack W (map (canon_node W) ns) = Inr ws"
  by (induction ns arbitrary: ws) (auto simp: toWire_canon_node [OF assms])

lemma MarshalPlain_canon:
  assumes "wglib_ok W" and "mplib_ok M" and "MarshalPlain W A M now dir = Inr b" and "distinct_keys W dir"
  shows "MarshalPlain W A M now (canon_dir W (stamped now dir)) = Inr b"
proof -
  let ?d = "canon_dir W (stamped now dir)"
  have m: "msgpack_Marshal W M (stamped now dir) = Inr b"
    using assms(3) by (auto simp: MarshalPlain_def Let_def)
  have "stamped now ?d = ?d" by (auto simp: stamped_def canon_dir_def)
  moreover have "distinct_keys W (stamped now dir)" using assms(4) by (simp add: distinct_keys_def stamped_def)
  then have "Validate W A ?d = Inr ()"
    using Validate_canon_dir [OF assms(1) MarshalPlain_Unmarshal(1) [OF assms(1-3)]] by simp
  moreover have "msgpack_Marshal W M ?d = Inr b"
    using m EncodeMsgpack_canon [OF assms(1)] by (auto simp: msgpack_Marshal_def)
  ultimately show ?thesis by (simp add: MarshalPlain_def Let_def)
qed

text \<open>What \<open>Open\<close> does with a sealed blob and any identity and key: it hands the sealed payload to
  \<open>UnmarshalPlain\<close>, or fails earlier.\<close>

lemma Open_Seal_payload:
  assumes L: "libs_ok L" and s: "Seal L rnd now dir priv = Inr blob"
    and o: "Open L blob ident pub = Inr (d, payload)"
  shows "length blob \<le> MaxBlobSize" "MarshalPlain (l_wg L) (l_age L) (l_mp L) now dir = Inr payload"
    "UnmarshalPlain (l_wg L) (l_age L) (l_mp L) payload = Inr d"
proof -
  from s obtain p rs k env where
      p: "MarshalPlain (l_wg L) (l_age L) (l_mp L) now dir = Inr p"
    and env: "mp_EncodeEnv (l_mp L) \<lparr>e_Payload = p, e_Signature = ed_Sign (l_ed L) k (signingBytes p)\<rparr> = Inr env"
    and c: "age_Encrypt (l_age L) rnd rs env = Inr blob" by (rule Seal_parts)
  have ok: "agelib_ok (l_age L)" "mplib_ok (l_mp L)" using L by (simp_all add: libs_ok_def)
  show sz: "length blob \<le> MaxBlobSize" using o by (auto simp: Open_def split: if_splits)
  have "length env \<le> length blob" using ok(1) c unfolding agelib_ok_def by blast
  with sz have le: "length env \<le> MaxBlobSize" by simp
  have d: "age_Decrypt (l_age L) blob i = Inr r \<Longrightarrow> r = (env, None)" for i r
    using ok(1) c unfolding agelib_ok_def is_ok_iff by (metis sum.inject(2))
  have e: "mp_DecodeEnv (l_mp L) env =
      Inr \<lparr>e_Payload = p, e_Signature = ed_Sign (l_ed L) k (signingBytes p)\<rparr>"
    using env ok(2) by (simp add: mplib_ok_def)
  have "payload = p \<and> UnmarshalPlain (l_wg L) (l_age L) (l_mp L) p = Inr d"
    using o d e le by (auto simp: Open_def readAll_limited_def split: if_splits dest!: d)
  then show "MarshalPlain (l_wg L) (l_age L) (l_mp L) now dir = Inr payload"
    "UnmarshalPlain (l_wg L) (l_age L) (l_mp L) payload = Inr d" using p by simp_all
qed

lemma Open_Seal_reads:
  assumes L: "libs_ok L" and s: "Seal L rnd now dir priv = Inr blob" and sz: "length blob \<le> MaxBlobSize"
    and k: "DecodeEd25519Private priv = Inr k" "DecodeEd25519Public pub = Inr (ed_Public (l_ed L) k)"
    and i: "ParseAgeIdentity (l_age L) ident = Inr i"
    and n: "n \<in> set (d_Nodes dir)" "n_AgeRecipient n \<noteq> []"
      "ParseAgeRecipient (l_age L) (n_AgeRecipient n) = Inr (age_Recipient (l_age L) i)"
    and p: "MarshalPlain (l_wg L) (l_age L) (l_mp L) now dir = Inr payload"
    and u: "UnmarshalPlain (l_wg L) (l_age L) (l_mp L) payload = Inr d"
  shows "Open L blob ident pub = Inr (d, payload)"
proof -
  from s p obtain rs k' env where
      rs: "recipientsOf (l_age L) (d_Nodes dir) = Inr rs"
    and k': "DecodeEd25519Private priv = Inr k'"
    and env: "mp_EncodeEnv (l_mp L)
      \<lparr>e_Payload = payload, e_Signature = ed_Sign (l_ed L) k' (signingBytes payload)\<rparr> = Inr env"
    and c: "age_Encrypt (l_age L) rnd rs env = Inr blob"
    by (auto elim: Seal_parts)
  have ok: "wglib_ok (l_wg L)" "agelib_ok (l_age L)" "edlib_ok (l_ed L)" "mplib_ok (l_mp L)"
    using L by (simp_all add: libs_ok_def)
  have kk: "k' = k" using k(1) k' by simp
  have "age_Recipient (l_age L) i \<in> set rs" using recipientsOf_members [OF rs] n by auto
  then have dec: "age_Decrypt (l_age L) blob i = Inr (env, None)"
    using ok(2) c by (auto simp: agelib_ok_def)
  have "length env \<le> length blob" using ok(2) c unfolding agelib_ok_def by blast
  with sz have le: "length env \<le> MaxBlobSize" by simp
  have e: "mp_DecodeEnv (l_mp L) env =
      Inr \<lparr>e_Payload = payload, e_Signature = ed_Sign (l_ed L) k (signingBytes payload)\<rparr>"
    using env ok(4) kk by (simp add: mplib_ok_def)
  have v: "ed_Verify (l_ed L) (ed_Public (l_ed L) k) (signingBytes payload) (ed_Sign (l_ed L) k (signingBytes payload))"
    "ed_Sign (l_ed L) k (signingBytes payload) \<noteq> []"
    using ok(3) decode_ed25519_size(2) [OF k(1)] by (simp_all add: edlib_ok_def)
  have ne: "payload \<noteq> []" using MarshalPlain_Unmarshal(2) [OF ok(1,4) p] .
  show ?thesis
    using sz i k(2) dec le e v ne u by (simp add: Open_def readAll_limited_def)
qed

lemma Open_Seal:
  assumes L: "libs_ok L" and can: "list_all (canonical_node (l_wg L)) (d_Nodes dir)"
    and s: "Seal L rnd now dir priv = Inr blob" and sz: "length blob \<le> MaxBlobSize"
    and k: "DecodeEd25519Private priv = Inr k" "DecodeEd25519Public pub = Inr (ed_Public (l_ed L) k)"
    and i: "ParseAgeIdentity (l_age L) ident = Inr i"
    and n: "n \<in> set (d_Nodes dir)" "n_AgeRecipient n \<noteq> []"
      "ParseAgeRecipient (l_age L) (n_AgeRecipient n) = Inr (age_Recipient (l_age L) i)"
    and p: "MarshalPlain (l_wg L) (l_age L) (l_mp L) now dir = Inr payload"
  shows "Open L blob ident pub = Inr (stamped now dir, payload)"
proof -
  have "UnmarshalPlain (l_wg L) (l_age L) (l_mp L) payload = Inr (stamped now dir)"
    using L by (intro marshal_unmarshal_lemma [OF _ _ can p]) (simp_all add: libs_ok_def)
  then show ?thesis by (rule Open_Seal_reads [OF L s sz k i n p])
qed

section \<open>A concrete directory\<close>

definition demo_mp :: "wireDirectory \<Rightarrow> mplib" where
  "demo_mp wd =
     \<lparr>mp_EncodeDir = (\<lambda>w. if w = wd then Inr ''D'' else Inl (Err ''unknown'')),
      mp_DecodeDir = (\<lambda>b. if b = ''D'' then Inr wd else Inl (Err ''unknown'')),
      mp_EncodeEnv = (\<lambda>e. Inr (hex_encode (e_Payload e) @ '';'' @ e_Signature e)),
      mp_DecodeEnv = (\<lambda>b. case cutOn (CHR '';'') b of None \<Rightarrow> Inl (Err ''envelope'')
                       | Some (h, s) \<Rightarrow> (case hex_decode h of None \<Rightarrow> Inl (Err ''envelope'')
                           | Some p \<Rightarrow> Inr \<lparr>e_Payload = p, e_Signature = s\<rparr>))\<rparr>"

lemma demo_mp_ok: "mplib_ok (demo_mp wd)"
proof -
  have "CHR '';'' \<notin> set (hex_encode b)" for b
    using hex_encode_chars [of b] by (auto simp: hex_digits_def)
  then show ?thesis by (auto simp: mplib_ok_def demo_mp_def hex_roundtrip split: if_splits)
qed

text \<open>The setting of the witnesses.\<close>

definition wire_of :: "directory \<Rightarrow> wireDirectory" where
  "wire_of dir =
     \<lparr>wd_SchemaVersion = d_SchemaVersion dir, wd_Serial = d_Serial dir, wd_CreatedAt = d_CreatedAt dir,
      wd_NetworkCIDR = d_NetworkCIDR dir, wd_Domain = d_Domain dir,
      wd_Nodes = (case EncodeMsgpack demo_wg (d_Nodes dir) of Inl _ \<Rightarrow> [] | Inr ws \<Rightarrow> ws)\<rparr>"

definition demo_libs :: "directory \<Rightarrow> libs" where
  "demo_libs dir = \<lparr>l_wg = demo_wg, l_age = demo_age, l_ed = demo_ed, l_mp = demo_mp (wire_of dir)\<rparr>"

definition demo_priv :: string where "demo_priv = std_encode (replicate 64 (CHR ''k''))"
definition demo_pub :: string where "demo_pub = std_encode (replicate 32 (CHR ''k''))"

lemma demo_simps [simp]:
  "mp_EncodeEnv (demo_mp wd) e = Inr (hex_encode (e_Payload e) @ '';'' @ e_Signature e)"
  "ed_Sign demo_ed k m = ''s'' @ m"
  "age_Encrypt demo_age rnd rs m = Inr (joinWith '','' (map demo_stanza rs) @ '';'' @ m)"
  "age_Recipient demo_age i = i"
  "l_wg (demo_libs dir) = demo_wg" "l_age (demo_libs dir) = demo_age"
  "l_ed (demo_libs dir) = demo_ed" "l_mp (demo_libs dir) = demo_mp (wire_of dir)"
  by (simp_all add: demo_mp_def demo_ed_def demo_age_def demo_libs_def)

lemma demo_libs_ok: "libs_ok (demo_libs dir)"
  by (simp add: libs_ok_def demo_libs_def demo_wg_ok demo_age_ok demo_ed_ok demo_mp_ok)

lemma demo_decimals: "decimal 65 = ''65''" "decimal 66 = ''66''" "decimal 67 = ''67''"
  by code_simp+

lemma demo_ParseAgeRecipient:
  "ParseAgeRecipient demo_age (''age'' @ decimal k) = Inr (''age'' @ decimal k)"
proof -
  have "trimSpace (''age'' @ decimal k) = ''age'' @ decimal k"
    using decimal_digits [of k]
    by (intro trimSpace_no_space) (auto simp: list_all_iff is_space_def is_digit_def)
  then show ?thesis by (simp add: ParseAgeRecipient_def demo_age_def)
qed

lemma demo_recipient_ok:
  "ParseAgeRecipient demo_age ''age65'' = Inr ''age65''"
  "ParseAgeRecipient demo_age ''age66'' = Inr ''age66''"
  "ParseAgeRecipient demo_age ''age67'' = Inr ''age67''"
  by code_simp+

lemma demo_node_ok:
  assumes "name \<noteq> []" "ValidateLabel name = Inr ()" "ip = ip4_String w" "prefix_Contains p (V4 w)"
    "validateEndpoint ep = Inr ()"
  shows "node_ok demo_wg demo_age domain p (demo_node name k ip ep r)"
  using assms demo_ParseAgeRecipient [of k]
  by (auto simp: node_ok_def demo_key_ok demo_node_fields validateEndpoint_def [of "[]"])

lemma demo_dir_valid: "Validate demo_wg demo_age demo_dir = Inr ()"
proof -
  let ?p = "\<lparr>p_Addr = V4 0x0A2A0000, p_Bits = 29\<rparr>"
  have p: "parsePrefix ''10.42.0.0/29'' = Some ?p" and m: "masked ?p = ?p" by code_simp+
  have l: "ValidateLabel ''a'' = Inr ()" "ValidateLabel ''b'' = Inr ()" "ValidateLabel ''c'' = Inr ()"
    "ValidateDomain ''vpn'' = Inr ()" "validateEndpoint ''a.example:51820'' = Inr ()"
    "validateEndpoint [] = Inr ()" "validateEndpoint ''1.2.3.4:51820'' = Inr ()"
    "distinct (map toLower [''a'', ''b'', ''c''])" by code_simp+
  have i: "''10.42.0.1'' = ip4_String 0x0A2A0001" "''10.42.0.2'' = ip4_String 0x0A2A0002"
    "''10.42.0.3'' = ip4_String 0x0A2A0003" by code_simp+
  have c: "prefix_Contains ?p (V4 0x0A2A0001)" "prefix_Contains ?p (V4 0x0A2A0002)"
    "prefix_Contains ?p (V4 0x0A2A0003)" by code_simp+
  have "list_all (node_ok demo_wg demo_age ''vpn'' ?p) (d_Nodes demo_dir)"
    unfolding demo_dir_def using l i c by (simp add: demo_node_ok)
  moreover have "distinct (map n_PublicKey (d_Nodes demo_dir))"
    by (simp add: demo_dir_def demo_node_fields std.enc_eq_iff replicate_eq_replicate)
  ultimately show ?thesis using p m l(4,8)
    by (simp add: Validate_ok directory_ok_def demo_dir_def SchemaVersion_def demo_node_fields)
qed

lemma demo_dir_stamped: "stamped now demo_dir = demo_dir"
  by (simp add: stamped_def demo_dir_def SchemaVersion_def time_IsZero_def)

lemma demo_marshal:
  assumes "Validate demo_wg demo_age dir = Inr ()" and "list_all (\<lambda>n. n_PSK n = []) (d_Nodes dir)"
    and "stamped now dir = dir"
  shows "MarshalPlain demo_wg demo_age (demo_mp (wire_of dir)) now dir = Inr ''D''"
proof -
  obtain p where "list_all (node_ok demo_wg demo_age (d_Domain dir) p) (d_Nodes dir)"
    using assms(1) by (auto simp: Validate_ok directory_ok_def)
  then have "is_ok (EncodeMsgpack demo_wg (d_Nodes dir))"
    using assms(2) by (intro EncodeMsgpack_total) (auto simp: list_all_iff)
  then obtain ws where "EncodeMsgpack demo_wg (d_Nodes dir) = Inr ws" by (auto simp: is_ok_iff)
  then show ?thesis
    using assms(1,3) by (simp add: MarshalPlain_def Let_def msgpack_Marshal_def wire_of_def demo_mp_def)
qed

lemma demo_dir_canonical: "list_all (canonical_node demo_wg) (d_Nodes demo_dir)"
proof -
  have "canonical_key demo_wg (std_encode (replicate 32 c))" for c
    unfolding canonical_key_def by (rule exI [of _ "replicate 32 c"]) (simp add: demo_wg_def)
  then show ?thesis by (simp add: canonical_node_def demo_dir_def demo_node_def zero_node_def)
qed

lemma demo_recipients:
  "recipientsOf demo_age (d_Nodes demo_dir) = Inr [''age65'', ''age66'', ''age67'']"
  by (simp add: demo_dir_def demo_node_fields demo_decimals demo_recipient_ok)

definition demo_blob :: bytes where
  "demo_blob = (case age_Encrypt demo_age 0 [''age65'', ''age66'', ''age67'']
      (hex_encode ''D'' @ '';'' @ ''s'' @ signingBytes ''D'') of Inl _ \<Rightarrow> [] | Inr b \<Rightarrow> b)"

lemma demo_seal: "Seal (demo_libs demo_dir) 0 0 demo_dir demo_priv = Inr demo_blob"
proof -
  have "DecodeEd25519Private demo_priv = Inr (replicate 64 (CHR ''k''))"
    unfolding demo_priv_def by (rule decode_ed25519_encoded) simp
  moreover have "list_all (\<lambda>n. n_PSK n = []) (d_Nodes demo_dir)"
    by (simp add: demo_dir_def demo_node_def zero_node_def)
  ultimately show ?thesis
    using demo_marshal [OF demo_dir_valid _ demo_dir_stamped]
    by (simp add: Seal_def demo_recipients demo_blob_def)
qed

lemma demo_keys:
  "DecodeEd25519Private demo_priv = Inr (replicate 64 (CHR ''k''))"
  "DecodeEd25519Public demo_pub = Inr (ed_Public (l_ed (demo_libs dir)) (replicate 64 (CHR ''k'')))"
  by (simp_all add: demo_priv_def demo_pub_def decode_ed25519_encoded demo_libs_def demo_ed_def)

lemma demo_blob_size: "length demo_blob \<le> MaxBlobSize"
  by code_simp

lemma demo_member:
  "demo_node ''b'' 66 ''10.42.0.2'' [] True \<in> set (d_Nodes demo_dir)"
  "n_AgeRecipient (demo_node ''b'' 66 ''10.42.0.2'' [] True) \<noteq> []"
  "ParseAgeRecipient (l_age (demo_libs dir)) (n_AgeRecipient (demo_node ''b'' 66 ''10.42.0.2'' [] True)) =
     Inr (age_Recipient (l_age (demo_libs dir)) ''age66'')"
  by (simp_all add: demo_dir_def demo_node_fields demo_recipient_ok demo_decimals)

lemma demo_identity: "ParseAgeIdentity (l_age (demo_libs dir)) ''age66'' = Inr ''age66''"
  by code_simp

definition demo_respelled :: directory where
  "demo_respelled = demo_dir\<lparr>d_Nodes :=
     [demo_node ''a'' 65 ''10.42.0.1'' [] False,
      (demo_node ''b'' 65 ''10.42.0.2'' [] False)\<lparr>n_PublicKey := '' '' @ std_encode (replicate 32 (char_of (65 :: nat)))\<rparr>]\<rparr>"

lemma demo_respelled_key:
  "WGKeyToBytes demo_wg ('' '' @ std_encode b) = WGKeyToBytes demo_wg (std_encode b)"
proof -
  have "trimSpace ('' '' @ s) = trimSpace s" for s by (simp add: trimSpace_def is_space_def)
  then show ?thesis by (simp add: WGKeyToBytes_def)
qed

lemma demo_respelled_valid: "Validate demo_wg demo_age demo_respelled = Inr ()"
proof -
  let ?p = "\<lparr>p_Addr = V4 0x0A2A0000, p_Bits = 29\<rparr>"
  let ?k = "replicate 32 (char_of (65 :: nat))"
  have p: "parsePrefix ''10.42.0.0/29'' = Some ?p" and m: "masked ?p = ?p" by code_simp+
  have l: "ValidateLabel ''a'' = Inr ()" "ValidateLabel ''b'' = Inr ()"
    "ValidateDomain ''vpn'' = Inr ()" "validateEndpoint [] = Inr ()"
    "distinct (map toLower [''a'', ''b''])" by code_simp+
  have i: "''10.42.0.1'' = ip4_String 0x0A2A0001" "''10.42.0.2'' = ip4_String 0x0A2A0002" by code_simp+
  have c: "prefix_Contains ?p (V4 0x0A2A0001)" "prefix_Contains ?p (V4 0x0A2A0002)" by code_simp+
  have k: "ParseWGPublic demo_wg ('' '' @ std_encode ?k) = Inr ?k"
    using demo_key_ok [of "char_of 65"] by (simp only: ParseWGPublic_WGKeyToBytes demo_respelled_key)
  have "node_ok demo_wg demo_age ''vpn'' ?p (demo_node ''a'' 65 ''10.42.0.1'' [] False)"
    using l i c by (simp add: demo_node_ok)
  moreover have "node_ok demo_wg demo_age ''vpn'' ?p
      ((demo_node ''b'' 65 ''10.42.0.2'' [] False)\<lparr>n_PublicKey := '' '' @ std_encode ?k\<rparr>)"
    using demo_node_ok [OF _ l(2) i(2) c(2) l(4), of "''vpn''" 65 False] k by (simp add: node_ok_def)
  moreover have "std_encode ?k \<noteq> '' '' @ std_encode ?k" by (metis append_self_conv2 list.distinct(1))
  ultimately show ?thesis using p m l(3,5)
    by (simp add: Validate_ok directory_ok_def demo_respelled_def demo_dir_def SchemaVersion_def demo_node_fields)
qed

lemma demo_respelled_marshal:
  "MarshalPlain demo_wg demo_age (demo_mp (wire_of demo_respelled)) 0 demo_respelled = Inr ''D''"
  using demo_dir_stamped [of 0]
  by (intro demo_marshal [OF demo_respelled_valid])
    (simp_all add: demo_respelled_def demo_node_fields stamped_def demo_dir_def SchemaVersion_def time_IsZero_def)

lemma demo_respelled_same:
  "WGKeyToBytes demo_wg (n_PublicKey (d_Nodes demo_respelled ! 0)) =
   WGKeyToBytes demo_wg (n_PublicKey (d_Nodes demo_respelled ! 1))"
  using demo_respelled_key by (simp add: demo_respelled_def demo_node_fields)

definition demo_respelled_blob :: bytes where
  "demo_respelled_blob = (case age_Encrypt demo_age 0 [''age65'', ''age65'']
      (hex_encode ''D'' @ '';'' @ ''s'' @ signingBytes ''D'') of Inl _ \<Rightarrow> [] | Inr b \<Rightarrow> b)"

lemma demo_respelled_seal:
  "Seal (demo_libs demo_respelled) 0 0 demo_respelled demo_priv = Inr demo_respelled_blob"
proof -
  have "recipientsOf demo_age (d_Nodes demo_respelled) = Inr [''age65'', ''age65'']"
    by (simp add: demo_respelled_def demo_node_fields demo_decimals demo_recipient_ok)
  then show ?thesis
    using demo_respelled_marshal demo_keys(1) by (simp add: Seal_def demo_respelled_blob_def)
qed

lemma demo_respelled_member:
  "ParseAgeIdentity (l_age (demo_libs dir)) ''age65'' = Inr ''age65''"
  "d_Nodes demo_respelled ! 0 \<in> set (d_Nodes demo_respelled)"
  "n_AgeRecipient (d_Nodes demo_respelled ! 0) \<noteq> []"
  "ParseAgeRecipient (l_age (demo_libs dir)) (n_AgeRecipient (d_Nodes demo_respelled ! 0)) =
     Inr (age_Recipient (l_age (demo_libs dir)) ''age65'')"
proof -
  show "ParseAgeIdentity (l_age (demo_libs dir)) ''age65'' = Inr ''age65''" by code_simp
qed (simp_all add: demo_respelled_def demo_node_fields demo_recipient_ok demo_decimals)

lemma demo_dir_distinct: "distinct (map (WGKeyToBytes demo_wg \<circ> n_PublicKey) (d_Nodes demo_dir))"
proof -
  have "WGKeyToBytes demo_wg (std_encode (replicate 32 c)) = Inr (replicate 32 c)" for c
    using demo_key_ok [of c] by (simp add: ParseWGPublic_WGKeyToBytes)
  then show ?thesis by (simp add: demo_dir_def demo_node_fields replicate_eq_replicate)
qed

section \<open>Properties\<close>

text \<open>C15: what \<open>MarshalPlain\<close> wrote, \<open>UnmarshalPlain\<close> reads exactly when no two members have the
  same key bytes. What it reads is the directory that was written, with the schema version and a
  creation time filled in and the key strings in the library's own spelling (other fields are
  untouched; for members whose keys are already so spelled it is the stamped directory itself),
  and writing what was read gives the same bytes again.\<close>

theorem marshal_unmarshal:
  assumes "wglib_ok W" and "mplib_ok M" and "MarshalPlain W A M now dir = Inr b"
  shows "(is_ok (UnmarshalPlain W A M b) \<longleftrightarrow> distinct (map (WGKeyToBytes W \<circ> n_PublicKey) (d_Nodes dir))) \<and>
    (\<forall>d. UnmarshalPlain W A M b = Inr d \<longrightarrow>
       d = canon_dir W (stamped now dir) \<and> MarshalPlain W A M now d = Inr b) \<and>
    (list_all (canonical_node W) (d_Nodes dir) \<longrightarrow> UnmarshalPlain W A M b = Inr (stamped now dir))"
  using UnmarshalPlain_Marshal [OF assms] MarshalPlain_canon [OF assms] marshal_unmarshal_lemma [OF assms(1,2) _ assms(3)]
  by (auto simp: is_ok_iff distinct_keys_def)

theorem marshal_unmarshal_witness:
  "UnmarshalPlain demo_wg demo_age (demo_mp (wire_of demo_dir)) ''D'' = Inr demo_dir \<and>
   MarshalPlain demo_wg demo_age (demo_mp (wire_of demo_dir)) 0 demo_dir = Inr ''D'' \<and>
   \<not> is_ok (UnmarshalPlain demo_wg demo_age (demo_mp (wire_of demo_respelled)) ''D'')"
proof -
  have "list_all (\<lambda>n. n_PSK n = []) (d_Nodes demo_dir)"
    by (simp add: demo_dir_def demo_node_def zero_node_def)
  then have m: "MarshalPlain demo_wg demo_age (demo_mp (wire_of demo_dir)) 0 demo_dir = Inr ''D''"
    by (rule demo_marshal [OF demo_dir_valid _ demo_dir_stamped [of 0]])
  have "\<not> is_ok (UnmarshalPlain demo_wg demo_age (demo_mp (wire_of demo_respelled)) ''D'')"
    using marshal_unmarshal [OF demo_wg_ok demo_mp_ok demo_respelled_marshal] demo_respelled_same
    by (simp add: demo_respelled_def)
  with marshal_unmarshal [OF demo_wg_ok demo_mp_ok m] m demo_dir_canonical
  show ?thesis by (simp add: demo_dir_stamped)
qed

text \<open>C4: a sealed directory opens for its members: with the identity of a member's age recipient
  and the publisher's public key, \<open>Open\<close> succeeds exactly when the blob is within the size limit
  and no two members have the same key bytes, and returns what was sealed: the directory with
  schema version and creation time filled in and the keys in the library's own spelling, together
  with the payload that was signed. For members whose keys are already so spelled it is the
  stamped directory itself.\<close>

theorem seal_open:
  assumes L: "libs_ok L"
    and s: "Seal L rnd now dir priv = Inr blob"
    and k: "DecodeEd25519Private priv = Inr k" "DecodeEd25519Public pub = Inr (ed_Public (l_ed L) k)"
    and i: "ParseAgeIdentity (l_age L) ident = Inr i"
    and n: "n \<in> set (d_Nodes dir)" "n_AgeRecipient n \<noteq> []"
      "ParseAgeRecipient (l_age L) (n_AgeRecipient n) = Inr (age_Recipient (l_age L) i)"
  shows "(is_ok (Open L blob ident pub) \<longleftrightarrow>
       length blob \<le> MaxBlobSize \<and> distinct (map (WGKeyToBytes (l_wg L) \<circ> n_PublicKey) (d_Nodes dir))) \<and>
    (\<forall>d payload. Open L blob ident pub = Inr (d, payload) \<longrightarrow>
       d = canon_dir (l_wg L) (stamped now dir) \<and>
       MarshalPlain (l_wg L) (l_age L) (l_mp L) now dir = Inr payload \<and>
       (list_all (canonical_node (l_wg L)) (d_Nodes dir) \<longrightarrow> d = stamped now dir))"
proof -
  have ok: "wglib_ok (l_wg L)" "mplib_ok (l_mp L)" using L by (simp_all add: libs_ok_def)
  obtain p where p: "MarshalPlain (l_wg L) (l_age L) (l_mp L) now dir = Inr p" using s by (rule Seal_parts)
  note reads = UnmarshalPlain_Marshal [OF ok p]
  have "list_all (canonical_node (l_wg L)) (d_Nodes dir) \<Longrightarrow> canon_dir (l_wg L) (stamped now dir) = stamped now dir"
    by (intro canon_dir_canonical [OF ok(1)]) (simp add: stamped_def)
  moreover have "Open L blob ident pub = Inr (canon_dir (l_wg L) (stamped now dir), p)"
    if "length blob \<le> MaxBlobSize" and "distinct_keys (l_wg L) dir"
    using Open_Seal_reads [OF L s that(1) k i n p] reads that(2) by simp
  moreover have "length blob \<le> MaxBlobSize \<and> distinct_keys (l_wg L) dir \<and>
      d = canon_dir (l_wg L) (stamped now dir) \<and> payload = p"
    if "Open L blob ident pub = Inr (d, payload)" for d payload
    using Open_Seal_payload [OF L s that] iffD1 [OF reads] p by auto
  ultimately show ?thesis using p by (auto simp: is_ok_iff distinct_keys_def)
qed

theorem seal_open_witness:
  "(\<exists>payload. Open (demo_libs demo_dir) demo_blob ''age66'' demo_pub = Inr (demo_dir, payload)) \<and>
   \<not> is_ok (Open (demo_libs demo_respelled) demo_respelled_blob ''age65'' demo_pub)"
proof -
  have "is_ok (Open (demo_libs demo_dir) demo_blob ''age66'' demo_pub)"
    using seal_open [OF demo_libs_ok demo_seal demo_keys demo_identity demo_member] demo_blob_size
      demo_dir_distinct by simp
  moreover have "\<not> is_ok (Open (demo_libs demo_respelled) demo_respelled_blob ''age65'' demo_pub)"
    using seal_open [OF demo_libs_ok demo_respelled_seal demo_keys demo_respelled_member] demo_respelled_same
    by (simp add: demo_respelled_def)
  ultimately show ?thesis
    using seal_open [OF demo_libs_ok demo_seal demo_keys demo_identity demo_member] demo_dir_canonical
    by (auto simp: is_ok_iff demo_dir_stamped)
qed

text \<open>C5: \<open>Open\<close> believes nothing that the publisher did not sign: what it returns is the decoding of
  a payload that verifies under the publisher's key with the directory's signing prefix, and it
  satisfies the rules of \<open>Validate\<close>.\<close>

theorem open_authentic:
  assumes "Open L blob ident pub = Inr (dir, payload)"
  shows "\<exists>pk sig. DecodeEd25519Public pub = Inr pk \<and>
           ed_Verify (l_ed L) pk (signingDomain @ payload) sig \<and>
           UnmarshalPlain (l_wg L) (l_age L) (l_mp L) payload = Inr dir \<and>
           directory_ok (l_wg L) (l_age L) dir \<and> length blob \<le> MaxBlobSize"
proof -
  have u: "UnmarshalPlain W A M b = Inr d \<Longrightarrow> directory_ok W A d" for W A M b d
    by (auto simp: UnmarshalPlain_def simp flip: Validate_ok)
  show ?thesis
    using assms u by (auto simp: Open_def signingBytes_def split: if_splits)
qed

theorem open_authentic_witness:
  "directory_ok demo_wg demo_age demo_dir"
proof -
  have m: "list_all (\<lambda>n. n_PSK n = []) (d_Nodes demo_dir)"
    by (simp add: demo_dir_def demo_node_def zero_node_def)
  have "Open (demo_libs demo_dir) demo_blob ''age66'' demo_pub = Inr (stamped 0 demo_dir, ''D'')"
    using Open_Seal [OF demo_libs_ok _ demo_seal demo_blob_size demo_keys demo_identity demo_member]
      demo_marshal [OF demo_dir_valid m demo_dir_stamped [of 0]] demo_dir_canonical
    by simp
  from open_authentic [OF this] show ?thesis by (auto simp: demo_dir_stamped)
qed

text \<open>C16: removal revokes: a blob sealed after a node left the directory does not open with that
  node's identity, whatever else it tries with it.\<close>

theorem removed_cannot_open:
  assumes "libs_ok L" and "Seal L rnd now dir priv = Inr blob"
    and "ParseAgeIdentity (l_age L) ident = Inr i"
    and "list_all (\<lambda>n. ParseAgeRecipient (l_age L) (n_AgeRecipient n) \<noteq> Inr (age_Recipient (l_age L) i)) (d_Nodes dir)"
  shows "\<not> is_ok (Open L blob ident pub)"
proof -
  from assms(2) obtain rs env where rs: "recipientsOf (l_age L) (d_Nodes dir) = Inr rs"
    and c: "age_Encrypt (l_age L) rnd rs env = Inr blob"
    by (rule Seal_parts)
  have "age_Recipient (l_age L) i \<notin> set rs"
    using recipientsOf_members [OF rs] assms(4) by (auto simp: list_all_iff)
  then have "\<not> is_ok (age_Decrypt (l_age L) blob i)"
    using assms(1) c by (auto simp: libs_ok_def agelib_ok_def)
  with assms(3) show ?thesis by (auto simp: Open_def is_ok_iff)
qed

theorem removed_cannot_open_witness:
  "\<not> is_ok (Open (demo_libs demo_dir) demo_blob ''age68'' demo_pub)"
proof -
  have "ParseAgeIdentity demo_age ''age68'' = Inr ''age68''" by code_simp
  then show ?thesis
    by (intro removed_cannot_open [OF demo_libs_ok demo_seal, of _ "''age68''"])
      (simp_all add: demo_dir_def demo_node_fields demo_decimals demo_recipient_ok)
qed

text \<open>C23: two members may carry the same WireGuard key in different spellings (\<open>Validate\<close> compares the
  strings, the key parser trims white space): when such a directory seals, what was sealed opens
  for nobody, whatever identity and publisher key they use, because the wire form brings both
  keys to the canonical spelling and decoding finds the duplicate.\<close>

theorem respelled_key_unreadable:
  assumes L: "libs_ok L" and s: "Seal L rnd now dir priv = Inr blob"
    and ij: "i < j" "j < length (d_Nodes dir)"
    and same: "WGKeyToBytes (l_wg L) (n_PublicKey (d_Nodes dir ! i)) =
      WGKeyToBytes (l_wg L) (n_PublicKey (d_Nodes dir ! j))"
  shows "\<not> is_ok (Open L blob ident pub)"
proof
  assume "is_ok (Open L blob ident pub)"
  then obtain d payload where "Open L blob ident pub = Inr (d, payload)" by (auto simp: is_ok_iff)
  note o = Open_Seal_payload [OF L s this]
  have "distinct_keys (l_wg L) dir"
    using iffD1 [OF UnmarshalPlain_Marshal [OF _ _ o(2)] o(3)] L by (simp add: libs_ok_def)
  with ij same show False by (auto simp: distinct_keys_def distinct_conv_nth)
qed

theorem respelled_key_unreadable_witness:
  "Validate demo_wg demo_age demo_respelled = Inr () \<and>
   Seal (demo_libs demo_respelled) 0 0 demo_respelled demo_priv = Inr demo_respelled_blob \<and>
   \<not> is_ok (Open (demo_libs demo_respelled) demo_respelled_blob ''age65'' demo_pub)"
  using respelled_key_unreadable [OF demo_libs_ok demo_respelled_seal, of 0 1] demo_respelled_same
    demo_respelled_seal demo_respelled_valid
  by (simp add: demo_respelled_def)

end
