(* ===== verification/Discovery.thy ===== *)
theory Discovery
  imports Directory
begin

text \<open>
  LAN discovery (\<open>src/internal/discovery\<close>): the store of endpoints learned from beacons, the
  beacons, the filters every received packet passes, the multicast membership and the pacing of
  the sender. Goroutines appear as the events that drive them: each call on the store happens
  under its mutex, so any interleaving is a sequence of events. Theory \<open>Lan\<close> puts the goroutines together.
\<close>

section \<open>The store\<close>

record LANState =
  ls_Endpoint :: string
  ls_LearnedAt :: gotime
  ls_FailedAt :: gotime
  ls_FailedEndpoint :: string

definition zero_LANState :: LANState where
  "zero_LANState = \<lparr>ls_Endpoint = [], ls_LearnedAt = 0, ls_FailedAt = 0, ls_FailedEndpoint = []\<rparr>"

definition Blacklisted :: "LANState \<Rightarrow> bool" where
  "Blacklisted s = (ls_Endpoint s \<noteq> [] \<and> ls_FailedEndpoint s = ls_Endpoint s)"

definition Usable :: "LANState \<Rightarrow> gotime \<Rightarrow> duration \<Rightarrow> bool" where
  "Usable s now ttl =
     (if ls_Endpoint s = [] \<or> time_IsZero (ls_LearnedAt s) then False
      else if time_Sub now (ls_LearnedAt s) > ttl then False
      else if Blacklisted s then False
      else True)"

record Store =
  st_ttl :: duration
  st_entries :: "(string \<times> LANState) list"
  st_selfPub :: string
  st_selfPort :: u16

definition NewStore :: "duration \<Rightarrow> Store" where
  "NewStore ttl = \<lparr>st_ttl = ttl, st_entries = [], st_selfPub = [], st_selfPort = 0\<rparr>"

definition TTL :: "Store \<Rightarrow> duration" where "TTL s = st_ttl s"

definition SetSelf :: "string \<Rightarrow> u16 \<Rightarrow> Store \<Rightarrow> Store" where
  "SetSelf pubkey port s = s\<lparr>st_selfPub := pubkey, st_selfPort := port\<rparr>"

definition Self :: "Store \<Rightarrow> string \<times> u16 \<times> bool" where
  "Self s = (st_selfPub s, st_selfPort s, st_selfPort s \<noteq> 0 \<and> st_selfPub s \<noteq> [])"

definition Lookup :: "Store \<Rightarrow> string \<Rightarrow> gotime \<Rightarrow> string" where
  "Lookup s pubkey now =
     (case map_of (st_entries s) pubkey of
        None \<Rightarrow> []
      | Some entry \<Rightarrow> if \<not> Usable entry now (st_ttl s) then [] else ls_Endpoint entry)"

definition LookupLastKnown :: "Store \<Rightarrow> string \<Rightarrow> string" where
  "LookupLastKnown s pubkey =
     (case map_of (st_entries s) pubkey of None \<Rightarrow> [] | Some entry \<Rightarrow> ls_Endpoint entry)"

record UpdateResult =
  ur_Changed :: bool
  ur_FirstSeen :: bool

definition Update :: "string \<Rightarrow> string \<Rightarrow> gotime \<Rightarrow> Store \<Rightarrow> Store \<times> UpdateResult" where
  "Update pubkey endpoint now s =
     (let put = (\<lambda>e. s\<lparr>st_entries := AList.update pubkey e (st_entries s)\<rparr>);
          fresh = zero_LANState\<lparr>ls_Endpoint := endpoint, ls_LearnedAt := now\<rparr>
      in case map_of (st_entries s) pubkey of
           None \<Rightarrow> (put fresh, \<lparr>ur_Changed = True, ur_FirstSeen = True\<rparr>)
         | Some prev \<Rightarrow>
             if endpoint = ls_Endpoint prev then
               (put (prev\<lparr>ls_LearnedAt := now\<rparr>), \<lparr>ur_Changed = False, ur_FirstSeen = False\<rparr>)
             else if Usable prev now (st_ttl s) then
               (s, \<lparr>ur_Changed = False, ur_FirstSeen = False\<rparr>)
             else (put fresh, \<lparr>ur_Changed = True, ur_FirstSeen = False\<rparr>))"

definition MarkFailed :: "string \<Rightarrow> gotime \<Rightarrow> Store \<Rightarrow> Store" where
  "MarkFailed pubkey now s =
     (case map_of (st_entries s) pubkey of
        None \<Rightarrow> s
      | Some entry \<Rightarrow>
          s\<lparr>st_entries := AList.update pubkey
              (entry\<lparr>ls_FailedAt := now, ls_FailedEndpoint := ls_Endpoint entry\<rparr>) (st_entries s)\<rparr>)"

text \<open>\<open>members\<close> is \<open>None\<close> for a nil map.\<close>

definition gc_drops :: "gotime \<Rightarrow> duration \<Rightarrow> string list option \<Rightarrow> string \<Rightarrow> LANState \<Rightarrow> bool" where
  "gc_drops now maxAge members pubkey entry =
     ((\<not> time_IsZero (ls_LearnedAt entry) \<and> time_Sub now (ls_LearnedAt entry) > maxAge) \<or>
      (case members of None \<Rightarrow> False | Some ms \<Rightarrow> pubkey \<notin> set ms))"

definition GC :: "gotime \<Rightarrow> duration \<Rightarrow> string list option \<Rightarrow> Store \<Rightarrow> Store \<times> nat" where
  "GC now maxAge members s =
     (let keep = filter (\<lambda>(k, e). \<not> gc_drops now maxAge members k e) (st_entries s)
      in (s\<lparr>st_entries := keep\<rparr>, length (st_entries s) - length keep))"

definition Snapshot :: "Store \<Rightarrow> (string \<times> LANState) list" where
  "Snapshot s = st_entries s"

section \<open>Beacons\<close>

definition BeaconSchemaVersion :: u32 where "BeaconSchemaVersion = 1"

record Beacon =
  b_V :: u32
  b_PublicKey :: string
  b_Port :: u16
  b_Nonce :: u64

text \<open>msgpack's encoding of a beacon is a parameter.\<close>

definition Encode :: "(Beacon \<Rightarrow> bytes res) \<Rightarrow> Beacon \<Rightarrow> bytes res" where
  "Encode marshal b = marshal (if b_V b = 0 then b\<lparr>b_V := BeaconSchemaVersion\<rparr> else b)"

definition Decode :: "(bytes \<Rightarrow> Beacon res) \<Rightarrow> bytes \<Rightarrow> Beacon res" where
  "Decode unmarshal data =
     bindR (wrapR ''decode beacon'' (unmarshal data)) (\<lambda>b.
     if b_V b = 0 then Inl (Err ''decode beacon: missing schema version'')
     else if b_PublicKey b = [] then Inl (Err ''decode beacon: missing public_key'')
     else if b_Port b = 0 then Inl (Err ''decode beacon: missing port'')
     else Inr b)"

section \<open>Interfaces and addresses\<close>

definition ip_IsUnspecified :: "ip16 \<Rightarrow> bool" where
  "ip_IsUnspecified ip = (ip = 0 \<or> ip_To4 ip = Some 0)"

definition ip_IsLinkLocalUnicast :: "ip16 \<Rightarrow> bool" where
  "ip_IsLinkLocalUnicast ip =
     (case ip_To4 ip of Some w \<Rightarrow> drop_bit 16 w = 0xA9FE | None \<Rightarrow> drop_bit 118 ip = 0x3FA)"

definition ip_IsLinkLocalMulticast :: "ip16 \<Rightarrow> bool" where
  "ip_IsLinkLocalMulticast ip =
     (case ip_To4 ip of Some w \<Rightarrow> drop_bit 8 w = 0xE00000 | None \<Rightarrow> drop_bit 112 ip AND 0xFF0F = 0xFF02)"

definition hasGlobalScope :: "ip16 \<Rightarrow> bool" where
  "hasGlobalScope ip =
     (if ip_IsUnspecified ip \<or> ip_IsLoopback ip \<or> ip_IsLinkLocalUnicast ip \<or> ip_IsLinkLocalMulticast ip
      then False else True)"

text \<open>A kernel interface: its addresses are \<open>None\<close> when they cannot be listed; an address that is
  not a network is \<open>None\<close>.\<close>

record iface =
  if_Name :: string
  if_Loopback :: bool
  if_Up :: bool
  if_Addrs :: "ip16 option list option"

definition shouldUseInterface :: "iface \<Rightarrow> string \<Rightarrow> bool" where
  "shouldUseInterface i skip =
     (if if_Loopback i then False
      else if \<not> if_Up i then False
      else if if_Name i = skip then False
      else case if_Addrs i of None \<Rightarrow> False
           | Some as \<Rightarrow> list_ex (\<lambda>a. case a of None \<Rightarrow> False | Some ip \<Rightarrow> hasGlobalScope ip) as)"

definition liveLANInterfaces :: "iface list res \<Rightarrow> string \<Rightarrow> iface list res" where
  "liveLANInterfaces sysifs skip =
     bindR sysifs (\<lambda>ifs. Inr (filter (\<lambda>i. shouldUseInterface i skip) ifs))"

definition isLocalIP :: "ip16 option list res \<Rightarrow> ip16 \<Rightarrow> bool" where
  "isLocalIP addrs ip =
     (case addrs of Inl _ \<Rightarrow> False | Inr as \<Rightarrow> list_ex (\<lambda>a. a = Some ip) as)"

text \<open>\<open>net.IPNet.Contains\<close>.\<close>

definition ipnet_Contains :: "ipnet \<Rightarrow> ip16 \<Rightarrow> bool" where
  "ipnet_Contains n ip =
     (case in_IP n of
        V4 net \<Rightarrow>
          (case ip_To4 ip of None \<Rightarrow> False
           | Some x \<Rightarrow> drop_bit (32 - in_Ones n) x = drop_bit (32 - in_Ones n) net)
      | V6 net z \<Rightarrow>
          (case ip_To4 net of
             Some v \<Rightarrow>
               in_Ones n \<ge> 96 \<and>
               (case ip_To4 ip of None \<Rightarrow> False
                | Some x \<Rightarrow> drop_bit (128 - in_Ones n) x = drop_bit (128 - in_Ones n) v)
           | None \<Rightarrow>
               ip_To4 ip = None \<and> drop_bit (128 - in_Ones n) ip = drop_bit (128 - in_Ones n) net))"

definition insideNetworkCIDR :: "string \<Rightarrow> ip16 \<Rightarrow> bool" where
  "insideNetworkCIDR cidr ip =
     (if cidr = [] then False
      else case net_ParseCIDR cidr of None \<Rightarrow> False | Some (_, n) \<Rightarrow> ipnet_Contains n ip)"

fun isKnownPubkey_nodes :: "node list \<Rightarrow> string \<Rightarrow> bool" where
  "isKnownPubkey_nodes [] pubkey = False"
| "isKnownPubkey_nodes (n # ns) pubkey = (if n_PublicKey n = pubkey then True else isKnownPubkey_nodes ns pubkey)"

definition isKnownPubkey :: "directory \<Rightarrow> string \<Rightarrow> bool" where
  "isKnownPubkey dir pubkey = isKnownPubkey_nodes (d_Nodes dir) pubkey"

section \<open>The listener\<close>

record beaconFilter =
  bf_group :: ip16
  bf_skipIface :: string
  bf_ifaceName :: "int \<Rightarrow> string res"

definition newBeaconFilter :: "(int \<Rightarrow> iface res) \<Rightarrow> ip16 \<Rightarrow> string \<Rightarrow> beaconFilter" where
  "newBeaconFilter byIndex grp skipIface =
     \<lparr>bf_group = grp, bf_skipIface = skipIface,
      bf_ifaceName = (\<lambda>i. bindR (byIndex i) (\<lambda>ifi. Inr (if_Name ifi)))\<rparr>"

definition filter_drop :: "beaconFilter \<Rightarrow> ip16 option \<Rightarrow> int \<Rightarrow> string option" where
  "filter_drop f dst ifIndex =
     (if dst = None \<or> dst \<noteq> Some (bf_group f) then Some ''not addressed to the multicast group''
      else if bf_skipIface f \<noteq> [] then
        (if ifIndex \<le> 0 then Some ''ingress interface unknown''
         else case bf_ifaceName f ifIndex of
                Inl _ \<Rightarrow> Some ''ingress interface unresolvable''
              | Inr name \<Rightarrow>
                  if name = bf_skipIface f then Some ''received on the tunnel interface'' else None)
      else None)"

text \<open>The control message of a packet (\<open>None\<close> when absent): interface index and destination.\<close>

definition ifaceIndex :: "(int \<times> ip16 option) option \<Rightarrow> int" where
  "ifaceIndex cm = (case cm of None \<Rightarrow> 0 | Some (i, d) \<Rightarrow> i)"

definition dstAddr :: "(int \<times> ip16 option) option \<Rightarrow> ip16 option" where
  "dstAddr cm = (case cm of None \<Rightarrow> None | Some (i, d) \<Rightarrow> d)"

text \<open>\<open>src\<close> is the source address of the packet when it is a UDP address with an IP. The result
  is the store and whether the wake and the reactive channel are signalled.\<close>

definition processBeacon ::
  "(bytes \<Rightarrow> Beacon res) \<Rightarrow> ip16 option list res \<Rightarrow> beaconFilter \<Rightarrow> directory \<Rightarrow> gotime \<Rightarrow>
   bytes \<Rightarrow> ip16 option \<Rightarrow> ip16 option \<Rightarrow> int \<Rightarrow> Store \<Rightarrow> Store \<times> bool \<times> bool" where
  "processBeacon unmarshal addrs filt dir now data src dst ingressIfIndex store =
     (case src of None \<Rightarrow> (store, False, False)
      | Some srcIP \<Rightarrow>
          if filter_drop filt dst ingressIfIndex \<noteq> None then (store, False, False)
          else if isLocalIP addrs srcIP then (store, False, False)
          else if ip_To4 srcIP = None \<and> ip_IsLinkLocalUnicast srcIP then (store, False, False)
          else case Decode unmarshal data of
                 Inl _ \<Rightarrow> (store, False, False)
               | Inr beacon \<Rightarrow>
                   if insideNetworkCIDR (d_NetworkCIDR dir) srcIP then (store, False, False)
                   else if \<not> isKnownPubkey dir (b_PublicKey beacon) then (store, False, False)
                   else if b_PublicKey beacon = fst (Self store) then (store, False, False)
                   else
                     let endpoint = joinHostPort (ip_String srcIP) (itoa (uint (b_Port beacon)));
                         (store', result) = Update (b_PublicKey beacon) endpoint now store
                     in (store', ur_Changed result, ur_FirstSeen result))"

text \<open>Membership of the multicast group, by the names of the interfaces: every interface is left first and joined
  again; the kernel's answer to the join is a parameter. An error on leaving is ignored. The first result is the number
  of joins that succeeded.\<close>

fun rejoinGroups :: "(iface \<Rightarrow> bool) \<Rightarrow> string list \<Rightarrow> iface list \<Rightarrow> nat \<times> string list" where
  "rejoinGroups joins joined [] = (0, joined)"
| "rejoinGroups joins joined (i # is) =
     (let left = filter (\<lambda>j. j \<noteq> if_Name i) joined
      in if \<not> joins i then rejoinGroups joins left is
         else let (n, js) = rejoinGroups joins (if_Name i # left) is in (Suc n, js))"

text \<open>The parameters of discovery.\<close>

record discoveryConfig =
  yc_MulticastIPv4 :: string
  yc_MulticastIPv6 :: string
  yc_BeaconInterval :: duration
  yc_BeaconTTL :: duration
  yc_InterfaceFilter :: string

section \<open>The sender\<close>

definition reactiveCooldown :: duration where "reactiveCooldown = 5 * second"
definition burstSchedule :: "duration list" where "burstSchedule = [0, 2 * second, 3 * second]"

text \<open>What \<open>emit\<close> sends: the beacon and the interfaces it goes out on.\<close>

definition emit :: "(Beacon \<Rightarrow> bytes res) \<Rightarrow> iface list res \<Rightarrow> string \<Rightarrow> u64 \<Rightarrow> Store \<Rightarrow> (bytes \<times> iface list) option" where
  "emit marshal sysifs ifaceFilter nonce store =
     (case Self store of (selfPub, selfPort, ready) \<Rightarrow>
        if \<not> ready then None
        else case Encode marshal \<lparr>b_V = BeaconSchemaVersion, b_PublicKey = selfPub, b_Port = selfPort, b_Nonce = nonce\<rparr> of
               Inl _ \<Rightarrow> None
             | Inr payload \<Rightarrow>
                 (case liveLANInterfaces sysifs ifaceFilter of
                    Inl _ \<Rightarrow> None
                  | Inr ifs \<Rightarrow> if ifs = [] then None else Some (payload, ifs)))"

text \<open>The loop of \<open>runSender\<close> after the burst: a tick of the beacon interval, or a nudge of the
  listener at \<open>now\<close> whose beacon goes out at \<open>sent\<close>, after the jitter. The state is the time of the
  last reactive beacon and the times of all beacons, newest first.\<close>

datatype sender_event = Tick gotime | React gotime gotime

record sender_state =
  ss_lastReactive :: gotime
  ss_emits :: "gotime list"
  ss_reactive :: "gotime list"

primrec sender_step :: "sender_event \<Rightarrow> sender_state \<Rightarrow> sender_state" where
  "sender_step (Tick now) s = s\<lparr>ss_emits := now # ss_emits s\<rparr>"
| "sender_step (React now sent) s =
     (if time_Sub now (ss_lastReactive s) < reactiveCooldown then s
      else s\<lparr>ss_emits := sent # ss_emits s, ss_reactive := sent # ss_reactive s, ss_lastReactive := sent\<rparr>)"

section \<open>Facts on the store\<close>

lemma Usable_iff:
  "Usable s now ttl \<longleftrightarrow>
     ls_Endpoint s \<noteq> [] \<and> ls_LearnedAt s \<noteq> 0 \<and> time_Sub now (ls_LearnedAt s) \<le> ttl \<and>
     ls_FailedEndpoint s \<noteq> ls_Endpoint s"
  by (auto simp: Usable_def Blacklisted_def time_IsZero_def)

lemma Update_other:
  "k' \<noteq> k \<Longrightarrow> map_of (st_entries (fst (Update k e now s))) k' = map_of (st_entries s) k'"
  by (simp add: Update_def Let_def split: option.split)

lemma Update_fields [simp]:
  "st_ttl (fst (Update k e now s)) = st_ttl s"
  "st_selfPub (fst (Update k e now s)) = st_selfPub s"
  "st_selfPort (fst (Update k e now s)) = st_selfPort s"
  by (simp_all add: Update_def Let_def split: option.split)

lemma Update_self:
  "map_of (st_entries (fst (Update k e now s))) k =
     (case map_of (st_entries s) k of
        None \<Rightarrow> Some (zero_LANState\<lparr>ls_Endpoint := e, ls_LearnedAt := now\<rparr>)
      | Some prev \<Rightarrow>
          if e = ls_Endpoint prev then Some (prev\<lparr>ls_LearnedAt := now\<rparr>)
          else if Usable prev now (st_ttl s) then Some prev
          else Some (zero_LANState\<lparr>ls_Endpoint := e, ls_LearnedAt := now\<rparr>))"
  by (simp add: Update_def Let_def split: option.split)

lemma isKnownPubkey_iff: "isKnownPubkey dir k \<longleftrightarrow> k \<in> n_PublicKey ` set (d_Nodes dir)"
proof -
  have "isKnownPubkey_nodes ns k \<longleftrightarrow> k \<in> n_PublicKey ` set ns" for ns
    by (induction ns) auto
  then show ?thesis by (simp add: isKnownPubkey_def)
qed

text \<open>Well-formed entries: an endpoint, and a failure (if any) recorded for that endpoint.\<close>

definition entry_ok :: "LANState \<Rightarrow> bool" where
  "entry_ok e = (ls_Endpoint e \<noteq> [] \<and> ls_FailedEndpoint e \<in> {[], ls_Endpoint e})"

definition store_ok :: "Store \<Rightarrow> bool" where
  "store_ok s = (distinct (map fst (st_entries s)) \<and> (\<forall>k e. map_of (st_entries s) k = Some e \<longrightarrow> entry_ok e))"

datatype store_event =
    EvBeacon string string gotime
  | EvFailed string gotime
  | EvGC gotime duration "string list option"
  | EvSelf string u16

primrec store_step :: "store_event \<Rightarrow> Store \<Rightarrow> Store" where
  "store_step (EvBeacon k e now) s = fst (Update k e now s)"
| "store_step (EvFailed k now) s = MarkFailed k now s"
| "store_step (EvGC now maxAge members) s = fst (GC now maxAge members s)"
| "store_step (EvSelf k p) s = SetSelf k p s"

primrec event_ok :: "store_event \<Rightarrow> bool" where
  "event_ok (EvBeacon k e now) = (e \<noteq> [])"
| "event_ok (EvFailed k now) = True"
| "event_ok (EvGC now maxAge members) = True"
| "event_ok (EvSelf k p) = True"

lemma distinct_fst_update: "distinct (map fst m) \<Longrightarrow> distinct (map fst (AList.update k v m))"
  by (rule distinct_update)

lemma map_of_filter_Some: "distinct (map fst m) \<Longrightarrow> map_of (filter P m) k = Some v \<Longrightarrow> map_of m k = Some v"
  by (metis (no_types, lifting) distinct_map_filter filter_is_subset map_of_SomeD map_of_eq_Some_iff subset_iff)

lemma entry_ok_fresh: "e \<noteq> [] \<Longrightarrow> entry_ok (zero_LANState\<lparr>ls_Endpoint := e\<rparr>)"
  by (simp add: entry_ok_def zero_LANState_def)

lemma entry_ok_updates:
  "entry_ok e \<Longrightarrow> entry_ok (e\<lparr>ls_LearnedAt := now\<rparr>)"
  "entry_ok e \<Longrightarrow> entry_ok (e\<lparr>ls_FailedAt := now, ls_FailedEndpoint := ls_Endpoint e\<rparr>)"
  by (auto simp: entry_ok_def)

lemma store_ok_entry: "store_ok s \<Longrightarrow> map_of (st_entries s) k = Some e \<Longrightarrow> entry_ok e"
  unfolding store_ok_def by blast

lemma store_ok_put:
  assumes "store_ok s" and "entry_ok e"
  shows "store_ok (s\<lparr>st_entries := AList.update k e (st_entries s)\<rparr>)"
  unfolding store_ok_def
proof (intro conjI allI impI)
  show "distinct (map fst (st_entries (s\<lparr>st_entries := AList.update k e (st_entries s)\<rparr>)))"
    using assms(1) by (simp add: store_ok_def distinct_fst_update)
next
  fix k' e' assume "map_of (st_entries (s\<lparr>st_entries := AList.update k e (st_entries s)\<rparr>)) k' = Some e'"
  then have "((map_of (st_entries s))(k \<mapsto> e)) k' = Some e'" by (simp add: map_of_update)
  then show "entry_ok e'" using assms store_ok_entry [OF assms(1), of k' e'] by (auto split: if_splits)
qed

lemma store_ok_fields [simp]:
  "store_ok (s\<lparr>st_selfPub := k, st_selfPort := p\<rparr>) = store_ok s"
  by (simp add: store_ok_def)

lemma store_step_ok:
  assumes "store_ok s" and "event_ok ev"
  shows "store_ok (store_step ev s)"
proof (cases ev)
  case (EvBeacon k e now)
  with assms store_ok_entry [OF assms(1), of k] show ?thesis
    by (cases "map_of (st_entries s) k")
      (auto simp: Update_def Let_def intro!: store_ok_put entry_ok_fresh entry_ok_updates)
next
  case (EvFailed k now)
  with assms store_ok_entry [OF assms(1), of k] show ?thesis
    by (cases "map_of (st_entries s) k") (auto simp: MarkFailed_def intro!: store_ok_put entry_ok_updates)
next
  case (EvGC now maxAge members)
  have "distinct (map fst (filter P (st_entries s)))" for P
    using assms(1) by (simp add: store_ok_def distinct_map_filter)
  moreover have "map_of (filter P (st_entries s)) k = Some e \<Longrightarrow> entry_ok e" for P k e
    using assms(1) store_ok_entry map_of_filter_Some unfolding store_ok_def by metis
  ultimately have "store_ok (s\<lparr>st_entries := filter P (st_entries s)\<rparr>)" for P
    unfolding store_ok_def by auto
  then show ?thesis using EvGC by (simp add: GC_def Let_def)
next
  case (EvSelf k p)
  with assms show ?thesis by (simp add: SetSelf_def)
qed

interpretation store: event_machine store_step store_ok event_ok
  by unfold_locales (rule store_step_ok)

section \<open>What a beacon is worth\<close>

text \<open>An entry learned at \<open>t0\<close> or later that has not failed, with a lifetime that reaches \<open>t\<close>.\<close>

definition pinned :: "string \<Rightarrow> string \<Rightarrow> gotime \<Rightarrow> gotime \<Rightarrow> Store \<Rightarrow> bool" where
  "pinned k e t0 t s =
     (0 < t0 \<and> e \<noteq> [] \<and> time_Sub t t0 \<le> st_ttl s \<and>
      (\<exists>en. map_of (st_entries s) k = Some en \<and> ls_Endpoint en = e \<and> ls_FailedEndpoint en \<noteq> e \<and>
            t0 \<le> ls_LearnedAt en))"

text \<open>A beacon, for any key and with any endpoint, received between \<open>t0\<close> and \<open>t\<close>.\<close>

definition beacon_between :: "gotime \<Rightarrow> gotime \<Rightarrow> store_event \<Rightarrow> bool" where
  "beacon_between t0 t ev = (case ev of EvBeacon k e now \<Rightarrow> t0 \<le> now \<and> now \<le> t | _ \<Rightarrow> False)"

lemma time_Sub_mono: "now \<le> t \<Longrightarrow> u \<le> v \<Longrightarrow> time_Sub now v \<le> time_Sub t u"
  by (auto simp: time_Sub_def)

lemma pinned_usable:
  assumes "pinned k e t0 t s" and "now \<le> t"
  obtains en where "map_of (st_entries s) k = Some en" "ls_Endpoint en = e" "Usable en now (st_ttl s)"
    "ls_FailedEndpoint en \<noteq> e" "t0 \<le> ls_LearnedAt en"
proof -
  from assms(1) obtain en where en: "map_of (st_entries s) k = Some en" "ls_Endpoint en = e"
    "ls_FailedEndpoint en \<noteq> e" "t0 \<le> ls_LearnedAt en" "0 < t0" "e \<noteq> []" "time_Sub t t0 \<le> st_ttl s"
    by (auto simp: pinned_def)
  then have "Usable en now (st_ttl s)"
    using time_Sub_mono [OF assms(2) en(4)] by (simp add: Usable_iff)
  with en that show ?thesis by blast
qed

lemma pinned_step:
  assumes "pinned k e t0 t s" and "beacon_between t0 t ev"
  shows "pinned k e t0 t (store_step ev s)"
proof -
  obtain k' e' now where ev: "ev = EvBeacon k' e' now" and now: "t0 \<le> now" "now \<le> t"
    using assms(2) by (auto simp: beacon_between_def split: store_event.splits)
  obtain en where en: "map_of (st_entries s) k = Some en" "ls_Endpoint en = e" "Usable en now (st_ttl s)"
    "ls_FailedEndpoint en \<noteq> e" "t0 \<le> ls_LearnedAt en"
    using assms(1) now(2) by (rule pinned_usable)
  have "\<exists>l. map_of (st_entries (store_step ev s)) k = Some (en\<lparr>ls_LearnedAt := l\<rparr>) \<and> t0 \<le> l"
  proof (cases "k' = k \<and> e' = e")
    case True
    then show ?thesis using ev en now by (auto simp: Update_self)
  next
    case False
    then have "map_of (st_entries (store_step ev s)) k = Some (en\<lparr>ls_LearnedAt := ls_LearnedAt en\<rparr>)"
      using ev en by (cases "k' = k") (simp_all add: Update_self Update_other)
    with en show ?thesis by blast
  qed
  with en ev assms(1) show ?thesis by (auto simp: pinned_def)
qed

interpretation pin: event_machine store_step "pinned k e t0 t" "beacon_between t0 t" for k e t0 t
  by unfold_locales (rule pinned_step)

text \<open>A failed entry, and beacons that repeat its endpoint (or are about other peers).\<close>

definition blacklisted_at :: "string \<Rightarrow> string \<Rightarrow> Store \<Rightarrow> bool" where
  "blacklisted_at k e s =
     (\<exists>en. map_of (st_entries s) k = Some en \<and> ls_Endpoint en = e \<and> ls_FailedEndpoint en = e \<and> e \<noteq> [])"

definition no_new_candidate :: "string \<Rightarrow> string \<Rightarrow> store_event \<Rightarrow> bool" where
  "no_new_candidate k e ev =
     (case ev of EvBeacon k' e' now \<Rightarrow> k' = k \<longrightarrow> e' = e | EvFailed k' now \<Rightarrow> True
      | EvGC now maxAge members \<Rightarrow> False | EvSelf k' p \<Rightarrow> True)"

lemma blacklisted_step:
  assumes "blacklisted_at k e s" and "no_new_candidate k e ev"
  shows "blacklisted_at k e (store_step ev s)"
proof (cases ev)
  case (EvBeacon k' e' now)
  with assms show ?thesis
    by (cases "k' = k") (auto simp: blacklisted_at_def no_new_candidate_def Update_self Update_other)
next
  case (EvFailed k' now)
  with assms show ?thesis
    by (cases "map_of (st_entries s) k'") (auto simp: blacklisted_at_def MarkFailed_def map_of_update)
qed (use assms in \<open>auto simp: no_new_candidate_def blacklisted_at_def SetSelf_def\<close>)

interpretation black: event_machine store_step "blacklisted_at k e" "no_new_candidate k e" for k e
  by unfold_locales (rule blacklisted_step)

section \<open>From a packet to an endpoint\<close>

lemma lower_hex_char: "d < 16 \<Longrightarrow> is_digit (lower_hex d) \<or> is_lower (lower_hex d)"
  by (auto simp: lower_hex_def is_digit_def is_lower_def)

lemma hexadecimal_chars: "set (hexadecimal n) \<subseteq> {c. is_digit c \<or> is_lower c}"
proof (induction n rule: hexadecimal.induct)
  case (1 n)
  then show ?case
    by (subst hexadecimal.simps) (use lower_hex_char [of n] lower_hex_char [of "n mod 16"] in auto)
qed

lemma hexadecimal_nonempty: "hexadecimal n \<noteq> []"
  by (subst hexadecimal.simps) simp

lemma set_joinWith: "set (joinWith sep ps) \<subseteq> set sep \<union> (\<Union>p \<in> set ps. set p)"
  by (induction sep ps rule: joinWith.induct) auto

definition ip_char :: "char \<Rightarrow> bool" where
  "ip_char c = (is_digit c \<or> is_lower c \<or> c = CHR ''.'' \<or> c = CHR '':'')"

lemma joinWith_hex_chars: "set (joinWith '':'' (map hex_group gs)) \<subseteq> {c. ip_char c}"
  using set_joinWith [of "'':''" "map hex_group gs"] hexadecimal_chars
  by (fastforce simp: hex_group_def ip_char_def)

lemma ip_String_chars: "set (ip_String w) \<subseteq> {c. ip_char c}"
proof (cases "ip_To4 w")
  case None
  then show ?thesis
    using joinWith_hex_chars by (auto simp: ip_String_def Let_def ip_char_def split: option.splits)
next
  case (Some v)
  then show ?thesis using ip4_String_chars [of v] by (auto simp: ip_String_def ip_char_def)
qed

lemma ip_String_nonempty [simp]: "ip_String w \<noteq> []"
proof (cases "ip_To4 w")
  case None
  have "word_groups w \<noteq> []" by (simp add: word_groups_def)
  then obtain g gs where "word_groups w = g # gs" by (cases "word_groups w") auto
  then have "joinWith '':'' (map hex_group (word_groups w)) \<noteq> []"
    by (cases gs) (simp_all add: hex_group_def hexadecimal_nonempty)
  with None show ?thesis by (auto simp: ip_String_def Let_def split: option.splits)
qed (simp add: ip_String_def)

lemma no_bracket_ip_String: "no_bracket (ip_String w)"
  using ip_String_chars [of w] by (auto simp: no_bracket_def ip_char_def is_digit_def is_lower_def)

lemma joinHostPort_chars: "set (joinHostPort h p) \<subseteq> set h \<union> set p \<union> set ''[]:''"
  by (auto simp: joinHostPort_def)

lemma endpoint_of_packet:
  assumes "0 < port" and "port < 65536"
  shows "validateEndpoint (joinHostPort (ip_String w) (itoa port)) = Inr ()"
proof -
  have d: "itoa port = decimal (nat port)" using assms by (simp add: itoa_def)
  have "CHR '':'' \<notin> set (decimal (nat port))" by (rule is_digit_not_in) (simp add: is_digit_def)
  then have sp: "splitHostPort (joinHostPort (ip_String w) (itoa port)) = Some (ip_String w, itoa port)"
    unfolding d using no_bracket_ip_String no_bracket_decimal by (rule splitHostPort_join [rotated 2])
  have at: "atoi (itoa port) = Some port" using assms by (simp add: atoi_itoa)
  have "list_all is_digit (itoa port)" unfolding d by (rule decimal_digits)
  then have "set (joinHostPort (ip_String w) (itoa port)) \<subseteq> {c. ip_char c} \<union> set ''[]:''"
    using joinHostPort_chars [of "ip_String w" "itoa port"] ip_String_chars [of w]
    by (auto simp: list_all_iff ip_char_def)
  then have "\<not> containsAny (joinHostPort (ip_String w) (itoa port)) [CHR 0x00, NL, CR, TAB]"
    by (auto simp: containsAny_def list_ex_iff ip_char_def is_digit_def is_lower_def)
  with sp at assms show ?thesis by (simp add: validateEndpoint_def)
qed

lemma port_range: "b_Port b \<noteq> 0 \<Longrightarrow> 0 < uint (b_Port b) \<and> uint (b_Port b) < 65536"
  using unsigned_less [of "b_Port b", where ?'a = int] uint_nonnegative [of "b_Port b"]
  by (auto simp: order_less_le unsigned_eq_0_iff)

lemma processBeacon_changed:
  assumes "processBeacon um addrs filt dir now data src dst ix s = (s', w, r)" and "s' \<noteq> s"
  obtains ip b where "src = Some ip" "filter_drop filt dst ix = None" "\<not> isLocalIP addrs ip"
    "\<not> (ip_To4 ip = None \<and> ip_IsLinkLocalUnicast ip)" "Decode um data = Inr b"
    "\<not> insideNetworkCIDR (d_NetworkCIDR dir) ip" "isKnownPubkey dir (b_PublicKey b)"
    "b_PublicKey b \<noteq> st_selfPub s"
    "s' = fst (Update (b_PublicKey b) (joinHostPort (ip_String ip) (itoa (uint (b_Port b)))) now s)"
  using assms
  by (auto simp: processBeacon_def Self_def Let_def split: option.splits if_splits sum.splits prod.splits)

section \<open>Pacing of the sender\<close>

definition sender_ok :: "sender_state \<Rightarrow> bool" where
  "sender_ok s =
     (sorted_wrt (\<lambda>a b. reactiveCooldown \<le> a - b) (ss_reactive s) \<and>
      (ss_reactive s \<noteq> [] \<longrightarrow> ss_lastReactive s = hd (ss_reactive s)))"

text \<open>The reactive beacon goes out after the nudge, never before it.\<close>

definition jitter_ok :: "sender_event \<Rightarrow> bool" where
  "jitter_ok ev = (case ev of Tick now \<Rightarrow> True | React now sent \<Rightarrow> now \<le> sent)"

lemma sender_step_ok:
  assumes "sender_ok s" and "jitter_ok ev"
  shows "sender_ok (sender_step ev s)"
proof (cases ev)
  case (Tick now)
  with assms show ?thesis by (simp add: sender_ok_def)
next
  case (React now sent)
  show ?thesis
  proof (cases "time_Sub now (ss_lastReactive s) < reactiveCooldown")
    case True
    with React assms show ?thesis by simp
  next
    case False
    have "reactiveCooldown \<le> maxDuration" "minDuration < reactiveCooldown"
      by (simp_all add: reactiveCooldown_def maxDuration_def minDuration_def)
    with False have now: "reactiveCooldown \<le> now - ss_lastReactive s"
      by (simp add: time_Sub_less not_less)
    have "reactiveCooldown \<le> sent - b" if "b \<in> set (ss_reactive s)" for b
    proof -
      from that have "ss_reactive s \<noteq> []" by auto
      then obtain r rs where rs: "ss_reactive s = r # rs" by (auto simp: neq_Nil_conv)
      then have "ss_lastReactive s = r" and "b = r \<or> reactiveCooldown \<le> r - b"
        using assms(1) that by (auto simp: sender_ok_def)
      with now React assms(2) show ?thesis
        by (auto simp: jitter_ok_def reactiveCooldown_def)
    qed
    with False React assms(1) show ?thesis by (simp add: sender_ok_def)
  qed
qed

interpretation sender: event_machine sender_step sender_ok jitter_ok
  by unfold_locales (rule sender_step_ok)

section \<open>Properties\<close>

text \<open>in every state the store can reach by beacons, failures, collections and changes of the
  local identity, each entry has an endpoint, and the endpoint recorded as failed is the current
  one or none: a failure never outlives the endpoint it was observed on.\<close>

theorem store_invariant:
  assumes "list_all event_ok evs" and "map_of (st_entries (run store_step evs (NewStore ttl))) k = Some e"
  shows "ls_Endpoint e \<noteq> [] \<and> (ls_FailedEndpoint e = [] \<or> ls_FailedEndpoint e = ls_Endpoint e)"
proof -
  have "store_ok (NewStore ttl)" by (simp add: store_ok_def NewStore_def)
  then have "store_ok (run store_step evs (NewStore ttl))" using assms(1) by (rule store.run_inv)
  with assms(2) have "entry_ok e" by (rule store_ok_entry [rotated])
  then show ?thesis by (auto simp: entry_ok_def)
qed

theorem store_invariant_witness:
  "ls_Endpoint \<lparr>ls_Endpoint = ''1.2.3.4:7'', ls_LearnedAt = 5, ls_FailedAt = 9, ls_FailedEndpoint = ''1.2.3.4:7''\<rparr> \<noteq> []"
  using store_invariant [of "[EvBeacon ''k'' ''1.2.3.4:7'' 5, EvFailed ''k'' 9]" 100 "''k''"
      "\<lparr>ls_Endpoint = ''1.2.3.4:7'', ls_LearnedAt = 5, ls_FailedAt = 9, ls_FailedEndpoint = ''1.2.3.4:7''\<rparr>"]
  by (simp add: Update_def MarkFailed_def NewStore_def zero_LANState_def Let_def)

text \<open>C22: beacons cannot displace a working endpoint. Whatever beacons arrive, for whichever peers and
  with whichever endpoints, a peer's endpoint learned at \<open>t0\<close> that has not failed is what \<open>Lookup\<close>
  returns until its lifetime is over.\<close>

theorem beacon_cannot_displace:
  assumes "map_of (st_entries s) k = Some en" and "0 < ls_LearnedAt en" and "ls_Endpoint en \<noteq> []"
    and "\<not> Blacklisted en" and "time_Sub t (ls_LearnedAt en) \<le> st_ttl s"
    and "list_all (beacon_between (ls_LearnedAt en) t) evs"
  shows "Lookup (run store_step evs s) k t = ls_Endpoint en"
proof -
  have "pinned k (ls_Endpoint en) (ls_LearnedAt en) t s"
    using assms(1-5) by (auto simp: pinned_def Blacklisted_def)
  then have "pinned k (ls_Endpoint en) (ls_LearnedAt en) t (run store_step evs s)"
    using assms(6) by (rule pin.run_inv)
  then obtain en' where "map_of (st_entries (run store_step evs s)) k = Some en'"
    "ls_Endpoint en' = ls_Endpoint en" "Usable en' t (st_ttl (run store_step evs s))"
    by (rule pinned_usable [OF _ order_refl])
  then show ?thesis by (simp add: Lookup_def)
qed

theorem beacon_cannot_displace_witness:
  "Lookup (run store_step [EvBeacon ''k'' ''6.6.6.6:1'' 60, EvBeacon ''j'' ''6.6.6.6:1'' 70]
     (fst (Update ''k'' ''1.2.3.4:7'' 50 (NewStore 90)))) ''k'' 140 = ''1.2.3.4:7''"
  using beacon_cannot_displace [of "fst (Update ''k'' ''1.2.3.4:7'' 50 (NewStore 90))" "''k''"
      "zero_LANState\<lparr>ls_Endpoint := ''1.2.3.4:7'', ls_LearnedAt := 50\<rparr>" 140
      "[EvBeacon ''k'' ''6.6.6.6:1'' 60, EvBeacon ''j'' ''6.6.6.6:1'' 70]"]
  by (simp add: Update_self NewStore_def zero_LANState_def Blacklisted_def beacon_between_def
      time_Sub_def minDuration_def maxDuration_def)

text \<open>a failed endpoint stays out: after \<open>MarkFailed\<close>, no number of beacons repeating the endpoint
  makes \<open>Lookup\<close> return it, at any time, until one announces a different endpoint (or the entry is
  collected).\<close>

theorem failed_endpoint_stays_out:
  assumes "map_of (st_entries s) k = Some en" and "ls_Endpoint en \<noteq> []"
    and "list_all (no_new_candidate k (ls_Endpoint en)) evs"
  shows "Lookup (run store_step evs (MarkFailed k t s)) k now = []"
proof -
  have "blacklisted_at k (ls_Endpoint en) (MarkFailed k t s)"
    using assms(1,2) by (simp add: blacklisted_at_def MarkFailed_def)
  then have "blacklisted_at k (ls_Endpoint en) (run store_step evs (MarkFailed k t s))"
    using assms(3) by (rule black.run_inv)
  then show ?thesis by (auto simp: blacklisted_at_def Lookup_def Usable_iff)
qed

theorem failed_endpoint_stays_out_witness:
  "Lookup (run store_step [EvBeacon ''k'' ''1.2.3.4:7'' 60, EvBeacon ''k'' ''1.2.3.4:7'' 70]
     (MarkFailed ''k'' 55 (fst (Update ''k'' ''1.2.3.4:7'' 50 (NewStore 90))))) ''k'' 71 = []"
  using failed_endpoint_stays_out [of "fst (Update ''k'' ''1.2.3.4:7'' 50 (NewStore 90))" "''k''"
      "zero_LANState\<lparr>ls_Endpoint := ''1.2.3.4:7'', ls_LearnedAt := 50\<rparr>"
      "[EvBeacon ''k'' ''1.2.3.4:7'' 60, EvBeacon ''k'' ''1.2.3.4:7'' 70]" 55 71]
  by (simp add: Update_self NewStore_def zero_LANState_def no_new_candidate_def)

text \<open>A packet changes the store only if it was addressed to the multicast group, came in on an
  interface other than the tunnel, from an address that is not local, not an IPv6 link-local one
  and not inside the tunnel network, and announces the key of a member other than the local node;
  what is then offered to the store is the source address with the announced port, a well-formed
  endpoint.\<close>

theorem beacon_gate:
  assumes "processBeacon um addrs filt dir now data src dst ix s = (s', w, r)" and "s' \<noteq> s"
  shows "\<exists>ip b. src = Some ip \<and> dst = Some (bf_group filt) \<and>
    (bf_skipIface filt \<noteq> [] \<longrightarrow> (\<exists>name. bf_ifaceName filt ix = Inr name \<and> name \<noteq> bf_skipIface filt)) \<and>
    \<not> isLocalIP addrs ip \<and> \<not> insideNetworkCIDR (d_NetworkCIDR dir) ip \<and> Decode um data = Inr b \<and>
    b_PublicKey b \<in> n_PublicKey ` set (d_Nodes dir) \<and> b_PublicKey b \<noteq> st_selfPub s \<and>
    (let ep = joinHostPort (ip_String ip) (itoa (uint (b_Port b)))
     in s' = fst (Update (b_PublicKey b) ep now s) \<and> validateEndpoint ep = Inr ())"
proof -
  obtain ip b where b: "src = Some ip" "filter_drop filt dst ix = None" "\<not> isLocalIP addrs ip"
    "Decode um data = Inr b" "\<not> insideNetworkCIDR (d_NetworkCIDR dir) ip"
    "isKnownPubkey dir (b_PublicKey b)" "b_PublicKey b \<noteq> st_selfPub s"
    "s' = fst (Update (b_PublicKey b) (joinHostPort (ip_String ip) (itoa (uint (b_Port b)))) now s)"
    using assms by (rule processBeacon_changed)
  have "b_Port b \<noteq> 0" using b(4) by (auto simp: Decode_def split: if_splits)
  then have "validateEndpoint (joinHostPort (ip_String ip) (itoa (uint (b_Port b)))) = Inr ()"
    using port_range [of b] by (intro endpoint_of_packet) auto
  moreover have "dst = Some (bf_group filt)"
    and "bf_skipIface filt \<noteq> [] \<longrightarrow> (\<exists>name. bf_ifaceName filt ix = Inr name \<and> name \<noteq> bf_skipIface filt)"
    using b(2) by (auto simp: filter_drop_def split: if_splits sum.splits)
  ultimately show ?thesis using b by (auto simp: isKnownPubkey_iff Let_def)
qed

definition demo_lan :: directory where
  "demo_lan = \<lparr>d_SchemaVersion = 2, d_Serial = 1, d_CreatedAt = second, d_NetworkCIDR = ''10.42.0.0/16'',
     d_Domain = [], d_Nodes = [zero_node\<lparr>n_PublicKey := ''k''\<rparr>]\<rparr>"

definition demo_packet :: "Store \<Rightarrow> Store \<times> bool \<times> bool" where
  "demo_packet =
     processBeacon (\<lambda>_. Inr \<lparr>b_V = 1, b_PublicKey = ''k'', b_Port = 51820, b_Nonce = 7\<rparr>) (Inr [])
       \<lparr>bf_group = 99, bf_skipIface = ''tincan0'', bf_ifaceName = (\<lambda>i. Inr ''eth0'')\<rparr>
       demo_lan 50 ''data''
       (Some 0xFFFFC0A80005) (Some 99) 2"

theorem beacon_gate_witness:
  "''k'' \<in> n_PublicKey ` set (d_Nodes demo_lan) \<and> fst (demo_packet (NewStore 90)) \<noteq> NewStore 90"
proof -
  have "ip_To4 0xFFFFC0A80005 = Some 0xC0A80005" "\<not> insideNetworkCIDR ''10.42.0.0/16'' 0xFFFFC0A80005"
    by code_simp+
  then have ne: "fst (demo_packet (NewStore 90)) \<noteq> NewStore 90"
    by (simp add: demo_packet_def processBeacon_def filter_drop_def isLocalIP_def Decode_def demo_lan_def
        isKnownPubkey_def zero_node_def Self_def NewStore_def Update_def Let_def)
  obtain s' w r where p: "demo_packet (NewStore 90) = (s', w, r)" by (cases "demo_packet (NewStore 90)") auto
  have "s' \<noteq> NewStore 90" using ne p by simp
  from beacon_gate [OF p [unfolded demo_packet_def] this]
  obtain b where d: "Decode (\<lambda>_. Inr \<lparr>b_V = 1, b_PublicKey = ''k'', b_Port = 51820, b_Nonce = 7\<rparr>) ''data'' = Inr b"
    and m: "b_PublicKey b \<in> n_PublicKey ` set (d_Nodes demo_lan)"
    by blast
  from d have "b_PublicKey b = ''k''" by (auto simp: Decode_def)
  with m ne show ?thesis by simp
qed

text \<open>however often it is nudged, the sender answers with at most one reactive beacon per five
  seconds: any two reactive beacons are that far apart.\<close>

theorem reactive_beacons_spaced:
  assumes "list_all jitter_ok evs"
  shows "sorted_wrt (\<lambda>a b. 5 * second \<le> a - b)
    (ss_reactive (run sender_step evs \<lparr>ss_lastReactive = 0, ss_emits = [], ss_reactive = []\<rparr>))"
proof -
  have "sender_ok \<lparr>ss_lastReactive = 0, ss_emits = [], ss_reactive = []\<rparr>" by (simp add: sender_ok_def)
  then have "sender_ok (run sender_step evs \<lparr>ss_lastReactive = 0, ss_emits = [], ss_reactive = []\<rparr>)"
    using assms by (rule sender.run_inv)
  then show ?thesis by (simp add: sender_ok_def reactiveCooldown_def)
qed

theorem reactive_beacons_spaced_witness:
  "sorted_wrt (\<lambda>a b. 5 * second \<le> a - b) [20 * second, 10 * second]"
  using reactive_beacons_spaced [of "[React (10 * second) (10 * second), React (12 * second) (12 * second),
      React (20 * second) (20 * second)]"]
  by (simp add: jitter_ok_def reactiveCooldown_def time_Sub_def minDuration_def maxDuration_def)

end
