(* ===== verification/Cache.thy ===== *)
theory Cache
  imports Codec Discovery
begin

text \<open>
  The state directory of a node (\<open>src/internal/cache\<close>): the last accepted directory, the serial
  high-water mark, the publisher's reserved serials and the files beside them. The disk is a map
  from files to contents. Every call that touches it takes an \<open>io\<close> value that says which system
  calls fail: a write through \<open>renameio\<close> either replaces the file whole or leaves it alone, so a
  crash in the middle of an operation leaves the same disk as a failure of its next write.
\<close>

section \<open>Files and system calls\<close>

datatype statefile = FCache | FSerial | FState | FDiscovery | FSource | FPublish

type_synonym disk = "statefile \<Rightarrow> bytes option"

record io =
  io_mkdir :: "error option"
  io_openLock :: "error option"
  io_flock :: "error option"
  io_read :: "statefile \<Rightarrow> error option"
  io_write :: "statefile \<Rightarrow> error option"

text \<open>A read that fails on a file that is there does not report that it is absent.\<close>

definition io_ok :: "io \<Rightarrow> bool" where
  "io_ok io = (\<forall>f e. io_read io f = Some e \<longrightarrow> \<not> errors_Is e ErrNotExist)"

definition os_ReadFile :: "io \<Rightarrow> statefile \<Rightarrow> disk \<Rightarrow> bytes res" where
  "os_ReadFile io f d =
     (case io_read io f of Some e \<Rightarrow> Inl e
      | None \<Rightarrow> (case d f of None \<Rightarrow> Inl ErrNotExist | Some b \<Rightarrow> Inr b))"

definition renameio_WriteFile :: "io \<Rightarrow> statefile \<Rightarrow> bytes \<Rightarrow> disk \<Rightarrow> disk \<times> unit res" where
  "renameio_WriteFile io f data d =
     (case io_write io f of Some e \<Rightarrow> (d, Inl e) | None \<Rightarrow> (d(f \<mapsto> data), Inr ()))"

definition ensureDir :: "io \<Rightarrow> unit res" where
  "ensureDir io = (case io_mkdir io of Some e \<Rightarrow> Inl (Wrap ''create state directory'' e) | None \<Rightarrow> Inr ())"

definition withStateLock :: "io \<Rightarrow> (disk \<Rightarrow> disk \<times> unit res) \<Rightarrow> disk \<Rightarrow> disk \<times> unit res" where
  "withStateLock io fn d =
     (case ensureDir io of Inl e \<Rightarrow> (d, Inl e)
      | Inr _ \<Rightarrow>
          (case io_openLock io of Some e \<Rightarrow> (d, Inl (Wrap ''open state lock'' e))
           | None \<Rightarrow>
               (case io_flock io of Some e \<Rightarrow> (d, Inl (Wrap ''lock state directory'' e))
                | None \<Rightarrow> fn d)))"

text \<open>\<open>LockAdmin\<close>: the lock is granted or the call fails; the transactions that hold it exclude each
  other.\<close>

definition LockAdmin :: "io \<Rightarrow> unit res" where
  "LockAdmin io =
     bindR (ensureDir io) (\<lambda>_.
     case io_openLock io of Some e \<Rightarrow> Inl (Wrap ''open admin lock'' e)
     | None \<Rightarrow> (case io_flock io of Some e \<Rightarrow> Inl (Wrap ''lock admin directory'' e) | None \<Rightarrow> Inr ()))"

section \<open>Serials\<close>

definition readSerial :: "io \<Rightarrow> statefile \<Rightarrow> disk \<Rightarrow> u64 res" where
  "readSerial io f d =
     bindR (os_ReadFile io f d) (\<lambda>data.
     case parseUint64 (trimSpace data) of
       None \<Rightarrow> Inl (Wrap ''parse cache serial'' (Err ''strconv''))
     | Some serial \<Rightarrow> Inr serial)"

definition ReadSerial :: "io \<Rightarrow> disk \<Rightarrow> u64 res" where
  "ReadSerial io d = readSerial io FSerial d"

definition formatSerial :: "u64 \<Rightarrow> bytes" where
  "formatSerial serial = decimal (unat serial) @ [NL]"

definition writeSerialFile :: "io \<Rightarrow> u64 \<Rightarrow> disk \<Rightarrow> disk \<times> unit res" where
  "writeSerialFile io serial d =
     (case renameio_WriteFile io FSerial (formatSerial serial) d of
        (d', r) \<Rightarrow> (d', wrapR ''write cache serial'' r))"

definition WriteSerialFloor :: "io \<Rightarrow> u64 \<Rightarrow> disk \<Rightarrow> disk \<times> unit res" where
  "WriteSerialFloor io serial d =
     (if serial = 0 then (d, Inr ())
      else withStateLock io (\<lambda>d.
        case ReadSerial io d of
          Inr prev \<Rightarrow> if prev \<ge> serial then (d, Inr ()) else writeSerialFile io serial d
        | Inl e \<Rightarrow>
            if errors_Is e ErrNotExist then writeSerialFile io serial d
            else (d, Inl (Wrap ''read cache serial'' e))) d)"

definition ReadPublishSerial :: "io \<Rightarrow> disk \<Rightarrow> u64 res" where
  "ReadPublishSerial io d = readSerial io FPublish d"

definition ReservePublishSerial :: "io \<Rightarrow> u64 \<Rightarrow> disk \<Rightarrow> disk \<times> unit res" where
  "ReservePublishSerial io serial d =
     withStateLock io (\<lambda>d.
       let write = (case renameio_WriteFile io FPublish (formatSerial serial) d of
                      (d', r) \<Rightarrow> (d', wrapR ''reserve publish serial'' r))
       in case ReadPublishSerial io d of
            Inr previous \<Rightarrow>
              if serial \<le> previous then (d, Inl (Err ''publish serial has already been reserved'')) else write
          | Inl e \<Rightarrow>
              if errors_Is e ErrNotExist then write else (d, Inl (Wrap ''read publish serial'' e))) d"

section \<open>The cache and the other files\<close>

record State =
  s_LastSync :: gotime
  s_LastETag :: string
  s_Serial :: u64

record DiscoveryState =
  ds_UpdatedAt :: gotime
  ds_LANEndpoints :: "(string \<times> LANState) list"

text \<open>The JSON text of the two status files is left abstract.\<close>

record jsonlib =
  js_EncodeState :: "State \<Rightarrow> bytes res"
  js_DecodeState :: "bytes \<Rightarrow> State res"
  js_EncodeDiscovery :: "DiscoveryState \<Rightarrow> bytes res"
  js_DecodeDiscovery :: "bytes \<Rightarrow> DiscoveryState res"

definition unmarshal_dir :: "libs \<Rightarrow> bytes \<Rightarrow> directory res" where
  "unmarshal_dir L b = UnmarshalPlain (l_wg L) (l_age L) (l_mp L) b"

definition marshal_dir :: "libs \<Rightarrow> gotime \<Rightarrow> directory \<Rightarrow> bytes res" where
  "marshal_dir L now dir = MarshalPlain (l_wg L) (l_age L) (l_mp L) now dir"

definition Read :: "libs \<Rightarrow> io \<Rightarrow> disk \<Rightarrow> (directory \<times> bytes) res" where
  "Read L io d =
     (case os_ReadFile io FCache d of
        Inl e \<Rightarrow> if errors_Is e ErrNotExist then Inl ErrNotExist else Inl (Wrap ''read cache'' e)
      | Inr data \<Rightarrow> bindR (unmarshal_dir L data) (\<lambda>dir. Inr (dir, data)))"

text \<open>The writes of \<open>Write\<close>, in order: the serial first, so that a crash in between cannot leave a
  newer cache with an older mark.\<close>

definition writeFiles :: "jsonlib \<Rightarrow> io \<Rightarrow> gotime \<Rightarrow> directory \<Rightarrow> string \<Rightarrow> bytes \<Rightarrow> disk \<Rightarrow> disk \<times> unit res" where
  "writeFiles J io now dir etag payload d =
     (case writeSerialFile io (d_Serial dir) d of
        (d1, Inl e) \<Rightarrow> (d1, Inl e)
      | (d1, Inr _) \<Rightarrow>
          (case renameio_WriteFile io FCache payload d1 of
             (d2, Inl e) \<Rightarrow> (d2, Inl (Wrap ''write cache'' e))
           | (d2, Inr _) \<Rightarrow>
               (case js_EncodeState J \<lparr>s_LastSync = now, s_LastETag = etag, s_Serial = d_Serial dir\<rparr> of
                  Inl e \<Rightarrow> (d2, Inl (Wrap ''encode state'' e))
                | Inr stateBytes \<Rightarrow>
                    (case renameio_WriteFile io FState (stateBytes @ [NL]) d2 of
                       (d3, r) \<Rightarrow> (d3, wrapR ''write state'' r)))))"

definition Write :: "libs \<Rightarrow> jsonlib \<Rightarrow> io \<Rightarrow> gotime \<Rightarrow> directory \<Rightarrow> string \<Rightarrow> disk \<Rightarrow> disk \<times> unit res" where
  "Write L J io now dir etag d =
     (case marshal_dir L now dir of
        Inl e \<Rightarrow> (d, Inl e)
      | Inr payload \<Rightarrow>
          withStateLock io (\<lambda>d.
            case ReadSerial io d of
              Inr prev \<Rightarrow>
                if d_Serial dir < prev then (d, Inl (Err ''refusing to lower cached serial''))
                else writeFiles J io now dir etag payload d
            | Inl e \<Rightarrow>
                if errors_Is e ErrNotExist then writeFiles J io now dir etag payload d
                else (d, Inl (Wrap ''read cache serial'' e))) d)"

definition ReadState :: "jsonlib \<Rightarrow> io \<Rightarrow> disk \<Rightarrow> State res" where
  "ReadState J io d =
     bindR (os_ReadFile io FState d) (\<lambda>data. wrapR ''decode state'' (js_DecodeState J data))"

definition WriteDiscovery :: "jsonlib \<Rightarrow> io \<Rightarrow> gotime \<Rightarrow> (string \<times> LANState) list \<Rightarrow> disk \<Rightarrow> disk \<times> unit res" where
  "WriteDiscovery J io now snapshot d =
     (case js_EncodeDiscovery J \<lparr>ds_UpdatedAt = now, ds_LANEndpoints = snapshot\<rparr> of
        Inl e \<Rightarrow> (d, Inl (Wrap ''encode discovery state'' e))
      | Inr data \<Rightarrow>
          withStateLock io (\<lambda>d. case renameio_WriteFile io FDiscovery (data @ [NL]) d of
             (d', r) \<Rightarrow> (d', wrapR ''write discovery state'' r)) d)"

definition ReadDiscovery :: "jsonlib \<Rightarrow> io \<Rightarrow> disk \<Rightarrow> DiscoveryState res" where
  "ReadDiscovery J io d =
     bindR (os_ReadFile io FDiscovery d) (\<lambda>data. wrapR ''decode discovery state'' (js_DecodeDiscovery J data))"

definition ReadSource :: "libs \<Rightarrow> io \<Rightarrow> disk \<Rightarrow> directory res" where
  "ReadSource L io d = bindR (os_ReadFile io FSource d) (unmarshal_dir L)"

definition WriteSource :: "libs \<Rightarrow> io \<Rightarrow> gotime \<Rightarrow> directory \<Rightarrow> disk \<Rightarrow> disk \<times> unit res" where
  "WriteSource L io now dir d =
     (case marshal_dir L now dir of
        Inl e \<Rightarrow> (d, Inl e)
      | Inr payload \<Rightarrow>
          withStateLock io (\<lambda>d. case renameio_WriteFile io FSource payload d of
             (d', r) \<Rightarrow> (d', wrapR ''write source directory'' r)) d)"

section \<open>Facts\<close>

lemma parse_formatSerial [simp]: "parseUint64 (trimSpace (formatSerial s)) = Some s"
  by (simp add: formatSerial_def trimSpace_snoc is_space_def parseUint64_format)

text \<open>What a serial file says, if it can be read and parsed.\<close>

definition mark :: "statefile \<Rightarrow> disk \<Rightarrow> u64 option" where
  "mark f d = (case d f of None \<Rightarrow> None | Some b \<Rightarrow> parseUint64 (trimSpace b))"

text \<open>As a number that grows with the mark, zero for none.\<close>

definition mark_level :: "statefile \<Rightarrow> disk \<Rightarrow> nat" where
  "mark_level f d = (case mark f d of None \<Rightarrow> 0 | Some s \<Rightarrow> Suc (unat s))"

lemma readSerial_Inr: "readSerial io f d = Inr s \<Longrightarrow> mark f d = Some s"
  by (auto simp: readSerial_def os_ReadFile_def mark_def split: option.splits)

lemma readSerial_absent:
  assumes "io_ok io" and "readSerial io f d = Inl e" and "errors_Is e ErrNotExist"
  shows "d f = None"
  using assms by (auto simp: readSerial_def os_ReadFile_def io_ok_def bindR_eq_Inl split: option.splits)

lemma readSerial_mark: "io_read io f = None \<Longrightarrow> mark f d = Some s \<Longrightarrow> readSerial io f d = Inr s"
  by (auto simp: readSerial_def os_ReadFile_def mark_def split: option.splits)

lemma mark_upd [simp]:
  "mark f (d(f \<mapsto> formatSerial s)) = Some s"
  "g \<noteq> f \<Longrightarrow> mark f (d(g \<mapsto> b)) = mark f d"
  by (simp_all add: mark_def)

lemma mark_level_upd:
  "mark_level f (d(f \<mapsto> formatSerial s)) = Suc (unat s)"
  "g \<noteq> f \<Longrightarrow> mark_level f (d(g \<mapsto> b)) = mark_level f d"
  by (simp_all add: mark_level_def)

lemma mark_level_le: "mark f d = Some p \<Longrightarrow> p \<le> s \<Longrightarrow> mark_level f d \<le> Suc (unat s)"
  by (simp add: mark_level_def word_le_nat_alt)

lemma mark_level_absent: "d f = None \<Longrightarrow> mark_level f d = 0"
  by (simp add: mark_level_def mark_def)

text \<open>Under the lock, or not at all.\<close>

lemma withStateLock_cases:
  "withStateLock io fn d = fn d \<or> (\<exists>e. withStateLock io fn d = (d, Inl e))"
  by (auto simp: withStateLock_def split: sum.splits option.splits)

lemma renameio_cases:
  obtains e where "renameio_WriteFile io f b d = (d, Inl e)" "io_write io f = Some e"
  | "renameio_WriteFile io f b d = (d(f \<mapsto> b), Inr ())" "io_write io f = None"
  by (cases "io_write io f") (auto simp: renameio_WriteFile_def)

lemma writeSerialFile_disk:
  "fst (writeSerialFile io s d) = d \<and> \<not> is_ok (snd (writeSerialFile io s d)) \<or>
   writeSerialFile io s d = (d(FSerial \<mapsto> formatSerial s), Inr ())"
  by (cases rule: renameio_cases [of io FSerial "formatSerial s" d]) (simp_all add: writeSerialFile_def)

text \<open>The disks an attempt to write a directory can leave behind, in the order of its writes.\<close>

definition write_stages :: "u64 \<Rightarrow> bytes \<Rightarrow> disk \<Rightarrow> disk set" where
  "write_stages s payload d =
     {d, d(FSerial \<mapsto> formatSerial s), d(FSerial \<mapsto> formatSerial s, FCache \<mapsto> payload)}
     \<union> {d(FSerial \<mapsto> formatSerial s, FCache \<mapsto> payload, FState \<mapsto> sb) | sb. True}"

lemma writeFiles_stages:
  "fst (writeFiles J io now dir etag payload d) \<in> write_stages (d_Serial dir) payload d \<and>
   (is_ok (snd (writeFiles J io now dir etag payload d)) \<longrightarrow>
      (\<exists>sb. fst (writeFiles J io now dir etag payload d) =
         d(FSerial \<mapsto> formatSerial (d_Serial dir), FCache \<mapsto> payload, FState \<mapsto> sb)))"
proof -
  let ?s = "d_Serial dir"
  let ?d1 = "d(FSerial \<mapsto> formatSerial ?s)" and ?st = "\<lparr>s_LastSync = now, s_LastETag = etag, s_Serial = ?s\<rparr>"
  show ?thesis
  proof (cases "io_write io FSerial")
    case (Some e)
    then show ?thesis by (simp add: writeFiles_def writeSerialFile_def renameio_WriteFile_def write_stages_def)
  next
    case None
    then have w: "writeSerialFile io ?s d = (?d1, Inr ())"
      by (simp add: writeSerialFile_def renameio_WriteFile_def)
    show ?thesis
      by (cases "io_write io FCache"; cases "js_EncodeState J ?st"; cases "io_write io FState")
        (auto simp: writeFiles_def w renameio_WriteFile_def write_stages_def)
  qed
qed

text \<open>The pattern of the three guarded writes: read the mark, refuse (or stop) when it is too high or
  unreadable, go on when it is absent or low enough.\<close>

definition guarded :: "(u64 \<Rightarrow> bool) \<Rightarrow> unit res \<Rightarrow> (error \<Rightarrow> unit res) \<Rightarrow> io \<Rightarrow> statefile \<Rightarrow>
    (disk \<Rightarrow> disk \<times> unit res) \<Rightarrow> disk \<Rightarrow> disk \<times> unit res" where
  "guarded high r bad io f w d =
     (case readSerial io f d of
        Inr prev \<Rightarrow> if high prev then (d, r) else w d
      | Inl e \<Rightarrow> if errors_Is e ErrNotExist then w d else (d, bad e))"

lemma guarded_cases:
  assumes "io_ok io" and "\<And>prev. \<not> high prev \<Longrightarrow> prev \<le> s" and "\<And>e. \<not> is_ok (bad e)"
  obtains (stop) q where "withStateLock io (guarded high r bad io f w) d = (d, q)" "q = r \<or> \<not> is_ok q"
  | (go) "withStateLock io (guarded high r bad io f w) d = w d" "mark_level f d \<le> Suc (unat s)"
proof -
  let ?g = "guarded high r bad io f w"
  have g: "(\<exists>q. ?g d = (d, q) \<and> (q = r \<or> \<not> is_ok q)) \<or> (?g d = w d \<and> mark_level f d \<le> Suc (unat s))"
  proof (cases "readSerial io f d")
    case (Inl e)
    then show ?thesis using readSerial_absent [OF assms(1) Inl] mark_level_absent [of d f] assms(3) [of e]
      by (auto simp: guarded_def)
  next
    case (Inr prev)
    then show ?thesis using mark_level_le [OF readSerial_Inr [OF Inr]] assms(2) [of prev]
      by (auto simp: guarded_def)
  qed
  show ?thesis
    using withStateLock_cases [of io ?g d]
  proof
    assume "withStateLock io ?g d = ?g d"
    with g show ?thesis using stop go by auto
  next
    assume "\<exists>e. withStateLock io ?g d = (d, Inl e)"
    then show ?thesis using stop by auto
  qed
qed

text \<open>A guarded write that finds a readable mark, or an error other than absence, does not go ahead.\<close>

lemma guarded_refuses:
  assumes "io_ok io" and "mark f d = Some m" and "high m" and "\<not> is_ok r" and "\<And>e. \<not> is_ok (bad e)"
  shows "\<not> is_ok (snd (withStateLock io (guarded high r bad io f w) d))"
proof -
  have "readSerial io f d = Inr m \<or> (\<exists>e. readSerial io f d = Inl e \<and> \<not> errors_Is e ErrNotExist)"
  proof (cases "io_read io f")
    case None
    then show ?thesis using readSerial_mark assms(2) by blast
  next
    case (Some e)
    then show ?thesis using assms(1) by (simp add: readSerial_def os_ReadFile_def io_ok_def)
  qed
  then have "\<not> is_ok (snd (guarded high r bad io f w d))" using assms(3-5) by (auto simp: guarded_def)
  then show ?thesis using withStateLock_cases [of io "guarded high r bad io f w" d] by auto
qed

lemma Write_guarded:
  "marshal_dir L now dir = Inr payload \<Longrightarrow>
   Write L J io now dir etag d = withStateLock io
     (guarded (\<lambda>prev. d_Serial dir < prev) (Inl (Err ''refusing to lower cached serial''))
        (\<lambda>e. Inl (Wrap ''read cache serial'' e)) io FSerial (writeFiles J io now dir etag payload)) d"
  by (simp add: Write_def guarded_def [abs_def] ReadSerial_def)

lemma WriteSerialFloor_guarded:
  "s \<noteq> 0 \<Longrightarrow> WriteSerialFloor io s d = withStateLock io
     (guarded (\<lambda>prev. s \<le> prev) (Inr ()) (\<lambda>e. Inl (Wrap ''read cache serial'' e)) io FSerial
        (writeSerialFile io s)) d"
  by (simp add: WriteSerialFloor_def guarded_def [abs_def] ReadSerial_def)

definition writePublish :: "io \<Rightarrow> u64 \<Rightarrow> disk \<Rightarrow> disk \<times> unit res" where
  "writePublish io s d =
     (case renameio_WriteFile io FPublish (formatSerial s) d of (d', r) \<Rightarrow> (d', wrapR ''reserve publish serial'' r))"

lemma ReservePublishSerial_guarded:
  "ReservePublishSerial io s d = withStateLock io
     (guarded (\<lambda>prev. s \<le> prev) (Inl (Err ''publish serial has already been reserved''))
        (\<lambda>e. Inl (Wrap ''read publish serial'' e)) io FPublish (writePublish io s)) d"
  unfolding ReservePublishSerial_def guarded_def [abs_def] ReadPublishSerial_def writePublish_def Let_def ..

section \<open>The operations as events\<close>

datatype cache_event =
    CWrite io gotime directory string
  | CFloor io u64
  | CReserve io u64
  | CSource io gotime directory
  | CDiscovery io gotime "(string \<times> LANState) list"

primrec cache_step :: "libs \<Rightarrow> jsonlib \<Rightarrow> cache_event \<Rightarrow> disk \<Rightarrow> disk" where
  "cache_step L J (CWrite io now dir etag) d = fst (Write L J io now dir etag d)"
| "cache_step L J (CFloor io s) d = fst (WriteSerialFloor io s d)"
| "cache_step L J (CReserve io s) d = fst (ReservePublishSerial io s d)"
| "cache_step L J (CSource io now dir) d = fst (WriteSource L io now dir d)"
| "cache_step L J (CDiscovery io now snap) d = fst (WriteDiscovery J io now snap d)"

primrec event_io :: "cache_event \<Rightarrow> io" where
  "event_io (CWrite io now dir etag) = io"
| "event_io (CFloor io s) = io"
| "event_io (CReserve io s) = io"
| "event_io (CSource io now dir) = io"
| "event_io (CDiscovery io now snap) = io"

text \<open>What one event does to the disk.\<close>

inductive disk_change :: "libs \<Rightarrow> disk \<Rightarrow> disk \<Rightarrow> bool" for L where
  same: "disk_change L d d"
| cached: "marshal_dir L now dir = Inr payload \<Longrightarrow> mark_level FSerial d \<le> Suc (unat (d_Serial dir)) \<Longrightarrow>
    d' \<in> write_stages (d_Serial dir) payload d \<Longrightarrow> disk_change L d d'"
| raised: "mark_level FSerial d \<le> Suc (unat s) \<Longrightarrow> disk_change L d (d(FSerial \<mapsto> formatSerial s))"
| reserved: "mark_level FPublish d \<le> Suc (unat s) \<Longrightarrow> disk_change L d (d(FPublish \<mapsto> formatSerial s))"
| other: "f \<in> {FSource, FDiscovery} \<Longrightarrow> disk_change L d (d(f \<mapsto> b))"

inductive_cases disk_changeE: "disk_change L d d'"

lemma locked_write_change:
  assumes "f \<in> {FSource, FDiscovery}"
  shows "disk_change L d (fst (withStateLock io
    (\<lambda>d. case renameio_WriteFile io f b d of (d', r) \<Rightarrow> (d', wrapR m r)) d))"
  using assms withStateLock_cases [of io "\<lambda>d. case renameio_WriteFile io f b d of (d', r) \<Rightarrow> (d', wrapR m r)" d]
  by (cases "io_write io f") (auto simp: renameio_WriteFile_def intro: disk_change.intros)

lemma cache_step_change:
  assumes "io_ok (event_io ev)"
  shows "disk_change L d (cache_step L J ev d)"
proof (cases ev)
  case (CWrite io now dir etag)
  with assms have io: "io_ok io" by simp
  show ?thesis
  proof (cases "marshal_dir L now dir")
    case (Inl e)
    then show ?thesis using CWrite by (simp add: Write_def disk_change.same)
  next
    case (Inr payload)
    show ?thesis
    proof (rule guarded_cases [OF io, of "\<lambda>prev. d_Serial dir < prev" "d_Serial dir"
          "\<lambda>e. Inl (Wrap ''read cache serial'' e)" "Inl (Err ''refusing to lower cached serial'')"
          FSerial "writeFiles J io now dir etag payload" d])
    qed (use CWrite Inr writeFiles_stages [of J io now dir etag payload d] in
        \<open>auto simp: Write_guarded intro: disk_change.intros\<close>)
  qed
next
  case (CFloor io s)
  with assms have io: "io_ok io" by simp
  show ?thesis
  proof (cases "s = 0")
    case True
    then show ?thesis using CFloor by (simp add: WriteSerialFloor_def disk_change.same)
  next
    case False
    show ?thesis
    proof (rule guarded_cases [OF io, of "\<lambda>prev. s \<le> prev" s "\<lambda>e. Inl (Wrap ''read cache serial'' e)" "Inr ()"
          FSerial "writeSerialFile io s" d])
    qed (use CFloor False writeSerialFile_disk [of io s d] in
        \<open>auto simp: WriteSerialFloor_guarded intro: disk_change.intros\<close>)
  qed
next
  case (CReserve io s)
  with assms have io: "io_ok io" by simp
  have w: "fst (writePublish io s d) = d \<or> fst (writePublish io s d) = d(FPublish \<mapsto> formatSerial s)"
    by (cases "io_write io FPublish") (simp_all add: writePublish_def renameio_WriteFile_def)
  show ?thesis
  proof (rule guarded_cases [OF io, of "\<lambda>prev. s \<le> prev" s
        "\<lambda>e. Inl (Wrap ''read publish serial'' e)" "Inl (Err ''publish serial has already been reserved'')"
        FPublish "writePublish io s" d])
  qed (use CReserve w in \<open>auto simp: ReservePublishSerial_guarded intro: disk_change.intros\<close>)
next
  case (CSource io now dir)
  then show ?thesis
    using locked_write_change [of FSource]
    by (cases "marshal_dir L now dir") (simp_all add: WriteSource_def disk_change.same)
next
  case (CDiscovery io now snap)
  then show ?thesis
    using locked_write_change [of FDiscovery]
    by (cases "js_EncodeDiscovery J \<lparr>ds_UpdatedAt = now, ds_LANEndpoints = snap\<rparr>")
      (simp_all add: WriteDiscovery_def disk_change.same)
qed

text \<open>No event lowers a mark.\<close>

lemma disk_change_marks:
  assumes "disk_change L d d'"
  shows "mark_level FSerial d \<le> mark_level FSerial d'" and "mark_level FPublish d \<le> mark_level FPublish d'"
  using assms by (auto elim!: disk_changeE simp: write_stages_def mark_level_upd)

interpretation serial_mark: monotone_machine "cache_step L J" "\<lambda>_. True" "\<lambda>ev. io_ok (event_io ev)" "mark_level FSerial" for L J
  by unfold_locales (auto intro: disk_change_marks cache_step_change)

interpretation publish_mark: monotone_machine "cache_step L J" "\<lambda>_. True" "\<lambda>ev. io_ok (event_io ev)" "mark_level FPublish" for L J
  by unfold_locales (auto intro: disk_change_marks cache_step_change)

text \<open>The cache is never ahead of the mark.\<close>

definition cache_behind :: "libs \<Rightarrow> disk \<Rightarrow> bool" where
  "cache_behind L d =
     (\<forall>b dir. d FCache = Some b \<longrightarrow> unmarshal_dir L b = Inr dir \<longrightarrow> Suc (unat (d_Serial dir)) \<le> mark_level FSerial d)"

lemma unmarshal_marshal_serial:
  assumes "libs_ok L" and "marshal_dir L now dir = Inr b" and "unmarshal_dir L b = Inr dir'"
  shows "d_Serial dir' = d_Serial dir"
proof -
  have "msgpack_Unmarshal (l_wg L) (l_mp L) b = Inr (canon_dir (l_wg L) (stamped now dir))"
    using assms(1,2) by (intro MarshalPlain_Unmarshal(3)) (auto simp: libs_ok_def marshal_dir_def)
  then have "dir' = canon_dir (l_wg L) (stamped now dir)"
    using assms(3) by (auto simp: unmarshal_dir_def UnmarshalPlain_def)
  then show ?thesis by (simp add: canon_dir_def stamped_def)
qed

lemma cache_behind_change:
  assumes "libs_ok L" and "disk_change L d d'" and "cache_behind L d"
  shows "cache_behind L d'"
  using assms(2)
proof (cases rule: disk_change.cases)
  case (cached now dir payload)
  have p: "unmarshal_dir L payload = Inr dir' \<Longrightarrow> d_Serial dir' = d_Serial dir" for dir'
    using unmarshal_marshal_serial [OF assms(1) cached(1)] .
  have old: "d FCache = Some b \<Longrightarrow> unmarshal_dir L b = Inr x \<Longrightarrow> Suc (unat (d_Serial x)) \<le> Suc (unat (d_Serial dir))" for b x
    using assms(3) cached(2) unfolding cache_behind_def by (metis order_trans)
  show ?thesis using cached(3) assms(3) p old
    by (auto simp: write_stages_def cache_behind_def mark_level_upd)
next
  case (raised s)
  then show ?thesis using assms(3) unfolding cache_behind_def by (auto simp: mark_level_upd intro: order_trans)
qed (use assms(3) in \<open>auto simp: cache_behind_def mark_level_upd\<close>)

interpretation cache_inv: event_machine "cache_step L J" "\<lambda>d. libs_ok L \<and> cache_behind L d" "\<lambda>ev. io_ok (event_io ev)" for L J
  by unfold_locales (auto intro: cache_behind_change cache_step_change)

section \<open>Properties\<close>

text \<open>C11: the rollback mark is never lowered. Whatever sequence of writes, floors, reservations and other
  operations runs on a state directory, and whichever of their system calls fail or are cut off by
  a crash, the stored serial is at least what it was.\<close>

theorem serial_mark_never_lowered:
  assumes "mark FSerial d = Some m" and "list_all (\<lambda>ev. io_ok (event_io ev)) evs"
  shows "\<exists>m'. mark FSerial (run (cache_step L J) evs d) = Some m' \<and> m \<le> m'"
proof -
  have "mark_level FSerial d \<le> mark_level FSerial (run (cache_step L J) evs d)"
    using assms(2) by (intro serial_mark.run_mark) simp_all
  with assms(1) show ?thesis
    by (auto simp: mark_level_def word_le_nat_alt split: option.splits)
qed

definition io_fine :: io where
  "io_fine = \<lparr>io_mkdir = None, io_openLock = None, io_flock = None, io_read = (\<lambda>_. None), io_write = (\<lambda>_. None)\<rparr>"

lemma io_fine_simps [simp]:
  "io_mkdir io_fine = None" "io_openLock io_fine = None" "io_flock io_fine = None"
  "io_read io_fine f = None" "io_write io_fine f = None" "io_ok io_fine"
  by (simp_all add: io_fine_def io_ok_def)

definition demo_json :: jsonlib where
  "demo_json = \<lparr>js_EncodeState = (\<lambda>s. Inr ''{}''), js_DecodeState = (\<lambda>b. Inl (Err ''json'')),
     js_EncodeDiscovery = (\<lambda>s. Inr ''{}''), js_DecodeDiscovery = (\<lambda>b. Inl (Err ''json''))\<rparr>"

theorem serial_mark_never_lowered_witness:
  "\<exists>m'. mark FSerial (run (cache_step (demo_libs demo_dir) demo_json) [CFloor io_fine 3, CFloor io_fine 9]
     (Map.empty(FSerial \<mapsto> formatSerial 7))) = Some m' \<and> 7 \<le> m'"
  by (rule serial_mark_never_lowered) simp_all

text \<open>C9: the cached directory is never ahead of the rollback mark: in every state directory that the
  operations can produce from an empty one, failures and crashes included, a cache that can be read
  comes with a mark at least as high as its serial.\<close>

theorem cache_never_ahead_of_mark:
  assumes "libs_ok L" and "list_all (\<lambda>ev. io_ok (event_io ev)) evs"
    and "d = run (cache_step L J) evs Map.empty" and "Read L io d = Inr (dir, b)"
  shows "\<exists>m. mark FSerial d = Some m \<and> d_Serial dir \<le> m"
proof -
  have "cache_behind L Map.empty" by (simp add: cache_behind_def)
  with assms(1) have "libs_ok L \<and> cache_behind L d"
    unfolding assms(3) using assms(2) by (intro cache_inv.run_inv) simp_all
  moreover have "d FCache = Some b" and "unmarshal_dir L b = Inr dir"
    using assms(4) by (auto simp: Read_def os_ReadFile_def split: option.splits if_splits sum.splits)
  ultimately have "Suc (unat (d_Serial dir)) \<le> mark_level FSerial d" by (auto simp: cache_behind_def)
  then show ?thesis by (auto simp: mark_level_def word_le_nat_alt split: option.splits)
qed

lemma demo_marshal_dir: "marshal_dir (demo_libs demo_dir) now demo_dir = Inr ''D''"
proof -
  have "list_all (\<lambda>n. n_PSK n = []) (d_Nodes demo_dir)"
    by (simp add: demo_dir_def demo_node_def zero_node_def)
  then show ?thesis
    using demo_marshal [OF demo_dir_valid _ demo_dir_stamped [of now]] by (simp add: marshal_dir_def)
qed

lemma demo_unmarshal_dir: "unmarshal_dir (demo_libs demo_dir) ''D'' = Inr demo_dir"
  using marshal_unmarshal_lemma [OF demo_wg_ok demo_mp_ok demo_dir_canonical
      demo_marshal_dir [unfolded marshal_dir_def demo_simps, of 0]]
  by (simp add: unmarshal_dir_def demo_dir_stamped)

lemma demo_write:
  "Write (demo_libs demo_dir) demo_json io_fine 0 demo_dir ''e'' Map.empty =
     ([FSerial \<mapsto> formatSerial (d_Serial demo_dir), FCache \<mapsto> ''D'', FState \<mapsto> ''{}'' @ [NL]], Inr ())"
  by (simp add: Write_def demo_marshal_dir withStateLock_def ensureDir_def ReadSerial_def
      readSerial_def os_ReadFile_def writeFiles_def writeSerialFile_def renameio_WriteFile_def demo_json_def)

theorem cache_never_ahead_of_mark_witness:
  "\<exists>m. mark FSerial (run (cache_step (demo_libs demo_dir) demo_json) [CWrite io_fine 0 demo_dir ''e''] Map.empty) = Some m
     \<and> d_Serial demo_dir \<le> m"
  by (rule cache_never_ahead_of_mark [OF demo_libs_ok _ refl, where io = io_fine and b = "''D''"])
    (simp_all add: demo_write Read_def os_ReadFile_def demo_unmarshal_dir)

text \<open>\<open>Write\<close> refuses a directory older than the mark and touches nothing; when it succeeds, the
  cache holds the directory and the mark is its serial.\<close>

theorem cache_write_outcome:
  assumes "io_ok io" and "mark FSerial d = Some m"
  shows "case Write L J io now dir etag d of
      (d', Inl e) \<Rightarrow> d_Serial dir < m \<longrightarrow> d' = d
    | (d', Inr _) \<Rightarrow> m \<le> d_Serial dir \<and> mark FSerial d' = Some (d_Serial dir) \<and>
        (\<exists>payload. marshal_dir L now dir = Inr payload \<and> d' FCache = Some payload)"
proof (cases "marshal_dir L now dir")
  case (Inl e)
  then show ?thesis by (simp add: Write_def)
next
  case (Inr payload)
  have lv: "mark_level FSerial d \<le> Suc (unat (d_Serial dir)) \<Longrightarrow> m \<le> d_Serial dir"
    using assms(2) by (simp add: mark_level_def word_le_nat_alt)
  let ?w = "writeFiles J io now dir etag payload d"
  show ?thesis
  proof (rule guarded_cases [OF assms(1), of "\<lambda>prev. d_Serial dir < prev" "d_Serial dir"
        "\<lambda>e. Inl (Wrap ''read cache serial'' e)" "Inl (Err ''refusing to lower cached serial'')"
        FSerial "writeFiles J io now dir etag payload" d])
    fix q assume "withStateLock io (guarded (\<lambda>prev. d_Serial dir < prev) (Inl (Err ''refusing to lower cached serial''))
        (\<lambda>e. Inl (Wrap ''read cache serial'' e)) io FSerial (writeFiles J io now dir etag payload)) d = (d, q)"
      and "q = Inl (Err ''refusing to lower cached serial'') \<or> \<not> is_ok q"
    then show ?thesis using Inr by (cases q) (auto simp: Write_guarded)
  next
    assume g: "withStateLock io (guarded (\<lambda>prev. d_Serial dir < prev) (Inl (Err ''refusing to lower cached serial''))
        (\<lambda>e. Inl (Wrap ''read cache serial'' e)) io FSerial (writeFiles J io now dir etag payload)) d = ?w"
      and "mark_level FSerial d \<le> Suc (unat (d_Serial dir))"
    then show ?thesis
      using writeFiles_stages [of J io now dir etag payload d] lv Inr
      by (cases ?w) (auto simp: Write_guarded split: sum.splits)
  qed simp_all
qed

theorem cache_write_outcome_witness:
  "case Write (demo_libs demo_dir) demo_json io_fine 0 demo_dir ''e'' (Map.empty(FSerial \<mapsto> formatSerial 9)) of
      (d', Inl e) \<Rightarrow> d_Serial demo_dir < 9 \<longrightarrow> d' = Map.empty(FSerial \<mapsto> formatSerial 9)
    | (d', Inr _) \<Rightarrow> 9 \<le> d_Serial demo_dir \<and> mark FSerial d' = Some (d_Serial demo_dir) \<and>
        (\<exists>payload. marshal_dir (demo_libs demo_dir) 0 demo_dir = Inr payload \<and> d' FCache = Some payload)"
  by (rule cache_write_outcome) simp_all

text \<open>a publish serial is reserved at most once: after a successful reservation, no later attempt to
  reserve the same serial (or a lower one) succeeds, whatever happens in between.\<close>

theorem serial_reserved_once:
  assumes "ReservePublishSerial io s d = (d1, Inr ())" and "list_all (\<lambda>ev. io_ok (event_io ev)) evs"
    and "t \<le> s" and "io_ok io'"
  shows "\<not> is_ok (snd (ReservePublishSerial io' t (run (cache_step L J) evs d1)))"
proof -
  let ?d = "run (cache_step L J) evs d1"
  have "mark FPublish d1 = Some s"
    using assms(1) unfolding ReservePublishSerial_def
    by (auto simp: withStateLock_def renameio_WriteFile_def Let_def
        split: option.splits sum.splits if_splits)
  moreover have "mark_level FPublish d1 \<le> mark_level FPublish ?d"
    using assms(2) by (intro publish_mark.run_mark) simp_all
  ultimately obtain m where m: "mark FPublish ?d = Some m" "s \<le> m"
    by (auto simp: mark_level_def word_le_nat_alt split: option.splits)
  with assms(3) have "t \<le> m" by simp
  show ?thesis unfolding ReservePublishSerial_guarded
    using assms(4) m(1) \<open>t \<le> m\<close> by (rule guarded_refuses) simp_all
qed

theorem serial_reserved_once_witness:
  "\<not> is_ok (snd (ReservePublishSerial io_fine 7 (run (cache_step (demo_libs demo_dir) demo_json)
     [CFloor io_fine 9] (Map.empty(FPublish \<mapsto> formatSerial 7)))))"
  by (rule serial_reserved_once [of io_fine 7 Map.empty])
    (simp_all add: ReservePublishSerial_def withStateLock_def ensureDir_def ReadPublishSerial_def readSerial_def
      os_ReadFile_def renameio_WriteFile_def Let_def)

end
