(* ===== verification/Bech32.thy ===== *)
theory Bech32
  imports GoStrings
begin

text \<open>
  The bech32 codec (\<open>src/internal/nostr/bech32.go\<close>): checksum, regrouping of bits and the string form.
  The values of the 5-bit and 8-bit alphabets are bytes, the checksum and the accumulator are
  32-bit words that wrap as Go's do.
\<close>

unbundle bit_operations_syntax

section \<open>The codec\<close>

definition bech32Charset :: string where
  "bech32Charset = ''qpzry9x8gf2tvdw0s3jn54khce6mua7l''"

text \<open>\<open>bech32Reverse\<close>: the index in the alphabet; \<open>-1\<close> is \<open>None\<close>.\<close>

definition bech32Reverse :: "char \<Rightarrow> nat option" where
  "bech32Reverse c = pos_of c bech32Charset"

definition bech32Gen :: "u32 list" where
  "bech32Gen = [0x3b6a57b2, 0x26508e6d, 0x1ea119fa, 0x3d4233dd, 0x2a1462b3]"

definition polymodStep :: "u8 \<Rightarrow> u32 \<Rightarrow> u32" where
  "polymodStep v chk0 =
     (let top = drop_bit 25 chk0;
          chk = push_bit 5 (chk0 AND 0x1ffffff) XOR ucast v
      in fold (\<lambda>i chk. if drop_bit i top AND 1 = 1 then chk XOR bech32Gen ! i else chk) [0..<5] chk)"

definition bech32Polymod :: "u8 list \<Rightarrow> u32" where
  "bech32Polymod values = fold polymodStep values 1"

definition byte_of :: "char \<Rightarrow> u8" where
  "byte_of c = word_of_nat (code c)"

definition bech32HRPExpand :: "string \<Rightarrow> u8 list" where
  "bech32HRPExpand hrp = map (\<lambda>c. drop_bit 5 (byte_of c)) hrp @ [0] @ map (\<lambda>c. byte_of c AND 31) hrp"

definition bech32Checksum :: "string \<Rightarrow> u8 list \<Rightarrow> u8 list" where
  "bech32Checksum hrp dat =
     (let m = bech32Polymod (bech32HRPExpand hrp @ dat @ [0, 0, 0, 0, 0, 0]) XOR 1
      in map (\<lambda>i. ucast (drop_bit (5 * (5 - i)) m AND 31)) [0..<6])"

text \<open>The inner loop of \<open>convertBits\<close>: whole groups leave the accumulator. (A width of 0 would not end;
  no caller passes it.)\<close>

function emitGroups :: "nat \<Rightarrow> u32 \<Rightarrow> nat \<Rightarrow> u8 list \<Rightarrow> nat \<times> u8 list" where
  "emitGroups toBits acc bits out =
     (if toBits = 0 \<or> bits < toBits then (bits, out)
      else emitGroups toBits acc (bits - toBits)
             (out @ [ucast (drop_bit (bits - toBits) acc AND (push_bit toBits 1 - 1))]))"
  by pat_completeness auto
termination by (relation "measure (\<lambda>(_, _, bits, _). bits)") auto

declare emitGroups.simps [simp del]

fun convertLoop :: "nat \<Rightarrow> nat \<Rightarrow> u8 list \<Rightarrow> u32 \<Rightarrow> nat \<Rightarrow> u8 list \<Rightarrow> u32 \<times> nat \<times> u8 list" where
  "convertLoop fromBits toBits [] acc bits out = (acc, bits, out)"
| "convertLoop fromBits toBits (b # bs) acc0 bits0 out0 =
     (let acc = push_bit fromBits acc0 OR ucast b;
          (bits, out) = emitGroups toBits acc (bits0 + fromBits) out0
      in convertLoop fromBits toBits bs acc bits out)"

definition convertBits :: "u8 list \<Rightarrow> nat \<Rightarrow> nat \<Rightarrow> bool \<Rightarrow> u8 list res" where
  "convertBits dat fromBits toBits pad =
     (let (acc, bits, out) = convertLoop fromBits toBits dat 0 0 [];
          maxv = push_bit toBits 1 - 1;
          last = push_bit (toBits - bits) acc AND maxv
      in if pad then Inr (if bits > 0 then out @ [ucast last] else out)
         else if bits \<ge> fromBits \<or> last \<noteq> 0 then Inl (Err ''invalid padding bits'')
         else Inr out)"

definition encodeBech32 :: "string \<Rightarrow> u8 list \<Rightarrow> string res" where
  "encodeBech32 hrp data8 =
     bindR (convertBits data8 8 5 True) (\<lambda>data5.
       Inr (hrp @ ''1'' @ map (\<lambda>b. bech32Charset ! unat b) (data5 @ bech32Checksum hrp data5)))"

fun reverseAll :: "string \<Rightarrow> u8 list res" where
  "reverseAll [] = Inr []"
| "reverseAll (c # cs) =
     (case bech32Reverse c of None \<Rightarrow> Inl (Err ''invalid bech32 character'')
      | Some v \<Rightarrow> bindR (reverseAll cs) (\<lambda>vs. Inr (word_of_nat v # vs)))"

text \<open>\<open>strings.LastIndexByte\<close>.\<close>

definition lastIndexByte :: "string \<Rightarrow> char \<Rightarrow> nat option" where
  "lastIndexByte s c = map_option (\<lambda>i. length s - 1 - i) (pos_of c (rev s))"

definition decodeBech32 :: "string \<Rightarrow> (string \<times> u8 list) res" where
  "decodeBech32 s0 =
     (if length s0 < 8 \<or> length s0 > 2048 then Inl (Err ''bech32 string has invalid length'')
      else if s0 \<noteq> toLower s0 \<and> s0 \<noteq> toUpper s0 then Inl (Err ''bech32 string has mixed case'')
      else
        let s = toLower s0
        in case lastIndexByte s (CHR ''1'') of
             None \<Rightarrow> Inl (Err ''bech32 separator misplaced'')
           | Some sep \<Rightarrow>
               if sep < 1 \<or> sep + 7 > length s then Inl (Err ''bech32 separator misplaced'')
               else
                 let hrp = take sep s
                 in bindR (reverseAll (drop (sep + 1) s)) (\<lambda>data5.
                      if bech32Polymod (bech32HRPExpand hrp @ data5) \<noteq> 1 then Inl (Err ''bad bech32 checksum'')
                      else bindR (convertBits (take (length data5 - 6) data5) 5 8 False) (\<lambda>data8. Inr (hrp, data8))))"

section \<open>The checksum is linear\<close>

definition polyG :: "u32 \<Rightarrow> u32" where
  "polyG t = (if bit t 0 then 0x3b6a57b2 else 0) XOR (if bit t 1 then 0x26508e6d else 0) XOR
     (if bit t 2 then 0x1ea119fa else 0) XOR (if bit t 3 then 0x3d4233dd else 0) XOR (if bit t 4 then 0x2a1462b3 else 0)"

definition poly0 :: "u32 \<Rightarrow> u32" where
  "poly0 chk = push_bit 5 (chk AND 0x1ffffff) XOR polyG (drop_bit 25 chk)"

lemma bit_and_1: "(drop_bit i w AND 1 = (1 :: u32)) = bit w i"
  by (simp add: and_one_eq bit_iff_odd_drop_bit flip: mod_2_eq_odd odd_iff_mod_2_eq_one)

lemma polymodStep_poly0: "polymodStep v chk = poly0 chk XOR ucast v"
proof -
  have l: "[0..<5] = [0, 1, 2, 3, 4 :: nat]" by (simp add: upt_rec numeral_eq_Suc)
  show ?thesis
    unfolding polymodStep_def poly0_def polyG_def Let_def l bit_and_1
    by (simp add: bech32Gen_def numeral_eq_Suc ac_simps)
qed

lemma polyG_xor: "polyG (a XOR b) = polyG a XOR polyG b"
proof -
  have c: "(if bit (a XOR b) i then g else 0) = (if bit a i then g else 0) XOR (if bit b i then g else (0 :: u32))" for i g
    by (simp add: bit_xor_iff)
  show ?thesis unfolding polyG_def c by (simp only: ac_simps)
qed

lemma poly0_xor: "poly0 (a XOR b) = poly0 a XOR poly0 b"
proof -
  have p: "push_bit 5 ((a XOR b) AND m) = push_bit 5 (a AND m) XOR push_bit 5 (b AND m)" for m
    by (intro bit_eqI) (auto simp: bit_simps)
  have d: "drop_bit 25 (a XOR b) = drop_bit 25 a XOR drop_bit 25 b"
    by (intro bit_eqI) (auto simp: bit_simps)
  show ?thesis unfolding poly0_def p d polyG_xor by (simp only: ac_simps)
qed

lemma poly0_0 [simp]: "poly0 0 = 0"
  by (simp add: poly0_def polyG_def)

lemma poly0_small:
  assumes "drop_bit 25 c = 0"
  shows "poly0 c = push_bit 5 c"
proof -
  have "\<not> bit c (25 + n)" for n using arg_cong [OF assms, of "\<lambda>w. bit w n"] by (simp add: bit_drop_bit_eq)
  then have "bit c n \<Longrightarrow> n < 25" for n by (metis le_add_diff_inverse linorder_not_less)
  then have "c AND mask 25 = c" by (intro bit_eqI) (auto simp: bit_simps)
  moreover have "mask 25 = (0x1ffffff :: u32)" by (simp add: mask_eq_exp_minus_1)
  ultimately show ?thesis using assms by (simp add: poly0_def polyG_def)
qed

text \<open>Six zero values shift the checksum out; six values below 32 are packed into it.\<close>

definition pack6 :: "u8 list \<Rightarrow> u32" where
  "pack6 cs = foldl (\<lambda>a c. push_bit 5 a XOR ucast c) 0 cs"

lemma fold_polymod_xor:
  "fold polymodStep cs (a XOR b) = fold polymodStep (map (\<lambda>_. 0) cs) a XOR fold polymodStep cs b"
  by (induction cs arbitrary: a b) (simp_all add: polymodStep_poly0 poly0_xor ac_simps)

lemma fold_polymod_pack:
  assumes "length cs = n" and "n \<le> 6" and "\<forall>c \<in> set cs. c AND 31 = c"
  shows "fold polymodStep cs 0 = pack6 cs \<and> (\<forall>i \<ge> 5 * n. \<not> bit (pack6 cs) i)"
  using assms
proof (induction n arbitrary: cs)
  case 0
  then show ?case by (simp add: pack6_def)
next
  case (Suc n)
  then obtain c ds where cs: "cs = ds @ [c]" "length ds = n" by (metis length_Suc_conv_rev)
  with Suc have IH: "fold polymodStep ds 0 = pack6 ds" "\<forall>i \<ge> 5 * n. \<not> bit (pack6 ds) i" by auto
  have p: "pack6 cs = push_bit 5 (pack6 ds) XOR ucast c" by (simp add: pack6_def cs(1))
  have "drop_bit 25 (pack6 ds) = 0" using IH(2) Suc.prems(2) by (intro bit_eqI) (auto simp: bit_simps)
  then have "fold polymodStep cs 0 = pack6 cs" by (simp add: cs(1) IH(1) polymodStep_poly0 poly0_small p [unfolded cs(1)])
  moreover have "\<not> bit (pack6 cs) i" if "5 * Suc n \<le> i" for i
  proof -
    have "c = c AND mask 5" using Suc.prems(3) cs(1) by (simp add: mask_eq_exp_minus_1)
    then have "\<not> bit c i" using that by (metis add_leD1 bit_and_iff bit_mask_iff linorder_not_less mult_Suc_right)
    then show ?thesis using IH(2) that unfolding p by (auto simp: bit_simps)
  qed
  ultimately show ?case by blast
qed

lemma pack6_split:
  assumes "\<forall>i \<ge> 30. \<not> bit m i"
  shows "pack6 (map (\<lambda>i. ucast (drop_bit (5 * (5 - i)) m AND 31)) [0..<6]) = m"
proof -
  have l: "[0..<6] = [0, 1, 2, 3, 4, 5 :: nat]" by (simp add: upt_rec numeral_eq_Suc)
  have m31: "(31 :: u32) = mask 5" by (simp add: mask_eq_exp_minus_1)
  have u: "ucast (ucast (drop_bit k m AND mask 5) :: u8) = drop_bit k m AND mask 5" for k
    by (intro bit_eqI) (auto simp: bit_simps)
  have "pack6 (map (\<lambda>i. ucast (drop_bit (5 * (5 - i)) m AND 31)) [0..<6]) =
      push_bit 5 (push_bit 5 (push_bit 5 (push_bit 5 (push_bit 5 (drop_bit 25 m AND mask 5) XOR (drop_bit 20 m AND mask 5))
        XOR (drop_bit 15 m AND mask 5)) XOR (drop_bit 10 m AND mask 5)) XOR (drop_bit 5 m AND mask 5)) XOR (m AND mask 5)"
    unfolding pack6_def l m31 using u [of 0] by (simp add: u)
  also have "\<dots> = m"
  proof (rule bit_eqI)
    fix i assume "possible_bit TYPE(u32) i"
    then have i: "i < 32" by (simp add: possible_bit_word)
    have z: "bit m i \<Longrightarrow> i < 30" using assms by (meson linorder_not_less)
    show "bit (push_bit 5 (push_bit 5 (push_bit 5 (push_bit 5 (push_bit 5 (drop_bit 25 m AND mask 5) XOR (drop_bit 20 m AND mask 5))
        XOR (drop_bit 15 m AND mask 5)) XOR (drop_bit 10 m AND mask 5)) XOR (drop_bit 5 m AND mask 5)) XOR (m AND mask 5)) i = bit m i"
      (is "bit ?w i = _")
    proof -
      consider "i < 5" | "5 \<le> i" "i < 10" | "10 \<le> i" "i < 15" | "15 \<le> i" "i < 20" | "20 \<le> i" "i < 25"
        | "25 \<le> i" "i < 30" | "30 \<le> i" by linarith
      then show ?thesis using i z by cases (auto simp: bit_simps)
    qed
  qed
  finally show ?thesis .
qed

lemma polymod_bound: "\<forall>i \<ge> 30. \<not> bit (polymodStep v chk) i"
proof -
  have g: "\<not> bit g i" if "g \<in> {0x3b6a57b2, 0x26508e6d, 0x1ea119fa, 0x3d4233dd, 0x2a1462b3 :: u32}" "30 \<le> i" for g i
  proof -
    have "g AND mask 30 = g" using that(1) by (auto simp: mask_eq_exp_minus_1)
    then show ?thesis using that(2) by (metis bit_and_iff bit_mask_iff linorder_not_less)
  qed
  have t: "\<not> bit (if b then g else 0) i"
    if "g \<in> {0x3b6a57b2, 0x26508e6d, 0x1ea119fa, 0x3d4233dd, 0x2a1462b3 :: u32}" "30 \<le> i" for b g i
    using g [OF that] by (cases b) simp_all
  have "\<not> bit (polyG t) i" if "30 \<le> i" for t i
    unfolding polyG_def bit_xor_iff by (simp only: t [OF _ that] insertI1 insertI2 simp_thms)
  moreover have m: "(0x1ffffff :: u32) = mask 25" by (simp add: mask_eq_exp_minus_1)
  have "\<not> bit (push_bit 5 (chk AND 0x1ffffff)) i" if "30 \<le> i" for i
    unfolding m bit_push_bit_iff bit_and_iff bit_mask_iff using that by auto
  moreover have "\<not> bit (ucast v :: u32) i" if "30 \<le> i" for i
    using that bit_imp_le_length [of v i] by (auto simp: bit_ucast_iff)
  ultimately show ?thesis unfolding polymodStep_poly0 poly0_def bit_xor_iff by blast
qed

lemma checksum_ok: "bech32Polymod (bech32HRPExpand hrp @ dat @ bech32Checksum hrp dat) = 1"
proof -
  let ?v = "bech32HRPExpand hrp @ dat" and ?z = "[0, 0, 0, 0, 0, 0] :: u8 list" and ?cs = "bech32Checksum hrp dat"
  let ?p = "fold polymodStep ?v 1" and ?m = "bech32Polymod (?v @ ?z) XOR 1"
  have cs: "?cs = map (\<lambda>i. ucast (drop_bit (5 * (5 - i)) ?m AND 31)) [0..<6]"
    by (simp add: bech32Checksum_def Let_def)
  have len: "length ?cs = 6" by (simp add: cs)
  have m: "\<forall>i \<ge> 30. \<not> bit ?m i"
    using polymod_bound by (auto simp: bech32Polymod_def bit_simps)
  have "\<forall>c \<in> set ?cs. c AND 31 = c"
  proof -
    have "(31 :: u8) = mask 5" "(31 :: u32) = mask 5" by (simp_all add: mask_eq_exp_minus_1)
    moreover have "ucast (w AND mask 5) AND mask 5 = (ucast (w AND mask 5) :: u8)" for w :: u32
      by (intro bit_eqI) (auto simp: bit_simps)
    ultimately show ?thesis by (auto simp: cs)
  qed
  from fold_polymod_pack [OF len _ this] have p6: "fold polymodStep ?cs 0 = ?m"
    using pack6_split [OF m] by (simp add: cs)
  have "map (\<lambda>_. 0) ?cs = ?z" using len by (simp add: cs upt_rec numeral_eq_Suc)
  then have "fold polymodStep ?cs (?p XOR 0) = fold polymodStep ?z ?p XOR fold polymodStep ?cs 0"
    unfolding fold_polymod_xor by simp
  also have "\<dots> = bech32Polymod (?v @ ?z) XOR (bech32Polymod (?v @ ?z) XOR 1)" by (simp add: p6 bech32Polymod_def)
  also have "\<dots> = 1" by (simp flip: xor.assoc)
  finally show ?thesis by (simp add: bech32Polymod_def)
qed

section \<open>Regrouping keeps the bits\<close>

text \<open>The \<open>n\<close> low bits of a word, the highest first.\<close>

definition tb :: "nat \<Rightarrow> 'a::len word \<Rightarrow> bool list" where
  "tb n w = map (bit w) (rev [0..<n])"

lemma length_tb [simp]: "length (tb n w) = n"
  by (simp add: tb_def)

lemma tb_0 [simp]: "tb 0 w = []"
  by (simp add: tb_def)

lemma tb_cong: "(\<And>i. i < n \<Longrightarrow> bit v i = bit w i) \<Longrightarrow> tb n v = tb n w"
  by (simp add: tb_def)

lemma tb_add: "tb (m + n) w = tb m (drop_bit n w) @ tb n w"
proof -
  have "[0..<m + n] = [0..<n] @ map (\<lambda>i. i + n) [0..<m]"
    by (metis add.commute map_add_upt upt_add_eq_append zero_le)
  then show ?thesis by (simp add: tb_def rev_map bit_drop_bit_eq add.commute o_def)
qed

lemma tb_push_or:
  fixes v :: "'a::len word"
  assumes "n + bits \<le> LENGTH('a)" and "\<And>i. bit v i \<Longrightarrow> i < n"
  shows "tb (bits + n) (push_bit n acc OR v) = tb bits acc @ tb n v"
proof -
  have "tb bits (drop_bit n (push_bit n acc OR v)) = tb bits acc"
    using assms by (intro tb_cong) (auto simp: bit_simps)
  moreover have "tb n (push_bit n acc OR v) = tb n v" by (rule tb_cong) (auto simp: bit_simps)
  ultimately show ?thesis by (simp add: tb_add)
qed

lemma tb_inj:
  fixes v w :: "'a::len word"
  assumes "tb n v = tb n w" and "\<And>i. bit v i \<Longrightarrow> i < n" and "\<And>i. bit w i \<Longrightarrow> i < n"
  shows "v = w"
proof (rule bit_eqI)
  fix i
  have "\<forall>i < n. bit v i = bit w i" using assms(1) by (auto simp: tb_def map_eq_conv)
  then show "bit v i = bit w i" using assms(2,3) by blast
qed

abbreviation tbs :: "nat \<Rightarrow> u8 list \<Rightarrow> bool list" where
  "tbs n ws \<equiv> concat (map (tb n) ws)"

lemma length_tbs [simp]: "length (tbs n ws) = n * length ws"
  by (induction ws) simp_all

abbreviation fits :: "nat \<Rightarrow> u8 list \<Rightarrow> bool" where
  "fits n ws \<equiv> \<forall>w \<in> set ws. w AND mask n = w"

lemma fits_bit: "w AND mask n = w \<Longrightarrow> bit w i \<Longrightarrow> i < n" for w :: "'a::len word"
  by (metis bit_and_iff bit_mask_iff)

lemma tbs_inj: "tbs n vs = tbs n ws \<Longrightarrow> length vs = length ws \<Longrightarrow> fits n vs \<Longrightarrow> fits n ws \<Longrightarrow> vs = ws"
proof (induction vs ws rule: list_induct2')
  case (4 v vs w ws)
  then have "tb n v = tb n w" and "tbs n vs = tbs n ws" by simp_all
  with 4 show ?case by (auto intro: tb_inj [where n = n] dest: fits_bit)
qed simp_all

lemma emit_group_bits:
  fixes acc :: u32
  assumes "k \<le> 8"
  shows "tb k (ucast (drop_bit n acc AND (push_bit k 1 - 1)) :: u8) = tb k (drop_bit n acc)"
    and "(ucast (drop_bit n acc AND (push_bit k 1 - 1)) :: u8) AND mask k = ucast (drop_bit n acc AND (push_bit k 1 - 1))"
proof -
  have m: "push_bit k 1 - 1 = (mask k :: u32)" by (simp add: mask_eq_exp_minus_1 push_bit_of_1)
  show "tb k (ucast (drop_bit n acc AND (push_bit k 1 - 1)) :: u8) = tb k (drop_bit n acc)"
    unfolding m using assms by (intro tb_cong) (auto simp: bit_simps)
  show "(ucast (drop_bit n acc AND (push_bit k 1 - 1)) :: u8) AND mask k = ucast (drop_bit n acc AND (push_bit k 1 - 1))"
    unfolding m by (intro bit_eqI) (auto simp: bit_simps)
qed

lemma emitGroups_bits:
  assumes "emitGroups k acc bits out = (bits', out')" and "0 < k" and "k \<le> 8" and "fits k out"
  shows "tbs k out' @ tb bits' acc = tbs k out @ tb bits acc \<and> bits' < k \<and> fits k out'"
  using assms
proof (induction k acc bits out arbitrary: bits' out' rule: emitGroups.induct)
  case (1 k acc bits out)
  show ?case
  proof (cases "bits < k")
    case True
    with 1 show ?thesis by (simp add: emitGroups.simps [of k acc bits])
  next
    case False
    let ?g = "ucast (drop_bit (bits - k) acc AND (push_bit k 1 - 1)) :: u8"
    have e: "emitGroups k acc (bits - k) (out @ [?g]) = (bits', out')"
      using 1(2,3) False by (simp add: emitGroups.simps [of k acc bits])
    have "fits k (out @ [?g])" using 1(5) emit_group_bits(2) [OF 1(4)] by auto
    from 1(1) [OF _ e 1(3,4) this] False 1(3)
    have "tbs k out' @ tb bits' acc = tbs k (out @ [?g]) @ tb (bits - k) acc \<and> bits' < k \<and> fits k out'" by auto
    moreover have "tb bits acc = tb k ?g @ tb (bits - k) acc"
      unfolding emit_group_bits(1) [OF 1(4)] using tb_add [of k "bits - k" acc] False by simp
    ultimately show ?thesis by simp
  qed
qed

lemma convertLoop_bits:
  assumes "convertLoop f k bs acc bits out = (acc', bits', out')" and "0 < k" and "k \<le> 8" and "f \<le> 8"
    and "fits k out" and "fits f bs" and "bits < k"
  shows "tbs k out' @ tb bits' acc' = tbs k out @ tb bits acc @ tbs f bs \<and> bits' < k \<and> fits k out'"
  using assms
proof (induction f k bs acc bits out rule: convertLoop.induct)
  case (2 f k b bs acc bits out)
  let ?a = "push_bit f acc OR ucast b :: u32"
  obtain n o' where e: "emitGroups k ?a (bits + f) out = (n, o')" by fastforce
  have g: "tbs k o' @ tb n ?a = tbs k out @ tb (bits + f) ?a \<and> n < k \<and> fits k o'"
    using emitGroups_bits [OF e] 2 by blast
  have b: "\<And>i. bit (ucast b :: u32) i \<Longrightarrow> i < f" using 2(7) by (auto simp: bit_simps dest: fits_bit)
  have "tb f (ucast b :: u32) = tb f b" using 2(5) by (simp add: tb_def bit_ucast_iff)
  then have "tb (bits + f) ?a = tb bits acc @ tb f b"
    using tb_push_or [of f bits "ucast b :: u32" acc] b 2(4,5,8) by simp
  with g 2(1) [OF refl e [symmetric] refl] 2 e show ?case by (simp add: Let_def)
qed simp

lemma fits_8 [simp]: "w AND mask 8 = (w :: u8)"
  by (intro bit_eqI) (auto simp: bit_simps dest: bit_imp_le_length)

lemma pad_group:
  fixes acc :: u32
  assumes "b \<le> k" and "k \<le> 8"
  shows "tb k (ucast (push_bit (k - b) acc AND (push_bit k 1 - 1)) :: u8) = tb b acc @ replicate (k - b) False"
    and "(ucast (push_bit (k - b) acc AND (push_bit k 1 - 1)) :: u8) AND mask k = ucast (push_bit (k - b) acc AND (push_bit k 1 - 1))"
proof -
  let ?w = "ucast (push_bit (k - b) acc AND (push_bit k 1 - 1)) :: u8"
  have m: "push_bit k 1 - 1 = (mask k :: u32)" by (simp add: mask_eq_exp_minus_1 push_bit_of_1)
  have "tb (b + (k - b)) ?w = tb b (drop_bit (k - b) ?w) @ tb (k - b) ?w" by (rule tb_add)
  moreover have "tb b (drop_bit (k - b) ?w) = map (bit acc) (rev [0..<b])"
    unfolding m tb_def using assms by (auto simp: bit_simps)
  moreover have "tb (k - b) ?w = replicate (k - b) False"
    unfolding m tb_def by (auto simp: bit_simps intro!: replicate_eqI)
  ultimately show "tb k ?w = tb b acc @ replicate (k - b) False" using assms(1) by (simp add: tb_def)
  show "?w AND mask k = ?w" unfolding m by (intro bit_eqI) (auto simp: bit_simps)
qed

lemma convertBits_pad:
  obtains data5 p where "convertBits data8 8 5 True = Inr data5" and "fits 5 data5" and "p < 5"
    and "tbs 5 data5 = tbs 8 data8 @ replicate p False"
proof -
  obtain acc n out where c: "convertLoop 8 5 data8 0 0 [] = (acc, n, out)" using prod_cases3 by blast
  have l: "tbs 5 out @ tb n acc = tbs 8 data8" and n: "n < 5" and f: "fits 5 out"
    using convertLoop_bits [OF c] by simp_all
  show thesis
  proof (cases "n = 0")
    case True
    then show thesis using c l f by (intro that [of out 0]) (simp_all add: convertBits_def)
  next
    case False
    let ?last = "ucast (push_bit (5 - n) acc AND (push_bit 5 1 - 1)) :: u8"
    have p: "tb 5 ?last = tb n acc @ replicate (5 - n) False" "?last AND mask 5 = ?last"
      using pad_group [of n 5 acc] n by simp_all
    have "convertBits data8 8 5 True = Inr (out @ [?last])" using c False by (simp add: convertBits_def)
    moreover have "tbs 5 (out @ [?last]) = tbs 8 data8 @ replicate (5 - n) False"
      unfolding map_append concat_append list.map concat.simps p(1) append_Nil2 by (simp flip: l)
    moreover have "fits 5 (out @ [?last])" unfolding set_append ball_Un using f p(2) by auto
    ultimately show thesis using False by (intro that [of "out @ [?last]" "5 - n"]) auto
  qed
qed

lemma convertBits_unpad:
  assumes "tbs 5 data5 = tbs 8 data8 @ replicate p False" and "p < 5" and "fits 5 data5"
  shows "convertBits data5 5 8 False = Inr data8"
proof -
  obtain acc n out where c: "convertLoop 5 8 data5 0 0 [] = (acc, n, out)" using prod_cases3 by blast
  have l: "tbs 8 out @ tb n acc = tbs 8 data8 @ replicate p False" and n: "n < 8"
    using convertLoop_bits [OF c] assms(1,3) by simp_all
  from arg_cong [OF l, of length] have "8 * length out + n = 8 * length data8 + p" by simp
  then have len: "length out = length data8" and np: "n = p" using n assms(2) by presburger+
  with l have o: "tbs 8 out = tbs 8 data8" and z: "tb n acc = replicate p False" by (simp_all add: append_eq_append_conv)
  have "out = data8" by (rule tbs_inj [OF o len]) simp_all
  moreover have "push_bit (8 - n) acc AND (push_bit 8 1 - 1) = 0"
  proof -
    have "\<not> bit acc i" if "i < n" for i
      using z that np unfolding tb_def by (metis (no_types, lifting) in_set_replicate image_eqI list.set_map set_rev atLeast0LessThan lessThan_iff set_upt)
    moreover have m: "push_bit 8 1 - 1 = (mask 8 :: u32)" by (simp add: mask_eq_exp_minus_1 push_bit_of_1)
    ultimately show ?thesis unfolding m using n
      by (intro bit_eqI) (auto simp only: bit_and_iff bit_mask_iff bit_push_bit_iff bit_0_eq bot_apply bot_bool_def)
  qed
  ultimately show ?thesis using c np assms(2) by (simp add: convertBits_def)
qed

section \<open>The string form\<close>

lemma charset_facts:
  "distinct bech32Charset" "length bech32Charset = 32" "CHR ''1'' \<notin> set bech32Charset" "toLower bech32Charset = bech32Charset"
  by code_simp+

lemma reverseAll_map: "fits 5 ws \<Longrightarrow> reverseAll (map (\<lambda>b. bech32Charset ! unat b) ws) = Inr ws"
proof (induction ws)
  case (Cons w ws)
  have "unat (w AND mask 5) \<le> unat (mask 5 :: u8)" by (simp add: word_and_le1 flip: word_le_nat_alt)
  then have "unat w < 32" using Cons.prems by (simp add: mask_eq_exp_minus_1)
  then have "bech32Reverse (bech32Charset ! unat w) = Some (unat w)"
    by (simp add: bech32Reverse_def pos_of_nth charset_facts)
  with Cons show ?case by simp
qed simp

lemma length_checksum [simp]: "length (bech32Checksum hrp dat) = 6"
  by (simp add: bech32Checksum_def Let_def)

lemma fits_checksum: "fits 5 (bech32Checksum hrp dat)"
proof -
  have m: "(31 :: u32) = mask 5" by (simp add: mask_eq_exp_minus_1)
  have "ucast (w AND mask 5) AND mask 5 = (ucast (w AND mask 5) :: u8)" for w :: u32
    by (intro bit_eqI) (auto simp: bit_simps)
  then show ?thesis unfolding bech32Checksum_def Let_def m by auto
qed

lemma lastIndexByte_split: "c \<notin> set t \<Longrightarrow> lastIndexByte (s @ [c] @ t) c = Some (length s)"
  by (simp add: lastIndexByte_def pos_of_append)

lemma charset_chars: "fits 5 ws \<Longrightarrow> set (map (\<lambda>b. bech32Charset ! unat b) ws) \<subseteq> set bech32Charset"
proof -
  assume f: "fits 5 ws"
  have "unat w < length bech32Charset" if "w \<in> set ws" for w
  proof -
    have "unat (w AND mask 5) \<le> unat (mask 5 :: u8)" by (simp add: word_and_le1 flip: word_le_nat_alt)
    then show ?thesis using f that by (simp add: mask_eq_exp_minus_1 charset_facts)
  qed
  then show ?thesis by auto
qed

lemma charset_lower: "fits 5 ws \<Longrightarrow> toLower (map (\<lambda>b. bech32Charset ! unat b) ws) = map (\<lambda>b. bech32Charset ! unat b) ws"
proof -
  assume "fits 5 ws"
  moreover have "lowerC c = c" if "c \<in> set bech32Charset" for c
    using charset_facts(4) that unfolding toLower_def by (metis in_set_conv_nth length_map nth_map)
  ultimately show ?thesis using charset_chars [of ws] unfolding toLower_def by (intro map_idI) blast
qed

lemma charset_no_sep: "fits 5 ws \<Longrightarrow> CHR ''1'' \<notin> set (map (\<lambda>b. bech32Charset ! unat b) ws)"
  using charset_chars [of ws] charset_facts(3) by blast

lemma encodeBech32_decode:
  assumes "hrp \<noteq> []" and "toLower hrp = hrp" and "length hrp + (8 * length data8 + 4) div 5 + 7 \<le> 2048"
  shows "\<exists>s cs. encodeBech32 hrp data8 = Inr s \<and> decodeBech32 s = Inr (hrp, data8) \<and>
    s = hrp @ [CHR ''1''] @ cs \<and> set cs \<subseteq> set bech32Charset"
proof -
  obtain data5 p where c: "convertBits data8 8 5 True = Inr data5" and f: "fits 5 data5" and p: "p < 5"
    and t: "tbs 5 data5 = tbs 8 data8 @ replicate p False" by (rule convertBits_pad)
  let ?all = "data5 @ bech32Checksum hrp data5"
  let ?cs = "map (\<lambda>b. bech32Charset ! unat b) ?all"
  have f': "fits 5 ?all" using f fits_checksum by auto
  define s where s: "s = hrp @ [CHR ''1''] @ ?cs"
  have enc: "encodeBech32 hrp data8 = Inr s" by (simp add: encodeBech32_def c s)
  from arg_cong [OF t, of length] have "5 * length data5 = 8 * length data8 + p" by simp
  with p have "length data5 = (8 * length data8 + 4) div 5" by linarith
  then have small: "length s \<le> 2048" using assms(3) by (simp add: s)
  have "toLower [CHR ''1''] = [CHR ''1'']" by code_simp
  then have low: "toLower s = s" using assms(2) charset_lower [OF f'] by (simp only: s toLower_append)
  have sep: "lastIndexByte s (CHR ''1'') = Some (length hrp)"
    unfolding s by (rule lastIndexByte_split [OF charset_no_sep [OF f']])
  have len: "length s = length hrp + 1 + length ?cs" by (simp add: s)
  have cs: "6 \<le> length ?cs" by simp
  have h: "0 < length hrp" using assms(1) by simp
  have parts: "take (length hrp) s = hrp" "drop (length hrp + 1) s = ?cs" by (simp_all add: s)
  have ok: "bech32Polymod (bech32HRPExpand hrp @ ?all) = 1" by (rule checksum_ok)
  have un: "convertBits (take (length ?all - 6) ?all) 5 8 False = Inr data8"
    using convertBits_unpad [OF t p f] by simp
  have "decodeBech32 s = Inr (hrp, data8)"
    unfolding decodeBech32_def low Let_def sep option.case parts reverseAll_map [OF f'] bindR_simps ok un
    using len cs h small by simp
  moreover have "set ?cs \<subseteq> set bech32Charset" by (rule charset_chars [OF f'])
  ultimately show ?thesis using enc s by blast
qed

text \<open>a key or any other byte string encoded under a non-empty lower-case prefix decodes to the same
  prefix and the same bytes: the checksum verifies, the padding is recognised and stripped, for every
  string within the decoder's length limit.\<close>

theorem bech32_roundtrip:
  assumes "hrp \<noteq> []" and "toLower hrp = hrp" and "length hrp + (8 * length data8 + 4) div 5 + 7 \<le> 2048"
  shows "\<exists>s. encodeBech32 hrp data8 = Inr s \<and> decodeBech32 s = Inr (hrp, data8)"
  using encodeBech32_decode [OF assms] by blast

theorem bech32_roundtrip_witness:
  "\<exists>s. encodeBech32 ''nsec'' [1, 255, 128] = Inr s \<and> decodeBech32 s = Inr (''nsec'', [1, 255, 128])"
proof (rule bech32_roundtrip)
  show "toLower ''nsec'' = ''nsec''" by code_simp
qed simp_all

end
