(* ===== verification/Nostr.thy ===== *)
theory Nostr
  imports Bech32 GoUrl
begin

text \<open>
  Nostr events, keys and the relay protocol (\<open>src/internal/nostr/event.go\<close>, \<open>key.go\<close>, \<open>relay.go\<close>).
  The secp256k1 curve with its Schnorr signatures is a parameter, SHA-256 a function, the JSON text of
  relay messages a record of encoders and decoders, and a WebSocket connection the frames it delivers.
\<close>

section \<open>Events\<close>

record Event =
  ev_ID :: string
  ev_PubKey :: string
  ev_CreatedAt :: int
  ev_Kind :: int
  ev_Tags :: "string list list"
  ev_Content :: string
  ev_Sig :: string

abbreviation DQ :: char where "DQ \<equiv> CHR 0x22"
abbreviation BS :: char where "BS \<equiv> CHR 0x5C"

definition writeJSONChar :: "char \<Rightarrow> string" where
  "writeJSONChar c =
     (if c = DQ then [BS, DQ]
      else if c = BS then [BS, BS]
      else if code c = 8 then [BS, CHR ''b'']
      else if code c = 9 then [BS, CHR ''t'']
      else if code c = 10 then [BS, CHR ''n'']
      else if code c = 12 then [BS, CHR ''f'']
      else if code c = 13 then [BS, CHR ''r'']
      else if code c < 32 then BS # ''u00'' @ [hex_digits ! (code c div 16), hex_digits ! (code c mod 16)]
      else [c])"

definition writeJSONString :: "string \<Rightarrow> string" where
  "writeJSONString s = DQ # concat (map writeJSONChar s) @ [DQ]"

text \<open>The two loops over tags and their values, each with commas between the items.\<close>

definition jsonArray :: "('a \<Rightarrow> string) \<Rightarrow> 'a list \<Rightarrow> string" where
  "jsonArray item xs = ''['' @ joinWith '','' (map item xs) @ '']''"

definition Serialize :: "Event \<Rightarrow> bytes" where
  "Serialize e =
     ''[0,'' @ [DQ] @ ev_PubKey e @ [DQ] @ '','' @ itoa (ev_CreatedAt e) @ '','' @ itoa (ev_Kind e) @ '','' @
     jsonArray (jsonArray writeJSONString) (ev_Tags e) @ '','' @ writeJSONString (ev_Content e) @ '']''"

definition idBytes :: "(bytes \<Rightarrow> bytes) \<Rightarrow> Event \<Rightarrow> bytes" where
  "idBytes sha256 e = sha256 (Serialize e)"

definition ComputeID :: "(bytes \<Rightarrow> bytes) \<Rightarrow> Event \<Rightarrow> string" where
  "ComputeID sha256 e = hex_encode (idBytes sha256 e)"

text \<open>\<open>btcec\<close> and \<open>schnorr\<close>: a private key, a public key and a signature are bytes.\<close>

record curve =
  cu_NewPrivateKey :: "nat \<Rightarrow> bytes res"
  cu_PrivKeyFromBytes :: "bytes \<Rightarrow> bytes"
  cu_Serialize :: "bytes \<Rightarrow> bytes"
  cu_SerializeCompressed :: "bytes \<Rightarrow> bytes"
  cu_ParsePubKey :: "bytes \<Rightarrow> bytes res"
  cu_Sign :: "bytes \<Rightarrow> bytes \<Rightarrow> bytes res"
  cu_ParseSignature :: "bytes \<Rightarrow> bytes res"
  cu_Verify :: "bytes \<Rightarrow> bytes \<Rightarrow> bytes \<Rightarrow> bool"

definition hexField :: "string \<Rightarrow> nat \<Rightarrow> string \<Rightarrow> bytes res" where
  "hexField s n msg =
     (case hex_decode s of None \<Rightarrow> Inl (Err msg) | Some b \<Rightarrow> if length b \<noteq> n then Inl (Err msg) else Inr b)"

definition Verify :: "curve \<Rightarrow> (bytes \<Rightarrow> bytes) \<Rightarrow> Event \<Rightarrow> unit res" where
  "Verify C sha256 e =
     bindR (hexField (ev_ID e) 32 ''event id is not 32-byte hex'') (\<lambda>i.
       if i \<noteq> idBytes sha256 e then Inl (Err ''event id does not match its contents'')
       else bindR (hexField (ev_PubKey e) 32 ''event pubkey is not 32-byte hex'') (\<lambda>pkBytes.
         bindR (wrapR ''parse event pubkey'' (cu_ParsePubKey C pkBytes)) (\<lambda>pk.
         bindR (hexField (ev_Sig e) 64 ''event sig is not 64-byte hex'') (\<lambda>sigBytes.
         bindR (wrapR ''parse event sig'' (cu_ParseSignature C sigBytes)) (\<lambda>sig.
           if \<not> cu_Verify C sig (idBytes sha256 e) pk then Inl (Err ''event signature verification failed'')
           else Inr ())))))"

fun dTagLoop :: "string list list \<Rightarrow> string" where
  "dTagLoop [] = []"
| "dTagLoop (tag # tags) =
     (case tag of k # v # _ \<Rightarrow> if k = ''d'' then v else dTagLoop tags | _ \<Rightarrow> dTagLoop tags)"

definition DTag :: "Event \<Rightarrow> string" where
  "DTag e = dTagLoop (ev_Tags e)"

section \<open>Keys\<close>

definition PublicKeyHex :: "curve \<Rightarrow> bytes \<Rightarrow> string" where
  "PublicKeyHex C sk = hex_encode (drop 1 (cu_SerializeCompressed C sk))"

text \<open>When signing fails the caller drops the event.\<close>

definition SignEvent :: "curve \<Rightarrow> (bytes \<Rightarrow> bytes) \<Rightarrow> Event \<Rightarrow> bytes \<Rightarrow> Event res" where
  "SignEvent C sha256 e0 sk =
     (let e1 = e0\<lparr>ev_PubKey := PublicKeyHex C sk\<rparr>;
          e = e1\<lparr>ev_ID := hex_encode (idBytes sha256 e1)\<rparr>
      in bindR (wrapR ''schnorr sign'' (cu_Sign C sk (idBytes sha256 e1))) (\<lambda>sig.
           Inr (e\<lparr>ev_Sig := hex_encode sig\<rparr>)))"

definition to_u8 :: "bytes \<Rightarrow> u8 list" where "to_u8 = map byte_of"
definition of_u8 :: "u8 list \<Rightarrow> bytes" where "of_u8 = map (\<lambda>b. char_of (unat b))"

definition nostr_GenerateKey :: "curve \<Rightarrow> nat \<Rightarrow> (string \<times> string) res" where
  "nostr_GenerateKey C rnd =
     bindR (wrapR ''generate key'' (cu_NewPrivateKey C rnd)) (\<lambda>sk.
     bindR (encodeBech32 ''nsec'' (to_u8 (cu_Serialize C sk))) (\<lambda>nsec.
     bindR (encodeBech32 ''npub'' (to_u8 (drop 1 (cu_SerializeCompressed C sk)))) (\<lambda>npub.
       Inr (nsec, npub))))"

definition decodeKeyMaterial :: "string \<Rightarrow> string \<Rightarrow> bytes res" where
  "decodeKeyMaterial s wantHRP =
     bindR
       (if hasPrefix s (wantHRP @ ''1'') then
          bindR (wrapR ''invalid'' (decodeBech32 s)) (\<lambda>(hrp, dat).
            if hrp \<noteq> wantHRP then Inl (Err ''expected another bech32 prefix'') else Inr (of_u8 dat))
        else (case hex_decode s of None \<Rightarrow> Inl (Wrap ''key is not hex'' (Err ''hex'')) | Some b \<Rightarrow> Inr b))
       (\<lambda>raw. if length raw \<noteq> 32 then Inl (Err ''key must be 32 bytes'') else Inr raw)"

definition ParseSecretKey :: "curve \<Rightarrow> string \<Rightarrow> bytes res" where
  "ParseSecretKey C s = bindR (decodeKeyMaterial (trimSpace s) ''nsec'') (\<lambda>raw. Inr (cu_PrivKeyFromBytes C raw))"

definition ParsePublicKey :: "curve \<Rightarrow> string \<Rightarrow> string res" where
  "ParsePublicKey C s =
     bindR (decodeKeyMaterial (trimSpace s) ''npub'') (\<lambda>raw.
     bindR (wrapR ''invalid public key'' (cu_ParsePubKey C raw)) (\<lambda>_. Inr (hex_encode raw)))"

section \<open>The relay protocol\<close>

record Filter =
  fi_Authors :: "string list"
  fi_Kinds :: "int list"
  fi_DTags :: "string list"
  fi_Limit :: int

definition RelayError :: "string \<Rightarrow> error" where
  "RelayError reason =
     Err (if reason = [] then ''relay rejected request'' else ''relay rejected request: '' @ reason)"

text \<open>The JSON text of the messages: what is sent, and the parts of a frame that is received.\<close>

record wire =
  wi_EVENT :: "Event \<Rightarrow> bytes res"
  wi_REQ :: "string \<Rightarrow> Filter \<Rightarrow> bytes res"
  wi_CLOSE :: "string \<Rightarrow> bytes res"
  wi_array :: "bytes \<Rightarrow> bytes list option"
  wi_string :: "bytes \<Rightarrow> string option"
  wi_bool :: "bytes \<Rightarrow> bool option"
  wi_event :: "bytes \<Rightarrow> Event option"

text \<open>A connection: the frames still to come, the error that ends them, whether writing fails, and what
  was written.\<close>

record wsConn =
  ws_frames :: "bytes list"
  ws_end :: error
  ws_writeErr :: "error option"
  ws_written :: "bytes list"

definition ws_Write :: "bytes \<Rightarrow> wsConn \<Rightarrow> wsConn \<times> error option" where
  "ws_Write msg w =
     (case ws_writeErr w of Some e \<Rightarrow> (w, Some e) | None \<Rightarrow> (w\<lparr>ws_written := ws_written w @ [msg]\<rparr>, None))"

text \<open>\<open>readMessage\<close>: skip what is not an array with a string at its head.\<close>

fun readFrames :: "wire \<Rightarrow> bytes list \<Rightarrow> (string \<times> bytes list \<times> bytes list) option" where
  "readFrames J [] = None"
| "readFrames J (dat # ds) =
     (case wi_array J dat of
        Some (r # raw) \<Rightarrow>
          (case wi_string J r of Some typ \<Rightarrow> Some (typ, r # raw, ds) | None \<Rightarrow> readFrames J ds)
      | _ \<Rightarrow> readFrames J ds)"

definition readMessage :: "wire \<Rightarrow> wsConn \<Rightarrow> wsConn \<times> (string \<times> bytes list) res" where
  "readMessage J w =
     (case readFrames J (ws_frames w) of
        None \<Rightarrow> (w\<lparr>ws_frames := []\<rparr>, Inl (Wrap ''read from'' (ws_end w)))
      | Some (typ, raw, rest) \<Rightarrow> (w\<lparr>ws_frames := rest\<rparr>, Inr (typ, raw)))"

lemma readFrames_shorter: "readFrames J ds = Some (typ, raw, rest) \<Longrightarrow> length rest < length ds"
  by (induction J ds rule: readFrames.induct) (auto split: option.splits list.splits)

lemma readMessage_shorter: "readMessage J w = (w', Inr m) \<Longrightarrow> length (ws_frames w') < length (ws_frames w)"
  by (auto simp: readMessage_def dest: readFrames_shorter split: option.splits)

function publishLoop :: "wire \<Rightarrow> string \<Rightarrow> wsConn \<Rightarrow> wsConn \<times> error option" where
  "publishLoop J eid w =
     (case readMessage J w of
        (w', Inl e) \<Rightarrow> (w', Some e)
      | (w', Inr (typ, raw)) \<Rightarrow>
          if typ \<noteq> ''OK'' \<or> length raw < 3 then publishLoop J eid w'
          else if (case wi_string J (raw ! 1) of None \<Rightarrow> [] | Some i \<Rightarrow> i) \<noteq> eid then publishLoop J eid w'
          else if (case wi_bool J (raw ! 2) of None \<Rightarrow> False | Some b \<Rightarrow> b) then (w', None)
          else (w', Some (RelayError (if 4 \<le> length raw then (case wi_string J (raw ! 3) of None \<Rightarrow> [] | Some r \<Rightarrow> r) else []))))"
  by pat_completeness auto
termination
  by (relation "measure (\<lambda>(_, _, w). length (ws_frames w))") (auto dest: readMessage_shorter [OF sym])

definition relay_Publish :: "wire \<Rightarrow> Event \<Rightarrow> wsConn \<Rightarrow> wsConn \<times> error option" where
  "relay_Publish J e w =
     (case wi_EVENT J e of
        Inl err \<Rightarrow> (w, Some err)
      | Inr msg \<Rightarrow>
          (case ws_Write msg w of
             (w', Some err) \<Rightarrow> (w', Some (Wrap ''write EVENT'' err))
           | (w', None) \<Rightarrow> publishLoop J (ev_ID e) w'))"

function queryLoop :: "wire \<Rightarrow> Event list \<Rightarrow> wsConn \<Rightarrow> wsConn \<times> Event list \<times> error option" where
  "queryLoop J events w =
     (case readMessage J w of
        (w', Inl e) \<Rightarrow> (w', events, Some e)
      | (w', Inr (typ, raw)) \<Rightarrow>
          if typ = ''EVENT'' then
            if length raw < 3 then queryLoop J events w'
            else (case wi_event J (raw ! 2) of
                    None \<Rightarrow> queryLoop J events w'
                  | Some ev \<Rightarrow> queryLoop J (events @ [ev]) w')
          else if typ = ''EOSE'' then
            ((case wi_CLOSE J ''tc'' of Inl _ \<Rightarrow> w' | Inr msg \<Rightarrow> fst (ws_Write msg w')), events, None)
          else if typ = ''CLOSED'' then
            (w', events, Some (RelayError (if 3 \<le> length raw then (case wi_string J (raw ! 2) of None \<Rightarrow> [] | Some r \<Rightarrow> r) else [])))
          else queryLoop J events w')"
  by pat_completeness auto
termination
  by (relation "measure (\<lambda>(_, _, w). length (ws_frames w))") (auto dest: readMessage_shorter [OF sym])

declare publishLoop.simps [simp del] queryLoop.simps [simp del]

definition relay_Query :: "wire \<Rightarrow> Filter \<Rightarrow> wsConn \<Rightarrow> wsConn \<times> Event list \<times> error option" where
  "relay_Query J f w =
     (case wi_REQ J ''tc'' f of
        Inl err \<Rightarrow> (w, [], Some err)
      | Inr req \<Rightarrow>
          (case ws_Write req w of
             (w', Some err) \<Rightarrow> (w', [], Some (Wrap ''write REQ'' err))
           | (w', None) \<Rightarrow> queryLoop J [] w'))"

definition NormalizeRelayURL :: "string \<Rightarrow> string res" where
  "NormalizeRelayURL raw =
     (case url_Parse (trimSpace raw) of
        None \<Rightarrow> Inl (Wrap ''invalid relay url'' (Err ''url''))
      | Some u \<Rightarrow>
          if u_Scheme u \<noteq> ''ws'' \<and> u_Scheme u \<noteq> ''wss'' then Inl (Err ''relay url must be ws:// or wss://'')
          else if u_Host u = [] then Inl (Err ''relay url has no host'')
          else Inr (url_String (u\<lparr>u_Scheme := toLower (u_Scheme u), u_Host := toLower (u_Host u),
                 u_Path := trimSuffix (u_Path u) ''/''\<rparr>)))"

section \<open>The serialization is uniquely readable\<close>

text \<open>A printer is self-delimiting when what follows the printed text can be told from it.\<close>

locale self_delimiting =
  fixes p :: "'a \<Rightarrow> string"
  assumes split: "p a @ x = p b @ y \<Longrightarrow> a = b \<and> x = y"
    and starts: "\<exists>c cs. p a = c # cs \<and> c \<noteq> CHR '']'' \<and> c \<noteq> CHR '',''"
begin

lemma items_split:
  assumes "joinWith '','' (map p as) @ CHR '']'' # x = joinWith '','' (map p bs) @ CHR '']'' # y"
  shows "as = bs \<and> x = y"
  using assms
proof (induction as arbitrary: bs)
  case Nil
  show ?case
  proof (cases bs)
    case (Cons b bs')
    obtain c cs where "p b = c # cs" "c \<noteq> CHR '']''" using starts by blast
    with Nil Cons show ?thesis by (cases bs') auto
  qed (use Nil in simp)
next
  case (Cons a as)
  then obtain b bs' where bs: "bs = b # bs'"
  proof (cases bs)
    case Nil
    obtain c cs where "p a = c # cs" "c \<noteq> CHR '']''" using starts by blast
    with Cons Nil show ?thesis by (cases as) auto
  qed blast
  let ?rest = "\<lambda>xs. if xs = [] then [] else CHR '','' # joinWith '','' (map p xs)"
  have j: "joinWith '','' (map p (z # zs)) = p z @ ?rest zs" for z zs by (cases zs) simp_all
  have "p a @ ?rest as @ CHR '']'' # x = p b @ ?rest bs' @ CHR '']'' # y"
    using Cons.prems unfolding bs j by simp
  from split [OF this] have ab: "a = b" and r: "?rest as @ CHR '']'' # x = ?rest bs' @ CHR '']'' # y" by auto
  have "as = bs' \<and> x = y"
  proof (cases "as = [] \<longleftrightarrow> bs' = []")
    case True
    with r Cons.IH [of bs'] show ?thesis by (cases "as = []") simp_all
  next
    case False
    with r show ?thesis by (cases "as = []") auto
  qed
  with ab bs show ?case by simp
qed

lemma array_split: "jsonArray p as @ x = jsonArray p bs @ y \<Longrightarrow> as = bs \<and> x = y"
  using items_split [of as x bs y] by (simp add: jsonArray_def)

end

text \<open>Reading one escaped character back.\<close>

fun readJSONChar :: "string \<Rightarrow> char \<times> string" where
  "readJSONChar (c # cs) =
     (if c \<noteq> BS then (c, cs)
      else case cs of
        d # ds \<Rightarrow>
          if d = CHR ''b'' then (char_of (8 :: nat), ds)
          else if d = CHR ''t'' then (char_of (9 :: nat), ds)
          else if d = CHR ''n'' then (char_of (10 :: nat), ds)
          else if d = CHR ''f'' then (char_of (12 :: nat), ds)
          else if d = CHR ''r'' then (char_of (13 :: nat), ds)
          else if d = CHR ''u'' then
            (char_of (16 * the (hex_val (ds ! 2)) + the (hex_val (ds ! 3))), drop 4 ds)
          else (d, ds)
      | [] \<Rightarrow> (c, []))"
| "readJSONChar [] = (DQ, [])"

lemma code_char_eq: "code c = n \<Longrightarrow> char_of n = c"
  by auto

lemma readJSONChar_write: "readJSONChar (writeJSONChar c @ x) = (c, x)"
proof (cases "code c < 32 \<and> code c \<notin> {8, 9, 10, 12, 13}")
  case True
  have "c \<noteq> DQ" "c \<noteq> BS" using True by auto
  then have w: "writeJSONChar c = BS # ''u00'' @ [hex_digits ! (code c div 16), hex_digits ! (code c mod 16)]"
    using True by (simp add: writeJSONChar_def)
  have "hex_val (hex_digits ! (code c div 16)) = Some (code c div 16)" "hex_val (hex_digits ! (code c mod 16)) = Some (code c mod 16)"
    using True by (auto intro: hex_val_digit)
  then show ?thesis unfolding w by (simp add: nth_Cons' drop_Cons')
next
  case False
  then show ?thesis by (auto simp: writeJSONChar_def code_char_eq)
qed

lemma writeJSONChar_start: "\<exists>d ds. writeJSONChar c = d # ds \<and> d \<noteq> DQ"
  by (auto simp: writeJSONChar_def)

lemma escaped_split:
  "concat (map writeJSONChar s) @ DQ # x = concat (map writeJSONChar t) @ DQ # y \<Longrightarrow> s = t \<and> x = y"
proof (induction s arbitrary: t)
  case Nil
  show ?case
  proof (cases t)
    case (Cons c cs)
    with Nil writeJSONChar_start [of c] show ?thesis by auto
  qed (use Nil in simp)
next
  case (Cons c s)
  then obtain d t' where t: "t = d # t'"
    using writeJSONChar_start [of c] by (cases t) auto
  have "readJSONChar (writeJSONChar c @ concat (map writeJSONChar s) @ DQ # x) =
      readJSONChar (writeJSONChar d @ concat (map writeJSONChar t') @ DQ # y)"
    using Cons.prems t by (intro arg_cong [where f = readJSONChar]) simp
  then have "c = d" "concat (map writeJSONChar s) @ DQ # x = concat (map writeJSONChar t') @ DQ # y"
    unfolding readJSONChar_write by auto
  with Cons.IH t show ?case by blast
qed

interpretation js: self_delimiting writeJSONString
proof unfold_locales
  fix a b x y
  assume "writeJSONString a @ x = writeJSONString b @ y"
  then show "a = b \<and> x = y" using escaped_split [of a x b y] by (simp add: writeJSONString_def)
qed (simp add: writeJSONString_def)

interpretation ja: self_delimiting "jsonArray writeJSONString"
proof unfold_locales
  fix a b x y
  assume "jsonArray writeJSONString a @ x = jsonArray writeJSONString b @ y"
  then show "a = b \<and> x = y" by (rule js.array_split)
qed (simp add: jsonArray_def)

lemma itoa_no_comma: "CHR '','' \<notin> set (itoa a)"
  using is_digit_not_in [of "CHR '',''"] by (auto simp: itoa_def is_digit_def)

lemma append_sep_split: "c \<notin> set a \<Longrightarrow> c \<notin> set b \<Longrightarrow> a @ c # x = b @ c # y \<Longrightarrow> a = b \<and> x = y"
proof (induction a arbitrary: b)
  case Nil
  then show ?case by (cases b) auto
next
  case (Cons d a)
  then show ?case by (cases b) auto
qed

lemma Serialize_inject:
  assumes "Serialize a = Serialize b" and "DQ \<notin> set (ev_PubKey a)" and "DQ \<notin> set (ev_PubKey b)"
  shows "ev_PubKey a = ev_PubKey b \<and> ev_CreatedAt a = ev_CreatedAt b \<and> ev_Kind a = ev_Kind b \<and>
    ev_Tags a = ev_Tags b \<and> ev_Content a = ev_Content b"
proof -
  let ?tail = "\<lambda>e. jsonArray (jsonArray writeJSONString) (ev_Tags e) @ CHR '','' # writeJSONString (ev_Content e) @ '']''"
  from assms(1) have e: "ev_PubKey a @ DQ # CHR '','' # itoa (ev_CreatedAt a) @ CHR '','' # itoa (ev_Kind a) @ CHR '','' # ?tail a =
      ev_PubKey b @ DQ # CHR '','' # itoa (ev_CreatedAt b) @ CHR '','' # itoa (ev_Kind b) @ CHR '','' # ?tail b"
    by (simp add: Serialize_def)
  from append_sep_split [OF assms(2,3) e] have pk: "ev_PubKey a = ev_PubKey b"
    and e: "itoa (ev_CreatedAt a) @ CHR '','' # itoa (ev_Kind a) @ CHR '','' # ?tail a =
      itoa (ev_CreatedAt b) @ CHR '','' # itoa (ev_Kind b) @ CHR '','' # ?tail b" by auto
  from append_sep_split [OF itoa_no_comma itoa_no_comma e] have ct: "itoa (ev_CreatedAt a) = itoa (ev_CreatedAt b)"
    and e: "itoa (ev_Kind a) @ CHR '','' # ?tail a = itoa (ev_Kind b) @ CHR '','' # ?tail b" by auto
  from append_sep_split [OF itoa_no_comma itoa_no_comma e] have k: "itoa (ev_Kind a) = itoa (ev_Kind b)"
    and e: "?tail a = ?tail b" by auto
  from ja.array_split [OF e] have t: "ev_Tags a = ev_Tags b"
    and e: "writeJSONString (ev_Content a) @ '']'' = writeJSONString (ev_Content b) @ '']''" by auto
  from js.split [OF e] pk ct k t show ?thesis by (simp add: itoa_inject)
qed

section \<open>Signatures and keys\<close>

text \<open>What the program relies on of the curve and the hash: a signature made with a key verifies under its
  x-only public key, with the sizes of BIP-340; a generated key serializes to 32 bytes that parse
  back to it; a SHA-256 sum has 32 bytes.\<close>

definition curve_ok :: "curve \<Rightarrow> bool" where
  "curve_ok C \<longleftrightarrow>
     (\<forall>sk. length (cu_SerializeCompressed C sk) = 33) \<and>
     (\<forall>sk h sig pk. cu_Sign C sk h = Inr sig \<longrightarrow> cu_ParsePubKey C (drop 1 (cu_SerializeCompressed C sk)) = Inr pk \<longrightarrow>
        length sig = 64 \<and> (\<exists>s. cu_ParseSignature C sig = Inr s \<and> cu_Verify C s h pk)) \<and>
     (\<forall>rnd sk. cu_NewPrivateKey C rnd = Inr sk \<longrightarrow>
        length (cu_Serialize C sk) = 32 \<and> cu_PrivKeyFromBytes C (cu_Serialize C sk) = sk \<and>
        is_ok (cu_ParsePubKey C (drop 1 (cu_SerializeCompressed C sk))))"

definition sha_ok :: "(bytes \<Rightarrow> bytes) \<Rightarrow> bool" where
  "sha_ok sha256 \<longleftrightarrow> (\<forall>b. length (sha256 b) = 32)"

lemma hexField_Inr [simp]: "hexField s n msg = Inr b \<longleftrightarrow> hex_decode s = Some b \<and> length b = n"
  by (auto simp: hexField_def split: option.splits)

lemma hexField_encode: "length b = n \<Longrightarrow> hexField (hex_encode b) n msg = Inr b"
  by (simp add: hex_roundtrip)

lemma idBytes_fields: "idBytes sha256 (e\<lparr>ev_ID := a\<rparr>) = idBytes sha256 e" "idBytes sha256 (e\<lparr>ev_Sig := a\<rparr>) = idBytes sha256 e"
  by (simp_all add: idBytes_def Serialize_def)

lemma sign_verify:
  assumes "curve_ok C" and "sha_ok sha256" and "SignEvent C sha256 e sk = Inr e'"
    and "is_ok (cu_ParsePubKey C (drop 1 (cu_SerializeCompressed C sk)))"
  shows "Verify C sha256 e' = Inr () \<and> ev_PubKey e' = PublicKeyHex C sk \<and> ev_CreatedAt e' = ev_CreatedAt e \<and>
    ev_Kind e' = ev_Kind e \<and> ev_Tags e' = ev_Tags e \<and> ev_Content e' = ev_Content e"
proof -
  let ?pub = "drop 1 (cu_SerializeCompressed C sk)"
  let ?e1 = "e\<lparr>ev_PubKey := hex_encode ?pub\<rparr>"
  obtain pk where pk: "cu_ParsePubKey C ?pub = Inr pk" using assms(4) by (auto simp: is_ok_iff)
  obtain sig where s: "cu_Sign C sk (idBytes sha256 ?e1) = Inr sig"
    and e': "e' = ?e1\<lparr>ev_ID := hex_encode (idBytes sha256 ?e1), ev_Sig := hex_encode sig\<rparr>"
    using assms(3) by (auto simp: SignEvent_def PublicKeyHex_def Let_def)
  have len: "length sig = 64" "length ?pub = 32" "length (idBytes sha256 ?e1) = 32"
    using assms(1,2) s pk by (auto simp: curve_ok_def sha_ok_def idBytes_def)
  obtain p where p: "cu_ParseSignature C sig = Inr p" "cu_Verify C p (idBytes sha256 ?e1) pk"
    using assms(1) s pk unfolding curve_ok_def by blast
  have i: "idBytes sha256 e' = idBytes sha256 ?e1" by (simp add: e' idBytes_fields)
  show ?thesis
    unfolding Verify_def i using len p pk by (simp add: e' hexField_encode PublicKeyHex_def)
qed

lemma hex_chars: "hex_decode s = Some b \<Longrightarrow> DQ \<notin> set s"
  by (induction s arbitrary: b rule: hex_decode.induct) (auto simp: hex_val_def Let_def split: option.splits if_splits)

text \<open>Two verified events with one id differ at most in the signature, unless SHA-256 collides on them.\<close>

lemma verified_same_id:
  assumes "Verify C sha256 a = Inr ()" and "Verify C sha256 b = Inr ()" and "ev_ID a = ev_ID b"
    and "sha256 (Serialize a) = sha256 (Serialize b) \<Longrightarrow> Serialize a = Serialize b"
  shows "ev_CreatedAt a = ev_CreatedAt b \<and> ev_Tags a = ev_Tags b \<and> ev_Content a = ev_Content b"
proof -
  have v: "hex_decode (ev_ID e) = Some (sha256 (Serialize e)) \<and> DQ \<notin> set (ev_PubKey e)"
    if "Verify C sha256 e = Inr ()" for e
    using that by (auto simp: Verify_def idBytes_def dest: hex_chars split: if_splits)
  have "Serialize a = Serialize b" using v [OF assms(1)] v [OF assms(2)] assms(3,4) by simp
  then show ?thesis using Serialize_inject v assms(1,2) by blast
qed

lemma of_u8_to_u8 [simp]: "of_u8 (to_u8 b) = b"
proof -
  have "unat (byte_of c) = code c" for c by (simp add: byte_of_def unat_of_nat)
  then show ?thesis by (simp add: of_u8_def to_u8_def o_def)
qed

lemma bech32_material:
  assumes "length b = 32" and "hrp \<noteq> []" and "toLower hrp = hrp" and "length hrp \<le> 8" and "list_all (\<lambda>c. \<not> is_space c) hrp"
  shows "\<exists>s. encodeBech32 hrp (to_u8 b) = Inr s \<and> decodeKeyMaterial (trimSpace s) hrp = Inr b"
proof -
  have "length (to_u8 b) = 32" using assms(1) by (simp add: to_u8_def)
  then have "length hrp + (8 * length (to_u8 b) + 4) div 5 + 7 \<le> 2048" using assms(4) by simp
  from encodeBech32_decode [OF assms(2,3) this] obtain s cs where s: "encodeBech32 hrp (to_u8 b) = Inr s"
    "decodeBech32 s = Inr (hrp, to_u8 b)" "s = hrp @ [CHR ''1''] @ cs" "set cs \<subseteq> set bech32Charset" by blast
  have "list_all (\<lambda>c. \<not> is_space c) bech32Charset" by code_simp
  moreover have "\<not> is_space (CHR ''1'')" by code_simp
  ultimately have "trimSpace s = s" using s(3,4) assms(5) by (intro trimSpace_no_space) (auto simp: list_all_iff)
  moreover have "hasPrefix s (hrp @ ''1'')" by (simp add: s(3) hasPrefix_iff)
  ultimately have "decodeKeyMaterial (trimSpace s) hrp = Inr b" using s(2) assms(1) by (simp add: decodeKeyMaterial_def)
  with s(1) show ?thesis by blast
qed

lemma generated_key_parses:
  assumes "curve_ok C" and "nostr_GenerateKey C rnd = Inr (nsec, npub)"
  shows "\<exists>sk. ParseSecretKey C nsec = Inr sk \<and> ParsePublicKey C npub = Inr (PublicKeyHex C sk)"
proof -
  obtain sk where sk: "cu_NewPrivateKey C rnd = Inr sk" "encodeBech32 ''nsec'' (to_u8 (cu_Serialize C sk)) = Inr nsec"
    "encodeBech32 ''npub'' (to_u8 (drop 1 (cu_SerializeCompressed C sk))) = Inr npub"
    using assms(2) by (auto simp: nostr_GenerateKey_def)
  have c: "length (cu_Serialize C sk) = 32" "cu_PrivKeyFromBytes C (cu_Serialize C sk) = sk"
    "is_ok (cu_ParsePubKey C (drop 1 (cu_SerializeCompressed C sk)))" "length (drop 1 (cu_SerializeCompressed C sk)) = 32"
    using assms(1) sk(1) by (auto simp: curve_ok_def)
  have h: "toLower ''nsec'' = ''nsec''" "toLower ''npub'' = ''npub''"
    "list_all (\<lambda>c. \<not> is_space c) ''nsec''" "list_all (\<lambda>c. \<not> is_space c) ''npub''" by code_simp+
  have "decodeKeyMaterial (trimSpace nsec) ''nsec'' = Inr (cu_Serialize C sk)"
    using bech32_material [OF c(1) _ h(1) _ h(3)] sk(2) by auto
  moreover have "decodeKeyMaterial (trimSpace npub) ''npub'' = Inr (drop 1 (cu_SerializeCompressed C sk))"
    using bech32_material [OF c(4) _ h(2) _ h(4)] sk(3) by auto
  ultimately show ?thesis using c by (auto simp: ParseSecretKey_def ParsePublicKey_def PublicKeyHex_def is_ok_iff)
qed

end
