(* ===== verification/DropNostr.thy ===== *)
theory DropNostr
  imports Nostr DropDns Codec "HOL-Library.List_Lexorder" "HOL-Library.Char_ord"
begin

text \<open>
  The dead drop on Nostr relays (\<open>src/internal/drop/nostr.go\<close>). The relays are a parameter: each has a
  state of its own, can fail to be reached, and answers queries with whatever it likes. The
  goroutines of \<open>Get\<close> and \<open>Put\<close> talk to one relay each and share nothing but the channel of
  results, so an execution is given by the order in which the results arrive.
\<close>

section \<open>The drop\<close>

definition nostrKind :: int where "nostrKind = 30078"
definition nostrDefaultIdentifier :: string where "nostrDefaultIdentifier = ''_tincan''"

record Nostr =
  no_relays :: "string list"
  no_author :: string
  no_identifier :: string
  no_sk :: "bytes option"
  no_name :: string

fun normalizeLoop :: "string list \<Rightarrow> string list \<Rightarrow> string list res" where
  "normalizeLoop [] out = Inr out"
| "normalizeLoop (r # rs) out =
     bindR (NormalizeRelayURL r) (\<lambda>norm.
       normalizeLoop rs (if norm \<in> set out then out else out @ [norm]))"

definition normalizeRelays :: "string list \<Rightarrow> string list res" where
  "normalizeRelays relays = normalizeLoop relays []"

definition NewNostr :: "curve \<Rightarrow> string list \<Rightarrow> string \<Rightarrow> string \<Rightarrow> string \<Rightarrow> Nostr res" where
  "NewNostr C relays author nsec identifier =
     bindR (wrapR ''nostr drop author'' (ParsePublicKey C author)) (\<lambda>authorHex.
     bindR (normalizeRelays relays) (\<lambda>norm.
       if norm = [] then Inl (Err ''nostr drop requires at least one relay'')
       else
         let n = \<lparr>no_relays = norm, no_author = authorHex,
                  no_identifier = (if identifier = [] then nostrDefaultIdentifier else identifier), no_sk = None,
                  no_name = ''nostr:'' @ take 8 authorHex @ '' ('' @ decimal (length norm) @ '' relays)''\<rparr>
         in if nsec \<noteq> [] then
              bindR (wrapR ''nostr drop nsec'' (ParseSecretKey C nsec)) (\<lambda>sk.
                if PublicKeyHex C sk \<noteq> authorHex then Inl (Err ''nostr drop nsec does not match author public key'')
                else Inr (n\<lparr>no_sk := Some sk\<rparr>))
            else Inr n))"

definition nostr_Name :: "Nostr \<Rightarrow> string" where
  "nostr_Name n = no_name n"

definition validEvent :: "curve \<Rightarrow> (bytes \<Rightarrow> bytes) \<Rightarrow> Nostr \<Rightarrow> Event \<Rightarrow> bool" where
  "validEvent C sha256 n ev =
     (ev_PubKey ev = no_author n \<and> ev_Kind ev = nostrKind \<and> DTag ev = no_identifier n \<and> Verify C sha256 ev = Inr ())"

text \<open>The interface \<open>Dialer\<close>/\<open>Conn\<close> over the state of one relay.\<close>

record 's relay_net =
  rn_dial :: "'s \<Rightarrow> string \<Rightarrow> error option"
  rn_Query :: "'s \<Rightarrow> string \<Rightarrow> Filter \<Rightarrow> Event list \<times> error option"
  rn_Publish :: "'s \<Rightarrow> string \<Rightarrow> Event \<Rightarrow> 's \<times> error option"

definition queryRelay :: "'s relay_net \<Rightarrow> Filter \<Rightarrow> (string \<Rightarrow> 's) \<Rightarrow> string \<Rightarrow> Event list \<times> error option" where
  "queryRelay R f w relayURL =
     (case rn_dial R (w relayURL) relayURL of Some e \<Rightarrow> ([], Some e) | None \<Rightarrow> rn_Query R (w relayURL) relayURL f)"

definition publishToRelay :: "'s relay_net \<Rightarrow> Event \<Rightarrow> (string \<Rightarrow> 's) \<Rightarrow> string \<Rightarrow> 's \<times> error option" where
  "publishToRelay R ev w relayURL =
     (case rn_dial R (w relayURL) relayURL of
        Some e \<Rightarrow> (w relayURL, Some e)
      | None \<Rightarrow> rn_Publish R (w relayURL) relayURL ev)"

definition nostr_filter :: "Nostr \<Rightarrow> Filter" where
  "nostr_filter n = \<lparr>fi_Authors = [no_author n], fi_Kinds = [nostrKind], fi_DTags = [no_identifier n], fi_Limit = 1\<rparr>"

definition pickEvent :: "(Event \<Rightarrow> bool) \<Rightarrow> Event \<Rightarrow> Event option \<Rightarrow> Event option" where
  "pickEvent valid ev best =
     (if \<not> valid ev then best
      else case best of
        None \<Rightarrow> Some ev
      | Some b \<Rightarrow>
          if ev_CreatedAt ev > ev_CreatedAt b \<or> (ev_CreatedAt ev = ev_CreatedAt b \<and> ev_ID ev < ev_ID b)
          then Some ev else best)"

text \<open>The loop of \<open>Get\<close> over the results: the best event so far, the number of clean answers, the errors.\<close>

fun collect ::
  "(Event \<Rightarrow> bool) \<Rightarrow> (Event list \<times> error option) list \<Rightarrow> Event option \<Rightarrow> nat \<Rightarrow> error list \<Rightarrow> Event option \<times> nat \<times> error list" where
  "collect valid [] best clean errs = (best, clean, errs)"
| "collect valid ((events, err) # rs) best clean errs =
     collect valid rs (fold (pickEvent valid) events best)
       (if err = None then clean + 1 else clean) (case err of None \<Rightarrow> errs | Some e \<Rightarrow> errs @ [e])"

text \<open>\<open>Get\<close>, from the results of \<open>queryRelay\<close> in the order of their arrival.\<close>

definition nostr_Get :: "curve \<Rightarrow> (bytes \<Rightarrow> bytes) \<Rightarrow> Nostr \<Rightarrow> (Event list \<times> error option) list \<Rightarrow> bytes res" where
  "nostr_Get C sha256 n results =
     (case collect (validEvent C sha256 n) results None 0 [] of
        (None, clean, errs) \<Rightarrow>
          if clean = 0 \<and> errs \<noteq> [] then Inl (Wrap ''nostr drop: all relays failed'' (Join errs))
          else Inl ErrNotFound
      | (Some best, _, _) \<Rightarrow>
          (case std_decode (ev_Content best) of
             None \<Rightarrow> Inl (Wrap ''nostr drop: decode event content'' (Err ''base64''))
           | Some blob \<Rightarrow> if length blob > MaxBlobSize then Inl (Err ''nostr drop: directory blob too large'') else Inr blob))"

definition nostrEvent :: "curve \<Rightarrow> (bytes \<Rightarrow> bytes) \<Rightarrow> Nostr \<Rightarrow> bytes \<Rightarrow> int \<Rightarrow> bytes \<Rightarrow> Event res" where
  "nostrEvent C sha256 n sk now dat =
     SignEvent C sha256
       \<lparr>ev_ID = [], ev_PubKey = [], ev_CreatedAt = now, ev_Kind = nostrKind,
        ev_Tags = [[''d'', no_identifier n]], ev_Content = std_encode dat, ev_Sig = []\<rparr> sk"

text \<open>\<open>Put\<close> at the Unix time \<open>now\<close>; \<open>order\<close> lists the relays as their results arrive.\<close>

definition nostr_Put ::
  "curve \<Rightarrow> (bytes \<Rightarrow> bytes) \<Rightarrow> 's relay_net \<Rightarrow> Nostr \<Rightarrow> int \<Rightarrow> string list \<Rightarrow> bytes \<Rightarrow> (string \<Rightarrow> 's) \<Rightarrow>
   (string \<Rightarrow> 's) \<times> error option" where
  "nostr_Put C sha256 R n now order dat w =
     (case no_sk n of
        None \<Rightarrow> (w, Some (Wrap ''nostr drop has no nsec configured'' ErrReadOnly))
      | Some sk \<Rightarrow>
          if length dat > MaxBlobSize then (w, Some (Err ''nostr drop: directory blob too large''))
          else (case nostrEvent C sha256 n sk now dat of
                  Inl e \<Rightarrow> (w, Some (Wrap ''nostr drop: sign event'' e))
                | Inr ev \<Rightarrow>
                    let w' = (\<lambda>r. if r \<in> set (no_relays n) then fst (publishToRelay R ev w r) else w r);
                        outcome = map (\<lambda>r. (r, snd (publishToRelay R ev w r))) order;
                        errs = concat (map (\<lambda>(r, e). case e of None \<Rightarrow> [] | Some e \<Rightarrow> [Wrap r e]) outcome);
                        accepted = length (filter (\<lambda>(r, e). e = None) outcome)
                    in if accepted = 0 then (w', Some (Wrap ''nostr drop: no relay accepted the directory'' (Join errs)))
                       else (w', None)))"

definition nostr_Stat :: "curve \<Rightarrow> (bytes \<Rightarrow> bytes) \<Rightarrow> Nostr \<Rightarrow> (Event list \<times> error option) list \<Rightarrow> Metadata res" where
  "nostr_Stat C sha256 n results =
     bindR (nostr_Get C sha256 n results) (\<lambda>blob.
       Inr \<lparr>md_Size = int (length blob), md_UpdatedAt = 0, md_ETag = hex_encode (take 8 (sha256 blob))\<rparr>)"

section \<open>The event that is picked\<close>

text \<open>\<open>newest valid evs b\<close>: \<open>b\<close> is a valid event of \<open>evs\<close>, none is newer, and none of its age has a lower id.\<close>

definition newest :: "(Event \<Rightarrow> bool) \<Rightarrow> Event set \<Rightarrow> Event \<Rightarrow> bool" where
  "newest valid evs b \<longleftrightarrow> b \<in> evs \<and> valid b \<and>
     (\<forall>e \<in> evs. valid e \<longrightarrow> ev_CreatedAt e < ev_CreatedAt b \<or> (ev_CreatedAt e = ev_CreatedAt b \<and> ev_ID b \<le> ev_ID e))"

definition picked :: "(Event \<Rightarrow> bool) \<Rightarrow> Event set \<Rightarrow> Event option \<Rightarrow> bool" where
  "picked valid evs best \<longleftrightarrow>
     (case best of None \<Rightarrow> \<forall>e \<in> evs. \<not> valid e | Some b \<Rightarrow> newest valid evs b)"

lemma pickEvent_picked: "picked valid evs best \<Longrightarrow> picked valid (insert ev evs) (pickEvent valid ev best)"
proof (cases best)
  case (Some b)
  assume "picked valid evs best"
  then have b: "newest valid evs b" by (simp add: picked_def Some)
  show ?thesis
  proof (cases "valid ev \<and> (ev_CreatedAt ev > ev_CreatedAt b \<or> (ev_CreatedAt ev = ev_CreatedAt b \<and> ev_ID ev < ev_ID b))")
    case True
    then have "newest valid (insert ev evs) ev" using b unfolding newest_def by fastforce
    then show ?thesis using True by (simp add: picked_def pickEvent_def Some)
  next
    case False
    then have "newest valid (insert ev evs) b" using b unfolding newest_def by auto
    then show ?thesis using False by (auto simp: picked_def pickEvent_def Some)
  qed
qed (auto simp: picked_def pickEvent_def newest_def)

lemma fold_picked: "picked valid evs best \<Longrightarrow> picked valid (evs \<union> set events) (fold (pickEvent valid) events best)"
proof (induction events arbitrary: evs best)
  case (Cons ev events)
  from Cons.IH [OF pickEvent_picked [OF Cons.prems]] show ?case by simp
qed simp

abbreviation answered :: "(Event list \<times> error option) list \<Rightarrow> Event set" where
  "answered results \<equiv> \<Union> (set (map (set \<circ> fst) results))"

lemma collect_picked:
  assumes "collect valid results best clean errs = (best', clean', errs')" and "picked valid evs best"
  shows "picked valid (evs \<union> answered results) best' \<and>
    clean' = clean + length (filter (\<lambda>r. snd r = None) results) \<and>
    (errs' = [] \<longleftrightarrow> errs = [] \<and> list_all (\<lambda>r. snd r = None) results)"
  using assms
proof (induction valid results best clean errs arbitrary: evs rule: collect.induct)
  case (2 valid events err rs best clean errs)
  from 2(1) [OF 2(2) [unfolded collect.simps] fold_picked [OF 2(3)]] show ?case
    by (auto simp: Un_assoc split: option.splits if_splits)
qed auto

text \<open>The outcome of \<open>Get\<close> from the event that was picked.\<close>

definition outcome :: "bool \<Rightarrow> error list \<Rightarrow> Event option \<Rightarrow> bytes res" where
  "outcome failed errs best =
     (case best of
        None \<Rightarrow> if failed then Inl (Wrap ''nostr drop: all relays failed'' (Join errs)) else Inl ErrNotFound
      | Some b \<Rightarrow>
          (case std_decode (ev_Content b) of
             None \<Rightarrow> Inl (Wrap ''nostr drop: decode event content'' (Err ''base64''))
           | Some blob \<Rightarrow> if length blob > MaxBlobSize then Inl (Err ''nostr drop: directory blob too large'') else Inr blob))"

lemma Get_picked:
  obtains best errs where "picked (validEvent C sha256 n) (answered results) best"
    and "nostr_Get C sha256 n results = outcome (\<not> list_ex (\<lambda>r. snd r = None) results \<and> results \<noteq> []) errs best"
proof -
  obtain best clean errs where c: "collect (validEvent C sha256 n) results None 0 [] = (best, clean, errs)"
    using prod_cases3 by blast
  from collect_picked [OF c, of "{}"] have p: "picked (validEvent C sha256 n) (answered results) best"
    and cl: "clean = length (filter (\<lambda>r. snd r = None) results)" and er: "errs = [] \<longleftrightarrow> list_all (\<lambda>r. snd r = None) results"
    by (auto simp: picked_def)
  have "clean = 0 \<and> errs \<noteq> [] \<longleftrightarrow> \<not> list_ex (\<lambda>r. snd r = None) results \<and> results \<noteq> []"
    unfolding cl er by (cases results) (auto simp: list_ex_iff list_all_iff filter_empty_conv)
  with p c show ?thesis by (intro that [of best errs]) (simp_all add: nostr_Get_def outcome_def split: option.splits)
qed

lemma newest_unique:
  assumes "newest valid evs a" and "newest valid evs b"
  shows "ev_CreatedAt a = ev_CreatedAt b \<and> ev_ID a = ev_ID b"
proof -
  have "ev_CreatedAt b < ev_CreatedAt a \<or> (ev_CreatedAt b = ev_CreatedAt a \<and> ev_ID a \<le> ev_ID b)"
    and "ev_CreatedAt a < ev_CreatedAt b \<or> (ev_CreatedAt a = ev_CreatedAt b \<and> ev_ID b \<le> ev_ID a)"
    using assms unfolding newest_def by blast+
  then show ?thesis by auto
qed

text \<open>SHA-256 does not collide on the serializations of these events.\<close>

definition no_collision :: "(bytes \<Rightarrow> bytes) \<Rightarrow> Event set \<Rightarrow> bool" where
  "no_collision sha256 evs \<longleftrightarrow>
     (\<forall>a \<in> evs. \<forall>b \<in> evs. sha256 (Serialize a) = sha256 (Serialize b) \<longrightarrow> Serialize a = Serialize b)"

lemma newest_same_content:
  assumes "newest (validEvent C sha256 n) evs a" and "newest (validEvent C sha256 n) evs b" and "no_collision sha256 evs"
  shows "ev_Content a = ev_Content b"
proof -
  have "a \<in> evs" "b \<in> evs" "Verify C sha256 a = Inr ()" "Verify C sha256 b = Inr ()"
    using assms(1,2) by (simp_all add: newest_def validEvent_def)
  then show ?thesis
    using verified_same_id [of C sha256 a b] newest_unique [OF assms(1,2)] assms(3) by (auto simp: no_collision_def)
qed

section \<open>Reading back\<close>

lemma NewNostr_Inr:
  assumes "NewNostr C relays author nsec identifier = Inr n"
  shows "\<exists>raw. ParsePublicKey C author = Inr (hex_encode raw) \<and> is_ok (cu_ParsePubKey C raw) \<and>
    no_author n = hex_encode raw \<and> no_identifier n \<noteq> [] \<and>
    (\<forall>sk. no_sk n = Some sk \<longrightarrow> drop 1 (cu_SerializeCompressed C sk) = raw)"
proof -
  obtain raw where raw: "ParsePublicKey C author = Inr (hex_encode raw)" "is_ok (cu_ParsePubKey C raw)"
    and rest: "no_author n = hex_encode raw" "no_identifier n \<noteq> []"
      "\<forall>sk. no_sk n = Some sk \<longrightarrow> PublicKeyHex C sk = hex_encode raw"
    using assms
    by (auto simp: NewNostr_def ParsePublicKey_def nostrDefaultIdentifier_def Let_def is_ok_iff split: if_splits)
  have "drop 1 (cu_SerializeCompressed C sk) = raw" if "no_sk n = Some sk" for sk
    using rest(3) that hex_roundtrip unfolding PublicKeyHex_def by (metis option.inject)
  with raw rest show ?thesis by blast
qed

text \<open>The event that \<open>Put\<close> signs is valid for the drop and carries the blob.\<close>

lemma nostrEvent_valid:
  assumes "curve_ok C" and "sha_ok sha256" and "NewNostr C relays author nsec identifier = Inr n"
    and "no_sk n = Some sk" and "nostrEvent C sha256 n sk now dat = Inr ev"
  shows "validEvent C sha256 n ev \<and> ev_CreatedAt ev = now \<and> ev_Content ev = std_encode dat"
proof -
  obtain raw where "is_ok (cu_ParsePubKey C raw)" "no_author n = hex_encode raw" "drop 1 (cu_SerializeCompressed C sk) = raw"
    using NewNostr_Inr [OF assms(3)] assms(4) by blast
  then have a: "is_ok (cu_ParsePubKey C (drop 1 (cu_SerializeCompressed C sk)))" "PublicKeyHex C sk = no_author n"
    by (simp_all add: PublicKeyHex_def)
  from sign_verify [OF assms(1,2) assms(5) [unfolded nostrEvent_def] a(1)] a(2) show ?thesis
    by (simp add: validEvent_def DTag_def)
qed

lemma Get_newest:
  assumes "ev \<in> answered results" and "validEvent C sha256 n ev" and "ev_Content ev = std_encode dat"
    and "length dat \<le> MaxBlobSize"
    and "\<forall>e \<in> answered results. validEvent C sha256 n e \<longrightarrow> ev_Content e = ev_Content ev \<or> ev_CreatedAt e < ev_CreatedAt ev"
  shows "nostr_Get C sha256 n results = Inr dat"
proof -
  obtain best errs where p: "picked (validEvent C sha256 n) (answered results) best"
    and g: "nostr_Get C sha256 n results = outcome (\<not> list_ex (\<lambda>r. snd r = None) results \<and> results \<noteq> []) errs best"
    by (rule Get_picked)
  from p assms(1,2) obtain b where b: "best = Some b" "newest (validEvent C sha256 n) (answered results) b"
    by (cases best) (auto simp: picked_def)
  have "ev_Content b = ev_Content ev \<or> ev_CreatedAt b < ev_CreatedAt ev" using b(2) assms(5) unfolding newest_def by blast
  moreover have "ev_CreatedAt ev \<le> ev_CreatedAt b" using b(2) assms(1,2) unfolding newest_def by force
  ultimately have "ev_Content b = ev_Content ev" by linarith
  with b(1) assms(3,4) show ?thesis by (simp add: g outcome_def std_roundtrip)
qed

text \<open>A relay that accepts an event can be reached and serves it to a query for its author, kind and tag.\<close>

definition relay_serves :: "'s relay_net \<Rightarrow> bool" where
  "relay_serves R \<longleftrightarrow>
     (\<forall>s s' url ev f. rn_Publish R s url ev = (s', None) \<longrightarrow>
        ev_PubKey ev \<in> set (fi_Authors f) \<longrightarrow> ev_Kind ev \<in> set (fi_Kinds f) \<longrightarrow> DTag ev \<in> set (fi_DTags f) \<longrightarrow>
        rn_dial R s' url = None \<and> ev \<in> set (fst (rn_Query R s' url f)))"

lemma Put_accepted:
  assumes "nostr_Put C sha256 R n now order dat w = (w', None)" and "set order = set (no_relays n)"
  shows "\<exists>sk ev r. no_sk n = Some sk \<and> length dat \<le> MaxBlobSize \<and> nostrEvent C sha256 n sk now dat = Inr ev \<and>
    r \<in> set (no_relays n) \<and> rn_Publish R (w r) r ev = (w' r, None)"
proof -
  obtain sk ev where sk: "no_sk n = Some sk" "length dat \<le> MaxBlobSize" and ev: "nostrEvent C sha256 n sk now dat = Inr ev"
    using assms(1) by (auto simp: nostr_Put_def split: option.splits if_splits sum.splits)
  have "\<exists>r \<in> set order. snd (publishToRelay R ev w r) = None"
    and w': "w' = (\<lambda>r. if r \<in> set (no_relays n) then fst (publishToRelay R ev w r) else w r)"
    using assms(1) sk ev by (auto simp: nostr_Put_def Let_def filter_map o_def filter_empty_conv split: if_splits)
  then obtain r where r: "r \<in> set order" "snd (publishToRelay R ev w r) = None" by blast
  then have "rn_Publish R (w r) r ev = (fst (publishToRelay R ev w r), None)"
    by (auto simp: publishToRelay_def prod_eq_iff split: option.splits)
  with sk ev r(1) assms(2) w' show ?thesis by auto
qed

section \<open>A concrete instance\<close>

text \<open>A toy curve, hash and set of relays that satisfy the hypotheses, for the witnesses.\<close>

definition pad32 :: "bytes \<Rightarrow> bytes" where
  "pad32 b = take 32 (b @ replicate 32 (CHR ''.''))"

lemma length_pad32 [simp]: "length (pad32 b) = 32"
  by (simp add: pad32_def)

definition demo_curve :: curve where
  "demo_curve =
     \<lparr>cu_NewPrivateKey = (\<lambda>_. Inr (pad32 ''k'')), cu_PrivKeyFromBytes = pad32, cu_Serialize = pad32,
      cu_SerializeCompressed = (\<lambda>sk. CHR ''+'' # pad32 sk), cu_ParsePubKey = Inr,
      cu_Sign = (\<lambda>sk h. Inr (pad32 sk @ pad32 h)), cu_ParseSignature = Inr,
      cu_Verify = (\<lambda>s h pk. s = pk @ pad32 h)\<rparr>"

lemma pad32_idem [simp]: "pad32 (pad32 b) = pad32 b"
  by (simp add: pad32_def)

lemma demo_curve_ok: "curve_ok demo_curve"
  by (simp add: curve_ok_def demo_curve_def)

lemma demo_sha_ok: "sha_ok pad32"
  by (simp add: sha_ok_def)

definition demo_key :: string where
  "demo_key = ''6b2e2e2e2e2e2e2e2e2e2e2e2e2e2e2e2e2e2e2e2e2e2e2e2e2e2e2e2e2e2e2e''"

definition demo_nostr :: Nostr where
  "demo_nostr = \<lparr>no_relays = [''wss://relay''], no_author = demo_key, no_identifier = ''_tincan'',
     no_sk = Some (pad32 ''k''), no_name = ''nostr:6b2e2e2e (1 relays)''\<rparr>"

lemma demo_new: "NewNostr demo_curve [''wss://Relay/'', ''wss://relay''] demo_key demo_key [] = Inr demo_nostr"
  by code_simp

definition demo_net :: "Event list relay_net" where
  "demo_net = \<lparr>rn_dial = (\<lambda>_ _. None), rn_Query = (\<lambda>s _ _. (s, None)), rn_Publish = (\<lambda>s _ ev. (ev # s, None))\<rparr>"

lemma demo_net_serves: "relay_serves demo_net"
  by (auto simp: relay_serves_def demo_net_def)

lemma demo_fields: "no_sk demo_nostr = Some (pad32 ''k'')" "no_relays demo_nostr = [''wss://relay'']"
  by (simp_all add: demo_nostr_def)

lemma demo_event:
  "\<exists>ev. nostrEvent demo_curve pad32 demo_nostr (pad32 ''k'') 5 ''hi'' = Inr ev \<and>
     validEvent demo_curve pad32 demo_nostr ev \<and> ev_CreatedAt ev = 5 \<and> ev_Content ev = std_encode ''hi''"
proof -
  have "cu_Sign demo_curve sk h = Inr (pad32 sk @ pad32 h)" for sk h by (simp add: demo_curve_def)
  then obtain ev where "nostrEvent demo_curve pad32 demo_nostr (pad32 ''k'') 5 ''hi'' = Inr ev"
    by (simp add: nostrEvent_def SignEvent_def Let_def)
  with nostrEvent_valid [OF demo_curve_ok demo_sha_ok demo_new demo_fields(1) this] show ?thesis by blast
qed

lemma demo_put:
  "\<exists>ev. nostr_Put demo_curve pad32 demo_net demo_nostr 5 [''wss://relay''] ''hi'' (\<lambda>_. []) =
     ((\<lambda>r. if r = ''wss://relay'' then [ev] else []), None) \<and> ev_Content ev = std_encode ''hi''"
proof -
  obtain ev where ev: "nostrEvent demo_curve pad32 demo_nostr (pad32 ''k'') 5 ''hi'' = Inr ev" "ev_Content ev = std_encode ''hi''"
    using demo_event by blast
  have "publishToRelay demo_net ev (\<lambda>_. []) r = ([ev], None)" for r by (simp add: publishToRelay_def demo_net_def)
  then have "nostr_Put demo_curve pad32 demo_net demo_nostr 5 [''wss://relay''] ''hi'' (\<lambda>_. []) =
     ((\<lambda>r. if r = ''wss://relay'' then [ev] else []), None)"
    by (simp add: nostr_Put_def demo_fields ev(1) MaxBlobSize_def Let_def cong: if_cong)
  with ev(2) show ?thesis by blast
qed

section \<open>Properties\<close>

text \<open>the outcome of reading the relays does not depend on the order in which they answer: for two
  arrival orders of the same results, one gives a blob exactly when the other gives the same blob, and
  one reports an empty slot exactly when the other does. Newest wins and the tie on the lowest id
  make it so, as long as SHA-256 does not collide on the events at hand.\<close>

theorem nostr_get_order_independent:
  assumes "mset results = mset results'" and "no_collision sha256 (answered results)"
  shows "(nostr_Get C sha256 n results = Inr blob \<longleftrightarrow> nostr_Get C sha256 n results' = Inr blob) \<and>
    (nostr_Get C sha256 n results = Inl ErrNotFound \<longleftrightarrow> nostr_Get C sha256 n results' = Inl ErrNotFound)"
proof -
  have st: "set results = set results'" using assms(1) by (metis set_mset_mset)
  then have ans: "answered results' = answered results" by simp
  have ex: "list_ex (\<lambda>r. snd r = None) results' = list_ex (\<lambda>r. snd r = None) results" "results' = [] \<longleftrightarrow> results = []"
    using st by (auto simp: list_ex_iff)
  let ?failed = "\<not> list_ex (\<lambda>r. snd r = None) results \<and> results \<noteq> []"
  obtain a errs where a: "picked (validEvent C sha256 n) (answered results) a"
    and ga: "nostr_Get C sha256 n results = outcome ?failed errs a" by (rule Get_picked)
  obtain b errs' where b: "picked (validEvent C sha256 n) (answered results) b"
    and gb: "nostr_Get C sha256 n results' = outcome ?failed errs' b"
    using Get_picked [of C sha256 n results'] unfolding ans ex by blast
  show ?thesis
  proof (cases a)
    case None
    then have "b = None" using a b by (auto simp: picked_def newest_def split: option.splits)
    with None show ?thesis unfolding ga gb by (simp add: outcome_def)
  next
    case (Some x)
    then obtain y where y: "b = Some y" using a b by (auto simp: picked_def newest_def split: option.splits)
    have "newest (validEvent C sha256 n) (answered results) x" "newest (validEvent C sha256 n) (answered results) y"
      using a b Some y by (simp_all add: picked_def)
    then have "ev_Content x = ev_Content y" by (rule newest_same_content [OF _ _ assms(2)])
    with Some y show ?thesis unfolding ga gb by (simp add: outcome_def)
  qed
qed

theorem nostr_get_order_independent_witness:
  "\<exists>e. nostr_Get demo_curve pad32 demo_nostr [([e], None), ([], Some ErrAuth)] = Inr ''hi'' \<and>
     nostr_Get demo_curve pad32 demo_nostr [([], Some ErrAuth), ([e], None)] = Inr ''hi''"
proof -
  obtain e where e: "validEvent demo_curve pad32 demo_nostr e" "ev_Content e = std_encode ''hi''" using demo_event by blast
  have "nostr_Get demo_curve pad32 demo_nostr [([e], None), ([], Some ErrAuth)] = Inr ''hi''"
    by (rule Get_newest [of e]) (simp_all add: e MaxBlobSize_def)
  with nostr_get_order_independent [of "[([e], None), ([], Some ErrAuth)]" "[([], Some ErrAuth), ([e], None)]" pad32
      demo_curve demo_nostr "''hi''"] show ?thesis by (auto simp: no_collision_def)
qed

text \<open>C30: what the admin publishes to the relays is what a reader gets: after a \<open>Put\<close> that at least one relay
  accepted, with that relay serving what it accepted and every other genuine event that the relays
  return older than the publication, \<open>Get\<close> returns the published blob, in whatever order the relays
  answer and whatever else (foreign, forged or malformed events, errors) they return.\<close>

theorem nostr_publish_read:
  assumes "curve_ok C" and "sha_ok sha256" and "relay_serves R" and "NewNostr C relays author nsec identifier = Inr n"
    and "nostr_Put C sha256 R n now order dat w = (w', None)" and "set order = set (no_relays n)"
    and "set results = set (map (queryRelay R (nostr_filter n) w') (no_relays n))"
    and "\<forall>e \<in> answered results. validEvent C sha256 n e \<longrightarrow> ev_Content e = std_encode dat \<or> ev_CreatedAt e < now"
  shows "nostr_Get C sha256 n results = Inr dat"
proof -
  obtain sk ev r where sk: "no_sk n = Some sk" and len: "length dat \<le> MaxBlobSize" and e: "nostrEvent C sha256 n sk now dat = Inr ev"
    and r: "r \<in> set (no_relays n)" "rn_Publish R (w r) r ev = (w' r, None)"
    using Put_accepted [OF assms(5,6)] by blast
  have ev: "validEvent C sha256 n ev" "ev_CreatedAt ev = now" "ev_Content ev = std_encode dat"
    using nostrEvent_valid [OF assms(1,2,4) sk e] by simp_all
  have "rn_dial R (w' r) r = None \<and> ev \<in> set (fst (rn_Query R (w' r) r (nostr_filter n)))"
    using assms(3) [unfolded relay_serves_def, rule_format, OF r(2), of "nostr_filter n"] ev(1)
    by (simp add: nostr_filter_def validEvent_def)
  then have "ev \<in> set (fst (queryRelay R (nostr_filter n) w' r))" by (simp add: queryRelay_def)
  then have "ev \<in> answered results" using r(1) by (auto simp: assms(7))
  from Get_newest [OF this ev(1) ev(3) len] assms(8) show ?thesis by (simp add: ev(2,3))
qed

theorem nostr_publish_read_witness:
  "\<exists>w'. nostr_Put demo_curve pad32 demo_net demo_nostr 5 [''wss://relay''] ''hi'' (\<lambda>_. []) = (w', None) \<and>
     nostr_Get demo_curve pad32 demo_nostr
       (map (queryRelay demo_net (nostr_filter demo_nostr) w') (no_relays demo_nostr)) = Inr ''hi''"
proof -
  obtain ev where p: "nostr_Put demo_curve pad32 demo_net demo_nostr 5 [''wss://relay''] ''hi'' (\<lambda>_. []) =
      ((\<lambda>r. if r = ''wss://relay'' then [ev] else []), None)" and c: "ev_Content ev = std_encode ''hi''"
    using demo_put by blast
  have "nostr_Get demo_curve pad32 demo_nostr (map (queryRelay demo_net (nostr_filter demo_nostr)
      (\<lambda>r. if r = ''wss://relay'' then [ev] else [])) (no_relays demo_nostr)) = Inr ''hi''"
    by (rule nostr_publish_read [OF demo_curve_ok demo_sha_ok demo_net_serves demo_new p])
      (simp_all add: demo_nostr_def queryRelay_def demo_net_def c)
  with p show ?thesis by blast
qed

end
