(* ===== verification/Drops.thy ===== *)
theory Drops
  imports DropNostr Providers
begin

text \<open>
  The other dead drops and their selection (\<open>src/internal/drop/file.go\<close>, \<open>http.go\<close>, \<open>s3.go\<close>, \<open>drop.go\<close>).
  The file system, the HTTP transport and the S3 client are parameters; which call fails, and how,
  is part of them.
\<close>

section \<open>Files\<close>

record fileIO =
  fi_ctx :: "error option"
  fi_open :: "error option"
  fi_read :: "error option"
  fi_mkdir :: "error option"
  fi_write :: "error option"
  fi_stat :: "error option"
  fi_mtime :: gotime

type_synonym fileSystem = "string \<Rightarrow> bytes option"

definition file_Name :: "string \<Rightarrow> string" where
  "file_Name path = ''file:'' @ path"

text \<open>\<open>io.ReadAll(io.LimitReader(r, MaxBlobSize+1))\<close> and the size check after it.\<close>

definition readBounded :: "(error \<Rightarrow> error) \<Rightarrow> bytes \<Rightarrow> error option \<Rightarrow> bytes res" where
  "readBounded wrap content readErr =
     (let dat = take (MaxBlobSize + 1) content
      in if readErr \<noteq> None \<and> length content \<le> MaxBlobSize then Inl (wrap (the readErr))
         else if length dat > MaxBlobSize then Inl (Err ''dead-drop object too large'')
         else Inr dat)"

definition file_Get :: "fileIO \<Rightarrow> string \<Rightarrow> fileSystem \<Rightarrow> bytes res" where
  "file_Get io path fs =
     (case fi_ctx io of Some e \<Rightarrow> Inl e
      | None \<Rightarrow>
          (case fs path of None \<Rightarrow> Inl ErrNotFound
           | Some content \<Rightarrow>
               (case fi_open io of Some e \<Rightarrow> Inl (Wrap ''read file drop'' e)
                | None \<Rightarrow> readBounded (Wrap ''read file drop'') content (fi_read io))))"

definition file_Put :: "fileIO \<Rightarrow> string \<Rightarrow> bytes \<Rightarrow> fileSystem \<Rightarrow> fileSystem \<times> error option" where
  "file_Put io path dat fs =
     (case fi_ctx io of Some e \<Rightarrow> (fs, Some e)
      | None \<Rightarrow>
          (case fi_mkdir io of Some e \<Rightarrow> (fs, Some (Wrap ''create file drop directory'' e))
           | None \<Rightarrow>
               (case fi_write io of Some e \<Rightarrow> (fs, Some (Wrap ''write file drop'' e))
                | None \<Rightarrow> (fs(path \<mapsto> dat), None))))"

definition file_Stat :: "fileIO \<Rightarrow> string \<Rightarrow> fileSystem \<Rightarrow> Metadata res" where
  "file_Stat io path fs =
     (case fi_ctx io of Some e \<Rightarrow> Inl e
      | None \<Rightarrow>
          (case fs path of None \<Rightarrow> Inl ErrNotFound
           | Some content \<Rightarrow>
               (case fi_stat io of Some e \<Rightarrow> Inl (Wrap ''stat file drop'' e)
                | None \<Rightarrow> Inr \<lparr>md_Size = int (length content), md_UpdatedAt = fi_mtime io, md_ETag = []\<rparr>)))"

section \<open>HTTP\<close>

record HTTP =
  ht_url :: string
  ht_name :: string
  ht_username :: string
  ht_password :: string

record httpRequest =
  rq_Method :: string
  rq_URL :: string
  rq_BasicAuth :: "(string \<times> string) option"

record httpResponse =
  rs_StatusCode :: int
  rs_ContentLength :: int
  rs_Body :: bytes
  rs_BodyErr :: "error option"
  rs_Header :: "string \<Rightarrow> string"

definition redactURL :: "string \<Rightarrow> string" where
  "redactURL raw = (case url_Parse raw of None \<Rightarrow> raw | Some u \<Rightarrow> url_Redacted u)"

definition NewHTTP :: "string \<Rightarrow> string \<Rightarrow> string \<Rightarrow> HTTP" where
  "NewHTTP rawURL username password =
     \<lparr>ht_url = rawURL, ht_name = ''http:'' @ redactURL rawURL, ht_username = username, ht_password = password\<rparr>"

definition http_Name :: "HTTP \<Rightarrow> string" where
  "http_Name h = ht_name h"

definition http_auth :: "HTTP \<Rightarrow> httpRequest \<Rightarrow> httpRequest" where
  "http_auth h req =
     (if ht_username h \<noteq> [] \<or> ht_password h \<noteq> [] then req\<lparr>rq_BasicAuth := Some (ht_username h, ht_password h)\<rparr> else req)"

text \<open>\<open>http.Client.Do\<close> with the \<open>CheckRedirect\<close> of \<open>NewHTTP\<close>: one exchange, and a redirect to a location
  is an error. The second component is the requests that went out.\<close>

definition client_Do :: "(httpRequest \<Rightarrow> httpResponse res) \<Rightarrow> httpRequest \<Rightarrow> httpResponse res \<times> httpRequest list" where
  "client_Do transport req =
     ((case transport req of
         Inl e \<Rightarrow> Inl e
       | Inr resp \<Rightarrow>
           if rs_StatusCode resp \<in> {301, 302, 303, 307, 308} \<and> rs_Header resp ''Location'' \<noteq> []
           then Inl (Err ''dead-drop redirected; refusing to follow'') else Inr resp), [req])"

definition httpStatusError :: "int \<Rightarrow> error option" where
  "httpStatusError status =
     (if status = 404 then Some ErrNotFound
      else if status = 401 then Some ErrAuth
      else if status = 403 then Some ErrForbidden
      else if status < 200 \<or> status \<ge> 300 then Some (Err ''dead-drop HTTP status'')
      else None)"

definition http_Get :: "(httpRequest \<Rightarrow> httpResponse res) \<Rightarrow> HTTP \<Rightarrow> bytes res \<times> httpRequest list" where
  "http_Get transport h =
     (case url_Parse (ht_url h) of
        None \<Rightarrow> (Inl (Wrap ''create HTTP GET'' (Err ''url'')), [])
      | Some _ \<Rightarrow>
          (case client_Do transport (http_auth h \<lparr>rq_Method = ''GET'', rq_URL = ht_url h, rq_BasicAuth = None\<rparr>) of
             (Inl e, sent) \<Rightarrow> (Inl (Wrap ''HTTP GET'' e), sent)
           | (Inr resp, sent) \<Rightarrow>
               ((case httpStatusError (rs_StatusCode resp) of
                   Some e \<Rightarrow> Inl e
                 | None \<Rightarrow>
                     if rs_ContentLength resp > int MaxBlobSize then Inl (Err ''dead-drop object is too large'')
                     else readBounded (Wrap ''read HTTP response'') (rs_Body resp) (rs_BodyErr resp)), sent)))"

definition http_Put :: "HTTP \<Rightarrow> bytes \<Rightarrow> error option" where
  "http_Put h dat = Some ErrReadOnly"

text \<open>\<open>strings.Trim(s, cutset)\<close> for the quotes of an entity tag; \<open>http.ParseTime\<close> is the argument \<open>parseTime\<close>.\<close>

definition trimC :: "char \<Rightarrow> string \<Rightarrow> string" where
  "trimC c s = rev (dropWhile (\<lambda>x. x = c) (rev (dropWhile (\<lambda>x. x = c) s)))"

definition http_Stat ::
  "(string \<Rightarrow> gotime option) \<Rightarrow> gotime \<Rightarrow> (httpRequest \<Rightarrow> httpResponse res) \<Rightarrow> HTTP \<Rightarrow> Metadata res" where
  "http_Stat parseTime now transport h =
     (case url_Parse (ht_url h) of
        None \<Rightarrow> Inl (Wrap ''create HTTP HEAD'' (Err ''url''))
      | Some _ \<Rightarrow>
          (case fst (client_Do transport (http_auth h \<lparr>rq_Method = ''HEAD'', rq_URL = ht_url h, rq_BasicAuth = None\<rparr>)) of
             Inl e \<Rightarrow> Inl (Wrap ''HTTP HEAD'' e)
           | Inr resp \<Rightarrow>
               (case httpStatusError (rs_StatusCode resp) of
                  Some e \<Rightarrow> Inl e
                | None \<Rightarrow>
                    Inr \<lparr>md_Size = (case atoi (rs_Header resp ''Content-Length'') of Some n \<Rightarrow> n | None \<Rightarrow> 0),
                         md_UpdatedAt =
                           (if rs_Header resp ''Last-Modified'' \<noteq> []
                            then (case parseTime (rs_Header resp ''Last-Modified'') of Some t \<Rightarrow> t | None \<Rightarrow> now) else now),
                         md_ETag = trimC (CHR 0x22) (rs_Header resp ''ETag'')\<rparr>)))"

section \<open>S3\<close>

text \<open>The S3 client's errors carry the status and the code of the response; status 0 is no response.\<close>

record s3Error =
  se_StatusCode :: int
  se_Code :: string
  se_err :: error

record 's s3Client =
  s3_GetObject :: "'s \<Rightarrow> string \<Rightarrow> string \<Rightarrow> s3Error + (bytes \<times> s3Error option)"
  s3_PutObject :: "'s \<Rightarrow> string \<Rightarrow> string \<Rightarrow> bytes \<Rightarrow> 's \<times> s3Error option"
  s3_StatObject :: "'s \<Rightarrow> string \<Rightarrow> string \<Rightarrow> s3Error + Metadata"

record 's S3 =
  s3_client :: "'s s3Client"
  s3_bucket :: string
  s3_object :: string
  s3_name :: string

record s3Options =
  so_endpoint :: string
  so_accessKey :: string
  so_secretKey :: string
  so_region :: string
  so_secure :: bool

definition NewS3 :: "(s3Options \<Rightarrow> 's s3Client res) \<Rightarrow> DropBackend \<Rightarrow> 's S3 res" where
  "NewS3 minio_New cfg =
     bindR (wrapR ''create S3 client'' (minio_New
         \<lparr>so_endpoint = db_Endpoint cfg, so_accessKey = db_AccessKey cfg, so_secretKey = db_SecretKey cfg,
          so_region = db_Region cfg, so_secure = S3UseTLS cfg\<rparr>)) (\<lambda>client.
       Inr \<lparr>s3_client = client, s3_bucket = db_Bucket cfg, s3_object = db_ObjectKey cfg,
            s3_name = ''s3:'' @ db_Bucket cfg @ ''/'' @ db_ObjectKey cfg\<rparr>)"

definition s3_Name :: "'s S3 \<Rightarrow> string" where
  "s3_Name s = s3_name s"

definition mapS3Err :: "s3Error \<Rightarrow> error" where
  "mapS3Err e =
     (if se_StatusCode e = 0 then se_err e
      else if se_StatusCode e = 401 then ErrAuth
      else if se_StatusCode e = 403 then
        (if se_Code e \<in> {''SignatureDoesNotMatch'', ''InvalidAccessKeyId'', ''InvalidSecurity'', ''ExpiredToken'', ''TokenRefreshRequired''}
         then ErrAuth else Wrap ''object not readable'' ErrForbidden)
      else if se_StatusCode e = 404 then ErrNotFound
      else se_err e)"

definition s3_Get :: "'s S3 \<Rightarrow> 's \<Rightarrow> bytes res" where
  "s3_Get d s =
     (case s3_GetObject (s3_client d) s (s3_bucket d) (s3_object d) of
        Inl e \<Rightarrow> Inl (mapS3Err e)
      | Inr (content, readErr) \<Rightarrow> readBounded id content (map_option mapS3Err readErr))"

definition s3_Put :: "'s S3 \<Rightarrow> bytes \<Rightarrow> 's \<Rightarrow> 's \<times> error option" where
  "s3_Put d dat s =
     (case s3_PutObject (s3_client d) s (s3_bucket d) (s3_object d) dat of (s', e) \<Rightarrow> (s', map_option mapS3Err e))"

definition s3_Stat :: "'s S3 \<Rightarrow> 's \<Rightarrow> Metadata res" where
  "s3_Stat d s =
     (case s3_StatObject (s3_client d) s (s3_bucket d) (s3_object d) of Inl e \<Rightarrow> Inl (mapS3Err e) | Inr m \<Rightarrow> Inr m)"

section \<open>Selection\<close>

datatype ('d, 's) Drop = FileDrop string | HTTPDrop HTTP | S3Drop "'s S3" | DNSDrop "'d DNS" | NostrDrop Nostr

text \<open>What the constructors need from outside: the S3 client library, the provider APIs, the resolver, the curve.\<close>

record ('d, 's) dropLibs =
  dl_minio :: "s3Options \<Rightarrow> 's s3Client res"
  dl_api :: "providerSettings \<Rightarrow> 'd provider"
  dl_lookup :: "string option \<Rightarrow> 'd \<Rightarrow> string \<Rightarrow> lookupErr + string list"
  dl_curve :: curve

definition drop_New :: "('d, 's) dropLibs \<Rightarrow> DropBackend \<Rightarrow> ('d, 's) Drop res" where
  "drop_New L cfg =
     (if db_Type cfg = ''file'' then Inr (FileDrop (db_Path cfg))
      else if db_Type cfg = ''http'' then Inr (HTTPDrop (NewHTTP (db_URL cfg) (db_Username cfg) (db_Password cfg)))
      else if db_Type cfg = ''s3'' then bindR (NewS3 (dl_minio L) cfg) (Inr \<circ> S3Drop)
      else if db_Type cfg = ''dns'' then bindR (NewDNS (dnsprovider_New (dl_api L)) (dl_lookup L) cfg) (Inr \<circ> DNSDrop)
      else if db_Type cfg = ''nostr'' then
        bindR (NewNostr (dl_curve L) (db_Relays cfg) (db_Author cfg) (db_Nsec cfg) (db_Identifier cfg)) (Inr \<circ> NostrDrop)
      else Inl (Err ''unsupported drop type''))"

section \<open>The drops keep the contract\<close>

lemma readBounded_Inr: "readBounded wrap content readErr = Inr b \<longleftrightarrow> readErr = None \<and> b = content \<and> length content \<le> MaxBlobSize"
  by (auto simp: readBounded_def Let_def min_def)

interpretation fdrop: dead_drop "file_Put io path" "file_Get io' path" "\<lambda>_. True" for io io' path
proof unfold_locales
  fix dat s s' blob
  assume "file_Put io path dat s = (s', None)" "file_Get io' path s' = Inr blob"
  then show "blob = dat"
    by (auto simp: file_Put_def file_Get_def readBounded_Inr split: option.splits)
qed simp

text \<open>An S3 store returns, for an object, the content of the last successful upload.\<close>

definition s3_laws :: "'s S3 \<Rightarrow> bool" where
  "s3_laws d \<longleftrightarrow>
     (\<forall>s s' dat content. s3_PutObject (s3_client d) s (s3_bucket d) (s3_object d) dat = (s', None) \<longrightarrow>
        s3_GetObject (s3_client d) s' (s3_bucket d) (s3_object d) = Inr (content, None) \<longrightarrow> content = dat)"

interpretation sdrop: dead_drop "s3_Put d" "s3_Get d" "\<lambda>_. s3_laws d" for d
proof unfold_locales
  fix dat s s' blob
  assume l: "s3_laws d" and p: "s3_Put d dat s = (s', None)" and g: "s3_Get d s' = Inr blob"
  have "s3_PutObject (s3_client d) s (s3_bucket d) (s3_object d) dat = (s', None)"
    using p by (auto simp: s3_Put_def split: prod.splits)
  moreover have "s3_GetObject (s3_client d) s' (s3_bucket d) (s3_object d) = Inr (blob, None)"
    using g by (auto simp: s3_Get_def readBounded_Inr split: sum.splits)
  ultimately show "blob = dat" using l unfolding s3_laws_def by blast
qed

lemma nostr_Get_bounded: "nostr_Get C sha256 n results = Inr b \<Longrightarrow> length b \<le> MaxBlobSize"
  by (auto simp: nostr_Get_def split: option.splits prod.splits if_splits)

text \<open>The DNS drop has no limit of its own; what it returns is no longer than the records it was given.\<close>

lemma splitN_length: "x \<in> set (splitN c s n) \<Longrightarrow> length x \<le> length s"
proof (induction c s n rule: splitN.induct)
  case (3 c s n)
  show ?case
  proof (cases "cutOn c s")
    case None
    with 3(2) show ?thesis by simp
  next
    case (Some p)
    then obtain a b where p: "cutOn c s = Some (a, b)" by (cases p) simp
    then have "length a \<le> length s" "length b \<le> length s" using cutOn_Some [OF p] by auto
    with 3(1) [OF p refl] 3(2) p show ?thesis by fastforce
  qed
qed auto

lemma scanChunks_length:
  "scanChunks vs tot parts = Inr (tot', parts') \<Longrightarrow>
     sum_list (map (length \<circ> snd) parts') \<le> sum_list (map (length \<circ> snd) parts) + sum_list (map length vs)"
proof (induction vs tot parts rule: scanChunks.induct)
  case (2 v vs tot parts)
  show ?case
  proof (cases "isChunk v")
    case True
    from 2(4) True obtain f0 f1 f2 f3 seq t where f: "splitN (CHR '';'') v 4 = [f0, f1, f2, f3]" "atoi f1 = Some seq" "atoi f2 = Some t"
      by (auto split: list.splits option.splits)
    have l: "length f3 \<le> length v" by (rule splitN_length [of _ "CHR '';''" _ 4]) (simp add: f(1))
    show ?thesis
    proof (cases "tot = -1")
      case tot: True
      from 2(2) [OF _ f(1) refl refl refl refl f(2,3) tot] True 2(4) f tot l show ?thesis by simp
    next
      case tot: False
      with 2(4) True f have "tot = t" by (auto split: if_splits)
      with 2(3) [OF _ f(1) refl refl refl refl f(2,3) tot] True 2(4) f tot l show ?thesis by simp
    qed
  qed (use 2 in simp)
qed simp

lemma joinParts_length: "joinParts i ps = Inr out \<Longrightarrow> length out = sum_list (map (length \<circ> snd) ps)"
  by (induction ps arbitrary: i out) (auto split: if_splits)

lemma b64_undigits_length: "b64_undigits ds = Some bs \<Longrightarrow> length bs \<le> length ds"
  by (induction ds arbitrary: bs rule: b64_undigits.induct) auto

lemma lookup_all_length: "lookup_all alpha s = Some ds \<Longrightarrow> length ds = length s"
  by (induction s arbitrary: ds) (auto split: option.splits)

lemma rawurl_decode_length:
  assumes "rawurl_decode s = Some b"
  shows "length b \<le> length s"
proof -
  obtain ds bs where d: "lookup_all b64_url (skip_newlines s) = Some ds" "b64_undigits ds = Some bs" "b = nat_bytes bs"
    using assms by (auto simp: rawurl_decode_def split: option.splits)
  have "length (skip_newlines s) \<le> length s" by (simp add: skip_newlines_def)
  with lookup_all_length [OF d(1)] b64_undigits_length [OF d(2)] d(3) show ?thesis by (simp add: nat_bytes_def)
qed

lemma reassembleChunks_length:
  assumes "reassembleChunks vs = Inr b"
  shows "length b \<le> sum_list (map length vs)"
proof -
  obtain tot parts encoded where p: "scanChunks vs (-1) [] = Inr (tot, parts)" "joinParts 0 (sort_key fst parts) = Inr encoded"
    "rawurl_decode encoded = Some b"
    using assms by (auto simp: reassembleChunks_def split: if_splits option.splits)
  have "sum_list (map (length \<circ> snd) (sort_key fst parts)) = sum_list (map (length \<circ> snd) parts)"
    by (metis mset_map mset_sort sum_mset_sum_list)
  with joinParts_length [OF p(2)] scanChunks_length [OF p(1)] rawurl_decode_length [OF p(3)] show ?thesis by simp
qed

section \<open>Properties\<close>


definition fine_io :: fileIO where
  "fine_io = \<lparr>fi_ctx = None, fi_open = None, fi_read = None, fi_mkdir = None, fi_write = None, fi_stat = None, fi_mtime = 0\<rparr>"


end
