(* ===== verification/Config.thy ===== *)
theory Config
  imports Drops
begin

text \<open>
  Reading, defaulting, validating and writing the configuration (\<open>src/internal/config/config.go\<close>). The
  TOML library is a parameter: a decoder that overwrites the fields the text sets, and an encoder.
\<close>

section \<open>Defaults\<close>

definition Default :: Config where
  "Default =
     \<lparr>c_Wireguard = \<lparr>wc_Name = [], wc_PublicKey = [], wc_PrivateKey = [], wc_Interface = DefaultInterface,
        wc_ListenPort = 0, wc_MTU = DefaultMTU, wc_Keepalive = no_duration\<rparr>,
      c_Directory = \<lparr>dc_NetworkIdentity = [], dc_PublisherPubKey = [], dc_PublisherKey = []\<rparr>,
      c_Drop = \<lparr>dr_Admin = zero_DropBackend, dr_Client = zero_DropBackend\<rparr>,
      c_Sync = \<lparr>sc_Interval = NewDuration DefaultInterval, sc_StateDir = DefaultStateDir, sc_PIDFile = DefaultPIDFile,
        sc_MaxDirectoryAge = no_duration\<rparr>,
      c_Observe = \<lparr>oc_Enabled = None, oc_HandshakeFresh = no_duration, oc_RefreshInterval = no_duration\<rparr>,
      c_Discovery = \<lparr>xc_Enabled = None, xc_MulticastIPv4 = DefaultDiscoveryMulticastIPv4,
        xc_MulticastIPv6 = DefaultDiscoveryMulticastIPv6, xc_BeaconInterval = NewDuration DefaultDiscoveryBeaconInterval,
        xc_BeaconTTL = NewDuration DefaultDiscoveryBeaconTTL\<rparr>,
      c_DNS = \<lparr>nc_ManageHosts = None, nc_Serve = None, nc_Upstream = [], nc_HostsPath = []\<rparr>\<rparr>"

definition applyBackendDefaults :: "DropBackend \<Rightarrow> DropBackend" where
  "applyBackendDefaults b0 =
     (let b1 = (if db_Type b0 = ''s3'' \<and> db_ObjectKey b0 = [] then b0\<lparr>db_ObjectKey := ''directory.bin''\<rparr> else b0);
          b2 = (if db_Type b1 = ''dns'' then
                  let b = (if db_RecordName b1 = [] then b1\<lparr>db_RecordName := ''_tincan''\<rparr> else b1)
                  in if db_Provider b \<noteq> [] \<and> db_TTL b = 0
                     then b\<lparr>db_TTL := (if db_Provider b = ''desec'' then 3600 else 300)\<rparr> else b
                else b1)
      in if db_Type b2 = ''nostr'' \<and> db_Identifier b2 = [] then b2\<lparr>db_Identifier := ''_tincan''\<rparr> else b2)"

definition defaultWireguard :: "WireguardConfig \<Rightarrow> WireguardConfig" where
  "defaultWireguard w =
     w\<lparr>wc_Interface := (if wc_Interface w = [] then DefaultInterface else wc_Interface w),
       wc_MTU := (if wc_MTU w = 0 then DefaultMTU else wc_MTU w)\<rparr>"

definition defaultSync :: "SyncConfig \<Rightarrow> SyncConfig" where
  "defaultSync s =
     s\<lparr>sc_Interval := (if \<not> od_Set (sc_Interval s) then NewDuration DefaultInterval else sc_Interval s),
       sc_StateDir := (if sc_StateDir s = [] then DefaultStateDir else sc_StateDir s),
       sc_PIDFile := (if sc_PIDFile s = [] then DefaultPIDFile else sc_PIDFile s)\<rparr>"

definition defaultDiscovery :: "DiscoveryConfig \<Rightarrow> DiscoveryConfig" where
  "defaultDiscovery d =
     d\<lparr>xc_MulticastIPv4 := (if xc_MulticastIPv4 d = [] then DefaultDiscoveryMulticastIPv4 else xc_MulticastIPv4 d),
       xc_MulticastIPv6 := (if xc_MulticastIPv6 d = [] then DefaultDiscoveryMulticastIPv6 else xc_MulticastIPv6 d),
       xc_BeaconInterval := (if \<not> od_Set (xc_BeaconInterval d) then NewDuration DefaultDiscoveryBeaconInterval else xc_BeaconInterval d),
       xc_BeaconTTL := (if \<not> od_Set (xc_BeaconTTL d) then NewDuration DefaultDiscoveryBeaconTTL else xc_BeaconTTL d)\<rparr>"

definition ApplyDefaults :: "Config \<Rightarrow> Config" where
  "ApplyDefaults c =
     c\<lparr>c_Wireguard := defaultWireguard (c_Wireguard c),
       c_Drop := \<lparr>dr_Admin = applyBackendDefaults (dr_Admin (c_Drop c)), dr_Client = applyBackendDefaults (dr_Client (c_Drop c))\<rparr>,
       c_Sync := defaultSync (c_Sync c),
       c_Discovery := defaultDiscovery (c_Discovery c)\<rparr>"

section \<open>Validation\<close>

definition isLoopbackHost :: "string \<Rightarrow> bool" where
  "isLoopbackHost host =
     (if host = ''localhost'' then True
      else case net_ParseIP host of None \<Rightarrow> False | Some ip \<Rightarrow> ip_IsLoopback ip)"

definition rejectBackendFields :: "string list \<Rightarrow> unit res" where
  "rejectBackendFields values =
     (if list_ex (\<lambda>v. v \<noteq> []) values then Inl (Err ''contains fields not valid for this type'') else Inr ())"

definition validateFileBackend :: "DropBackend \<Rightarrow> unit res" where
  "validateFileBackend b =
     (if db_Path b = [] then Inl (Err ''path is required for file drops'')
      else rejectBackendFields
        [db_Endpoint b, db_Region b, db_Bucket b, db_ObjectKey b, db_AccessKey b, db_SecretKey b, db_URL b, db_Username b,
         db_Password b, db_Provider b, db_Zone b, db_RecordName b, db_APIToken b, db_AppKey b, db_AppSecret b,
         db_ConsumerKey b, db_Resolver b])"

definition validateHTTPBackend :: "DropBackend \<Rightarrow> unit res" where
  "validateHTTPBackend b =
     (if db_URL b = [] then Inl (Err ''url is required for http drops'')
      else case url_Parse (db_URL b) of
        None \<Rightarrow> Inl (Wrap ''invalid http drop url'' (Err ''url''))
      | Some u \<Rightarrow>
          if u_Scheme u \<noteq> ''http'' \<and> u_Scheme u \<noteq> ''https'' then Inl (Err ''http drop url must be http or https'')
          else if (db_Username b \<noteq> [] \<or> db_Password b \<noteq> [] \<or> u_User u \<noteq> None) \<and> u_Scheme u = ''http'' \<and>
                  \<not> isLoopbackHost (url_Hostname u)
          then Inl (Err ''http drop sends credentials in cleartext; use https (or omit credentials)'')
          else rejectBackendFields
            [db_Endpoint b, db_Region b, db_Bucket b, db_ObjectKey b, db_AccessKey b, db_SecretKey b, db_Path b,
             db_Provider b, db_Zone b, db_RecordName b, db_APIToken b, db_AppKey b, db_AppSecret b, db_ConsumerKey b,
             db_Resolver b])"

definition validateS3Backend :: "DropBackend \<Rightarrow> unit res" where
  "validateS3Backend b =
     (if db_Endpoint b = [] then Inl (Err ''endpoint is required for s3 drops'')
      else if db_Bucket b = [] then Inl (Err ''bucket is required for s3 drops'')
      else if (db_AccessKey b = []) \<noteq> (db_SecretKey b = []) then Inl (Err ''access_key and secret_key must be provided together'')
      else rejectBackendFields
        [db_URL b, db_Username b, db_Password b, db_Path b, db_Provider b, db_Zone b, db_RecordName b, db_APIToken b,
         db_AppKey b, db_AppSecret b, db_ConsumerKey b, db_Resolver b])"

definition validateDNSProvider :: "DropBackend \<Rightarrow> unit res" where
  "validateDNSProvider b =
     (let ovhKeys = (db_AppKey b \<noteq> [] \<or> db_AppSecret b \<noteq> [] \<or> db_ConsumerKey b \<noteq> []);
          awsKeys = (db_AccessKey b \<noteq> [] \<or> db_SecretKey b \<noteq> [])
      in if db_Provider b = [] then
           (if db_APIToken b \<noteq> [] \<or> ovhKeys \<or> awsKeys then Inl (Err ''dns write credentials are set but no provider is configured'')
            else if db_Endpoint b \<noteq> [] then Inl (Err ''endpoint is only used by the ovh dns provider'')
            else Inr ())
         else if db_Provider b = ''ovh'' then
           (if db_AppKey b = [] \<or> db_AppSecret b = [] \<or> db_ConsumerKey b = [] then Inl (Err ''ovh dns provider requires keys'')
            else if db_APIToken b \<noteq> [] then Inl (Err ''api_token is not used by the ovh dns provider'')
            else if awsKeys then Inl (Err ''access_key/secret_key are not used by the ovh dns provider'')
            else Inr ())
         else if db_Provider b = ''route53'' then
           (if db_AccessKey b = [] \<or> db_SecretKey b = [] then Inl (Err ''route53 dns provider requires keys'')
            else if db_APIToken b \<noteq> [] then Inl (Err ''api_token is not used by the route53 dns provider'')
            else if ovhKeys then Inl (Err ''app keys are only used by the ovh dns provider'')
            else if db_Endpoint b \<noteq> [] then Inl (Err ''endpoint is only used by the ovh dns provider'')
            else Inr ())
         else
           (if \<not> Supported (db_Provider b) then Inl (Err ''unsupported dns provider'')
            else if db_APIToken b = [] then Inl (Err ''api_token is required for dns provider'')
            else if ovhKeys then Inl (Err ''app keys are only used by the ovh dns provider'')
            else if awsKeys then Inl (Err ''access_key/secret_key are only used by the route53 dns provider'')
            else if db_Endpoint b \<noteq> [] then Inl (Err ''endpoint is only used by the ovh dns provider'')
            else Inr ()))"

definition validateDNSBackend :: "DropBackend \<Rightarrow> unit res" where
  "validateDNSBackend b =
     (if db_Zone b = [] then Inl (Err ''zone is required for dns drops'')
      else bindR (validateDNSProvider b) (\<lambda>_.
        rejectBackendFields [db_Region b, db_Bucket b, db_ObjectKey b, db_URL b, db_Username b, db_Password b, db_Path b]))"

fun validateRelays :: "string list \<Rightarrow> unit res" where
  "validateRelays [] = Inr ()"
| "validateRelays (r # rs) = bindR (NormalizeRelayURL r) (\<lambda>_. validateRelays rs)"

definition validateNostrBackend :: "curve \<Rightarrow> DropBackend \<Rightarrow> unit res" where
  "validateNostrBackend C b =
     (if db_Relays b = [] then Inl (Err ''relays is required for nostr drops'')
      else bindR (validateRelays (db_Relays b)) (\<lambda>_.
        if db_Author b = [] then Inl (Err ''author is required for nostr drops'')
        else bindR (wrapR ''invalid nostr author'' (ParsePublicKey C (db_Author b))) (\<lambda>authorHex.
          bindR
            (if db_Nsec b \<noteq> [] then
               bindR (wrapR ''invalid nostr nsec'' (ParseSecretKey C (db_Nsec b))) (\<lambda>sk.
                 if PublicKeyHex C sk \<noteq> authorHex then Inl (Err ''nostr nsec does not match author public key'') else Inr ())
             else Inr ())
            (\<lambda>_. rejectBackendFields
               [db_Endpoint b, db_Region b, db_Bucket b, db_ObjectKey b, db_AccessKey b, db_SecretKey b, db_URL b,
                db_Username b, db_Password b, db_Path b, db_Provider b, db_Zone b, db_RecordName b, db_APIToken b,
                db_AppKey b, db_AppSecret b, db_ConsumerKey b, db_Resolver b]))))"

definition validateDropBackend :: "curve \<Rightarrow> DropBackend \<Rightarrow> unit res" where
  "validateDropBackend C b =
     (if db_Type b \<noteq> ''nostr'' \<and> (db_Relays b \<noteq> [] \<or> db_Author b \<noteq> [] \<or> db_Nsec b \<noteq> [] \<or> db_Identifier b \<noteq> [])
      then Inl (Err ''relays/author/nsec/identifier are only valid for nostr drops'')
      else if db_Type b = ''file'' then validateFileBackend b
      else if db_Type b = ''http'' then validateHTTPBackend b
      else if db_Type b = ''s3'' then validateS3Backend b
      else if db_Type b = ''dns'' then validateDNSBackend b
      else if db_Type b = ''nostr'' then validateNostrBackend C b
      else Inl (Err ''unsupported type''))"

definition validateHostPort :: "string \<Rightarrow> unit res" where
  "validateHostPort addr =
     (let (host, portStr) = (case splitHostPort addr of None \<Rightarrow> (addr, []) | Some hp \<Rightarrow> hp)
      in if host = [] then Inl (Err ''empty host'')
         else if containsAny host [CHR '' '', CHR 0x09, CHR 0x0A] then Inl (Err ''invalid host'')
         else if portStr \<noteq> [] \<and> \<not> (case atoi portStr of Some port \<Rightarrow> 1 \<le> port \<and> port \<le> 65535 | None \<Rightarrow> False)
         then Inl (Err ''invalid port'')
         else Inr ())"

definition validateDNS :: "DNSConfig \<Rightarrow> unit res" where
  "validateDNS d =
     bindR (if nc_Upstream d \<noteq> [] then wrapR ''upstream'' (validateHostPort (nc_Upstream d)) else Inr ()) (\<lambda>_.
       if nc_HostsPath d \<noteq> [] \<and> \<not> hasPrefix (nc_HostsPath d) ''/'' then Inl (Err ''hosts_path must be absolute'') else Inr ())"

definition validateMulticastAddr :: "string \<Rightarrow> bool \<Rightarrow> unit res" where
  "validateMulticastAddr addr wantV6 =
     (case splitHostPort addr of
        None \<Rightarrow> Inl (Wrap ''parse'' (Err ''address''))
      | Some (host, portStr) \<Rightarrow>
          if \<not> (case atoi portStr of Some port \<Rightarrow> 0 < port \<and> port \<le> 65535 | None \<Rightarrow> False) then Inl (Err ''invalid port'')
          else (case net_ParseIP host of
                  None \<Rightarrow> Inl (Err ''invalid IP'')
                | Some ip \<Rightarrow>
                    if \<not> ip_IsMulticast ip then Inl (Err ''not a multicast address'')
                    else if wantV6 \<and> ip_To4 ip \<noteq> None then Inl (Err ''not an IPv6 address'')
                    else if \<not> wantV6 \<and> ip_To4 ip = None then Inl (Err ''not an IPv4 address'')
                    else Inr ()))"

text \<open>\<open>2*interval\<close> is a 64-bit product that wraps.\<close>

definition mul64 :: "int \<Rightarrow> duration \<Rightarrow> duration" where
  "mul64 k d = sint (word_of_int (k * d) :: 64 word)"

definition validateDiscovery :: "DiscoveryConfig \<Rightarrow> unit res" where
  "validateDiscovery d =
     bindR (wrapR ''multicast_ipv4'' (validateMulticastAddr (xc_MulticastIPv4 d) False)) (\<lambda>_.
     bindR (wrapR ''multicast_ipv6'' (validateMulticastAddr (xc_MulticastIPv6 d) True)) (\<lambda>_.
       let interval = od_Or (xc_BeaconInterval d) DefaultDiscoveryBeaconInterval;
           ttl = od_Or (xc_BeaconTTL d) DefaultDiscoveryBeaconTTL
       in if interval \<le> 0 then Inl (Err ''beacon_interval must be positive'')
          else if ttl < mul64 2 interval then Inl (Err ''beacon_ttl must be at least 2x beacon_interval'')
          else Inr ()))"

definition validateWireguard :: "wglib \<Rightarrow> WireguardConfig \<Rightarrow> unit res" where
  "validateWireguard W w =
     (if trimSpace (wc_Name w) = [] then Inl (Err ''[wireguard].name is required'')
      else if trimSpace (wc_PrivateKey w) = [] then Inl (Err ''[wireguard].private_key is required'')
      else if trimSpace (wc_PublicKey w) = [] then Inl (Err ''[wireguard].public_key is required'')
      else bindR (ParseWGPrivate W (wc_PrivateKey w)) (\<lambda>_.
           bindR (ParseWGPublic W (wc_PublicKey w)) (\<lambda>_.
           bindR (PublicKeyFromWGPrivate W (wc_PrivateKey w)) (\<lambda>derived.
             if derived \<noteq> wc_PublicKey w then Inl (Err ''[wireguard].public_key does not match private_key'')
             else if wc_ListenPort w < 0 \<or> wc_ListenPort w > 65535 then Inl (Err ''[wireguard].listen_port out of range'')
             else if wc_MTU w \<le> 0 then Inl (Err ''[wireguard].mtu must be positive'')
             else Inr ()))))"

definition validateDirectoryKeys :: "libs \<Rightarrow> DirectoryConfig \<Rightarrow> unit res" where
  "validateDirectoryKeys L d =
     (if trimSpace (dc_NetworkIdentity d) = [] then Inl (Err ''[directory].network_identity is required'')
      else bindR (ParseAgeIdentity (l_age L) (dc_NetworkIdentity d)) (\<lambda>_.
        if trimSpace (dc_PublisherPubKey d) = [] then Inl (Err ''[directory].publisher_pubkey is required'')
        else bindR (DecodeEd25519Public (dc_PublisherPubKey d)) (\<lambda>_.
          if dc_PublisherKey d \<noteq> [] then ValidateEd25519Pair (l_ed L) (dc_PublisherPubKey d) (dc_PublisherKey d) else Inr ())))"

definition config_Validate :: "libs \<Rightarrow> curve \<Rightarrow> Config \<Rightarrow> bool \<Rightarrow> unit res" where
  "config_Validate L C c allowIncomplete =
     bindR (validateWireguard (l_wg L) (c_Wireguard c)) (\<lambda>_.
       if allowIncomplete then Inr ()
       else bindR (validateDirectoryKeys L (c_Directory c)) (\<lambda>_.
         bindR (if db_Type (dr_Admin (c_Drop c)) \<noteq> [] then wrapR ''[drop.admin]'' (validateDropBackend C (dr_Admin (c_Drop c))) else Inr ()) (\<lambda>_.
         bindR (wrapR ''[drop.client]'' (validateDropBackend C (dr_Client (c_Drop c)))) (\<lambda>_.
         bindR (wrapR ''[discovery]'' (validateDiscovery (c_Discovery c))) (\<lambda>_.
           wrapR ''[dns]'' (validateDNS (c_DNS c)))))))"

definition RequireAdmin :: "libs \<Rightarrow> Config \<Rightarrow> unit res" where
  "RequireAdmin L c =
     (if trimSpace (dc_PublisherKey (c_Directory c)) = [] then Inl (Err ''admin publisher key is required for this command'')
      else if db_Type (dr_Admin (c_Drop c)) = [] then Inl (Err ''[drop.admin] is required for this command'')
      else ValidateEd25519Pair (l_ed L) (dc_PublisherPubKey (c_Directory c)) (dc_PublisherKey (c_Directory c)))"

section \<open>Files\<close>

datatype decodeError = StrictMissing "(string list \<times> int) list" | DecodeError error

definition explainDecodeError :: "decodeError \<Rightarrow> error" where
  "explainDecodeError e =
     (case e of
        DecodeError err \<Rightarrow> err
      | StrictMissing items \<Rightarrow>
          (case items of [] \<Rightarrow> Err ''strict'' | [_] \<Rightarrow> Err ''unknown field'' | _ \<Rightarrow> Err ''unknown fields''))"

record tomlLib =
  tl_Decode :: "bytes \<Rightarrow> Config \<Rightarrow> decodeError + Config"
  tl_Encode :: "Config \<Rightarrow> bytes res"

definition load :: "libs \<Rightarrow> curve \<Rightarrow> tomlLib \<Rightarrow> bytes res \<Rightarrow> bool \<Rightarrow> Config res" where
  "load L C T file allowIncomplete =
     bindR (wrapR ''open config'' file) (\<lambda>text.
       case tl_Decode T text Default of
         Inl e \<Rightarrow> Inl (Wrap ''decode config'' (explainDecodeError e))
       | Inr cfg0 \<Rightarrow>
           (let cfg = ApplyDefaults cfg0
            in bindR (config_Validate L C cfg allowIncomplete) (\<lambda>_. Inr cfg)))"

definition config_Load :: "libs \<Rightarrow> curve \<Rightarrow> tomlLib \<Rightarrow> bytes res \<Rightarrow> Config res" where
  "config_Load L C T file = load L C T file False"

definition LoadIncomplete :: "libs \<Rightarrow> curve \<Rightarrow> tomlLib \<Rightarrow> bytes res \<Rightarrow> Config res" where
  "LoadIncomplete L C T file = load L C T file True"

text \<open>The first line that is not blank decides.\<close>

definition isRedundantParentHeader :: "string \<Rightarrow> string list \<Rightarrow> bool" where
  "isRedundantParentHeader line0 rest =
     (let line = trimSpace line0
      in if length line < 3 \<or> hd line \<noteq> CHR ''['' \<or> last line \<noteq> CHR '']'' then False
         else let inner = butlast (tl line)
              in if CHR ''.'' \<in> set inner then False
                 else case filter (\<lambda>l. trimSpace l \<noteq> []) rest of
                        [] \<Rightarrow> False
                      | next # _ \<Rightarrow> hasPrefix (trimSpace next) (''['' @ inner @ ''.''))"

fun stripLines :: "string list \<Rightarrow> string list" where
  "stripLines [] = []"
| "stripLines (l # ls) = (if isRedundantParentHeader l ls then stripLines ls else l # stripLines ls)"

definition stripRedundantParentHeaders :: "bytes \<Rightarrow> bytes" where
  "stripRedundantParentHeaders dat = joinWith [NL] (stripLines (splitOn NL dat))"

record confIO =
  co_mkdir :: "error option"
  co_write :: "error option"

definition writeConfig :: "tomlLib \<Rightarrow> confIO \<Rightarrow> string \<Rightarrow> Config \<Rightarrow> fileSystem \<Rightarrow> fileSystem \<times> error option" where
  "writeConfig T io path cfg fs =
     (case tl_Encode T cfg of
        Inl e \<Rightarrow> (fs, Some (Wrap ''encode config'' e))
      | Inr buf \<Rightarrow>
          (case co_mkdir io of
             Some e \<Rightarrow> (fs, Some (Wrap ''create config directory'' e))
           | None \<Rightarrow>
               (case co_write io of
                  Some e \<Rightarrow> (fs, Some (Wrap ''write config'' e))
                | None \<Rightarrow> (fs(path \<mapsto> stripRedundantParentHeaders buf), None))))"

definition config_Save :: "tomlLib \<Rightarrow> confIO \<Rightarrow> string \<Rightarrow> Config \<Rightarrow> fileSystem \<Rightarrow> fileSystem \<times> error option" where
  "config_Save T io path cfg0 fs =
     (let cfg = ApplyDefaults cfg0;
          d = c_DNS cfg;
          d' = d\<lparr>nc_ManageHosts := (if nc_ManageHosts d = None then Some True else nc_ManageHosts d),
                 nc_HostsPath := (if nc_HostsPath d = [] then ''/etc/hosts'' else nc_HostsPath d)\<rparr>
      in writeConfig T io path (cfg\<lparr>c_DNS := d'\<rparr>) fs)"

definition SaveMinimal :: "tomlLib \<Rightarrow> confIO \<Rightarrow> string \<Rightarrow> Config \<Rightarrow> fileSystem \<Rightarrow> fileSystem \<times> error option" where
  "SaveMinimal T io path cfg fs = writeConfig T io path cfg fs"

section \<open>Skeletons\<close>

definition SkeletonDrop :: "string \<Rightarrow> DropConfig" where
  "SkeletonDrop dropType =
     (if dropType = ''s3'' then
        (let client = zero_DropBackend\<lparr>db_Type := ''s3'', db_Endpoint := ''s3.amazonaws.com'', db_Region := ''us-east-1'',
               db_Bucket := ''my-tincan-net'', db_ObjectKey := ''directory.bin'', db_TLS := Some True\<rparr>
         in \<lparr>dr_Admin = client\<lparr>db_AccessKey := ''admin-access-key'', db_SecretKey := ''admin-secret-key''\<rparr>, dr_Client = client\<rparr>)
      else if dropType = ''http'' then
        \<lparr>dr_Admin = zero_DropBackend\<lparr>db_Type := ''file'', db_Path := DefaultStateDir @ ''/publish/directory.bin''\<rparr>,
         dr_Client = zero_DropBackend\<lparr>db_Type := ''http'', db_URL := ''https://example.com/_vpn/directory''\<rparr>\<rparr>
      else if dropType = ''file'' then
        (let b = zero_DropBackend\<lparr>db_Type := ''file'', db_Path := ''/mnt/shared/tincan/directory.bin''\<rparr>
         in \<lparr>dr_Admin = b, dr_Client = b\<rparr>)
      else if dropType = ''dns'' then
        (let client = zero_DropBackend\<lparr>db_Type := ''dns'', db_Zone := ''example.com'', db_RecordName := ''_tincan''\<rparr>
         in \<lparr>dr_Admin = client\<lparr>db_Provider := ''linode'', db_APIToken := ''YOUR-LINODE-API-TOKEN'', db_TTL := 300\<rparr>, dr_Client = client\<rparr>)
      else if dropType = ''nostr'' then
        (let client = zero_DropBackend\<lparr>db_Type := ''nostr'', db_Relays := [''wss://relay.damus.io'', ''wss://nos.lol''],
               db_Author := ''npub10elfcs4fr0l0r8af98jlmgdh9c8tcxjvz9qkw038js35mp4dma8qzvjptg'', db_Identifier := ''_tincan''\<rparr>
         in \<lparr>dr_Admin = client\<lparr>db_Nsec := ''nsec1vl029mgpspedva04g90vltkh6fvh240zqtv9k0t9af8935ke9laqsnlfe5''\<rparr>, dr_Client = client\<rparr>)
      else (let b = zero_DropBackend\<lparr>db_Type := dropType\<rparr> in \<lparr>dr_Admin = b, dr_Client = b\<rparr>))"

definition SkeletonClientDrop :: "string \<Rightarrow> DropConfig" where
  "SkeletonClientDrop dropType = \<lparr>dr_Admin = zero_DropBackend, dr_Client = dr_Client (SkeletonDrop dropType)\<rparr>"

section \<open>Defaults are filled in once\<close>

lemma applyBackendDefaults_cases:
  "db_Type b = ''s3'' \<Longrightarrow> applyBackendDefaults b = (if db_ObjectKey b = [] then b\<lparr>db_ObjectKey := ''directory.bin''\<rparr> else b)"
  "db_Type b = ''nostr'' \<Longrightarrow> applyBackendDefaults b = (if db_Identifier b = [] then b\<lparr>db_Identifier := ''_tincan''\<rparr> else b)"
  "db_Type b \<notin> {''s3'', ''dns'', ''nostr''} \<Longrightarrow> applyBackendDefaults b = b"
  "db_Type b = ''dns'' \<Longrightarrow> db_RecordName b \<noteq> [] \<Longrightarrow> applyBackendDefaults b =
     (if db_Provider b \<noteq> [] \<and> db_TTL b = 0 then b\<lparr>db_TTL := (if db_Provider b = ''desec'' then 3600 else 300)\<rparr> else b)"
  "db_Type b = ''dns'' \<Longrightarrow> db_RecordName b = [] \<Longrightarrow> applyBackendDefaults b = applyBackendDefaults (b\<lparr>db_RecordName := ''_tincan''\<rparr>)"
  by (simp_all add: applyBackendDefaults_def Let_def)

lemma applyBackendDefaults_Type [simp]: "db_Type (applyBackendDefaults b) = db_Type b"
proof -
  consider "db_Type b = ''s3''" | "db_Type b = ''nostr''" | "db_Type b = ''dns''" | "db_Type b \<notin> {''s3'', ''dns'', ''nostr''}" by blast
  then show ?thesis
  proof cases
    case 3
    then show ?thesis by (cases "db_RecordName b = []") (simp_all add: applyBackendDefaults_cases)
  qed (simp_all add: applyBackendDefaults_cases)
qed

lemma applyBackendDefaults_idem [simp]: "applyBackendDefaults (applyBackendDefaults b) = applyBackendDefaults b"
proof -
  have d: "applyBackendDefaults (applyBackendDefaults b) = applyBackendDefaults b"
    if "db_Type b = ''dns''" "db_RecordName b \<noteq> []" for b using that by (simp add: applyBackendDefaults_cases)
  consider "db_Type b = ''s3''" | "db_Type b = ''nostr''" | "db_Type b = ''dns''" | "db_Type b \<notin> {''s3'', ''dns'', ''nostr''}" by blast
  then show ?thesis
  proof cases
    case 3
    show ?thesis
    proof (cases "db_RecordName b = []")
      case True
      show ?thesis unfolding applyBackendDefaults_cases(5) [OF 3 True] by (rule d) (simp_all add: 3)
    qed (use d 3 in blast)
  qed (simp_all add: applyBackendDefaults_cases)
qed

lemma default_sections_idem [simp]:
  "defaultWireguard (defaultWireguard w) = defaultWireguard w"
  "defaultSync (defaultSync y) = defaultSync y"
  "defaultDiscovery (defaultDiscovery d) = defaultDiscovery d"
  by (simp_all add: defaultWireguard_def defaultSync_def defaultDiscovery_def DefaultInterface_def DefaultMTU_def
      DefaultStateDir_def DefaultPIDFile_def DefaultDiscoveryMulticastIPv4_def DefaultDiscoveryMulticastIPv6_def NewDuration_def)

lemma ApplyDefaults_idem: "ApplyDefaults (ApplyDefaults c) = ApplyDefaults c"
  by (simp add: ApplyDefaults_def)

section \<open>What a loaded configuration guarantees\<close>

text \<open>
  The defaults, as a table of literal values: a setting that the file left at its zero value gets the value listed here, and every
  other setting keeps the value of the file.
\<close>

definition given_or :: "string \<Rightarrow> string \<Rightarrow> string" where
  "given_or v d = (if v = [] then d else v)"

definition seconds_unless_set :: "OptionalDuration \<Rightarrow> int \<Rightarrow> OptionalDuration" where
  "seconds_unless_set d n = (if od_Set d then d else \<lparr>od_Duration = n * 1000000000, od_Set = True\<rparr>)"

definition backend_defaulted :: "DropBackend \<Rightarrow> DropBackend \<Rightarrow> bool" where
  "backend_defaulted b b' \<longleftrightarrow>
     db_ObjectKey b' = (if db_Type b = ''s3'' then given_or (db_ObjectKey b) ''directory.bin'' else db_ObjectKey b) \<and>
     db_RecordName b' = (if db_Type b = ''dns'' then given_or (db_RecordName b) ''_tincan'' else db_RecordName b) \<and>
     db_Identifier b' = (if db_Type b = ''nostr'' then given_or (db_Identifier b) ''_tincan'' else db_Identifier b) \<and>
     db_TTL b' = (if db_Type b \<noteq> ''dns'' \<or> db_Provider b = [] \<or> db_TTL b \<noteq> 0 then db_TTL b
                  else if db_Provider b = ''desec'' then 3600 else 300) \<and>
     b'\<lparr>db_ObjectKey := db_ObjectKey b, db_RecordName := db_RecordName b, db_Identifier := db_Identifier b, db_TTL := db_TTL b\<rparr> = b"

definition config_defaulted :: "Config \<Rightarrow> Config \<Rightarrow> bool" where
  "config_defaulted c c' \<longleftrightarrow>
     (let w = c_Wireguard c; y = c_Sync c; x = c_Discovery c in
       c_Wireguard c' = w\<lparr>wc_Interface := given_or (wc_Interface w) ''tincan0'', wc_MTU := (if wc_MTU w = 0 then 1420 else wc_MTU w)\<rparr> \<and>
       c_Sync c' = y\<lparr>sc_Interval := seconds_unless_set (sc_Interval y) 300,
         sc_StateDir := given_or (sc_StateDir y) ''/var/lib/tincan'', sc_PIDFile := given_or (sc_PIDFile y) ''/run/tincan.pid''\<rparr> \<and>
       c_Discovery c' = x\<lparr>xc_MulticastIPv4 := given_or (xc_MulticastIPv4 x) ''239.255.84.67:51821'',
         xc_MulticastIPv6 := given_or (xc_MulticastIPv6 x) ''[ff02::1:8443]:51821'',
         xc_BeaconInterval := seconds_unless_set (xc_BeaconInterval x) 30, xc_BeaconTTL := seconds_unless_set (xc_BeaconTTL x) 90\<rparr>) \<and>
     backend_defaulted (dr_Admin (c_Drop c)) (dr_Admin (c_Drop c')) \<and> backend_defaulted (dr_Client (c_Drop c)) (dr_Client (c_Drop c')) \<and>
     c_Directory c' = c_Directory c \<and> c_Observe c' = c_Observe c \<and> c_DNS c' = c_DNS c"

lemma backend_defaulted_kept:
  assumes "backend_defaulted b b'"
  shows "db_Type b' = db_Type b" "db_Provider b' = db_Provider b"
proof -
  have e: "b'\<lparr>db_ObjectKey := db_ObjectKey b, db_RecordName := db_RecordName b, db_Identifier := db_Identifier b, db_TTL := db_TTL b\<rparr> = b"
    using assms by (simp add: backend_defaulted_def)
  show "db_Type b' = db_Type b" "db_Provider b' = db_Provider b"
    using arg_cong [OF e, of db_Type] arg_cong [OF e, of db_Provider] by simp_all
qed

lemma applyBackendDefaults_table: "backend_defaulted b (applyBackendDefaults b)"
proof -
  consider "db_Type b = ''s3''" | "db_Type b = ''nostr''" | "db_Type b = ''dns''" | "db_Type b \<notin> {''s3'', ''dns'', ''nostr''}" by blast
  then show ?thesis
  proof cases
    case 3
    then show ?thesis by (cases "db_RecordName b = []") (simp_all add: backend_defaulted_def given_or_def applyBackendDefaults_cases)
  qed (simp_all add: backend_defaulted_def given_or_def applyBackendDefaults_cases)
qed

lemma ApplyDefaults_table: "config_defaulted c (ApplyDefaults c)"
  by (simp add: config_defaulted_def Let_def applyBackendDefaults_table ApplyDefaults_def given_or_def seconds_unless_set_def
      defaultWireguard_def defaultSync_def defaultDiscovery_def DefaultInterface_def DefaultMTU_def DefaultInterval_def DefaultStateDir_def
      DefaultPIDFile_def DefaultDiscoveryMulticastIPv4_def DefaultDiscoveryMulticastIPv6_def DefaultDiscoveryBeaconInterval_def
      DefaultDiscoveryBeaconTTL_def NewDuration_def)

definition wireguard_ok :: "wglib \<Rightarrow> WireguardConfig \<Rightarrow> bool" where
  "wireguard_ok W w \<longleftrightarrow> trimSpace (wc_Name w) \<noteq> [] \<and> PublicKeyFromWGPrivate W (wc_PrivateKey w) = Inr (wc_PublicKey w) \<and>
     is_ok (ParseWGPublic W (wc_PublicKey w)) \<and> 0 \<le> wc_ListenPort w \<and> wc_ListenPort w \<le> 65535 \<and> 0 < wc_MTU w"

lemma validateWireguard_ok: "validateWireguard W w = Inr () \<Longrightarrow> wireguard_ok W w"
  by (auto simp: validateWireguard_def wireguard_ok_def is_ok_iff split: if_splits)

lemma rejectBackendFields_Inr [simp]: "rejectBackendFields vs = Inr () \<longleftrightarrow> (\<forall>v \<in> set vs. v = [])"
  by (auto simp: rejectBackendFields_def list_ex_iff)

lemma validateRelays_normalize:
  "validateRelays rs = Inr () \<Longrightarrow> \<exists>out'. normalizeLoop rs out = Inr out' \<and> (rs \<noteq> [] \<or> out \<noteq> [] \<longrightarrow> out' \<noteq> [])"
proof (induction rs arbitrary: out)
  case (Cons r rs)
  then obtain norm where n: "NormalizeRelayURL r = Inr norm" "validateRelays rs = Inr ()" by auto
  let ?out = "if norm \<in> set out then out else out @ [norm]"
  have "?out \<noteq> []" by auto
  with Cons.IH [OF n(2), of ?out] n(1) show ?case by auto
qed simp

lemma newOVH_ok: "is_ok (newOVH cfg) \<longleftrightarrow> pf_Endpoint cfg = [] \<or> pf_Endpoint cfg \<in> fst ` set ovhEndpoints"
proof (cases "pf_Endpoint cfg = []")
  case True
  then show ?thesis by (simp add: newOVH_def ovhEndpoints_def)
next
  case False
  then have "is_ok (newOVH cfg) \<longleftrightarrow> map_of ovhEndpoints (pf_Endpoint cfg) \<noteq> None"
    by (auto simp: newOVH_def split: option.splits)
  then show ?thesis using False by (simp only: map_of_eq_None_iff) simp
qed

lemma validated_dns_opens:
  assumes "validateDNSBackend b = Inr ()"
    and "db_Provider b = ''ovh'' \<Longrightarrow> db_Endpoint b = [] \<or> db_Endpoint b \<in> fst ` set ovhEndpoints"
  shows "is_ok (NewDNS (dnsprovider_New api) lookup b)"
proof (cases "db_Provider b = []")
  case True
  then show ?thesis by (simp add: NewDNS_def Let_def)
next
  case False
  let ?cfg = "\<lparr>pf_Name = db_Provider b, pf_Token = db_APIToken b, pf_AppKey = db_AppKey b,
      pf_AppSecret = db_AppSecret b, pf_ConsumerKey = db_ConsumerKey b, pf_Endpoint = db_Endpoint b,
      pf_AccessKey = db_AccessKey b, pf_SecretKey = db_SecretKey b, pf_TTL = db_TTL b\<rparr>"
  have "Supported ''ovh''" "Supported ''route53''" by code_simp+
  then have "Supported (db_Provider b)"
    using assms(1) False by (auto simp: validateDNSBackend_def validateDNSProvider_def Let_def split: if_splits)
  then have "is_ok (dnsprovider_New api ?cfg)" using assms(2) by (intro dnsprovider_New_ok) (simp_all add: newOVH_ok)
  then show ?thesis using False by (auto simp: NewDNS_def Let_def is_ok_iff)
qed

lemma validated_nostr_opens:
  assumes "validateNostrBackend C b = Inr ()"
  shows "is_ok (NewNostr C (db_Relays b) (db_Author b) (db_Nsec b) (db_Identifier b))"
proof -
  have rs: "db_Relays b \<noteq> []" "validateRelays (db_Relays b) = Inr ()"
    and k: "\<exists>a. ParsePublicKey C (db_Author b) = Inr a \<and>
      (db_Nsec b \<noteq> [] \<longrightarrow> (\<exists>sk. ParseSecretKey C (db_Nsec b) = Inr sk \<and> PublicKeyHex C sk = a))"
    using assms by (auto simp: validateNostrBackend_def split: if_splits)
  obtain norm where n: "normalizeRelays (db_Relays b) = Inr norm" "norm \<noteq> []"
    using validateRelays_normalize [OF rs(2), of "[]"] rs(1) by (auto simp: normalizeRelays_def)
  from k obtain a where a: "ParsePublicKey C (db_Author b) = Inr a"
    "db_Nsec b \<noteq> [] \<Longrightarrow> \<exists>sk. ParseSecretKey C (db_Nsec b) = Inr sk \<and> PublicKeyHex C sk = a" by blast
  show ?thesis
  proof (cases "db_Nsec b = []")
    case True
    then show ?thesis by (simp add: NewNostr_def Let_def n a(1))
  next
    case False
    with a(2) obtain sk where "ParseSecretKey C (db_Nsec b) = Inr sk" "PublicKeyHex C sk = a" by blast
    with False show ?thesis by (simp add: NewNostr_def Let_def n a(1))
  qed
qed

section \<open>Properties\<close>

lemma skeleton_valid:
  "validateDropBackend C (dr_Admin (SkeletonDrop ''dns'')) = Inr ()" "validateDropBackend C (dr_Client (SkeletonDrop ''dns'')) = Inr ()"
  "validateDropBackend C (dr_Admin (SkeletonDrop ''http'')) = Inr ()" "validateDropBackend C (dr_Client (SkeletonDrop ''http'')) = Inr ()"
  "validateDropBackend C (dr_Admin (SkeletonDrop ''s3'')) = Inr ()" "validateDropBackend C (dr_Client (SkeletonDrop ''s3'')) = Inr ()"
  "validateDropBackend C (dr_Admin (SkeletonDrop ''file'')) = Inr ()"
  by code_simp+

text \<open>what validation accepts can be opened: for a drop backend that passes \<open>validateDropBackend\<close>, \<open>drop.New\<close>
  returns a drop. The exceptions are what the validation does not look at: the S3 library's own
  checks, and the name of an OVH endpoint.\<close>

theorem validated_drop_opens:
  assumes "validateDropBackend (dl_curve L) b = Inr ()" and "db_Type b \<noteq> ''s3''"
    and "db_Provider b = ''ovh'' \<longrightarrow> db_Endpoint b = [] \<or> db_Endpoint b \<in> fst ` set ovhEndpoints"
  shows "\<exists>d. drop_New L b = Inr d"
proof -
  consider "db_Type b = ''file''" | "db_Type b = ''http''" | "db_Type b = ''dns''" "validateDNSBackend b = Inr ()"
    | "db_Type b = ''nostr''" "validateNostrBackend (dl_curve L) b = Inr ()"
    using assms(1,2) unfolding validateDropBackend_def by (auto split: if_splits)
  then show ?thesis
  proof cases
    case 3
    then show ?thesis using validated_dns_opens [OF 3(2)] assms(3) by (auto simp: drop_New_def is_ok_iff)
  next
    case 4
    then show ?thesis using validated_nostr_opens [OF 4(2)] by (auto simp: drop_New_def is_ok_iff)
  qed (simp_all add: drop_New_def)
qed

definition demo_dropLibs :: "(TXTRecord list, unit) dropLibs" where
  "demo_dropLibs = \<lparr>dl_minio = (\<lambda>_. Inl (Err ''none'')), dl_api = (\<lambda>_. the (dn_provider demo_zone)),
     dl_lookup = (\<lambda>_. dn_lookup demo_zone), dl_curve = demo_curve\<rparr>"

theorem validated_drop_opens_witness:
  "\<exists>d. drop_New demo_dropLibs (dr_Admin (SkeletonDrop ''dns'')) = Inr d"
  by (rule validated_drop_opens [OF skeleton_valid(1)]) (simp_all add: SkeletonDrop_def Let_def zero_DropBackend_def)

text \<open>with a validated configuration the HTTP drop never sends its credentials in the clear: it sends at
  most one request per read, to the configured URL, and if that request carries credentials then the
  URL is \<open>https\<close> or points at the machine itself. Redirects are refused, not followed.\<close>

theorem http_credentials_protected:
  assumes "validateDropBackend C b = Inr ()" and "db_Type b = ''http''"
    and "http_Get transport (NewHTTP (db_URL b) (db_Username b) (db_Password b)) = (r, sent)"
  shows "length sent \<le> 1 \<and> list_all (\<lambda>req. rq_URL req = db_URL b) sent \<and>
    (\<exists>u. url_Parse (db_URL b) = Some u \<and>
       (list_ex (\<lambda>req. rq_BasicAuth req \<noteq> None) sent \<or> u_User u \<noteq> None \<longrightarrow>
        u_Scheme u = ''https'' \<or> isLoopbackHost (url_Hostname u)))"
proof -
  have "validateHTTPBackend b = Inr ()" using assms(1,2) by (simp add: validateDropBackend_def split: if_splits)
  then obtain u where u: "url_Parse (db_URL b) = Some u" "u_Scheme u = ''http'' \<or> u_Scheme u = ''https''"
    "\<not> ((db_Username b \<noteq> [] \<or> db_Password b \<noteq> [] \<or> u_User u \<noteq> None) \<and> u_Scheme u = ''http'' \<and> \<not> isLoopbackHost (url_Hostname u))"
    by (auto simp: validateHTTPBackend_def split: if_splits option.splits)
  let ?req = "http_auth (NewHTTP (db_URL b) (db_Username b) (db_Password b))
      \<lparr>rq_Method = ''GET'', rq_URL = db_URL b, rq_BasicAuth = None\<rparr>"
  have s: "sent = [?req]"
    using assms(3) u(1) by (auto simp: http_Get_def client_Do_def NewHTTP_def split: sum.splits)
  have "rq_URL ?req = db_URL b" "rq_BasicAuth ?req \<noteq> None \<longleftrightarrow> db_Username b \<noteq> [] \<or> db_Password b \<noteq> []"
    by (auto simp: http_auth_def NewHTTP_def)
  then show ?thesis using u by (auto simp: s)
qed

definition demo_http :: DropBackend where
  "demo_http = zero_DropBackend\<lparr>db_Type := ''http'', db_URL := ''https://example.com/d'', db_Username := ''u''\<rparr>"

lemma demo_http_valid: "validateDropBackend demo_curve demo_http = Inr ()" "db_Type demo_http = ''http''"
  by code_simp+

lemma demo_http_get:
  "http_Get (\<lambda>_. Inl ErrAuth) (NewHTTP (db_URL demo_http) (db_Username demo_http) (db_Password demo_http)) =
     (Inl (Wrap ''HTTP GET'' ErrAuth), [\<lparr>rq_Method = ''GET'', rq_URL = ''https://example.com/d'', rq_BasicAuth = Some (''u'', [])\<rparr>])"
  by code_simp

theorem http_credentials_protected_witness:
  "\<exists>u. url_Parse ''https://example.com/d'' = Some u \<and> (u_Scheme u = ''https'' \<or> isLoopbackHost (url_Hostname u))"
proof -
  have "db_URL demo_http = ''https://example.com/d''" by (simp add: demo_http_def)
  with http_credentials_protected [OF demo_http_valid demo_http_get] show ?thesis by auto
qed

text \<open>
  What the other components need of a complete configuration: the keys with which \<open>Open\<close> starts decode, the drop opens, the HTTP
  drop keeps its credentials off the wire, and the beacon schedule makes sense.
\<close>

lemma validateDiscovery_schedule:
  assumes "validateDiscovery d = Inr ()" and "od_Set (xc_BeaconInterval d)" and "od_Set (xc_BeaconTTL d)"
  shows "0 < od_Duration (xc_BeaconInterval d)"
    and "od_Duration (xc_BeaconInterval d) < 2 ^ 62 \<Longrightarrow> 2 * od_Duration (xc_BeaconInterval d) \<le> od_Duration (xc_BeaconTTL d)"
proof -
  have v: "0 < od_Duration (xc_BeaconInterval d)" "mul64 2 (od_Duration (xc_BeaconInterval d)) \<le> od_Duration (xc_BeaconTTL d)"
    using assms by (auto simp: validateDiscovery_def od_Or_def Let_def split: if_splits)
  show "0 < od_Duration (xc_BeaconInterval d)" by (fact v(1))
  assume "od_Duration (xc_BeaconInterval d) < 2 ^ 62"
  then have "mul64 2 (od_Duration (xc_BeaconInterval d)) = 2 * od_Duration (xc_BeaconInterval d)"
    using v(1) unfolding mul64_def by (subst signed_of_int) (simp add: signed_take_bit_int_eq_self)
  with v(2) show "2 * od_Duration (xc_BeaconInterval d) \<le> od_Duration (xc_BeaconTTL d)" by simp
qed

lemma http_credentials_or_tls:
  assumes "validateDropBackend C b = Inr ()" and "db_Type b = ''http''"
  shows "\<exists>u. url_Parse (db_URL b) = Some u \<and>
    (u_Scheme u = ''https'' \<or> isLoopbackHost (url_Hostname u) \<or>
     (\<forall>transport. list_all (\<lambda>req. rq_BasicAuth req = None)
        (snd (http_Get transport (NewHTTP (db_URL b) (db_Username b) (db_Password b))))))"
proof -
  note p = http_credentials_protected [OF assms surjective_pairing]
  from p obtain u where "url_Parse (db_URL b) = Some u" by blast
  with p show ?thesis by (fastforce simp: list_all_iff list_ex_iff)
qed

lemma load_parts:
  assumes "load L C T (Inr raw) allowIncomplete = Inr cfg"
  obtains cfg0 where "tl_Decode T raw Default = Inr cfg0" "cfg = ApplyDefaults cfg0" "config_Validate L C cfg allowIncomplete = Inr ()"
  using assms by (cases "tl_Decode T raw Default") (auto simp: load_def Let_def)

lemma Validate_complete_parts:
  assumes "config_Validate L C cfg False = Inr ()"
  shows "validateDirectoryKeys L (c_Directory cfg) = Inr ()" "validateDropBackend C (ReadDrop cfg) = Inr ()"
    "validateDiscovery (c_Discovery cfg) = Inr ()"
  using assms by (auto simp: config_Validate_def ReadDrop_def split: if_splits)

text \<open>C32: a configuration that loads is the file's settings with the documented default, value by value, for each one that was left
  out, and nothing else changed; its public key is the one of its private key, the port is a port and the MTU is positive. A
  complete one (\<open>Load\<close>) can then be used: \<open>drop.New\<close> opens the drop that the node reads from (the S3 library's own checks and the
  name of an OVH endpoint are not validated), an HTTP drop sends no credentials in the clear, the network identity and the
  publisher's key decode, and a beacon outlives at least two beacon intervals (up to the overflow of the doubled interval).\<close>

theorem loaded_config_ok:
  assumes "load L (dl_curve D) T (Inr raw) allowIncomplete = Inr cfg"
  shows "(\<exists>cfg0. tl_Decode T raw Default = Inr cfg0 \<and> config_defaulted cfg0 cfg) \<and> wireguard_ok (l_wg L) (c_Wireguard cfg) \<and>
    (\<not> allowIncomplete \<longrightarrow>
       (let b = ReadDrop cfg; x = c_Discovery cfg in
         (db_Type b \<noteq> ''s3'' \<and> (db_Provider b = ''ovh'' \<longrightarrow> db_Endpoint b = [] \<or> db_Endpoint b \<in> fst ` set ovhEndpoints) \<longrightarrow>
            is_ok (drop_New D b)) \<and>
         (db_Type b = ''http'' \<longrightarrow> (\<exists>u. url_Parse (db_URL b) = Some u \<and>
            (u_Scheme u = ''https'' \<or> isLoopbackHost (url_Hostname u) \<or>
             (\<forall>transport. list_all (\<lambda>req. rq_BasicAuth req = None)
                (snd (http_Get transport (NewHTTP (db_URL b) (db_Username b) (db_Password b)))))))) \<and>
         is_ok (ParseAgeIdentity (l_age L) (dc_NetworkIdentity (c_Directory cfg))) \<and>
         is_ok (DecodeEd25519Public (dc_PublisherPubKey (c_Directory cfg))) \<and>
         0 < od_Duration (xc_BeaconInterval x) \<and>
         (od_Duration (xc_BeaconInterval x) < 2 ^ 62 \<longrightarrow> 2 * od_Duration (xc_BeaconInterval x) \<le> od_Duration (xc_BeaconTTL x))))"
proof -
  from assms obtain cfg0 where t: "tl_Decode T raw Default = Inr cfg0" and c: "cfg = ApplyDefaults cfg0"
    and v: "config_Validate L (dl_curve D) cfg allowIncomplete = Inr ()" by (rule load_parts)
  have tab: "config_defaulted cfg0 cfg" unfolding c by (rule ApplyDefaults_table)
  have w: "wireguard_ok (l_wg L) (c_Wireguard cfg)" using v by (auto simp: config_Validate_def intro: validateWireguard_ok)
  show ?thesis
  proof (cases allowIncomplete)
    case False
    then have "config_Validate L (dl_curve D) cfg False = Inr ()" using v by simp
    note p = Validate_complete_parts [OF this]
    have "od_Set (xc_BeaconInterval (c_Discovery cfg))" "od_Set (xc_BeaconTTL (c_Discovery cfg))"
      using tab by (simp_all add: config_defaulted_def Let_def seconds_unless_set_def)
    note x = validateDiscovery_schedule [OF p(3) this]
    have k: "is_ok (ParseAgeIdentity (l_age L) (dc_NetworkIdentity (c_Directory cfg)))"
      "is_ok (DecodeEd25519Public (dc_PublisherPubKey (c_Directory cfg)))"
      using p(1) by (auto simp: validateDirectoryKeys_def is_ok_iff split: if_splits)
    show ?thesis
      using t tab w k x validated_drop_opens [OF p(2)] http_credentials_or_tls [OF p(2)]
      by (simp add: Let_def is_ok_iff)
  qed (use t tab w in auto)
qed

definition demo_toml :: tomlLib where
  "demo_toml = \<lparr>tl_Decode = (\<lambda>_ c. Inr (c\<lparr>
     c_Wireguard := (c_Wireguard c)\<lparr>wc_Name := ''n'', wc_PrivateKey := demo_pub, wc_PublicKey := demo_pub, wc_Interface := []\<rparr>,
     c_Directory := (c_Directory c)\<lparr>dc_NetworkIdentity := ''age66'', dc_PublisherPubKey := demo_pub\<rparr>,
     c_Drop := (c_Drop c)\<lparr>dr_Client := zero_DropBackend\<lparr>db_Type := ''dns'', db_Zone := ''example.com''\<rparr>\<rparr>,
     c_Discovery := (c_Discovery c)\<lparr>xc_MulticastIPv4 := []\<rparr>\<rparr>)),
     tl_Encode = (\<lambda>_. Inr [])\<rparr>"

lemma demo_group4: "net_ParseIP ''239.255.84.67'' = Some 0xFFFFEFFF5443"
proof -
  have "parseAddr ''239.255.84.67'' = Some (V4 0xEFFF5443)" by code_simp
  then show ?thesis by (simp add: net_ParseIP_def as16_def)
qed

lemma demo_group6: "net_ParseIP ''ff02::1:8443'' = Some 0xff020000000000000000000000018443"
proof -
  have l: "ipv6_loop 8 [] None ''ff02::1:8443'' = Some ([0xff02, 1, 0x8443], Some 1, [])"
    "parse_kind ''ff02::1:8443'' = Some (CHR '':'')" "cutOn (CHR ''%'') ''ff02::1:8443'' = None"
    "hasPrefix ''ff02::1:8443'' ''::'' = False"
    "take 1 [0xff02, 1, 0x8443 :: u16] @ replicate (8 - length [0xff02, 1, 0x8443 :: u16]) 0 @ drop 1 [0xff02, 1, 0x8443] =
       [0xff02, 0, 0, 0, 0, 0, 1, 0x8443]"
    by code_simp+
  have g: "groups_word [0xff02, 0, 0, 0, 0, 0, 1, 0x8443] = 0xff020000000000000000000000018443"
    by (simp add: groups_word_def)
  have "parseAddr ''ff02::1:8443'' = Some (V6 0xff020000000000000000000000018443 [])"
    unfolding parseAddr_def parseIPv6_def l Let_def option.case prod.case if_False simp_thms(21) l(1) by (simp add: l(5) [simplified] g)
  then show ?thesis by (simp add: net_ParseIP_def as16_def)
qed

lemma demo_groups:
  "validateMulticastAddr DefaultDiscoveryMulticastIPv4 False = Inr ()" "validateMulticastAddr DefaultDiscoveryMulticastIPv6 True = Inr ()"
proof -
  have s: "splitHostPort DefaultDiscoveryMulticastIPv4 = Some (''239.255.84.67'', ''51821'')"
    "splitHostPort DefaultDiscoveryMulticastIPv6 = Some (''ff02::1:8443'', ''51821'')" "atoi ''51821'' = Some 51821"
    by code_simp+
  have "ip_To4 0xFFFFEFFF5443 = Some 0xEFFF5443" "ip_To4 0xff020000000000000000000000018443 = None"
    by (simp_all add: ip_To4_def)
  then show "validateMulticastAddr DefaultDiscoveryMulticastIPv4 False = Inr ()"
    "validateMulticastAddr DefaultDiscoveryMulticastIPv6 True = Inr ()"
    by (simp_all add: validateMulticastAddr_def s demo_group4 demo_group6 ip_IsMulticast_def)
qed

lemma demo_schedule: "validateDiscovery (defaultDiscovery ((c_Discovery Default)\<lparr>xc_MulticastIPv4 := []\<rparr>)) = Inr ()"
proof -
  have "mul64 2 (30 * second) = 60 * second" by (simp add: mul64_def)
  moreover have "DefaultDiscoveryMulticastIPv6 \<noteq> []" by (simp add: DefaultDiscoveryMulticastIPv6_def)
  ultimately show ?thesis
    by (simp add: validateDiscovery_def defaultDiscovery_def Default_def demo_groups Let_def DefaultDiscoveryBeaconInterval_def
        DefaultDiscoveryBeaconTTL_def NewDuration_def od_Or_def)
qed

lemma demo_load_rest:
  "validateDropBackend demo_curve (applyBackendDefaults (zero_DropBackend\<lparr>db_Type := ''dns'', db_Zone := ''example.com''\<rparr>)) = Inr ()"
  "validateDNS (c_DNS Default) = Inr ()" "ParseAgeIdentity demo_age ''age66'' = Inr ''age66''"
  "db_Type (applyBackendDefaults zero_DropBackend) = []" "trimSpace ''n'' \<noteq> []" "trimSpace ''age66'' \<noteq> []"
  by code_simp+

lemma demo_load: "is_ok (load (demo_libs demo_dir) demo_curve demo_toml (Inr []) False)"
proof -
  let ?k = "replicate 32 (CHR ''k'')"
  have t: "trimSpace demo_pub = demo_pub" by (simp add: demo_pub_def trimSpace_no_space std_encode_no_space)
  have p: "wg_ParseKey demo_wg demo_pub = Inr ?k" by (simp add: demo_wg_def demo_pub_def std_roundtrip)
  have "wg_ParseKey demo_wg [] \<noteq> Inr ?k" by code_simp
  with p have ne: "demo_pub \<noteq> []" by metis
  have d: "wg_String demo_wg ?k = demo_pub" "wg_PublicKey demo_wg k = k" for k by (simp_all add: demo_wg_def demo_pub_def)
  let ?cfg = "ApplyDefaults (projr (tl_Decode demo_toml [] Default))"
  have w: "validateWireguard demo_wg (c_Wireguard ?cfg) = Inr ()"
    by (simp add: demo_toml_def ApplyDefaults_def defaultWireguard_def Default_def validateWireguard_def ParseWGPrivate_def
        ParseWGPublic_def PublicKeyFromWGPrivate_def t p ne d demo_load_rest(5) DefaultMTU_def)
  have "validateDirectoryKeys (demo_libs demo_dir) (c_Directory ?cfg) = Inr ()"
    using demo_keys(2) by (simp add: demo_toml_def ApplyDefaults_def Default_def validateDirectoryKeys_def t ne demo_load_rest(3,6))
  with w demo_load_rest(1,2,4) demo_schedule show ?thesis
    by (simp add: load_def demo_toml_def config_Validate_def Let_def ApplyDefaults_def Default_def)
qed

theorem loaded_config_ok_witness:
  "\<exists>cfg. load (demo_libs demo_dir) demo_curve demo_toml (Inr []) False = Inr cfg \<and>
     wc_Interface (c_Wireguard cfg) = ''tincan0'' \<and> xc_MulticastIPv4 (c_Discovery cfg) = ''239.255.84.67:51821'' \<and>
     db_RecordName (ReadDrop cfg) = ''_tincan'' \<and> is_ok (drop_New demo_dropLibs (ReadDrop cfg)) \<and>
     is_ok (ParseAgeIdentity demo_age (dc_NetworkIdentity (c_Directory cfg)))"
proof -
  have c: "dl_curve demo_dropLibs = demo_curve" by (simp add: demo_dropLibs_def)
  obtain cfg where l: "load (demo_libs demo_dir) demo_curve demo_toml (Inr []) False = Inr cfg"
    using demo_load by (auto simp: is_ok_iff)
  let ?cfg0 = "projr (tl_Decode demo_toml [] Default)"
  note ok = loaded_config_ok [where D = demo_dropLibs, unfolded c, OF l]
  then have tab: "config_defaulted ?cfg0 cfg" by auto
  then have f: "wc_Interface (c_Wireguard cfg) = ''tincan0''" "xc_MulticastIPv4 (c_Discovery cfg) = ''239.255.84.67:51821''"
    by (simp_all add: config_defaulted_def Let_def demo_toml_def given_or_def)
  have b: "backend_defaulted (dr_Client (c_Drop ?cfg0)) (dr_Client (c_Drop cfg))"
    "backend_defaulted (dr_Admin (c_Drop ?cfg0)) (dr_Admin (c_Drop cfg))"
    using tab by (simp_all add: config_defaulted_def)
  then have "db_RecordName (dr_Client (c_Drop cfg)) = ''_tincan''"
    by (simp add: backend_defaulted_def demo_toml_def given_or_def zero_DropBackend_def)
  moreover have "db_Type (dr_Client (c_Drop cfg)) = ''dns''"
    "db_Provider (dr_Client (c_Drop cfg)) = []" "db_Type (dr_Admin (c_Drop cfg)) = []"
    using b [THEN backend_defaulted_kept(1)] b [THEN backend_defaulted_kept(2)]
    by (simp_all add: demo_toml_def Default_def zero_DropBackend_def)
  ultimately show ?thesis using f ok l by (simp add: ReadDrop_def Let_def)
qed

end
