(* ===== verification/Admin.thy ===== *)
theory Admin
  imports Cache Config
begin

text \<open>
  The transactions of the admin and the synchronisation of a member: \<open>src/internal/bootstrap\<close> and, under
  \<open>src/internal/cli\<close>, \<open>helpers.go\<close>, \<open>sync.go\<close>, \<open>publish.go\<close>, \<open>removenode.go\<close> and \<open>setdomain.go\<close>. A command runs on a
  world: the state directory, the dead drop, and the files it writes elsewhere. What the
  environment decides (which system call fails, the clock, randomness) is a record \<open>env\<close>; every call
  of the cache has an \<open>io\<close> value of its own, so that any of them can fail. Printing is left out.
\<close>

section \<open>The world\<close>

text \<open>The interface \<open>drop.Drop\<close> as the commands use it.\<close>

record 's dropI =
  di_Get :: "'s \<Rightarrow> bytes res"
  di_Put :: "bytes \<Rightarrow> 's \<Rightarrow> 's \<times> error option"

text \<open>\<open>w_uploads\<close> is a history variable: the directories that were handed to \<open>Put\<close>, oldest first.\<close>

record 's world =
  w_disk :: disk
  w_drop :: 's
  w_files :: fileSystem
  w_uploads :: "directory list"

record bootNode =
  bn_Name :: string
  bn_TunnelIP :: string
  bn_ListenPort :: int
  bn_PublicKey :: string
  bn_PrivateKey :: string
  bn_AgeIdentity :: string

record Bootstrap =
  bs_SchemaVersion :: int
  bs_PublisherPubKey :: string
  bs_Serial :: u64
  bs_Drop :: DropBackend
  bs_Node :: "bootNode option"

record env =
  e_libs :: libs
  e_json :: jsonlib
  e_io :: "nat \<Rightarrow> io"
  e_now :: gotime
  e_rnd :: nat
  e_bootEncode :: "Bootstrap \<Rightarrow> bytes res"
  e_bootDecode :: "bytes \<Rightarrow> Bootstrap res"
  e_bootMkdir :: "error option"
  e_bootWrite :: "error option"
  e_bootRead :: "error option"

section \<open>The bootstrap file\<close>

definition bootstrap_SchemaVersion :: int where "bootstrap_SchemaVersion = 2"

definition bootstrap_Network :: "Config \<Rightarrow> u64 \<Rightarrow> Bootstrap" where
  "bootstrap_Network cfg serial =
     \<lparr>bs_SchemaVersion = bootstrap_SchemaVersion, bs_PublisherPubKey = dc_PublisherPubKey (c_Directory cfg),
      bs_Serial = serial, bs_Drop = dr_Client (c_Drop cfg), bs_Node = None\<rparr>"

definition WithNode :: "Bootstrap \<Rightarrow> bootNode \<Rightarrow> Bootstrap" where
  "WithNode base n = base\<lparr>bs_Node := Some n\<rparr>"

text \<open>\<open>filepath.Join\<close> of a clean directory and a file name.\<close>

definition bootstrap_DefaultPath :: "string \<Rightarrow> string" where
  "bootstrap_DefaultPath stateDir = stateDir @ ''/netboot.json''"

definition bootstrap_Write :: "env \<Rightarrow> string \<Rightarrow> Bootstrap \<Rightarrow> fileSystem \<Rightarrow> fileSystem \<times> unit res" where
  "bootstrap_Write E path b fs =
     (case e_bootEncode E b of
        Inl e \<Rightarrow> (fs, Inl (Wrap ''encode bootstrap'' e))
      | Inr dat \<Rightarrow>
          (case e_bootMkdir E of
             Some e \<Rightarrow> (fs, Inl (Wrap ''create bootstrap directory'' e))
           | None \<Rightarrow>
               (case e_bootWrite E of
                  Some e \<Rightarrow> (fs, Inl (Wrap ''write bootstrap'' e))
                | None \<Rightarrow> (fs(path \<mapsto> dat @ [NL]), Inr ()))))"

definition bootstrap_Read :: "env \<Rightarrow> string \<Rightarrow> fileSystem \<Rightarrow> Bootstrap res" where
  "bootstrap_Read E path fs =
     bindR (wrapR ''read bootstrap''
        (case e_bootRead E of Some e \<Rightarrow> Inl e
         | None \<Rightarrow> (case fs path of None \<Rightarrow> Inl ErrNotExist | Some dat \<Rightarrow> Inr dat))) (\<lambda>dat.
     bindR (wrapR ''decode bootstrap'' (e_bootDecode E dat)) (\<lambda>b.
       if bs_SchemaVersion b \<noteq> bootstrap_SchemaVersion then Inl (Err ''bootstrap schema version not supported'') else Inr b))"

section \<open>Fetching and publishing\<close>

definition fetchDirectory :: "env \<Rightarrow> Config \<Rightarrow> 's dropI \<Rightarrow> 's \<Rightarrow> directory res" where
  "fetchDirectory E cfg D s =
     bindR (di_Get D s) (\<lambda>blob.
     bindR (Open (e_libs E) blob (dc_NetworkIdentity (c_Directory cfg)) (dc_PublisherPubKey (c_Directory cfg)))
       (\<lambda>(dir, _). Inr dir))"

definition fetchAdminDirectory :: "env \<Rightarrow> Config \<Rightarrow> 's dropI \<Rightarrow> 's world \<Rightarrow> directory res" where
  "fetchAdminDirectory E cfg D w =
     (let remote = fetchDirectory E cfg D (w_drop w);
          source = ReadSource (e_libs E) (e_io E 0) (w_disk w)
      in case source of
           Inr src \<Rightarrow>
             (case remote of
                Inl _ \<Rightarrow> Inr src
              | Inr rem \<Rightarrow> if d_Serial src \<ge> d_Serial rem then Inr src else Inr rem)
         | Inl se \<Rightarrow>
             if \<not> errors_Is se ErrNotExist then Inl (Wrap ''read working directory'' se)
             else (case remote of
                     Inr rem \<Rightarrow> Inr rem
                   | Inl fe \<Rightarrow>
                       (case Read (e_libs E) (e_io E 1) (w_disk w) of Inr (cached, _) \<Rightarrow> Inr cached | Inl _ \<Rightarrow> Inl fe)))"

definition pendingAdminChanges :: "env \<Rightarrow> directory \<Rightarrow> directory \<Rightarrow> bool" where
  "pendingAdminChanges E source remote =
     (if d_Serial source < d_Serial remote then False
      else case (marshal_dir (e_libs E) (e_now E) source, marshal_dir (e_libs E) (e_now E) remote) of
             (Inr a, Inr b) \<Rightarrow> a \<noteq> b
           | _ \<Rightarrow> True)"

definition reconcilePublishSerial :: "directory \<Rightarrow> directory res \<Rightarrow> bool \<Rightarrow> directory res" where
  "reconcilePublishSerial source remote force =
     (case remote of
        Inr rem \<Rightarrow> Inr (if d_Serial rem \<ge> d_Serial source then source\<lparr>d_Serial := d_Serial rem\<rparr> else source)
      | Inl e \<Rightarrow>
          if errors_Is e ErrNotFound then Inr source
          else if force then Inr source
          else Inl (Err ''cannot fetch the published directory before publishing''))"

definition raiseToFloor :: "u64 res \<Rightarrow> directory \<Rightarrow> directory res" where
  "raiseToFloor r dir =
     (case r of
        Inl e \<Rightarrow> if errors_Is e ErrNotExist then Inr dir else Inl (Wrap ''read local serial floor'' e)
      | Inr fl \<Rightarrow> Inr (if fl > d_Serial dir then dir\<lparr>d_Serial := fl\<rparr> else dir))"

definition bumpDirectory :: "gotime \<Rightarrow> directory \<Rightarrow> directory res" where
  "bumpDirectory now dir =
     (if d_Serial dir = -1 then Inl (Err ''directory serial overflow'')
      else Inr (dir\<lparr>d_Serial := d_Serial dir + 1, d_CreatedAt := Stamp now\<rparr>))"

definition preparePublishSerial :: "env \<Rightarrow> directory \<Rightarrow> directory res \<Rightarrow> bool \<Rightarrow> disk \<Rightarrow> directory res" where
  "preparePublishSerial E dir remote force d =
     bindR (reconcilePublishSerial dir remote force) (\<lambda>dir1.
     bindR (raiseToFloor (ReadSerial (e_io E 2) d) dir1) (\<lambda>dir2.
     bindR (raiseToFloor (ReadPublishSerial (e_io E 3) d) dir2) (bumpDirectory (e_now E))))"

definition publishDirectory :: "env \<Rightarrow> Config \<Rightarrow> 's dropI \<Rightarrow> directory \<Rightarrow> bool \<Rightarrow> 's world \<Rightarrow> 's world \<times> unit res" where
  "publishDirectory E cfg D dir writeSource w =
     (case Seal (e_libs E) (e_rnd E) (e_now E) dir (dc_PublisherKey (c_Directory cfg)) of
        Inl e \<Rightarrow> (w, Inl e)
      | Inr blob \<Rightarrow>
          (case ReservePublishSerial (e_io E 4) (d_Serial dir) (w_disk w) of
             (d1, Inl e) \<Rightarrow> (w\<lparr>w_disk := d1\<rparr>, Inl e)
           | (d1, Inr _) \<Rightarrow>
               (case di_Put D blob (w_drop w) of
                  (s1, Some e) \<Rightarrow> (w\<lparr>w_disk := d1, w_drop := s1, w_uploads := w_uploads w @ [dir]\<rparr>, Inl e)
                | (s1, None) \<Rightarrow>
                    (let w1 = w\<lparr>w_drop := s1, w_uploads := w_uploads w @ [dir]\<rparr>
                     in case Write (e_libs E) (e_json E) (e_io E 5) (e_now E) dir [] d1 of
                          (d2, Inl e) \<Rightarrow> (w1\<lparr>w_disk := d2\<rparr>, Inl e)
                        | (d2, Inr _) \<Rightarrow>
                            (case (if writeSource then WriteSource (e_libs E) (e_io E 6) (e_now E) dir d2 else (d2, Inr ())) of
                               (d3, Inl e) \<Rightarrow> (w1\<lparr>w_disk := d3\<rparr>, Inl e)
                             | (d3, Inr _) \<Rightarrow>
                                 (case bootstrap_Write E (bootstrap_DefaultPath (sc_StateDir (c_Sync cfg)))
                                         (bootstrap_Network cfg (d_Serial dir)) (w_files w) of
                                    (fs, r) \<Rightarrow> (w1\<lparr>w_disk := d3, w_files := fs\<rparr>, r)))))))"

definition saveAdminDirectory :: "env \<Rightarrow> Config \<Rightarrow> 's dropI \<Rightarrow> directory \<Rightarrow> bool \<Rightarrow> 's world \<Rightarrow> 's world \<times> directory res" where
  "saveAdminDirectory E cfg D dir noPublish w =
     (if noPublish then
        (case WriteSource (e_libs E) (e_io E 7) (e_now E) dir (w_disk w) of
           (d, Inl e) \<Rightarrow> (w\<lparr>w_disk := d\<rparr>, Inl e)
         | (d, Inr _) \<Rightarrow> (w\<lparr>w_disk := d\<rparr>, Inr dir))
      else
        (case preparePublishSerial E dir (fetchDirectory E cfg D (w_drop w)) False (w_disk w) of
           Inl e \<Rightarrow> (w, Inl e)
         | Inr dir' \<Rightarrow>
             (case publishDirectory E cfg D dir' True w of
                (w', Inl e) \<Rightarrow> (w', Inl e)
              | (w', Inr _) \<Rightarrow> (w', Inr dir'))))"

section \<open>Helpers on a directory\<close>

definition findSelf :: "Config \<Rightarrow> directory \<Rightarrow> node res" where
  "findSelf cfg dir =
     (case List.find (\<lambda>n. n_PublicKey n = wc_PublicKey (c_Wireguard cfg)) (d_Nodes dir) of
        None \<Rightarrow> Inl (Err ''local WireGuard public key is not present in directory'')
      | Some n \<Rightarrow> Inr n)"

fun nodeByName_loop :: "node list \<Rightarrow> string \<Rightarrow> nat \<Rightarrow> (node \<times> nat) option" where
  "nodeByName_loop [] name i = None"
| "nodeByName_loop (n # ns) name i = (if n_Name n = name then Some (n, i) else nodeByName_loop ns name (Suc i))"

definition nodeByName :: "directory \<Rightarrow> string \<Rightarrow> (node \<times> nat) option" where
  "nodeByName dir name = nodeByName_loop (d_Nodes dir) name 0"

definition takenIPs :: "directory \<Rightarrow> string list" where
  "takenIPs dir = map n_TunnelIP (d_Nodes dir)"

definition listenPortFromEndpoint :: "string \<Rightarrow> int res" where
  "listenPortFromEndpoint endpoint =
     (if endpoint = [] then Inr 0
      else case splitHostPort endpoint of
        None \<Rightarrow> Inl (Wrap ''endpoint must be host:port'' (Err ''address''))
      | Some (_, port) \<Rightarrow>
          (case atoi port of
             None \<Rightarrow> Inl (Err ''endpoint port is invalid'')
           | Some parsed \<Rightarrow> if parsed \<le> 0 \<or> parsed > 65535 then Inl (Err ''endpoint port is invalid'') else Inr parsed))"

section \<open>Commands of the admin\<close>

text \<open>\<open>loadConfig\<close> has run; what every command of the admin does next: the admin's key, the lock, the drop.\<close>

definition loadAdminDrop :: "(DropBackend \<Rightarrow> 's dropI res) \<Rightarrow> Config \<Rightarrow> 's dropI res" where
  "loadAdminDrop newDrop cfg =
     (if db_Type (dr_Admin (c_Drop cfg)) = [] then Inl (Err ''[drop.admin] is required for this command'')
      else newDrop (dr_Admin (c_Drop cfg)))"

definition loadReadDrop :: "(DropBackend \<Rightarrow> 's dropI res) \<Rightarrow> Config \<Rightarrow> 's dropI res" where
  "loadReadDrop newDrop cfg = newDrop (ReadDrop cfg)"

definition asAdmin :: "env \<Rightarrow> (DropBackend \<Rightarrow> 's dropI res) \<Rightarrow> Config res \<Rightarrow> (Config \<times> 's dropI) res" where
  "asAdmin E newDrop loaded =
     bindR loaded (\<lambda>cfg.
     bindR (RequireAdmin (e_libs E) cfg) (\<lambda>_.
     bindR (LockAdmin (e_io E 8)) (\<lambda>_.
     bindR (loadAdminDrop newDrop cfg) (\<lambda>D. Inr (cfg, D)))))"

definition PublishCmd :: "env \<Rightarrow> (DropBackend \<Rightarrow> 's dropI res) \<Rightarrow> Config res \<Rightarrow> bool \<Rightarrow> 's world \<Rightarrow> 's world \<times> unit res" where
  "PublishCmd E newDrop loaded force w =
     (case asAdmin E newDrop loaded of
        Inl e \<Rightarrow> (w, Inl e)
      | Inr (cfg, D) \<Rightarrow>
          (case wrapR ''read working directory'' (ReadSource (e_libs E) (e_io E 0) (w_disk w)) of
             Inl e \<Rightarrow> (w, Inl e)
           | Inr source \<Rightarrow>
               (case preparePublishSerial E source (fetchDirectory E cfg D (w_drop w)) force (w_disk w) of
                  Inl e \<Rightarrow> (w, Inl e)
                | Inr dir \<Rightarrow> publishDirectory E cfg D dir True w)))"

definition RemoveNodeCmd ::
  "env \<Rightarrow> (DropBackend \<Rightarrow> 's dropI res) \<Rightarrow> Config res \<Rightarrow> string \<Rightarrow> bool \<Rightarrow> 's world \<Rightarrow> 's world \<times> directory res" where
  "RemoveNodeCmd E newDrop loaded name noPublish w =
     (case asAdmin E newDrop loaded of
        Inl e \<Rightarrow> (w, Inl e)
      | Inr (cfg, D) \<Rightarrow>
          (case fetchAdminDirectory E cfg D w of
             Inl e \<Rightarrow> (w, Inl e)
           | Inr dir \<Rightarrow>
               (case nodeByName dir name of
                  None \<Rightarrow> (w, Inl (Err ''node not found''))
                | Some (_, idx) \<Rightarrow>
                    saveAdminDirectory E cfg D
                      (dir\<lparr>d_Nodes := take idx (d_Nodes dir) @ drop (Suc idx) (d_Nodes dir)\<rparr>) noPublish w)))"

text \<open>\<open>namesUsableAsLabels\<close> collects every offender; only whether there is one matters.\<close>

fun badLabels :: "node list \<Rightarrow> string list \<Rightarrow> string list" where
  "badLabels [] seen = []"
| "badLabels (n # ns) seen =
     (if \<not> is_ok (ValidateLabel (n_Name n)) then n_Name n # badLabels ns seen
      else if toLower (n_Name n) \<in> set seen then n_Name n # badLabels ns seen
      else badLabels ns (toLower (n_Name n) # seen))"

definition namesUsableAsLabels :: "directory \<Rightarrow> unit res" where
  "namesUsableAsLabels dir =
     (if badLabels (d_Nodes dir) [] = [] then Inr () else Inl (Err ''node names are not usable as DNS labels''))"

definition SetDomainCmd ::
  "env \<Rightarrow> (DropBackend \<Rightarrow> 's dropI res) \<Rightarrow> Config res \<Rightarrow> string \<Rightarrow> bool \<Rightarrow> bool \<Rightarrow> 's world \<Rightarrow> 's world \<times> string res" where
  "SetDomainCmd E newDrop loaded domain clear noPublish w =
     (if domain \<noteq> [] \<and> clear then (w, Inl (Err ''--clear cannot be combined with a domain argument''))
      else if domain = [] \<and> \<not> clear then
        (w, bindR loaded (\<lambda>cfg. bindR (loadReadDrop newDrop cfg) (\<lambda>D.
           bindR (fetchDirectory E cfg D (w_drop w)) (\<lambda>dir. Inr (d_Domain dir)))))
      else
        (case asAdmin E newDrop loaded of
           Inl e \<Rightarrow> (w, Inl e)
         | Inr (cfg, D) \<Rightarrow>
             (case bindR (fetchAdminDirectory E cfg D w) (\<lambda>dir.
                     if clear then Inr (dir\<lparr>d_Domain := []\<rparr>)
                     else let dom = NormalizeDomain domain
                          in if \<not> is_ok (ValidateDomain dom) then Inl (Err ''domain'')
                             else bindR (namesUsableAsLabels dir) (\<lambda>_. Inr (dir\<lparr>d_Domain := dom\<rparr>))) of
                Inl e \<Rightarrow> (w, Inl e)
              | Inr dir \<Rightarrow>
                  (case saveAdminDirectory E cfg D dir noPublish w of
                     (w', Inl e) \<Rightarrow> (w', Inl e)
                   | (w', Inr dir') \<Rightarrow> (w', Inr (d_Domain dir'))))))"

section \<open>Synchronisation of a member\<close>

record syncResult =
  sr_Serial :: u64
  sr_FromCache :: bool
  sr_StaleErr :: "error option"
  sr_Directory :: directory

definition fetchSyncDirectory :: "env \<Rightarrow> Config \<Rightarrow> 's dropI \<Rightarrow> 's \<Rightarrow> disk \<Rightarrow> (directory \<times> error option) res" where
  "fetchSyncDirectory E cfg D s d =
     (case di_Get D s of
        Inl dropErr \<Rightarrow>
          (case Read (e_libs E) (e_io E 0) d of
             Inl _ \<Rightarrow> Inl (Err ''drop fetch failed and cache unavailable'')
           | Inr (dir, _) \<Rightarrow> Inr (dir, Some dropErr))
      | Inr blob \<Rightarrow>
          bindR (Open (e_libs E) blob (dc_NetworkIdentity (c_Directory cfg)) (dc_PublisherPubKey (c_Directory cfg)))
            (\<lambda>(dir, _).
              case ReadSerial (e_io E 1) d of
                Inr cachedSerial \<Rightarrow>
                  if IsRollback (d_Serial dir) cachedSerial then Inl (Err ''stale serial is older than cached serial'')
                  else Inr (dir, None)
              | Inl e \<Rightarrow>
                  if errors_Is e ErrNotExist then Inr (dir, None) else Inl (Err ''cache serial unreadable'')))"

definition runSyncOnce :: "env \<Rightarrow> (DropBackend \<Rightarrow> 's dropI res) \<Rightarrow> Config \<Rightarrow> 's \<Rightarrow> disk \<Rightarrow> disk \<times> syncResult res" where
  "runSyncOnce E newDrop cfg s d =
     (case loadReadDrop newDrop cfg of
        Inl e \<Rightarrow> (d, Inl e)
      | Inr D \<Rightarrow>
          (case fetchSyncDirectory E cfg D s d of
             Inl e \<Rightarrow> (d, Inl e)
           | Inr (dir, dropErr) \<Rightarrow>
               (case Write (e_libs E) (e_json E) (e_io E 2) (e_now E) dir [] d of
                  (d', Inl e) \<Rightarrow> (d', Inl e)
                | (d', Inr _) \<Rightarrow>
                    (d', Inr \<lparr>sr_Serial = d_Serial dir, sr_FromCache = (dropErr \<noteq> None), sr_StaleErr = dropErr,
                              sr_Directory = dir\<rparr>))))"

definition SyncCmd :: "env \<Rightarrow> (DropBackend \<Rightarrow> 's dropI res) \<Rightarrow> Config res \<Rightarrow> 's \<Rightarrow> disk \<Rightarrow> disk \<times> syncResult res" where
  "SyncCmd E newDrop loaded s d =
     (case loaded of Inl e \<Rightarrow> (d, Inl e) | Inr cfg \<Rightarrow> runSyncOnce E newDrop cfg s d)"

definition syncSource :: "syncResult \<Rightarrow> string" where
  "syncSource res = (if sr_FromCache res then ''local cache'' else ''drop'')"

definition directoryStale :: "gotime \<Rightarrow> directory \<Rightarrow> duration \<Rightarrow> duration \<times> bool" where
  "directoryStale now dir maxAge =
     (if maxAge \<le> 0 \<or> time_IsZero (d_CreatedAt dir) then (0, False)
      else let age = time_Sub now (d_CreatedAt dir) in (age, age > maxAge))"

definition dropErrorAdvice :: "error \<Rightarrow> string" where
  "dropErrorAdvice e =
     (if errors_Is e ErrNotFound then ''no directory at the drop (has the admin published yet?)''
      else if errors_Is e ErrAuth then ''drop rejected the credentials (check [drop.client] access keys)''
      else if errors_Is e ErrForbidden then
        ''drop object is not readable (check the bucket policy / object ACL, or provide read-only credentials)''
      else ''drop unreachable'')"

section \<open>Serials are used once\<close>

text \<open>The history of uploads is in order and below the reserved mark.\<close>

definition uploads_ok :: "'s world \<Rightarrow> bool" where
  "uploads_ok w \<longleftrightarrow> sorted_wrt (<) (map d_Serial (w_uploads w)) \<and>
     (\<forall>u \<in> set (w_uploads w). Suc (unat (d_Serial u)) \<le> mark_level FPublish (w_disk w))"

lemma Reserve_raises:
  assumes "io_ok io" and "ReservePublishSerial io s d = (d', Inr ())"
  shows "mark_level FPublish d \<le> unat s \<and> mark_level FPublish d' = Suc (unat s)"
proof -
  let ?g = "guarded (\<lambda>prev. s \<le> prev) (Inl (Err ''publish serial has already been reserved''))
        (\<lambda>e. Inl (Wrap ''read publish serial'' e)) io FPublish (writePublish io s)"
  from withStateLock_cases [of io ?g d] assms(2) [unfolded ReservePublishSerial_guarded]
  have "?g d = (d', Inr ())" by (elim disjE exE) simp_all
  moreover have "mark_level FPublish d \<le> unat s" if "readSerial io FPublish d = Inr p" "\<not> s \<le> p" for p
    using readSerial_Inr [OF that(1)] that(2) by (simp add: mark_level_def word_less_nat_alt not_le Suc_le_eq)
  moreover have "mark_level FPublish d \<le> unat s" if "readSerial io FPublish d = Inl e" "errors_Is e ErrNotExist" for e
    using mark_level_absent readSerial_absent [OF assms(1) that] by simp
  ultimately show ?thesis
    by (auto simp: guarded_def writePublish_def renameio_WriteFile_def mark_level_upd split: sum.splits if_splits option.splits)
qed

lemma Write_change: "io_ok io \<Longrightarrow> disk_change L d (fst (Write L J io now dir etag d))"
  using cache_step_change [of "CWrite io now dir etag" L d J] by simp

lemma WriteSource_change: "io_ok io \<Longrightarrow> disk_change L d (fst (WriteSource L io now dir d))"
  using cache_step_change [of "CSource io now dir" L d undefined] by simp

lemma Reserve_change: "io_ok io \<Longrightarrow> disk_change L d (fst (ReservePublishSerial io s d))"
  using cache_step_change [of "CReserve io s" L d undefined] by simp

lemma uploads_ok_disk:
  "uploads_ok w \<Longrightarrow> mark_level FPublish (w_disk w) \<le> mark_level FPublish d \<Longrightarrow> uploads_ok (w\<lparr>w_disk := d, w_drop := s, w_files := fs\<rparr>)"
  by (auto simp: uploads_ok_def)

lemma publishDirectory_tail:
  assumes "publishDirectory E cfg D dir ws w = (w', r)"
    and seal: "Seal (e_libs E) (e_rnd E) (e_now E) dir (dc_PublisherKey (c_Directory cfg)) = Inr blob"
    and q: "ReservePublishSerial (e_io E 4) (d_Serial dir) (w_disk w) = (d1, Inr u)"
    and p: "di_Put D blob (w_drop w) = (s1, pe)"
    and d2: "mark_level FPublish d1 \<le> mark_level FPublish (fst (Write (e_libs E) (e_json E) (e_io E 5) (e_now E) dir [] d1))"
    and d3: "mark_level FPublish (fst (Write (e_libs E) (e_json E) (e_io E 5) (e_now E) dir [] d1)) \<le>
      mark_level FPublish (fst (WriteSource (e_libs E) (e_io E 6) (e_now E) dir (fst (Write (e_libs E) (e_json E) (e_io E 5) (e_now E) dir [] d1))))"
  shows "\<exists>d fs. w' = w\<lparr>w_disk := d, w_drop := s1, w_files := fs, w_uploads := w_uploads w @ [dir]\<rparr> \<and>
    mark_level FPublish d1 \<le> mark_level FPublish d"
proof (cases pe)
  case (Some e)
  then have "w' = w\<lparr>w_disk := d1, w_drop := s1, w_files := w_files w, w_uploads := w_uploads w @ [dir]\<rparr>"
    using assms(1) seal q p by (cases w) (auto simp: publishDirectory_def)
  then show ?thesis by blast
next
  case None
  obtain e2 r2 where w2: "Write (e_libs E) (e_json E) (e_io E 5) (e_now E) dir [] d1 = (e2, r2)" by fastforce
  obtain e3 r3 where w3: "(if ws then WriteSource (e_libs E) (e_io E 6) (e_now E) dir e2 else (e2, Inr ())) = (e3, r3)" by fastforce
  have m: "mark_level FPublish d1 \<le> mark_level FPublish e2" "mark_level FPublish e2 \<le> mark_level FPublish e3"
    using d2 d3 w3 by (auto simp: w2 split: if_splits)
  show ?thesis
  proof (cases r2)
    case (Inl e)
    then have "w' = w\<lparr>w_disk := e2, w_drop := s1, w_files := w_files w, w_uploads := w_uploads w @ [dir]\<rparr>"
      using assms(1) seal q p None w2 by (cases w) (auto simp: publishDirectory_def)
    with m(1) show ?thesis by blast
  next
    case r2: (Inr u2)
    show ?thesis
    proof (cases r3)
      case (Inl e)
      then have "w' = w\<lparr>w_disk := e3, w_drop := s1, w_files := w_files w, w_uploads := w_uploads w @ [dir]\<rparr>"
        using assms(1) seal q p None w2 w3 r2 by (cases w) (auto simp: publishDirectory_def)
      with m show ?thesis using order_trans by blast
    next
      case (Inr u3)
      obtain fs r4 where "bootstrap_Write E (bootstrap_DefaultPath (sc_StateDir (c_Sync cfg)))
          (bootstrap_Network cfg (d_Serial dir)) (w_files w) = (fs, r4)" by fastforce
      then have "w' = w\<lparr>w_disk := e3, w_drop := s1, w_files := fs, w_uploads := w_uploads w @ [dir]\<rparr>"
        using assms(1) seal q p None w2 w3 r2 Inr by (cases w) (auto simp: publishDirectory_def)
      with m show ?thesis using order_trans by blast
    qed
  qed
qed

text \<open>What one publication does to the world: nothing but the disk, or a reserved serial above every one
  before it and then one upload.\<close>

lemma publishDirectory_world:
  assumes "\<forall>k. io_ok (e_io E k)" and "publishDirectory E cfg D dir ws w = (w', r)"
  shows "\<exists>d s fs. mark_level FPublish (w_disk w) \<le> mark_level FPublish d \<and>
    (w' = w\<lparr>w_disk := d, w_drop := s, w_files := fs\<rparr> \<or>
     w' = w\<lparr>w_disk := d, w_drop := s, w_files := fs, w_uploads := w_uploads w @ [dir]\<rparr> \<and>
       mark_level FPublish (w_disk w) \<le> unat (d_Serial dir) \<and> Suc (unat (d_Serial dir)) \<le> mark_level FPublish d)"
proof (cases "Seal (e_libs E) (e_rnd E) (e_now E) dir (dc_PublisherKey (c_Directory cfg))")
  case (Inl e)
  then have "w' = w" using assms(2) by (simp add: publishDirectory_def)
  then show ?thesis by (intro exI [of _ "w_disk w"] exI [of _ "w_drop w"] exI [of _ "w_files w"]) simp
next
  case (Inr blob)
  obtain d1 q where q: "ReservePublishSerial (e_io E 4) (d_Serial dir) (w_disk w) = (d1, q)" by fastforce
  have le: "mark_level FPublish (w_disk w) \<le> mark_level FPublish d1"
    using disk_change_marks(2) [OF Reserve_change [of "e_io E 4" undefined "w_disk w" "d_Serial dir"]] assms(1) q by simp
  show ?thesis
  proof (cases q)
    case (Inl e)
    then have "w' = w\<lparr>w_disk := d1\<rparr>" using assms(2) Inr q by (simp add: publishDirectory_def)
    then show ?thesis using le by (intro exI [of _ d1] exI [of _ "w_drop w"] exI [of _ "w_files w"]) simp
  next
    case (Inr u)
    then have r: "mark_level FPublish (w_disk w) \<le> unat (d_Serial dir)" "mark_level FPublish d1 = Suc (unat (d_Serial dir))"
      using Reserve_raises [of "e_io E 4"] assms(1) q by auto
    let ?W = "Write (e_libs E) (e_json E) (e_io E 5) (e_now E) dir [] d1"
    let ?d2 = "fst ?W"
    have d2: "mark_level FPublish d1 \<le> mark_level FPublish ?d2"
      using disk_change_marks(2) [OF Write_change] assms(1) by blast
    have d3: "mark_level FPublish ?d2 \<le> mark_level FPublish (fst (WriteSource (e_libs E) (e_io E 6) (e_now E) dir ?d2))"
      using disk_change_marks(2) [OF WriteSource_change] assms(1) by blast
    obtain s1 pe where p: "di_Put D blob (w_drop w) = (s1, pe)" by fastforce
    have "\<exists>d fs. w' = w\<lparr>w_disk := d, w_drop := s1, w_files := fs, w_uploads := w_uploads w @ [dir]\<rparr> \<and>
        mark_level FPublish d1 \<le> mark_level FPublish d"
      by (rule publishDirectory_tail [OF assms(2) \<open>Seal _ _ _ _ _ = Inr blob\<close> q [unfolded Inr] p d2 d3])
    then obtain d fs where "w' = w\<lparr>w_disk := d, w_drop := s1, w_files := fs, w_uploads := w_uploads w @ [dir]\<rparr>"
      "mark_level FPublish d1 \<le> mark_level FPublish d" by blast
    then show ?thesis using r le by (intro exI [of _ d] exI [of _ s1] exI [of _ fs]) simp
  qed
qed

lemma publishDirectory_uploads:
  assumes "\<forall>k. io_ok (e_io E k)" and "publishDirectory E cfg D dir ws w = (w', r)" and "uploads_ok w"
  shows "uploads_ok w'"
proof -
  obtain d s fs where m: "mark_level FPublish (w_disk w) \<le> mark_level FPublish d"
    and c: "w' = w\<lparr>w_disk := d, w_drop := s, w_files := fs\<rparr> \<or>
     w' = w\<lparr>w_disk := d, w_drop := s, w_files := fs, w_uploads := w_uploads w @ [dir]\<rparr> \<and>
       mark_level FPublish (w_disk w) \<le> unat (d_Serial dir) \<and> Suc (unat (d_Serial dir)) \<le> mark_level FPublish d"
    using publishDirectory_world [OF assms(1,2)] by blast
  from c show ?thesis
  proof
    assume "w' = w\<lparr>w_disk := d, w_drop := s, w_files := fs\<rparr>"
    then show ?thesis using uploads_ok_disk [OF assms(3) m] by simp
  next
    assume u: "w' = w\<lparr>w_disk := d, w_drop := s, w_files := fs, w_uploads := w_uploads w @ [dir]\<rparr> \<and>
       mark_level FPublish (w_disk w) \<le> unat (d_Serial dir) \<and> Suc (unat (d_Serial dir)) \<le> mark_level FPublish d"
    have "d_Serial x < d_Serial dir" if "x \<in> set (w_uploads w)" for x
      using assms(3) that u by (auto simp: uploads_ok_def word_less_nat_alt)
    with u m assms(3) show ?thesis by (auto simp: uploads_ok_def sorted_wrt_append)
  qed
qed

lemma saveAdminDirectory_uploads:
  assumes "\<forall>k. io_ok (e_io E k)" and "saveAdminDirectory E cfg D dir np w = (w', r)" and "uploads_ok w"
  shows "uploads_ok w'"
proof (cases np)
  case True
  let ?d = "fst (WriteSource (e_libs E) (e_io E 7) (e_now E) dir (w_disk w))"
  have "w' = w\<lparr>w_disk := ?d\<rparr>"
    using assms(2) True by (auto simp: saveAdminDirectory_def split: prod.splits sum.splits)
  moreover have "mark_level FPublish (w_disk w) \<le> mark_level FPublish ?d"
    using disk_change_marks(2) [OF WriteSource_change] assms(1) by blast
  ultimately show ?thesis using uploads_ok_disk [OF assms(3), where d = ?d and s = "w_drop w" and fs = "w_files w"] by simp
next
  case False
  then show ?thesis
    using assms publishDirectory_uploads [OF assms(1)]
    by (auto simp: saveAdminDirectory_def split: prod.splits sum.splits)
qed

text \<open>The admin's machine as a state machine: its commands and synchronisations in any order, under any
  system calls that fail (a failed read never claims that the file is absent), with the drop changing
  in between in any way.\<close>

lemma runSyncOnce_cases:
  assumes "runSyncOnce E newDrop cfg s d = (d', res)"
  obtains (stop) "d' = d"
  | (wrote) D dir e where "fetchSyncDirectory E cfg D s d = Inr (dir, e)"
      "d' = fst (Write (e_libs E) (e_json E) (e_io E 2) (e_now E) dir [] d)"
proof (cases "loadReadDrop newDrop cfg")
  case (Inl e)
  then show ?thesis using assms stop by (simp add: runSyncOnce_def)
next
  case D: (Inr D)
  show ?thesis
  proof (cases "fetchSyncDirectory E cfg D s d")
    case (Inl e)
    then show ?thesis using assms stop D by (simp add: runSyncOnce_def)
  next
    case (Inr p)
    obtain dir e where p: "p = (dir, e)" by fastforce
    obtain d2 r2 where w: "Write (e_libs E) (e_json E) (e_io E 2) (e_now E) dir [] d = (d2, r2)" by fastforce
    have "d' = d2" using assms D Inr p w by (cases r2) (auto simp: runSyncOnce_def)
    then show ?thesis using wrote [of D dir e] Inr p w by simp
  qed
qed

lemma runSyncOnce_change:
  assumes "\<forall>k. io_ok (e_io E k)" and "runSyncOnce E newDrop cfg s d = (d', res)"
  shows "disk_change (e_libs E) d d'"
  using assms(2)
proof (cases rule: runSyncOnce_cases)
  case (wrote D dir e)
  then show ?thesis using Write_change assms(1) by blast
qed (simp add: disk_change.same)

section \<open>What a member accepts\<close>

text \<open>The specification of a member's state: the rollback mark and the cached directory. A step stays, or takes
  a directory that the publisher signed (or the cached one again) whose serial is not below the
  mark: it raises the mark to that serial, and the cache may follow.\<close>

type_synonym member_state = "nat \<times> directory option"

inductive member_spec :: "(directory \<Rightarrow> bool) \<Rightarrow> member_state \<Rightarrow> member_state \<Rightarrow> bool" for authentic where
  stay: "member_spec authentic (m, c) (m, c)"
| raise: "authentic dir \<or> c = Some dir \<Longrightarrow> m \<le> Suc (unat (d_Serial dir)) \<Longrightarrow>
    member_spec authentic (m, c) (Suc (unat (d_Serial dir)), c)"
| accept: "authentic dir \<or> c = Some dir \<Longrightarrow> m \<le> Suc (unat (d_Serial dir)) \<Longrightarrow>
    member_spec authentic (m, c) (Suc (unat (d_Serial dir)), Some (stamped now dir))"

definition member_abs :: "libs \<Rightarrow> disk \<Rightarrow> member_state" where
  "member_abs L d =
     (mark_level FSerial d,
      case d FCache of None \<Rightarrow> None | Some b \<Rightarrow> (case unmarshal_dir L b of Inl _ \<Rightarrow> None | Inr dir \<Rightarrow> Some dir))"

text \<open>A directory that the publisher's key has signed, as \<open>Open\<close> checks it.\<close>

definition signed_by :: "libs \<Rightarrow> string \<Rightarrow> directory \<Rightarrow> bool" where
  "signed_by L pub dir =
     (\<exists>key pay sig. DecodeEd25519Public pub = Inr key \<and> ed_Verify (l_ed L) key (signingBytes pay) sig \<and>
        unmarshal_dir L pay = Inr dir)"

lemma Open_signed: "Open L blob ident pub = Inr (dir, pay) \<Longrightarrow> signed_by L pub dir"
  by (auto simp: Open_def signed_by_def unmarshal_dir_def split: if_splits)

lemma WGKeyFromBytes_canonical: "wglib_ok W \<Longrightarrow> WGKeyFromBytes W raw = Inr s \<Longrightarrow> canonical_key W s"
  by (cases "length raw = 32") (auto simp: WGKeyFromBytes_def canonical_key_def wglib_ok_def is_ok_iff)

lemma DecodeMsgpack_canonical: "wglib_ok W \<Longrightarrow> DecodeMsgpack W ws = Inr ns \<Longrightarrow> list_all (canonical_node W) ns"
  by (induction ws arbitrary: ns)
    (auto simp: fromWire_def canonical_node_def split: if_splits dest: WGKeyFromBytes_canonical)

lemma unmarshal_canonical:
  assumes "libs_ok L" and "unmarshal_dir L b = Inr dir"
  shows "list_all (canonical_node (l_wg L)) (d_Nodes dir)"
  using assms DecodeMsgpack_canonical
  by (auto simp: unmarshal_dir_def UnmarshalPlain_def msgpack_Unmarshal_def libs_ok_def)

text \<open>What a directory that was read once is read back as after it is written again.\<close>

lemma rewritten:
  assumes "libs_ok L" and "unmarshal_dir L b = Inr dir" and "marshal_dir L now dir = Inr pay"
  shows "unmarshal_dir L pay = Inr (stamped now dir)"
  using assms(1) unmarshal_canonical [OF assms(1,2)] assms(3)
  unfolding unmarshal_dir_def marshal_dir_def by (intro marshal_unmarshal_lemma) (auto simp: libs_ok_def)

lemma Write_stages:
  assumes "io_ok io"
  shows "fst (Write L J io now dir etag d) = d \<or>
    (\<exists>pay. marshal_dir L now dir = Inr pay \<and> mark_level FSerial d \<le> Suc (unat (d_Serial dir)) \<and>
       fst (Write L J io now dir etag d) \<in> write_stages (d_Serial dir) pay d)"
proof (cases "marshal_dir L now dir")
  case (Inl e)
  then show ?thesis by (simp add: Write_def)
next
  case (Inr pay)
  show ?thesis
  proof (rule guarded_cases [OF assms, of "\<lambda>prev. d_Serial dir < prev" "d_Serial dir"
        "\<lambda>e. Inl (Wrap ''read cache serial'' e)" "Inl (Err ''refusing to lower cached serial'')"
        FSerial "writeFiles J io now dir etag pay" d])
  qed (use Inr writeFiles_stages [of J io now dir etag pay d] in \<open>auto simp: Write_guarded\<close>)
qed

lemma Write_member:
  assumes "libs_ok L" and "io_ok io" and "unmarshal_dir L b = Inr dir"
    and "authentic dir \<or> snd (member_abs L d) = Some dir"
  shows "member_spec authentic (member_abs L d) (member_abs L (fst (Write L J io now dir etag d)))"
proof -
  let ?d = "fst (Write L J io now dir etag d)"
  obtain m c where mc: "member_abs L d = (m, c)" by fastforce
  from Write_stages [OF assms(2), of L J now dir etag d] show ?thesis
  proof (elim disjE exE conjE)
    assume "?d = d"
    then show ?thesis by (simp add: mc member_spec.stay)
  next
    fix pay
    assume p: "marshal_dir L now dir = Inr pay" and le: "mark_level FSerial d \<le> Suc (unat (d_Serial dir))"
      and st: "?d \<in> write_stages (d_Serial dir) pay d"
    have u: "unmarshal_dir L pay = Inr (stamped now dir)" by (rule rewritten [OF assms(1,3) p])
    have m: "m \<le> Suc (unat (d_Serial dir))" "c = snd (member_abs L d)" using le mc by (auto simp: member_abs_def)
    have "member_abs L ?d \<in> {(m, c), (Suc (unat (d_Serial dir)), c), (Suc (unat (d_Serial dir)), Some (stamped now dir))}"
      using st mc by (auto simp: write_stages_def member_abs_def mark_level_upd u)
    then show ?thesis
      using member_spec.stay member_spec.raise [OF _ m(1)] member_spec.accept [OF _ m(1)] assms(4) m(2)
      unfolding mc by auto
  qed
qed

lemma fetchSyncDirectory_source:
  assumes "fetchSyncDirectory E cfg D s d = Inr (dir, dropErr)"
  shows "\<exists>b. unmarshal_dir (e_libs E) b = Inr dir \<and>
    (signed_by (e_libs E) (dc_PublisherPubKey (c_Directory cfg)) dir \<or> snd (member_abs (e_libs E) d) = Some dir)"
proof (cases "di_Get D s")
  case (Inl e)
  then obtain b where "Read (e_libs E) (e_io E 0) d = Inr (dir, b)"
    using assms by (auto simp: fetchSyncDirectory_def split: sum.splits)
  then have "d FCache = Some b \<and> unmarshal_dir (e_libs E) b = Inr dir"
    by (auto simp: Read_def os_ReadFile_def split: sum.splits option.splits if_splits)
  then show ?thesis by (auto simp: member_abs_def)
next
  case (Inr blob)
  then obtain pay where o: "Open (e_libs E) blob (dc_NetworkIdentity (c_Directory cfg)) (dc_PublisherPubKey (c_Directory cfg)) = Inr (dir, pay)"
    using assms by (cases "ReadSerial (e_io E 1) d") (auto simp: fetchSyncDirectory_def split: if_splits)
  have "unmarshal_dir (e_libs E) pay = Inr dir"
    using o by (auto simp: Open_def unmarshal_dir_def split: if_splits)
  with Open_signed [OF o] show ?thesis by blast
qed

section \<open>From the publisher to the member\<close>

lemma publishDirectory_ok:
  assumes "publishDirectory E cfg D dir ws w = (w', Inr ())"
  obtains blob where "Seal (e_libs E) (e_rnd E) (e_now E) dir (dc_PublisherKey (c_Directory cfg)) = Inr blob"
    and "di_Put D blob (w_drop w) = (w_drop w', None)"
proof (cases "Seal (e_libs E) (e_rnd E) (e_now E) dir (dc_PublisherKey (c_Directory cfg))")
  case (Inl e)
  then show ?thesis using assms by (simp add: publishDirectory_def)
next
  case (Inr blob)
  obtain d1 q where q: "ReservePublishSerial (e_io E 4) (d_Serial dir) (w_disk w) = (d1, q)" by fastforce
  obtain s1 pe where p: "di_Put D blob (w_drop w) = (s1, pe)" by fastforce
  obtain e2 r2 where w2: "Write (e_libs E) (e_json E) (e_io E 5) (e_now E) dir [] d1 = (e2, r2)" by fastforce
  obtain e3 r3 where w3: "(if ws then WriteSource (e_libs E) (e_io E 6) (e_now E) dir e2 else (e2, Inr ())) = (e3, r3)" by fastforce
  have "pe = None \<and> w_drop w' = s1"
    using assms Inr q p w2 w3
    by (cases q; cases pe; cases r2; cases r3) (auto simp: publishDirectory_def split: prod.splits)
  with Inr p show ?thesis using that by simp
qed

lemma Write_fine:
  assumes "marshal_dir L now dir = Inr pay" and "mark_level FSerial d \<le> Suc (unat (d_Serial dir))"
    and "d FSerial = None \<or> mark FSerial d \<noteq> None"
    and "js_EncodeState J \<lparr>s_LastSync = now, s_LastETag = etag, s_Serial = d_Serial dir\<rparr> = Inr sb"
  shows "Write L J io_fine now dir etag d =
    (d(FSerial \<mapsto> formatSerial (d_Serial dir), FCache \<mapsto> pay, FState \<mapsto> sb @ [NL]), Inr ())"
proof -
  have w: "writeFiles J io_fine now dir etag pay d =
      (d(FSerial \<mapsto> formatSerial (d_Serial dir), FCache \<mapsto> pay, FState \<mapsto> sb @ [NL]), Inr ())"
    using assms(4) by (simp add: writeFiles_def writeSerialFile_def renameio_WriteFile_def)
  have "withStateLock io_fine fn d = fn d" for fn by (simp add: withStateLock_def ensureDir_def)
  moreover have "readSerial io_fine FSerial d = Inl ErrNotExist \<or> (\<exists>m. readSerial io_fine FSerial d = Inr m \<and> m \<le> d_Serial dir)"
  proof (cases "d FSerial")
    case None
    then show ?thesis by (simp add: readSerial_def os_ReadFile_def)
  next
    case (Some b)
    with assms(3) obtain m where m: "mark FSerial d = Some m" by auto
    then have "m \<le> d_Serial dir" using assms(2) by (simp add: mark_level_def word_le_nat_alt)
    then show ?thesis using readSerial_mark [OF _ m] by simp
  qed
  ultimately show ?thesis by (auto simp: Write_guarded [OF assms(1)] guarded_def w)
qed

lemma fetchSync_fine:
  assumes "di_Get D s = Inr blob"
    and "Open (e_libs E) blob (dc_NetworkIdentity (c_Directory cfg)) (dc_PublisherPubKey (c_Directory cfg)) = Inr (dir, pay)"
    and "e_io E 1 = io_fine" and "mark_level FSerial d \<le> Suc (unat (d_Serial dir))" and "d FSerial = None \<or> mark FSerial d \<noteq> None"
  shows "fetchSyncDirectory E cfg D s d = Inr (dir, None)"
proof (cases "d FSerial")
  case None
  then show ?thesis using assms(1-3) by (simp add: fetchSyncDirectory_def ReadSerial_def readSerial_def os_ReadFile_def)
next
  case (Some b)
  with assms(5) obtain m where m: "mark FSerial d = Some m" by auto
  then have "\<not> IsRollback (d_Serial dir) m" using assms(4) by (simp add: IsRollback_def mark_level_def word_less_nat_alt)
  then show ?thesis using assms(1-3) readSerial_mark [OF _ m, of io_fine] by (simp add: fetchSyncDirectory_def ReadSerial_def)
qed

lemma marshal_again:
  assumes "libs_ok L" and "marshal_dir L now dir = Inr pay" and "d_CreatedAt dir \<noteq> 0"
  shows "marshal_dir L now' (stamped now dir) = Inr pay"
proof -
  have "stamped now' (stamped now dir) = stamped now dir" using assms(3) by (simp add: stamped_def time_IsZero_def)
  then show ?thesis using assms(2) by (simp add: marshal_dir_def MarshalPlain_def)
qed

section \<open>A publication, evaluated\<close>

definition demo_env :: "libs \<Rightarrow> env" where
  "demo_env L = \<lparr>e_libs = L, e_json = demo_json, e_io = (\<lambda>_. io_fine), e_now = 0, e_rnd = 0, e_bootEncode = (\<lambda>_. Inr ''{}''),
     e_bootDecode = (\<lambda>_. Inl (Err ''json'')), e_bootMkdir = None, e_bootWrite = None, e_bootRead = None\<rparr>"

definition demo_cfg :: Config where
  "demo_cfg = Default\<lparr>c_Directory := \<lparr>dc_NetworkIdentity = ''age66'', dc_PublisherPubKey = demo_pub, dc_PublisherKey = demo_priv\<rparr>,
     c_Drop := \<lparr>dr_Admin = zero_DropBackend\<lparr>db_Type := ''file''\<rparr>, dr_Client = zero_DropBackend\<rparr>\<rparr>"

definition demo_drop :: "fileSystem dropI" where
  "demo_drop = \<lparr>di_Get = file_Get fine_io ''/d'', di_Put = file_Put fine_io ''/d''\<rparr>"

definition demo_world :: "fileSystem world" where
  "demo_world = \<lparr>w_disk = [FSource \<mapsto> ''D''], w_drop = Map.empty, w_files = Map.empty, w_uploads = []\<rparr>"

text \<open>Libraries whose encoder maps every directory to one payload: the law of the encoder is not needed for
  the order of the serials.\<close>

definition demo_any :: libs where
  "demo_any = (demo_libs demo_dir)\<lparr>l_mp := (demo_mp (wire_of demo_dir))\<lparr>mp_EncodeDir := (\<lambda>_. Inr ''D'')\<rparr>\<rparr>"

text \<open>Any valid directory without pre-shared keys can be sealed with these libraries.\<close>

lemma demo_any_marshal:
  assumes "Validate demo_wg demo_age (stamped now dir) = Inr ()" and "list_all (\<lambda>n. n_PSK n = []) (d_Nodes dir)"
  shows "marshal_dir demo_any now dir = Inr ''D''"
proof -
  obtain p where "list_all (node_ok demo_wg demo_age (d_Domain dir) p) (d_Nodes dir)"
    using assms(1) by (auto simp: Validate_ok directory_ok_def stamped_def)
  then have "is_ok (EncodeMsgpack demo_wg (d_Nodes dir))"
    using assms(2) by (intro EncodeMsgpack_total) (auto simp: list_all_iff)
  then obtain ws where "EncodeMsgpack demo_wg (d_Nodes dir) = Inr ws" by (auto simp: is_ok_iff)
  then show ?thesis
    using assms(1) by (simp add: marshal_dir_def MarshalPlain_def Let_def msgpack_Marshal_def demo_any_def stamped_def)
qed

lemma demo_any_seal:
  assumes "marshal_dir demo_any 0 dir = Inr ''D''" and "recipientsOf demo_age (d_Nodes dir) = Inr rs" and "rs \<noteq> []"
  shows "\<exists>blob. Seal demo_any 0 0 dir demo_priv = Inr blob"
  using assms demo_keys(1) by (simp add: marshal_dir_def Seal_def demo_any_def)

lemma demo_dir_psk: "list_all (\<lambda>n. n_PSK n = []) (d_Nodes demo_dir)"
  by (simp add: demo_dir_def demo_node_def zero_node_def)

lemma Validate_stamp:
  assumes "Validate W A dir = Inr ()"
  shows "Validate W A (stamped now (dir\<lparr>d_Serial := s, d_CreatedAt := t\<rparr>)) = Inr ()"
  using assms by (simp add: Validate_ok directory_ok_def stamped_def)

lemma demo_env_simps [simp]:
  "e_libs (demo_env L) = L" "e_json (demo_env L) = demo_json" "e_io (demo_env L) k = io_fine" "e_now (demo_env L) = 0"
  "e_rnd (demo_env L) = 0" "e_bootEncode (demo_env L) b = Inr ''{}''" "e_bootMkdir (demo_env L) = None" "e_bootWrite (demo_env L) = None"
  by (simp_all add: demo_env_def)

lemma demo_cfg_simps [simp]:
  "dc_NetworkIdentity (c_Directory demo_cfg) = ''age66''" "dc_PublisherPubKey (c_Directory demo_cfg) = demo_pub"
  "dc_PublisherKey (c_Directory demo_cfg) = demo_priv" "db_Type (dr_Admin (c_Drop demo_cfg)) = ''file''"
  by (simp_all add: demo_cfg_def)

lemma demo_drop_simps [simp]:
  "di_Get demo_drop = file_Get fine_io ''/d''" "di_Put demo_drop dat s = (s(''/d'' \<mapsto> dat), None)"
  by (simp_all add: demo_drop_def file_Put_def fine_io_def)

lemma io_fine_write:
  "withStateLock io_fine fn d = fn d" "renameio_WriteFile io_fine f dat d = (d(f \<mapsto> dat), Inr ())"
  by (simp_all add: withStateLock_def ensureDir_def renameio_WriteFile_def)

lemma demo_published:
  assumes "Seal L 0 0 dir demo_priv = Inr blob" and "marshal_dir L 0 dir = Inr pay"
    and "d FPublish = None" and "d FSerial = None" and "w_disk w = d" and "is_ok (f (bootstrap_Network demo_cfg (d_Serial dir)))"
  shows "\<exists>w'. publishDirectory ((demo_env L)\<lparr>e_bootEncode := f\<rparr>) demo_cfg demo_drop dir ws w = (w', Inr ()) \<and>
    w_drop w' = (w_drop w)(''/d'' \<mapsto> blob) \<and> w_uploads w' = w_uploads w @ [dir]"
proof -
  have r: "ReservePublishSerial io_fine (d_Serial dir) d = (d(FPublish \<mapsto> formatSerial (d_Serial dir)), Inr ())"
    using assms(3) by (simp add: ReservePublishSerial_def io_fine_write ReadPublishSerial_def readSerial_def os_ReadFile_def)
  have j: "js_EncodeState demo_json st = Inr ''{}''" for st by (simp add: demo_json_def)
  have "Write L demo_json io_fine 0 dir [] (d(FPublish \<mapsto> formatSerial (d_Serial dir))) =
      (d(FPublish \<mapsto> formatSerial (d_Serial dir), FSerial \<mapsto> formatSerial (d_Serial dir), FCache \<mapsto> pay, FState \<mapsto> ''{}'' @ [NL]), Inr ())"
    using assms(4) by (intro Write_fine [OF assms(2) _ _ j]) (simp_all add: mark_level_def mark_def)
  with r show ?thesis using assms
    by (auto simp: publishDirectory_def WriteSource_def io_fine_write bootstrap_Write_def is_ok_iff)
qed

lemma demo_env_boot: "(demo_env L)\<lparr>e_bootEncode := \<lambda>_. Inr ''{}''\<rparr> = demo_env L"
  by (simp add: demo_env_def)

lemmas demo_published_env = demo_published [where f = "\<lambda>_. Inr ''{}''", unfolded demo_env_boot]

text \<open>The serial of a first publication, and the publication of any valid directory.\<close>

lemma demo_prepare:
  assumes "e_libs E = demo_any" and "\<And>k. e_io E k = io_fine" and "e_now E = 0" and "d_Serial dir \<noteq> -1"
  shows "preparePublishSerial E dir (fetchDirectory E demo_cfg demo_drop Map.empty) force [FSource \<mapsto> ''D''] =
    Inr (dir\<lparr>d_Serial := d_Serial dir + 1, d_CreatedAt := Stamp 0\<rparr>)"
  using assms by (simp add: preparePublishSerial_def reconcilePublishSerial_def raiseToFloor_def bumpDirectory_def fetchDirectory_def
      file_Get_def fine_io_def ReadSerial_def ReadPublishSerial_def readSerial_def os_ReadFile_def)

lemma demo_publish:
  assumes "Validate demo_wg demo_age dir = Inr ()" and "list_all (\<lambda>n. n_PSK n = []) (d_Nodes dir)"
    and "recipientsOf demo_age (d_Nodes dir) = Inr rs" and "rs \<noteq> []" and "is_ok (f (bootstrap_Network demo_cfg s))"
  obtains w' where "publishDirectory ((demo_env demo_any)\<lparr>e_bootEncode := f\<rparr>) demo_cfg demo_drop
      (dir\<lparr>d_Serial := s, d_CreatedAt := t\<rparr>) True demo_world = (w', Inr ())"
    and "w_uploads w' = [dir\<lparr>d_Serial := s, d_CreatedAt := t\<rparr>]"
proof -
  let ?dir = "dir\<lparr>d_Serial := s, d_CreatedAt := t\<rparr>"
  have m: "marshal_dir demo_any 0 ?dir = Inr ''D''"
    using assms(2) by (intro demo_any_marshal Validate_stamp assms(1)) simp
  obtain blob where "Seal demo_any 0 0 ?dir demo_priv = Inr blob"
    using demo_any_seal [OF m] assms(3,4) by auto
  from demo_published [OF this m, of "w_disk demo_world" demo_world f True] assms(5) that
  show ?thesis by (auto simp: demo_world_def)
qed

lemma demo_asAdmin:
  assumes "e_libs E = demo_any" and "e_io E 8 = io_fine"
  shows "asAdmin E (\<lambda>_. Inr demo_drop) (Inr demo_cfg) = Inr (demo_cfg, demo_drop)"
proof -
  have "trimSpace demo_priv = demo_priv" by (simp add: demo_priv_def trimSpace_no_space std_encode_no_space)
  moreover have "DecodeEd25519Private [] \<noteq> Inr (replicate 64 (CHR ''k''))" by code_simp
  ultimately have t: "trimSpace demo_priv \<noteq> []" using demo_keys(1) by metis
  then show ?thesis
    using demo_keys assms
    by (simp add: asAdmin_def RequireAdmin_def ValidateEd25519Pair_def LockAdmin_def ensureDir_def loadAdminDrop_def demo_any_def)
qed

lemma demo_any_unmarshal: "unmarshal_dir demo_any ''D'' = Inr demo_dir"
  using demo_unmarshal_dir by (simp add: unmarshal_dir_def demo_any_def UnmarshalPlain_def msgpack_Unmarshal_def)

section \<open>Properties\<close>

text \<open>C3: a synchronisation refines the specification of a member: whatever the drop serves and whichever
  system calls fail, the rollback mark and the cached directory change only by taking a directory that
  carries the publisher's signature, or the cached one, with a serial that is not below the mark.\<close>

theorem sync_refines_member_spec:
  assumes "libs_ok (e_libs E)" and "\<forall>k. io_ok (e_io E k)" and "runSyncOnce E newDrop cfg s d = (d', res)"
  shows "member_spec (signed_by (e_libs E) (dc_PublisherPubKey (c_Directory cfg))) (member_abs (e_libs E) d) (member_abs (e_libs E) d')"
proof -
  have st: "member_spec sg x x" for sg x by (cases x) (simp add: member_spec.stay)
  from assms(3) show ?thesis
  proof (cases rule: runSyncOnce_cases)
    case (wrote D dir e)
    obtain b where b: "unmarshal_dir (e_libs E) b = Inr dir"
      "signed_by (e_libs E) (dc_PublisherPubKey (c_Directory cfg)) dir \<or> snd (member_abs (e_libs E) d) = Some dir"
      using fetchSyncDirectory_source [OF wrote(1)] by blast
    have "io_ok (e_io E 2)" using assms(2) by blast
    from Write_member [where authentic = "signed_by (e_libs E) (dc_PublisherPubKey (c_Directory cfg))",
        OF assms(1) this b(1), of d "e_json E" "e_now E" "[]"] b(2)
    show ?thesis unfolding wrote(2) by blast
  qed (simp add: st)
qed

theorem sync_refines_member_spec_witness:
  "member_spec (signed_by (demo_libs demo_dir) demo_pub) (member_abs (demo_libs demo_dir) Map.empty)
     (member_abs (demo_libs demo_dir) (fst (runSyncOnce (demo_env (demo_libs demo_dir)) (\<lambda>_. Inr demo_drop) demo_cfg
        [''/d'' \<mapsto> demo_blob] Map.empty)))"
  using sync_refines_member_spec [where E = "demo_env (demo_libs demo_dir)" and cfg = demo_cfg and newDrop = "\<lambda>_. Inr demo_drop"
      and s = "[''/d'' \<mapsto> demo_blob]" and d = Map.empty, OF _ _ surjective_pairing]
  by (simp add: demo_libs_ok)

text \<open>C1: end to end: once the admin's publication went through, a member whose drop answers gets exactly the
  published directory. Its next synchronisation succeeds, reads it from the drop and not from the
  cache, and leaves the directory in the member's cache with its serial as the rollback mark. This is for
  any drop that keeps the contract of a dead drop, a member with an age key in the directory, and a
  member's disk that works and is not already ahead.\<close>

theorem sync_reads_published:
  assumes "libs_ok (e_libs E)" and "e_libs E' = e_libs E" and "dead_drop (di_Put D) (di_Get D) good" and "good (w_drop w)"
    and "publishDirectory E cfg D dir ws w = (w', Inr ())" and "d_CreatedAt dir \<noteq> 0"
    and "list_all (canonical_node (l_wg (e_libs E))) (d_Nodes dir)"
    and "DecodeEd25519Private (dc_PublisherKey (c_Directory cfg)) = Inr k"
    and "DecodeEd25519Public (dc_PublisherPubKey (c_Directory cfg')) = Inr (ed_Public (l_ed (e_libs E)) k)"
    and "ParseAgeIdentity (l_age (e_libs E)) (dc_NetworkIdentity (c_Directory cfg')) = Inr i"
    and "n \<in> set (d_Nodes dir)" and "n_AgeRecipient n \<noteq> []"
    and "ParseAgeRecipient (l_age (e_libs E)) (n_AgeRecipient n) = Inr (age_Recipient (l_age (e_libs E)) i)"
    and "newDrop (ReadDrop cfg') = Inr D" and "di_Get D (w_drop w') = Inr blob" and "length blob \<le> MaxBlobSize"
    and "\<forall>k. e_io E' k = io_fine" and "mark_level FSerial d \<le> Suc (unat (d_Serial dir))"
    and "d FSerial = None \<or> mark FSerial d \<noteq> None" and "\<forall>st. is_ok (js_EncodeState (e_json E') st)"
  shows "\<exists>d' res. runSyncOnce E' newDrop cfg' (w_drop w') d = (d', Inr res) \<and> sr_Directory res = stamped (e_now E) dir \<and>
    \<not> sr_FromCache res \<and> member_abs (e_libs E) d' = (Suc (unat (d_Serial dir)), Some (stamped (e_now E) dir))"
proof -
  let ?L = "e_libs E" and ?dir = "stamped (e_now E) dir"
  obtain b0 where seal: "Seal ?L (e_rnd E) (e_now E) dir (dc_PublisherKey (c_Directory cfg)) = Inr b0"
    and put: "di_Put D b0 (w_drop w) = (w_drop w', None)" by (rule publishDirectory_ok [OF assms(5)])
  have b0: "blob = b0" using dead_drop.put_get [OF assms(3,4) put assms(15)] .
  obtain pay where pay: "marshal_dir ?L (e_now E) dir = Inr pay"
    using seal by (auto simp: marshal_dir_def elim: Seal_parts)
  have op: "Open ?L blob (dc_NetworkIdentity (c_Directory cfg')) (dc_PublisherPubKey (c_Directory cfg')) = Inr (?dir, pay)"
    using Open_Seal [OF assms(1,7) seal _ assms(8,9,10,11,12,13)] assms(16) pay by (simp add: b0 marshal_dir_def)
  have ser: "d_Serial ?dir = d_Serial dir" by (simp add: stamped_def)
  have f: "fetchSyncDirectory E' cfg' D (w_drop w') d = Inr (?dir, None)"
    using assms(17,18,19) op by (intro fetchSync_fine [OF assms(15)]) (simp_all add: assms(2) ser)
  obtain sb where sb: "js_EncodeState (e_json E') \<lparr>s_LastSync = e_now E', s_LastETag = [], s_Serial = d_Serial ?dir\<rparr> = Inr sb"
    using assms(20) by (auto simp: is_ok_iff)
  have wr: "Write ?L (e_json E') io_fine (e_now E') ?dir [] d =
      (d(FSerial \<mapsto> formatSerial (d_Serial ?dir), FCache \<mapsto> pay, FState \<mapsto> sb @ [NL]), Inr ())"
    using assms(18,19) by (intro Write_fine [OF marshal_again [OF assms(1) pay assms(6)] _ _ sb]) (simp_all add: ser)
  have "unmarshal_dir ?L pay = Inr ?dir"
    using assms(1,7) pay unfolding unmarshal_dir_def marshal_dir_def by (intro marshal_unmarshal_lemma) (auto simp: libs_ok_def)
  then have "member_abs ?L (d(FSerial \<mapsto> formatSerial (d_Serial ?dir), FCache \<mapsto> pay, FState \<mapsto> sb @ [NL])) =
      (Suc (unat (d_Serial dir)), Some ?dir)"
    by (simp add: member_abs_def mark_level_def mark_def ser)
  then show ?thesis using f wr assms(14,17) by (simp add: runSyncOnce_def loadReadDrop_def assms(2))
qed

theorem sync_reads_published_witness:
  "\<exists>w' :: fileSystem world. w_uploads w' = [demo_dir] \<and>
     (\<exists>d' res. runSyncOnce (demo_env (demo_libs demo_dir)) (\<lambda>_. Inr demo_drop) demo_cfg (w_drop w') Map.empty = (d', Inr res) \<and>
        sr_Directory res = demo_dir \<and> \<not> sr_FromCache res \<and> member_abs (demo_libs demo_dir) d' = (6, Some demo_dir))"
proof -
  let ?L = "demo_libs demo_dir"
  have "\<exists>w'. publishDirectory (demo_env ?L) demo_cfg demo_drop demo_dir True demo_world = (w', Inr ()) \<and>
      w_drop w' = (w_drop demo_world)(''/d'' \<mapsto> demo_blob) \<and> w_uploads w' = w_uploads demo_world @ [demo_dir]"
    by (rule demo_published_env [OF demo_seal demo_marshal_dir]) (simp_all add: demo_world_def)
  then obtain w' where p: "publishDirectory (demo_env ?L) demo_cfg demo_drop demo_dir True demo_world = (w', Inr ())"
    and d: "w_drop w' = [''/d'' \<mapsto> demo_blob]" and u: "w_uploads w' = [demo_dir]"
    by (auto simp: demo_world_def)
  have g: "di_Get demo_drop (w_drop w') = Inr demo_blob"
    using demo_blob_size by (simp add: d file_Get_def fine_io_def readBounded_Inr)
  have dd: "dead_drop (di_Put demo_drop) (di_Get demo_drop) (\<lambda>_. True)"
    unfolding demo_drop_def by (simp add: fdrop.dead_drop_axioms)
  have m: "mark_level FSerial Map.empty \<le> Suc (unat (d_Serial demo_dir))" "unat (d_Serial demo_dir) = 5" "d_CreatedAt demo_dir \<noteq> 0"
    by (simp_all add: mark_level_def mark_def demo_dir_def)
  have "\<exists>d' res. runSyncOnce (demo_env ?L) (\<lambda>_. Inr demo_drop) demo_cfg (w_drop w') Map.empty = (d', Inr res) \<and>
      sr_Directory res = stamped (e_now (demo_env ?L)) demo_dir \<and> \<not> sr_FromCache res \<and>
      member_abs (e_libs (demo_env ?L)) d' = (Suc (unat (d_Serial demo_dir)), Some (stamped (e_now (demo_env ?L)) demo_dir))"
    by (rule sync_reads_published [where cfg = demo_cfg and D = demo_drop and good = "\<lambda>_. True" and ws = True and w = demo_world
          and k = "replicate 64 (CHR ''k'')" and i = "''age66''" and n = "demo_node ''b'' 66 ''10.42.0.2'' [] True" and blob = demo_blob])
      (use p g dd m(1,3) demo_keys demo_identity demo_member demo_dir_canonical demo_blob_size in
        \<open>simp_all add: demo_libs_ok demo_json_def\<close>)
  moreover have "Suc (unat (d_Serial demo_dir)) = 6" using m(2) by simp
  ultimately show ?thesis unfolding demo_env_simps demo_dir_stamped using u by (metis (no_types))
qed

end
