(* ===== verification/Observe.thy ===== *)
theory Observe
  imports Relay
begin

text \<open>
  Endpoint observation by the publishing admin (\<open>src/internal/admin/observe.go\<close>): what the admin's
  kernel sees of each peer becomes the published \<open>ObservedEndpoint\<close>, unless the endpoint was one the
  daemon pushed into the kernel itself.
\<close>

section \<open>The merge\<close>

definition DefaultHandshakeFresh :: duration where "DefaultHandshakeFresh = 180 * second"

text \<open>\<open>pushedAt[key]\<close>: the zero time when there is no entry.\<close>

definition pushedAt_of :: "(string \<times> gotime) list \<Rightarrow> string \<Rightarrow> gotime" where
  "pushedAt_of m k = (case map_of m k of Some t \<Rightarrow> t | None \<Rightarrow> 0)"

definition hasFreshHandshake :: "gotime \<Rightarrow> duration \<Rightarrow> wgpeer option \<Rightarrow> bool" where
  "hasFreshHandshake now fresh peer =
     (case peer of None \<Rightarrow> False
      | Some p \<Rightarrow> wp_Endpoint p \<noteq> None \<and> \<not> time_IsZero (wp_LastHandshake p) \<and>
          time_Sub now (wp_LastHandshake p) \<le> fresh)"

text \<open>The body of the loop for one node: the node after it and whether it was changed.\<close>

definition mergeNode ::
  "wglib \<Rightarrow> (bytes \<Rightarrow> wgpeer option) \<Rightarrow> gotime \<Rightarrow> duration \<Rightarrow> (string \<times> gotime) list \<Rightarrow> node \<Rightarrow> node \<times> bool" where
  "mergeNode W byKey now fresh pushedAt n =
     (if n_Endpoint n \<noteq> [] then (n, False)
      else case ParseWGPublic W (n_PublicKey n) of
        Inl _ \<Rightarrow> (n, False)
      | Inr pub \<Rightarrow>
          if hasFreshHandshake now fresh (byKey pub) then
            let peer = the (byKey pub); observed = the (wp_Endpoint peer)
            in if \<not> wp_LastHandshake peer > pushedAt_of pushedAt (n_PublicKey n) then (n, False)
               else if n_ObservedEndpoint n \<noteq> observed
               then (n\<lparr>n_ObservedEndpoint := observed, n_ObservedAt := time_Truncate now second\<rparr>, True)
               else (n, False)
          else if n_ObservedEndpoint n \<noteq> [] \<or> \<not> time_IsZero (n_ObservedAt n)
          then (n\<lparr>n_ObservedEndpoint := [], n_ObservedAt := 0\<rparr>, True)
          else (n, False))"

definition MergeObservations ::
  "wglib \<Rightarrow> directory \<Rightarrow> wgpeer list \<Rightarrow> gotime \<Rightarrow> duration \<Rightarrow> (string \<times> gotime) list \<Rightarrow> directory \<times> bool" where
  "MergeObservations W dir peers now handshakeFresh pushedAt =
     (let fresh = (if handshakeFresh \<le> 0 then DefaultHandshakeFresh else handshakeFresh);
          res = map (mergeNode W (indexPeers peers) now fresh pushedAt) (d_Nodes dir)
      in (dir\<lparr>d_Nodes := map fst res\<rparr>, list_ex snd res))"

section \<open>Lemmas\<close>

text \<open>The cases of the loop body, by what the kernel reports.\<close>

lemma mergeNode_cases:
  obtains (keep) "mergeNode W byKey now fresh pushedAt n = (n, False)"
  | (observe) pub p e where "n_Endpoint n = []" "ParseWGPublic W (n_PublicKey n) = Inr pub" "byKey pub = Some p"
      "wp_Endpoint p = Some e" "hasFreshHandshake now fresh (Some p)"
      "pushedAt_of pushedAt (n_PublicKey n) < wp_LastHandshake p" "n_ObservedEndpoint n \<noteq> e"
      "mergeNode W byKey now fresh pushedAt n = (n\<lparr>n_ObservedEndpoint := e, n_ObservedAt := time_Truncate now second\<rparr>, True)"
  | (clear) pub where "n_Endpoint n = []" "ParseWGPublic W (n_PublicKey n) = Inr pub"
      "\<not> hasFreshHandshake now fresh (byKey pub)" "n_ObservedEndpoint n \<noteq> [] \<or> n_ObservedAt n \<noteq> 0"
      "mergeNode W byKey now fresh pushedAt n = (n\<lparr>n_ObservedEndpoint := [], n_ObservedAt := 0\<rparr>, True)"
proof (cases "n_Endpoint n = []")
  case True
  note ep = this
  show ?thesis
  proof (cases "ParseWGPublic W (n_PublicKey n)")
    case (Inl e)
    with ep keep show ?thesis by (simp add: mergeNode_def)
  next
    case (Inr pub)
    note pub = this
    show ?thesis
    proof (cases "hasFreshHandshake now fresh (byKey pub)")
      case True
      then obtain p e where p: "byKey pub = Some p" "wp_Endpoint p = Some e"
        by (auto simp: hasFreshHandshake_def split: option.splits)
      have m: "mergeNode W byKey now fresh pushedAt n =
          (if pushedAt_of pushedAt (n_PublicKey n) < wp_LastHandshake p \<and> n_ObservedEndpoint n \<noteq> e
           then (n\<lparr>n_ObservedEndpoint := e, n_ObservedAt := time_Truncate now second\<rparr>, True) else (n, False))"
        using True ep pub p by (simp add: mergeNode_def Let_def)
      show ?thesis
      proof (cases "pushedAt_of pushedAt (n_PublicKey n) < wp_LastHandshake p \<and> n_ObservedEndpoint n \<noteq> e")
        case c: True
        with m p(1) True show ?thesis by (intro observe [OF ep pub p]) simp_all
      qed (use m in \<open>intro keep, simp only: if_False\<close>)
    next
      case False
      then have m: "mergeNode W byKey now fresh pushedAt n =
          (if n_ObservedEndpoint n \<noteq> [] \<or> n_ObservedAt n \<noteq> 0
           then (n\<lparr>n_ObservedEndpoint := [], n_ObservedAt := 0\<rparr>, True) else (n, False))"
        using ep pub by (simp add: mergeNode_def time_IsZero_def)
      show ?thesis
      proof (cases "n_ObservedEndpoint n \<noteq> [] \<or> n_ObservedAt n \<noteq> 0")
        case c: True
        with m show ?thesis by (intro clear [OF ep pub False]) (simp_all only: if_True)
      qed (use m in \<open>intro keep, simp only: if_False\<close>)
    qed
  qed
qed (use keep in \<open>simp add: mergeNode_def\<close>)

lemma node_update_eq:
  "n\<lparr>n_ObservedEndpoint := e, n_ObservedAt := t\<rparr> = n \<longleftrightarrow> n_ObservedEndpoint n = e \<and> n_ObservedAt n = t"
  by (cases n) auto

lemma mergeNode_flag: "snd (mergeNode W byKey now fresh pushedAt n) \<longleftrightarrow> fst (mergeNode W byKey now fresh pushedAt n) \<noteq> n"
  by (rule mergeNode_cases [of W byKey now fresh pushedAt n]) (simp_all add: node_update_eq)

lemma mergeNode_idem:
  "mergeNode W byKey now fresh pushedAt (fst (mergeNode W byKey now fresh pushedAt n)) =
     (fst (mergeNode W byKey now fresh pushedAt n), False)"
proof (rule mergeNode_cases [of W byKey now fresh pushedAt n])
  fix pub p e
  assume "n_Endpoint n = []" "ParseWGPublic W (n_PublicKey n) = Inr pub" "byKey pub = Some p"
      "wp_Endpoint p = Some e" "hasFreshHandshake now fresh (Some p)"
      "pushedAt_of pushedAt (n_PublicKey n) < wp_LastHandshake p"
    "mergeNode W byKey now fresh pushedAt n = (n\<lparr>n_ObservedEndpoint := e, n_ObservedAt := time_Truncate now second\<rparr>, True)"
  then show ?thesis by (simp add: mergeNode_def [of _ _ _ _ _ "n_ObservedAt_update _ _"] Let_def)
next
  fix pub
  assume "n_Endpoint n = []" "ParseWGPublic W (n_PublicKey n) = Inr pub" "\<not> hasFreshHandshake now fresh (byKey pub)"
    "mergeNode W byKey now fresh pushedAt n = (n\<lparr>n_ObservedEndpoint := [], n_ObservedAt := 0\<rparr>, True)"
  then show ?thesis by (simp add: mergeNode_def [of _ _ _ _ _ "n_ObservedAt_update _ _"] time_IsZero_def)
qed simp

lemma list_ex_map_change: "list_ex (\<lambda>x. f x \<noteq> x) xs \<longleftrightarrow> map f xs \<noteq> xs"
  by (induction xs) auto

lemma mergeNode_frame:
  "\<exists>e t. fst (mergeNode W byKey now fresh pushedAt n) = n\<lparr>n_ObservedEndpoint := e, n_ObservedAt := t\<rparr>"
  by (rule mergeNode_cases [of W byKey now fresh pushedAt n]) (auto simp: node_update_eq eq_commute [of n])

lemma mergeNode_observed:
  assumes "n_ObservedEndpoint (fst (mergeNode W byKey now fresh pushedAt n)) \<noteq> n_ObservedEndpoint n"
    and "n_ObservedEndpoint (fst (mergeNode W byKey now fresh pushedAt n)) \<noteq> []"
  shows "n_Endpoint n = [] \<and> (\<exists>pub p. ParseWGPublic W (n_PublicKey n) = Inr pub \<and> byKey pub = Some p \<and>
    wp_Endpoint p = Some (n_ObservedEndpoint (fst (mergeNode W byKey now fresh pushedAt n))) \<and>
    wp_LastHandshake p \<noteq> 0 \<and> time_Sub now (wp_LastHandshake p) \<le> fresh \<and>
    pushedAt_of pushedAt (n_PublicKey n) < wp_LastHandshake p)"
  using assms
  by (rule_tac mergeNode_cases [of W byKey now fresh pushedAt n]) (auto simp: hasFreshHandshake_def time_IsZero_def)

lemma indexPeers_Some: "indexPeers peers k = Some p \<Longrightarrow> p \<in> set peers \<and> wp_PublicKey p = k"
  by (auto simp: indexPeers_def dest!: map_of_SomeD)

text \<open>The merge keeps the members and their order.\<close>

lemma mergeNode_key: "n_PublicKey (fst (mergeNode W byKey now fresh pushedAt n)) = n_PublicKey n"
  by (rule mergeNode_cases [of W byKey now fresh pushedAt n]) simp_all

lemma merge_keys:
  "map n_PublicKey (d_Nodes (fst (MergeObservations W dir peers now fresh pushedAt))) = map n_PublicKey (d_Nodes dir)"
  by (simp add: MergeObservations_def Let_def comp_def mergeNode_key)

section \<open>Properties\<close>

lemma merge_vouched:
  assumes "i < length (d_Nodes dir)"
    and "n = d_Nodes dir ! i" and "n' = d_Nodes (fst (MergeObservations W dir peers now handshakeFresh pushedAt)) ! i"
    and "n_ObservedEndpoint n' \<noteq> n_ObservedEndpoint n" and "n_ObservedEndpoint n' \<noteq> []"
  shows "n_Endpoint n = [] \<and> (\<exists>p \<in> set peers. ParseWGPublic W (n_PublicKey n) = Inr (wp_PublicKey p) \<and>
    wp_Endpoint p = Some (n_ObservedEndpoint n') \<and> wp_LastHandshake p \<noteq> 0 \<and>
    time_Sub now (wp_LastHandshake p) \<le> (if handshakeFresh \<le> 0 then DefaultHandshakeFresh else handshakeFresh) \<and>
    pushedAt_of pushedAt (n_PublicKey n) < wp_LastHandshake p)"
proof -
  let ?m = "mergeNode W (indexPeers peers) now (if handshakeFresh \<le> 0 then DefaultHandshakeFresh else handshakeFresh) pushedAt"
  have "n' = fst (?m n)" using assms(1-3) by (simp add: MergeObservations_def Let_def)
  from mergeNode_observed [of W "indexPeers peers" now _ pushedAt n, folded this] assms(4,5) show ?thesis
    unfolding \<open>n' = fst (?m n)\<close> by (metis indexPeers_Some)
qed

text \<open>No laundering. An endpoint that the merge publishes for a member is one that the kernel reports
  for the peer with that member's key, on a handshake that is fresh and later than the last
  endpoint the daemon pushed for it; and the member has no operator endpoint.\<close>

theorem observed_endpoint_vouched:
  assumes "i < length (d_Nodes dir)"
    and "n = d_Nodes dir ! i" and "n' = d_Nodes (fst (MergeObservations W dir peers now handshakeFresh pushedAt)) ! i"
    and "n_ObservedEndpoint n' \<noteq> n_ObservedEndpoint n" and "n_ObservedEndpoint n' \<noteq> []"
  shows "n_Endpoint n = [] \<and> (\<exists>p \<in> set peers. ParseWGPublic W (n_PublicKey n) = Inr (wp_PublicKey p) \<and>
    wp_Endpoint p = Some (n_ObservedEndpoint n') \<and> wp_LastHandshake p \<noteq> 0 \<and>
    time_Sub now (wp_LastHandshake p) \<le> (if handshakeFresh \<le> 0 then DefaultHandshakeFresh else handshakeFresh) \<and>
    pushedAt_of pushedAt (n_PublicKey n) < wp_LastHandshake p)"
  by (rule merge_vouched [OF assms])

theorem observed_endpoint_vouched_witness:
  "n_ObservedEndpoint (d_Nodes (fst (MergeObservations demo_wg
      (demo_dir\<lparr>d_Nodes := [demo_node ''b'' 66 ''10.42.0.2'' [] False]\<rparr>)
      [\<lparr>wp_PublicKey = replicate 32 (char_of (66 :: nat)), wp_Endpoint = Some ''1.2.3.4:5'', wp_LastHandshake = 100 * second\<rparr>]
      (110 * second) 0 [])) ! 0) = ''1.2.3.4:5'' \<and> pushedAt_of [] (n_PublicKey (demo_node ''b'' 66 ''10.42.0.2'' [] False)) < 100 * second"
proof -
  let ?b = "demo_node ''b'' 66 ''10.42.0.2'' [] False"
  let ?p = "\<lparr>wp_PublicKey = replicate 32 (char_of (66 :: nat)), wp_Endpoint = Some ''1.2.3.4:5'', wp_LastHandshake = 100 * second\<rparr>"
  let ?d = "demo_dir\<lparr>d_Nodes := [?b]\<rparr>"
  have o: "n_ObservedEndpoint (d_Nodes (fst (MergeObservations demo_wg ?d [?p] (110 * second) 0 [])) ! 0) = ''1.2.3.4:5''"
    by (simp add: MergeObservations_def mergeNode_def demo_node_fields demo_key_ok indexPeers_def hasFreshHandshake_def
        time_IsZero_def time_Sub_def minDuration_def maxDuration_def DefaultHandshakeFresh_def pushedAt_of_def Let_def)
  with observed_endpoint_vouched [of 0 ?d ?b _ demo_wg "[?p]" "110 * second" 0 "[]"] show ?thesis
    by (simp add: demo_node_fields)
qed

text \<open>the merge reports a change exactly when the directory differs, so nothing is published without
  a change and no change goes unpublished; it changes nothing but the observation of members
  without an operator endpoint; and a second merge at once finds nothing to do.\<close>

theorem merge_changes_exact:
  "case MergeObservations W dir peers now handshakeFresh pushedAt of (out, changed) \<Rightarrow>
     (changed \<longleftrightarrow> out \<noteq> dir) \<and>
     list_all2 (\<lambda>n n'. (\<exists>e t. n' = n\<lparr>n_ObservedEndpoint := e, n_ObservedAt := t\<rparr>) \<and> (n_Endpoint n = [] \<or> n' = n))
       (d_Nodes dir) (d_Nodes out) \<and>
     out = dir\<lparr>d_Nodes := d_Nodes out\<rparr> \<and>
     MergeObservations W out peers now handshakeFresh pushedAt = (out, False)"
proof -
  let ?m = "mergeNode W (indexPeers peers) now (if handshakeFresh \<le> 0 then DefaultHandshakeFresh else handshakeFresh) pushedAt"
  let ?out = "dir\<lparr>d_Nodes := map (\<lambda>n. fst (?m n)) (d_Nodes dir)\<rparr>"
  have u: "MergeObservations W dir peers now handshakeFresh pushedAt =
      (dir\<lparr>d_Nodes := map (\<lambda>n. fst (?m n)) (d_Nodes dir)\<rparr>, list_ex (\<lambda>n. snd (?m n)) (d_Nodes dir))" for dir
    by (simp add: MergeObservations_def Let_def list_ex_iff comp_def)
  have eq: "?out = dir \<longleftrightarrow> map (\<lambda>n. fst (?m n)) (d_Nodes dir) = d_Nodes dir" by (cases dir) simp
  have "list_ex (\<lambda>n. snd (?m n)) (d_Nodes dir) \<longleftrightarrow> ?out \<noteq> dir"
    unfolding eq mergeNode_flag by (rule list_ex_map_change)
  moreover have "n_Endpoint n = [] \<or> fst (?m n) = n" for n by (simp add: mergeNode_def)
  then have "list_all2 (\<lambda>n n'. (\<exists>e t. n' = n\<lparr>n_ObservedEndpoint := e, n_ObservedAt := t\<rparr>) \<and> (n_Endpoint n = [] \<or> n' = n))
       (d_Nodes dir) (d_Nodes ?out)"
    using mergeNode_frame by (simp add: list_all2_conv_all_nth)
  moreover have "MergeObservations W ?out peers now handshakeFresh pushedAt = (?out, False)"
    unfolding u by (simp add: mergeNode_idem list_ex_iff)
  ultimately show ?thesis unfolding u by simp
qed

end
