(* ===== verification/Enroll.thy ===== *)
theory Enroll
  imports Admin Observe
begin

text \<open>
  Enrolment (\<open>src/internal/cli\<close>): \<open>addnode.go\<close>, \<open>rendernode.go\<close>, the configuration of a plain WireGuard
  client in \<open>qrconfig.go\<close>, \<open>init.go\<close> and \<open>join.go\<close>. The QR library, the terminal and the sources of
  randomness are parameters; what a command prints is left out.
\<close>

section \<open>Artifacts\<close>

record enrollEnv =
  en_rndWG :: nat
  en_rndAge :: nat
  en_rndEd :: nat
  en_rndNostr :: nat
  en_qrPNG :: "string \<Rightarrow> bytes res"
  en_emitQR :: "string \<Rightarrow> error option"
  en_mkdir :: "string \<Rightarrow> error option"
  en_write :: "string \<Rightarrow> error option"

definition peerHub :: "directory \<Rightarrow> string \<Rightarrow> node option" where
  "peerHub dir selfPubKey = RelayTarget dir selfPubKey"

definition renderWGQuickConfig :: "string \<Rightarrow> string \<Rightarrow> string \<Rightarrow> string \<Rightarrow> node \<Rightarrow> string" where
  "renderWGQuickConfig privateKey tunnelIP networkCIDR domain hub =
     ''[Interface]'' @ [NL] @
     (if privateKey = [] then ''# PrivateKey = <paste this node's WireGuard private key>'' @ [NL]
      else ''PrivateKey = '' @ privateKey @ [NL]) @
     ''Address = '' @ tunnelIP @ ''/32'' @ [NL] @
     (if domain \<noteq> [] then ''DNS = '' @ n_TunnelIP hub @ '', '' @ domain @ [NL] else []) @
     [NL] @ ''[Peer]'' @ [NL] @
     ''PublicKey = '' @ n_PublicKey hub @ [NL] @
     (if n_PSK hub \<noteq> [] then ''PresharedKey = '' @ n_PSK hub @ [NL] else []) @
     ''Endpoint = '' @ n_Endpoint hub @ [NL] @
     ''AllowedIPs = '' @ networkCIDR @ [NL] @
     ''PersistentKeepalive = 25'' @ [NL]"

definition writeSecretFile :: "enrollEnv \<Rightarrow> string \<Rightarrow> bytes \<Rightarrow> fileSystem \<Rightarrow> fileSystem \<times> error option" where
  "writeSecretFile X path dat fs =
     (case en_mkdir X path of
        Some e \<Rightarrow> (fs, Some e)
      | None \<Rightarrow> (case en_write X path of Some e \<Rightarrow> (fs, Some e) | None \<Rightarrow> (fs(path \<mapsto> dat), None)))"

text \<open>The two files a command can be asked for; an empty path asks for none.\<close>

definition writeArtifacts :: "enrollEnv \<Rightarrow> string \<Rightarrow> string \<Rightarrow> string \<Rightarrow> fileSystem \<Rightarrow> fileSystem \<times> unit res" where
  "writeArtifacts X wgConf pngPath confPath fs =
     (case (if pngPath = [] then (fs, Inr ())
            else case en_qrPNG X wgConf of
              Inl e \<Rightarrow> (fs, Inl (Wrap ''render QR PNG'' e))
            | Inr png \<Rightarrow>
                (case writeSecretFile X pngPath png fs of
                   (fs', Some e) \<Rightarrow> (fs', Inl (Wrap ''write QR PNG'' e))
                 | (fs', None) \<Rightarrow> (fs', Inr ()))) of
        (fs1, Inl e) \<Rightarrow> (fs1, Inl e)
      | (fs1, Inr _) \<Rightarrow>
          if confPath = [] then (fs1, Inr ())
          else (case writeSecretFile X confPath wgConf fs1 of
                  (fs2, Some e) \<Rightarrow> (fs2, Inl (Wrap ''write WireGuard config'' e))
                | (fs2, None) \<Rightarrow> (fs2, Inr ())))"

section \<open>Adding a node\<close>

record addNodeFlags =
  an_Name :: string
  an_ClientType :: string
  an_PubKey :: string
  an_Endpoint :: string
  an_Relay :: bool
  an_NoPublish :: bool
  an_Bootstrap :: string
  an_AgeRecipient :: string
  an_WGQR :: bool
  an_WGQRPNG :: string
  an_WGConfig :: string

definition addNode_validateFlags :: "addNodeFlags \<Rightarrow> unit res" where
  "addNode_validateFlags c =
     (let anyWG = an_WGQR c \<or> an_WGQRPNG c \<noteq> [] \<or> an_WGConfig c \<noteq> []
      in if an_Relay c \<and> an_Endpoint c = [] then Inl (Err ''--relay requires --endpoint host:port'')
         else if an_ClientType c = ''wireguard'' then
           (if an_Bootstrap c \<noteq> [] then Inl (Err ''--bootstrap applies to --client-type=tincan'')
            else if \<not> anyWG then Inl (Err ''--client-type=wireguard needs at least one enrollment artifact'')
            else if an_PubKey c \<noteq> [] then Inl (Err ''--client-type=wireguard delivers a generated private key'')
            else if an_Relay c then Inl (Err ''--relay applies to --client-type=tincan'')
            else Inr ())
         else
           (if anyWG then Inl (Err ''--wg-qr, --wg-qr-png, and --wg-config require --client-type=wireguard'')
            else if an_AgeRecipient c \<noteq> [] \<and> an_PubKey c = [] then Inl (Err ''--age-recipient pairs with --pub-key'')
            else if an_PubKey c \<noteq> [] \<and> an_AgeRecipient c = [] then Inl (Err ''--pub-key needs --age-recipient too'')
            else Inr ()))"

text \<open>The names the directory refuses, then the keys of the node: \<open>(public, private, recipient, identity)\<close>,
  empty where none was generated.\<close>

definition addNode_checkName :: "directory \<Rightarrow> string \<Rightarrow> unit res" where
  "addNode_checkName dir name =
     (if nodeByName dir name \<noteq> None then Inl (Err ''node already exists'')
      else if \<not> is_ok (ValidateLabel name) then Inl (Err ''node name is not a DNS label'')
      else if d_Domain dir \<noteq> [] \<and> list_ex (\<lambda>n. equalFold (n_Name n) name) (d_Nodes dir)
      then Inl (Err ''node name collides: DNS names are case-insensitive'')
      else Inr ())"

definition addNode_keys :: "libs \<Rightarrow> enrollEnv \<Rightarrow> addNodeFlags \<Rightarrow> (string \<times> string \<times> string \<times> string) res" where
  "addNode_keys L X c =
     bindR (if an_PubKey c = [] then bindR (GenerateWGKeypair (l_wg L) (en_rndWG X)) (\<lambda>(priv, pub). Inr (pub, priv))
            else bindR (ParseWGPublic (l_wg L) (an_PubKey c)) (\<lambda>_. Inr (an_PubKey c, []))) (\<lambda>(pub, priv).
     bindR (if an_ClientType c = ''wireguard'' then Inr (an_AgeRecipient c, [])
            else if an_AgeRecipient c = [] then bindR (GenerateAgeIdentity (l_age L) (en_rndAge X)) (\<lambda>(ident, rcpt). Inr (rcpt, ident))
            else bindR (ParseAgeRecipient (l_age L) (an_AgeRecipient c)) (\<lambda>_. Inr (an_AgeRecipient c, []))) (\<lambda>(rcpt, ident).
     Inr (pub, priv, rcpt, ident)))"

text \<open>What is decided before anything is written: the new node, its secrets and the configuration of a plain
  client (empty for the others).\<close>

definition addNode_plan :: "libs \<Rightarrow> enrollEnv \<Rightarrow> addNodeFlags \<Rightarrow> directory \<Rightarrow> (node \<times> string \<times> string \<times> string) res" where
  "addNode_plan L X c dir =
     bindR (addNode_checkName dir (an_Name c)) (\<lambda>_.
     bindR (addNode_keys L X c) (\<lambda>(pub, priv, rcpt, ident).
       if list_ex (\<lambda>n. n_PublicKey n = pub) (d_Nodes dir) then Inl (Err ''public key already belongs to a node'')
       else
         bindR (if an_ClientType c = ''wireguard'' then
                  (case peerHub dir pub of None \<Rightarrow> Inl (Err ''no hub peer with a public endpoint'') | Some h \<Rightarrow> Inr h)
                else Inr zero_node) (\<lambda>hub.
         bindR (NextFreeIP (d_NetworkCIDR dir) (takenIPs dir)) (\<lambda>ip.
           Inr (zero_node\<lparr>n_Name := an_Name c, n_PublicKey := pub, n_TunnelIP := ip, n_AgeRecipient := rcpt,
                  n_Endpoint := an_Endpoint c, n_Relay := an_Relay c\<rparr>,
                priv, ident,
                (if an_ClientType c = ''wireguard''
                 then renderWGQuickConfig priv ip (d_NetworkCIDR dir) (d_Domain dir) hub else []))))))"

text \<open>The steps up to the plan: none of them writes.\<close>

definition addNode_prepare ::
  "env \<Rightarrow> enrollEnv \<Rightarrow> (DropBackend \<Rightarrow> 's dropI res) \<Rightarrow> Config res \<Rightarrow> addNodeFlags \<Rightarrow> 's world \<Rightarrow>
   (int \<times> Config \<times> 's dropI \<times> directory \<times> node \<times> string \<times> string \<times> string) res" where
  "addNode_prepare E X newDrop loaded c w =
     bindR (addNode_validateFlags c) (\<lambda>_.
     bindR (listenPortFromEndpoint (an_Endpoint c)) (\<lambda>port.
     bindR (asAdmin E newDrop loaded) (\<lambda>(cfg, D).
     bindR (fetchAdminDirectory E cfg D w) (\<lambda>dir.
     bindR (addNode_plan (e_libs E) X c dir) (\<lambda>pl. Inr (port, cfg, D, dir, pl))))))"

definition AddNodeCmd ::
  "env \<Rightarrow> enrollEnv \<Rightarrow> (DropBackend \<Rightarrow> 's dropI res) \<Rightarrow> Config res \<Rightarrow> addNodeFlags \<Rightarrow> 's world \<Rightarrow> 's world \<times> unit res" where
  "AddNodeCmd E X newDrop loaded c w =
     (case addNode_prepare E X newDrop loaded c w of
        Inl e \<Rightarrow> (w, Inl e)
      | Inr (port, cfg, D, dir, node, priv, ident, wgConf) \<Rightarrow>
          (case (if an_ClientType c = ''wireguard''
                 then writeArtifacts X wgConf (an_WGQRPNG c) (an_WGConfig c) (w_files w) else (w_files w, Inr ())) of
             (fs, Inl e) \<Rightarrow> (w\<lparr>w_files := fs\<rparr>, Inl e)
           | (fs, Inr _) \<Rightarrow>
               (case saveAdminDirectory E cfg D (dir\<lparr>d_Nodes := d_Nodes dir @ [node]\<rparr>) (an_NoPublish c) (w\<lparr>w_files := fs\<rparr>) of
                  (w1, Inl e) \<Rightarrow> (w1, Inl e)
                | (w1, Inr dir') \<Rightarrow>
                    (case (if an_Bootstrap c = [] then (w_files w1, Inr ())
                           else bootstrap_Write E (an_Bootstrap c)
                             (WithNode (bootstrap_Network cfg (d_Serial dir'))
                                \<lparr>bn_Name = an_Name c, bn_TunnelIP = n_TunnelIP node, bn_ListenPort = port,
                                 bn_PublicKey = n_PublicKey node, bn_PrivateKey = priv, bn_AgeIdentity = ident\<rparr>)
                             (w_files w1)) of
                       (fs2, Inl e) \<Rightarrow> (w1\<lparr>w_files := fs2\<rparr>, Inl e)
                     | (fs2, Inr _) \<Rightarrow>
                         (w1\<lparr>w_files := fs2\<rparr>,
                          if an_ClientType c = ''wireguard'' \<and> an_WGQR c
                          then (case en_emitQR X wgConf of None \<Rightarrow> Inr () | Some e \<Rightarrow> Inl e) else Inr ())))))"

section \<open>Rendering the configuration of a member\<close>

record renderFlags =
  rn_Name :: string
  rn_PrivateKey :: string
  rn_WGQR :: bool
  rn_WGQRPNG :: string
  rn_WGConfig :: string

definition render_validateFlags :: "renderFlags \<Rightarrow> unit res" where
  "render_validateFlags c =
     (if (rn_WGQR c \<or> rn_WGQRPNG c \<noteq> []) \<and> rn_PrivateKey c = []
      then Inl (Err ''--wg-qr/--wg-qr-png require --private-key'') else Inr ())"

definition render_plan :: "libs \<Rightarrow> renderFlags \<Rightarrow> directory \<Rightarrow> string res" where
  "render_plan L c dir =
     (case nodeByName dir (rn_Name c) of
        None \<Rightarrow> Inl (Err ''node not found in the directory'')
      | Some (node, _) \<Rightarrow>
          bindR (if rn_PrivateKey c = [] then Inr ()
                 else bindR (PublicKeyFromWGPrivate (l_wg L) (rn_PrivateKey c)) (\<lambda>pub.
                   if pub \<noteq> n_PublicKey node then Inl (Err ''--private-key does not match node'') else Inr ())) (\<lambda>_.
          (case peerHub dir (n_PublicKey node) of
             None \<Rightarrow> Inl (Err ''node has no hub peer with a public endpoint'')
           | Some hub \<Rightarrow>
               if n_PublicKey node = n_PublicKey hub then Inl (Err ''node is itself the hub/relay'')
               else Inr (renderWGQuickConfig (rn_PrivateKey c) (n_TunnelIP node) (d_NetworkCIDR dir) (d_Domain dir) hub))))"

text \<open>The result is the text that goes to standard output when no artifact is asked for.\<close>

definition RenderNodeCmd ::
  "env \<Rightarrow> enrollEnv \<Rightarrow> (DropBackend \<Rightarrow> 's dropI res) \<Rightarrow> Config res \<Rightarrow> renderFlags \<Rightarrow> 's world \<Rightarrow> 's world \<times> string res" where
  "RenderNodeCmd E X newDrop loaded c w =
     (case bindR (render_validateFlags c) (\<lambda>_.
           bindR loaded (\<lambda>cfg.
           bindR (loadReadDrop newDrop cfg) (\<lambda>D.
           bindR (fetchDirectory E cfg D (w_drop w)) (render_plan (e_libs E) c)))) of
        Inl e \<Rightarrow> (w, Inl e)
      | Inr wgConf \<Rightarrow>
          (case writeArtifacts X wgConf (rn_WGQRPNG c) (rn_WGConfig c) (w_files w) of
             (fs, Inl e) \<Rightarrow> (w\<lparr>w_files := fs\<rparr>, Inl e)
           | (fs, Inr _) \<Rightarrow>
               (w\<lparr>w_files := fs\<rparr>,
                if \<not> rn_WGQR c \<and> rn_WGQRPNG c = [] \<and> rn_WGConfig c = [] then Inr wgConf
                else if rn_WGQR c then (case en_emitQR X wgConf of None \<Rightarrow> Inr [] | Some e \<Rightarrow> Inl e)
                else Inr [])))"

section \<open>The first node of a network\<close>

text \<open>The configuration file: where it is, the libraries that read and write it, and how \<open>os.Stat\<close> fails.\<close>

record confEnv =
  cf_path :: string
  cf_toml :: tomlLib
  cf_curve :: curve
  cf_io :: confIO
  cf_stat :: "error option"
  cf_open :: "error option"

definition configExists :: "confEnv \<Rightarrow> fileSystem \<Rightarrow> bool res" where
  "configExists F fs =
     (case cf_stat F of
        Some e \<Rightarrow> if errors_Is e ErrNotExist then Inr False else Inl e
      | None \<Rightarrow> Inr (fs (cf_path F) \<noteq> None))"

definition saveConfig :: "confEnv \<Rightarrow> Config \<Rightarrow> bool \<Rightarrow> fileSystem \<Rightarrow> fileSystem \<times> error option" where
  "saveConfig F cfg full fs =
     (if full then config_Save (cf_toml F) (cf_io F) (cf_path F) cfg fs
      else SaveMinimal (cf_toml F) (cf_io F) (cf_path F) cfg fs)"

definition zero_Config :: Config where
  "zero_Config =
     \<lparr>c_Wireguard = \<lparr>wc_Name = [], wc_PublicKey = [], wc_PrivateKey = [], wc_Interface = [], wc_ListenPort = 0, wc_MTU = 0,
        wc_Keepalive = no_duration\<rparr>,
      c_Directory = \<lparr>dc_NetworkIdentity = [], dc_PublisherPubKey = [], dc_PublisherKey = []\<rparr>,
      c_Drop = \<lparr>dr_Admin = zero_DropBackend, dr_Client = zero_DropBackend\<rparr>,
      c_Sync = \<lparr>sc_Interval = no_duration, sc_StateDir = [], sc_PIDFile = [], sc_MaxDirectoryAge = no_duration\<rparr>,
      c_Observe = \<lparr>oc_Enabled = None, oc_HandshakeFresh = no_duration, oc_RefreshInterval = no_duration\<rparr>,
      c_Discovery = \<lparr>xc_Enabled = None, xc_MulticastIPv4 = [], xc_MulticastIPv6 = [], xc_BeaconInterval = no_duration,
        xc_BeaconTTL = no_duration\<rparr>,
      c_DNS = \<lparr>nc_ManageHosts = None, nc_Serve = None, nc_Upstream = [], nc_HostsPath = []\<rparr>\<rparr>"

record initFlags =
  in_Name :: string
  in_DropType :: string
  in_CIDR :: string
  in_Endpoint :: string
  in_Relay :: bool
  in_DNSDomain :: string
  in_StateDir :: string
  in_FullConfig :: bool
  in_Force :: bool

definition init_domain :: "initFlags \<Rightarrow> string res" where
  "init_domain c =
     (if in_DNSDomain c = [] then Inr []
      else let d = NormalizeDomain (in_DNSDomain c)
           in if \<not> is_ok (ValidateDomain d) then Inl (Err ''--dns-domain'')
              else if \<not> is_ok (ValidateLabel (in_Name c)) then Inl (Err ''--name is not a valid DNS label'')
              else Inr d)"

definition init_stateDir :: "initFlags \<Rightarrow> string" where
  "init_stateDir c = (if in_StateDir c \<noteq> [] then in_StateDir c else DefaultStateDir)"

definition init_drop :: "initFlags \<Rightarrow> (string \<times> string) \<Rightarrow> DropConfig" where
  "init_drop c nostrKeys =
     (let d = SkeletonDrop (in_DropType c)
      in if in_DropType c = ''nostr''
         then \<lparr>dr_Admin = (dr_Admin d)\<lparr>db_Author := snd nostrKeys, db_Nsec := fst nostrKeys\<rparr>,
               dr_Client = (dr_Client d)\<lparr>db_Author := snd nostrKeys\<rparr>\<rparr>
         else d)"

text \<open>What \<open>init\<close> decides before it writes: the configuration and the first directory.\<close>

definition init_plan :: "libs \<Rightarrow> curve \<Rightarrow> enrollEnv \<Rightarrow> gotime \<Rightarrow> initFlags \<Rightarrow> (Config \<times> directory) res" where
  "init_plan L C X now c =
     bindR (GenerateWGKeypair (l_wg L) (en_rndWG X)) (\<lambda>(wgPriv, wgPub).
     bindR (GenerateAgeIdentity (l_age L) (en_rndAge X)) (\<lambda>(ident, rcpt).
     bindR (GenerateEd25519Keypair (l_ed L) (en_rndEd X)) (\<lambda>(pubPub, pubPriv).
     bindR (if in_DropType c = ''nostr'' then nostr_GenerateKey C (en_rndNostr X) else Inr ([], [])) (\<lambda>nostrKeys.
     bindR (NextFreeIP (in_CIDR c) []) (\<lambda>tunnelIP.
     bindR (listenPortFromEndpoint (in_Endpoint c)) (\<lambda>listenPort.
       if in_Relay c \<and> in_Endpoint c = [] then Inl (Err ''--relay requires --endpoint host:port'')
       else bindR (init_domain c) (\<lambda>domain.
         Inr (zero_Config
                \<lparr>c_Wireguard := (c_Wireguard zero_Config)\<lparr>wc_Name := in_Name c, wc_PublicKey := wgPub, wc_PrivateKey := wgPriv,
                   wc_ListenPort := listenPort\<rparr>,
                 c_Directory := \<lparr>dc_NetworkIdentity = ident, dc_PublisherPubKey = pubPub, dc_PublisherKey = pubPriv\<rparr>,
                 c_Drop := init_drop c nostrKeys,
                 c_Sync := (c_Sync zero_Config)\<lparr>sc_StateDir := (if init_stateDir c \<noteq> DefaultStateDir then init_stateDir c else [])\<rparr>,
                 c_Observe := (if in_FullConfig c
                   then (c_Observe zero_Config)\<lparr>oc_Enabled := Some True, oc_HandshakeFresh := NewDuration DefaultHandshakeFresh\<rparr>
                   else c_Observe zero_Config),
                 c_Discovery := (c_Discovery zero_Config)\<lparr>xc_Enabled := (if in_FullConfig c then Some True else None)\<rparr>\<rparr>,
              \<lparr>d_SchemaVersion = SchemaVersion, d_Serial = 1, d_CreatedAt = Stamp now, d_NetworkCIDR = in_CIDR c, d_Domain = domain,
               d_Nodes = [zero_node\<lparr>n_Name := in_Name c, n_PublicKey := wgPub, n_TunnelIP := tunnelIP, n_AgeRecipient := rcpt,
                 n_Endpoint := in_Endpoint c, n_Relay := in_Relay c\<rparr>]\<rparr>))))))))"

definition InitCmd :: "env \<Rightarrow> enrollEnv \<Rightarrow> confEnv \<Rightarrow> initFlags \<Rightarrow> 's world \<Rightarrow> 's world \<times> unit res" where
  "InitCmd E X F c w =
     (case bindR (configExists F (w_files w)) (\<lambda>exists.
             if exists \<and> \<not> in_Force c then Inl (Err ''config already exists; use --force to overwrite'')
             else init_plan (e_libs E) (cf_curve F) X (e_now E) c) of
        Inl e \<Rightarrow> (w, Inl e)
      | Inr (cfg, dir) \<Rightarrow>
          (case WriteSource (e_libs E) (e_io E 9) (e_now E) dir (w_disk w) of
             (d, Inl e) \<Rightarrow> (w\<lparr>w_disk := d\<rparr>, Inl e)
           | (d, Inr _) \<Rightarrow>
               (case saveConfig F cfg (in_FullConfig c) (w_files w) of
                  (fs, Some e) \<Rightarrow> (w\<lparr>w_disk := d, w_files := fs\<rparr>, Inl e)
                | (fs, None) \<Rightarrow>
                    (case bootstrap_Write E (bootstrap_DefaultPath (init_stateDir c)) (bootstrap_Network cfg (d_Serial dir)) fs of
                       (fs', r) \<Rightarrow> (w\<lparr>w_disk := d, w_files := fs'\<rparr>, r)))))"

section \<open>Joining a network\<close>

record joinFlags =
  jn_Bootstrap :: string
  jn_DropType :: string
  jn_Name :: string
  jn_PrivateKeyFile :: string
  jn_GenerateKey :: bool
  jn_StateDir :: string
  jn_FullConfig :: bool
  jn_Force :: bool

record keyset =
  ks_wgPrivate :: string
  ks_wgPublic :: string
  ks_ageIdentity :: string
  ks_ageRecipient :: string

definition trimSecret :: "string \<Rightarrow> string" where
  "trimSecret s = trimSpace s"

text \<open>Standard input gives a line, or the error of the read; a terminal refuses an empty line.\<close>

record stdin =
  si_terminal :: bool
  si_line :: "string res"

definition readPrivateKey :: "joinFlags \<Rightarrow> stdin \<Rightarrow> fileSystem \<Rightarrow> string res" where
  "readPrivateKey c I fs =
     (if jn_PrivateKeyFile c \<noteq> [] then
        (case fs (jn_PrivateKeyFile c) of None \<Rightarrow> Inl ErrNotExist | Some dat \<Rightarrow> Inr (trimSecret dat))
      else bindR (si_line I) (\<lambda>line.
        if si_terminal I \<and> trimSecret line = [] then Inl (Err ''no private key provided'') else Inr (trimSecret line)))"

definition verifyPubKey :: "Bootstrap option \<Rightarrow> string \<Rightarrow> unit res" where
  "verifyPubKey bs pub =
     (case bs of
        None \<Rightarrow> Inr ()
      | Some b \<Rightarrow>
          (case bs_Node b of
             None \<Rightarrow> Inr ()
           | Some n \<Rightarrow>
               if bn_PublicKey n = [] then Inr ()
               else if bn_PublicKey n \<noteq> pub then Inl (Err ''bootstrap public key does not match the provided private key'')
               else Inr ()))"

text \<open>The keys when the bootstrap does not carry them: generated, kept from an earlier \<open>join\<close>, or read.\<close>

definition resolveLocalKeys ::
  "libs \<Rightarrow> enrollEnv \<Rightarrow> stdin \<Rightarrow> joinFlags \<Rightarrow> Bootstrap option \<Rightarrow> Config option \<Rightarrow> fileSystem \<Rightarrow> keyset res" where
  "resolveLocalKeys L X I c bs existing fs =
     (if jn_GenerateKey c then
        bindR (GenerateWGKeypair (l_wg L) (en_rndWG X)) (\<lambda>(wgPriv, wgPub).
        bindR (verifyPubKey bs wgPub) (\<lambda>_.
        bindR (GenerateAgeIdentity (l_age L) (en_rndAge X)) (\<lambda>(ident, rcpt).
          Inr \<lparr>ks_wgPrivate = wgPriv, ks_wgPublic = wgPub, ks_ageIdentity = ident, ks_ageRecipient = rcpt\<rparr>)))
      else if existing \<noteq> None \<and> jn_PrivateKeyFile c = [] then
        (let e = the existing
         in Inr \<lparr>ks_wgPrivate = wc_PrivateKey (c_Wireguard e), ks_wgPublic = wc_PublicKey (c_Wireguard e),
                 ks_ageIdentity = dc_NetworkIdentity (c_Directory e), ks_ageRecipient = []\<rparr>)
      else
        bindR (readPrivateKey c I fs) (\<lambda>priv.
        bindR (PublicKeyFromWGPrivate (l_wg L) priv) (\<lambda>pub.
        bindR (verifyPubKey bs pub) (\<lambda>_.
          Inr \<lparr>ks_wgPrivate = priv, ks_wgPublic = pub,
               ks_ageIdentity = (case existing of
                   None \<Rightarrow> []
                 | Some e \<Rightarrow> if wc_PublicKey (c_Wireguard e) = pub then dc_NetworkIdentity (c_Directory e) else []),
               ks_ageRecipient = []\<rparr>))))"

definition resolveKeys ::
  "libs \<Rightarrow> enrollEnv \<Rightarrow> stdin \<Rightarrow> joinFlags \<Rightarrow> Bootstrap option \<Rightarrow> Config option \<Rightarrow> fileSystem \<Rightarrow> keyset res" where
  "resolveKeys L X I c bs existing fs =
     (case Option.bind bs bs_Node of
        None \<Rightarrow> resolveLocalKeys L X I c bs existing fs
      | Some n \<Rightarrow>
          if bn_PrivateKey n = [] then resolveLocalKeys L X I c bs existing fs
          else if jn_GenerateKey c \<or> jn_PrivateKeyFile c \<noteq> [] then Inl (Err ''bootstrap already contains a WireGuard private key'')
          else Inr \<lparr>ks_wgPrivate = bn_PrivateKey n, ks_wgPublic = bn_PublicKey n, ks_ageIdentity = bn_AgeIdentity n, ks_ageRecipient = []\<rparr>)"

text \<open>The bootstrap, the drop and the name: from the file, or from the flags.\<close>

definition join_source :: "env \<Rightarrow> joinFlags \<Rightarrow> fileSystem \<Rightarrow> (Bootstrap option \<times> DropConfig \<times> string) res" where
  "join_source E c fs =
     bindR (if jn_Bootstrap c \<noteq> [] then
              bindR (bootstrap_Read E (jn_Bootstrap c) fs) (\<lambda>b.
                Inr (Some b, \<lparr>dr_Admin = zero_DropBackend, dr_Client = bs_Drop b\<rparr>,
                     (case bs_Node b of Some n \<Rightarrow> if jn_Name c = [] then bn_Name n else jn_Name c | None \<Rightarrow> jn_Name c)))
            else if jn_DropType c = [] then Inl (Err ''--drop-type is required when --bootstrap is omitted'')
            else Inr (None, SkeletonClientDrop (jn_DropType c), jn_Name c)) (\<lambda>(bs, dropCfg, name).
       if name = [] then Inl (Err ''--name is required when the bootstrap does not include node info'')
       else Inr (bs, dropCfg, name))"

text \<open>The configuration of an earlier \<open>join\<close>, when this one completes it.\<close>

definition join_existing :: "libs \<Rightarrow> confEnv \<Rightarrow> joinFlags \<Rightarrow> bool \<Rightarrow> Bootstrap option \<Rightarrow> fileSystem \<Rightarrow> Config option res" where
  "join_existing L F c exists bs fs =
     (case Option.bind bs bs_Node of
        None \<Rightarrow> Inr None
      | Some n \<Rightarrow>
          if exists \<and> bn_PrivateKey n = [] \<and> \<not> jn_GenerateKey c then
            bindR (wrapR ''read existing node keys'' (LoadIncomplete L (cf_curve F) (cf_toml F)
                     (case cf_open F of Some e \<Rightarrow> Inl e
                      | None \<Rightarrow> (case fs (cf_path F) of None \<Rightarrow> Inl ErrNotExist | Some dat \<Rightarrow> Inr dat)))) (\<lambda>e.
            bindR (wrapR ''existing config'' (verifyPubKey bs (wc_PublicKey (c_Wireguard e)))) (\<lambda>_.
            bindR (wrapR ''existing config needs this node's age identity before bootstrap enrollment''
                     (ParseAgeIdentity (l_age L) (dc_NetworkIdentity (c_Directory e)))) (\<lambda>_.
              Inr (Some e))))
          else Inr None)"

definition join_config :: "joinFlags \<Rightarrow> Bootstrap option \<Rightarrow> DropConfig \<Rightarrow> string \<Rightarrow> Config option \<Rightarrow> keyset \<Rightarrow> Config" where
  "join_config c bs dropCfg name existing ks =
     (let base = (case existing of
            None \<Rightarrow> zero_Config
          | Some e \<Rightarrow> zero_Config\<lparr>c_Wireguard := c_Wireguard e, c_Sync := c_Sync e, c_Discovery := c_Discovery e, c_DNS := c_DNS e\<rparr>);
          wg = (c_Wireguard base)\<lparr>wc_Name := name, wc_PublicKey := ks_wgPublic ks, wc_PrivateKey := ks_wgPrivate ks\<rparr>;
          wg1 = (case Option.bind bs bs_Node of
                   Some n \<Rightarrow> if bn_ListenPort n > 0 then wg\<lparr>wc_ListenPort := bn_ListenPort n\<rparr> else wg
                 | None \<Rightarrow> wg);
          sy = (if jn_StateDir c \<noteq> [] \<and> jn_StateDir c \<noteq> DefaultStateDir
                then (c_Sync base)\<lparr>sc_StateDir := jn_StateDir c\<rparr> else c_Sync base);
          xc = (if jn_FullConfig c \<and> xc_Enabled (c_Discovery base) = None
                then (c_Discovery base)\<lparr>xc_Enabled := Some True\<rparr> else c_Discovery base)
      in base\<lparr>c_Wireguard := wg1,
              c_Directory := \<lparr>dc_NetworkIdentity = ks_ageIdentity ks,
                dc_PublisherPubKey = (case bs of None \<Rightarrow> [] | Some b \<Rightarrow> bs_PublisherPubKey b), dc_PublisherKey = []\<rparr>,
              c_Drop := dropCfg, c_Sync := sy, c_Discovery := xc\<rparr>)"

definition join_plan ::
  "env \<Rightarrow> enrollEnv \<Rightarrow> confEnv \<Rightarrow> stdin \<Rightarrow> joinFlags \<Rightarrow> fileSystem \<Rightarrow> (Bootstrap option \<times> Config) res" where
  "join_plan E X F I c fs =
     bindR (configExists F fs) (\<lambda>exists.
       if exists \<and> \<not> jn_Force c then Inl (Err ''config already exists; use --force to overwrite'')
       else
         bindR (join_source E c fs) (\<lambda>(bs, dropCfg, name).
         bindR (join_existing (e_libs E) F c exists bs fs) (\<lambda>existing.
         bindR (resolveKeys (e_libs E) X I c bs existing fs) (\<lambda>ks.
           Inr (bs, join_config c bs dropCfg name existing ks)))))"

definition JoinCmd ::
  "env \<Rightarrow> enrollEnv \<Rightarrow> confEnv \<Rightarrow> stdin \<Rightarrow> joinFlags \<Rightarrow> fileSystem \<Rightarrow> disk \<Rightarrow> (fileSystem \<times> disk) \<times> unit res" where
  "JoinCmd E X F I c fs d =
     (case join_plan E X F I c fs of
        Inl e \<Rightarrow> ((fs, d), Inl e)
      | Inr (bs, cfg) \<Rightarrow>
          (case saveConfig F cfg (jn_FullConfig c) fs of
             (fs', Some e) \<Rightarrow> ((fs', d), Inl e)
           | (fs', None) \<Rightarrow>
               (case bs of
                  None \<Rightarrow> ((fs', d), Inr ())
                | Some b \<Rightarrow>
                    if bs_Serial b > 0
                    then (case WriteSerialFloor (e_io E 10) (bs_Serial b) d of (d', r) \<Rightarrow> ((fs', d'), r))
                    else ((fs', d), Inr ()))))"

section \<open>Facts\<close>

lemma NextFreeIP_Inr:
  assumes "parsePrefix cidr = Some p" and "NextFreeIP cidr taken = Inr ip"
  shows "\<exists>w used. taken = map ip4_String used \<and> ip = ip4_String w \<and> w \<notin> set used \<and> prefix_Contains (masked p) (V4 w)"
proof -
  have i4: "addr_Is4 (p_Addr p)" using assms by (auto simp: NextFreeIP_def split: if_splits)
  then obtain u where u: "p_Addr p = V4 u" by (auto simp: addr_Is4_iff)
  have b: "p_Bits p \<le> 32" using parsePrefix_bits [OF assms(1)] i4 by (simp add: addr_BitLen_def)
  obtain f l where fl: "loop_bounds p = (f, l)" by fastforce
  obtain used where t: "taken = map ip4_String used" and n: "nextFree_loop used f l = Some ip"
    using assms(2) by (auto simp: NextFreeIP_loop [OF assms(1) i4] takenAddrs_Inr fl split: option.splits)
  then obtain m where m: "f \<le> m" "m \<le> l" "ip = ip4_String (word_of_nat m)" "word_of_nat m \<notin> set used"
    by (auto simp: nextFree_loop_Some)
  have "unat (word_of_nat m :: u32) = m"
    using m(2) loop_bounds_usable(1) [OF u b fl] by (intro unat_word_of_nat32) simp
  then have "usable p (word_of_nat m)" using m(1,2) loop_bounds_usable(2) [OF u b fl] by simp
  then show ?thesis using t m(3,4) prefix_Contains_masked [OF u] by (auto simp: usable_def)
qed

text \<open>What the program relies on of key generation: a generated WireGuard key and its public key are 32 bytes;
  the printed form of a generated age identity and of its recipient parses back.\<close>

definition keygen_ok :: "libs \<Rightarrow> bool" where
  "keygen_ok L \<longleftrightarrow>
     (\<forall>r k. wg_Generate (l_wg L) r = Inr k \<longrightarrow> length k = 32 \<and> length (wg_PublicKey (l_wg L) k) = 32) \<and>
     (\<forall>r i. age_Generate (l_age L) r = Inr i \<longrightarrow>
        ParseAgeIdentity (l_age L) (age_IdentityString (l_age L) i) = Inr i \<and>
        is_ok (ParseAgeRecipient (l_age L) (age_RecipientString (l_age L) (age_Recipient (l_age L) i))))"

lemma nodeByName_loop_None: "nodeByName_loop ns name i = None \<longleftrightarrow> (\<forall>n \<in> set ns. n_Name n \<noteq> name)"
  by (induction ns arbitrary: i) auto

lemma nodeByName_loop_Some:
  "nodeByName_loop ns name i = Some (n, j) \<Longrightarrow> i \<le> j \<and> j < i + length ns \<and> n = ns ! (j - i) \<and> n_Name n = name"
proof (induction ns arbitrary: i)
  case (Cons m ns)
  show ?case
  proof (cases "n_Name m = name")
    case False
    with Cons.prems have "nodeByName_loop ns name (Suc i) = Some (n, j)" by simp
    from Cons.IH [OF this] have "Suc i \<le> j \<and> j < Suc i + length ns \<and> n = ns ! (j - Suc i) \<and> n_Name n = name" .
    moreover from this have "j - i = Suc (j - Suc i)" by linarith
    then have "(m # ns) ! (j - i) = ns ! (j - Suc i)" by simp
    ultimately show ?thesis by auto
  qed (use Cons.prems in auto)
qed simp

text \<open>The keys of a new node: what the flags gave, or a generated pair.\<close>

lemma addNode_keys_Inr:
  assumes "addNode_keys L X c = Inr (pub, priv, rcpt, ident)"
  obtains "is_ok (ParseWGPublic (l_wg L) pub) \<or> (\<exists>k. wg_Generate (l_wg L) (en_rndWG X) = Inr k \<and>
        pub = wg_String (l_wg L) (wg_PublicKey (l_wg L) k) \<and> priv = wg_String (l_wg L) k)"
    and "an_PubKey c = [] \<Longrightarrow> \<exists>k. wg_Generate (l_wg L) (en_rndWG X) = Inr k \<and>
        pub = wg_String (l_wg L) (wg_PublicKey (l_wg L) k) \<and> priv = wg_String (l_wg L) k"
    and "an_ClientType c \<noteq> ''wireguard'' \<Longrightarrow> is_ok (ParseAgeRecipient (l_age L) rcpt) \<or>
        (\<exists>i. age_Generate (l_age L) (en_rndAge X) = Inr i \<and> rcpt = age_RecipientString (l_age L) (age_Recipient (l_age L) i))"
    and "an_ClientType c \<noteq> ''wireguard'' \<Longrightarrow> an_AgeRecipient c = [] \<Longrightarrow>
        \<exists>i. age_Generate (l_age L) (en_rndAge X) = Inr i \<and> ident = age_IdentityString (l_age L) i \<and> rcpt = age_RecipientString (l_age L) (age_Recipient (l_age L) i)"
    and "an_ClientType c = ''wireguard'' \<Longrightarrow> rcpt = an_AgeRecipient c \<and> ident = []"
proof
  show "an_ClientType c = ''wireguard'' \<Longrightarrow> rcpt = an_AgeRecipient c \<and> ident = []"
    using assms by (auto simp: addNode_keys_def)
  show "an_PubKey c = [] \<Longrightarrow> \<exists>k. wg_Generate (l_wg L) (en_rndWG X) = Inr k \<and>
        pub = wg_String (l_wg L) (wg_PublicKey (l_wg L) k) \<and> priv = wg_String (l_wg L) k"
    using assms by (auto simp: addNode_keys_def GenerateWGKeypair_def)
  then show "is_ok (ParseWGPublic (l_wg L) pub) \<or> (\<exists>k. wg_Generate (l_wg L) (en_rndWG X) = Inr k \<and>
        pub = wg_String (l_wg L) (wg_PublicKey (l_wg L) k) \<and> priv = wg_String (l_wg L) k)"
    using assms by (cases "an_PubKey c = []") (auto simp: addNode_keys_def is_ok_iff)
  show ids: "an_ClientType c \<noteq> ''wireguard'' \<Longrightarrow> an_AgeRecipient c = [] \<Longrightarrow>
        \<exists>i. age_Generate (l_age L) (en_rndAge X) = Inr i \<and> ident = age_IdentityString (l_age L) i \<and> rcpt = age_RecipientString (l_age L) (age_Recipient (l_age L) i)"
    using assms by (auto simp: addNode_keys_def GenerateAgeIdentity_def)
  show "an_ClientType c \<noteq> ''wireguard'' \<Longrightarrow> is_ok (ParseAgeRecipient (l_age L) rcpt) \<or>
        (\<exists>i. age_Generate (l_age L) (en_rndAge X) = Inr i \<and> rcpt = age_RecipientString (l_age L) (age_Recipient (l_age L) i))"
    using assms ids by (cases "an_AgeRecipient c = []") (auto simp: addNode_keys_def is_ok_iff)
qed

lemma addNode_plan_Inr:
  assumes "addNode_plan L X c dir = Inr (node, priv, ident, conf)"
  obtains hub pub rcpt ip where "addNode_checkName dir (an_Name c) = Inr ()"
    and "addNode_keys L X c = Inr (pub, priv, rcpt, ident)" and "\<forall>n \<in> set (d_Nodes dir). n_PublicKey n \<noteq> pub"
    and "NextFreeIP (d_NetworkCIDR dir) (takenIPs dir) = Inr ip"
    and "node = zero_node\<lparr>n_Name := an_Name c, n_PublicKey := pub, n_TunnelIP := ip, n_AgeRecipient := rcpt,
           n_Endpoint := an_Endpoint c, n_Relay := an_Relay c\<rparr>"
    and "an_ClientType c = ''wireguard'' \<Longrightarrow>
      peerHub dir pub = Some hub \<and> conf = renderWGQuickConfig priv ip (d_NetworkCIDR dir) (d_Domain dir) hub"
proof -
  from assms obtain pub priv' rcpt ident' where n: "addNode_checkName dir (an_Name c) = Inr ()"
    and k: "addNode_keys L X c = Inr (pub, priv', rcpt, ident')" and f: "\<forall>n \<in> set (d_Nodes dir). n_PublicKey n \<noteq> pub"
    by (auto simp: addNode_plan_def list_ex_iff split: if_splits)
  from assms n k f obtain hub ip where
    h: "(if an_ClientType c = ''wireguard'' then
           (case peerHub dir pub of None \<Rightarrow> Inl (Err ''no hub peer with a public endpoint'') | Some h \<Rightarrow> Inr h) else Inr zero_node) = Inr hub"
    and i: "NextFreeIP (d_NetworkCIDR dir) (takenIPs dir) = Inr ip"
    and e: "(node, priv, ident, conf) = (zero_node\<lparr>n_Name := an_Name c, n_PublicKey := pub, n_TunnelIP := ip, n_AgeRecipient := rcpt,
           n_Endpoint := an_Endpoint c, n_Relay := an_Relay c\<rparr>, priv', ident',
           (if an_ClientType c = ''wireguard'' then renderWGQuickConfig priv' ip (d_NetworkCIDR dir) (d_Domain dir) hub else []))"
    by (auto simp: addNode_plan_def list_ex_iff split: if_splits option.splits)
  have "an_ClientType c = ''wireguard'' \<Longrightarrow> peerHub dir pub = Some hub"
    using h by (auto split: option.splits)
  then show ?thesis using that [OF n, of pub rcpt ip hub] k f i e by auto
qed

lemma addNode_plan_exact:
  assumes "wglib_ok (l_wg L)" and "keygen_ok L" and "Validate (l_wg L) (l_age L) dir = Inr ()"
    and "addNode_plan L X c dir = Inr (node, priv, ident, conf)"
  shows "n_Name node \<notin> n_Name ` set (d_Nodes dir)" "n_PublicKey node \<notin> n_PublicKey ` set (d_Nodes dir)"
    "n_TunnelIP node \<notin> n_TunnelIP ` set (d_Nodes dir)"
    and "Validate (l_wg L) (l_age L) (dir\<lparr>d_Nodes := d_Nodes dir @ [node]\<rparr>) = Inr () \<longleftrightarrow>
      validateEndpoint (an_Endpoint c) = Inr () \<and>
      (an_ClientType c = ''wireguard'' \<and> an_AgeRecipient c \<noteq> [] \<longrightarrow> is_ok (ParseAgeRecipient (l_age L) (an_AgeRecipient c)))"
proof -
  obtain hub pub rcpt ip where n: "addNode_checkName dir (an_Name c) = Inr ()"
    and k: "addNode_keys L X c = Inr (pub, priv, rcpt, ident)" and fr: "\<forall>n \<in> set (d_Nodes dir). n_PublicKey n \<noteq> pub"
    and i: "NextFreeIP (d_NetworkCIDR dir) (takenIPs dir) = Inr ip"
    and node: "node = zero_node\<lparr>n_Name := an_Name c, n_PublicKey := pub, n_TunnelIP := ip, n_AgeRecipient := rcpt,
           n_Endpoint := an_Endpoint c, n_Relay := an_Relay c\<rparr>"
    by (rule addNode_plan_Inr [OF assms(4)])
  have ok: "directory_ok (l_wg L) (l_age L) dir" using assms(3) by (simp add: Validate_ok)
  then obtain p where p: "parsePrefix (d_NetworkCIDR dir) = Some p" by (auto simp: directory_ok_def)
  obtain w used where w: "map n_TunnelIP (d_Nodes dir) = map ip4_String used" "ip = ip4_String w" "w \<notin> set used"
    "prefix_Contains (masked p) (V4 w)"
    using NextFreeIP_Inr [OF p i] by (auto simp: takenIPs_def)
  then have ip: "ip \<notin> n_TunnelIP ` set (d_Nodes dir)" by (metis (mono_tags) image_iff image_set ip4_String_inject)
  have nm: "an_Name c \<notin> n_Name ` set (d_Nodes dir)" "ValidateLabel (an_Name c) = Inr ()" "an_Name c \<noteq> []"
    "d_Domain dir \<noteq> [] \<Longrightarrow> toLower (an_Name c) \<notin> (toLower \<circ> n_Name) ` set (d_Nodes dir)"
    using n by (auto simp: addNode_checkName_def nodeByName_def nodeByName_loop_None is_ok_iff ValidateLabel_ok list_ex_iff
        equalFold_def split: if_splits)
  have pk: "is_ok (ParseWGPublic (l_wg L) pub)"
    by (rule addNode_keys_Inr [OF k]) (use assms(1,2) wg_key_bytes(2) [OF assms(1)] in \<open>auto simp: keygen_ok_def is_ok_iff\<close>)
  have ar: "rcpt \<noteq> [] \<longrightarrow> is_ok (ParseAgeRecipient (l_age L) rcpt)" if "an_ClientType c \<noteq> ''wireguard''"
  proof -
    have "is_ok (ParseAgeRecipient (l_age L) rcpt) \<or> (\<exists>i. age_Generate (l_age L) (en_rndAge X) = Inr i \<and> rcpt = age_RecipientString (l_age L) (age_Recipient (l_age L) i))"
      using that by (cases rule: addNode_keys_Inr [OF k]) simp
    then show ?thesis using assms(2) by (auto simp: keygen_ok_def is_ok_iff)
  qed
  have wr: "rcpt = an_AgeRecipient c" if "an_ClientType c = ''wireguard''"
    using that by (cases rule: addNode_keys_Inr [OF k]) simp
  have no: "node_ok (l_wg L) (l_age L) (d_Domain dir) (masked p) node \<longleftrightarrow>
      validateEndpoint (an_Endpoint c) = Inr () \<and> (rcpt \<noteq> [] \<longrightarrow> is_ok (ParseAgeRecipient (l_age L) rcpt))"
    using nm(2,3) pk w(2,4) by (auto simp: node_ok_def node zero_node_def validateEndpoint_def [of "[]"])
  show "n_Name node \<notin> n_Name ` set (d_Nodes dir)" "n_PublicKey node \<notin> n_PublicKey ` set (d_Nodes dir)"
    "n_TunnelIP node \<notin> n_TunnelIP ` set (d_Nodes dir)"
    using nm(1) fr ip by (auto simp: node)
  have "Validate (l_wg L) (l_age L) (dir\<lparr>d_Nodes := d_Nodes dir @ [node]\<rparr>) = Inr () \<longleftrightarrow>
      node_ok (l_wg L) (l_age L) (d_Domain dir) (masked p) node"
    using ok p nm ip fr by (auto simp: Validate_ok directory_ok_def node zero_node_def)
  then show "Validate (l_wg L) (l_age L) (dir\<lparr>d_Nodes := d_Nodes dir @ [node]\<rparr>) = Inr () \<longleftrightarrow>
      validateEndpoint (an_Endpoint c) = Inr () \<and>
      (an_ClientType c = ''wireguard'' \<and> an_AgeRecipient c \<noteq> [] \<longrightarrow> is_ok (ParseAgeRecipient (l_age L) (an_AgeRecipient c)))"
    using no ar wr by (cases "an_ClientType c = ''wireguard''") auto
qed

lemma WriteSerialFloor_raises:
  assumes "s \<noteq> 0" and "WriteSerialFloor io s d = (d', Inr r)"
  shows "Suc (unat s) \<le> mark_level FSerial d'"
proof -
  let ?g = "guarded (\<lambda>prev. s \<le> prev) (Inr ()) (\<lambda>e. Inl (Wrap ''read cache serial'' e)) io FSerial (writeSerialFile io s)"
  from withStateLock_cases [of io ?g d] assms(2) [unfolded WriteSerialFloor_guarded [OF assms(1)]]
  have "?g d = (d', Inr ())" by (elim disjE exE) simp_all
  moreover have "Suc (unat s) \<le> mark_level FSerial d" if "readSerial io FSerial d = Inr p" "s \<le> p" for p
    using readSerial_Inr [OF that(1)] that(2) by (simp add: mark_level_def word_le_nat_alt)
  ultimately show ?thesis
    by (auto simp: guarded_def writeSerialFile_def renameio_WriteFile_def mark_level_upd split: sum.splits if_splits option.splits prod.splits)
qed

text \<open>A publication that went through was handed to the drop.\<close>

lemma publishDirectory_uploaded:
  assumes "publishDirectory E cfg D dir ws w = (w', Inr ())"
  shows "w_uploads w' = w_uploads w @ [dir]"
proof (cases "Seal (e_libs E) (e_rnd E) (e_now E) dir (dc_PublisherKey (c_Directory cfg))")
  case (Inl e)
  then show ?thesis using assms by (simp add: publishDirectory_def)
next
  case (Inr blob)
  obtain d1 q where q: "ReservePublishSerial (e_io E 4) (d_Serial dir) (w_disk w) = (d1, q)" by fastforce
  obtain s1 pe where p: "di_Put D blob (w_drop w) = (s1, pe)" by fastforce
  obtain e2 r2 where w2: "Write (e_libs E) (e_json E) (e_io E 5) (e_now E) dir [] d1 = (e2, r2)" by fastforce
  obtain e3 r3 where w3: "(if ws then WriteSource (e_libs E) (e_io E 6) (e_now E) dir e2 else (e2, Inr ())) = (e3, r3)" by fastforce
  show ?thesis
    using assms Inr q p w2 w3
    by (cases q; cases pe; cases r2; cases r3) (auto simp: publishDirectory_def split: prod.splits)
qed

lemma preparePublishSerial_nodes:
  assumes "preparePublishSerial E dir remote force d = Inr dir'"
  shows "d_Nodes dir' = d_Nodes dir"
proof -
  have r: "d_Nodes y = d_Nodes x" if "raiseToFloor r x = Inr y" for r x y
    using that by (auto simp: raiseToFloor_def split: sum.splits if_splits)
  from assms obtain a b c where a: "reconcilePublishSerial dir remote force = Inr a"
    and b: "raiseToFloor (ReadSerial (e_io E 2) d) a = Inr b" "raiseToFloor (ReadPublishSerial (e_io E 3) d) b = Inr c"
    and c: "bumpDirectory (e_now E) c = Inr dir'" by (auto simp: preparePublishSerial_def)
  have "d_Nodes a = d_Nodes dir" using a by (auto simp: reconcilePublishSerial_def split: sum.splits if_splits)
  moreover have "d_Nodes dir' = d_Nodes c" using c by (auto simp: bumpDirectory_def split: if_splits)
  ultimately show ?thesis using r [OF b(1)] r [OF b(2)] by simp
qed

lemma saveAdminDirectory_published:
  assumes "saveAdminDirectory E cfg D dir False w = (w', Inr dir')"
  shows "d_Nodes dir' = d_Nodes dir \<and> w_uploads w' = w_uploads w @ [dir']"
proof (cases "preparePublishSerial E dir (fetchDirectory E cfg D (w_drop w)) False (w_disk w)")
  case (Inl e)
  then show ?thesis using assms by (simp add: saveAdminDirectory_def)
next
  case (Inr dir1)
  obtain w1 r1 where p: "publishDirectory E cfg D dir1 True w = (w1, r1)" by fastforce
  with assms Inr have "r1 = Inr () \<and> w1 = w' \<and> dir1 = dir'" by (cases r1) (auto simp: saveAdminDirectory_def)
  then show ?thesis using publishDirectory_uploaded p preparePublishSerial_nodes [OF Inr] by blast
qed

text \<open>A successful \<open>add-node\<close> of a member that runs tincan, taken apart.\<close>

lemma AddNodeCmd_tincan:
  assumes "AddNodeCmd E X newDrop loaded c w = (w', Inr ())" and "an_ClientType c \<noteq> ''wireguard''"
    and "an_Bootstrap c \<noteq> []" and "\<not> an_NoPublish c"
  obtains port cfg D dir node priv ident conf dir' dat where "loaded = Inr cfg"
    and "addNode_plan (e_libs E) X c dir = Inr (node, priv, ident, conf)"
    and "d_Nodes dir' = d_Nodes dir @ [node]" and "w_uploads w' = w_uploads w @ [dir']"
    and "e_bootEncode E (WithNode (bootstrap_Network cfg (d_Serial dir'))
           \<lparr>bn_Name = an_Name c, bn_TunnelIP = n_TunnelIP node, bn_ListenPort = port,
            bn_PublicKey = n_PublicKey node, bn_PrivateKey = priv, bn_AgeIdentity = ident\<rparr>) = Inr dat"
    and "w_files w' (an_Bootstrap c) = Some (dat @ [NL])" and "listenPortFromEndpoint (an_Endpoint c) = Inr port"
proof -
  have ct: "(an_ClientType c = ''wireguard'') = False" using assms(2) by simp
  from assms(1) obtain port cfg D dir node priv ident conf where
    p: "addNode_prepare E X newDrop loaded c w = Inr (port, cfg, D, dir, node, priv, ident, conf)"
    by (cases "addNode_prepare E X newDrop loaded c w") (auto simp: AddNodeCmd_def)
  then have pl: "addNode_plan (e_libs E) X c dir = Inr (node, priv, ident, conf)" "loaded = Inr cfg"
    "listenPortFromEndpoint (an_Endpoint c) = Inr port"
    by (auto simp: addNode_prepare_def asAdmin_def)
  obtain w1 r1 where s: "saveAdminDirectory E cfg D (dir\<lparr>d_Nodes := d_Nodes dir @ [node]\<rparr>) False (w\<lparr>w_files := w_files w\<rparr>) = (w1, r1)"
    by fastforce
  from assms(1) p s ct assms(4) obtain dir' where r1: "r1 = Inr dir'" by (cases r1) (auto simp: AddNodeCmd_def)
  let ?b = "WithNode (bootstrap_Network cfg (d_Serial dir'))
           \<lparr>bn_Name = an_Name c, bn_TunnelIP = n_TunnelIP node, bn_ListenPort = port,
            bn_PublicKey = n_PublicKey node, bn_PrivateKey = priv, bn_AgeIdentity = ident\<rparr>"
  obtain fs2 r2 where b: "bootstrap_Write E (an_Bootstrap c) ?b (w_files w1) = (fs2, r2)" by fastforce
  from assms(1,3,4) p s r1 ct b have w': "w' = w1\<lparr>w_files := fs2\<rparr>" "r2 = Inr ()" by (cases r2; auto simp: AddNodeCmd_def)+
  have "d_Nodes dir' = d_Nodes dir @ [node]" "w_uploads w1 = w_uploads w @ [dir']"
    using saveAdminDirectory_published [OF s [unfolded r1]] by simp_all
  moreover obtain dat where "e_bootEncode E ?b = Inr dat" "fs2 = (w_files w1)(an_Bootstrap c \<mapsto> dat @ [NL])"
    using b w'(2) by (auto simp: bootstrap_Write_def split: sum.splits option.splits)
  ultimately show ?thesis using that [OF pl(2,1), of dir' port dat] pl(3) w'(1) by simp
qed

section \<open>Properties\<close>


definition demo_flags :: addNodeFlags where
  "demo_flags = \<lparr>an_Name = ''d'', an_ClientType = ''tincan'', an_PubKey = [], an_Endpoint = ''d.example:7'', an_Relay = False,
     an_NoPublish = False, an_Bootstrap = ''/b'', an_AgeRecipient = [], an_WGQR = False, an_WGQRPNG = [], an_WGConfig = []\<rparr>"

definition demo_enroll :: enrollEnv where
  "demo_enroll = \<lparr>en_rndWG = 68, en_rndAge = 0, en_rndEd = 0, en_rndNostr = 0, en_qrPNG = (\<lambda>_. Inr []), en_emitQR = (\<lambda>_. None),
     en_mkdir = (\<lambda>_. None), en_write = (\<lambda>_. None)\<rparr>"

definition demo_new :: node where
  "demo_new = zero_node\<lparr>n_Name := ''d'', n_PublicKey := std_encode (replicate 32 (char_of (68 :: nat))), n_TunnelIP := ''10.42.0.4'',
     n_AgeRecipient := ''k'', n_Endpoint := ''d.example:7''\<rparr>"

lemma demo_keygen: "keygen_ok (demo_libs dir)"
proof -
  have "ParseAgeIdentity demo_age ''k'' = Inr ''k''" "ParseAgeRecipient demo_age ''k'' = Inr ''k''" by code_simp+
  then show ?thesis by (auto simp: keygen_ok_def demo_wg_def demo_age_def is_ok_iff)
qed

lemma demo_plan:
  "addNode_plan (demo_libs demo_dir) demo_enroll demo_flags demo_dir =
     Inr (demo_new, std_encode (replicate 32 (char_of (68 :: nat))), ''k'', [])"
proof -
  have n: "addNode_checkName demo_dir ''d'' = Inr ()"
  proof -
    have "ValidateLabel ''d'' = Inr ()" by code_simp
    then show ?thesis
      by (simp add: addNode_checkName_def nodeByName_def demo_dir_def demo_node_fields equalFold_def toLower_def lowerC_def is_upper_def)
  qed
  have i: "NextFreeIP ''10.42.0.0/29'' [''10.42.0.1'', ''10.42.0.2'', ''10.42.0.3''] = Inr ''10.42.0.4''"
  proof -
    have p: "parsePrefix ''10.42.0.0/29'' = Some \<lparr>p_Addr = V4 0x0A2A0000, p_Bits = 29\<rparr>" by code_simp
    have t: "map ip4_String [0x0A2A0001, 0x0A2A0002, 0x0A2A0003] = [''10.42.0.1'', ''10.42.0.2'', ''10.42.0.3'']" by code_simp
    have b: "loop_bounds \<lparr>p_Addr = V4 0x0A2A0000, p_Bits = 29\<rparr> = (170524673, 170524678)" by code_simp
    have f: "nextFree_loop [0x0A2A0001, 0x0A2A0002, 0x0A2A0003] 170524673 170524678 = Some ''10.42.0.4''"
    proof -
      have "addr_String4 (V4 0x0A2A0004) = ''10.42.0.4''" by code_simp
      then show ?thesis by (simp add: nextFree_loop.simps)
    qed
    have "takenAddrs [''10.42.0.1'', ''10.42.0.2'', ''10.42.0.3''] = Inr [0x0A2A0001, 0x0A2A0002, 0x0A2A0003]"
      unfolding takenAddrs_Inr by (rule t [symmetric])
    then show ?thesis by (simp add: NextFreeIP_loop [OF p] b f del: takenAddrs.simps)
  qed
  have d: "d_NetworkCIDR demo_dir = ''10.42.0.0/29''" "takenIPs demo_dir = [''10.42.0.1'', ''10.42.0.2'', ''10.42.0.3'']"
    by (simp_all add: demo_dir_def takenIPs_def demo_node_fields)
  have k: "addNode_keys (demo_libs demo_dir) demo_enroll demo_flags =
      Inr (std_encode (replicate 32 (char_of (68 :: nat))), std_encode (replicate 32 (char_of (68 :: nat))), ''k'', ''k'')"
    by (simp add: addNode_keys_def demo_flags_def demo_enroll_def GenerateWGKeypair_def GenerateAgeIdentity_def demo_wg_def demo_age_def)
  have f: "\<not> list_ex (\<lambda>n. n_PublicKey n = std_encode (replicate 32 (char_of (68 :: nat)))) (d_Nodes demo_dir)"
    by (simp add: demo_dir_def demo_node_fields std.enc_eq_iff replicate_eq_replicate)
  show ?thesis
    unfolding addNode_plan_def k using n i d f
    by (simp add: demo_new_def demo_flags_def zero_node_def)
qed


text \<open>Generated keys belong together.\<close>

lemma addNode_generated:
  assumes "wglib_ok (l_wg L)" and "keygen_ok L" and "addNode_keys L X c = Inr (pub, priv, rcpt, ident)"
    and "an_PubKey c = []" and "an_AgeRecipient c = []" and "an_ClientType c \<noteq> ''wireguard''"
  shows "priv \<noteq> []" and "PublicKeyFromWGPrivate (l_wg L) priv = Inr pub" and "AgeRecipientFromIdentity (l_age L) ident = Inr rcpt"
proof -
  let ?W = "l_wg L" and ?A = "l_age L"
  obtain kb where kb: "wg_Generate ?W (en_rndWG X) = Inr kb" "pub = wg_String ?W (wg_PublicKey ?W kb)" "priv = wg_String ?W kb"
    using assms(4) by (cases rule: addNode_keys_Inr [OF assms(3)]) blast
  obtain i where i: "age_Generate ?A (en_rndAge X) = Inr i" "ident = age_IdentityString ?A i" "rcpt = age_RecipientString ?A (age_Recipient ?A i)"
    using assms(5,6) by (cases rule: addNode_keys_Inr [OF assms(3)]) blast
  have len: "length kb = 32" using kb(1) assms(2) by (simp add: keygen_ok_def)
  show "priv \<noteq> []" using wg_String_nonempty [OF assms(1) len] kb(3) by simp
  show "PublicKeyFromWGPrivate ?W priv = Inr pub"
    using wg_key_bytes(1) [OF assms(1) len] kb by (auto simp: PublicKeyFromWGPrivate_def WGKeyToBytes_def)
  show "AgeRecipientFromIdentity ?A ident = Inr rcpt"
    using assms(2) i by (auto simp: keygen_ok_def AgeRecipientFromIdentity_def ParseAgeIdentity_def)
qed

text \<open>The configuration that \<open>join\<close> makes from a bootstrap file that carries a node with its keys.\<close>

lemma join_from_node:
  assumes "join_plan E X F I j fs = Inr (bs, cfg')" and "\<And>b'. bootstrap_Read E (jn_Bootstrap j) fs = Inr b' \<Longrightarrow> b' = b"
    and "jn_Bootstrap j \<noteq> []" and "jn_Name j = []" and "bs_Node b = Some n" and "bn_PrivateKey n \<noteq> []"
  shows "wc_PublicKey (c_Wireguard cfg') = bn_PublicKey n" and "wc_PrivateKey (c_Wireguard cfg') = bn_PrivateKey n"
    and "wc_Name (c_Wireguard cfg') = bn_Name n" and "dc_NetworkIdentity (c_Directory cfg') = bn_AgeIdentity n"
    and "dc_PublisherPubKey (c_Directory cfg') = bs_PublisherPubKey b" and "ReadDrop cfg' = bs_Drop b"
proof -
  from assms(1) obtain ex bs1 dc nm1 old ks where jp: "join_source E j fs = Inr (bs1, dc, nm1)"
    "join_existing (e_libs E) F j ex bs1 fs = Inr old" "resolveKeys (e_libs E) X I j bs1 old fs = Inr ks"
    "cfg' = join_config j bs1 dc nm1 old ks"
    by (auto simp: join_plan_def split: if_splits)
  have bs1: "bs1 = Some b" "dc = \<lparr>dr_Admin = zero_DropBackend, dr_Client = bs_Drop b\<rparr>" "nm1 = bn_Name n"
    using jp(1) assms(3-5) by (auto simp: join_source_def dest!: assms(2) split: if_splits)
  have old: "old = None" using jp(2) bs1 assms(5,6) by (auto simp: join_existing_def)
  have ks: "ks_wgPrivate ks = bn_PrivateKey n" "ks_wgPublic ks = bn_PublicKey n" "ks_ageIdentity ks = bn_AgeIdentity n"
    using jp(3) bs1 assms(5,6) by (auto simp: resolveKeys_def split: if_splits)
  show "wc_PublicKey (c_Wireguard cfg') = bn_PublicKey n" "wc_PrivateKey (c_Wireguard cfg') = bn_PrivateKey n"
    "wc_Name (c_Wireguard cfg') = bn_Name n" "dc_NetworkIdentity (c_Directory cfg') = bn_AgeIdentity n"
    "dc_PublisherPubKey (c_Directory cfg') = bs_PublisherPubKey b" "ReadDrop cfg' = bs_Drop b"
    using bs1 ks assms(5) by (simp_all add: jp(4) old join_config_def Let_def ReadDrop_def zero_DropBackend_def)
qed

lemma findSelf_appended:
  assumes "d_Nodes dir' = d_Nodes dir @ [node]" and "\<forall>n \<in> set (d_Nodes dir). n_PublicKey n \<noteq> n_PublicKey node"
    and "wc_PublicKey (c_Wireguard cfg) = n_PublicKey node"
  shows "findSelf cfg dir' = Inr node"
proof -
  have "List.find (\<lambda>n. n_PublicKey n = n_PublicKey node) (ns @ [node]) = Some node" if "\<forall>n \<in> set ns. n_PublicKey n \<noteq> n_PublicKey node" for ns
    using that by (induction ns) auto
  with assms show ?thesis by (simp add: findSelf_def)
qed

text \<open>C8: enrolment works end to end: after \<open>add-node\<close> with generated keys and a bootstrap file, a \<open>join\<close> on another
  machine that reads this file writes a configuration with which the new member finds itself in the
  published directory: its name, a WireGuard key pair that belongs together and is the published one, an
  age identity whose recipient is published for it, the publisher's key and the drop of the clients.\<close>

theorem enrolled_node_ready:
  assumes "wglib_ok (l_wg (e_libs E))" and "keygen_ok (e_libs E)"
    and "AddNodeCmd E X newDrop (Inr cfg) c w = (w', Inr ())" and "an_ClientType c = ''tincan''"
    and "an_PubKey c = []" and "an_AgeRecipient c = []" and "an_Bootstrap c \<noteq> []" and "\<not> an_NoPublish c"
    and "\<forall>b dat. e_bootEncode E b = Inr dat \<longrightarrow> e_bootDecode E' (dat @ [NL]) = Inr b"
    and "jn_Bootstrap j \<noteq> []" and "fs (jn_Bootstrap j) = w_files w' (an_Bootstrap c)" and "jn_Name j = []"
    and "join_plan E' X' F I j fs = Inr (bs, cfg')"
  shows "\<exists>n. findSelf cfg' (last (w_uploads w')) = Inr n \<and> n_Name n = an_Name c \<and> wc_Name (c_Wireguard cfg') = an_Name c \<and>
    PublicKeyFromWGPrivate (l_wg (e_libs E)) (wc_PrivateKey (c_Wireguard cfg')) = Inr (n_PublicKey n) \<and>
    AgeRecipientFromIdentity (l_age (e_libs E)) (dc_NetworkIdentity (c_Directory cfg')) = Inr (n_AgeRecipient n) \<and>
    dc_PublisherPubKey (c_Directory cfg') = dc_PublisherPubKey (c_Directory cfg) \<and> ReadDrop cfg' = dr_Client (c_Drop cfg)"
proof -
  let ?W = "l_wg (e_libs E)" and ?A = "l_age (e_libs E)"
  have ct: "an_ClientType c \<noteq> ''wireguard''" using assms(4) by simp
  obtain port dir node priv ident conf dir' dat where pl: "addNode_plan (e_libs E) X c dir = Inr (node, priv, ident, conf)"
    and nd: "d_Nodes dir' = d_Nodes dir @ [node]" and up: "w_uploads w' = w_uploads w @ [dir']"
    and en: "e_bootEncode E (WithNode (bootstrap_Network cfg (d_Serial dir'))
           \<lparr>bn_Name = an_Name c, bn_TunnelIP = n_TunnelIP node, bn_ListenPort = port,
            bn_PublicKey = n_PublicKey node, bn_PrivateKey = priv, bn_AgeIdentity = ident\<rparr>) = Inr dat"
    and fl: "w_files w' (an_Bootstrap c) = Some (dat @ [NL])"
    by (rule AddNodeCmd_tincan [OF assms(3) ct assms(7,8)]) simp
  obtain pub rcpt where k: "addNode_keys (e_libs E) X c = Inr (pub, priv, rcpt, ident)"
    and fr: "\<forall>n \<in> set (d_Nodes dir). n_PublicKey n \<noteq> pub"
    and node: "n_Name node = an_Name c" "n_PublicKey node = pub" "n_AgeRecipient node = rcpt"
    by (rule addNode_plan_Inr [OF pl]) (simp add: zero_node_def)
  note keys = addNode_generated [OF assms(1,2) k assms(5,6) ct]
  let ?n = "\<lparr>bn_Name = an_Name c, bn_TunnelIP = n_TunnelIP node, bn_ListenPort = port,
      bn_PublicKey = n_PublicKey node, bn_PrivateKey = priv, bn_AgeIdentity = ident\<rparr>"
  let ?b = "WithNode (bootstrap_Network cfg (d_Serial dir')) ?n"
  have b: "bs_Node ?b = Some ?n" "bs_PublisherPubKey ?b = dc_PublisherPubKey (c_Directory cfg)" "bs_Drop ?b = dr_Client (c_Drop cfg)"
    by (simp_all add: WithNode_def bootstrap_Network_def)
  have "e_bootDecode E' (dat @ [NL]) = Inr ?b" using assms(9) en by blast
  then have rd: "bootstrap_Read E' (jn_Bootstrap j) fs = Inr b' \<Longrightarrow> b' = ?b" for b'
    by (auto simp: bootstrap_Read_def assms(11) fl split: option.splits if_splits)
  have cfg': "wc_PublicKey (c_Wireguard cfg') = pub" "wc_PrivateKey (c_Wireguard cfg') = priv" "wc_Name (c_Wireguard cfg') = an_Name c"
    "dc_NetworkIdentity (c_Directory cfg') = ident" "dc_PublisherPubKey (c_Directory cfg') = dc_PublisherPubKey (c_Directory cfg)"
    "ReadDrop cfg' = dr_Client (c_Drop cfg)"
    using join_from_node [OF assms(13) rd assms(10,12) b(1)] keys(1) b node(2) by simp_all
  have "findSelf cfg' dir' = Inr node" using findSelf_appended [OF nd] fr node(2) cfg'(1) by simp
  then show ?thesis using node keys cfg' up by simp
qed

text \<open>A bootstrap codec that knows the two files of the example.\<close>

definition demo_boot0 :: Bootstrap where "demo_boot0 = bootstrap_Network demo_cfg 6"

definition demo_boot1 :: Bootstrap where
  "demo_boot1 = WithNode demo_boot0 \<lparr>bn_Name = ''d'', bn_TunnelIP = ''10.42.0.4'', bn_ListenPort = 7,
     bn_PublicKey = std_encode (replicate 32 (char_of (68 :: nat))), bn_PrivateKey = std_encode (replicate 32 (char_of (68 :: nat))),
     bn_AgeIdentity = ''k''\<rparr>"

definition demo_bootEncode :: "Bootstrap \<Rightarrow> bytes res" where
  "demo_bootEncode b = (if b = demo_boot0 then Inr ''0'' else if b = demo_boot1 then Inr ''1'' else Inl (Err ''json''))"

definition demo_benv :: env where
  "demo_benv = (demo_env demo_any)\<lparr>e_bootEncode := demo_bootEncode\<rparr>"

definition demo_jenv :: env where
  "demo_jenv = (demo_env demo_any)\<lparr>e_bootDecode := (\<lambda>b. if b = ''0'' @ [NL] then Inr demo_boot0 else if b = ''1'' @ [NL] then Inr demo_boot1
     else Inl (Err ''json''))\<rparr>"

definition demo_join :: joinFlags where
  "demo_join = \<lparr>jn_Bootstrap = ''/j'', jn_DropType = [], jn_Name = [], jn_PrivateKeyFile = [], jn_GenerateKey = False, jn_StateDir = [],
     jn_FullConfig = False, jn_Force = False\<rparr>"

definition demo_conf :: confEnv where
  "demo_conf = \<lparr>cf_path = ''/c'', cf_toml = demo_toml, cf_curve = demo_curve, cf_io = \<lparr>co_mkdir = None, co_write = None\<rparr>,
     cf_stat = None, cf_open = None\<rparr>"

lemma demo_boot_ne: "demo_boot0 \<noteq> demo_boot1"
  by (simp add: demo_boot1_def demo_boot0_def bootstrap_Network_def WithNode_def)

lemma demo_benv_simps [simp]:
  "e_libs demo_benv = demo_any" "e_io demo_benv k = io_fine" "e_now demo_benv = 0"
  "e_bootEncode demo_benv = demo_bootEncode" "e_bootMkdir demo_benv = None" "e_bootWrite demo_benv = None"
  "e_libs demo_jenv = demo_any" "e_io demo_jenv k = io_fine" "e_bootRead demo_jenv = None"
  by (simp_all add: demo_benv_def demo_jenv_def demo_env_def)

lemma demo_any_libs [simp]: "l_wg demo_any = demo_wg" "l_age demo_any = demo_age"
  by (simp_all add: demo_any_def)

lemma demo_any_plan:
  "addNode_plan demo_any demo_enroll demo_flags demo_dir = Inr (demo_new, std_encode (replicate 32 (char_of (68 :: nat))), ''k'', [])"
proof -
  have "addNode_plan demo_any = addNode_plan (demo_libs demo_dir)"
    by (simp add: addNode_plan_def addNode_keys_def fun_eq_iff)
  then show ?thesis by (simp add: demo_plan)
qed

lemma demo_added:
  "\<exists>w'. AddNodeCmd demo_benv demo_enroll (\<lambda>_. Inr demo_drop) (Inr demo_cfg) demo_flags demo_world = (w', Inr ()) \<and>
     w_files w' ''/b'' = Some (''1'' @ [NL])"
proof -
  let ?dir = "demo_dir\<lparr>d_Nodes := d_Nodes demo_dir @ [demo_new]\<rparr>"
  have fl: "an_Bootstrap demo_flags = ''/b''" "an_ClientType demo_flags = ''tincan''" "an_NoPublish demo_flags = False" "an_Name demo_flags = ''d''"
    "an_Endpoint demo_flags = ''d.example:7''"
    by (simp_all add: demo_flags_def)
  have v: "addNode_validateFlags demo_flags = Inr ()" by (simp add: addNode_validateFlags_def demo_flags_def)
  have po: "listenPortFromEndpoint ''d.example:7'' = Inr 7" "validateEndpoint ''d.example:7'' = Inr ()" by code_simp+
  have fe: "fetchAdminDirectory demo_benv demo_cfg demo_drop demo_world = Inr demo_dir"
    by (simp add: fetchAdminDirectory_def ReadSource_def os_ReadFile_def demo_any_unmarshal demo_world_def fetchDirectory_def
        file_Get_def fine_io_def)
  have pr: "addNode_prepare demo_benv demo_enroll (\<lambda>_. Inr demo_drop) (Inr demo_cfg) demo_flags demo_world =
      Inr (7, demo_cfg, demo_drop, demo_dir, demo_new, std_encode (replicate 32 (char_of (68 :: nat))), ''k'', [])"
    by (simp add: addNode_prepare_def v fl po demo_asAdmin fe demo_any_plan)
  have val: "Validate demo_wg demo_age ?dir = Inr ()"
    using addNode_plan_exact(4) [OF _ _ _ demo_any_plan] demo_keygen [of demo_dir] po(2)
    by (simp add: fl demo_wg_ok demo_dir_valid keygen_ok_def)
  have psk: "list_all (\<lambda>n. n_PSK n = []) (d_Nodes ?dir)" using demo_dir_psk by (simp add: demo_new_def zero_node_def)
  have k: "ParseAgeRecipient demo_age ''k'' = Inr ''k''" by code_simp
  have rc: "recipientsOf demo_age (d_Nodes ?dir) = Inr [''age65'', ''age66'', ''age67'', ''k'']"
    by (simp add: demo_dir_def demo_node_fields demo_decimals demo_recipient_ok demo_new_def zero_node_def k)
  obtain w1 where p: "publishDirectory demo_benv demo_cfg demo_drop (?dir\<lparr>d_Serial := 6, d_CreatedAt := Stamp 0\<rparr>) True demo_world = (w1, Inr ())"
    unfolding demo_benv_def
    by (rule demo_publish [OF val psk rc, of demo_bootEncode 6 "Stamp 0"]) (simp_all add: demo_bootEncode_def demo_boot0_def)
  have s: "saveAdminDirectory demo_benv demo_cfg demo_drop ?dir False demo_world = (w1, Inr (?dir\<lparr>d_Serial := 6, d_CreatedAt := Stamp 0\<rparr>))"
    using p by (simp add: saveAdminDirectory_def demo_prepare demo_dir_def demo_world_def)
  have b: "bootstrap_Write demo_benv ''/b'' demo_boot1 (w_files w1) = ((w_files w1)(''/b'' \<mapsto> ''1'' @ [NL]), Inr ())"
    using demo_boot_ne by (simp add: bootstrap_Write_def demo_bootEncode_def)
  have n: "n_TunnelIP demo_new = ''10.42.0.4''" "n_PublicKey demo_new = std_encode (replicate 32 (char_of (68 :: nat)))"
    by (simp_all add: demo_new_def)
  have "AddNodeCmd demo_benv demo_enroll (\<lambda>_. Inr demo_drop) (Inr demo_cfg) demo_flags demo_world =
      (w1\<lparr>w_files := (w_files w1)(''/b'' \<mapsto> ''1'' @ [NL])\<rparr>, Inr ())"
    using s b by (simp add: AddNodeCmd_def pr fl n demo_boot1_def demo_boot0_def)
  then show ?thesis by simp
qed

lemma demo_join_plan:
  "\<exists>cfg'. join_plan demo_jenv demo_enroll demo_conf \<lparr>si_terminal = False, si_line = Inl ErrNotExist\<rparr> demo_join
     [''/j'' \<mapsto> ''1'' @ [NL]] = Inr (Some demo_boot1, cfg')"
  and demo_join_read: "bootstrap_Read demo_jenv ''/j'' [''/j'' \<mapsto> ''1'' @ [NL]] = Inr demo_boot1"
proof -
  have b1: "bs_SchemaVersion demo_boot1 = 2" "bs_Node demo_boot1 \<noteq> None" "bn_Name (the (bs_Node demo_boot1)) = ''d''"
    "bn_PrivateKey (the (bs_Node demo_boot1)) \<noteq> []"
    using wg_String_nonempty [OF demo_wg_ok, of "replicate 32 (char_of (68 :: nat))"]
    by (simp_all add: demo_boot1_def demo_boot0_def WithNode_def bootstrap_Network_def bootstrap_SchemaVersion_def demo_wg_def)
  show r: "bootstrap_Read demo_jenv ''/j'' [''/j'' \<mapsto> ''1'' @ [NL]] = Inr demo_boot1"
    using b1(1) by (simp add: bootstrap_Read_def demo_jenv_def demo_env_def bootstrap_SchemaVersion_def)
  then show "\<exists>cfg'. join_plan demo_jenv demo_enroll demo_conf \<lparr>si_terminal = False, si_line = Inl ErrNotExist\<rparr> demo_join
     [''/j'' \<mapsto> ''1'' @ [NL]] = Inr (Some demo_boot1, cfg')"
    using b1(2-4) by (auto simp: join_plan_def configExists_def demo_conf_def demo_join_def join_source_def join_existing_def resolveKeys_def)
qed

theorem enrolled_node_ready_witness:
  "\<exists>w' n cfg'. AddNodeCmd demo_benv demo_enroll (\<lambda>_. Inr demo_drop) (Inr demo_cfg) demo_flags demo_world = (w', Inr ()) \<and>
     findSelf cfg' (last (w_uploads w')) = Inr n \<and> n_Name n = ''d'' \<and>
     PublicKeyFromWGPrivate demo_wg (wc_PrivateKey (c_Wireguard cfg')) = Inr (n_PublicKey n)"
proof -
  obtain w' where a: "AddNodeCmd demo_benv demo_enroll (\<lambda>_. Inr demo_drop) (Inr demo_cfg) demo_flags demo_world = (w', Inr ())"
    and f: "w_files w' ''/b'' = Some (''1'' @ [NL])" using demo_added by blast
  let ?fs = "[''/j'' \<mapsto> ''1'' @ [NL]]"
  obtain cfg' where j: "join_plan demo_jenv demo_enroll demo_conf \<lparr>si_terminal = False, si_line = Inl ErrNotExist\<rparr> demo_join ?fs =
      Inr (Some demo_boot1, cfg')" using demo_join_plan by blast
  have dec: "\<forall>b dat. e_bootEncode demo_benv b = Inr dat \<longrightarrow> e_bootDecode demo_jenv (dat @ [NL]) = Inr b"
    by (auto simp: demo_bootEncode_def demo_jenv_def split: if_splits)
  have fl: "an_ClientType demo_flags = ''tincan''" "an_PubKey demo_flags = []" "an_AgeRecipient demo_flags = []" "an_Bootstrap demo_flags \<noteq> []"
    "\<not> an_NoPublish demo_flags" "jn_Bootstrap demo_join \<noteq> []" "?fs (jn_Bootstrap demo_join) = w_files w' (an_Bootstrap demo_flags)"
    "jn_Name demo_join = []" "an_Name demo_flags = ''d''"
    using f by (simp_all add: demo_flags_def demo_join_def)
  have "wglib_ok (l_wg (e_libs demo_benv))" "keygen_ok (e_libs demo_benv)"
    using demo_keygen [of demo_dir] by (simp_all add: demo_wg_ok keygen_ok_def)
  from enrolled_node_ready [OF this a fl(1-5) dec fl(6-8) j] a show ?thesis by (auto simp: fl(9))
qed

text \<open>C18: a member that joined with a bootstrap refuses anything older than its enrolment: after a successful \<open>join\<close> with
  a bootstrap, a synchronisation that is served a directory, however well signed, with a serial below the one in
  the bootstrap fails and leaves the state directory as it is.\<close>

theorem join_refuses_older:
  assumes "JoinCmd E X F I j fs d = ((fs', d'), Inr ())" and "jn_Bootstrap j \<noteq> []"
    and "bootstrap_Read E (jn_Bootstrap j) fs = Inr b" and "d_Serial old < bs_Serial b"
    and "newDrop (ReadDrop cfg) = Inr D" and "di_Get D s = Inr blob" and "io_ok (e_io E' 1)"
    and "Open (e_libs E') blob (dc_NetworkIdentity (c_Directory cfg)) (dc_PublisherPubKey (c_Directory cfg)) = Inr (old, pay)"
  shows "\<exists>e. runSyncOnce E' newDrop cfg s d' = (d', Inl e)"
proof -
  have pos: "bs_Serial b \<noteq> 0" using assms(4) by auto
  have src: "join_source E j fs = Inr (bs1, dc, nm) \<Longrightarrow> bs1 = Some b" for bs1 dc nm
    using assms(2,3) by (auto simp: join_source_def split: if_splits)
  obtain r where w: "WriteSerialFloor (e_io E 10) (bs_Serial b) d = (d', Inr r)"
  proof -
    obtain bs cfg0 where p: "join_plan E X F I j fs = Inr (bs, cfg0)"
      using assms(1) by (cases "join_plan E X F I j fs") (auto simp: JoinCmd_def)
    then have "bs = Some b" using src by (auto simp: join_plan_def split: if_splits)
    then show ?thesis using that assms(1) p pos word_neq_0_conv [of "bs_Serial b"]
      by (auto simp: JoinCmd_def split: prod.splits option.splits sum.splits)
  qed
  have "Suc (unat (bs_Serial b)) \<le> mark_level FSerial d'"
    by (rule WriteSerialFloor_raises [OF pos w])
  then obtain m where m: "mark FSerial d' = Some m" "bs_Serial b \<le> m"
    by (auto simp: mark_level_def word_le_nat_alt split: option.splits)
  then have "IsRollback (d_Serial old) m" using assms(4) by (simp add: IsRollback_def)
  then have "\<exists>e. fetchSyncDirectory E' cfg D s d' = Inl e"
  proof (cases "readSerial (e_io E' 1) FSerial d'")
    case (Inl e)
    have "\<not> errors_Is e ErrNotExist"
      using readSerial_absent [OF assms(7) Inl] m(1) by (auto simp: mark_def)
    with Inl show ?thesis using assms(6,8) by (simp add: fetchSyncDirectory_def ReadSerial_def)
  next
    case (Inr p)
    then have "p = m" using readSerial_Inr [OF Inr] m(1) by simp
    with Inr \<open>IsRollback (d_Serial old) m\<close> show ?thesis using assms(6,8) by (simp add: fetchSyncDirectory_def ReadSerial_def)
  qed
  then show ?thesis by (auto simp: runSyncOnce_def loadReadDrop_def assms(5))
qed

theorem join_refuses_older_witness:
  "\<exists>fs' d' e. JoinCmd demo_jenv demo_enroll demo_conf \<lparr>si_terminal = False, si_line = Inl ErrNotExist\<rparr> demo_join
       [''/j'' \<mapsto> ''1'' @ [NL]] Map.empty = ((fs', d'), Inr ()) \<and>
     runSyncOnce (demo_env (demo_libs demo_dir)) (\<lambda>_. Inr demo_drop) demo_cfg [''/d'' \<mapsto> demo_blob] d' = (d', Inl e)"
proof -
  let ?fs = "[''/j'' \<mapsto> ''1'' @ [NL]]"
  obtain cfg' where p: "join_plan demo_jenv demo_enroll demo_conf \<lparr>si_terminal = False, si_line = Inl ErrNotExist\<rparr> demo_join ?fs =
      Inr (Some demo_boot1, cfg')" using demo_join_plan by blast
  have s: "bs_Serial demo_boot1 = 6" by (simp add: demo_boot1_def demo_boot0_def WithNode_def bootstrap_Network_def)
  have w: "WriteSerialFloor io_fine 6 Map.empty = ([FSerial \<mapsto> formatSerial 6], Inr ())"
    by (simp add: WriteSerialFloor_def io_fine_write ReadSerial_def readSerial_def os_ReadFile_def writeSerialFile_def)
  obtain fs' where c: "saveConfig demo_conf cfg' False ?fs = (fs', None)"
    by (simp add: saveConfig_def demo_conf_def SaveMinimal_def writeConfig_def demo_toml_def)
  have j: "JoinCmd demo_jenv demo_enroll demo_conf \<lparr>si_terminal = False, si_line = Inl ErrNotExist\<rparr> demo_join ?fs Map.empty =
      ((fs', [FSerial \<mapsto> formatSerial 6]), Inr ())"
    using p c w s by (simp add: JoinCmd_def demo_join_def)
  have o: "Open (demo_libs demo_dir) demo_blob ''age66'' demo_pub = Inr (demo_dir, ''D'')"
    using Open_Seal [OF demo_libs_ok _ demo_seal demo_blob_size demo_keys demo_identity demo_member] demo_dir_canonical
      demo_marshal_dir [of 0] by (simp add: marshal_dir_def demo_dir_stamped)
  have g: "di_Get demo_drop [''/d'' \<mapsto> demo_blob] = Inr demo_blob"
    using demo_blob_size by (simp add: file_Get_def fine_io_def readBounded_Inr)
  have l: "d_Serial demo_dir < bs_Serial demo_boot1" unfolding s by (simp add: demo_dir_def)
  have "\<exists>e. runSyncOnce (demo_env (demo_libs demo_dir)) (\<lambda>_. Inr demo_drop) demo_cfg [''/d'' \<mapsto> demo_blob] [FSerial \<mapsto> formatSerial 6] =
      ([FSerial \<mapsto> formatSerial 6], Inl e)"
    by (rule join_refuses_older [where newDrop = "\<lambda>_. Inr demo_drop" and D = demo_drop, OF j _ _ l _ g])
      (use o demo_join_read in \<open>simp_all add: demo_join_def\<close>)
  with j show ?thesis by blast
qed

text \<open>The flags of a plain WireGuard client may carry an age recipient: the member then is not plain.\<close>

lemma plain_client_with_recipient:
  assumes "an_ClientType c = ''wireguard''" and "addNode_plan L X c dir = Inr (node, priv, ident, conf)"
  shows "n_AgeRecipient node = an_AgeRecipient c" and "IsPlainWireGuard node \<longleftrightarrow> an_AgeRecipient c = []"
proof -
  obtain pub rcpt ip where k: "addNode_keys L X c = Inr (pub, priv, rcpt, ident)"
    and n: "node = zero_node\<lparr>n_Name := an_Name c, n_PublicKey := pub, n_TunnelIP := ip, n_AgeRecipient := rcpt,
           n_Endpoint := an_Endpoint c, n_Relay := an_Relay c\<rparr>"
    by (rule addNode_plan_Inr [OF assms(2)])
  have "rcpt = an_AgeRecipient c" using assms(1) by (cases rule: addNode_keys_Inr [OF k]) simp
  then show "n_AgeRecipient node = an_AgeRecipient c" and "IsPlainWireGuard node \<longleftrightarrow> an_AgeRecipient c = []"
    by (simp_all add: n IsPlainWireGuard_def)
qed

end
