(* ===== verification/WgPeers.thy ===== *)
theory WgPeers
  imports Relay Settings
begin

text \<open>
  The WireGuard interface (\<open>src/internal/wg\<close>): from the directory to peer configurations
  (\<open>peers.go\<close>), their reconciliation with the kernel's peers (\<open>manager.go\<close>), the link, address and
  route of the interface (\<open>link.go\<close>, \<open>addr.go\<close>). Name resolution, netlink and wgctrl are parameters:
  a record of operations on an abstract kernel state. A \<open>*net.UDPAddr\<close> is its printed form.
\<close>

section \<open>Peer configurations\<close>

type_synonym LANEndpointLookup = "(string \<Rightarrow> bool \<Rightarrow> string) option"

record PeerConfig =
  pc_PublicKey :: bytes
  pc_Remove :: bool
  pc_Endpoint :: "string option"
  pc_Keepalive :: "duration option"
  pc_ReplaceAllowedIPs :: bool
  pc_AllowedIPs :: "ipnet list"

definition observedIP :: "node \<Rightarrow> ip16 option" where
  "observedIP n =
     (case splitHostPort (n_ObservedEndpoint n) of None \<Rightarrow> None
      | Some (host, _) \<Rightarrow> net_ParseIP host)"

definition behindSameNAT :: "node \<Rightarrow> node \<Rightarrow> bool" where
  "behindSameNAT self n =
     (let selfIP = observedIP self in selfIP \<noteq> None \<and> selfIP = observedIP n)"

definition chooseEndpoint :: "node \<Rightarrow> node \<Rightarrow> LANEndpointLookup \<Rightarrow> string" where
  "chooseEndpoint self n lanLookup =
     (if n_Endpoint n \<noteq> [] then n_Endpoint n
      else case lanLookup of
        None \<Rightarrow> n_ObservedEndpoint n
      | Some f \<Rightarrow>
          let lan = f (n_PublicKey n) (behindSameNAT self n)
          in if lan \<noteq> [] then lan else n_ObservedEndpoint n)"

definition keepaliveFor :: "WireguardConfig \<Rightarrow> node \<Rightarrow> duration" where
  "keepaliveFor cfg self =
     (if od_Set (wc_Keepalive cfg) then od_Duration (wc_Keepalive cfg)
      else if n_Endpoint self = [] then 25 * second else 0)"

definition relayTargetKey :: "node \<Rightarrow> directory \<Rightarrow> string list \<Rightarrow> string" where
  "relayTargetKey self dir relayed =
     (if relayed \<noteq> [] then
        (case RelayTarget dir (n_PublicKey self) of Some t \<Rightarrow> n_PublicKey t | None \<Rightarrow> [])
      else [])"

definition isShadow :: "string list \<Rightarrow> string \<Rightarrow> node \<Rightarrow> bool" where
  "isShadow relayed target n =
     (n_PublicKey n \<in> set relayed \<and> target \<noteq> [] \<and> n_PublicKey n \<noteq> target)"

text \<open>The body of the loop for one node other than \<open>self\<close>: its peer entry and its tunnel route.\<close>

definition peerFor ::
  "wglib \<Rightarrow> (string \<Rightarrow> string option) \<Rightarrow> WireguardConfig \<Rightarrow> node \<Rightarrow> string list \<Rightarrow> string \<Rightarrow> LANEndpointLookup \<Rightarrow>
   node \<Rightarrow> (PeerConfig \<times> ipnet) res" where
  "peerFor W resolve cfg self relayed target lanLookup n =
     bindR (wrapR ''peer'' (ParseWGPublic W (n_PublicKey n))) (\<lambda>pub.
       case net_ParseCIDR (n_TunnelIP n @ ''/32'') of
         None \<Rightarrow> Inl (Wrap ''peer tunnel IP'' (Err ''invalid CIDR address''))
       | Some (_, tunnel) \<Rightarrow>
           let shadow = isShadow relayed target n;
               bareShadow = (shadow \<and> IsPlainWireGuard n);
               endpointStr = chooseEndpoint self n lanLookup;
               keepalive = keepaliveFor cfg self
           in Inr (\<lparr>pc_PublicKey = pub, pc_Remove = False,
                pc_Endpoint = (if \<not> bareShadow \<and> endpointStr \<noteq> [] then resolve endpointStr else None),
                pc_Keepalive = (if \<not> bareShadow \<and> keepalive > 0 then Some keepalive else None),
                pc_ReplaceAllowedIPs = True,
                pc_AllowedIPs = (if shadow then [] else [tunnel])\<rparr>, tunnel))"

fun build_loop ::
  "(node \<Rightarrow> (PeerConfig \<times> ipnet) res) \<Rightarrow> node \<Rightarrow> string list \<Rightarrow> string \<Rightarrow> node list \<Rightarrow>
   PeerConfig list \<Rightarrow> ipnet list \<Rightarrow> nat option \<Rightarrow> (PeerConfig list \<times> ipnet list \<times> nat option) res" where
  "build_loop body self relayed target [] peers extra idx = Inr (peers, extra, idx)"
| "build_loop body self relayed target (n # ns) peers extra idx =
     (if n_PublicKey n = n_PublicKey self then build_loop body self relayed target ns peers extra idx
      else bindR (body n) (\<lambda>(peer, tunnel).
        build_loop body self relayed target ns (peers @ [peer])
          (if isShadow relayed target n then extra @ [tunnel] else extra)
          (if n_PublicKey n = target then Some (length peers) else idx)))"

definition BuildPeerConfigs ::
  "wglib \<Rightarrow> (string \<Rightarrow> string option) \<Rightarrow> WireguardConfig \<Rightarrow> node \<Rightarrow> directory \<Rightarrow> string list \<Rightarrow> LANEndpointLookup \<Rightarrow>
   PeerConfig list res" where
  "BuildPeerConfigs W resolve cfg self dir relayed lanLookup =
     (let target = relayTargetKey self dir relayed
      in bindR (build_loop (peerFor W resolve cfg self relayed target lanLookup) self relayed target
                  (d_Nodes dir) [] [] None)
           (\<lambda>(peers, extra, idx).
             case idx of None \<Rightarrow> Inr peers
             | Some i \<Rightarrow>
                 if extra = [] then Inr peers
                 else Inr (peers[i := (peers ! i)\<lparr>pc_AllowedIPs := pc_AllowedIPs (peers ! i) @ extra\<rparr>])))"

section \<open>Reconciliation with the kernel\<close>

definition handshakeFreshWindow :: duration where
  "handshakeFreshWindow = DefaultDirectFailedAfter"

definition preserveEndpoint :: "(bytes \<Rightarrow> wgpeer option) \<Rightarrow> gotime \<Rightarrow> PeerConfig \<Rightarrow> PeerConfig" where
  "preserveEndpoint byKey now p =
     (if pc_Endpoint p = None then p
      else case byKey (pc_PublicKey p) of
        None \<Rightarrow> p
      | Some kp \<Rightarrow>
          if time_IsZero (wp_LastHandshake kp) then p
          else if time_Sub now (wp_LastHandshake kp) < handshakeFreshWindow then p\<lparr>pc_Endpoint := None\<rparr>
          else p)"

definition preserveLiveEndpoints :: "PeerConfig list \<Rightarrow> wgpeer list \<Rightarrow> gotime \<Rightarrow> PeerConfig list" where
  "preserveLiveEndpoints peers existing now = map (preserveEndpoint (indexPeers existing) now) peers"

definition removal :: "bytes \<Rightarrow> PeerConfig" where
  "removal k = \<lparr>pc_PublicKey = k, pc_Remove = True, pc_Endpoint = None, pc_Keepalive = None,
     pc_ReplaceAllowedIPs = False, pc_AllowedIPs = []\<rparr>"

definition appendDeletions :: "PeerConfig list \<Rightarrow> wgpeer list \<Rightarrow> PeerConfig list" where
  "appendDeletions target existing =
     target @ map (\<lambda>p. removal (wp_PublicKey p))
       (filter (\<lambda>p. wp_PublicKey p \<notin> pc_PublicKey ` set target) existing)"

definition zeroKeepalive :: "PeerConfig \<Rightarrow> PeerConfig" where
  "zeroKeepalive p = (if pc_Keepalive p = None then p\<lparr>pc_Keepalive := Some 0\<rparr> else p)"

text \<open>\<open>dev\<close> is the outcome of \<open>client.Device(iface)\<close>.\<close>

definition mergeAgainstKernel :: "wgpeer list res \<Rightarrow> gotime \<Rightarrow> PeerConfig list \<Rightarrow> PeerConfig list" where
  "mergeAgainstKernel dev now peers0 =
     (let peers = map zeroKeepalive peers0
      in case dev of Inl _ \<Rightarrow> peers
         | Inr existing \<Rightarrow> appendDeletions (preserveLiveEndpoints peers existing now) existing)"

definition pushedEndpointKeys :: "wglib \<Rightarrow> PeerConfig list \<Rightarrow> string list" where
  "pushedEndpointKeys W peers =
     map (\<lambda>p. wg_String W (pc_PublicKey p))
       (filter (\<lambda>p. \<not> (pc_Remove p \<or> pc_Endpoint p = None)) peers)"

section \<open>The manager\<close>

record Manager =
  m_iface :: string
  m_privateKey :: bytes
  m_listenPort :: "int option"
  m_mtu :: int
  m_wg :: WireguardConfig

definition NewManager :: "wglib \<Rightarrow> WireguardConfig \<Rightarrow> Manager res" where
  "NewManager W cfg0 =
     bindR (ParseWGPrivate W (wc_PrivateKey cfg0)) (\<lambda>priv.
       let listenPort = (if wc_ListenPort cfg0 > 0 then Some (wc_ListenPort cfg0) else None);
           cfg1 = (if wc_Interface cfg0 = [] then cfg0\<lparr>wc_Interface := DefaultInterface\<rparr> else cfg0);
           cfg = (if wc_MTU cfg1 = 0 then cfg1\<lparr>wc_MTU := DefaultMTU\<rparr> else cfg1)
       in Inr \<lparr>m_iface = wc_Interface cfg, m_privateKey = priv, m_listenPort = listenPort,
            m_mtu = wc_MTU cfg, m_wg = cfg\<rparr>)"

text \<open>netlink and wgctrl: operations on a kernel state \<open>'s\<close>. An operation that changes the state
  returns the new state and its error, if any.\<close>

record link =
  lk_Name :: string
  lk_Index :: int
  lk_MTU :: int

record wgdevice =
  wd_ListenPort :: int
  wd_Peers :: "wgpeer list"

record deviceConfig =
  wf_PrivateKey :: bytes
  wf_ListenPort :: "int option"
  wf_ReplacePeers :: bool
  wf_Peers :: "PeerConfig list"

record 's kernelops =
  k_LinkByName :: "'s \<Rightarrow> string \<Rightarrow> link res"
  k_LinkAdd :: "'s \<Rightarrow> string \<Rightarrow> int \<Rightarrow> 's \<times> error option"
  k_LinkSetMTU :: "'s \<Rightarrow> link \<Rightarrow> int \<Rightarrow> 's \<times> error option"
  k_LinkSetUp :: "'s \<Rightarrow> link \<Rightarrow> 's \<times> error option"
  k_LinkDel :: "'s \<Rightarrow> link \<Rightarrow> 's \<times> error option"
  k_AddrList :: "'s \<Rightarrow> link \<Rightarrow> ipnet option list res"
  k_AddrDel :: "'s \<Rightarrow> link \<Rightarrow> ipnet \<Rightarrow> 's \<times> error option"
  k_AddrReplace :: "'s \<Rightarrow> link \<Rightarrow> ipnet \<Rightarrow> 's \<times> error option"
  k_RouteReplace :: "'s \<Rightarrow> link \<Rightarrow> ipnet \<Rightarrow> 's \<times> error option"
  k_OpenWG :: "'s \<Rightarrow> unit res"
  k_Device :: "'s \<Rightarrow> string \<Rightarrow> wgdevice res"
  k_ConfigureDevice :: "'s \<Rightarrow> string \<Rightarrow> deviceConfig \<Rightarrow> 's \<times> error option"

definition ensureLink :: "'s kernelops \<Rightarrow> Manager \<Rightarrow> 's \<Rightarrow> 's \<times> link res" where
  "ensureLink K m s =
     (case k_LinkByName K s (m_iface m) of
        Inr link \<Rightarrow>
          if m_mtu m > 0 \<and> lk_MTU link \<noteq> m_mtu m then
            (case k_LinkSetMTU K s link (m_mtu m) of
               (s', Some e) \<Rightarrow> (s', Inl (Wrap ''set MTU'' e))
             | (s', None) \<Rightarrow> (s', Inr link))
          else (s, Inr link)
      | Inl _ \<Rightarrow>
          (case k_LinkAdd K s (m_iface m) (m_mtu m) of
             (s', Some e) \<Rightarrow> (s', Inl (Wrap ''create WireGuard link'' e))
           | (s', None) \<Rightarrow> (s', wrapR ''find created WireGuard link'' (k_LinkByName K s' (m_iface m)))))"

definition Up :: "'s kernelops \<Rightarrow> Manager \<Rightarrow> 's \<Rightarrow> 's \<times> error option" where
  "Up K m s =
     (case ensureLink K m s of
        (s', Inl e) \<Rightarrow> (s', Some e)
      | (s', Inr link) \<Rightarrow>
          (case k_LinkSetUp K s' link of
             (s'', Some e) \<Rightarrow> (s'', Some (Wrap ''set link up'' e))
           | (s'', None) \<Rightarrow> (s'', None)))"

text \<open>Two \<open>IPNet\<close> values print alike exactly when they are the same network.\<close>

definition staleHostAddr :: "ipnet \<Rightarrow> ipnet option \<Rightarrow> bool" where
  "staleHostAddr want a =
     (case a of None \<Rightarrow> False
      | Some n \<Rightarrow> n \<noteq> want \<and> addr_Is4 (in_IP n) \<and> in_Ones n = 32)"

definition ensureAddress :: "'s kernelops \<Rightarrow> link \<Rightarrow> string \<Rightarrow> 's \<Rightarrow> 's \<times> error option" where
  "ensureAddress K link tunnelIP s =
     (case net_ParseCIDR (tunnelIP @ ''/32'') of
        None \<Rightarrow> (s, Some (Wrap ''parse tunnel address'' (Err ''invalid CIDR address'')))
      | Some (_, want) \<Rightarrow>
          (case k_AddrList K s link of
             Inl e \<Rightarrow> (s, Some (Wrap ''list link addresses'' e))
           | Inr addrs \<Rightarrow>
               let s' = fold (\<lambda>a st. fst (k_AddrDel K st link (the a))) (filter (staleHostAddr want) addrs) s
               in case k_AddrReplace K s' link want of
                    (s'', Some e) \<Rightarrow> (s'', Some (Wrap ''assign tunnel address'' e))
                  | (s'', None) \<Rightarrow> (s'', None)))"

definition ensureRoute :: "'s kernelops \<Rightarrow> link \<Rightarrow> string \<Rightarrow> 's \<Rightarrow> 's \<times> error option" where
  "ensureRoute K link cidr s =
     (case net_ParseCIDR cidr of
        None \<Rightarrow> (s, Some (Wrap ''parse route CIDR'' (Err ''invalid CIDR address'')))
      | Some (_, dst) \<Rightarrow>
          (case k_RouteReplace K s link dst of
             (s', Some e) \<Rightarrow> (s', Some (Wrap ''ensure route'' e))
           | (s', None) \<Rightarrow> (s', None)))"

definition Apply ::
  "wglib \<Rightarrow> 's kernelops \<Rightarrow> (string \<Rightarrow> string option) \<Rightarrow> gotime \<Rightarrow> Manager \<Rightarrow> node \<Rightarrow> directory \<Rightarrow> string list \<Rightarrow>
   LANEndpointLookup \<Rightarrow> 's \<Rightarrow> 's \<times> string list \<times> error option" where
  "Apply W K resolve now m self dir relayed lanLookup s =
     (case k_LinkByName K s (m_iface m) of
        Inl e \<Rightarrow> (s, [], Some (Wrap ''find link'' e))
      | Inr link \<Rightarrow>
          (case BuildPeerConfigs W resolve (m_wg m) self dir relayed lanLookup of
             Inl e \<Rightarrow> (s, [], Some e)
           | Inr peers0 \<Rightarrow>
               (case k_OpenWG K s of
                  Inl e \<Rightarrow> (s, [], Some (Wrap ''open wgctrl'' e))
                | Inr _ \<Rightarrow>
                    let peers = mergeAgainstKernel (bindR (k_Device K s (m_iface m)) (\<lambda>d. Inr (wd_Peers d))) now peers0
                    in case k_ConfigureDevice K s (m_iface m)
                          \<lparr>wf_PrivateKey = m_privateKey m, wf_ListenPort = m_listenPort m, wf_ReplacePeers = False,
                           wf_Peers = peers\<rparr> of
                         (s1, Some e) \<Rightarrow> (s1, [], Some (Wrap ''configure WireGuard device'' e))
                       | (s1, None) \<Rightarrow>
                           let pushed = pushedEndpointKeys W peers
                           in case ensureAddress K link (n_TunnelIP self) s1 of
                                (s2, Some e) \<Rightarrow> (s2, pushed, Some e)
                              | (s2, None) \<Rightarrow>
                                  (case ensureRoute K link (d_NetworkCIDR dir) s2 of
                                     (s3, e) \<Rightarrow> (s3, pushed, e)))))"

definition Ensure ::
  "wglib \<Rightarrow> 's kernelops \<Rightarrow> (string \<Rightarrow> string option) \<Rightarrow> gotime \<Rightarrow> Manager \<Rightarrow> node \<Rightarrow> directory \<Rightarrow> string list \<Rightarrow>
   's \<Rightarrow> 's \<times> error option" where
  "Ensure W K resolve now m self dir relayed s =
     (case Up K m s of
        (s', Some e) \<Rightarrow> (s', Some e)
      | (s', None) \<Rightarrow> (case Apply W K resolve now m self dir relayed None s' of (s'', _, e) \<Rightarrow> (s'', e)))"

definition manager_Peers :: "'s kernelops \<Rightarrow> Manager \<Rightarrow> 's \<Rightarrow> wgpeer list res" where
  "manager_Peers K m s =
     bindR (wrapR ''open wgctrl'' (k_OpenWG K s)) (\<lambda>_.
     bindR (wrapR ''read wireguard device'' (k_Device K s (m_iface m))) (\<lambda>dev. Inr (wd_Peers dev)))"

definition manager_ListenPort :: "'s kernelops \<Rightarrow> Manager \<Rightarrow> 's \<Rightarrow> u16 res" where
  "manager_ListenPort K m s =
     bindR (wrapR ''open wgctrl'' (k_OpenWG K s)) (\<lambda>_.
     bindR (wrapR ''read wireguard device'' (k_Device K s (m_iface m))) (\<lambda>dev.
       if wd_ListenPort dev < 0 \<or> wd_ListenPort dev > 65535 then Inl (Err ''listen port out of range'')
       else Inr (word_of_int (wd_ListenPort dev))))"

definition Teardown :: "'s kernelops \<Rightarrow> Manager \<Rightarrow> 's \<Rightarrow> 's \<times> error option" where
  "Teardown K m s =
     (case k_LinkByName K s (m_iface m) of
        Inl e \<Rightarrow> (s, Some (Wrap ''find link'' e))
      | Inr link \<Rightarrow>
          (case k_LinkDel K s link of
             (s', Some e) \<Rightarrow> (s', Some (Wrap ''delete link'' e))
           | (s', None) \<Rightarrow> (s', None)))"

section \<open>What the peer list routes\<close>

abbreviation other_nodes :: "node \<Rightarrow> directory \<Rightarrow> node list" where
  "other_nodes self dir \<equiv> filter (\<lambda>n. n_PublicKey n \<noteq> n_PublicKey self) (d_Nodes dir)"

text \<open>The parsed key and the tunnel route of a member.\<close>

definition key_of :: "wglib \<Rightarrow> node \<Rightarrow> bytes" where
  "key_of W n = (case ParseWGPublic W (n_PublicKey n) of Inr k \<Rightarrow> k | Inl _ \<Rightarrow> [])"

definition tunnel_of :: "node \<Rightarrow> ipnet" where
  "tunnel_of n =
     (case net_ParseCIDR (n_TunnelIP n @ ''/32'') of Some (_, t) \<Rightarrow> t | None \<Rightarrow> \<lparr>in_IP = V4 0, in_Ones = 0\<rparr>)"

definition endpoint_for ::
  "(string \<Rightarrow> string option) \<Rightarrow> node \<Rightarrow> directory \<Rightarrow> string list \<Rightarrow> LANEndpointLookup \<Rightarrow> node \<Rightarrow> string option" where
  "endpoint_for resolve self dir relayed lan n =
     (if isShadow relayed (relayTargetKey self dir relayed) n \<and> IsPlainWireGuard n \<or> chooseEndpoint self n lan = []
      then None else resolve (chooseEndpoint self n lan))"

lemma peerFor_Inr:
  assumes "peerFor W resolve cfg self relayed target lan n = Inr (p, t)"
  shows "pc_PublicKey p = key_of W n \<and> t = tunnel_of n \<and> \<not> pc_Remove p \<and> pc_ReplaceAllowedIPs p \<and>
    pc_AllowedIPs p = (if isShadow relayed target n then [] else [tunnel_of n]) \<and>
    pc_Endpoint p = (if isShadow relayed target n \<and> IsPlainWireGuard n \<or> chooseEndpoint self n lan = [] then None
      else resolve (chooseEndpoint self n lan))"
  using assms by (auto simp: peerFor_def key_of_def tunnel_of_def Let_def split: option.splits)

lemma build_loop_Inr:
  assumes "build_loop body self relayed target ns peers extra idx = Inr (peers', extra', idx')"
  shows "\<exists>ps. peers' = peers @ map fst ps \<and>
    list_all2 (\<lambda>n pt. body n = Inr pt) (filter (\<lambda>n. n_PublicKey n \<noteq> n_PublicKey self) ns) ps \<and>
    extra' = extra @ map snd (filter (\<lambda>(n, t). isShadow relayed target n)
      (zip (filter (\<lambda>n. n_PublicKey n \<noteq> n_PublicKey self) ns) (map snd ps))) \<and>
    (case idx' of
       None \<Rightarrow> idx = None \<and> (\<forall>n \<in> set ns. n_PublicKey n \<noteq> n_PublicKey self \<longrightarrow> n_PublicKey n \<noteq> target)
     | Some i \<Rightarrow> idx = Some i \<or> (length peers \<le> i \<and> i < length peers' \<and>
         n_PublicKey (filter (\<lambda>n. n_PublicKey n \<noteq> n_PublicKey self) ns ! (i - length peers)) = target))"
  using assms
proof (induction ns arbitrary: peers extra idx)
  case Nil
  then show ?case by (auto intro: exI [of _ "[]"] split: option.splits)
next
  case (Cons n ns)
  show ?case
  proof (cases "n_PublicKey n = n_PublicKey self")
    case True
    with Cons show ?thesis by (auto split: option.splits)
  next
    case False
    with Cons.prems obtain p t where b: "body n = Inr (p, t)"
      and l: "build_loop body self relayed target ns (peers @ [p])
        (if isShadow relayed target n then extra @ [t] else extra)
        (if n_PublicKey n = target then Some (length peers) else idx) = Inr (peers', extra', idx')" by auto
    from Cons.IH [OF l] obtain ps where ps: "peers' = (peers @ [p]) @ map fst ps"
      "list_all2 (\<lambda>n pt. body n = Inr pt) (filter (\<lambda>n. n_PublicKey n \<noteq> n_PublicKey self) ns) ps"
      "extra' = (if isShadow relayed target n then extra @ [t] else extra) @ map snd (filter (\<lambda>(n, t). isShadow relayed target n)
        (zip (filter (\<lambda>n. n_PublicKey n \<noteq> n_PublicKey self) ns) (map snd ps)))"
      and i: "case idx' of
       None \<Rightarrow> (if n_PublicKey n = target then Some (length peers) else idx) = None \<and>
          (\<forall>n \<in> set ns. n_PublicKey n \<noteq> n_PublicKey self \<longrightarrow> n_PublicKey n \<noteq> target)
     | Some i \<Rightarrow> (if n_PublicKey n = target then Some (length peers) else idx) = Some i \<or>
        (length (peers @ [p]) \<le> i \<and> i < length peers' \<and>
         n_PublicKey (filter (\<lambda>n. n_PublicKey n \<noteq> n_PublicKey self) ns ! (i - length (peers @ [p]))) = target)" by blast
    have "case idx' of
       None \<Rightarrow> idx = None \<and> (\<forall>m \<in> set (n # ns). n_PublicKey m \<noteq> n_PublicKey self \<longrightarrow> n_PublicKey m \<noteq> target)
     | Some i \<Rightarrow> idx = Some i \<or> (length peers \<le> i \<and> i < length peers' \<and>
         n_PublicKey (filter (\<lambda>n. n_PublicKey n \<noteq> n_PublicKey self) (n # ns) ! (i - length peers)) = target)"
    proof (cases idx')
      case None
      with i show ?thesis by (auto split: if_splits)
    next
      case (Some j)
      consider "n_PublicKey n = target" "j = length peers" | "n_PublicKey n \<noteq> target" "idx = Some j"
        | "Suc (length peers) \<le> j" "j < length peers'"
          "n_PublicKey (filter (\<lambda>n. n_PublicKey n \<noteq> n_PublicKey self) ns ! (j - Suc (length peers))) = target"
        using i Some by (auto split: if_splits)
      then show ?thesis
      proof cases
        case 1
        with Some False ps(1) show ?thesis by simp
      next
        case 2
        with Some show ?thesis by simp
      next
        case 3
        then have "j - length peers = Suc (j - Suc (length peers))" by simp
        with 3 Some False show ?thesis by simp
      qed
    qed
    with ps b False show ?thesis by (intro exI [of _ "(p, t) # ps"]) auto
  qed
qed

text \<open>The entry of each member, when the list is built: its own route unless it is relayed, and the
  routes of all relayed members at the relay target.\<close>

definition routed_by :: "wglib \<Rightarrow> node \<Rightarrow> directory \<Rightarrow> string list \<Rightarrow> node \<Rightarrow> bytes" where
  "routed_by W self dir relayed n =
     (if isShadow relayed (relayTargetKey self dir relayed) n
      then (case RelayTarget dir (n_PublicKey self) of Some t \<Rightarrow> key_of W t | None \<Rightarrow> [])
      else key_of W n)"

lemma list_update_entry:
  assumes "i < length ps"
  shows "p \<in> set (ps[i := x]) \<longleftrightarrow> p = x \<or> (\<exists>j < length ps. j \<noteq> i \<and> p = ps ! j)"
  using assms by (auto simp: in_set_conv_nth nth_list_update split: if_splits)

lemma relayTargetKey_Some:
  "relayTargetKey self dir relayed \<noteq> [] \<Longrightarrow>
     \<exists>t. RelayTarget dir (n_PublicKey self) = Some t \<and> relayTargetKey self dir relayed = n_PublicKey t \<and>
       t \<in> set (other_nodes self dir)"
  using RelayTarget_reachable by (auto simp: relayTargetKey_def reachable_node_def split: if_splits option.splits)

lemma key_of_cong: "n_PublicKey m = n_PublicKey n \<Longrightarrow> key_of W m = key_of W n"
  by (simp add: key_of_def)

lemma BuildPeerConfigs_loop:
  assumes "BuildPeerConfigs W resolve cfg self dir relayed lan = Inr peers"
  shows "\<exists>ps idx. list_all2 (\<lambda>n pt. peerFor W resolve cfg self relayed (relayTargetKey self dir relayed) lan n = Inr pt)
      (other_nodes self dir) ps \<and>
    (let extra = map tunnel_of (filter (isShadow relayed (relayTargetKey self dir relayed)) (other_nodes self dir))
     in peers = (case idx of None \<Rightarrow> map fst ps
        | Some i \<Rightarrow> (map fst ps)[i := (map fst ps ! i)\<lparr>pc_AllowedIPs := pc_AllowedIPs (map fst ps ! i) @ extra\<rparr>])) \<and>
    (case idx of None \<Rightarrow> \<forall>n \<in> set (other_nodes self dir). n_PublicKey n \<noteq> relayTargetKey self dir relayed
     | Some i \<Rightarrow> i < length ps \<and> n_PublicKey (other_nodes self dir ! i) = relayTargetKey self dir relayed)"
proof -
  let ?target = "relayTargetKey self dir relayed" and ?body = "peerFor W resolve cfg self relayed (relayTargetKey self dir relayed) lan"
  from assms obtain peers' extra idx
    where l: "build_loop ?body self relayed ?target (d_Nodes dir) [] [] None = Inr (peers', extra, idx)"
      and p0: "(case idx of None \<Rightarrow> Inr peers' | Some i \<Rightarrow> if extra = [] then Inr peers'
        else Inr (peers'[i := (peers' ! i)\<lparr>pc_AllowedIPs := pc_AllowedIPs (peers' ! i) @ extra\<rparr>])) = (Inr peers :: _ res)"
    unfolding BuildPeerConfigs_def Let_def by auto
  then have p: "peers = (case idx of None \<Rightarrow> peers' | Some i \<Rightarrow> if extra = [] then peers'
        else peers'[i := (peers' ! i)\<lparr>pc_AllowedIPs := pc_AllowedIPs (peers' ! i) @ extra\<rparr>])"
    by (auto split: option.splits if_splits)
  from build_loop_Inr [OF l] obtain ps where ps: "peers' = map fst ps"
    "list_all2 (\<lambda>n pt. ?body n = Inr pt) (other_nodes self dir) ps"
    "extra = map snd (filter (\<lambda>(n, t). isShadow relayed ?target n) (zip (other_nodes self dir) (map snd ps)))"
    and i: "case idx of None \<Rightarrow> \<forall>n \<in> set (other_nodes self dir). n_PublicKey n \<noteq> ?target
       | Some i \<Rightarrow> i < length ps \<and> n_PublicKey (other_nodes self dir ! i) = ?target"
    by (auto split: option.splits)
  have "map snd ps = map tunnel_of (other_nodes self dir)"
    using ps(2) by (induction rule: list_all2_induct) (auto dest: peerFor_Inr)
  then have e: "extra = map tunnel_of (filter (isShadow relayed ?target) (other_nodes self dir))"
    by (simp add: ps(3) zip_map2 filter_map comp_def zip_same_conv_map split_def)
  have u: "peers'[j := (peers' ! j)\<lparr>pc_AllowedIPs := pc_AllowedIPs (peers' ! j) @ []\<rparr>] = peers'" for j by simp
  have "peers = (case idx of None \<Rightarrow> peers' | Some i \<Rightarrow>
      peers'[i := (peers' ! i)\<lparr>pc_AllowedIPs := pc_AllowedIPs (peers' ! i) @ extra\<rparr>])"
    using p u by (cases idx) auto
  then show ?thesis using ps(1,2) e i unfolding Let_def by blast
qed

lemma build_loop_ok:
  "list_all (\<lambda>n. n_PublicKey n = n_PublicKey self \<or> is_ok (body n)) ns \<Longrightarrow>
     is_ok (build_loop body self relayed target ns peers extra idx)"
proof (induction ns arbitrary: peers extra idx)
  case (Cons n ns)
  then show ?case by (cases "body n") auto
qed simp

lemma BuildPeerConfigs_ok:
  assumes "\<forall>n \<in> set (other_nodes self dir).
    is_ok (ParseWGPublic W (n_PublicKey n)) \<and> net_ParseCIDR (n_TunnelIP n @ ''/32'') \<noteq> None"
  shows "is_ok (BuildPeerConfigs W resolve cfg self dir relayed lan)"
proof -
  have "is_ok (peerFor W resolve cfg self relayed target lan n)" if "n \<in> set (other_nodes self dir)" for n target
    using assms that by (fastforce simp: peerFor_def is_ok_iff Let_def)
  then have "list_all (\<lambda>n. n_PublicKey n = n_PublicKey self \<or> is_ok (peerFor W resolve cfg self relayed target lan n)) (d_Nodes dir)"
    for target by (auto simp: list_all_iff)
  from build_loop_ok [OF this, where target = "relayTargetKey self dir relayed" and peers = "[]" and extra = "[]" and idx = None]
  obtain peers extra idx where "build_loop (peerFor W resolve cfg self relayed (relayTargetKey self dir relayed) lan) self
      relayed (relayTargetKey self dir relayed) (d_Nodes dir) [] [] None = Inr (peers, extra, idx)"
    unfolding is_ok_iff by (metis prod_cases3)
  then show ?thesis by (simp add: BuildPeerConfigs_def Let_def split: option.split)
qed

text \<open>The entries of a configuration by position: those of the other members in order, where the entry of the relay target, if there is one, also has
  the addresses of the shadows.\<close>

lemma BuildPeerConfigs_entries:
  assumes "BuildPeerConfigs W resolve cfg self dir relayed lan = Inr peers"
  shows "\<exists>idx. length peers = length (other_nodes self dir) \<and>
    (\<forall>j < length peers. ParseWGPublic W (n_PublicKey (other_nodes self dir ! j)) = Inr (key_of W (other_nodes self dir ! j)) \<and>
      pc_PublicKey (peers ! j) = key_of W (other_nodes self dir ! j) \<and> \<not> pc_Remove (peers ! j) \<and> pc_ReplaceAllowedIPs (peers ! j) \<and>
      pc_Endpoint (peers ! j) = endpoint_for resolve self dir relayed lan (other_nodes self dir ! j) \<and>
      pc_AllowedIPs (peers ! j) =
        (if isShadow relayed (relayTargetKey self dir relayed) (other_nodes self dir ! j) then [] else [tunnel_of (other_nodes self dir ! j)]) @
        (if idx = Some j then map tunnel_of (filter (isShadow relayed (relayTargetKey self dir relayed)) (other_nodes self dir)) else [])) \<and>
    (\<forall>m \<in> set (other_nodes self dir). isShadow relayed (relayTargetKey self dir relayed) m \<longrightarrow>
      (\<exists>i t. idx = Some i \<and> i < length peers \<and> RelayTarget dir (n_PublicKey self) = Some t \<and> key_of W (other_nodes self dir ! i) = key_of W t))"
proof -
  let ?os = "other_nodes self dir" and ?target = "relayTargetKey self dir relayed"
  let ?sh = "isShadow relayed ?target"
  obtain ps idx where ps: "list_all2 (\<lambda>n pt. peerFor W resolve cfg self relayed ?target lan n = Inr pt) ?os ps"
    and peers: "peers = (case idx of None \<Rightarrow> map fst ps
        | Some i \<Rightarrow> (map fst ps)[i := (map fst ps ! i)\<lparr>pc_AllowedIPs := pc_AllowedIPs (map fst ps ! i) @
            map tunnel_of (filter ?sh ?os)\<rparr>])"
    and idx: "case idx of None \<Rightarrow> \<forall>n \<in> set ?os. n_PublicKey n \<noteq> ?target
     | Some i \<Rightarrow> i < length ps \<and> n_PublicKey (?os ! i) = ?target"
    using BuildPeerConfigs_loop [OF assms] unfolding Let_def by blast
  have len: "length ps = length ?os" using ps by (simp add: list_all2_lengthD)
  have lenp: "length peers = length ps" using peers by (simp split: option.splits)
  have ent: "pc_PublicKey (fst (ps ! j)) = key_of W (?os ! j) \<and> \<not> pc_Remove (fst (ps ! j)) \<and>
      pc_ReplaceAllowedIPs (fst (ps ! j)) \<and>
      pc_Endpoint (fst (ps ! j)) = endpoint_for resolve self dir relayed lan (?os ! j) \<and>
      pc_AllowedIPs (fst (ps ! j)) = (if ?sh (?os ! j) then [] else [tunnel_of (?os ! j)])"
    and parsed: "ParseWGPublic W (n_PublicKey (?os ! j)) = Inr (key_of W (?os ! j))" if "j < length ps" for j
    using list_all2_nthD2 [OF ps that] peerFor_Inr [of W resolve cfg self relayed ?target lan "?os ! j" "fst (ps ! j)" "snd (ps ! j)"]
    by (simp add: endpoint_for_def) (use list_all2_nthD2 [OF ps that] in \<open>auto simp: peerFor_def key_of_def split: option.splits\<close>)
  have k: "pc_PublicKey (peers ! j) = key_of W (?os ! j) \<and> \<not> pc_Remove (peers ! j) \<and> pc_ReplaceAllowedIPs (peers ! j) \<and>
      pc_Endpoint (peers ! j) = endpoint_for resolve self dir relayed lan (?os ! j) \<and>
      pc_AllowedIPs (peers ! j) = (if ?sh (?os ! j) then [] else [tunnel_of (?os ! j)]) @
        (if idx = Some j then map tunnel_of (filter ?sh ?os) else [])" if "j < length ps" for j
    using ent [OF that] that peers by (auto simp: nth_list_update split: option.splits)
  have "\<exists>i t. idx = Some i \<and> i < length peers \<and> RelayTarget dir (n_PublicKey self) = Some t \<and> key_of W (?os ! i) = key_of W t"
    if "m \<in> set ?os" "?sh m" for m
    using that relayTargetKey_Some [of self dir relayed] idx lenp by (auto simp: isShadow_def split: option.splits intro: key_of_cong)
  with k parsed len lenp show ?thesis by (intro exI [of _ idx]) simp
qed

lemma BuildPeerConfigs_routes:
  assumes "BuildPeerConfigs W resolve cfg self dir relayed lan = Inr peers"
  shows "map pc_PublicKey peers = map (key_of W) (other_nodes self dir)"
    and "map pc_Endpoint peers = map (endpoint_for resolve self dir relayed lan) (other_nodes self dir)"
    and "n \<in> set (other_nodes self dir) \<Longrightarrow> ParseWGPublic W (n_PublicKey n) = Inr (key_of W n)"
    and "p \<in> set peers \<Longrightarrow> \<not> pc_Remove p \<and> pc_ReplaceAllowedIPs p"
    and "n \<in> set (other_nodes self dir) \<Longrightarrow>
      \<exists>p \<in> set peers. pc_PublicKey p = routed_by W self dir relayed n \<and> tunnel_of n \<in> set (pc_AllowedIPs p)"
    and "p \<in> set peers \<Longrightarrow> d \<in> set (pc_AllowedIPs p) \<Longrightarrow>
      \<exists>n \<in> set (other_nodes self dir). tunnel_of n = d \<and> pc_PublicKey p = routed_by W self dir relayed n"
proof -
  let ?os = "other_nodes self dir"
  let ?sh = "isShadow relayed (relayTargetKey self dir relayed)"
  obtain idx where len: "length peers = length ?os"
    and k: "\<forall>j < length peers. ParseWGPublic W (n_PublicKey (?os ! j)) = Inr (key_of W (?os ! j)) \<and>
      pc_PublicKey (peers ! j) = key_of W (?os ! j) \<and> \<not> pc_Remove (peers ! j) \<and> pc_ReplaceAllowedIPs (peers ! j) \<and>
      pc_Endpoint (peers ! j) = endpoint_for resolve self dir relayed lan (?os ! j) \<and>
      pc_AllowedIPs (peers ! j) = (if ?sh (?os ! j) then [] else [tunnel_of (?os ! j)]) @
        (if idx = Some j then map tunnel_of (filter ?sh ?os) else [])"
    and tgt: "\<forall>m \<in> set ?os. ?sh m \<longrightarrow>
      (\<exists>i t. idx = Some i \<and> i < length peers \<and> RelayTarget dir (n_PublicKey self) = Some t \<and> key_of W (?os ! i) = key_of W t)"
    using BuildPeerConfigs_entries [OF assms] by (elim exE conjE) (rule that)
  have at: "\<exists>j < length peers. ?os ! j = m" if "m \<in> set ?os" for m using that len by (metis in_set_conv_nth)
  show "map pc_PublicKey peers = map (key_of W) ?os" "map pc_Endpoint peers = map (endpoint_for resolve self dir relayed lan) ?os"
    using k len by (auto intro!: nth_equalityI)
  show "n \<in> set ?os \<Longrightarrow> ParseWGPublic W (n_PublicKey n) = Inr (key_of W n)" using at k by blast
  show "p \<in> set peers \<Longrightarrow> \<not> pc_Remove p \<and> pc_ReplaceAllowedIPs p" using k by (auto simp: in_set_conv_nth)
  show "\<exists>p \<in> set peers. pc_PublicKey p = routed_by W self dir relayed n \<and> tunnel_of n \<in> set (pc_AllowedIPs p)" if n: "n \<in> set ?os"
  proof -
    obtain i where "i < length peers" "pc_PublicKey (peers ! i) = routed_by W self dir relayed n" "tunnel_of n \<in> set (pc_AllowedIPs (peers ! i))"
    proof (cases "?sh n")
      case True
      then obtain i t where i: "idx = Some i" "i < length peers" "RelayTarget dir (n_PublicKey self) = Some t" "key_of W (?os ! i) = key_of W t"
        using tgt n by blast
      with True n k show ?thesis by (intro that [of i]) (auto simp: routed_by_def)
    next
      case False
      obtain j where j: "j < length peers" "?os ! j = n" using at [OF n] by blast
      with False k show ?thesis by (intro that [of j]) (auto simp: routed_by_def)
    qed
    then show ?thesis by (metis nth_mem)
  qed
  show "\<exists>n \<in> set ?os. tunnel_of n = d \<and> pc_PublicKey p = routed_by W self dir relayed n" if p: "p \<in> set peers" and d: "d \<in> set (pc_AllowedIPs p)"
  proof -
    from p obtain j where j: "j < length peers" "peers ! j = p" by (metis in_set_conv_nth)
    note kj = k [rule_format, OF j(1), unfolded j(2)]
    consider "\<not> ?sh (?os ! j)" "d = tunnel_of (?os ! j)" | m where "idx = Some j" "m \<in> set ?os" "?sh m" "d = tunnel_of m"
      using d kj by (auto split: if_splits)
    then show ?thesis
    proof cases
      case 1
      then show ?thesis using kj j(1) len unfolding routed_by_def by (metis nth_mem)
    next
      case 2
      with tgt kj show ?thesis by (intro bexI [of _ m]) (auto simp: routed_by_def)
    qed
  qed
qed

section \<open>What the kernel does with a configuration\<close>

text \<open>The documented effect of \<open>ConfigureDevice\<close> with \<open>ReplacePeers = false\<close>, entry by entry: on the
  cryptokey routing table (a route belongs to one peer: adding it to one takes it from another) and
  on the endpoints.\<close>

definition cfg_route :: "PeerConfig \<Rightarrow> (ipnet \<Rightarrow> bytes option) \<Rightarrow> ipnet \<Rightarrow> bytes option" where
  "cfg_route p rt d =
     (if \<not> pc_Remove p \<and> d \<in> set (pc_AllowedIPs p) then Some (pc_PublicKey p)
      else if (pc_Remove p \<or> pc_ReplaceAllowedIPs p) \<and> rt d = Some (pc_PublicKey p) then None
      else rt d)"

definition cfg_endpoint :: "PeerConfig \<Rightarrow> (bytes \<Rightarrow> string option) \<Rightarrow> bytes \<Rightarrow> string option" where
  "cfg_endpoint p ep =
     (if pc_Remove p then ep(pc_PublicKey p := None)
      else if pc_Endpoint p \<noteq> None then ep(pc_PublicKey p := pc_Endpoint p) else ep)"

text \<open>A kernel whose routing table and endpoints, as observed by \<open>rt\<close> and \<open>ep\<close>, follow that, and in
  which addresses and routes of the interface are separate from both.\<close>

definition kernel_ok ::
  "'s kernelops \<Rightarrow> ('s \<Rightarrow> string \<Rightarrow> ipnet \<Rightarrow> bytes option) \<Rightarrow> ('s \<Rightarrow> string \<Rightarrow> bytes \<Rightarrow> string option) \<Rightarrow> bool" where
  "kernel_ok K rt ep \<longleftrightarrow>
     (\<forall>s i c s'. k_ConfigureDevice K s i c = (s', None) \<longrightarrow> \<not> wf_ReplacePeers c \<longrightarrow>
        rt s' i = fold cfg_route (wf_Peers c) (rt s i) \<and> ep s' i = fold cfg_endpoint (wf_Peers c) (ep s i)) \<and>
     (\<forall>s l a. rt (fst (k_AddrDel K s l a)) = rt s \<and> ep (fst (k_AddrDel K s l a)) = ep s) \<and>
     (\<forall>s l a. rt (fst (k_AddrReplace K s l a)) = rt s \<and> ep (fst (k_AddrReplace K s l a)) = ep s) \<and>
     (\<forall>s l a. rt (fst (k_RouteReplace K s l a)) = rt s \<and> ep (fst (k_RouteReplace K s l a)) = ep s)"

lemma cfg_route_keeps:
  "\<lbrakk>\<forall>p \<in> set ps. d \<notin> set (pc_AllowedIPs p) \<and> pc_PublicKey p \<noteq> k; rt d = Some k\<rbrakk> \<Longrightarrow> fold cfg_route ps rt d = Some k"
  by (induction ps arbitrary: rt) (auto simp: cfg_route_def)

lemma cfg_route_final:
  assumes "distinct (map pc_PublicKey ps)" and "p \<in> set ps" and "\<not> pc_Remove p" and "d \<in> set (pc_AllowedIPs p)"
    and "\<forall>q \<in> set ps. d \<in> set (pc_AllowedIPs q) \<longrightarrow> pc_PublicKey q = pc_PublicKey p"
  shows "fold cfg_route ps rt d = Some (pc_PublicKey p)"
  using assms
proof (induction ps arbitrary: rt)
  case (Cons q ps)
  show ?case
  proof (cases "q = p")
    case True
    then have "pc_PublicKey r \<noteq> pc_PublicKey p" if "r \<in> set ps" for r
      using Cons.prems(1) that distinct_map_neq by metis
    then have "\<forall>r \<in> set ps. d \<notin> set (pc_AllowedIPs r) \<and> pc_PublicKey r \<noteq> pc_PublicKey p"
      using Cons.prems(5) by (meson list.set_intros(2))
    moreover have "cfg_route p rt d = Some (pc_PublicKey p)" using Cons.prems(3,4) by (simp add: cfg_route_def)
    ultimately have "fold cfg_route ps (cfg_route p rt) d = Some (pc_PublicKey p)" by (rule cfg_route_keeps)
    with True show ?thesis by simp
  next
    case False
    have "fold cfg_route ps (cfg_route q rt) d = Some (pc_PublicKey p)"
    proof (rule Cons.IH)
      show "distinct (map pc_PublicKey ps)" and "p \<in> set ps" using Cons.prems(1,2) False by simp_all
      show "\<forall>q \<in> set ps. d \<in> set (pc_AllowedIPs q) \<longrightarrow> pc_PublicKey q = pc_PublicKey p"
        using Cons.prems(5) by (meson list.set_intros(2))
    qed (rule Cons.prems(3,4))+
    then show ?thesis by simp
  qed
qed simp

lemma cfg_route_never:
  "\<lbrakk>\<forall>p \<in> set ps. pc_PublicKey p = k \<longrightarrow> pc_Remove p; rt d \<noteq> Some k\<rbrakk> \<Longrightarrow> fold cfg_route ps rt d \<noteq> Some k"
  by (induction ps arbitrary: rt) (auto simp: cfg_route_def)

lemma cfg_route_removed:
  "\<lbrakk>\<forall>p \<in> set ps. pc_PublicKey p = k \<longrightarrow> pc_Remove p; \<exists>p \<in> set ps. pc_PublicKey p = k\<rbrakk> \<Longrightarrow>
     fold cfg_route ps rt d \<noteq> Some k"
proof (induction ps arbitrary: rt)
  case (Cons p ps)
  show ?case
  proof (cases "pc_PublicKey p = k")
    case True
    then have "cfg_route p rt d \<noteq> Some k" using Cons.prems(1) by (auto simp: cfg_route_def)
    then show ?thesis using cfg_route_never [of ps k "cfg_route p rt" d] Cons.prems(1) by auto
  next
    case False
    with Cons show ?thesis by auto
  qed
qed simp

lemma cfg_endpoint_kept:
  "\<forall>p \<in> set ps. pc_PublicKey p = k \<longrightarrow> \<not> pc_Remove p \<and> pc_Endpoint p = None \<Longrightarrow> fold cfg_endpoint ps ep k = ep k"
  by (induction ps arbitrary: ep) (auto simp: cfg_endpoint_def)

lemma cfg_endpoint_at:
  "\<not> pc_Remove p \<Longrightarrow> cfg_endpoint p ep (pc_PublicKey p) = (if pc_Endpoint p = None then ep (pc_PublicKey p) else pc_Endpoint p)"
  "pc_PublicKey p \<noteq> k \<Longrightarrow> cfg_endpoint p ep k = ep k"
  by (simp_all add: cfg_endpoint_def)

lemma cfg_endpoint_one:
  assumes "distinct (map pc_PublicKey ps)" and "p \<in> set ps" and "\<forall>q \<in> set ps. \<not> pc_Remove q"
  shows "fold cfg_endpoint ps ep (pc_PublicKey p) = (if pc_Endpoint p = None then ep (pc_PublicKey p) else pc_Endpoint p)"
  using assms
proof (induction ps arbitrary: ep)
  case (Cons q ps)
  show ?case
  proof (cases "q = p")
    case True
    then have "\<forall>r \<in> set ps. pc_PublicKey r = pc_PublicKey p \<longrightarrow> \<not> pc_Remove r \<and> pc_Endpoint r = None"
      using Cons.prems(1) distinct_map_neq by metis
    from cfg_endpoint_kept [OF this, of "cfg_endpoint p ep"] True Cons.prems(3) show ?thesis
      by (simp add: cfg_endpoint_at)
  next
    case False
    then have "p \<in> set ps" and "pc_PublicKey q \<noteq> pc_PublicKey p"
      using Cons.prems(1,2) by (simp, metis distinct_map_neq set_ConsD)
    then show ?thesis using Cons.IH [of "cfg_endpoint q ep"] Cons.prems(1,3) by (simp add: cfg_endpoint_at)
  qed
qed simp

lemma kernel_okD:
  assumes "kernel_ok K rt ep"
  shows "rt (fst (k_AddrDel K s l a)) = rt s" "ep (fst (k_AddrDel K s l a)) = ep s"
    "rt (fst (k_AddrReplace K s l a)) = rt s" "ep (fst (k_AddrReplace K s l a)) = ep s"
    "rt (fst (k_RouteReplace K s l a)) = rt s" "ep (fst (k_RouteReplace K s l a)) = ep s"
  using assms unfolding kernel_ok_def by blast+

lemma fst_wrap_error:
  "fst (case x of (s, None) \<Rightarrow> (s, None) | (s, Some e) \<Rightarrow> (s, Some (Wrap msg e))) = fst x"
  by (simp split: prod.split option.split)

lemma ensureAddress_frame:
  assumes "kernel_ok K rt ep"
  shows "rt (fst (ensureAddress K l a s)) = rt s \<and> ep (fst (ensureAddress K l a s)) = ep s"
proof -
  note k = kernel_okD [OF assms]
  have del: "rt (fold (\<lambda>a st. fst (k_AddrDel K st l (the a))) as s) = rt s \<and>
      ep (fold (\<lambda>a st. fst (k_AddrDel K st l (the a))) as s) = ep s" for "as" s
    by (induction "as" arbitrary: s) (simp_all add: k)
  show ?thesis
    unfolding ensureAddress_def Let_def
    by (cases "net_ParseCIDR (a @ ''/32'')"; cases "k_AddrList K s l") (auto simp: fst_wrap_error k del)
qed

lemma ensureRoute_frame:
  assumes "kernel_ok K rt ep"
  shows "rt (fst (ensureRoute K l a s)) = rt s \<and> ep (fst (ensureRoute K l a s)) = ep s"
  unfolding ensureRoute_def
  by (cases "net_ParseCIDR a") (auto simp: fst_wrap_error kernel_okD [OF assms])

lemma Apply_ok:
  assumes "kernel_ok K rt ep" and "Apply W K resolve now m self dir relayed lan s = (s', pushed, None)"
  shows "\<exists>peers ps. BuildPeerConfigs W resolve (m_wg m) self dir relayed lan = Inr peers \<and>
    ps = mergeAgainstKernel (bindR (k_Device K s (m_iface m)) (\<lambda>d. Inr (wd_Peers d))) now peers \<and>
    rt s' (m_iface m) = fold cfg_route ps (rt s (m_iface m)) \<and>
    ep s' (m_iface m) = fold cfg_endpoint ps (ep s (m_iface m)) \<and>
    pushed = pushedEndpointKeys W ps"
proof -
  let ?ps = "\<lambda>peers. mergeAgainstKernel (bindR (k_Device K s (m_iface m)) (\<lambda>d. Inr (wd_Peers d))) now peers"
  from assms(2) obtain link peers s1 s2 where
    b: "BuildPeerConfigs W resolve (m_wg m) self dir relayed lan = Inr peers"
    and c: "k_ConfigureDevice K s (m_iface m) \<lparr>wf_PrivateKey = m_privateKey m, wf_ListenPort = m_listenPort m,
        wf_ReplacePeers = False, wf_Peers = ?ps peers\<rparr> = (s1, None)"
    and a: "ensureAddress K link (n_TunnelIP self) s1 = (s2, None)"
    and r: "ensureRoute K link (d_NetworkCIDR dir) s2 = (s', None)"
    and p: "pushed = pushedEndpointKeys W (?ps peers)"
    by (auto simp: Apply_def Let_def split: sum.splits prod.splits option.splits)
  have "rt s' = rt s1 \<and> ep s' = ep s1"
    using ensureAddress_frame [OF assms(1), of link "n_TunnelIP self" s1] a
      ensureRoute_frame [OF assms(1), of link "d_NetworkCIDR dir" s2] r by simp
  moreover have "rt s1 (m_iface m) = fold cfg_route (?ps peers) (rt s (m_iface m)) \<and>
      ep s1 (m_iface m) = fold cfg_endpoint (?ps peers) (ep s (m_iface m))"
    using assms(1) c unfolding kernel_ok_def by fastforce
  ultimately show ?thesis using b p by simp
qed

definition merge_entry :: "wgpeer list res \<Rightarrow> gotime \<Rightarrow> PeerConfig \<Rightarrow> PeerConfig" where
  "merge_entry dev now q =
     (case dev of Inl _ \<Rightarrow> zeroKeepalive q | Inr ex \<Rightarrow> preserveEndpoint (indexPeers ex) now (zeroKeepalive q))"

lemma merge_entry_fields [simp]:
  "pc_PublicKey (merge_entry dev now q) = pc_PublicKey q" "pc_AllowedIPs (merge_entry dev now q) = pc_AllowedIPs q"
  "pc_Remove (merge_entry dev now q) = pc_Remove q"
  by (auto simp: merge_entry_def preserveEndpoint_def zeroKeepalive_def split: sum.splits option.splits)

lemma merge_shape:
  "\<exists>gone. mergeAgainstKernel dev now peers = map (merge_entry dev now) peers @ map removal gone \<and>
     set gone = (case dev of Inl _ \<Rightarrow> {} | Inr ex \<Rightarrow> wp_PublicKey ` set ex) - pc_PublicKey ` set peers"
proof (cases dev)
  case (Inl e)
  then show ?thesis by (intro exI [of _ "[]"]) (simp add: mergeAgainstKernel_def merge_entry_def)
next
  case (Inr ex)
  have k: "pc_PublicKey ` merge_entry dev now ` set peers = pc_PublicKey ` set peers" by (simp add: image_image)
  show ?thesis
    using k Inr
    by (intro exI [of _ "map wp_PublicKey (filter (\<lambda>p. wp_PublicKey p \<notin> pc_PublicKey ` set peers) ex)"])
      (auto simp: mergeAgainstKernel_def merge_entry_def [abs_def] appendDeletions_def preserveLiveEndpoints_def comp_def image_image)
qed

lemma removal_fields [simp]:
  "pc_PublicKey (removal k) = k" "pc_Remove (removal k)" "pc_AllowedIPs (removal k) = []" "pc_Endpoint (removal k) = None"
  by (simp_all add: removal_def)

definition handshake_fresh :: "wgpeer list res \<Rightarrow> gotime \<Rightarrow> bytes \<Rightarrow> bool" where
  "handshake_fresh dev now k =
     (case dev of Inl _ \<Rightarrow> False
      | Inr ex \<Rightarrow> (case indexPeers ex k of None \<Rightarrow> False
         | Some kp \<Rightarrow> wp_LastHandshake kp \<noteq> 0 \<and> time_Sub now (wp_LastHandshake kp) < handshakeFreshWindow))"

lemma merge_entry_endpoint:
  "pc_Endpoint (merge_entry dev now q) = (if handshake_fresh dev now (pc_PublicKey q) then None else pc_Endpoint q)"
  by (auto simp: merge_entry_def handshake_fresh_def preserveEndpoint_def zeroKeepalive_def time_IsZero_def
      split: sum.splits option.splits)

section \<open>Properties\<close>

text \<open>The concrete kernel of the witnesses: the two tables and a fixed list of peers.\<close>

record demo_state =
  dk_routes :: "ipnet \<Rightarrow> bytes option"
  dk_endpoints :: "bytes \<Rightarrow> string option"

definition demo_kernel :: "wgpeer list \<Rightarrow> demo_state kernelops" where
  "demo_kernel ex =
     \<lparr>k_LinkByName = (\<lambda>s i. Inr \<lparr>lk_Name = i, lk_Index = 1, lk_MTU = 1420\<rparr>), k_LinkAdd = (\<lambda>s i mtu. (s, None)),
      k_LinkSetMTU = (\<lambda>s l mtu. (s, None)), k_LinkSetUp = (\<lambda>s l. (s, None)), k_LinkDel = (\<lambda>s l. (s, None)),
      k_AddrList = (\<lambda>s l. Inr []), k_AddrDel = (\<lambda>s l a. (s, None)), k_AddrReplace = (\<lambda>s l a. (s, None)),
      k_RouteReplace = (\<lambda>s l a. (s, None)), k_OpenWG = (\<lambda>s. Inr ()),
      k_Device = (\<lambda>s i. Inr \<lparr>wd_ListenPort = 51820, wd_Peers = ex\<rparr>),
      k_ConfigureDevice = (\<lambda>s i c. (\<lparr>dk_routes = fold cfg_route (wf_Peers c) (dk_routes s),
         dk_endpoints = fold cfg_endpoint (wf_Peers c) (dk_endpoints s)\<rparr>, None))\<rparr>"

definition demo_manager :: Manager where
  "demo_manager = \<lparr>m_iface = ''tincan0'', m_privateKey = [], m_listenPort = None, m_mtu = 1420,
     m_wg = \<lparr>wc_Name = ''a'', wc_PublicKey = [], wc_PrivateKey = [], wc_Interface = ''tincan0'', wc_ListenPort = 0,
       wc_MTU = 1420, wc_Keepalive = no_duration\<rparr>\<rparr>"

lemma demo_kernel_ok: "kernel_ok (demo_kernel ex) (\<lambda>s i. dk_routes s) (\<lambda>s i. dk_endpoints s)"
  by (auto simp: kernel_ok_def demo_kernel_def)

lemma Apply_routes:
  assumes "kernel_ok K rt ep" and "Apply W K resolve now m self dir relayed lan s = (s', pushed, None)"
    and "distinct (map (key_of W) (other_nodes self dir))" and "distinct (map tunnel_of (other_nodes self dir))"
    and "n \<in> set (other_nodes self dir)"
  shows "rt s' (m_iface m) (tunnel_of n) = Some (routed_by W self dir relayed n) \<and>
    (\<forall>dev k d. k_Device K s (m_iface m) = Inr dev \<and> k \<in> wp_PublicKey ` set (wd_Peers dev) \<and>
       k \<notin> key_of W ` set (other_nodes self dir) \<longrightarrow> rt s' (m_iface m) d \<noteq> Some k)"
proof -
  let ?os = "other_nodes self dir"
  obtain dev where dev: "dev = bindR (k_Device K s (m_iface m)) (\<lambda>d. Inr (wd_Peers d))" by simp
  obtain peers where b: "BuildPeerConfigs W resolve (m_wg m) self dir relayed lan = Inr peers"
    and r: "rt s' (m_iface m) = fold cfg_route (mergeAgainstKernel dev now peers) (rt s (m_iface m))"
    using Apply_ok [OF assms(1,2)] dev by blast
  note br = BuildPeerConfigs_routes [OF b]
  obtain gone where sh: "mergeAgainstKernel dev now peers = map (merge_entry dev now) peers @ map removal gone"
    and g: "set gone = (case dev of Inl _ \<Rightarrow> {} | Inr ex \<Rightarrow> wp_PublicKey ` set ex) - pc_PublicKey ` set peers"
    using merge_shape by blast
  have keys: "pc_PublicKey ` set peers = key_of W ` set ?os"
    using br(1) by (metis list.set_map)
  have dk: "distinct (map pc_PublicKey peers)" using br(1) assms(3) by simp
  obtain p where p: "p \<in> set peers" "pc_PublicKey p = routed_by W self dir relayed n" "tunnel_of n \<in> set (pc_AllowedIPs p)"
    using br(5) [OF assms(5)] by blast
  have uniq: "pc_PublicKey q = pc_PublicKey p" if "q \<in> set peers" "tunnel_of n \<in> set (pc_AllowedIPs q)" for q
    using br(6) [OF that] p(2) assms(4,5) by (metis distinct_map inj_onD)
  have "fold cfg_route (map (merge_entry dev now) peers) (rt s (m_iface m)) (tunnel_of n) =
      Some (pc_PublicKey (merge_entry dev now p))"
  proof (rule cfg_route_final)
    show "distinct (map pc_PublicKey (map (merge_entry dev now) peers))" using dk by (simp add: comp_def)
    show "\<not> pc_Remove (merge_entry dev now p)" using br(4) [OF p(1)] by simp
    show "\<forall>q \<in> set (map (merge_entry dev now) peers). tunnel_of n \<in> set (pc_AllowedIPs q) \<longrightarrow>
        pc_PublicKey q = pc_PublicKey (merge_entry dev now p)"
      using uniq by (metis (no_types, lifting) imageE list.set_map merge_entry_fields(1,2))
  qed (use p in simp_all)
  then have "fold cfg_route (map (merge_entry dev now) peers) (rt s (m_iface m)) (tunnel_of n) = Some (pc_PublicKey p)"
    by simp
  moreover have "\<forall>q \<in> set (map removal gone). tunnel_of n \<notin> set (pc_AllowedIPs q) \<and> pc_PublicKey q \<noteq> pc_PublicKey p"
    using g p(1) by auto
  ultimately have "rt s' (m_iface m) (tunnel_of n) = Some (pc_PublicKey p)"
    unfolding r sh by (simp add: cfg_route_keeps)
  moreover have "rt s' (m_iface m) d \<noteq> Some k"
    if "k_Device K s (m_iface m) = Inr dv" "k \<in> wp_PublicKey ` set (wd_Peers dv)" "k \<notin> key_of W ` set ?os" for dv k d
  proof -
    have "k \<in> set gone" and "k \<notin> pc_PublicKey ` set peers" using that g keys dev by simp_all
    then show ?thesis unfolding r sh by (intro cfg_route_removed) force+
  qed
  ultimately show ?thesis unfolding p(2) by simp
qed

text \<open>C7: after a successful \<open>Apply\<close>, for a directory whose other members have distinct keys and
  distinct tunnel addresses, the kernel routes the tunnel address of every other member to exactly
  the peer it should: the member itself, or the relay target when the member is relayed; and a
  peer the kernel had that is no longer a member routes nothing.\<close>

theorem apply_routes:
  assumes "kernel_ok K rt ep" and "Apply W K resolve now m self dir relayed lan s = (s', pushed, None)"
    and "distinct (map (key_of W) (other_nodes self dir))" and "distinct (map tunnel_of (other_nodes self dir))"
    and "n \<in> set (other_nodes self dir)"
  shows "rt s' (m_iface m) (tunnel_of n) = Some (routed_by W self dir relayed n) \<and>
    (\<forall>dev k d. k_Device K s (m_iface m) = Inr dev \<and> k \<in> wp_PublicKey ` set (wd_Peers dev) \<and>
       k \<notin> key_of W ` set (other_nodes self dir) \<longrightarrow> rt s' (m_iface m) d \<noteq> Some k)"
  by (rule Apply_routes [OF assms])

definition demo_ip :: "nat \<Rightarrow> ipnet" where
  "demo_ip i = \<lparr>in_IP = V4 (word_of_nat (10 * 2 ^ 24 + 42 * 2 ^ 16 + i)), in_Ones = 32\<rparr>"

lemma demo_cidrs:
  "net_ParseCIDR ''10.42.0.1/32'' = Some (as16 (in_IP (demo_ip 1)), demo_ip 1)"
  "net_ParseCIDR ''10.42.0.2/32'' = Some (as16 (in_IP (demo_ip 2)), demo_ip 2)"
  "net_ParseCIDR ''10.42.0.3/32'' = Some (as16 (in_IP (demo_ip 3)), demo_ip 3)"
  "\<exists>a n. net_ParseCIDR ''10.42.0.0/29'' = Some (a, n)"
proof -
  have i: "ip4_String (word_of_nat (10 * 2 ^ 24 + 42 * 2 ^ 16 + 1)) = ''10.42.0.1''"
    "ip4_String (word_of_nat (10 * 2 ^ 24 + 42 * 2 ^ 16 + 2)) = ''10.42.0.2''"
    "ip4_String (word_of_nat (10 * 2 ^ 24 + 42 * 2 ^ 16 + 3)) = ''10.42.0.3''"
    by code_simp+
  note h = net_ParseCIDR_host [of "word_of_nat (10 * 2 ^ 24 + 42 * 2 ^ 16 + 1)"]
    net_ParseCIDR_host [of "word_of_nat (10 * 2 ^ 24 + 42 * 2 ^ 16 + 2)"]
    net_ParseCIDR_host [of "word_of_nat (10 * 2 ^ 24 + 42 * 2 ^ 16 + 3)"]
  show "net_ParseCIDR ''10.42.0.1/32'' = Some (as16 (in_IP (demo_ip 1)), demo_ip 1)"
    "net_ParseCIDR ''10.42.0.2/32'' = Some (as16 (in_IP (demo_ip 2)), demo_ip 2)"
    "net_ParseCIDR ''10.42.0.3/32'' = Some (as16 (in_IP (demo_ip 3)), demo_ip 3)"
    using h unfolding i by (simp_all add: demo_ip_def)
  have "net_ParseCIDR ''10.42.0.0/29'' \<noteq> None" by code_simp
  then show "\<exists>a n. net_ParseCIDR ''10.42.0.0/29'' = Some (a, n)" by auto
qed

abbreviation demo_self :: node where "demo_self \<equiv> demo_node ''a'' 65 ''10.42.0.1'' ''a.example:51820'' False"
abbreviation demo_b :: node where "demo_b \<equiv> demo_node ''b'' 66 ''10.42.0.2'' [] True"
abbreviation demo_c :: node where "demo_c \<equiv> demo_node ''c'' 67 ''10.42.0.3'' ''1.2.3.4:51820'' True"

lemma demo_distinct_keys [simp]:
  "(std_encode (replicate 32 c) = std_encode (replicate 32 d)) = (c = d)"
  by (simp add: std.enc_eq_iff replicate_eq_replicate)

lemma demo_key_nonempty [simp]: "std_encode (replicate 32 c) \<noteq> []"
  using wg_String_nonempty [OF demo_wg_ok, of "replicate 32 c"] by (simp add: demo_wg_def)

lemma demo_others: "other_nodes demo_self demo_dir = [demo_b, demo_c]"
  by (simp add: demo_dir_def demo_node_fields)

lemma demo_target: "RelayTarget demo_dir (n_PublicKey demo_self) = Some demo_c"
  by (simp add: RelayTarget_def demo_dir_def demo_node_fields)

lemma demo_members:
  "key_of demo_wg demo_b = replicate 32 (char_of (66 :: nat))" "key_of demo_wg demo_c = replicate 32 (char_of (67 :: nat))"
  "tunnel_of demo_b = demo_ip 2" "tunnel_of demo_c = demo_ip 3"
  using demo_cidrs by (simp_all add: key_of_def tunnel_of_def demo_node_fields demo_key_ok)

lemma demo_apply:
  "\<exists>s' pushed. Apply demo_wg (demo_kernel ex) Some now demo_manager demo_self demo_dir [n_PublicKey demo_b] None s =
     (s', pushed, None)"
proof -
  have "is_ok (BuildPeerConfigs demo_wg Some (m_wg demo_manager) demo_self demo_dir [n_PublicKey demo_b] None)"
    by (rule BuildPeerConfigs_ok, unfold demo_others) (simp add: demo_node_fields demo_key_ok demo_cidrs)
  then obtain peers where "BuildPeerConfigs demo_wg Some (m_wg demo_manager) demo_self demo_dir [n_PublicKey demo_b] None = Inr peers"
    by (auto simp: is_ok_iff)
  moreover have "n_TunnelIP demo_self = ''10.42.0.1''" "d_NetworkCIDR demo_dir = ''10.42.0.0/29''"
    by (simp_all add: demo_node_fields demo_dir_def)
  ultimately show ?thesis
    using demo_cidrs(1,4)
    by (auto simp: Apply_def demo_kernel_def Let_def ensureAddress_def ensureRoute_def)
qed

theorem apply_routes_witness:
  "\<exists>s' pushed. Apply demo_wg (demo_kernel []) Some 0 demo_manager demo_self demo_dir [n_PublicKey demo_b] None
       \<lparr>dk_routes = Map.empty, dk_endpoints = Map.empty\<rparr> = (s', pushed, None) \<and>
     dk_routes s' (demo_ip 2) = Some (replicate 32 (char_of (67 :: nat)))"
proof -
  obtain s' pushed where a: "Apply demo_wg (demo_kernel []) Some 0 demo_manager demo_self demo_dir [n_PublicKey demo_b] None
       \<lparr>dk_routes = Map.empty, dk_endpoints = Map.empty\<rparr> = (s', pushed, None)" using demo_apply by blast
  have "demo_ip 2 \<noteq> demo_ip 3" by (simp add: demo_ip_def)
  then have "dk_routes s' (tunnel_of demo_b) = Some (routed_by demo_wg demo_self demo_dir [n_PublicKey demo_b] demo_b)"
    using apply_routes [OF demo_kernel_ok a, of demo_b] unfolding demo_others
    by (simp add: demo_members replicate_eq_replicate)
  moreover have "routed_by demo_wg demo_self demo_dir [n_PublicKey demo_b] demo_b = replicate 32 (char_of (67 :: nat))"
    using demo_target by (simp add: routed_by_def isShadow_def relayTargetKey_def demo_members demo_node_fields)
  ultimately show ?thesis using a demo_members(3) by metis
qed

text \<open>C12: \<open>Apply\<close> leaves the endpoint of a peer with a fresh handshake as the kernel has it; it pushes an
  endpoint for a member exactly when one is configured, learned or published, resolves, and the
  handshake is not fresh, and then the kernel has that endpoint; and it reports exactly the
  members it pushed.\<close>

theorem apply_endpoints:
  assumes "wglib_ok W" and "kernel_ok K rt ep"
    and "Apply W K resolve now m self dir relayed lan s = (s', pushed, None)"
    and "distinct (map (key_of W) (other_nodes self dir))" and "n \<in> set (other_nodes self dir)"
  shows "let fresh = handshake_fresh (bindR (k_Device K s (m_iface m)) (\<lambda>d. Inr (wd_Peers d))) now (key_of W n);
      e = endpoint_for resolve self dir relayed lan n
    in ep s' (m_iface m) (key_of W n) = (if fresh \<or> e = None then ep s (m_iface m) (key_of W n) else e) \<and>
       (wg_String W (key_of W n) \<in> set pushed \<longleftrightarrow> \<not> fresh \<and> e \<noteq> None)"
proof -
  let ?os = "other_nodes self dir"
  obtain dev where dev: "dev = bindR (k_Device K s (m_iface m)) (\<lambda>d. Inr (wd_Peers d))" by simp
  obtain peers where b: "BuildPeerConfigs W resolve (m_wg m) self dir relayed lan = Inr peers"
    and r: "ep s' (m_iface m) = fold cfg_endpoint (mergeAgainstKernel dev now peers) (ep s (m_iface m))"
    and pu: "pushed = pushedEndpointKeys W (mergeAgainstKernel dev now peers)"
    using Apply_ok [OF assms(2,3)] dev by blast
  note br = BuildPeerConfigs_routes [OF b]
  obtain gone where sh: "mergeAgainstKernel dev now peers = map (merge_entry dev now) peers @ map removal gone"
    and g: "set gone = (case dev of Inl _ \<Rightarrow> {} | Inr ex \<Rightarrow> wp_PublicKey ` set ex) - pc_PublicKey ` set peers"
    using merge_shape by blast
  obtain j where j: "j < length ?os" "?os ! j = n" using assms(5) by (metis in_set_conv_nth)
  have len: "length peers = length ?os" using br(1) by (metis length_map)
  have pj: "pc_PublicKey (peers ! j) = key_of W n" "pc_Endpoint (peers ! j) = endpoint_for resolve self dir relayed lan n"
    using br(1,2) j len by (metis nth_map)+
  have mem: "peers ! j \<in> set peers" using j(1) len by simp
  have dk: "distinct (map pc_PublicKey peers)" using br(1) assms(4) by simp
  have un: "q = peers ! j" if "q \<in> set peers" "pc_PublicKey q = key_of W n" for q
    using that dk mem pj(1) by (metis distinct_map inj_onD)
  have kk: "length (pc_PublicKey q) = 32" if "q \<in> set peers" for q
  proof -
    have "pc_PublicKey q \<in> set (map (key_of W) ?os)" using that br(1) [symmetric] by simp
    then obtain v where v: "v \<in> set ?os" "pc_PublicKey q = key_of W v" unfolding set_map by blast
    have "WGKeyToBytes W (n_PublicKey v) = Inr (key_of W v)"
      using br(3) [OF v(1)] by (simp add: ParseWGPublic_WGKeyToBytes)
    then show ?thesis unfolding v(2) by (rule wg_key_bytes(4) [OF assms(1)])
  qed
  have "wg_String W (key_of W n) \<in> set pushed \<longleftrightarrow>
      (\<exists>q \<in> set peers. pc_Endpoint (merge_entry dev now q) \<noteq> None \<and> wg_String W (pc_PublicKey q) = wg_String W (key_of W n))"
    unfolding pu sh pushedEndpointKeys_def using br(4) by (auto simp: image_iff)
  also have "\<dots> \<longleftrightarrow> pc_Endpoint (merge_entry dev now (peers ! j)) \<noteq> None"
    using un mem pj(1) kk wg_key_bytes(2) [OF assms(1)] by (metis Inr_inject)
  finally have a: "wg_String W (key_of W n) \<in> set pushed \<longleftrightarrow> pc_Endpoint (merge_entry dev now (peers ! j)) \<noteq> None" .
  have "fold cfg_endpoint (map (merge_entry dev now) peers) e (key_of W n) =
      (if pc_Endpoint (merge_entry dev now (peers ! j)) = None then e (key_of W n)
       else pc_Endpoint (merge_entry dev now (peers ! j)))" for e
    using cfg_endpoint_one [of "map (merge_entry dev now) peers" "merge_entry dev now (peers ! j)" e] dk mem br(4) pj(1)
    by (simp add: comp_def)
  moreover have "fold cfg_endpoint (map removal gone) e (key_of W n) = e (key_of W n)" for e
    using g mem pj(1) by (intro cfg_endpoint_kept) force
  ultimately have "ep s' (m_iface m) (key_of W n) =
      (if pc_Endpoint (merge_entry dev now (peers ! j)) = None then ep s (m_iface m) (key_of W n)
       else pc_Endpoint (merge_entry dev now (peers ! j)))" unfolding r sh by simp
  with a show ?thesis unfolding Let_def dev [symmetric] by (auto simp: merge_entry_endpoint pj)
qed

theorem apply_endpoints_witness:
  "\<exists>s' pushed. Apply demo_wg (demo_kernel []) Some 0 demo_manager demo_self demo_dir [n_PublicKey demo_b] None
       \<lparr>dk_routes = Map.empty, dk_endpoints = Map.empty\<rparr> = (s', pushed, None) \<and>
     dk_endpoints s' (key_of demo_wg demo_c) = Some ''1.2.3.4:51820''"
proof -
  obtain s' pushed where a: "Apply demo_wg (demo_kernel []) Some 0 demo_manager demo_self demo_dir [n_PublicKey demo_b] None
       \<lparr>dk_routes = Map.empty, dk_endpoints = Map.empty\<rparr> = (s', pushed, None)" using demo_apply by blast
  have e: "endpoint_for Some demo_self demo_dir [n_PublicKey demo_b] None demo_c = Some ''1.2.3.4:51820''"
    by (simp add: endpoint_for_def chooseEndpoint_def demo_node_fields IsPlainWireGuard_def)
  have f: "\<not> handshake_fresh (bindR (k_Device (demo_kernel []) s i) (\<lambda>d. Inr (wd_Peers d))) 0 k" for s i k
    by (simp add: handshake_fresh_def demo_kernel_def indexPeers_def)
  have "dk_endpoints s' (key_of demo_wg demo_c) = Some ''1.2.3.4:51820''"
    using apply_endpoints [OF demo_wg_ok demo_kernel_ok a, of demo_c] f unfolding demo_others e Let_def
    by (simp add: demo_members replicate_eq_replicate)
  with a show ?thesis by blast
qed

end
