(* ===== verification/Hosts.thy ===== *)
theory Hosts
  imports Codec "HOL-Library.List_Lexorder" "HOL-Library.Char_ord"
begin

text \<open>
  The managed block of a hosts file (\<open>src/internal/hosts/hosts.go\<close>): the lines rendered from a
  directory, the scan for markers, and the rewrite of the file around one interface's block. Byte
  offsets are natural numbers; Go's \<open>-1\<close> for an offset that is not set is \<open>None\<close>.
\<close>

section \<open>Markers\<close>

definition hosts_DefaultPath :: string where "hosts_DefaultPath = ''/etc/hosts''"

definition legacyBeginMarker :: string where
  "legacyBeginMarker = ''# BEGIN tincan managed block - do not edit between markers''"
definition legacyEndMarker :: string where "legacyEndMarker = ''# END tincan managed block''"
definition legacyInterface :: string where "legacyInterface = ''tincan0''"

definition beginMarker :: "string \<Rightarrow> string" where
  "beginMarker iface = ''# BEGIN tincan managed block ('' @ iface @ '') - do not edit between markers''"

definition endMarker :: "string \<Rightarrow> string" where
  "endMarker iface = ''# END tincan managed block ('' @ iface @ '')''"

definition marker :: "string \<Rightarrow> (string \<times> bool) option" where
  "marker line =
     (if line = legacyBeginMarker then Some (legacyInterface, True)
      else if line = legacyEndMarker then Some (legacyInterface, False)
      else case cutPrefix line ''# BEGIN tincan managed block ('' of
        Some rest \<Rightarrow>
          (case cutSuffix rest '') - do not edit between markers'' of
             Some iface \<Rightarrow> if iface \<noteq> [] then Some (iface, True) else None
           | None \<Rightarrow> None)
      | None \<Rightarrow>
          (case cutPrefix line ''# END tincan managed block ('' of
             Some rest \<Rightarrow>
               (case cutSuffix rest '')'' of
                  Some iface \<Rightarrow> if iface \<noteq> [] then Some (iface, False) else None
                | None \<Rightarrow> None)
           | None \<Rightarrow> None))"

definition writeMarkedBlock :: "string \<Rightarrow> string \<Rightarrow> bytes" where
  "writeMarkedBlock iface block = beginMarker iface @ [NL] @ block @ endMarker iface @ [NL]"

section \<open>The scan\<close>

record scan =
  sc_offset :: nat
  sc_open :: string
  sc_seen :: "string list"
  sc_beginAt :: "nat option"
  sc_endAt :: "nat option"

text \<open>The body of the loop of \<open>splitAtMarkers\<close> for one line, which takes \<open>lineLen\<close> bytes.\<close>

definition scanLine :: "string \<Rightarrow> string \<Rightarrow> nat \<Rightarrow> scan \<Rightarrow> scan res" where
  "scanLine iface line lineLen st =
     (let done = (\<lambda>s. Inr (s\<lparr>sc_offset := sc_offset s + lineLen\<rparr>))
      in case marker (trimSpace line) of
           None \<Rightarrow> done st
         | Some (owner, begins) \<Rightarrow>
             if begins then
               if sc_open st \<noteq> [] \<or> owner \<in> set (sc_seen st) then Inl ErrMalformedMarkers
               else done (st\<lparr>sc_open := owner, sc_seen := owner # sc_seen st,
                      sc_beginAt := (if owner = iface then Some (sc_offset st) else sc_beginAt st)\<rparr>)
             else if sc_open st \<noteq> owner then Inl ErrMalformedMarkers
             else done (st\<lparr>sc_open := [],
                    sc_endAt := (if owner = iface then Some (sc_offset st + lineLen) else sc_endAt st)\<rparr>))"

function scanMarkers :: "string \<Rightarrow> bytes \<Rightarrow> scan \<Rightarrow> scan res" where
  "scanMarkers iface rest st =
     (if rest = [] then Inr st
      else let (line, lineLen) = (case pos_of NL rest of None \<Rightarrow> (rest, length rest) | Some nl \<Rightarrow> (take nl rest, nl + 1))
           in bindR (scanLine iface line lineLen st) (\<lambda>st'. scanMarkers iface (drop lineLen rest) st'))"
  by pat_completeness auto
termination by (relation "measure (\<lambda>(_, rest, _). length rest)") (auto split: option.splits)

declare scanMarkers.simps [simp del]

definition scan_start :: scan where
  "scan_start = \<lparr>sc_offset = 0, sc_open = [], sc_seen = [], sc_beginAt = None, sc_endAt = None\<rparr>"

text \<open>The bytes before and after the block of \<open>iface\<close>, if there is one.\<close>

definition splitAtMarkers :: "bytes \<Rightarrow> string \<Rightarrow> (bytes \<times> bytes) option res" where
  "splitAtMarkers content iface =
     bindR (scanMarkers iface content scan_start) (\<lambda>st.
       if sc_open st \<noteq> [] then Inl ErrMalformedMarkers
       else case sc_beginAt st of None \<Rightarrow> Inr None
         | Some b \<Rightarrow> Inr (Some (take b content, drop (the (sc_endAt st)) content)))"

definition insertPad :: "bytes \<Rightarrow> bytes" where
  "insertPad content =
     (if content \<noteq> [] \<and> \<not> hasSuffix content [NL] then [NL] else []) @ (if content \<noteq> [] then [NL] else [])"

definition Rewrite :: "bytes \<Rightarrow> string \<Rightarrow> string \<Rightarrow> (bytes \<times> bool) res" where
  "Rewrite content iface block =
     bindR (splitAtMarkers content iface) (\<lambda>found.
       let result =
         (case found of
            None \<Rightarrow> if block = [] then content else content @ insertPad content @ writeMarkedBlock iface block
          | Some (pre, post) \<Rightarrow> if block = [] then pre @ post else pre @ writeMarkedBlock iface block @ post)
       in Inr (result, result \<noteq> content))"

section \<open>The file\<close>

text \<open>What is at the path, and which system calls fail.\<close>

datatype hostsEntry = Absent | Symlink | Regular bytes nat

record hostsIO =
  ho_openLock :: "error option"
  ho_flock :: "error option"
  ho_lstat :: "error option"
  ho_read :: "error option"
  ho_write :: "error option"

definition ho_WriteFile :: "hostsIO \<Rightarrow> bytes \<Rightarrow> nat \<Rightarrow> hostsEntry \<Rightarrow> hostsEntry \<times> bool res" where
  "ho_WriteFile io content perm f =
     (case ho_write io of Some e \<Rightarrow> (f, Inl e) | None \<Rightarrow> (Regular content perm, Inr True))"

definition hosts_Apply :: "hostsIO \<Rightarrow> string \<Rightarrow> string \<Rightarrow> hostsEntry \<Rightarrow> hostsEntry \<times> bool res" where
  "hosts_Apply io iface block f =
     (case ho_openLock io of Some e \<Rightarrow> (f, Inl (Wrap ''open hosts lock'' e))
      | None \<Rightarrow>
     (case ho_flock io of Some e \<Rightarrow> (f, Inl (Wrap ''lock hosts file'' e))
      | None \<Rightarrow>
     (case ho_lstat io of Some e \<Rightarrow> (f, Inl e)
      | None \<Rightarrow>
     (case f of
        Absent \<Rightarrow>
          if block = [] then (f, Inr False)
          else (case Rewrite [] iface block of
                  Inl e \<Rightarrow> (f, Inl e)
                | Inr (content, _) \<Rightarrow> ho_WriteFile io content 420 f)
      | Symlink \<Rightarrow> (f, Inl ErrSymlink)
      | Regular original perm \<Rightarrow>
          (case ho_read io of Some e \<Rightarrow> (f, Inl e)
           | None \<Rightarrow>
               (case Rewrite original iface block of
                  Inl e \<Rightarrow> (f, Inl e)
                | Inr (content, changed) \<Rightarrow>
                    if \<not> changed then (f, Inr False) else ho_WriteFile io content perm f))))))"

section \<open>The entries\<close>

definition Block :: "directory \<Rightarrow> string" where
  "Block dir =
     (if d_Domain dir = [] \<or> d_Nodes dir = [] then []
      else let names = map (\<lambda>n. toLower (n_Name n)) (d_Nodes dir);
               ipByName = map_of (rev (map (\<lambda>n. (toLower (n_Name n), n_TunnelIP n)) (d_Nodes dir)))
           in concat (map (\<lambda>name. the (ipByName name) @ [TAB] @ name @ ''.'' @ d_Domain dir @ [NL]) (sort names)))"

section \<open>The scan, line by line\<close>

definition at_boundary :: "bytes \<Rightarrow> bool" where
  "at_boundary x = (x = [] \<or> last x = NL)"

definition no_markers :: "bytes \<Rightarrow> bool" where
  "no_markers x = list_all (\<lambda>l. marker (trimSpace l) = None) (splitOn NL x)"

lemma lines_induct [case_names Nil Last Line]:
  assumes "P []" and "\<And>l. l \<noteq> [] \<Longrightarrow> NL \<notin> set l \<Longrightarrow> P l" and "\<And>l r. NL \<notin> set l \<Longrightarrow> P r \<Longrightarrow> P (l @ NL # r)"
  shows "P x"
proof (induction x rule: length_induct)
  case (1 x)
  show ?case
  proof (cases "NL \<in> set x")
    case True
    then obtain l r where "x = l @ NL # r" "NL \<notin> set l" by (metis split_list_first)
    with 1 assms(3) show ?thesis by simp
  next
    case False
    with assms(1,2) show ?thesis by (cases "x = []") auto
  qed
qed

lemma scanMarkers_Nil [simp]: "scanMarkers iface [] st = Inr st"
  by (simp add: scanMarkers.simps)

lemma scanMarkers_last: "l \<noteq> [] \<Longrightarrow> NL \<notin> set l \<Longrightarrow> scanMarkers iface l st = scanLine iface l (length l) st"
proof -
  assume l: "l \<noteq> []" "NL \<notin> set l"
  then have p: "pos_of NL l = None" by simp
  with l show ?thesis by (subst scanMarkers.simps) (cases "scanLine iface l (length l) st"; simp add: p)
qed

lemma scanMarkers_line:
  assumes "NL \<notin> set l"
  shows "scanMarkers iface (l @ NL # r) st = bindR (scanLine iface l (length l + 1) st) (scanMarkers iface r)"
proof -
  have "pos_of NL (l @ NL # r) = Some (length l)" using assms by (simp add: pos_of_append)
  then show ?thesis by (subst scanMarkers.simps) simp
qed

lemma at_boundary_line [simp]:
  "at_boundary (l @ NL # r) = at_boundary r" "at_boundary (l @ [NL])" "at_boundary []"
  by (auto simp: at_boundary_def)

lemma at_boundary_append: "at_boundary x \<Longrightarrow> at_boundary y \<Longrightarrow> at_boundary (x @ y)"
  by (auto simp: at_boundary_def last_append)

lemma at_boundary_no_NL: "NL \<notin> set l \<Longrightarrow> at_boundary l \<Longrightarrow> l = []"
  unfolding at_boundary_def using last_in_set by fastforce

lemma bindR_assoc: "bindR (bindR m f) g = bindR m (\<lambda>x. bindR (f x) g)"
  by (cases m) auto

lemma scanMarkers_append:
  "at_boundary x \<Longrightarrow> scanMarkers iface (x @ y) st = bindR (scanMarkers iface x st) (scanMarkers iface y)"
proof (induction x arbitrary: st rule: lines_induct)
  case (Last l)
  then show ?case using at_boundary_no_NL by blast
next
  case (Line l r)
  then have "scanMarkers iface (r @ y) = (\<lambda>st. bindR (scanMarkers iface r st) (scanMarkers iface y))" by auto
  with Line.hyps show ?case by (simp add: scanMarkers_line bindR_assoc)
qed simp

lemma no_markers_line: "NL \<notin> set l \<Longrightarrow> no_markers (l @ NL # r) \<longleftrightarrow> marker (trimSpace l) = None \<and> no_markers r"
  by (simp add: no_markers_def splitOn_append)

lemma no_markers_plain: "NL \<notin> set l \<Longrightarrow> no_markers l \<longleftrightarrow> marker (trimSpace l) = None"
  by (simp add: no_markers_def splitOn_single)

lemma scanMarkers_plain:
  "no_markers x \<Longrightarrow> scanMarkers iface x st = Inr (st\<lparr>sc_offset := sc_offset st + length x\<rparr>)"
proof (induction x arbitrary: st rule: lines_induct)
  case (Last l)
  then show ?case by (simp add: scanMarkers_last no_markers_plain scanLine_def)
next
  case (Line l r)
  then show ?case by (simp add: scanMarkers_line no_markers_line scanLine_def)
qed simp

lemma scanLine_offset: "scanLine iface l n st = Inr st' \<Longrightarrow> sc_offset st' = sc_offset st + n"
  by (auto simp: scanLine_def Let_def split: option.splits if_splits)

lemma scanMarkers_offset: "scanMarkers iface x st = Inr st' \<Longrightarrow> sc_offset st' = sc_offset st + length x"
proof (induction x arbitrary: st rule: lines_induct)
  case (Line l r)
  then show ?case by (fastforce simp: scanMarkers_line dest: scanLine_offset)
qed (auto simp: scanMarkers_last dest: scanLine_offset)

text \<open>Once the block of \<open>iface\<close> is behind, nothing moves its offsets; and the rest scans alike from any
  state with the same open block that has seen no more.\<close>

lemma scanLine_after:
  assumes "scanLine iface l n st1 = Inr s1" and "iface \<in> set (sc_seen st1)" and "sc_open st1 \<noteq> iface"
    and "sc_open st2 = sc_open st1" and "set (sc_seen st2) \<subseteq> set (sc_seen st1)"
  shows "\<exists>s2. scanLine iface l m st2 = Inr s2 \<and> sc_open s2 = sc_open s1 \<and> set (sc_seen s2) \<subseteq> set (sc_seen s1) \<and>
    sc_beginAt s2 = sc_beginAt st2 \<and> sc_endAt s2 = sc_endAt st2 \<and> iface \<in> set (sc_seen s1) \<and>
    (iface \<noteq> [] \<longrightarrow> sc_open s1 \<noteq> iface)"
proof (cases "marker (trimSpace l)")
  case None
  with assms show ?thesis by (auto simp: scanLine_def)
next
  case (Some m)
  obtain owner b where m: "m = (owner, b)" by fastforce
  from assms Some m have "owner \<noteq> iface" by (auto simp: scanLine_def split: if_splits)
  with assms Some m show ?thesis by (cases b) (auto simp: scanLine_def split: if_splits)
qed

lemma scanMarkers_after:
  assumes "iface \<noteq> []" and "scanMarkers iface x st1 = Inr s1" and "iface \<in> set (sc_seen st1)" and "sc_open st1 \<noteq> iface"
    and "sc_open st2 = sc_open st1" and "set (sc_seen st2) \<subseteq> set (sc_seen st1)"
  shows "\<exists>s2. scanMarkers iface x st2 = Inr s2 \<and> sc_open s2 = sc_open s1 \<and>
    sc_beginAt s2 = sc_beginAt st2 \<and> sc_endAt s2 = sc_endAt st2"
  using assms(2-6)
proof (induction x arbitrary: st1 st2 rule: lines_induct)
  case (Last l)
  then show ?case using scanLine_after [of iface l "length l" st1 s1 st2 "length l"] by (auto simp: scanMarkers_last)
next
  case (Line l r)
  from Line.prems(1) Line.hyps obtain t1 where t1: "scanLine iface l (length l + 1) st1 = Inr t1"
    and r1: "scanMarkers iface r t1 = Inr s1" by (auto simp: scanMarkers_line)
  obtain t2 where t2: "scanLine iface l (length l + 1) st2 = Inr t2" "sc_open t2 = sc_open t1"
    "set (sc_seen t2) \<subseteq> set (sc_seen t1)" "sc_beginAt t2 = sc_beginAt st2" "sc_endAt t2 = sc_endAt st2"
    "iface \<in> set (sc_seen t1)" "sc_open t1 \<noteq> iface"
    using scanLine_after [OF t1 Line.prems(2-5)] assms(1) by blast
  from Line.IH [OF r1 t2(6,7,2,3)] t2 show ?case using Line.hyps by (auto simp: scanMarkers_line)
qed auto

section \<open>Finding the block\<close>

lemma scanLine_before:
  assumes "scanLine iface l n st = Inr st'" and "sc_beginAt st = None"
  shows "(sc_beginAt st' = None \<and> marker (trimSpace l) \<noteq> Some (iface, True)) \<or>
    marker (trimSpace l) = Some (iface, True) \<and> sc_open st = [] \<and> iface \<notin> set (sc_seen st) \<and>
    st' = st\<lparr>sc_open := iface, sc_seen := iface # sc_seen st, sc_beginAt := Some (sc_offset st), sc_offset := sc_offset st + n\<rparr>"
  using assms by (auto simp: scanLine_def Let_def split: option.splits if_splits)

lemma scanLine_within:
  assumes "scanLine iface l n st = Inr st'" and "sc_open st = iface" and "iface \<noteq> []"
  shows "marker (trimSpace l) = None \<and> st' = st\<lparr>sc_offset := sc_offset st + n\<rparr> \<or>
    marker (trimSpace l) = Some (iface, False) \<and>
    st' = st\<lparr>sc_open := [], sc_endAt := Some (sc_offset st + n), sc_offset := sc_offset st + n\<rparr>"
  using assms by (auto simp: scanLine_def Let_def split: option.splits if_splits)

lemma find_begin:
  assumes "scanMarkers iface x st = Inr st'" and "sc_beginAt st = None" and "sc_beginAt st' \<noteq> None"
    and "sc_open st' = []" and "iface \<noteq> []"
  shows "\<exists>pre l y t. x = pre @ l @ NL # y \<and> at_boundary pre \<and> NL \<notin> set l \<and>
    marker (trimSpace l) = Some (iface, True) \<and> scanMarkers iface pre st = Inr t \<and> sc_beginAt t = None \<and>
    sc_open t = [] \<and> iface \<notin> set (sc_seen t) \<and>
    scanMarkers iface y (t\<lparr>sc_open := iface, sc_seen := iface # sc_seen t, sc_beginAt := Some (sc_offset t),
      sc_offset := sc_offset t + length l + 1\<rparr>) = Inr st'"
  using assms(1-4)
proof (induction x arbitrary: st rule: lines_induct)
  case (Last l)
  then show ?case using assms(5) scanLine_before [of iface l "length l" st st'] by (auto simp: scanMarkers_last)
next
  case (Line l r)
  then obtain u where u: "scanLine iface l (length l + 1) st = Inr u" "scanMarkers iface r u = Inr st'"
    by (auto simp: scanMarkers_line)
  show ?case
  proof (cases "sc_beginAt u = None")
    case True
    from Line.IH [OF u(2) True Line.prems(3,4)] obtain pre l' y t where
      d: "r = pre @ l' @ NL # y" "at_boundary pre" "NL \<notin> set l'" "marker (trimSpace l') = Some (iface, True)"
      "scanMarkers iface pre u = Inr t" "sc_beginAt t = None" "sc_open t = []" "iface \<notin> set (sc_seen t)"
      "scanMarkers iface y (t\<lparr>sc_open := iface, sc_seen := iface # sc_seen t, sc_beginAt := Some (sc_offset t),
        sc_offset := sc_offset t + length l' + 1\<rparr>) = Inr st'" by blast
    have "scanMarkers iface (l @ NL # pre) st = Inr t" using u(1) d(5) Line.hyps by (simp add: scanMarkers_line)
    moreover have "l @ NL # r = (l @ NL # pre) @ l' @ NL # y" using d(1) by simp
    moreover have "at_boundary (l @ NL # pre)" using d(2) by simp
    ultimately show ?thesis using d(3-9) by blast
  next
    case False
    with scanLine_before [OF u(1) Line.prems(2)] have m: "marker (trimSpace l) = Some (iface, True)" "sc_open st = []"
      "iface \<notin> set (sc_seen st)" "u = st\<lparr>sc_open := iface, sc_seen := iface # sc_seen st,
        sc_beginAt := Some (sc_offset st), sc_offset := sc_offset st + (length l + 1)\<rparr>" by blast+
    show ?thesis
      by (intro exI [of _ "[]"] exI [of _ l] exI [of _ r] exI [of _ st]) (use m u(2) Line.hyps Line.prems(2) in simp)
  qed
qed simp

lemma find_end:
  assumes "scanMarkers iface x st = Inr st'" and "sc_open st = iface" and "iface \<noteq> []" and "sc_open st' = []"
  shows "\<exists>body l post t. x = body @ l @ post \<and> at_boundary body \<and> no_markers body \<and> marker (trimSpace l) = Some (iface, False) \<and>
    (at_boundary l \<or> post = []) \<and> t = st\<lparr>sc_open := [], sc_endAt := Some (sc_offset st + length body + length l),
      sc_offset := sc_offset st + length body + length l\<rparr> \<and> scanMarkers iface post t = Inr st'"
  using assms(1,2,4)
proof (induction x arbitrary: st rule: lines_induct)
  case Nil
  with assms(3) show ?case by auto
next
  case (Last l)
  then have "scanLine iface l (length l) st = Inr st'" by (simp add: scanMarkers_last)
  from scanLine_within [OF this Last.prems(2) assms(3)] Last.prems(2,3) assms(3)
  have "marker (trimSpace l) = Some (iface, False)"
    "st' = st\<lparr>sc_open := [], sc_endAt := Some (sc_offset st + length l), sc_offset := sc_offset st + length l\<rparr>" by auto
  then show ?case
    by (intro exI [of _ "[]"] exI [of _ l] exI) (auto simp: no_markers_def marker_def legacyBeginMarker_def legacyEndMarker_def
      cutPrefix_def hasPrefix_def)
next
  case (Line l r)
  then obtain u where u: "scanLine iface l (length l + 1) st = Inr u" "scanMarkers iface r u = Inr st'"
    by (auto simp: scanMarkers_line)
  from scanLine_within [OF u(1) Line.prems(2) assms(3)] show ?case
  proof
    assume m: "marker (trimSpace l) = None \<and> u = st\<lparr>sc_offset := sc_offset st + (length l + 1)\<rparr>"
    with Line.prems(2) have "sc_open u = iface" by simp
    from Line.IH [OF u(2) this Line.prems(3)] obtain body l' post where
      d: "r = body @ l' @ post" "at_boundary body" "no_markers body" "marker (trimSpace l') = Some (iface, False)"
      "at_boundary l' \<or> post = []" "scanMarkers iface post (u\<lparr>sc_open := [], sc_endAt := Some (sc_offset u + length body + length l'),
      sc_offset := sc_offset u + length body + length l'\<rparr>) = Inr st'" by blast
    have "no_markers (l @ NL # body)" using m d(3) Line.hyps by (simp add: no_markers_line)
    moreover have "at_boundary (l @ NL # body)" using d(2) by simp
    moreover have "l @ NL # r = (l @ NL # body) @ l' @ post" using d(1) by simp
    moreover have "u\<lparr>sc_open := [], sc_endAt := Some (sc_offset u + length body + length l'),
        sc_offset := sc_offset u + length body + length l'\<rparr> =
      st\<lparr>sc_open := [], sc_endAt := Some (sc_offset st + length (l @ NL # body) + length l'),
        sc_offset := sc_offset st + length (l @ NL # body) + length l'\<rparr>" using m by (simp add: ac_simps)
    ultimately show ?case using d(4-6) by metis
  next
    assume m: "marker (trimSpace l) = Some (iface, False) \<and>
      u = st\<lparr>sc_open := [], sc_endAt := Some (sc_offset st + (length l + 1)), sc_offset := sc_offset st + (length l + 1)\<rparr>"
    have "trimSpace (l @ [NL]) = trimSpace l" by (rule trimSpace_snoc) (simp add: is_space_def)
    with m u(2) show ?case
      by (intro exI [of _ "[]"] exI [of _ "l @ [NL]"] exI [of _ r] exI) (auto simp: no_markers_def marker_def
        legacyBeginMarker_def legacyEndMarker_def cutPrefix_def hasPrefix_def)
  qed
qed

section \<open>The file around the block\<close>

text \<open>A file that is well formed around a place for the block of \<open>iface\<close>: \<open>pre\<close> ends at a line end and
  holds no block of it, and \<open>post\<close> scans to the end after one.\<close>

definition around :: "string \<Rightarrow> bytes \<Rightarrow> bytes \<Rightarrow> bool" where
  "around iface pre post \<longleftrightarrow> at_boundary pre \<and>
     (\<exists>t t'. scanMarkers iface pre scan_start = Inr t \<and> sc_open t = [] \<and> sc_beginAt t = None \<and>
        iface \<notin> set (sc_seen t) \<and>
        scanMarkers iface post (t\<lparr>sc_seen := iface # sc_seen t\<rparr>) = Inr t' \<and> sc_open t' = [])"

definition managed :: "string \<Rightarrow> bytes \<Rightarrow> bool" where
  "managed iface x \<longleftrightarrow> (\<exists>l body l'. x = l @ NL # body @ l' \<and> NL \<notin> set l \<and> at_boundary body \<and> no_markers body \<and>
     marker (trimSpace l) = Some (iface, True) \<and> marker (trimSpace l') = Some (iface, False))"

lemma split_found:
  assumes "splitAtMarkers content iface = Inr (Some (pre, post))" and "iface \<noteq> []"
  shows "\<exists>inner. content = pre @ inner @ post \<and> managed iface inner \<and> around iface pre post"
proof -
  obtain st where st: "scanMarkers iface content scan_start = Inr st" "sc_open st = []" "sc_beginAt st \<noteq> None"
    and pre: "pre = take (the (sc_beginAt st)) content" and post: "post = drop (the (sc_endAt st)) content"
    using assms(1) by (auto simp: splitAtMarkers_def split: if_splits option.splits)
  obtain p l y t where b: "content = p @ l @ NL # y" "at_boundary p" "NL \<notin> set l"
    "marker (trimSpace l) = Some (iface, True)" "scanMarkers iface p scan_start = Inr t" "sc_beginAt t = None"
    "sc_open t = []" "iface \<notin> set (sc_seen t)" and
    y: "scanMarkers iface y (t\<lparr>sc_open := iface, sc_seen := iface # sc_seen t, sc_beginAt := Some (sc_offset t),
      sc_offset := sc_offset t + length l + 1\<rparr>) = Inr st" (is "scanMarkers iface y ?t1 = _")
    using find_begin [OF st(1) _ st(3,2) assms(2)] by (auto simp: scan_start_def)
  obtain body l' w where e: "y = body @ l' @ w" "at_boundary body" "no_markers body" "marker (trimSpace l') = Some (iface, False)"
    and w: "scanMarkers iface w (?t1\<lparr>sc_open := [], sc_endAt := Some (sc_offset ?t1 + length body + length l'),
      sc_offset := sc_offset ?t1 + length body + length l'\<rparr>) = Inr st" (is "scanMarkers iface w ?t2 = _")
    using find_end [OF y _ assms(2) st(2)] by auto
  have off: "sc_offset t = length p" using scanMarkers_offset [OF b(5)] by (simp add: scan_start_def)
  obtain s2 where s2: "scanMarkers iface w ?t2 = Inr s2" "sc_beginAt s2 = sc_beginAt ?t2" "sc_endAt s2 = sc_endAt ?t2"
    using scanMarkers_after [OF assms(2) w, of ?t2] assms(2) by auto
  have "s2 = st" using s2(1) w by simp
  then have "pre = p" "post = w" using s2(2,3) off b(1) e(1) by (simp_all add: pre post)
  moreover have "around iface p w"
    using scanMarkers_after [OF assms(2) w, of "t\<lparr>sc_seen := iface # sc_seen t\<rparr>"] assms(2) b st(2)
    by (auto simp: around_def)
  ultimately show ?thesis
    using b e by (intro exI [of _ "l @ NL # body @ l'"]) (auto simp: managed_def)
qed

lemma marker_begin: "iface \<noteq> [] \<Longrightarrow> marker (trimSpace (beginMarker iface)) = Some (iface, True)"
proof -
  assume i: "iface \<noteq> []"
  have "trimSpace (beginMarker iface) = beginMarker iface"
    by (rule trimSpace_fixed) (simp_all add: beginMarker_def is_space_def)
  with i show ?thesis
    using cutPrefix_append [of "''# BEGIN tincan managed block (''" "iface @ '') - do not edit between markers''"]
    by (simp add: marker_def beginMarker_def legacyBeginMarker_def legacyEndMarker_def)
qed

lemma marker_end: "iface \<noteq> [] \<Longrightarrow> marker (trimSpace (endMarker iface)) = Some (iface, False)"
proof -
  assume i: "iface \<noteq> []"
  have "trimSpace (endMarker iface) = endMarker iface"
    by (rule trimSpace_fixed) (simp_all add: endMarker_def is_space_def)
  with i show ?thesis
    using cutPrefix_append [of "''# END tincan managed block (''" "iface @ '')''"]
    by (simp add: marker_def endMarker_def legacyBeginMarker_def legacyEndMarker_def cutPrefix_def [of _ "''# BEGIN tincan managed block (''"]
        hasPrefix_def)
qed

definition iface_ok :: "string \<Rightarrow> bool" where
  "iface_ok iface = (iface \<noteq> [] \<and> NL \<notin> set iface)"

definition block_ok :: "string \<Rightarrow> bool" where
  "block_ok block = (at_boundary block \<and> no_markers block)"

lemma split_marked:
  assumes "around iface pre post" and "iface_ok iface" and "block_ok block"
  shows "splitAtMarkers (pre @ writeMarkedBlock iface block @ post) iface = Inr (Some (pre, post))"
proof -
  have i: "iface \<noteq> []" "NL \<notin> set (beginMarker iface)" "NL \<notin> set (endMarker iface)"
    using assms(2) by (simp_all add: iface_ok_def beginMarker_def endMarker_def)
  obtain t t' where t: "at_boundary pre" "scanMarkers iface pre scan_start = Inr t" "sc_open t = []" "sc_beginAt t = None"
    "iface \<notin> set (sc_seen t)" and t': "scanMarkers iface post (t\<lparr>sc_seen := iface # sc_seen t\<rparr>) = Inr t'" "sc_open t' = []"
    using assms(1) by (auto simp: around_def)
  have off: "sc_offset t = length pre" using scanMarkers_offset [OF t(2)] by (simp add: scan_start_def)
  let ?n = "length (writeMarkedBlock iface block)"
  let ?u = "t\<lparr>sc_open := [], sc_seen := iface # sc_seen t, sc_beginAt := Some (length pre), sc_endAt := Some (length pre + ?n),
      sc_offset := length pre + ?n\<rparr>"
  have "scanMarkers iface (writeMarkedBlock iface block @ post) t = scanMarkers iface post ?u"
  proof -
    have "writeMarkedBlock iface block @ post = beginMarker iface @ NL # (block @ (endMarker iface @ NL # post))"
      by (simp add: writeMarkedBlock_def)
    moreover have "at_boundary block" "no_markers block" using assms(3) by (simp_all add: block_ok_def)
    ultimately show ?thesis
      using t i off
      by (cases t) (simp add: scanMarkers_line scanMarkers_append scanMarkers_plain scanLine_def marker_begin marker_end
          writeMarkedBlock_def Let_def ac_simps)
  qed
  moreover obtain s2 where "scanMarkers iface post ?u = Inr s2" "sc_open s2 = []" "sc_beginAt s2 = Some (length pre)"
    "sc_endAt s2 = Some (length pre + ?n)"
    using scanMarkers_after [OF i(1) t'(1), of ?u] t'(2) t(3) i(1) by auto
  ultimately have "scanMarkers iface (pre @ writeMarkedBlock iface block @ post) scan_start = Inr s2"
    using t(1,2) by (simp add: scanMarkers_append)
  then show ?thesis using \<open>sc_open s2 = []\<close> \<open>sc_beginAt s2 = _\<close> \<open>sc_endAt s2 = _\<close> by (simp add: splitAtMarkers_def)
qed

lemma scanMarkers_seen:
  assumes "scanMarkers iface x st = Inr st'" and "iface \<in> set (sc_seen st) \<longrightarrow> sc_beginAt st \<noteq> None"
  shows "iface \<in> set (sc_seen st') \<longrightarrow> sc_beginAt st' \<noteq> None"
proof -
  have l: "iface \<in> set (sc_seen u) \<longrightarrow> sc_beginAt u \<noteq> None"
    if "scanLine iface l n st = Inr u" "iface \<in> set (sc_seen st) \<longrightarrow> sc_beginAt st \<noteq> None" for l n st u
    using that by (auto simp: scanLine_def Let_def split: option.splits if_splits)
  show ?thesis
    using assms
  proof (induction x arbitrary: st rule: lines_induct)
    case (Last x)
    then show ?case using l by (simp add: scanMarkers_last)
  next
    case (Line x r)
    from Line.prems(1) Line.hyps obtain u where u: "scanLine iface x (length x + 1) st = Inr u" "scanMarkers iface r u = Inr st'"
      by (auto simp: scanMarkers_line)
    from Line.IH [OF u(2) l [OF u(1) Line.prems(2)]] show ?case .
  qed simp
qed

text \<open>A missing newline at the end does not matter to the markers.\<close>

lemma scanMarkers_newline:
  assumes "scanMarkers iface x st = Inr st'"
  shows "\<exists>u. scanMarkers iface (x @ [NL]) st = Inr u \<and> sc_open u = sc_open st' \<and> sc_seen u = sc_seen st' \<and>
    sc_beginAt u = sc_beginAt st'"
  using assms
proof (induction x arbitrary: st rule: lines_induct)
  case Nil
  have "marker (trimSpace []) = None" by code_simp
  with Nil show ?case using scanMarkers_line [of "[]" iface "[]" st] by (simp add: scanLine_def)
next
  case (Last l)
  have "scanLine iface l (length l) st = Inr st'" using Last by (simp add: scanMarkers_last)
  then have "\<exists>u. scanLine iface l (length l + 1) st = Inr u \<and> sc_open u = sc_open st' \<and> sc_seen u = sc_seen st' \<and>
      sc_beginAt u = sc_beginAt st'"
    by (auto simp: scanLine_def Let_def split: option.splits if_splits)
  then show ?case using Last.hyps by (auto simp: scanMarkers_line)
next
  case (Line l r)
  then show ?case by (fastforce simp: scanMarkers_line)
qed

lemma around_end:
  assumes "splitAtMarkers content iface = Inr None"
  shows "around iface (content @ insertPad content) []"
proof -
  obtain st where st: "scanMarkers iface content scan_start = Inr st" "sc_open st = []" "sc_beginAt st = None"
    using assms by (auto simp: splitAtMarkers_def split: if_splits option.splits)
  then have ni: "iface \<notin> set (sc_seen st)"
    using scanMarkers_seen [OF st(1)] by (auto simp: scan_start_def)
  have two: "\<exists>u. scanMarkers iface (x @ [NL]) scan_start = Inr u \<and> sc_open u = [] \<and> sc_seen u = sc_seen st \<and> sc_beginAt u = None"
    if "\<exists>u. scanMarkers iface x scan_start = Inr u \<and> sc_open u = [] \<and> sc_seen u = sc_seen st \<and> sc_beginAt u = None" for x
    using that scanMarkers_newline by metis
  have "\<exists>u. scanMarkers iface (content @ insertPad content) scan_start = Inr u \<and> sc_open u = [] \<and>
      sc_seen u = sc_seen st \<and> sc_beginAt u = None"
    using two [OF two, of content] two [of content] st by (auto simp: insertPad_def)
  moreover have "at_boundary (content @ insertPad content)" by (auto simp: at_boundary_def insertPad_def)
  ultimately show ?thesis using ni by (auto simp: around_def)
qed

lemma split_removed:
  assumes "around iface pre post" and "iface \<noteq> []"
  shows "splitAtMarkers (pre @ post) iface = Inr None"
proof -
  obtain t t' where t: "at_boundary pre" "scanMarkers iface pre scan_start = Inr t" "sc_open t = []" "sc_beginAt t = None"
    and t': "scanMarkers iface post (t\<lparr>sc_seen := iface # sc_seen t\<rparr>) = Inr t'" "sc_open t' = []"
    using assms(1) by (auto simp: around_def)
  obtain s2 where "scanMarkers iface post t = Inr s2" "sc_open s2 = []" "sc_beginAt s2 = None"
    using scanMarkers_after [OF assms(2) t'(1), of t] t'(2) t(3,4) assms(2) by auto
  then show ?thesis using t by (simp add: splitAtMarkers_def scanMarkers_append)
qed

text \<open>The outcome of a rewrite: the bytes around the block are kept.\<close>

lemma Rewrite_around:
  assumes "Rewrite content iface block = Inr (r, ch)" and "iface \<noteq> []"
  shows "\<exists>pre inner post. around iface pre post \<and>
    r = pre @ (if block = [] then [] else writeMarkedBlock iface block) @ post \<and>
    (content = pre @ inner @ post \<and> managed iface inner \<or>
     block \<noteq> [] \<and> post = [] \<and> pre = content @ insertPad content \<and> splitAtMarkers content iface = Inr None) \<or>
    block = [] \<and> r = content \<and> splitAtMarkers content iface = Inr None"
proof -
  obtain found where f: "splitAtMarkers content iface = Inr found" using assms(1) by (auto simp: Rewrite_def)
  show ?thesis
  proof (cases found)
    case None
    show ?thesis
    proof (cases "block = []")
      case True
      with None f assms(1) show ?thesis by (simp add: Rewrite_def Let_def)
    next
      case False
      with None f assms(1) have "r = (content @ insertPad content) @ writeMarkedBlock iface block @ []"
        by (simp add: Rewrite_def Let_def)
      with around_end [OF f [unfolded None]] False None f show ?thesis by metis
    qed
  next
    case (Some p)
    obtain pre post where p: "p = (pre, post)" by fastforce
    from split_found [OF f [unfolded Some p] assms(2)] obtain inner where
      "content = pre @ inner @ post" "managed iface inner" "around iface pre post" by blast
    moreover have "r = pre @ (if block = [] then [] else writeMarkedBlock iface block) @ post"
      using assms(1) f Some p by (cases "block = []") (simp_all add: Rewrite_def Let_def)
    ultimately show ?thesis by blast
  qed
qed

lemma Rewrite_marked:
  "around iface pre post \<Longrightarrow> iface_ok iface \<Longrightarrow> block_ok block \<Longrightarrow> block_ok block' \<Longrightarrow>
     Rewrite (pre @ writeMarkedBlock iface block @ post) iface block' =
       (let r = pre @ (if block' = [] then [] else writeMarkedBlock iface block') @ post
        in Inr (r, r \<noteq> pre @ writeMarkedBlock iface block @ post))"
  by (auto simp: Rewrite_def split_marked Let_def)

section \<open>The entries of a valid directory\<close>

definition hostLine :: "directory \<Rightarrow> node \<Rightarrow> string" where
  "hostLine dir n = n_TunnelIP n @ [TAB] @ toLower (n_Name n) @ ''.'' @ d_Domain dir"

definition has_line :: "bytes \<Rightarrow> string \<Rightarrow> bool" where
  "has_line r l \<longleftrightarrow> (\<exists>x y. r = x @ l @ NL # y \<and> at_boundary x)"

lemma marker_hash: "marker l \<noteq> None \<Longrightarrow> l \<noteq> [] \<and> hd l = CHR ''#''"
  by (auto simp: marker_def legacyBeginMarker_def legacyEndMarker_def cutPrefix_Some split: if_splits option.splits)

lemma trimSpace_hd: "\<not> is_space c \<Longrightarrow> \<exists>r. trimSpace (c # l) = c # r"
proof -
  assume c: "\<not> is_space c"
  have "dropWhile is_space (xs @ [c]) = dropWhile is_space xs @ [c]" for xs using c by (induction xs) auto
  with c show ?thesis by (simp add: trimSpace_def)
qed

lemma no_marker_digit: "l \<noteq> [] \<Longrightarrow> is_digit (hd l) \<Longrightarrow> marker (trimSpace l) = None"
proof (rule ccontr)
  assume l: "l \<noteq> []" "is_digit (hd l)" and m: "marker (trimSpace l) \<noteq> None"
  obtain r where "trimSpace (hd l # tl l) = hd l # r" using trimSpace_hd digit_not_space [OF l(2)] by blast
  with marker_hash [OF m] l show False by (simp add: is_digit_def)
qed

lemma no_markers_append_line:
  "NL \<notin> set l \<Longrightarrow> marker (trimSpace l) = None \<Longrightarrow> block_ok r \<Longrightarrow> block_ok (l @ NL # r)"
  by (simp add: block_ok_def no_markers_line)

lemma block_ok_Nil [simp]: "block_ok []"
proof -
  have "marker (trimSpace []) = None" by code_simp
  then show ?thesis by (simp add: block_ok_def no_markers_def)
qed

lemma block_ok_lines:
  "\<forall>l \<in> set ls. NL \<notin> set l \<and> marker (trimSpace l) = None \<Longrightarrow> block_ok (concat (map (\<lambda>l. l @ [NL]) ls))"
  by (induction ls) (auto intro: no_markers_append_line)

lemma label_no_NL: "ValidateLabel l = Inr () \<Longrightarrow> NL \<notin> set (toLower l)"
proof
  assume v: "ValidateLabel l = Inr ()" and "NL \<in> set (toLower l)"
  then obtain c where c: "c \<in> set l" "lowerC c = NL" by (auto simp: toLower_def)
  with v have "label_char c" by (simp add: ValidateLabel_ok list_all_iff)
  then have "45 \<le> code c" by (auto simp: label_char_def is_lower_def is_upper_def is_digit_def)
  then have "45 \<le> code (lowerC c)" by (simp add: code_lowerC)
  with c(2) show False by simp
qed

lemma domain_no_NL:
  assumes "ValidateDomain d = Inr ()"
  shows "NL \<notin> set d"
proof -
  have v: "validateLabels (splitOn (CHR ''.'') d) = Inr ()" using assms by (auto simp: ValidateDomain_def split: if_splits)
  have "d = joinWith ''.'' (splitOn (CHR ''.'') d)" by (simp add: joinWith_splitOn)
  moreover have "NL \<notin> set (joinWith ''.'' ls)" if "\<forall>l \<in> set ls. ValidateLabel l = Inr ()" for ls
    using that
  proof (induction "''.''" ls rule: joinWith.induct)
    case (2 x)
    then have "list_all label_char x" by (simp add: ValidateLabel_ok)
    then show ?case by (auto simp: list_all_iff label_char_def is_lower_def is_upper_def is_digit_def)
  next
    case (3 x y ys)
    then have "list_all label_char x" by (simp add: ValidateLabel_ok)
    with 3 show ?case by (auto simp: list_all_iff label_char_def is_lower_def is_upper_def is_digit_def)
  qed simp
  ultimately show ?thesis using v by (metis validateLabels_ok)
qed

lemma map_preimage: "set xs \<subseteq> f ` A \<Longrightarrow> \<exists>ns. xs = map f ns \<and> set ns \<subseteq> A"
proof (induction xs)
  case (Cons x xs)
  then obtain n ns where "x = f n" "n \<in> A" "xs = map f ns" "set ns \<subseteq> A" by auto
  then show ?case by (intro exI [of _ "n # ns"]) simp
qed simp

lemma Block_lines:
  assumes "directory_ok W A dir" and "d_Domain dir \<noteq> []"
  shows "\<exists>ns. set ns = set (d_Nodes dir) \<and> Block dir = concat (map (\<lambda>l. l @ [NL]) (map (hostLine dir) ns))"
proof (cases "d_Nodes dir = []")
  case False
  let ?f = "\<lambda>n. toLower (n_Name n)"
  let ?ip = "map_of (rev (map (\<lambda>n. (?f n, n_TunnelIP n)) (d_Nodes dir)))"
  have inj: "inj_on ?f (set (d_Nodes dir))"
    using assms by (auto simp: directory_ok_def distinct_map comp_def)
  have d: "distinct (map fst (rev (map (\<lambda>n. (?f n, n_TunnelIP n)) (d_Nodes dir))))"
    using assms by (simp add: directory_ok_def comp_def rev_map [symmetric])
  have ip: "?ip (?f n) = Some (n_TunnelIP n)" if "n \<in> set (d_Nodes dir)" for n
    using that d by (intro map_of_is_SomeI) auto
  have "set (sort (map ?f (d_Nodes dir))) = ?f ` set (d_Nodes dir)" by simp
  then obtain ns where ns: "sort (map ?f (d_Nodes dir)) = map ?f ns" "set ns \<subseteq> set (d_Nodes dir)"
    using map_preimage [of "sort (map ?f (d_Nodes dir))" ?f "set (d_Nodes dir)"] by auto
  have "?f ` set ns = ?f ` set (d_Nodes dir)" using arg_cong [OF ns(1), of set] by simp
  then have "set ns = set (d_Nodes dir)" using inj_on_image_eq_iff [OF inj ns(2) subset_refl] by blast
  moreover have "Block dir = concat (map (\<lambda>l. l @ [NL]) (map (hostLine dir) ns))"
  proof -
    have "the (?ip (?f n)) = n_TunnelIP n" if "n \<in> set ns" for n using ip ns(2) that by (metis option.sel subsetD)
    then show ?thesis
      by (simp add: Block_def assms(2) False ns(1) hostLine_def Let_def comp_def cong: map_cong)
  qed
  ultimately show ?thesis by blast
qed (simp add: Block_def)

lemma hostLine_plain:
  assumes "directory_ok W A dir" and "d_Domain dir \<noteq> []" and "n \<in> set (d_Nodes dir)"
  shows "NL \<notin> set (hostLine dir n) \<and> marker (trimSpace (hostLine dir n)) = None"
proof -
  obtain p where n: "node_ok W A (d_Domain dir) p n"
    using assms(1,3) by (auto simp: directory_ok_def list_all_iff)
  then obtain w where w: "n_TunnelIP n = ip4_String w" and v: "ValidateLabel (n_Name n) = Inr ()"
    using assms(2) by (auto simp: node_ok_def)
  have "NL \<notin> set (ip4_String w)" using ip4_String_chars [of w] by (auto simp: is_digit_def)
  moreover have "NL \<notin> set (d_Domain dir)" using assms by (auto simp: directory_ok_def dest: domain_no_NL)
  moreover have "hostLine dir n \<noteq> []" "is_digit (hd (hostLine dir n))"
    using ip4_String_shape [of w] by (metis (no_types, lifting) append_is_Nil_conv hd_append hd_in_set hostLine_def ip4_String_nonempty
        list_all_iff w)+
  ultimately show ?thesis using label_no_NL [OF v] by (auto simp: hostLine_def w no_marker_digit)
qed

lemma Block_ok: "directory_ok W A dir \<Longrightarrow> block_ok (Block dir)"
proof (cases "d_Domain dir = []")
  case False
  assume ok: "directory_ok W A dir"
  from Block_lines [OF ok False] obtain ns where ns: "set ns = set (d_Nodes dir)"
    "Block dir = concat (map (\<lambda>l. l @ [NL]) (map (hostLine dir) ns))" by blast
  show ?thesis unfolding ns(2) by (rule block_ok_lines) (use ns(1) hostLine_plain [OF ok False] in auto)
qed (simp add: Block_def)

lemma Block_has_line:
  assumes "directory_ok W A dir" and "d_Domain dir \<noteq> []" and "n \<in> set (d_Nodes dir)"
  shows "has_line (Block dir) (hostLine dir n)"
proof -
  from Block_lines [OF assms(1,2)] obtain ns where ns: "set ns = set (d_Nodes dir)"
    "Block dir = concat (map (\<lambda>l. l @ [NL]) (map (hostLine dir) ns))" by blast
  let ?c = "\<lambda>ns. concat (map (\<lambda>l. l @ [NL]) (map (hostLine dir) ns))"
  obtain as bs where "ns = as @ n # bs" using ns(1) assms(3) by (metis split_list)
  then have "Block dir = ?c as @ hostLine dir n @ NL # ?c bs" using ns(2) by simp
  moreover have "at_boundary (?c as)" by (induction as) auto
  ultimately show ?thesis unfolding has_line_def by blast
qed

lemma has_line_inside:
  "at_boundary x \<Longrightarrow> has_line b l \<Longrightarrow> has_line (x @ b @ y) l"
proof -
  assume x: "at_boundary x" and "has_line b l"
  then obtain u v where "b = u @ l @ NL # v" "at_boundary u" by (auto simp: has_line_def)
  then have "x @ b @ y = (x @ u) @ l @ NL # (v @ y)" "at_boundary (x @ u)" using x by (simp_all add: at_boundary_append)
  then show ?thesis unfolding has_line_def by blast
qed

section \<open>Properties\<close>

text \<open>C29: a rewrite of the hosts file keeps every byte that is not in the managed block of the interface: the
  result is the old file with the block replaced in place, or with the block added at the end after
  at most two newlines, or with the block cut out; in a file without the block, removing it changes
  nothing. The bytes replaced are one pair of this interface's markers with no other marker between.\<close>

theorem hosts_rewrite_preserves:
  assumes "Rewrite content iface block = Inr (r, ch)" and "iface \<noteq> []"
  shows "(ch \<longleftrightarrow> r \<noteq> content) \<and>
    ((\<exists>pre inner post. content = pre @ inner @ post \<and> managed iface inner \<and>
        r = pre @ (if block = [] then [] else writeMarkedBlock iface block) @ post) \<or>
     block \<noteq> [] \<and> r = content @ insertPad content @ writeMarkedBlock iface block \<or>
     block = [] \<and> r = content)"
proof -
  have "ch \<longleftrightarrow> r \<noteq> content" using assms(1) by (auto simp: Rewrite_def Let_def)
  moreover from Rewrite_around [OF assms]
  consider pre inner post where "r = pre @ (if block = [] then [] else writeMarkedBlock iface block) @ post"
      "content = pre @ inner @ post" "managed iface inner"
    | pre post where "r = pre @ (if block = [] then [] else writeMarkedBlock iface block) @ post"
      "block \<noteq> []" "post = []" "pre = content @ insertPad content"
    | "block = []" "r = content" by blast
  ultimately show ?thesis by cases (blast, simp, blast)
qed

theorem hosts_rewrite_preserves_witness:
  "\<exists>r ch. Rewrite ''127.0.0.1 localhost'' ''tincan0'' ''10.0.0.1 a.vpn'' = Inr (r, ch) \<and> ch"
proof -
  have m: "marker (trimSpace ''127.0.0.1 localhost'') = None" by code_simp
  then have "no_markers ''127.0.0.1 localhost''" by (subst no_markers_plain) simp_all
  from scanMarkers_plain [OF this, of "''tincan0''" scan_start] have "splitAtMarkers ''127.0.0.1 localhost'' ''tincan0'' = Inr None"
    by (simp add: splitAtMarkers_def scan_start_def)
  then obtain r ch where r: "Rewrite ''127.0.0.1 localhost'' ''tincan0'' ''10.0.0.1 a.vpn'' = Inr (r, ch)"
    "r = ''127.0.0.1 localhost'' @ insertPad ''127.0.0.1 localhost'' @ writeMarkedBlock ''tincan0'' ''10.0.0.1 a.vpn''"
    by (simp add: Rewrite_def Let_def)
  from hosts_rewrite_preserves [OF r(1)] have "ch \<longleftrightarrow> r \<noteq> ''127.0.0.1 localhost''" by simp
  moreover have "r \<noteq> ''127.0.0.1 localhost''" by (simp add: r(2) writeMarkedBlock_def)
  ultimately show ?thesis using r(1) by blast
qed

text \<open>For a valid directory with a domain, the rewritten hosts file has the line of every member, its tunnel
  address and full name; rewriting it again for the same directory changes nothing; and removing
  the block afterwards leaves the file as it was around the block, with no block of the interface.\<close>

theorem hosts_entries_stable:
  assumes "Validate W A dir = Inr ()" and "d_Domain dir \<noteq> []" and "d_Nodes dir \<noteq> []" and "iface_ok iface"
    and "Rewrite content iface (Block dir) = Inr (r, ch)"
  shows "list_all (\<lambda>n. has_line r (hostLine dir n)) (d_Nodes dir) \<and> Rewrite r iface (Block dir) = Inr (r, False) \<and>
    (\<exists>r'. Rewrite r iface [] = Inr (r', True) \<and> splitAtMarkers r' iface = Inr None \<and>
      (r' = content @ insertPad content \<or> (\<exists>pre inner post. content = pre @ inner @ post \<and> managed iface inner \<and> r' = pre @ post)))"
proof -
  have ok: "directory_ok W A dir" using assms(1) by (simp add: Validate_ok)
  note b = Block_ok [OF ok]
  have ne: "Block dir \<noteq> []" using Block_has_line [OF ok assms(2) hd_in_set [OF assms(3)]] by (auto simp: has_line_def)
  have i: "iface \<noteq> []" using assms(4) by (simp add: iface_ok_def)
  obtain pre inner post where a: "around iface pre post" and r: "r = pre @ writeMarkedBlock iface (Block dir) @ post"
    and c: "content = pre @ inner @ post \<and> managed iface inner \<or> post = [] \<and> pre = content @ insertPad content"
    using Rewrite_around [OF assms(5) i] ne by fastforce
  have bd: "at_boundary pre" using a by (simp add: around_def)
  have "has_line r (hostLine dir n)" if "n \<in> set (d_Nodes dir)" for n
  proof -
    have "r = (pre @ beginMarker iface @ [NL]) @ Block dir @ (endMarker iface @ [NL] @ post)"
      by (simp add: r writeMarkedBlock_def)
    moreover have "at_boundary (pre @ beginMarker iface @ [NL])" by (simp add: at_boundary_def)
    ultimately show ?thesis using has_line_inside Block_has_line [OF ok assms(2) that] by metis
  qed
  moreover have "Rewrite r iface (Block dir) = Inr (r, False)"
    using Rewrite_marked [OF a assms(4) b b] ne by (simp add: r Let_def)
  moreover have "Rewrite r iface [] = Inr (pre @ post, True)"
    using Rewrite_marked [OF a assms(4) b block_ok_Nil] by (simp add: r Let_def writeMarkedBlock_def)
  moreover have "splitAtMarkers (pre @ post) iface = Inr None" by (rule split_removed [OF a i])
  ultimately show ?thesis using c by (auto simp: list_all_iff)
qed

theorem hosts_entries_stable_witness:
  "\<exists>r ch. Rewrite [] ''tincan0'' (Block demo_dir) = Inr (r, ch) \<and> Rewrite r ''tincan0'' (Block demo_dir) = Inr (r, False)"
proof -
  obtain r ch where r: "Rewrite [] ''tincan0'' (Block demo_dir) = Inr (r, ch)"
    unfolding Rewrite_def Let_def by (simp add: splitAtMarkers_def scan_start_def)
  moreover have "d_Domain demo_dir \<noteq> []" "d_Nodes demo_dir \<noteq> []" "iface_ok ''tincan0''"
    by (simp_all add: demo_dir_def iface_ok_def)
  ultimately show ?thesis using hosts_entries_stable [OF demo_dir_valid _ _ _ r] by blast
qed

end
