(* ===== verification/DnsServe.thy ===== *)
theory DnsServe
  imports Hosts
begin

text \<open>
  The DNS listener a hub runs for plain WireGuard clients (\<open>src/internal/dnsserve\<close>): \<open>answer.go\<close>,
  \<open>server.go\<close>, \<open>upstream.go\<close> and \<open>probe.go\<close>. The wire codec \<open>golang.org/x/net/dns/dnsmessage\<close> is not
  part of the repository: its parser, its name constructor and its builder are the fields of \<open>dnsLib\<close>,
  over a type \<open>'b\<close> of builder states. The sockets are parameters too: what the \<open>i\<close>-th read
  returns. As in \<open>GoStrings\<close>, lower case is that of ASCII.
\<close>

section \<open>Messages\<close>

record dnsHeader =
  dh_ID :: u16
  dh_Response :: bool
  dh_OpCode :: u16
  dh_Authoritative :: bool
  dh_Truncated :: bool
  dh_RecursionDesired :: bool
  dh_RecursionAvailable :: bool
  dh_AuthenticData :: bool
  dh_CheckingDisabled :: bool
  dh_RCode :: u16

definition zero_dnsHeader :: dnsHeader where
  "zero_dnsHeader =
     \<lparr>dh_ID = 0, dh_Response = False, dh_OpCode = 0, dh_Authoritative = False, dh_Truncated = False,
      dh_RecursionDesired = False, dh_RecursionAvailable = False, dh_AuthenticData = False,
      dh_CheckingDisabled = False, dh_RCode = 0\<rparr>"

record question =
  q_Name :: string
  q_Type :: u16
  q_Class :: u16

record resourceHeader =
  rh_Name :: string
  rh_Type :: u16
  rh_Class :: u16
  rh_TTL :: u32

datatype resourceBody = AResource "u8 list" | PTRResource string

record resource =
  rs_Header :: resourceHeader
  rs_Body :: resourceBody

definition TypeA :: u16 where "TypeA = 1"
definition TypePTR :: u16 where "TypePTR = 12"
definition ClassINET :: u16 where "ClassINET = 1"
definition RCodeSuccess :: u16 where "RCodeSuccess = 0"
definition RCodeFormatError :: u16 where "RCodeFormatError = 1"
definition RCodeServerFailure :: u16 where "RCodeServerFailure = 2"
definition RCodeNameError :: u16 where "RCodeNameError = 3"

record 'b dnsLib =
  dl_Start :: "bytes \<Rightarrow> dnsHeader res"
  dl_AllQuestions :: "bytes \<Rightarrow> question list res"
  dl_NewName :: "string \<Rightarrow> string res"
  dl_NewBuilder :: "dnsHeader \<Rightarrow> 'b"
  dl_EnableCompression :: "'b \<Rightarrow> 'b"
  dl_StartQuestions :: "'b \<Rightarrow> 'b res"
  dl_Question :: "question \<Rightarrow> 'b \<Rightarrow> 'b res"
  dl_StartAnswers :: "'b \<Rightarrow> 'b res"
  dl_AResource :: "resourceHeader \<Rightarrow> u8 list \<Rightarrow> 'b \<Rightarrow> 'b res"
  dl_PTRResource :: "resourceHeader \<Rightarrow> string \<Rightarrow> 'b \<Rightarrow> 'b res"
  dl_Finish :: "'b \<Rightarrow> bytes res"

section \<open>Replies\<close>

definition headerLen :: nat where "headerLen = 12"
definition qrBit :: u8 where "qrBit = 0x80"
definition answerTTL :: u32 where "answerTTL = 60"

definition byte_at :: "bytes \<Rightarrow> nat \<Rightarrow> u8" where
  "byte_at b i = of_nat (code (b ! i))"

definition byte_char :: "u8 \<Rightarrow> char" where
  "byte_char w = char_of (unat w)"

definition answerHeader :: "string \<Rightarrow> u16 \<Rightarrow> resourceHeader" where
  "answerHeader name t = \<lparr>rh_Name = name, rh_Type = t, rh_Class = ClassINET, rh_TTL = answerTTL\<rparr>"

definition replyHeader :: "dnsHeader \<Rightarrow> u16 \<Rightarrow> dnsHeader" where
  "replyHeader hdr rcode =
     zero_dnsHeader\<lparr>dh_ID := dh_ID hdr, dh_Response := True, dh_Authoritative := True,
       dh_RecursionDesired := dh_RecursionDesired hdr, dh_RecursionAvailable := True, dh_RCode := rcode\<rparr>"

fun addAnswers :: "'b dnsLib \<Rightarrow> resource list \<Rightarrow> 'b \<Rightarrow> 'b res" where
  "addAnswers L [] b = Inr b"
| "addAnswers L (r # rs) b =
     bindR (case rs_Body r of
              AResource a \<Rightarrow> dl_AResource L (rs_Header r) a b
            | PTRResource p \<Rightarrow> dl_PTRResource L (rs_Header r) p b) (addAnswers L rs)"

text \<open>\<open>nil\<close> is \<open>None\<close>: any error of the builder gives no reply.\<close>

definition buildReply :: "'b dnsLib \<Rightarrow> dnsHeader \<Rightarrow> question option \<Rightarrow> u16 \<Rightarrow> resource list \<Rightarrow> bytes option" where
  "buildReply L hdr q rcode answers =
     (let b0 = dl_EnableCompression L (dl_NewBuilder L (replyHeader hdr rcode))
      in case bindR (case q of None \<Rightarrow> Inr b0 | Some q' \<Rightarrow> bindR (dl_StartQuestions L b0) (dl_Question L q')) (\<lambda>b1.
              bindR (if answers = [] then Inr b1 else bindR (dl_StartAnswers L b1) (addAnswers L answers)) (\<lambda>b2.
              dl_Finish L b2)) of
           Inl _ \<Rightarrow> None
         | Inr out \<Rightarrow> Some out)"

definition servfailFor :: "bytes \<Rightarrow> bytes option" where
  "servfailFor query =
     (if length query < headerLen then None
      else let b2 = (byte_at query 2 OR qrBit) AND NOT 0x04;
               b3 = (byte_at query 3 AND NOT 0x0f) OR 0x80 OR 0x02
           in Some (query[2 := byte_char b2, 3 := byte_char b3]))"

section \<open>Answers\<close>

definition reverseIPv4 :: "string \<Rightarrow> addr option" where
  "reverseIPv4 qname =
     (let parts = splitOn (CHR ''.'') (trimSuffix qname ''.in-addr.arpa'')
      in if length parts \<noteq> 4 then None
         else case parseAddr (parts ! 3 @ ''.'' @ parts ! 2 @ ''.'' @ parts ! 1 @ ''.'' @ parts ! 0) of
                None \<Rightarrow> None
              | Some a \<Rightarrow> if \<not> addr_Is4 a then None else Some a)"

fun nodeByLabel :: "node list \<Rightarrow> string \<Rightarrow> node option" where
  "nodeByLabel [] label = None"
| "nodeByLabel (n # ns) label = (if equalFold (n_Name n) label then Some n else nodeByLabel ns label)"

text \<open>The loop of \<open>respondPTR\<close> over the nodes; \<open>addr\<close> is the address spelled out.\<close>

fun respondPTR_loop ::
  "'b dnsLib \<Rightarrow> dnsHeader \<Rightarrow> question \<Rightarrow> string \<Rightarrow> string \<Rightarrow> node list \<Rightarrow> bytes option" where
  "respondPTR_loop L hdr q domain addr [] = buildReply L hdr (Some q) RCodeNameError []"
| "respondPTR_loop L hdr q domain addr (n # ns) =
     (if n_TunnelIP n \<noteq> addr then respondPTR_loop L hdr q domain addr ns
      else case dl_NewName L (toLower (n_Name n) @ ''.'' @ domain @ ''.'') of
             Inl _ \<Rightarrow> buildReply L hdr (Some q) RCodeServerFailure []
           | Inr target \<Rightarrow>
               buildReply L hdr (Some q) RCodeSuccess
                 [\<lparr>rs_Header = answerHeader (q_Name q) TypePTR, rs_Body = PTRResource target\<rparr>])"

definition respondPTR ::
  "'b dnsLib \<Rightarrow> dnsHeader \<Rightarrow> question \<Rightarrow> string \<Rightarrow> string \<Rightarrow> directory \<Rightarrow> bytes option \<times> bool" where
  "respondPTR L hdr q qname domain dir =
     (case reverseIPv4 qname of
        None \<Rightarrow> (None, True)
      | Some addr \<Rightarrow>
          (case parsePrefix (d_NetworkCIDR dir) of
             None \<Rightarrow> (None, True)
           | Some prefix \<Rightarrow>
               if \<not> prefix_Contains (masked prefix) addr then (None, True)
               else if q_Type q \<noteq> TypePTR then (buildReply L hdr (Some q) RCodeSuccess [], False)
               else (respondPTR_loop L hdr q domain (addr_String4 addr) (d_Nodes dir), False)))"

definition addr_As4 :: "addr \<Rightarrow> u8 list" where
  "addr_As4 a = (case a of V4 w \<Rightarrow> ip4_bytes w | V6 _ _ \<Rightarrow> [])"

definition respondA :: "'b dnsLib \<Rightarrow> dnsHeader \<Rightarrow> question \<Rightarrow> string \<Rightarrow> directory \<Rightarrow> bytes option" where
  "respondA L hdr q label dir =
     (if CHR ''.'' \<in> set label then buildReply L hdr (Some q) RCodeNameError []
      else case nodeByLabel (d_Nodes dir) label of
             None \<Rightarrow> buildReply L hdr (Some q) RCodeNameError []
           | Some n \<Rightarrow>
               if q_Type q \<noteq> TypeA then buildReply L hdr (Some q) RCodeSuccess []
               else (case parseAddr (n_TunnelIP n) of
                       None \<Rightarrow> buildReply L hdr (Some q) RCodeServerFailure []
                     | Some addr \<Rightarrow>
                         if \<not> addr_Is4 addr then buildReply L hdr (Some q) RCodeServerFailure []
                         else buildReply L hdr (Some q) RCodeSuccess
                                [\<lparr>rs_Header = answerHeader (q_Name q) TypeA, rs_Body = AResource (addr_As4 addr)\<rparr>]))"

definition query_name :: "question \<Rightarrow> string" where
  "query_name q = toLower (trimSuffix (q_Name q) ''.'')"

definition respond :: "'b dnsLib \<Rightarrow> bytes \<Rightarrow> string \<Rightarrow> directory \<Rightarrow> bytes option \<times> bool" where
  "respond L query domain dir =
     (case dl_Start L query of
        Inl _ \<Rightarrow> (None, False)
      | Inr hdr \<Rightarrow>
          if dh_Response hdr then (None, False)
          else if dh_OpCode hdr \<noteq> 0 then (None, True)
          else (case dl_AllQuestions L query of
                  Inl _ \<Rightarrow> (buildReply L hdr None RCodeFormatError [], False)
                | Inr questions \<Rightarrow>
                    if length questions \<noteq> 1 then (buildReply L hdr None RCodeFormatError [], False)
                    else let q = questions ! 0; qname = query_name q
                         in if q_Class q \<noteq> ClassINET then (None, True)
                            else if hasSuffix qname ''.in-addr.arpa'' then respondPTR L hdr q qname domain dir
                            else if qname = domain then (buildReply L hdr (Some q) RCodeSuccess [], False)
                            else if hasSuffix qname (''.'' @ domain) then
                              (respondA L hdr q (trimSuffix qname (''.'' @ domain)) dir, False)
                            else (None, True)))"

section \<open>Upstream\<close>

definition resolvConfPath :: string where "resolvConfPath = ''/etc/resolv.conf''"

text \<open>\<open>bufio.Scanner\<close> over lines: the text up to each newline without a final carriage return, a last
  line only if it is not empty, and an error at a line that does not fit its buffer of 64 KiB.\<close>

definition dropCR :: "string \<Rightarrow> string" where
  "dropCR l = (if l \<noteq> [] \<and> last l = CR then butlast l else l)"

definition scan_lines :: "bytes \<Rightarrow> string list" where
  "scan_lines content =
     (let ls = splitOn NL content in if last ls = [] then butlast ls else ls)"

definition maxScanLine :: nat where "maxScanLine = 65535"

fun fields_loop :: "string \<Rightarrow> string \<Rightarrow> string list" where
  "fields_loop acc [] = (if acc = [] then [] else [acc])"
| "fields_loop acc (c # cs) =
     (if is_space c then (if acc = [] then fields_loop [] cs else acc # fields_loop [] cs)
      else fields_loop (acc @ [c]) cs)"

definition strings_Fields :: "string \<Rightarrow> string list" where
  "strings_Fields s = fields_loop [] s"

fun nameserver_loop :: "string list \<Rightarrow> string res" where
  "nameserver_loop [] = Inl (Err ''no nameserver entries'')"
| "nameserver_loop (l # ls) =
     (if length l > maxScanLine then Inl (Err ''bufio.Scanner: token too long'')
      else let fields = strings_Fields (dropCR l)
           in if length fields < 2 \<or> fields ! 0 \<noteq> ''nameserver'' then nameserver_loop ls
              else case net_ParseIP (fields ! 1) of
                     None \<Rightarrow> nameserver_loop ls
                   | Some _ \<Rightarrow> Inr (joinHostPort (fields ! 1) ''53''))"

definition upstreamFromResolvConf :: "bytes res \<Rightarrow> string res" where
  "upstreamFromResolvConf opened = bindR opened (\<lambda>content. nameserver_loop (scan_lines content))"

definition withDefaultPort :: "string \<Rightarrow> string" where
  "withDefaultPort a = (case splitHostPort a of None \<Rightarrow> joinHostPort a ''53'' | Some _ \<Rightarrow> a)"

section \<open>One upstream exchange\<close>

record exchangeEnv =
  ex_Dial :: "error option"
  ex_Write :: "error option"
  ex_Read :: "nat \<Rightarrow> bytes res"

text \<open>What the loop accepts: a response that carries the query's identifier.\<close>

definition accepts :: "bytes \<Rightarrow> bytes \<Rightarrow> bool" where
  "accepts query d \<longleftrightarrow>
     \<not> (length d < headerLen \<or> d ! 0 \<noteq> query ! 0 \<or> d ! 1 \<noteq> query ! 1 \<or> byte_at d 2 AND qrBit = 0)"

text \<open>The loop reads until a datagram is accepted or a read fails, as every read does once the
  deadline has passed. \<open>None\<close> is a loop that does not end, \<open>Some None\<close> the \<open>nil\<close> reply.\<close>

partial_function (option) exchange_loop :: "(nat \<Rightarrow> bytes res) \<Rightarrow> bytes \<Rightarrow> nat \<Rightarrow> bytes option option" where
  "exchange_loop rd query i =
     (case rd i of
        Inl _ \<Rightarrow> Some None
      | Inr d \<Rightarrow>
          if \<not> accepts query (take 4096 d) then exchange_loop rd query (Suc i)
          else Some (Some (take 4096 d)))"

definition exchange :: "exchangeEnv \<Rightarrow> bytes \<Rightarrow> bytes option option" where
  "exchange X query =
     (if ex_Dial X \<noteq> None then Some None
      else if ex_Write X \<noteq> None then Some None
      else exchange_loop (ex_Read X) query 0)"

definition forward_reply :: "exchangeEnv \<Rightarrow> bytes \<Rightarrow> bytes option option" where
  "forward_reply X query =
     (case exchange X query of
        None \<Rightarrow> None
      | Some (Some reply) \<Rightarrow> Some (Some reply)
      | Some None \<Rightarrow> Some (servfailFor query))"

section \<open>The server\<close>

record dnsConfig =
  dc_Addr :: string
  dc_Domain :: string
  dc_Upstream :: string
  dc_Timeout :: duration

definition maxForwards :: nat where "maxForwards = 256"

text \<open>\<open>sv_sem\<close> holds the queries that have a slot of the semaphore, in the order they took it, and
  \<open>sv_sent\<close> what was handed to the socket, newest first. \<open>sv_serving\<close> is that \<open>serve\<close> has not returned.\<close>

record 'c server =
  sv_cfg :: dnsConfig
  sv_upstream :: string
  sv_sem :: "(bytes \<times> 'c) list"
  sv_closed :: bool
  sv_serving :: bool
  sv_sent :: "(bytes \<times> 'c) list"

record netEnv =
  ne_ResolveUDPAddr :: "string \<Rightarrow> string res"
  ne_ListenUDP :: "string \<Rightarrow> error option"

definition dnsserve_Start :: "netEnv \<Rightarrow> dnsConfig \<Rightarrow> 'c server res" where
  "dnsserve_Start N cfg =
     (if dc_Domain cfg = [] then Inl (Err ''dnsserve: empty domain'')
      else let cfg = (if dc_Timeout cfg \<le> 0 then cfg\<lparr>dc_Timeout := 5 * second\<rparr> else cfg)
           in bindR (wrapR ''resolve upstream'' (ne_ResolveUDPAddr N (withDefaultPort (dc_Upstream cfg)))) (\<lambda>upstream.
              bindR (wrapR ''resolve listen address'' (ne_ResolveUDPAddr N (dc_Addr cfg))) (\<lambda>laddr.
              if upstream = laddr then Inl (Err ''upstream is the listener itself; configure [dns] upstream'')
              else case ne_ListenUDP N laddr of
                     Some e \<Rightarrow> Inl e
                   | None \<Rightarrow> Inr \<lparr>sv_cfg = cfg, sv_upstream = upstream, sv_sem = [], sv_closed = False,
                                  sv_serving = True, sv_sent = []\<rparr>)))"

definition server_Close :: "'c server \<Rightarrow> 'c server" where
  "server_Close s = s\<lparr>sv_closed := True\<rparr>"

text \<open>One turn of the loop of \<open>serve\<close>, on a datagram and on a failed read.\<close>

definition serve_packet :: "'b dnsLib \<Rightarrow> directory \<Rightarrow> bytes \<Rightarrow> 'c \<Rightarrow> 'c server \<Rightarrow> 'c server" where
  "serve_packet L dir packet client s =
     (let query = take 1500 packet
      in case respond L query (dc_Domain (sv_cfg s)) dir of
           (reply, True) \<Rightarrow>
             if length (sv_sem s) < maxForwards then s\<lparr>sv_sem := sv_sem s @ [(query, client)]\<rparr> else s
         | (Some reply, False) \<Rightarrow> s\<lparr>sv_sent := (reply, client) # sv_sent s\<rparr>
         | (None, False) \<Rightarrow> s)"

definition serve_error :: "'c server \<Rightarrow> 'c server" where
  "serve_error s = (if sv_closed s then s\<lparr>sv_serving := False\<rparr> else s)"

text \<open>The goroutine of \<open>forward\<close> for the \<open>i\<close>-th slot, run to its end.\<close>

definition server_forward :: "exchangeEnv \<Rightarrow> nat \<Rightarrow> 'c server \<Rightarrow> 'c server" where
  "server_forward X i s =
     (if i < length (sv_sem s) then
        (let (query, client) = sv_sem s ! i;
             rest = take i (sv_sem s) @ drop (Suc i) (sv_sem s)
         in case forward_reply X query of
              None \<Rightarrow> s
            | Some None \<Rightarrow> s\<lparr>sv_sem := rest\<rparr>
            | Some (Some reply) \<Rightarrow> s\<lparr>sv_sem := rest, sv_sent := (reply, client) # sv_sent s\<rparr>)
      else s)"

datatype 'c serverEvent =
    Packet directory bytes 'c
  | ReadError
  | ForwardDone exchangeEnv nat
  | CloseCall

fun server_step :: "'b dnsLib \<Rightarrow> 'c serverEvent \<Rightarrow> 'c server \<Rightarrow> 'c server" where
  "server_step L (Packet dir packet client) s = (if sv_serving s then serve_packet L dir packet client s else s)"
| "server_step L ReadError s = (if sv_serving s then serve_error s else s)"
| "server_step L (ForwardDone X i) s = server_forward X i s"
| "server_step L CloseCall s = server_Close s"

section \<open>The probe\<close>

definition Probe :: "'b dnsLib \<Rightarrow> exchangeEnv \<Rightarrow> string \<Rightarrow> bool" where
  "Probe L X domain =
     (case dl_NewName L (domain @ ''.'') of
        Inl _ \<Rightarrow> False
      | Inr name \<Rightarrow>
          (case bindR (dl_StartQuestions L (dl_NewBuilder L (zero_dnsHeader\<lparr>dh_ID := 0x7c54, dh_RecursionDesired := True\<rparr>)))
                  (\<lambda>b. bindR (dl_Question L \<lparr>q_Name = name, q_Type = TypeA, q_Class = ClassINET\<rparr> b) (dl_Finish L)) of
             Inl _ \<Rightarrow> False
           | Inr query \<Rightarrow>
               if ex_Dial X \<noteq> None \<or> ex_Write X \<noteq> None then False
               else (case ex_Read X 0 of
                       Inl _ \<Rightarrow> False
                     | Inr d \<Rightarrow> accepts query (take 512 d))))"

section \<open>Lookups\<close>

lemma nodeByLabel_Some:
  assumes "distinct (map (toLower \<circ> n_Name) ns)" and "n \<in> set ns" and "toLower (n_Name n) = toLower label"
  shows "nodeByLabel ns label = Some n"
  using assms
proof (induction ns)
  case (Cons m ns)
  show ?case
  proof (cases "m = n")
    case False
    then have "n \<in> set ns" using Cons.prems(2) by auto
    then have "toLower (n_Name m) \<noteq> toLower (n_Name n)" using Cons.prems(1) by (auto simp: image_iff)
    with Cons \<open>n \<in> set ns\<close> show ?thesis by (simp add: equalFold_def)
  qed (use Cons.prems in \<open>simp add: equalFold_def\<close>)
qed simp

lemma nodeByLabel_None: "nodeByLabel ns label = None \<longleftrightarrow> (\<forall>n \<in> set ns. toLower (n_Name n) \<noteq> toLower label)"
  by (induction ns) (auto simp: equalFold_def)

lemma respondPTR_loop_hit:
  assumes "distinct (map n_TunnelIP ns)" and "n \<in> set ns" and "dl_NewName L (toLower (n_Name n) @ ''.'' @ domain @ ''.'') = Inr t"
  shows "respondPTR_loop L hdr q domain (n_TunnelIP n) ns =
    buildReply L hdr (Some q) RCodeSuccess [\<lparr>rs_Header = answerHeader (q_Name q) TypePTR, rs_Body = PTRResource t\<rparr>]"
  using assms
proof (induction ns)
  case (Cons m ns)
  show ?case
  proof (cases "m = n")
    case False
    then have "n \<in> set ns" using Cons.prems(2) by auto
    then have "n_TunnelIP m \<noteq> n_TunnelIP n" using Cons.prems(1) by (auto simp: image_iff)
    with Cons \<open>n \<in> set ns\<close> show ?thesis by simp
  qed (use Cons.prems in simp)
qed simp

lemma respondPTR_loop_miss:
  "addr \<notin> n_TunnelIP ` set ns \<Longrightarrow> respondPTR_loop L hdr q domain addr ns = buildReply L hdr (Some q) RCodeNameError []"
  by (induction ns) auto

text \<open>The name under which the address \<open>w\<close> is looked up.\<close>

definition reverse_name :: "u32 \<Rightarrow> string" where
  "reverse_name w = joinWith ''.'' (rev (map (\<lambda>b. decimal (unat b)) (ip4_bytes w))) @ ''.in-addr.arpa''"

lemma octets_of_name:
  assumes "length parts = 4" and "\<forall>p \<in> set parts. CHR ''.'' \<notin> set p"
  shows "parseAddr (parts ! 3 @ ''.'' @ parts ! 2 @ ''.'' @ parts ! 1 @ ''.'' @ parts ! 0) = Some (V4 w) \<longleftrightarrow>
    parts = rev (map (\<lambda>b. decimal (unat b)) (ip4_bytes w))"
proof -
  obtain a b c d where parts: "parts = [a, b, c, d]" using assms(1) by (auto simp: length_Suc_conv numeral_eq_Suc)
  let ?o = "map (\<lambda>b. decimal (unat b)) (ip4_bytes w)"
  have s: "splitOn (CHR ''.'') (joinWith ''.'' [d, c, b, a]) = [d, c, b, a]"
    using assms(2) by (intro splitOn_joinWith) (auto simp: parts)
  have "d @ ''.'' @ c @ ''.'' @ b @ ''.'' @ a = ip4_String w \<longleftrightarrow> joinWith ''.'' [d, c, b, a] = joinWith ''.'' ?o"
    by (simp add: ip4_String_def)
  also have "\<dots> \<longleftrightarrow> [d, c, b, a] = ?o"
  proof
    assume "joinWith ''.'' [d, c, b, a] = joinWith ''.'' ?o"
    from arg_cong [OF this, of "splitOn (CHR ''.'')"] show "[d, c, b, a] = ?o"
      unfolding s splitOn_ip4_String [unfolded ip4_String_def] .
  qed (simp only:)
  also have "\<dots> \<longleftrightarrow> parts = rev ?o" unfolding parts by (metis rev_rev_ident rev.simps append.simps)
  finally show ?thesis by (simp add: parseAddr_V4 parts numeral_eq_Suc)
qed

lemma reverseIPv4_Some:
  "reverseIPv4 (r @ ''.in-addr.arpa'') = Some a \<longleftrightarrow> (\<exists>w. a = V4 w \<and> r @ ''.in-addr.arpa'' = reverse_name w)"
proof -
  let ?parts = "splitOn (CHR ''.'') r"
  let ?o = "\<lambda>w. rev (map (\<lambda>b. decimal (unat b)) (ip4_bytes w))"
  have nodot: "\<forall>p \<in> set ?parts. CHR ''.'' \<notin> set p" by (blast dest: splitOn_no_sep)
  have split: "?parts = ?o w \<longleftrightarrow> r = joinWith ''.'' (?o w)" for w
  proof
    show "?parts = ?o w \<Longrightarrow> r = joinWith ''.'' (?o w)" by (metis joinWith_splitOn)
    have "\<forall>p \<in> set (?o w). CHR ''.'' \<notin> set p" by (auto simp: is_digit_not_in is_digit_def)
    then show "r = joinWith ''.'' (?o w) \<Longrightarrow> ?parts = ?o w"
      using splitOn_joinWith [of "?o w" "CHR ''.''"] by (simp add: ip4_bytes_def)
  qed
  have "reverseIPv4 (r @ ''.in-addr.arpa'') = Some a \<longleftrightarrow> length ?parts = 4 \<and> (\<exists>w. a = V4 w \<and>
      parseAddr (?parts ! 3 @ ''.'' @ ?parts ! 2 @ ''.'' @ ?parts ! 1 @ ''.'' @ ?parts ! 0) = Some (V4 w))"
    by (auto simp: reverseIPv4_def Let_def addr_Is4_iff split: option.splits if_splits)
  also have "\<dots> \<longleftrightarrow> (\<exists>w. a = V4 w \<and> ?parts = ?o w)"
  proof
    assume "length ?parts = 4 \<and> (\<exists>w. a = V4 w \<and>
      parseAddr (?parts ! 3 @ ''.'' @ ?parts ! 2 @ ''.'' @ ?parts ! 1 @ ''.'' @ ?parts ! 0) = Some (V4 w))"
    then show "\<exists>w. a = V4 w \<and> ?parts = ?o w" using octets_of_name [OF _ nodot] by blast
  next
    assume "\<exists>w. a = V4 w \<and> ?parts = ?o w"
    then obtain w where w: "a = V4 w" "?parts = ?o w" by blast
    then have len: "length ?parts = 4" by simp
    with w show "length ?parts = 4 \<and> (\<exists>w. a = V4 w \<and>
      parseAddr (?parts ! 3 @ ''.'' @ ?parts ! 2 @ ''.'' @ ?parts ! 1 @ ''.'' @ ?parts ! 0) = Some (V4 w))"
      using octets_of_name [OF len nodot, of w] by blast
  qed
  finally show ?thesis by (simp add: split reverse_name_def)
qed

lemma reverseIPv4_name [simp]: "reverseIPv4 (reverse_name w) = Some (V4 w)"
  using reverseIPv4_Some [of "joinWith ''.'' (rev (map (\<lambda>b. decimal (unat b)) (ip4_bytes w)))" "V4 w"]
  by (simp add: reverse_name_def)

section \<open>Bytes of a reply\<close>

lemma byte_char_code [simp]: "code (byte_char w) = unat w"
  using unsigned_less [of w, where ?'a = nat] by (simp add: byte_char_def)

lemma byte_of_unat: "(of_nat (unat w) :: u8) = w"
  by simp

lemma servfail_bytes:
  assumes "servfailFor query = Some out"
  shows "length out = length query" and "headerLen \<le> length query"
    and "i \<noteq> 2 \<Longrightarrow> i \<noteq> 3 \<Longrightarrow> out ! i = query ! i"
    and "byte_at out 2 = (byte_at query 2 OR 0x80) AND NOT 0x04"
    and "byte_at out 3 = (byte_at query 3 AND NOT 0x0f) OR 0x82"
proof -
  have len: "headerLen \<le> length query" using assms by (auto simp: servfailFor_def split: if_splits)
  then show "headerLen \<le> length query" .
  have out: "out = query[2 := byte_char ((byte_at query 2 OR qrBit) AND NOT 0x04),
      3 := byte_char ((byte_at query 3 AND NOT 0x0f) OR 0x80 OR 0x02)]"
    using assms by (auto simp: servfailFor_def Let_def split: if_splits)
  show "length out = length query" by (simp add: out)
  show "i \<noteq> 2 \<Longrightarrow> i \<noteq> 3 \<Longrightarrow> out ! i = query ! i" by (simp add: out)
  show "byte_at out 2 = (byte_at query 2 OR 0x80) AND NOT 0x04"
    using len by (simp add: out byte_at_def qrBit_def headerLen_def)
  have "(0x80 OR 0x02 :: u8) = 0x82" by code_simp
  then show "byte_at out 3 = (byte_at query 3 AND NOT 0x0f) OR 0x82"
    using len by (simp add: out byte_at_def headerLen_def)
qed

lemma servfail_accepted: "servfailFor query = Some out \<Longrightarrow> accepts query out"
proof -
  assume s: "servfailFor query = Some out"
  have "bit (byte_at out 2) 7" unfolding servfail_bytes(4) [OF s] by (simp add: bit_simps)
  then have "bit (byte_at out 2 AND qrBit) 7" by (simp add: bit_simps qrBit_def)
  then have "byte_at out 2 AND qrBit \<noteq> 0" by (auto simp del: bit_and_iff)
  then show ?thesis
    using servfail_bytes(1,2) [OF s] servfail_bytes(3) [OF s, of 0] servfail_bytes(3) [OF s, of 1] by (simp add: accepts_def)
qed

section \<open>The exchange ends\<close>

lemma exchange_loop_upto:
  assumes "rd n = Inl e" and "i \<le> n"
  shows "\<exists>j. i \<le> j \<and> j \<le> n \<and> (\<forall>k. i \<le> k \<and> k < j \<longrightarrow> (\<exists>d. rd k = Inr d \<and> \<not> accepts query (take 4096 d))) \<and>
    (case rd j of Inl _ \<Rightarrow> exchange_loop rd query i = Some None
     | Inr d \<Rightarrow> accepts query (take 4096 d) \<and> exchange_loop rd query i = Some (Some (take 4096 d)))"
  using assms
proof (induction "n - i" arbitrary: i)
  case 0
  then have "i = n" by simp
  with 0 show ?case by (intro exI [of _ n]) (auto simp: exchange_loop.simps)
next
  case (Suc m)
  show ?case
  proof (cases "\<exists>d. rd i = Inr d \<and> \<not> accepts query (take 4096 d)")
    case True
    then obtain d where d: "rd i = Inr d" "\<not> accepts query (take 4096 d)" by blast
    then have step: "exchange_loop rd query i = exchange_loop rd query (Suc i)" by (subst exchange_loop.simps) simp
    have "m = n - Suc i" "Suc i \<le> n" using Suc.hyps(2) Suc.prems by auto
    from Suc.hyps(1) [OF this(1) Suc.prems(1) this(2)]
    obtain j where j: "Suc i \<le> j" "j \<le> n"
      "\<forall>k. Suc i \<le> k \<and> k < j \<longrightarrow> (\<exists>d. rd k = Inr d \<and> \<not> accepts query (take 4096 d))"
      "case rd j of Inl _ \<Rightarrow> exchange_loop rd query i = Some None
       | Inr d \<Rightarrow> accepts query (take 4096 d) \<and> exchange_loop rd query i = Some (Some (take 4096 d))"
      unfolding step by blast
    then have "\<forall>k. i \<le> k \<and> k < j \<longrightarrow> (\<exists>d. rd k = Inr d \<and> \<not> accepts query (take 4096 d))"
      using d by (metis le_antisym not_less_eq_eq)
    with j show ?thesis by (intro exI [of _ j]) auto
  next
    case False
    then show ?thesis
      using Suc.prems by (intro exI [of _ i]) (auto simp: exchange_loop.simps split: sum.splits)
  qed
qed

section \<open>Which queries are the server's own\<close>

text \<open>A query as every stub resolver sends it: one question in the Internet class.\<close>

definition plain_question :: "'b dnsLib \<Rightarrow> bytes \<Rightarrow> dnsHeader \<Rightarrow> question \<Rightarrow> bool" where
  "plain_question L query hdr q \<longleftrightarrow>
     dl_Start L query = Inr hdr \<and> \<not> dh_Response hdr \<and> dh_OpCode hdr = 0 \<and>
     dl_AllQuestions L query = Inr [q] \<and> q_Class q = ClassINET"

definition off_reverse_tree :: "string \<Rightarrow> bool" where
  "off_reverse_tree domain \<longleftrightarrow>
     \<not> hasSuffix (''.'' @ domain) ''.in-addr.arpa'' \<and> \<not> hasSuffix ''.in-addr.arpa'' (''.'' @ domain)"

definition under_domain :: "string \<Rightarrow> string \<Rightarrow> bool" where
  "under_domain domain name \<longleftrightarrow> name = domain \<or> hasSuffix name (''.'' @ domain)"

lemma respond_plain:
  assumes "plain_question L query hdr q"
  shows "respond L query domain dir =
    (if hasSuffix (query_name q) ''.in-addr.arpa'' then respondPTR L hdr q (query_name q) domain dir
     else if query_name q = domain then (buildReply L hdr (Some q) RCodeSuccess [], False)
     else if hasSuffix (query_name q) (''.'' @ domain) then
       (respondA L hdr q (trimSuffix (query_name q) (''.'' @ domain)) dir, False)
     else (None, True))"
  using assms by (simp add: plain_question_def respond_def Let_def)

lemma suffix_overlap: "hasSuffix s a \<Longrightarrow> hasSuffix s b \<Longrightarrow> hasSuffix a b \<or> hasSuffix b a"
  unfolding hasSuffix_iff by (auto simp: append_eq_append_conv2)

lemma hasSuffix_Cons: "hasSuffix s p \<Longrightarrow> hasSuffix (c # s) p"
  unfolding hasSuffix_iff by (metis append_Cons)

lemma under_domain_forward:
  assumes "off_reverse_tree domain" and "under_domain domain name"
  shows "\<not> hasSuffix name ''.in-addr.arpa''"
  using assms hasSuffix_Cons [of name "''.in-addr.arpa''" "CHR ''.''"] suffix_overlap [of name "''.in-addr.arpa''" "''.'' @ domain"]
  unfolding off_reverse_tree_def under_domain_def by auto

lemma under_domain_kept:
  assumes "plain_question L query hdr q" and "off_reverse_tree domain" and "under_domain domain (query_name q)"
  shows "\<not> snd (respond L query domain dir)"
  using under_domain_forward [OF assms(2,3)] assms(3) by (auto simp: respond_plain [OF assms(1)] under_domain_def)

lemma member_label:
  assumes "directory_ok W A dir" and "d_Domain dir \<noteq> []" and "n \<in> set (d_Nodes dir)" and "toLower (n_Name n) = label"
  shows "CHR ''.'' \<notin> set label" and "nodeByLabel (d_Nodes dir) label = Some n"
proof -
  obtain p where "node_ok W A (d_Domain dir) p n" using assms(1,3) by (auto simp: directory_ok_def list_all_iff)
  then have "list_all label_char (n_Name n)" using assms(2) by (simp add: node_ok_def ValidateLabel_ok)
  moreover have "lowerC c \<noteq> CHR ''.''" if "label_char c" for c
  proof
    assume "lowerC c = CHR ''.''"
    then have k: "code (lowerC c) = 46" by simp
    from that k [unfolded code_lowerC] show False
      by (auto simp: label_char_def is_lower_def is_upper_def is_digit_def split: if_splits)
  qed
  ultimately have "lowerC c \<noteq> CHR ''.''" if "c \<in> set (n_Name n)" for c using that unfolding list_all_iff by blast
  then have "CHR ''.'' \<notin> lowerC ` set (n_Name n)" by (metis imageE)
  then show "CHR ''.'' \<notin> set label" unfolding assms(4) [symmetric] toLower_def set_map .
  show "nodeByLabel (d_Nodes dir) label = Some n"
    using assms by (intro nodeByLabel_Some) (auto simp: directory_ok_def)
qed

lemma respondA_member:
  assumes "directory_ok W A dir" and "d_Domain dir \<noteq> []" and "n \<in> set (d_Nodes dir)" and "toLower (n_Name n) = label"
    and "n_TunnelIP n = ip4_String w" and "q_Type q = TypeA"
  shows "respondA L hdr q label dir = buildReply L hdr (Some q) RCodeSuccess
    [\<lparr>rs_Header = answerHeader (q_Name q) TypeA, rs_Body = AResource (ip4_bytes w)\<rparr>]"
  using member_label [OF assms(1-4)] by (simp add: respondA_def assms(5,6) addr_As4_def)

lemma respondA_member_other:
  assumes "directory_ok W A dir" and "d_Domain dir \<noteq> []" and "n \<in> set (d_Nodes dir)" and "toLower (n_Name n) = label"
    and "q_Type q \<noteq> TypeA"
  shows "respondA L hdr q label dir = buildReply L hdr (Some q) RCodeSuccess []"
  using member_label [OF assms(1-4)] by (simp add: respondA_def assms(5))

lemma respondA_stranger:
  assumes "\<forall>n \<in> set (d_Nodes dir). toLower (n_Name n) \<noteq> label" and "toLower label = label"
  shows "respondA L hdr q label dir = buildReply L hdr (Some q) RCodeNameError []"
proof -
  have "nodeByLabel (d_Nodes dir) label = None" using assms by (simp add: nodeByLabel_None)
  then show ?thesis by (simp add: respondA_def)
qed

lemma respond_label:
  assumes "plain_question L query hdr q" and "off_reverse_tree domain" and "query_name q = label @ ''.'' @ domain"
  shows "respond L query domain dir = (respondA L hdr q label dir, False)"
proof -
  have "under_domain domain (query_name q)" by (simp add: under_domain_def assms(3) del: append.simps)
  from under_domain_forward [OF assms(2) this] have r: "\<not> hasSuffix (query_name q) ''.in-addr.arpa''" .
  have "query_name q \<noteq> domain" using arg_cong [of "query_name q" domain length] assms(3) by auto
  moreover have "hasSuffix (query_name q) (''.'' @ domain)" "trimSuffix (query_name q) (''.'' @ domain) = label"
    unfolding assms(3) by (rule hasSuffix_append, rule trimSuffix_append)
  ultimately show ?thesis by (simp only: respond_plain [OF assms(1)] r if_False if_True)
qed

lemma member_address:
  "directory_ok W A dir \<Longrightarrow> n \<in> set (d_Nodes dir) \<Longrightarrow> parsePrefix (d_NetworkCIDR dir) = Some p \<Longrightarrow>
     \<exists>w. n_TunnelIP n = ip4_String w \<and> prefix_Contains (masked p) (V4 w)"
  by (auto simp: directory_ok_def list_all_iff node_ok_def)

text \<open>What the directory says about a name at or under the domain: the domain itself exists and has no records; a member's name has
  the member's tunnel address and no other record; any other name does not exist.\<close>

definition vpn_answer :: "directory \<Rightarrow> string \<Rightarrow> question \<Rightarrow> u16 \<Rightarrow> resource list \<Rightarrow> bool" where
  "vpn_answer dir domain q rcode answers \<longleftrightarrow>
     (let owners = filter (\<lambda>n. toLower (n_Name n) @ ''.'' @ domain = query_name q) (d_Nodes dir) in
       if query_name q = domain then rcode = RCodeSuccess \<and> answers = []
       else if owners = [] then rcode = RCodeNameError \<and> answers = []
       else rcode = RCodeSuccess \<and>
         (if q_Type q = TypeA
          then \<exists>n w. n \<in> set owners \<and> n_TunnelIP n = ip4_String w \<and>
            answers = [\<lparr>rs_Header = answerHeader (q_Name q) TypeA, rs_Body = AResource (ip4_bytes w)\<rparr>]
          else answers = []))"

lemma respond_under_domain:
  assumes ok: "directory_ok W A dir" and d: "d_Domain dir \<noteq> []"
    and p: "plain_question L query hdr q" and o: "off_reverse_tree domain" and u: "under_domain domain (query_name q)"
  shows "\<exists>rcode answers. vpn_answer dir domain q rcode answers \<and>
    respond L query domain dir = (buildReply L hdr (Some q) rcode answers, False)"
proof (cases "query_name q = domain")
  case True
  then show ?thesis using under_domain_forward [OF o u] by (simp add: respond_plain [OF p] vpn_answer_def)
next
  case False
  then obtain label where l: "query_name q = label @ ''.'' @ domain"
    using u by (auto simp: under_domain_def hasSuffix_iff)
  note r = respond_label [OF p o l]
  have own: "n \<in> set (filter (\<lambda>n. toLower (n_Name n) @ ''.'' @ domain = query_name q) (d_Nodes dir)) \<longleftrightarrow>
      n \<in> set (d_Nodes dir) \<and> toLower (n_Name n) = label" for n
    by (simp add: l)
  show ?thesis
  proof (cases "\<exists>n \<in> set (d_Nodes dir). toLower (n_Name n) = label")
    case True
    then obtain n where n: "n \<in> set (d_Nodes dir)" "toLower (n_Name n) = label" by blast
    then have ne: "filter (\<lambda>n. toLower (n_Name n) @ ''.'' @ domain = query_name q) (d_Nodes dir) \<noteq> []"
      using own by (metis empty_iff empty_set)
    obtain pr where "parsePrefix (d_NetworkCIDR dir) = Some pr" using ok by (auto simp: directory_ok_def)
    from member_address [OF ok n(1) this] obtain w where w: "n_TunnelIP n = ip4_String w" by blast
    show ?thesis
    proof (cases "q_Type q = TypeA")
      case True
      have "vpn_answer dir domain q RCodeSuccess [\<lparr>rs_Header = answerHeader (q_Name q) TypeA, rs_Body = AResource (ip4_bytes w)\<rparr>]"
        unfolding vpn_answer_def Let_def using True False ne own n w by (simp only: if_False if_True simp_thms) blast
      then show ?thesis unfolding r respondA_member [OF ok d n w True] by blast
    next
      case other: False
      have "vpn_answer dir domain q RCodeSuccess []" unfolding vpn_answer_def Let_def using other False ne by simp
      then show ?thesis unfolding r respondA_member_other [OF ok d n other] by blast
    qed
  next
    case none: False
    have "toLower (query_name q) = query_name q" by (simp add: query_name_def)
    then have "toLower label = label" by (simp add: l)
    moreover have "filter (\<lambda>n. toLower (n_Name n) @ ''.'' @ domain = query_name q) (d_Nodes dir) = []"
      using none own by (auto simp: filter_empty_conv)
    ultimately have "vpn_answer dir domain q RCodeNameError []" "respondA L hdr q label dir = buildReply L hdr (Some q) RCodeNameError []"
      using none False by (simp_all add: vpn_answer_def respondA_stranger)
    then show ?thesis unfolding r by metis
  qed
qed

lemma respond_reverse:
  assumes "directory_ok W A dir" and "n \<in> set (d_Nodes dir)" and "n_TunnelIP n = ip4_String w"
    and "plain_question L query hdr q" and "query_name q = reverse_name w" and "q_Type q = TypePTR"
    and "dl_NewName L (toLower (n_Name n) @ ''.'' @ domain @ ''.'') = Inr t"
  shows "respond L query domain dir =
    (buildReply L hdr (Some q) RCodeSuccess [\<lparr>rs_Header = answerHeader (q_Name q) TypePTR, rs_Body = PTRResource t\<rparr>], False)"
proof -
  obtain p where p: "parsePrefix (d_NetworkCIDR dir) = Some p" using assms(1) by (auto simp: directory_ok_def)
  with member_address [OF assms(1,2)] assms(3) have c: "prefix_Contains (masked p) (V4 w)" by auto
  have s: "hasSuffix (reverse_name w) ''.in-addr.arpa''" unfolding reverse_name_def by (rule hasSuffix_append)
  have "respondPTR_loop L hdr q domain (ip4_String w) (d_Nodes dir) =
      buildReply L hdr (Some q) RCodeSuccess [\<lparr>rs_Header = answerHeader (q_Name q) TypePTR, rs_Body = PTRResource t\<rparr>]"
    using respondPTR_loop_hit [OF _ assms(2,7), of hdr q] assms(1) by (simp add: directory_ok_def assms(3))
  then show ?thesis
    by (simp add: respond_plain [OF assms(4)] assms(5,6) s respondPTR_def p c addr_String4_def)
qed

section \<open>The invariant of the server\<close>

definition sem_ok :: "'b dnsLib \<Rightarrow> string \<Rightarrow> 'c server \<Rightarrow> bool" where
  "sem_ok L domain s \<longleftrightarrow>
     dc_Domain (sv_cfg s) = domain \<and> length (sv_sem s) \<le> maxForwards \<and>
     list_all (\<lambda>(query, _). \<exists>dir. snd (respond L query domain dir)) (sv_sem s)"

lemma serve_packet_sem: "sem_ok L domain s \<Longrightarrow> sem_ok L domain (serve_packet L dir packet client s)"
proof -
  assume s: "sem_ok L domain s"
  obtain r f where r: "respond L (take 1500 packet) domain dir = (r, f)" by fastforce
  then have "f \<Longrightarrow> \<exists>dir. snd (respond L (take 1500 packet) domain dir)" by (metis snd_conv)
  with s r show ?thesis by (cases r; cases f) (simp_all add: serve_packet_def sem_ok_def Let_def)
qed

lemma server_forward_sem: "sem_ok L domain s \<Longrightarrow> sem_ok L domain (server_forward X i s)"
proof -
  assume s: "sem_ok L domain s"
  let ?rest = "take i (sv_sem s) @ drop (Suc i) (sv_sem s)"
  have "set ?rest \<subseteq> set (sv_sem s)" using set_take_subset [of i "sv_sem s"] set_drop_subset [of "Suc i" "sv_sem s"] by auto
  moreover have "length ?rest \<le> length (sv_sem s)" by simp
  ultimately have "sem_ok L domain (s\<lparr>sv_sem := ?rest, sv_sent := y\<rparr>)" "sem_ok L domain (s\<lparr>sv_sem := ?rest\<rparr>)" for y
    using s by (auto simp: sem_ok_def list_all_iff)
  with s show ?thesis by (auto simp: server_forward_def Let_def split: prod.splits option.splits)
qed

lemma sem_ok_flags [simp]:
  "sem_ok L domain (s\<lparr>sv_serving := b\<rparr>) = sem_ok L domain s"
  "sem_ok L domain (s\<lparr>sv_closed := b\<rparr>) = sem_ok L domain s"
  by (simp_all add: sem_ok_def)

lemma server_step_sem: "sem_ok L domain s \<Longrightarrow> sem_ok L domain (server_step L e s)"
  by (cases e) (auto simp: serve_packet_sem server_forward_sem serve_error_def server_Close_def)

interpretation server: event_machine "server_step L" "sem_ok L domain" "\<lambda>_. True"
  by unfold_locales (rule server_step_sem)

lemma Start_sem: "dnsserve_Start N cfg = Inr s \<Longrightarrow> sem_ok L (dc_Domain cfg) s"
  by (auto simp: dnsserve_Start_def sem_ok_def Let_def split: if_splits option.splits)

section \<open>Properties\<close>

text \<open>A query always has a header: what \<open>dnsmessage.Parser.Start\<close> accepts is 12 bytes long at least.\<close>

definition dns_ok :: "'b dnsLib \<Rightarrow> bool" where
  "dns_ok L \<longleftrightarrow> (\<forall>b h. dl_Start L b = Inr h \<longrightarrow> headerLen \<le> length b)"

text \<open>A codec for examples: the name follows the header, the type is its last byte.\<close>

definition demo_dns :: "bytes dnsLib" where
  "demo_dns =
     \<lparr>dl_Start = (\<lambda>b. if length b < 12 then Inl (Err ''short'') else Inr zero_dnsHeader),
      dl_AllQuestions = (\<lambda>b. Inr [\<lparr>q_Name = drop 12 b, q_Type = of_nat (code (b ! 11)), q_Class = 1\<rparr>]),
      dl_NewName = Inr, dl_NewBuilder = (\<lambda>h. replicate 12 (CHR 0x80)), dl_EnableCompression = id,
      dl_StartQuestions = Inr, dl_Question = (\<lambda>q b. Inr (b @ q_Name q)), dl_StartAnswers = Inr,
      dl_AResource = (\<lambda>h a b. Inr (b @ map byte_char a)), dl_PTRResource = (\<lambda>h t b. Inr (b @ t)),
      dl_Finish = Inr\<rparr>"

definition demo_query :: "u8 \<Rightarrow> string \<Rightarrow> bytes" where
  "demo_query t name = replicate 11 (CHR 0x00) @ [byte_char t] @ name"

lemma demo_plain:
  "unat t < 128 \<Longrightarrow> plain_question demo_dns (demo_query t name) zero_dnsHeader
     \<lparr>q_Name = name, q_Type = of_nat (unat t), q_Class = ClassINET\<rparr>"
  by (simp add: plain_question_def demo_dns_def demo_query_def zero_dnsHeader_def ClassINET_def nth_append)

text \<open>C13: what the clients ask about the network stays in the network, for a domain that does not lie in the reverse tree (there the
  code forwards). In every state that a started server can reach, at most 256 queries are on their way to the upstream resolver,
  and none of them is a question for the VPN's domain or a name under it. Such a question, when it arrives, is answered from the
  directory then in force (a valid one with a domain): the only effect is one reply to the client, with the code and the records
  that the directory gives the name (none if the message library cannot build the reply).\<close>

theorem vpn_names_stay_local:
  assumes "dnsserve_Start N cfg = Inr s" and "off_reverse_tree (dc_Domain cfg)"
  shows "length (sv_sem (run (server_step L) es s)) \<le> 256 \<and>
    (\<forall>query client hdr q. (query, client) \<in> set (sv_sem (run (server_step L) es s)) \<and> plain_question L query hdr q \<longrightarrow>
       \<not> under_domain (dc_Domain cfg) (query_name q)) \<and>
    (\<forall>W A dir packet client hdr q. sv_serving (run (server_step L) es s) \<and> Validate W A dir = Inr () \<and> d_Domain dir \<noteq> [] \<and>
       plain_question L (take 1500 packet) hdr q \<and> under_domain (dc_Domain cfg) (query_name q) \<longrightarrow>
       (\<exists>rcode answers. vpn_answer dir (dc_Domain cfg) q rcode answers \<and>
          server_step L (Packet dir packet client) (run (server_step L) es s) =
            (run (server_step L) es s)\<lparr>sv_sent :=
               (case buildReply L hdr (Some q) rcode answers of None \<Rightarrow> [] | Some reply \<Rightarrow> [(reply, client)]) @
               sv_sent (run (server_step L) es s)\<rparr>))"
proof -
  let ?t = "run (server_step L) es s"
  have t: "sem_ok L (dc_Domain cfg) ?t"
    by (rule server.run_inv [OF Start_sem [OF assms(1)]]) (simp add: list_all_iff)
  then have len: "length (sv_sem ?t) \<le> 256" and dom: "dc_Domain (sv_cfg ?t) = dc_Domain cfg"
    by (simp_all add: sem_ok_def maxForwards_def)
  have fwd: "\<not> under_domain (dc_Domain cfg) (query_name q)"
    if "(query, client) \<in> set (sv_sem ?t)" "plain_question L query hdr q" for query client hdr q
  proof -
    have "\<exists>dir. snd (respond L query (dc_Domain cfg) dir)" using t that(1) by (auto simp: sem_ok_def list_all_iff)
    then show ?thesis using under_domain_kept [OF that(2) assms(2)] by blast
  qed
  have ans: "\<exists>rcode answers. vpn_answer dir (dc_Domain cfg) q rcode answers \<and>
      server_step L (Packet dir packet client) ?t = ?t\<lparr>sv_sent :=
        (case buildReply L hdr (Some q) rcode answers of None \<Rightarrow> [] | Some reply \<Rightarrow> [(reply, client)]) @ sv_sent ?t\<rparr>"
    if q: "sv_serving ?t" "Validate W A dir = Inr ()" "d_Domain dir \<noteq> []" "plain_question L (take 1500 packet) hdr q"
      "under_domain (dc_Domain cfg) (query_name q)" for W A dir packet client hdr q
  proof -
    have "directory_ok W A dir" using q(2) by (simp add: Validate_ok)
    from respond_under_domain [OF this q(3,4) assms(2) q(5)] obtain rcode answers where a: "vpn_answer dir (dc_Domain cfg) q rcode answers"
      "respond L (take 1500 packet) (dc_Domain cfg) dir = (buildReply L hdr (Some q) rcode answers, False)" by blast
    then have "server_step L (Packet dir packet client) ?t = ?t\<lparr>sv_sent :=
        (case buildReply L hdr (Some q) rcode answers of None \<Rightarrow> [] | Some reply \<Rightarrow> [(reply, client)]) @ sv_sent ?t\<rparr>"
      using q(1) dom by (simp add: serve_packet_def split: option.splits)
    with a(1) show ?thesis by blast
  qed
  show ?thesis using len fwd ans by blast
qed

definition demo_dnsConfig :: dnsConfig where
  "demo_dnsConfig = \<lparr>dc_Addr = ''10.42.0.1:53'', dc_Domain = ''vpn'', dc_Upstream = ''9.9.9.9'', dc_Timeout = 0\<rparr>"

definition demo_net :: netEnv where
  "demo_net = \<lparr>ne_ResolveUDPAddr = Inr, ne_ListenUDP = (\<lambda>_. None)\<rparr>"

theorem vpn_names_stay_local_witness:
  "\<exists>s. dnsserve_Start demo_net demo_dnsConfig = Inr s \<and>
     (let t = run (server_step demo_dns) [Packet demo_dir (demo_query 1 ''example.org.'') ''spoke''] s in
       sv_sem t = [(demo_query 1 ''example.org.'', ''spoke'')] \<and>
       \<not> under_domain ''vpn'' (query_name \<lparr>q_Name = ''example.org.'', q_Type = 1, q_Class = ClassINET\<rparr>) \<and>
       (\<exists>rcode answers. vpn_answer demo_dir ''vpn'' \<lparr>q_Name = ''B.Vpn.'', q_Type = 1, q_Class = ClassINET\<rparr> rcode answers \<and>
          sv_sem (server_step demo_dns (Packet demo_dir (demo_query 1 ''B.Vpn.'') ''spoke'') t) = sv_sem t))"
proof -
  have w: "withDefaultPort ''9.9.9.9'' = ''9.9.9.9:53''" by code_simp
  obtain s :: "string server" where s: "dnsserve_Start demo_net demo_dnsConfig = Inr s" "sv_sem s = []" "sv_serving s"
    "dc_Domain (sv_cfg s) = ''vpn''"
    by (simp add: dnsserve_Start_def demo_net_def demo_dnsConfig_def Let_def w)
  let ?Q = "demo_query 1 ''example.org.''" and ?q = "\<lparr>q_Name = ''example.org.'', q_Type = 1, q_Class = ClassINET\<rparr>"
  let ?B = "demo_query 1 ''B.Vpn.''" and ?b = "\<lparr>q_Name = ''B.Vpn.'', q_Type = 1, q_Class = ClassINET\<rparr>"
  let ?t = "run (server_step demo_dns) [Packet demo_dir ?Q ''spoke''] s"
  have p: "plain_question demo_dns ?Q zero_dnsHeader ?q" "plain_question demo_dns (take 1500 ?B) zero_dnsHeader ?b"
    using demo_plain [of 1 "''example.org.''"] demo_plain [of 1 "''B.Vpn.''"] by (simp_all add: demo_query_def)
  have n: "query_name ?q = ''example.org''" "under_domain ''vpn'' (query_name ?b)" by code_simp+
  have x: "\<not> hasSuffix ''example.org'' ''.in-addr.arpa''" "\<not> hasSuffix ''example.org'' (''.'' @ ''vpn'')" "length ?Q \<le> 1500"
    by (simp_all add: hasSuffix_def demo_query_def)
  have "respond demo_dns ?Q ''vpn'' demo_dir = (None, True)"
    using x(1,2) by (simp add: respond_plain [OF p(1)] n(1))
  then have e: "sv_sem ?t = [(?Q, ''spoke'')]" "sv_serving ?t"
    using x(3) by (simp_all add: serve_packet_def s Let_def maxForwards_def)
  have o: "off_reverse_tree (dc_Domain demo_dnsConfig)" "dc_Domain demo_dnsConfig = ''vpn''" by code_simp+
  have d: "d_Domain demo_dir \<noteq> []" by (simp add: demo_dir_def)
  note th = vpn_names_stay_local [OF s(1) o(1), where L = demo_dns and es = "[Packet demo_dir ?Q ''spoke'']", unfolded o(2)]
  have "\<not> under_domain ''vpn'' (query_name ?q)"
    using conjunct1 [OF conjunct2 [OF th]] e(1) p(1) by (metis list.set_intros(1))
  moreover obtain rcode answers where "vpn_answer demo_dir ''vpn'' ?b rcode answers"
    "sv_sem (server_step demo_dns (Packet demo_dir ?B ''spoke'') ?t) = sv_sem ?t"
    using conjunct2 [OF conjunct2 [OF th], rule_format, of demo_wg demo_age demo_dir ?B zero_dnsHeader ?b "''spoke''"]
      e(2) demo_dir_valid d p(2) n(2) by auto
  ultimately show ?thesis using s(1) e(1) unfolding Let_def by blast
qed

text \<open>C37: the answers agree with the hosts files. Asked for the address of a name one label below the domain of a
  valid directory (a domain that does not lie in the reverse tree), in any capitalisation, the server gives the tunnel address of
  the member of that name, the address that the members' hosts files have for it, and denies the name when no member has it.\<close>

theorem dns_agrees_with_hosts:
  assumes "Validate W A dir = Inr ()" and "d_Domain dir \<noteq> []" and "off_reverse_tree (d_Domain dir)"
    and "plain_question L query hdr q" and "q_Type q = TypeA" and "query_name q = label @ ''.'' @ d_Domain dir"
  shows "(\<exists>n w. n \<in> set (d_Nodes dir) \<and> toLower (n_Name n) = label \<and> n_TunnelIP n = ip4_String w \<and>
      has_line (Block dir) (ip4_String w @ [TAB] @ query_name q) \<and>
      respond L query (d_Domain dir) dir =
        (buildReply L hdr (Some q) RCodeSuccess
           [\<lparr>rs_Header = answerHeader (q_Name q) TypeA, rs_Body = AResource (ip4_bytes w)\<rparr>], False)) \<or>
    label \<notin> (\<lambda>n. toLower (n_Name n)) ` set (d_Nodes dir) \<and>
      respond L query (d_Domain dir) dir = (buildReply L hdr (Some q) RCodeNameError [], False)"
proof -
  have ok: "directory_ok W A dir" using assms(1) by (simp add: Validate_ok)
  note r = respond_label [OF assms(4,3,6)]
  show ?thesis
  proof (cases "\<exists>n \<in> set (d_Nodes dir). toLower (n_Name n) = label")
    case True
    then obtain n where n: "n \<in> set (d_Nodes dir)" "toLower (n_Name n) = label" by blast
    obtain p where "parsePrefix (d_NetworkCIDR dir) = Some p" using ok by (auto simp: directory_ok_def)
    from member_address [OF ok n(1) this] obtain w where w: "n_TunnelIP n = ip4_String w" by blast
    have "has_line (Block dir) (ip4_String w @ [TAB] @ query_name q)"
      using Block_has_line [OF ok assms(2) n(1)] by (simp add: hostLine_def n(2) w assms(6))
    moreover have "respond L query (d_Domain dir) dir = (buildReply L hdr (Some q) RCodeSuccess
        [\<lparr>rs_Header = answerHeader (q_Name q) TypeA, rs_Body = AResource (ip4_bytes w)\<rparr>], False)"
      unfolding r respondA_member [OF ok assms(2) n w assms(5)] ..
    ultimately show ?thesis using n w by (intro disjI1 exI [of _ n] exI [of _ w]) simp
  next
    case False
    have "toLower (query_name q) = query_name q" by (simp add: query_name_def)
    then have "toLower label = label" by (simp add: assms(6))
    with False show ?thesis using respondA_stranger [of dir label] r by auto
  qed
qed

theorem dns_agrees_with_hosts_witness:
  "\<exists>w. respond demo_dns (demo_query 1 ''B.Vpn.'') ''vpn'' demo_dir =
      (buildReply demo_dns zero_dnsHeader (Some \<lparr>q_Name = ''B.Vpn.'', q_Type = 1, q_Class = ClassINET\<rparr>) RCodeSuccess
           [\<lparr>rs_Header = answerHeader ''B.Vpn.'' TypeA, rs_Body = AResource (ip4_bytes w)\<rparr>], False) \<and>
     has_line (Block demo_dir) (ip4_String w @ [TAB] @ ''b.vpn'')"
proof -
  let ?q = "\<lparr>q_Name = ''B.Vpn.'', q_Type = 1, q_Class = ClassINET\<rparr>"
  have p: "plain_question demo_dns (demo_query 1 ''B.Vpn.'') zero_dnsHeader ?q" using demo_plain [of 1 "''B.Vpn.''"] by simp
  have n: "query_name ?q = ''b.vpn''" by code_simp
  have d: "d_Domain demo_dir = ''vpn''" by (simp add: demo_dir_def)
  have o: "off_reverse_tree ''vpn''" by code_simp
  have b: "toLower ''b'' = ''b''" by code_simp
  then have "''b'' \<in> (\<lambda>n. toLower (n_Name n)) ` set (d_Nodes demo_dir)" by (simp add: demo_dir_def demo_node_fields)
  with dns_agrees_with_hosts [OF demo_dir_valid _ _ p, of "''b''"] show ?thesis
    by (simp add: d o n TypeA_def) blast
qed

text \<open>Reverse lookups invert forward lookups: for a member of a valid directory, a PTR query for its tunnel
  address yields its name under the domain, and an address query for that very name yields the tunnel
  address. The name constructor of the codec is assumed to keep the name it is given.\<close>

theorem reverse_lookup_inverts:
  assumes "Validate W A dir = Inr ()" and "d_Domain dir \<noteq> []" and "off_reverse_tree (d_Domain dir)"
    and "n \<in> set (d_Nodes dir)" and "n_TunnelIP n = ip4_String w"
    and "name = toLower (n_Name n) @ ''.'' @ d_Domain dir @ ''.''" and "dl_NewName L name = Inr name"
    and "plain_question L query hdr q" and "query_name q = reverse_name w" and "q_Type q = TypePTR"
    and "plain_question L query' hdr' \<lparr>q_Name = name, q_Type = TypeA, q_Class = ClassINET\<rparr>"
  shows "respond L query (d_Domain dir) dir =
      (buildReply L hdr (Some q) RCodeSuccess [\<lparr>rs_Header = answerHeader (q_Name q) TypePTR, rs_Body = PTRResource name\<rparr>], False) \<and>
    respond L query' (d_Domain dir) dir =
      (buildReply L hdr' (Some \<lparr>q_Name = name, q_Type = TypeA, q_Class = ClassINET\<rparr>) RCodeSuccess
        [\<lparr>rs_Header = answerHeader name TypeA, rs_Body = AResource (ip4_bytes w)\<rparr>], False)"
proof
  have ok: "directory_ok W A dir" using assms(1) by (simp add: Validate_ok)
  show "respond L query (d_Domain dir) dir =
      (buildReply L hdr (Some q) RCodeSuccess [\<lparr>rs_Header = answerHeader (q_Name q) TypePTR, rs_Body = PTRResource name\<rparr>], False)"
    using respond_reverse [OF ok assms(4,5,8,9,10)] assms(6,7) by simp
  have "ValidateDomain (d_Domain dir) = Inr ()" using ok assms(2) by (simp add: directory_ok_def)
  then have "d_Domain dir = NormalizeDomain (d_Domain dir)" by (simp add: ValidateDomain_def split: if_splits)
  then have "toLower (d_Domain dir) = d_Domain dir" using toLower_idem unfolding NormalizeDomain_def by metis
  then have "query_name \<lparr>q_Name = name, q_Type = TypeA, q_Class = ClassINET\<rparr> = toLower (n_Name n) @ ''.'' @ d_Domain dir"
    using trimSuffix_append [of "toLower (n_Name n) @ ''.'' @ d_Domain dir" "''.''"]
    by (simp add: query_name_def assms(6) toLower_def lowerC_def is_upper_def)
  from respond_label [OF assms(11,3) this] respondA_member [OF ok assms(2,4) refl assms(5), of "\<lparr>q_Name = name, q_Type = TypeA, q_Class = ClassINET\<rparr>" L hdr']
  show "respond L query' (d_Domain dir) dir =
      (buildReply L hdr' (Some \<lparr>q_Name = name, q_Type = TypeA, q_Class = ClassINET\<rparr>) RCodeSuccess
        [\<lparr>rs_Header = answerHeader name TypeA, rs_Body = AResource (ip4_bytes w)\<rparr>], False)"
    by simp
qed

theorem reverse_lookup_inverts_witness:
  "respond demo_dns (demo_query 12 ''2.0.42.10.in-addr.arpa.'') ''vpn'' demo_dir =
      (buildReply demo_dns zero_dnsHeader (Some \<lparr>q_Name = ''2.0.42.10.in-addr.arpa.'', q_Type = 12, q_Class = ClassINET\<rparr>) RCodeSuccess
        [\<lparr>rs_Header = answerHeader ''2.0.42.10.in-addr.arpa.'' TypePTR, rs_Body = PTRResource ''b.vpn.''\<rparr>], False)"
proof -
  let ?q = "\<lparr>q_Name = ''2.0.42.10.in-addr.arpa.'', q_Type = 12, q_Class = ClassINET\<rparr>"
  have p: "plain_question demo_dns (demo_query 12 ''2.0.42.10.in-addr.arpa.'') zero_dnsHeader ?q"
    using demo_plain [of 12 "''2.0.42.10.in-addr.arpa.''"] by simp
  have p': "plain_question demo_dns (demo_query 1 ''b.vpn.'') zero_dnsHeader \<lparr>q_Name = ''b.vpn.'', q_Type = TypeA, q_Class = ClassINET\<rparr>"
    using demo_plain [of 1 "''b.vpn.''"] by (simp add: TypeA_def)
  let ?n = "demo_node ''b'' 66 ''10.42.0.2'' [] True"
  have n: "?n \<in> set (d_Nodes demo_dir)" by (simp add: demo_dir_def)
  have w: "n_TunnelIP ?n = ip4_String 170524674" by (simp add: demo_node_fields) code_simp
  have q: "query_name ?q = reverse_name 170524674" by code_simp
  have d: "d_Domain demo_dir = ''vpn''" by (simp add: demo_dir_def)
  have o: "off_reverse_tree ''vpn''" by code_simp
  have name: "''b.vpn.'' = toLower (n_Name ?n) @ ''.'' @ d_Domain demo_dir @ ''.''" by (simp add: demo_node_fields d) code_simp
  have N: "dl_NewName demo_dns ''b.vpn.'' = Inr ''b.vpn.''" by (simp add: demo_dns_def)
  from reverse_lookup_inverts [OF demo_dir_valid _ _ n w name N p q _ p'] show ?thesis
    by (simp add: d o TypePTR_def)
qed

text \<open>C38: a forwarded query is answered. For any query the server forwards, once the deadline makes some read
  fail, the exchange has ended, whatever datagrams arrived before; the client is sent the first datagram that is a response with
  the identifier of its query, or a SERVFAIL made from the query; in both cases the reply carries the
  identifier and is marked as a response.\<close>

theorem forward_always_answers:
  assumes "dns_ok L" and "snd (respond L query domain dir)" and "ex_Read X k = Inl e"
  shows "\<exists>reply. forward_reply X query = Some (Some reply) \<and> accepts query reply \<and>
    (servfailFor query = Some reply \<or>
     (\<exists>i d. i < k \<and> ex_Read X i = Inr d \<and> reply = take 4096 d \<and>
        (\<forall>j d'. j < i \<and> ex_Read X j = Inr d' \<longrightarrow> \<not> accepts query (take 4096 d'))))"
proof -
  have "headerLen \<le> length query"
    using assms(1,2) by (auto simp: dns_ok_def respond_def split: sum.splits)
  then obtain f where f: "servfailFor query = Some f" by (simp add: servfailFor_def Let_def)
  note fa = servfail_accepted [OF f]
  from exchange_loop_upto [of "ex_Read X" k e 0 query, OF assms(3)]
  obtain j where j: "j \<le> k" "\<forall>i < j. \<exists>d. ex_Read X i = Inr d \<and> \<not> accepts query (take 4096 d)"
    "case ex_Read X j of Inl _ \<Rightarrow> exchange_loop (ex_Read X) query 0 = Some None
     | Inr d \<Rightarrow> accepts query (take 4096 d) \<and> exchange_loop (ex_Read X) query 0 = Some (Some (take 4096 d))" by auto
  show ?thesis
  proof (cases "ex_Dial X = None \<and> ex_Write X = None \<and> (\<exists>d. ex_Read X j = Inr d)")
    case True
    then obtain d where d: "ex_Read X j = Inr d" by blast
    with assms(3) j(1) have "j < k" by (cases "j = k") auto
    moreover have "forward_reply X query = Some (Some (take 4096 d))" "accepts query (take 4096 d)"
      using True d j(3) by (simp_all add: forward_reply_def exchange_def)
    moreover have "\<forall>i d'. i < j \<and> ex_Read X i = Inr d' \<longrightarrow> \<not> accepts query (take 4096 d')" using j(2) by fastforce
    ultimately show ?thesis using d by blast
  next
    case False
    then have "forward_reply X query = Some (Some f)"
      using j(3) by (cases "ex_Read X j") (auto simp: forward_reply_def exchange_def f)
    then show ?thesis using fa f by blast
  qed
qed

theorem forward_always_answers_witness:
  "\<exists>reply. forward_reply \<lparr>ex_Dial = None, ex_Write = None, ex_Read = (\<lambda>i. if i < 3 then Inr ''noise'' else Inl (Err ''timeout''))\<rparr>
     (demo_query 1 ''example.org.'') = Some (Some reply) \<and> accepts (demo_query 1 ''example.org.'') reply"
proof -
  let ?Q = "demo_query 1 ''example.org.''" and ?q = "\<lparr>q_Name = ''example.org.'', q_Type = 1, q_Class = ClassINET\<rparr>"
  have p: "plain_question demo_dns ?Q zero_dnsHeader ?q" using demo_plain [of 1 "''example.org.''"] by simp
  have n: "query_name ?q = ''example.org''" by code_simp
  have "snd (respond demo_dns ?Q ''vpn'' demo_dir)"
    by (simp add: respond_plain [OF p] n) (simp add: hasSuffix_def)
  moreover have "dns_ok demo_dns" by (auto simp: dns_ok_def demo_dns_def headerLen_def split: if_splits)
  moreover have "(if (3::nat) < 3 then Inr ''noise'' else Inl (Err ''timeout'')) = (Inl (Err ''timeout'') :: bytes res)" by simp
  ultimately show ?thesis
    by (blast dest: forward_always_answers [where k = 3 and
        X = "\<lparr>ex_Dial = None, ex_Write = None, ex_Read = (\<lambda>i. if i < 3 then Inr ''noise'' else Inl (Err ''timeout''))\<rparr>",
        simplified exchangeEnv.simps])
qed

text \<open>In a domain that lies in the reverse tree, which \<open>ValidateDomain\<close> accepts, the members' names are forwarded.\<close>

lemma reverse_domain_forwarded:
  "ValidateDomain ''corp.in-addr.arpa'' = Inr () \<and>
   respond demo_dns (demo_query 1 ''a.corp.in-addr.arpa.'') ''corp.in-addr.arpa'' (demo_dir\<lparr>d_Domain := ''corp.in-addr.arpa''\<rparr>) = (None, True)"
proof
  show "ValidateDomain ''corp.in-addr.arpa'' = Inr ()" by code_simp
  let ?q = "\<lparr>q_Name = ''a.corp.in-addr.arpa.'', q_Type = 1, q_Class = ClassINET\<rparr>"
  have p: "plain_question demo_dns (demo_query 1 ''a.corp.in-addr.arpa.'') zero_dnsHeader ?q"
    using demo_plain [of 1 "''a.corp.in-addr.arpa.''"] by simp
  have n: "query_name ?q = ''a.corp.in-addr.arpa''" by code_simp
  have "hasSuffix ''a.corp.in-addr.arpa'' ''.in-addr.arpa''" "reverseIPv4 ''a.corp.in-addr.arpa'' = None" by code_simp+
  then show "respond demo_dns (demo_query 1 ''a.corp.in-addr.arpa.'') ''corp.in-addr.arpa''
      (demo_dir\<lparr>d_Domain := ''corp.in-addr.arpa''\<rparr>) = (None, True)"
    by (simp add: respond_plain [OF p] n respondPTR_def)
qed

end
