(* ===== verification/Pidfile.thy ===== *)
theory Pidfile
  imports GoStrings
begin

text \<open>
  The PID file of the daemon (\<open>src/internal/daemon\<close>): \<open>pidfile.go\<close> and \<open>daemon.go\<close>. What the system
  keeps is the inode at the path, the contents of the inodes and the holders of their exclusive \<open>flock\<close>;
  an owner stands for an open file description. A first group of definitions has the operations as
  they run alone, with any system call failing; a second one has the system calls as the steps of
  processes that interleave.
\<close>

section \<open>System calls\<close>

record pidSys =
  py_path :: "nat option"
  py_next :: nat
  py_data :: "nat \<Rightarrow> bytes"
  py_lock :: "nat \<Rightarrow> nat option"

text \<open>The errors of the calls; \<open>pi_flock\<close> is an error other than \<open>EWOULDBLOCK\<close>.\<close>

record pidIO =
  pi_mkdir :: "error option"
  pi_open :: "error option"
  pi_flock :: "error option"
  pi_seek :: "error option"
  pi_truncate :: "error option"
  pi_write :: "error option"
  pi_sync :: "error option"
  pi_unlock :: "error option"
  pi_close :: "error option"
  pi_remove :: "error option"
  pi_read :: "error option"

text \<open>\<open>O_CREATE\<close>: an absent file becomes a fresh, empty inode.\<close>

definition sys_create :: "pidSys \<Rightarrow> pidSys \<times> nat" where
  "sys_create s =
     (case py_path s of
        Some i \<Rightarrow> (s, i)
      | None \<Rightarrow>
          (let i = py_next s
           in (s\<lparr>py_path := Some i, py_next := Suc i, py_data := (py_data s)(i := []), py_lock := (py_lock s)(i := None)\<rparr>, i)))"

definition sys_lock :: "nat \<Rightarrow> nat \<Rightarrow> pidSys \<Rightarrow> pidSys option" where
  "sys_lock owner i s =
     (case py_lock s i of None \<Rightarrow> Some (s\<lparr>py_lock := (py_lock s)(i := Some owner)\<rparr>) | Some _ \<Rightarrow> None)"

definition sys_unlock :: "nat \<Rightarrow> nat \<Rightarrow> pidSys \<Rightarrow> pidSys" where
  "sys_unlock owner i s = (if py_lock s i = Some owner then s\<lparr>py_lock := (py_lock s)(i := None)\<rparr> else s)"

definition sys_put :: "nat \<Rightarrow> bytes \<Rightarrow> pidSys \<Rightarrow> pidSys" where
  "sys_put i b s = s\<lparr>py_data := (py_data s)(i := b)\<rparr>"

definition sys_remove :: "pidSys \<Rightarrow> pidSys" where
  "sys_remove s = s\<lparr>py_path := None\<rparr>"

section \<open>The PID file\<close>

datatype acquireError = AlreadyRunning | AcquireError error

definition pidText :: "int \<Rightarrow> bytes" where
  "pidText pid = itoa pid @ [NL]"

definition PIDFile_Write :: "pidIO \<Rightarrow> nat \<Rightarrow> int \<Rightarrow> pidSys \<Rightarrow> pidSys \<times> error option" where
  "PIDFile_Write io i pid s =
     (case pi_seek io of Some e \<Rightarrow> (s, Some (Wrap ''seek PID file'' e))
      | None \<Rightarrow>
     (case pi_truncate io of Some e \<Rightarrow> (s, Some (Wrap ''truncate PID file'' e))
      | None \<Rightarrow>
     (case pi_write io of Some e \<Rightarrow> (sys_put i [] s, Some (Wrap ''write PID file'' e))
      | None \<Rightarrow>
     (case pi_sync io of Some e \<Rightarrow> (sys_put i (pidText pid) s, Some (Wrap ''sync PID file'' e))
      | None \<Rightarrow> (sys_put i (pidText pid) s, None)))))"

text \<open>Closing the descriptor releases the lock also when \<open>LOCK_UN\<close> fails.\<close>

definition PIDFile_Close :: "pidIO \<Rightarrow> nat \<Rightarrow> nat \<Rightarrow> pidSys \<Rightarrow> pidSys \<times> error option" where
  "PIDFile_Close io owner i s =
     (sys_unlock owner i s, case pi_unlock io of Some e \<Rightarrow> Some e | None \<Rightarrow> pi_close io)"

definition PIDFile_CloseRemove :: "pidIO \<Rightarrow> nat \<Rightarrow> nat \<Rightarrow> pidSys \<Rightarrow> pidSys \<times> error option" where
  "PIDFile_CloseRemove io owner i s =
     (case PIDFile_Close io owner i s of
        (s1, err) \<Rightarrow>
          (case pi_remove io of
             Some e \<Rightarrow> (s1, if \<not> errors_Is e ErrNotExist \<and> err = None then Some e else err)
           | None \<Rightarrow> (sys_remove s1, err)))"

definition AcquirePIDFile :: "pidIO \<Rightarrow> nat \<Rightarrow> int \<Rightarrow> int \<Rightarrow> pidSys \<Rightarrow> pidSys \<times> (acquireError + nat)" where
  "AcquirePIDFile io owner getpid pid0 s =
     (let pid = (if pid0 = 0 then getpid else pid0)
      in case pi_mkdir io of Some e \<Rightarrow> (s, Inl (AcquireError (Wrap ''create PID directory'' e)))
         | None \<Rightarrow>
        (case pi_open io of Some e \<Rightarrow> (s, Inl (AcquireError (Wrap ''open PID file'' e)))
         | None \<Rightarrow>
        (case sys_create s of
           (s1, i) \<Rightarrow>
             (case pi_flock io of Some e \<Rightarrow> (s1, Inl (AcquireError (Wrap ''lock PID file'' e)))
              | None \<Rightarrow>
             (case sys_lock owner i s1 of
                None \<Rightarrow> (s1, Inl AlreadyRunning)
              | Some s2 \<Rightarrow>
                  (case PIDFile_Write io i pid s2 of
                     (s3, None) \<Rightarrow> (s3, Inr i)
                   | (s3, Some e) \<Rightarrow> (fst (PIDFile_CloseRemove io owner i s3), Inl (AcquireError e))))))))"

definition retryPause :: duration where "retryPause = 50 * 1000000"

text \<open>The \<open>k\<close>-th attempt has its own system calls; between attempts other processes act (\<open>meanwhile\<close>) and
  the clock goes on.\<close>

partial_function (option) acquire_loop ::
  "(nat \<Rightarrow> pidIO) \<Rightarrow> (nat \<Rightarrow> pidSys \<Rightarrow> pidSys) \<Rightarrow> (nat \<Rightarrow> gotime) \<Rightarrow> gotime \<Rightarrow> nat \<Rightarrow> int \<Rightarrow> int \<Rightarrow> nat \<Rightarrow> pidSys \<Rightarrow>
   (nat \<times> pidSys \<times> (acquireError + nat)) option" where
  "acquire_loop io meanwhile clock deadline owner getpid pid k s =
     (case AcquirePIDFile (io k) owner getpid pid s of
        (s', Inr i) \<Rightarrow> Some (k, s', Inr i)
      | (s', Inl err) \<Rightarrow>
          if err \<noteq> AlreadyRunning \<or> clock k > deadline then Some (k, s', Inl err)
          else acquire_loop io meanwhile clock deadline owner getpid pid (Suc k) (meanwhile k s'))"

definition AcquirePIDFileRetry ::
  "(nat \<Rightarrow> pidIO) \<Rightarrow> (nat \<Rightarrow> pidSys \<Rightarrow> pidSys) \<Rightarrow> gotime \<Rightarrow> (nat \<Rightarrow> gotime) \<Rightarrow> nat \<Rightarrow> int \<Rightarrow> int \<Rightarrow> duration \<Rightarrow> pidSys \<Rightarrow>
   (nat \<times> pidSys \<times> (acquireError + nat)) option" where
  "AcquirePIDFileRetry io meanwhile start clock owner getpid pid wait s =
     acquire_loop io meanwhile clock (start + wait) owner getpid pid 0 s"

definition ReadPID :: "pidIO \<Rightarrow> pidSys \<Rightarrow> int res" where
  "ReadPID io s =
     (case pi_read io of Some e \<Rightarrow> Inl e
      | None \<Rightarrow>
          (case py_path s of
             None \<Rightarrow> Inl ErrNotExist
           | Some i \<Rightarrow>
               (case atoi (trimSpace (py_data s i)) of
                  None \<Rightarrow> Inl (Wrap ''parse PID file'' (Err ''strconv''))
                | Some pid \<Rightarrow> Inr pid)))"

definition pidFileUnlocked :: "pidIO \<Rightarrow> pidSys \<Rightarrow> bool res" where
  "pidFileUnlocked io s =
     (case pi_open io of Some e \<Rightarrow> Inl (Wrap ''open PID file'' e)
      | None \<Rightarrow>
          (case py_path s of
             None \<Rightarrow> Inl (Wrap ''open PID file'' ErrNotExist)
           | Some i \<Rightarrow>
               (case pi_flock io of Some e \<Rightarrow> Inl (Wrap ''probe PID file lock'' e)
                | None \<Rightarrow> Inr (py_lock s i = None))))"

section \<open>Stopping and starting the daemon\<close>

text \<open>\<open>kill(pid, 0)\<close> at the \<open>k\<close>-th look: no error or \<open>EPERM\<close>.\<close>

definition PIDAlive :: "(int \<Rightarrow> bool) \<Rightarrow> int \<Rightarrow> bool" where
  "PIDAlive exists pid = (if pid \<le> 0 then False else exists pid)"

record stopEnv =
  se_read :: pidIO
  se_probe :: pidIO
  se_alive :: "nat \<Rightarrow> int \<Rightarrow> bool"
  se_kill :: "error option"
  se_start :: gotime
  se_clock :: "nat \<Rightarrow> gotime"

datatype stopError = ErrNotRunning | StopError error

partial_function (option) stop_loop :: "(nat \<Rightarrow> int \<Rightarrow> bool) \<Rightarrow> (nat \<Rightarrow> gotime) \<Rightarrow> gotime \<Rightarrow> int \<Rightarrow> nat \<Rightarrow> (nat \<times> stopError option) option" where
  "stop_loop alive clock deadline pid k =
     (if \<not> PIDAlive (alive k) pid then Some (k, None)
      else if \<not> clock k < deadline then Some (k, Some (StopError (Err ''daemon signaled but still running'')))
      else stop_loop alive clock deadline pid (Suc k))"

text \<open>The pair is the process that was sent SIGTERM, if any, and the outcome; \<open>None\<close> is a loop that does
  not end. Look 0 is the check before the signal.\<close>

definition daemon_Stop :: "stopEnv \<Rightarrow> duration \<Rightarrow> pidSys \<Rightarrow> (int option \<times> (stopError + int)) option" where
  "daemon_Stop X wait s =
     (case ReadPID (se_read X) s of
        Inl e \<Rightarrow> Some (None, Inl (if errors_Is e ErrNotExist then ErrNotRunning else StopError e))
      | Inr pid \<Rightarrow>
          (case pidFileUnlocked (se_probe X) s of
             Inl e \<Rightarrow> Some (None, Inl (StopError e))
           | Inr free \<Rightarrow>
               if free then Some (None, Inl ErrNotRunning)
               else if \<not> PIDAlive (se_alive X 0) pid then Some (None, Inl ErrNotRunning)
               else (case se_kill X of
                       Some e \<Rightarrow> Some (None, Inl (StopError (Wrap ''signal daemon'' e)))
                     | None \<Rightarrow>
                         (case stop_loop (se_alive X) (se_clock X) (se_start X + wait) pid 1 of
                            None \<Rightarrow> None
                          | Some (_, Some e) \<Rightarrow> Some (Some pid, Inl e)
                          | Some (_, None) \<Rightarrow> Some (Some pid, Inr pid)))))"

record startEnv =
  sa_io :: pidIO
  sa_write :: pidIO
  sa_close :: pidIO
  sa_owner :: nat
  sa_getpid :: int
  sa_executable :: "error option"
  sa_devNull :: "error option"
  sa_startProcess :: "int res"
  sa_release :: "error option"

text \<open>\<open>daemon.Start\<close>: the parent holds the lock until it has recorded the child's PID, and closes the file
  on every way out.\<close>

definition daemon_Start :: "startEnv \<Rightarrow> pidSys \<Rightarrow> pidSys \<times> (acquireError + int)" where
  "daemon_Start X s =
     (case AcquirePIDFile (sa_io X) (sa_owner X) (sa_getpid X) (sa_getpid X) s of
        (s1, Inl e) \<Rightarrow> (s1, Inl e)
      | (s1, Inr i) \<Rightarrow>
          (case (case sa_executable X of
                   Some e \<Rightarrow> (s1, Inl (AcquireError (Wrap ''resolve executable'' e)))
                 | None \<Rightarrow>
                (case sa_devNull X of
                   Some e \<Rightarrow> (s1, Inl (AcquireError (Wrap ''open /dev/null'' e)))
                 | None \<Rightarrow>
                (case sa_startProcess X of
                   Inl e \<Rightarrow> (s1, Inl (AcquireError (Wrap ''start daemon child'' e)))
                 | Inr pid \<Rightarrow>
                     (case PIDFile_Write (sa_write X) i pid s1 of
                        (s2, Some e) \<Rightarrow> (s2, Inl (AcquireError e))
                      | (s2, None) \<Rightarrow>
                          (s2, case sa_release X of
                                 Some e \<Rightarrow> Inl (AcquireError (Wrap ''release daemon child'' e))
                               | None \<Rightarrow> Inr pid))))) of
             (s', r) \<Rightarrow> (fst (PIDFile_Close (sa_close X) (sa_owner X) i s'), r)))"

section \<open>Processes that interleave\<close>

text \<open>A daemon process \<open>p\<close> goes through the calls of \<open>AcquirePIDFile\<close> and, at its end, of
  \<open>CloseRemove\<close>: open, lock, write, unlock and close, remove. A \<open>Write\<close> may leave anything in the file and fail; \<open>AcquirePIDFile\<close> then
  calls \<open>CloseRemove\<close>. The parent in \<open>Start\<close> acquires the file too; it then writes the child's process identifier over its own
  (completely or not) and closes the file without removing it, which is also all that the end of a process does. With \<open>racy\<close>
  false, nobody removes the path while another process has the file open.\<close>

datatype pidPc = PIdle | POpened nat | PLocked nat | PRunning nat | PSpawned nat | PLeaving

primrec open_inode :: "pidPc \<Rightarrow> nat option" where
  "open_inode PIdle = None"
| "open_inode (POpened i) = Some i"
| "open_inode (PLocked i) = Some i"
| "open_inode (PRunning i) = Some i"
| "open_inode (PSpawned i) = Some i"
| "open_inode PLeaving = None"

definition holds :: "pidPc \<Rightarrow> nat \<Rightarrow> bool" where
  "holds pc i \<longleftrightarrow> pc = PLocked i \<or> pc = PRunning i \<or> pc = PSpawned i"

record pidWorld =
  pw_sys :: pidSys
  pw_pc :: "nat \<Rightarrow> pidPc"

inductive pid_step :: "bool \<Rightarrow> pidWorld \<Rightarrow> pidWorld \<Rightarrow> bool" for racy where
  opens: "pw_pc x p = PIdle \<Longrightarrow> sys_create (pw_sys x) = (s, i) \<Longrightarrow>
    pid_step racy x \<lparr>pw_sys = s, pw_pc = (pw_pc x)(p := POpened i)\<rparr>"
| lock: "pw_pc x p = POpened i \<Longrightarrow> sys_lock p i (pw_sys x) = Some s \<Longrightarrow>
    pid_step racy x \<lparr>pw_sys = s, pw_pc = (pw_pc x)(p := PLocked i)\<rparr>"
| busy: "pw_pc x p = POpened i \<Longrightarrow> sys_lock p i (pw_sys x) = None \<Longrightarrow>
    pid_step racy x \<lparr>pw_sys = pw_sys x, pw_pc = (pw_pc x)(p := PIdle)\<rparr>"
| writes: "pw_pc x p = PLocked i \<Longrightarrow>
    pid_step racy x \<lparr>pw_sys = sys_put i (pidText (int p)) (pw_sys x), pw_pc = (pw_pc x)(p := PRunning i)\<rparr>"
| torn: "pw_pc x p = PLocked i \<Longrightarrow> pid_step racy x \<lparr>pw_sys = sys_put i dat (pw_sys x), pw_pc = pw_pc x\<rparr>"
| fail: "pw_pc x p = PLocked i \<Longrightarrow>
    pid_step racy x \<lparr>pw_sys = sys_unlock p i (pw_sys x), pw_pc = (pw_pc x)(p := PLeaving)\<rparr>"
| spawn: "pw_pc x p = PRunning i \<Longrightarrow>
    pid_step racy x \<lparr>pw_sys = sys_put i dat (pw_sys x), pw_pc = (pw_pc x)(p := PSpawned i)\<rparr>"
| leave: "pw_pc x p = PRunning i \<Longrightarrow>
    pid_step racy x \<lparr>pw_sys = sys_unlock p i (pw_sys x), pw_pc = (pw_pc x)(p := PLeaving)\<rparr>"
| remove: "pw_pc x p = PLeaving \<Longrightarrow> racy \<or> (\<forall>q. open_inode (pw_pc x q) = None) \<Longrightarrow>
    pid_step racy x \<lparr>pw_sys = sys_remove (pw_sys x), pw_pc = (pw_pc x)(p := PIdle)\<rparr>"
| crash: "open_inode (pw_pc x p) = Some i \<Longrightarrow>
    pid_step racy x \<lparr>pw_sys = sys_unlock p i (pw_sys x), pw_pc = (pw_pc x)(p := PIdle)\<rparr>"

inductive_cases pid_stepE: "pid_step racy x y"

definition pid_start :: pidWorld where
  "pid_start =
     \<lparr>pw_sys = \<lparr>py_path = None, py_next = 0, py_data = (\<lambda>_. []), py_lock = (\<lambda>_. None)\<rparr>, pw_pc = (\<lambda>_. PIdle)\<rparr>"

definition pid_inv :: "pidWorld \<Rightarrow> bool" where
  "pid_inv x \<longleftrightarrow>
     (\<forall>p i. open_inode (pw_pc x p) = Some i \<longrightarrow> py_path (pw_sys x) = Some i) \<and>
     (\<forall>p i. py_lock (pw_sys x) i = Some p \<longleftrightarrow> holds (pw_pc x p) i) \<and>
     (\<forall>p i. pw_pc x p = PRunning i \<longrightarrow> py_data (pw_sys x) i = pidText (int p)) \<and>
     (\<forall>i. py_path (pw_sys x) = Some i \<longrightarrow> i < py_next (pw_sys x))"

lemma pid_inv_start: "pid_inv pid_start"
  by (simp add: pid_inv_def pid_start_def holds_def)

lemma closed_holds: "open_inode pc = None \<Longrightarrow> \<not> holds pc i \<and> pc \<noteq> PRunning i"
  by (cases pc) (auto simp: holds_def)

lemma pid_invD:
  assumes "pid_inv x"
  shows "open_inode (pw_pc x p) = Some i \<Longrightarrow> py_path (pw_sys x) = Some i"
    and "py_lock (pw_sys x) i = Some p \<longleftrightarrow> holds (pw_pc x p) i"
    and "pw_pc x p = PRunning i \<Longrightarrow> py_data (pw_sys x) i = pidText (int p)"
    and "py_path (pw_sys x) = Some i \<Longrightarrow> i < py_next (pw_sys x)"
  using assms unfolding pid_inv_def by blast+

text \<open>A step of process \<open>p\<close>: what it has to keep for the others and establish for itself.\<close>

lemma pid_inv_frame:
  assumes "pid_inv x"
    and "\<And>q i. q \<noteq> p \<Longrightarrow> open_inode (pw_pc x q) = Some i \<Longrightarrow> py_path s = Some i"
    and "\<And>i. open_inode c = Some i \<Longrightarrow> py_path s = Some i"
    and "\<And>q i. q \<noteq> p \<Longrightarrow> py_lock s i = Some q \<longleftrightarrow> py_lock (pw_sys x) i = Some q"
    and "\<And>i. py_lock s i = Some p \<longleftrightarrow> holds c i"
    and "\<And>q i. q \<noteq> p \<Longrightarrow> pw_pc x q = PRunning i \<Longrightarrow> py_data s i = py_data (pw_sys x) i"
    and "\<And>i. c = PRunning i \<Longrightarrow> py_data s i = pidText (int p)"
    and "\<And>i. py_path s = Some i \<Longrightarrow> i < py_next s"
  shows "pid_inv \<lparr>pw_sys = s, pw_pc = (pw_pc x)(p := c)\<rparr>"
  unfolding pid_inv_def using assms(2-8) pid_invD(2,3) [OF assms(1)] by auto

text \<open>The holder of the lock may put anything into the file as long as it does not count as running, and it may let go.\<close>

lemma pid_inv_holder:
  assumes "pid_inv x" and "holds (pw_pc x p) i"
  shows "py_lock (pw_sys x) k = Some p \<longleftrightarrow> k = i" and "py_path (pw_sys x) = Some i"
    and "q \<noteq> p \<Longrightarrow> pw_pc x q \<noteq> PRunning i"
proof -
  note inv = pid_invD [OF assms(1)]
  show mine: "py_lock (pw_sys x) k = Some p \<longleftrightarrow> k = i" for k using inv(2) [of k p] assms(2) by (auto simp: holds_def)
  show "py_path (pw_sys x) = Some i" using inv(1) [of p i] assms(2) by (auto simp: holds_def)
  show "q \<noteq> p \<Longrightarrow> pw_pc x q \<noteq> PRunning i" using inv(2) [of i q] mine [of i] by (auto simp: holds_def)
qed

lemma pid_inv_overwrite:
  assumes "pid_inv x" and "holds (pw_pc x p) i" and "holds c i" and "\<And>k. c \<noteq> PRunning k"
  shows "pid_inv \<lparr>pw_sys = sys_put i dat (pw_sys x), pw_pc = (pw_pc x)(p := c)\<rparr>"
  by (rule pid_inv_frame [OF assms(1)])
    (use pid_invD(1,4) [OF assms(1)] pid_inv_holder [OF assms(1,2)] assms(3,4) in \<open>auto simp: sys_put_def holds_def\<close>)

lemma pid_inv_release:
  assumes "pid_inv x" and "holds (pw_pc x p) i"
  shows "pid_inv \<lparr>pw_sys = sys_unlock p i (pw_sys x), pw_pc = (pw_pc x)(p := PLeaving)\<rparr>"
proof -
  have mine: "py_lock (pw_sys x) i = Some p" using pid_inv_holder(1) [OF assms] by simp
  show ?thesis
    by (rule pid_inv_frame [OF assms(1)])
      (use pid_invD(1,4) [OF assms(1)] pid_inv_holder [OF assms(1,2)] in \<open>auto simp: sys_unlock_def holds_def mine\<close>)
qed

lemma pid_inv_step: "pid_step False x y \<Longrightarrow> pid_inv x \<Longrightarrow> pid_inv y"
proof (induction rule: pid_step.induct)
  case (opens x p s i)
  note inv = pid_invD [OF opens.prems]
  show ?case
  proof (cases "py_path (pw_sys x)")
    case None
    then have none: "open_inode (pw_pc x q) = None" for q using inv(1) by fastforce
    then have idle: "\<not> holds (pw_pc x q) j \<and> pw_pc x q \<noteq> PRunning j" for q j using closed_holds by blast
    then have free: "py_lock (pw_sys x) j = None" for j using inv(2) by (cases "py_lock (pw_sys x) j") auto
    show ?thesis
      using None opens none idle free by (intro pid_inv_frame) (auto simp: sys_create_def Let_def holds_def split: if_splits)
  next
    case (Some j)
    have "py_lock (pw_sys x) k \<noteq> Some p" for k using inv(2) opens(1) by (simp add: holds_def)
    with Some opens inv(1,4) show ?thesis by (intro pid_inv_frame) (auto simp: sys_create_def holds_def)
  qed
next
  case (lock x p i s)
  note inv = pid_invD [OF lock.prems]
  have "py_lock (pw_sys x) k \<noteq> Some p" for k using inv(2) lock(1) by (simp add: holds_def)
  moreover have "py_path (pw_sys x) = Some i" using inv(1) [of p i] lock(1) by simp
  ultimately show ?case
    using lock inv(1,4) by (intro pid_inv_frame) (auto simp: sys_lock_def holds_def split: option.splits if_splits)
next
  case (busy x p i)
  note inv = pid_invD [OF busy.prems]
  have "py_lock (pw_sys x) k \<noteq> Some p" for k using inv(2) busy(1) by (simp add: holds_def)
  with busy inv(1,4) show ?case by (intro pid_inv_frame) (auto simp: holds_def)
next
  case (writes x p i)
  note inv = pid_invD [OF writes.prems]
  have mine: "py_lock (pw_sys x) k = Some p \<longleftrightarrow> k = i" for k using inv(2) [of k p] writes(1) by (auto simp: holds_def)
  have "pw_pc x q \<noteq> PRunning i" if "q \<noteq> p" for q using inv(2) [of i q] mine [of i] that by (auto simp: holds_def)
  moreover have "py_path (pw_sys x) = Some i" using inv(1) [of p i] writes(1) by simp
  ultimately show ?case
    using writes inv(1,4) mine by (intro pid_inv_frame) (auto simp: sys_put_def holds_def)
next
  case (torn x p i dat)
  have "pid_inv \<lparr>pw_sys = sys_put i dat (pw_sys x), pw_pc = (pw_pc x)(p := PLocked i)\<rparr>"
    by (rule pid_inv_overwrite [OF torn.prems]) (use torn in \<open>auto simp: holds_def\<close>)
  moreover have "(pw_pc x)(p := PLocked i) = pw_pc x" using torn by auto
  ultimately show ?case by simp
next
  case (fail x p i)
  then show ?case by (intro pid_inv_release) (simp_all add: holds_def)
next
  case (spawn x p i dat)
  then show ?case by (intro pid_inv_overwrite) (auto simp: holds_def)
next
  case (leave x p i)
  then show ?case by (intro pid_inv_release) (simp_all add: holds_def)
next
  case (remove x p)
  note inv = pid_invD [OF remove.prems]
  have "py_lock (pw_sys x) k \<noteq> Some p" for k using inv(2) remove(1) by (simp add: holds_def)
  with remove show ?case by (intro pid_inv_frame) (auto simp: sys_remove_def holds_def)
next
  case (crash x p i)
  note inv = pid_invD [OF crash.prems]
  have other: "py_lock (pw_sys x) k = Some p \<Longrightarrow> k = i" for k
    using inv(2) [of k p] crash(1) by (cases "pw_pc x p") (auto simp: holds_def)
  show ?case
    by (rule pid_inv_frame [OF crash.prems]) (use inv(1,4) in \<open>auto simp: sys_unlock_def holds_def dest: other split: if_splits\<close>)
qed

lemma pid_inv_reachable: "(pid_step False)\<^sup>*\<^sup>* pid_start x \<Longrightarrow> pid_inv x"
  by (induction rule: rtranclp_induct) (auto intro: pid_inv_start pid_inv_step)

section \<open>The waiting loops\<close>

text \<open>\<open>time.Sleep\<close> waits at least as long as it is told to.\<close>

definition sleeps :: "gotime \<Rightarrow> (nat \<Rightarrow> gotime) \<Rightarrow> bool" where
  "sleeps start clock \<longleftrightarrow> start \<le> clock 0 \<and> (\<forall>k. clock k + retryPause \<le> clock (Suc k))"

lemma sleeps_clock: "sleeps start clock \<Longrightarrow> start + int k * retryPause \<le> clock k"
proof (induction k)
  case (Suc k)
  then have "clock k + retryPause \<le> clock (Suc k)" by (simp add: sleeps_def)
  with Suc show ?case by (simp add: algebra_simps)
qed (simp add: sleeps_def)

text \<open>The number of pauses after which a wait is over.\<close>

definition pauses :: "duration \<Rightarrow> nat" where
  "pauses wait = nat (wait div retryPause) + 1"

lemma sleeps_deadline:
  assumes "sleeps start clock"
  shows "start + wait < clock (pauses wait)"
proof -
  have p: "0 < retryPause" by (simp add: retryPause_def)
  have "wait div retryPause * retryPause + wait mod retryPause < (wait div retryPause + 1) * retryPause"
    unfolding distrib_right using pos_mod_bound [OF p, of wait] by linarith
  then have "wait < (wait div retryPause + 1) * retryPause" by (simp only: div_mult_mod_eq)
  also have "\<dots> \<le> int (pauses wait) * retryPause"
    using p by (intro mult_right_mono) (auto simp: pauses_def)
  finally show ?thesis using sleeps_clock [OF assms, of "pauses wait"] by linarith
qed

lemma acquire_loop_ends:
  assumes "clock n > deadline" and "k \<le> n"
  shows "\<exists>m s' r. acquire_loop io meanwhile clock deadline owner getpid pid k s = Some (m, s', r) \<and> k \<le> m \<and> m \<le> n \<and>
    (r = Inl AlreadyRunning \<longrightarrow> clock m > deadline)"
  using assms
proof (induction "n - k" arbitrary: k s)
  case 0
  then have "k = n" by simp
  then show ?case
    using 0 by (subst acquire_loop.simps) (auto split: prod.splits sum.splits)
next
  case (Suc l)
  obtain s' r where a: "AcquirePIDFile (io k) owner getpid pid s = (s', r)" by fastforce
  show ?case
  proof (cases "r = Inl AlreadyRunning \<and> \<not> clock k > deadline")
    case True
    then have step: "acquire_loop io meanwhile clock deadline owner getpid pid k s =
        acquire_loop io meanwhile clock deadline owner getpid pid (Suc k) (meanwhile k s')"
      using a by (subst acquire_loop.simps) simp
    have "l = n - Suc k" "Suc k \<le> n" using Suc.hyps(2) Suc.prems by auto
    from Suc.hyps(1) [OF this(1) Suc.prems(1) this(2), of "meanwhile k s'"] show ?thesis unfolding step using Suc_leD by blast
  next
    case False
    then have "acquire_loop io meanwhile clock deadline owner getpid pid k s = Some (k, s', r)"
      using a by (subst acquire_loop.simps) (auto split: sum.splits)
    then show ?thesis using False Suc.prems by auto
  qed
qed

lemma stop_loop_ends:
  assumes "deadline \<le> clock n" and "k \<le> n"
  shows "\<exists>m r. stop_loop alive clock deadline pid k = Some (m, r) \<and> k \<le> m \<and> m \<le> n \<and>
    (r = None \<longleftrightarrow> \<not> PIDAlive (alive m) pid) \<and> (r \<noteq> None \<longrightarrow> deadline \<le> clock m)"
  using assms
proof (induction "n - k" arbitrary: k)
  case 0
  then have "k = n" by simp
  then show ?case using 0 by (subst stop_loop.simps) auto
next
  case (Suc l)
  show ?case
  proof (cases "PIDAlive (alive k) pid \<and> clock k < deadline")
    case True
    then have step: "stop_loop alive clock deadline pid k = stop_loop alive clock deadline pid (Suc k)"
      by (subst stop_loop.simps) simp
    have "l = n - Suc k" "Suc k \<le> n" using Suc.hyps(2) Suc.prems by auto
    from Suc.hyps(1) [OF this(1) Suc.prems(1) this(2)] show ?thesis unfolding step using Suc_leD by blast
  next
    case False
    then show ?thesis using Suc.prems by (subst stop_loop.simps) auto
  qed
qed

section \<open>Properties\<close>

text \<open>C39: one daemon at a time. However the system calls of any number of daemon processes and of their parents interleave, and
  whichever of them fail to write the file or crash, as long as the PID file is not removed while another process has it open,
  at most one process is past the acquisition of the file; the file then names that process and its lock is
  taken, so that a stop finds it.\<close>

theorem pidfile_exclusive:
  assumes "(pid_step False)\<^sup>*\<^sup>* pid_start x" and "pw_pc x p = PRunning i" and "pw_pc x q = PRunning j"
    and "pi_read io = None" and "pi_open io = None" and "pi_flock io = None" and "int p < 2 ^ 63"
  shows "p = q \<and> ReadPID io (pw_sys x) = Inr (int p) \<and> pidFileUnlocked io (pw_sys x) = Inr False"
proof -
  have inv: "pid_inv x" by (rule pid_inv_reachable [OF assms(1)])
  have path: "py_path (pw_sys x) = Some i" "py_path (pw_sys x) = Some j"
    using inv assms(2,3) unfolding pid_inv_def by (metis open_inode.simps(4))+
  have "holds (pw_pc x p) i" "holds (pw_pc x q) j" using assms(2,3) by (simp_all add: holds_def)
  then have lock: "py_lock (pw_sys x) i = Some p" "py_lock (pw_sys x) i = Some q"
    using inv path unfolding pid_inv_def by (metis option.inject)+
  have "py_data (pw_sys x) i = pidText (int p)" using inv assms(2) unfolding pid_inv_def by blast
  moreover have "trimSpace (pidText (int p)) = itoa (int p)"
    by (simp add: pidText_def itoa_def trimSpace_snoc is_space_def)
  ultimately have "ReadPID io (pw_sys x) = Inr (int p)"
    using assms(4,7) path(1) by (simp add: ReadPID_def atoi_itoa)
  moreover have "pidFileUnlocked io (pw_sys x) = Inr False"
    using assms(5,6) path(1) lock(1) by (simp add: pidFileUnlocked_def)
  ultimately show ?thesis using lock by simp
qed

definition fine_pidIO :: pidIO where
  "fine_pidIO = \<lparr>pi_mkdir = None, pi_open = None, pi_flock = None, pi_seek = None, pi_truncate = None, pi_write = None,
     pi_sync = None, pi_unlock = None, pi_close = None, pi_remove = None, pi_read = None\<rparr>"

text \<open>One process through open, lock and write.\<close>

lemma pid_acquire:
  assumes "pw_pc x p = PIdle" and "sys_create (pw_sys x) = (s, i)" and "sys_lock p i s = Some s'"
  shows "(pid_step racy)\<^sup>*\<^sup>* x \<lparr>pw_sys = sys_put i (pidText (int p)) s', pw_pc = (pw_pc x)(p := PRunning i)\<rparr>"
proof -
  let ?o = "\<lparr>pw_sys = s, pw_pc = (pw_pc x)(p := POpened i)\<rparr>" and ?l = "\<lparr>pw_sys = s', pw_pc = (pw_pc x)(p := PLocked i)\<rparr>"
  have "(pid_step racy)\<^sup>*\<^sup>* x ?o" by (rule r_into_rtranclp, rule pid_step.opens [OF assms(1,2)])
  also have "pid_step racy ?o ?l" using pid_step.lock [of ?o p i s' racy] assms(3) by simp
  also have "pid_step racy ?l \<lparr>pw_sys = sys_put i (pidText (int p)) s', pw_pc = (pw_pc x)(p := PRunning i)\<rparr>"
    using pid_step.writes [of ?l p i racy] by simp
  finally show ?thesis .
qed

theorem pidfile_exclusive_witness:
  "\<exists>x i. (pid_step False)\<^sup>*\<^sup>* pid_start x \<and> pw_pc x 7 = PRunning i \<and> ReadPID fine_pidIO (pw_sys x) = Inr 7"
proof -
  obtain s s' where s: "sys_create (pw_sys pid_start) = (s, 0)" "sys_lock 7 0 s = Some s'"
    by (simp add: pid_start_def sys_create_def sys_lock_def)
  let ?x = "\<lparr>pw_sys = sys_put 0 (pidText (int 7)) s', pw_pc = (pw_pc pid_start)(7 := PRunning 0)\<rparr>"
  have r: "(pid_step False)\<^sup>*\<^sup>* pid_start ?x" by (rule pid_acquire [OF _ s]) (simp add: pid_start_def)
  have "pw_pc ?x 7 = PRunning 0" by simp
  with pidfile_exclusive [OF r this this, of fine_pidIO] r show ?thesis
    by (intro exI [of _ ?x] exI [of _ 0]) (simp add: fine_pidIO_def)
qed

text \<open>The child's wait for the PID file ends: with pauses of 50 ms, \<open>AcquirePIDFileRetry\<close> returns after at
  most one attempt more than the pauses that fit into the wait, whatever other processes do to the file in between; it gives up on a
  running daemon only once the time is over.\<close>

theorem acquire_retry_bounded:
  assumes "sleeps start clock"
  shows "\<exists>k s' r. AcquirePIDFileRetry io meanwhile start clock owner getpid pid wait s = Some (k, s', r) \<and>
    k \<le> nat (wait div 50000000) + 1 \<and> (r = Inl AlreadyRunning \<longrightarrow> start + wait < clock k)"
  using acquire_loop_ends [of "start + wait" clock "pauses wait" 0 io meanwhile owner getpid pid s] sleeps_deadline [OF assms, of wait]
  by (auto simp: AcquirePIDFileRetry_def pauses_def retryPause_def)

theorem acquire_retry_bounded_witness:
  "\<exists>k s' r. AcquirePIDFileRetry (\<lambda>_. fine_pidIO) (\<lambda>_ s. s) 0 (\<lambda>k. int k * retryPause) 1 7 7 (2 * second)
     \<lparr>py_path = Some 0, py_next = 1, py_data = (\<lambda>_. []), py_lock = (\<lambda>_. Some 9)\<rparr> = Some (k, s', r) \<and> k \<le> 41"
proof -
  have "sleeps 0 (\<lambda>k. int k * retryPause)" by (simp add: sleeps_def retryPause_def)
  from acquire_retry_bounded [OF this, of "\<lambda>_. fine_pidIO" "\<lambda>_ s. s" 1 7 7 "2 * second"
      "\<lparr>py_path = Some 0, py_next = 1, py_data = (\<lambda>_. []), py_lock = (\<lambda>_. Some 9)\<rparr>"]
  show ?thesis by auto
qed

text \<open>C40: stopping the daemon is safe and ends. \<open>daemon.Stop\<close> returns; a process is signalled only when the PID
  file names it, some process holds the lock of the file and the named process exists; success is
  reported only after that process was seen gone; and when it is gone at the first look after the
  signal, success is reported.\<close>

theorem stop_is_sound:
  assumes "sleeps (se_start X) (\<lambda>k. se_clock X (Suc k))"
  shows "\<exists>sig r. daemon_Stop X wait s = Some (sig, r) \<and>
    (\<forall>pid. sig = Some pid \<longrightarrow> 0 < pid \<and> ReadPID (se_read X) s = Inr pid \<and> se_alive X 0 pid \<and>
       (\<exists>i q. py_path s = Some i \<and> py_lock s i = Some q)) \<and>
    (\<forall>pid. r = Inr pid \<longrightarrow> sig = Some pid \<and> (\<exists>k > 0. \<not> se_alive X k pid)) \<and>
    (\<forall>pid. sig = Some pid \<and> \<not> se_alive X 1 pid \<longrightarrow> r = Inr pid)"
proof (cases "\<exists>pid. ReadPID (se_read X) s = Inr pid \<and> pidFileUnlocked (se_probe X) s = Inr False \<and>
    PIDAlive (se_alive X 0) pid \<and> se_kill X = None")
  case True
  then obtain pid where pid: "ReadPID (se_read X) s = Inr pid" "pidFileUnlocked (se_probe X) s = Inr False"
    "PIDAlive (se_alive X 0) pid" "se_kill X = None" by blast
  let ?n = "Suc (pauses wait)"
  have "se_start X + wait \<le> se_clock X ?n" using sleeps_deadline [OF assms, of wait] by simp
  from stop_loop_ends [where clock = "se_clock X" and n = ?n and k = 1 and alive = "se_alive X" and pid = pid, OF this]
  obtain m r where m: "stop_loop (se_alive X) (se_clock X) (se_start X + wait) pid 1 = Some (m, r)" "1 \<le> m"
    "r = None \<longleftrightarrow> \<not> PIDAlive (se_alive X m) pid" by auto
  have now: "r = None" if "\<not> se_alive X 1 pid"
    using m(1) that by (subst (asm) stop_loop.simps) (auto simp: PIDAlive_def split: if_splits)
  have "0 < pid \<and> se_alive X 0 pid" using pid(3) by (simp add: PIDAlive_def split: if_splits)
  moreover obtain i q where "py_path s = Some i" "py_lock s i = Some q"
    using pid(2) by (auto simp: pidFileUnlocked_def split: option.splits)
  ultimately show ?thesis
    using pid m now by (cases r) (auto simp: daemon_Stop_def PIDAlive_def intro!: exI [of _ m])
next
  case False
  then show ?thesis by (auto simp: daemon_Stop_def split: sum.splits option.splits)
qed

theorem stop_is_sound_witness:
  "\<exists>r. daemon_Stop \<lparr>se_read = fine_pidIO, se_probe = fine_pidIO, se_alive = (\<lambda>k pid. k = 0), se_kill = None, se_start = 0,
       se_clock = (\<lambda>k. int k * retryPause)\<rparr> (10 * second)
     \<lparr>py_path = Some 0, py_next = 1, py_data = (\<lambda>_. pidText 7), py_lock = (\<lambda>_. Some 7)\<rparr> = Some (Some 7, r) \<and> r = Inr 7"
proof -
  let ?X = "\<lparr>se_read = fine_pidIO, se_probe = fine_pidIO, se_alive = (\<lambda>k pid. k = 0), se_kill = None, se_start = 0,
       se_clock = (\<lambda>k. int k * retryPause)\<rparr>"
  let ?s = "\<lparr>py_path = Some 0, py_next = 1, py_data = (\<lambda>_. pidText 7), py_lock = (\<lambda>_. Some 7)\<rparr>"
  have "sleeps (se_start ?X) (\<lambda>k. se_clock ?X (Suc k))" by (simp add: sleeps_def retryPause_def)
  from stop_is_sound [OF this, of "10 * second" ?s]
  obtain sig r where r: "daemon_Stop ?X (10 * second) ?s = Some (sig, r)" "\<forall>pid. sig = Some pid \<and> \<not> se_alive ?X 1 pid \<longrightarrow> r = Inr pid"
    by blast
  have "trimSpace (pidText 7) = itoa 7" by (simp add: pidText_def itoa_def trimSpace_snoc is_space_def)
  then have "ReadPID fine_pidIO ?s = Inr 7" "pidFileUnlocked fine_pidIO ?s = Inr False"
    by (simp_all add: ReadPID_def pidFileUnlocked_def fine_pidIO_def atoi_itoa)
  then have "sig = Some 7" using r(1) by (auto simp: daemon_Stop_def PIDAlive_def split: option.splits)
  with r show ?thesis by simp
qed

text \<open>\<open>CloseRemove\<close> gives up the lock before it removes the path. A process that opened the file before the removal
  and locks it after the release runs on an inode that has no name, and the next one creates a new file: two
  daemons run.\<close>

lemma pidfile_race: "\<exists>x p q i j. (pid_step True)\<^sup>*\<^sup>* pid_start x \<and> p \<noteq> q \<and> pw_pc x p = PRunning i \<and> pw_pc x q = PRunning j"
proof -
  let ?f = "\<lambda>d l path n. \<lparr>py_path = path, py_next = n, py_data = d, py_lock = l\<rparr>"
  let ?t = "\<lambda>p. pidText (int p)" and ?e = "\<lambda>_. [] :: bytes" and ?n = "\<lambda>_. None :: nat option" and ?idle = "\<lambda>_. PIdle"
  let ?x1 = "\<lparr>pw_sys = ?f (?e(0 := ?t 1)) (?n(0 := Some 1)) (Some 0) 1, pw_pc = ?idle(1 := PRunning 0)\<rparr>"
  let ?x2 = "\<lparr>pw_sys = pw_sys ?x1, pw_pc = ?idle(1 := PRunning 0, 2 := POpened 0)\<rparr>"
  let ?x3 = "\<lparr>pw_sys = ?f (?e(0 := ?t 1)) ?n (Some 0) 1, pw_pc = ?idle(1 := PLeaving, 2 := POpened 0)\<rparr>"
  let ?x4 = "\<lparr>pw_sys = ?f (?e(0 := ?t 1)) (?n(0 := Some 2)) (Some 0) 1, pw_pc = ?idle(1 := PLeaving, 2 := PLocked 0)\<rparr>"
  let ?x5 = "\<lparr>pw_sys = ?f (?e(0 := ?t 2)) (?n(0 := Some 2)) (Some 0) 1, pw_pc = ?idle(1 := PLeaving, 2 := PRunning 0)\<rparr>"
  let ?x6 = "\<lparr>pw_sys = ?f (?e(0 := ?t 2)) (?n(0 := Some 2)) None 1, pw_pc = ?idle(2 := PRunning 0)\<rparr>"
  let ?x7 = "\<lparr>pw_sys = ?f (?e(0 := ?t 2, 1 := ?t 3)) (?n(0 := Some 2, 1 := Some 3)) (Some 1) 2,
    pw_pc = ?idle(2 := PRunning 0, 3 := PRunning 1)\<rparr>"
  have z: "?e(0 := []) = ?e" "?n(0 := None) = ?n" by auto
  have 1: "(pid_step True)\<^sup>*\<^sup>* pid_start ?x1"
    using pid_acquire [of pid_start 1 "?f ?e ?n (Some 0) 1" 0 "?f ?e (?n(0 := Some 1)) (Some 0) 1" True]
    by (simp add: pid_start_def sys_create_def sys_lock_def sys_put_def z)
  have 2: "pid_step True ?x1 ?x2" using pid_step.opens [of ?x1 2 "pw_sys ?x1" 0 True] by (simp add: sys_create_def)
  have 3: "pid_step True ?x2 ?x3"
    using pid_step.leave [of ?x2 1 0 True] by (simp add: sys_unlock_def fun_upd_twist)
  have 4: "pid_step True ?x3 ?x4" using pid_step.lock [of ?x3 2 0 "pw_sys ?x4" True] by (simp add: sys_lock_def)
  have 5: "pid_step True ?x4 ?x5" using pid_step.writes [of ?x4 2 0 True] by (simp add: sys_put_def)
  have 6: "pid_step True ?x5 ?x6"
    using pid_step.remove [of ?x5 1 True] by (simp add: sys_remove_def fun_upd_twist fun_upd_idem)
  have 7: "(pid_step True)\<^sup>*\<^sup>* ?x6 ?x7"
    using pid_acquire [of ?x6 3 "?f (?e(0 := ?t 2, 1 := [])) (?n(0 := Some 2, 1 := None)) (Some 1) 2" 1
        "?f (?e(0 := ?t 2, 1 := [])) (?n(0 := Some 2, 1 := Some 3)) (Some 1) 2" True]
    by (simp add: sys_create_def sys_lock_def sys_put_def)
  have "(pid_step True)\<^sup>*\<^sup>* ?x1 ?x6"
    by (rule converse_rtranclp_into_rtranclp [of "pid_step True", OF 2], rule converse_rtranclp_into_rtranclp [of "pid_step True", OF 3],
        rule converse_rtranclp_into_rtranclp [of "pid_step True", OF 4], rule converse_rtranclp_into_rtranclp [of "pid_step True", OF 5],
        rule r_into_rtranclp [of "pid_step True", OF 6])
  from rtranclp_trans [OF rtranclp_trans [OF 1 this] 7] show ?thesis by (intro exI [of _ ?x7] exI [of _ 2] exI [of _ 3] exI [of _ 0] exI [of _ 1]) simp
qed

end
