(* ===== verification/Daemon.thy ===== *)
theory Daemon
  imports Enroll Discovery WgPeers DnsServe Pidfile
begin

text \<open>
  The daemon and the one-shot commands around it (\<open>src/internal/cli\<close>): \<open>up.go\<close>, \<open>hosts_sync.go\<close>,
  \<open>dns_server.go\<close>, \<open>down.go\<close>, \<open>network_watch.go\<close>, \<open>admin_preflight.go\<close>. One iteration composes the
  synchronisation of \<open>Admin\<close>, the relay controller, the WireGuard manager, the discovery store, the hosts
  file, the DNS listener and the endpoint observation. The machine is the admin's world, a kernel state
  \<open>'k\<close> and the files that hold hosts entries; the daemon's own memory is \<open>daemonRuntime\<close>. Every
  read of the clock is a value of its own.
\<close>

section \<open>The machine and the daemon's memory\<close>

record ('s, 'k) machine =
  mc_world :: "'s world"
  mc_kernel :: 'k
  mc_hosts :: "string \<Rightarrow> hostsEntry"

record dnsServerManager =
  dm_server :: "string server option"
  dm_current :: dnsConfig
  dm_lastWarn :: "error option"
  dm_warnedUpstreamFallback :: bool

record daemonRuntime =
  rt_controller :: Controller
  rt_prevModes :: "(string \<times> Mode) list"
  rt_lanStore :: "Store option"
  rt_dirHolder :: "directory option"
  rt_endpointPushedAt :: "(string \<times> gotime) list"
  rt_hSync :: "error option"
  rt_dnsMgr :: dnsServerManager

record 'k daemonEnv =
  dv_sync :: env
  dv_observe :: env
  dv_discovery :: io
  dv_kernel :: "'k kernelops"
  dv_resolve :: "string \<Rightarrow> string option"
  dv_hosts :: hostsIO
  dv_net :: netEnv
  dv_resolvConf :: "bytes res"
  dv_update :: gotime
  dv_marked :: gotime
  dv_lookup :: "string \<Rightarrow> gotime"
  dv_apply :: gotime
  dv_pushed :: gotime
  dv_gc :: gotime
  dv_written :: gotime
  dv_merge :: gotime

definition zero_dnsConfig :: dnsConfig where
  "zero_dnsConfig = \<lparr>dc_Addr = [], dc_Domain = [], dc_Upstream = [], dc_Timeout = 0\<rparr>"

definition zero_relayConfig :: relayConfig where
  "zero_relayConfig = \<lparr>rc_DirectFailedAfter = 0, rc_DirectGracePeriod = 0\<rparr>"

definition newDaemonRuntime :: daemonRuntime where
  "newDaemonRuntime =
     \<lparr>rt_controller = NewController zero_relayConfig, rt_prevModes = [], rt_lanStore = None, rt_dirHolder = None,
      rt_endpointPushedAt = [], rt_hSync = None,
      rt_dnsMgr = \<lparr>dm_server = None, dm_current = zero_dnsConfig, dm_lastWarn = None, dm_warnedUpstreamFallback = False\<rparr>\<rparr>"

section \<open>Hosts entries\<close>

definition hostsPath :: "Config \<Rightarrow> string" where
  "hostsPath cfg = (if nc_HostsPath (c_DNS cfg) \<noteq> [] then nc_HostsPath (c_DNS cfg) else hosts_DefaultPath)"

text \<open>The innermost error of the chain stands for its text. A joined error has no single successor.\<close>

fun rootCause :: "error \<Rightarrow> error" where
  "rootCause (Wrap m e) = rootCause e"
| "rootCause e = e"

text \<open>The syncer's memory is the cause it warned about last; \<open>None\<close> is the empty string.\<close>

definition hostsSyncer_sync ::
  "hostsIO \<Rightarrow> Config \<Rightarrow> directory \<Rightarrow> error option \<Rightarrow> (string \<Rightarrow> hostsEntry) \<Rightarrow> (string \<Rightarrow> hostsEntry) \<times> error option" where
  "hostsSyncer_sync io cfg dir lastWarn hosts =
     (if \<not> ManageHostsEnabled (c_DNS cfg) then (hosts, lastWarn)
      else let path = hostsPath cfg
           in case hosts_Apply io (wc_Interface (c_Wireguard cfg)) (Block dir) (hosts path) of
                (f, Inl e) \<Rightarrow> (hosts(path := f), Some (rootCause e))
              | (f, Inr _) \<Rightarrow> (hosts(path := f), None))"

definition removeHostsBlock :: "hostsIO \<Rightarrow> Config \<Rightarrow> (string \<Rightarrow> hostsEntry) \<Rightarrow> string \<Rightarrow> hostsEntry" where
  "removeHostsBlock io cfg hosts =
     (if \<not> ManageHostsEnabled (c_DNS cfg) then hosts
      else let path = hostsPath cfg
           in hosts(path := fst (hosts_Apply io (wc_Interface (c_Wireguard cfg)) [] (hosts path))))"

section \<open>The DNS listener\<close>

definition shouldServeDNS :: "Config \<Rightarrow> directory \<Rightarrow> node \<Rightarrow> bool" where
  "shouldServeDNS cfg dir self =
     (if d_Domain dir = [] then False
      else case nc_Serve (c_DNS cfg) of
             Some b \<Rightarrow> b
           | None \<Rightarrow>
               if n_Relay self then True
               else (case RelayTarget dir [] of
                       None \<Rightarrow> False
                     | Some target \<Rightarrow> n_PublicKey target = n_PublicKey self))"

definition dnsMgr_stop :: "dnsServerManager \<Rightarrow> dnsServerManager" where
  "dnsMgr_stop m =
     (case dm_server m of None \<Rightarrow> m | Some _ \<Rightarrow> m\<lparr>dm_server := None, dm_current := zero_dnsConfig\<rparr>)"

definition dnsMgr_upstream :: "bytes res \<Rightarrow> Config \<Rightarrow> dnsServerManager \<Rightarrow> dnsServerManager \<times> string" where
  "dnsMgr_upstream resolvConf cfg m =
     (if nc_Upstream (c_DNS cfg) \<noteq> [] then (m, nc_Upstream (c_DNS cfg))
      else case upstreamFromResolvConf resolvConf of
             Inr upstream \<Rightarrow> (m, upstream)
           | Inl _ \<Rightarrow> (m\<lparr>dm_warnedUpstreamFallback := True\<rparr>, ''1.1.1.1:53''))"

definition dnsMgr_start :: "netEnv \<Rightarrow> dnsConfig \<Rightarrow> dnsServerManager \<Rightarrow> dnsServerManager" where
  "dnsMgr_start N desired m =
     (case dnsserve_Start N desired of
        Inl e \<Rightarrow> m\<lparr>dm_lastWarn := Some (rootCause e)\<rparr>
      | Inr server \<Rightarrow> m\<lparr>dm_server := Some server, dm_current := desired, dm_lastWarn := None\<rparr>)"

definition desired_dns :: "directory \<Rightarrow> node \<Rightarrow> string \<Rightarrow> dnsConfig" where
  "desired_dns dir self upstream =
     zero_dnsConfig\<lparr>dc_Addr := joinHostPort (n_TunnelIP self) ''53'', dc_Domain := d_Domain dir, dc_Upstream := upstream\<rparr>"

definition dnsMgr_reconcile ::
  "netEnv \<Rightarrow> bytes res \<Rightarrow> Config \<Rightarrow> directory \<Rightarrow> node \<Rightarrow> dnsServerManager \<Rightarrow> dnsServerManager" where
  "dnsMgr_reconcile N resolvConf cfg dir self m =
     (if \<not> shouldServeDNS cfg dir self then dnsMgr_stop m
      else case dnsMgr_upstream resolvConf cfg m of
             (m1, upstream) \<Rightarrow>
               let desired = desired_dns dir self upstream
               in if dm_server m1 \<noteq> None \<and> dm_current m1 = desired then m1
                  else dnsMgr_start N desired (dnsMgr_stop m1))"

section \<open>The relay pass\<close>

fun markLANFailures :: "(string \<times> PeerState) list \<Rightarrow> (string \<times> Mode) list \<Rightarrow> gotime \<Rightarrow> Store \<Rightarrow> Store" where
  "markLANFailures [] prev now store = store"
| "markLANFailures ((key, state) # states) prev now store =
     markLANFailures states prev now
       (case map_of prev key of
          None \<Rightarrow> store
        | Some old \<Rightarrow>
            if old = ModeDirect \<and> ps_Mode state = ModeRelayed then MarkFailed key now store else store)"

definition relayedPeerNames :: "directory \<Rightarrow> string list \<Rightarrow> string list" where
  "relayedPeerNames dir relayed = map n_Name (filter (\<lambda>n. n_PublicKey n \<in> set relayed) (d_Nodes dir))"

text \<open>What \<open>logRelayTransitions\<close> leaves in \<open>prevModes\<close>.\<close>

definition logRelayTransitions :: "Decision \<Rightarrow> (string \<times> Mode) list \<Rightarrow> (string \<times> Mode) list" where
  "logRelayTransitions decision prev =
     (let states = de_PeerStates decision
      in if states = [] then prev
         else filter (\<lambda>(k, _). k \<in> fst ` set states)
                (fold (\<lambda>(k, s) p. if map_of p k = Some (ps_Mode s) then p else AList.update k (ps_Mode s) p) states prev))"

definition recordEndpointPushes ::
  "string list \<Rightarrow> directory \<Rightarrow> gotime \<Rightarrow> (string \<times> gotime) list \<Rightarrow> (string \<times> gotime) list" where
  "recordEndpointPushes pushed dir now pushedAt =
     filter (\<lambda>(k, _). k \<in> set (map n_PublicKey (d_Nodes dir)))
       (fold (\<lambda>key m. AList.update key now m) pushed pushedAt)"

definition initialRelayedPeers :: "wglib \<Rightarrow> gotime \<Rightarrow> node \<Rightarrow> directory \<Rightarrow> string list" where
  "initialRelayedPeers W now self dir =
     de_Relayed (snd (relay_Update W (NewController zero_relayConfig) self dir [] now))"

definition lanLookup_of :: "(string \<Rightarrow> gotime) \<Rightarrow> Store option \<Rightarrow> LANEndpointLookup" where
  "lanLookup_of now lanStore =
     map_option (\<lambda>store pubkey staleOK. if staleOK then LookupLastKnown store pubkey else Lookup store pubkey (now pubkey)) lanStore"

definition reconcileRelay ::
  "'k daemonEnv \<Rightarrow> Config \<Rightarrow> node \<Rightarrow> directory \<Rightarrow> 'k \<Rightarrow> daemonRuntime \<Rightarrow>
   'k \<times> daemonRuntime \<times> (Manager \<times> Decision) res" where
  "reconcileRelay V cfg self dir k r =
     (let W = l_wg (e_libs (dv_sync V)); K = dv_kernel V
      in case NewManager W (c_Wireguard cfg) of
           Inl e \<Rightarrow> (k, r, Inl e)
         | Inr manager \<Rightarrow>
             (case Up K manager k of
                (k1, Some e) \<Rightarrow> (k1, r, Inl e)
              | (k1, None) \<Rightarrow>
                  let peers = (case manager_Peers K manager k1 of Inl _ \<Rightarrow> [] | Inr ps \<Rightarrow> ps)
                  in case relay_Update W (rt_controller r) self dir peers (dv_update V) of
                       (controller, decision) \<Rightarrow>
                         let lan = map_option (markLANFailures (de_PeerStates decision) (rt_prevModes r) (dv_marked V)) (rt_lanStore r);
                             prev = logRelayTransitions decision (rt_prevModes r)
                         in case Apply W K (dv_resolve V) (dv_apply V) manager self dir (de_Relayed decision)
                                   (lanLookup_of (dv_lookup V) lan) k1 of
                              (k2, pushed, applyErr) \<Rightarrow>
                                (k2,
                                 r\<lparr>rt_controller := controller, rt_lanStore := lan, rt_prevModes := prev,
                                   rt_endpointPushedAt := recordEndpointPushes pushed dir (dv_pushed V) (rt_endpointPushedAt r)\<rparr>,
                                 case applyErr of Some e \<Rightarrow> Inl e | None \<Rightarrow> Inr (manager, decision))))"

definition runRelayTick :: "'k daemonEnv \<Rightarrow> Config \<Rightarrow> 'k \<Rightarrow> daemonRuntime \<Rightarrow> 'k \<times> daemonRuntime" where
  "runRelayTick V cfg k r =
     (case rt_dirHolder r of
        None \<Rightarrow> (k, r)
      | Some dir \<Rightarrow>
          (case findSelf cfg dir of
             Inl _ \<Rightarrow> (k, r)
           | Inr self \<Rightarrow> (case reconcileRelay V cfg self dir k r of (k', r', _) \<Rightarrow> (k', r'))))"

section \<open>Observation\<close>

definition runAdminObservation ::
  "'k daemonEnv \<Rightarrow> (DropBackend \<Rightarrow> 's dropI res) \<Rightarrow> Config \<Rightarrow> Manager \<Rightarrow> u64 \<Rightarrow> (string \<times> gotime) list \<Rightarrow> 'k \<Rightarrow>
   's world \<Rightarrow> 's world \<times> unit res" where
  "runAdminObservation V newDrop cfg manager syncedSerial pushedAt k w =
     (let E = dv_observe V
      in case wrapR ''[observe].enabled requires admin role'' (RequireAdmin (e_libs E) cfg) of
           Inl e \<Rightarrow> (w, Inl e)
         | Inr _ \<Rightarrow>
             (case bindR (LockAdmin (e_io E 8)) (\<lambda>_. loadAdminDrop newDrop cfg) of
                Inl e \<Rightarrow> (w, Inl e)
              | Inr D \<Rightarrow>
                  (case wrapR ''fetch directory before observation'' (fetchDirectory E cfg D (w_drop w)) of
                     Inl e \<Rightarrow> (w, Inl e)
                   | Inr remote \<Rightarrow>
                       if d_Serial remote < syncedSerial then (w, Inl (Err ''published serial is older than synced serial''))
                       else (case wrapR ''read source directory'' (ReadSource (e_libs E) (e_io E 0) (w_disk w)) of
                               Inl e \<Rightarrow> (w, Inl e)
                             | Inr source \<Rightarrow>
                                 if pendingAdminChanges E source remote then (w, Inr ())
                                 else (case manager_Peers (dv_kernel V) manager k of
                                         Inl e \<Rightarrow> (w, Inl e)
                                       | Inr peers \<Rightarrow>
                                           (case MergeObservations (l_wg (e_libs E)) remote peers (dv_merge V)
                                                   (od_Or (oc_HandshakeFresh (c_Observe cfg)) DefaultHandshakeFresh) pushedAt of
                                              (updated, changed) \<Rightarrow>
                                                if \<not> changed then (w, Inr ())
                                                else (case preparePublishSerial E updated (Inr remote) False (w_disk w) of
                                                        Inl e \<Rightarrow> (w, Inl e)
                                                      | Inr updated' \<Rightarrow> publishDirectory E cfg D updated' True w)))))))"

section \<open>One iteration\<close>

text \<open>The part of an iteration that keeps the discovery store.\<close>

definition tendStore :: "'k daemonEnv \<Rightarrow> Manager \<Rightarrow> node \<Rightarrow> directory \<Rightarrow> 'k \<Rightarrow> Store \<Rightarrow> Store" where
  "tendStore V manager self dir k store =
     (let s1 = (case manager_ListenPort (dv_kernel V) manager k of
                  Inl _ \<Rightarrow> store | Inr port \<Rightarrow> SetSelf (n_PublicKey self) port store)
      in fst (GC (dv_gc V) (mul64 10 (TTL s1)) (Some (map n_PublicKey (d_Nodes dir))) s1))"

text \<open>The part after the directory was applied: hosts entries, the DNS listener, the discovery store, observation.\<close>

definition iteration_tail ::
  "'k daemonEnv \<Rightarrow> (DropBackend \<Rightarrow> 's dropI res) \<Rightarrow> Config \<Rightarrow> syncResult \<Rightarrow> node \<Rightarrow> Manager \<Rightarrow> ('s, 'k) machine \<Rightarrow> daemonRuntime \<Rightarrow>
   ('s, 'k) machine \<times> daemonRuntime \<times> unit res" where
  "iteration_tail V newDrop cfg res self manager M r =
     (let dir = sr_Directory res; k = mc_kernel M; w = mc_world M
      in case hostsSyncer_sync (dv_hosts V) cfg dir (rt_hSync r) (mc_hosts M) of
           (hosts, lastWarn) \<Rightarrow>
             let mgr = dnsMgr_reconcile (dv_net V) (dv_resolvConf V) cfg dir self (rt_dnsMgr r);
                 lan = map_option (tendStore V manager self dir k) (rt_lanStore r);
                 w1 = (case lan of
                         None \<Rightarrow> w
                       | Some store \<Rightarrow>
                           w\<lparr>w_disk := fst (WriteDiscovery (e_json (dv_sync V)) (dv_discovery V) (dv_written V) (Snapshot store) (w_disk w))\<rparr>);
                 r1 = r\<lparr>rt_hSync := lastWarn, rt_dnsMgr := mgr, rt_lanStore := lan\<rparr>
             in if \<not> observe_IsEnabled (c_Observe cfg) then (M\<lparr>mc_world := w1, mc_hosts := hosts\<rparr>, r1, Inr ())
                else (case runAdminObservation V newDrop cfg manager (sr_Serial res) (rt_endpointPushedAt r) k w1 of
                        (w2, ro) \<Rightarrow>
                          (M\<lparr>mc_world := w2, mc_hosts := hosts\<rparr>, r1,
                           case ro of
                             Inl e \<Rightarrow> if oc_Enabled (c_Observe cfg) = Some True then Inl e else Inr ()
                           | Inr _ \<Rightarrow> Inr ())))"

definition runDaemonIteration ::
  "'k daemonEnv \<Rightarrow> (DropBackend \<Rightarrow> 's dropI res) \<Rightarrow> Config \<Rightarrow> ('s, 'k) machine \<Rightarrow> daemonRuntime \<Rightarrow>
   ('s, 'k) machine \<times> daemonRuntime \<times> unit res" where
  "runDaemonIteration V newDrop cfg M r =
     (case runSyncOnce (dv_sync V) newDrop cfg (w_drop (mc_world M)) (w_disk (mc_world M)) of
        (d, Inl e) \<Rightarrow> (M\<lparr>mc_world := (mc_world M)\<lparr>w_disk := d\<rparr>\<rparr>, r, Inl e)
      | (d, Inr res) \<Rightarrow>
          let dir = sr_Directory res; M1 = M\<lparr>mc_world := (mc_world M)\<lparr>w_disk := d\<rparr>\<rparr>; r1 = r\<lparr>rt_dirHolder := Some dir\<rparr>
          in case findSelf cfg dir of
               Inl e \<Rightarrow> (M1, r1, Inl e)
             | Inr self \<Rightarrow>
                 (case reconcileRelay V cfg self dir (mc_kernel M1) r1 of
                    (k, r2, Inl e) \<Rightarrow> (M1\<lparr>mc_kernel := k\<rparr>, r2, Inl e)
                  | (k, r2, Inr (manager, decision)) \<Rightarrow> iteration_tail V newDrop cfg res self manager (M1\<lparr>mc_kernel := k\<rparr>) r2))"

section \<open>Waiting for the next iteration\<close>

definition minWakeInterval :: duration where "minWakeInterval = 10 * second"
definition relayTickInterval :: duration where "relayTickInterval = 30 * second"

definition add64 :: "int \<Rightarrow> int \<Rightarrow> int" where
  "add64 a b = sint (word_of_int (a + b) :: 64 word)"

text \<open>\<open>rnd n\<close> is the value \<open>mrand.Int64N(n)\<close> returns, from 0 to \<open>n - 1\<close>.\<close>

definition jitter :: "(int \<Rightarrow> int) \<Rightarrow> duration \<Rightarrow> duration" where
  "jitter rnd d =
     (if d \<le> 0 then d
      else let span = d div 5; delta = rnd (span + 1) - span div 2 in add64 d delta)"

definition iterationTimeout :: "duration \<Rightarrow> duration" where
  "iterationTimeout interval =
     (if interval \<le> 10 * second then 30 * second
      else let t = interval - 5 * second in if t > 60 * second then 60 * second else t)"

datatype signal = SIGHUP | SIGTERM | SIGINT

text \<open>What the \<open>select\<close> finds when it looks: a channel with a value, or the clock alone, against which the
  timer is due or not.\<close>

datatype waitEvent = CtxDone error | Signal signal | Tick | Wake | Look

record waitState =
  ws_timer :: gotime
  ws_wakePending :: bool

definition waitStart :: "gotime \<Rightarrow> duration \<Rightarrow> waitState" where
  "waitStart lastReconcile interval = \<lparr>ws_timer = lastReconcile + interval, ws_wakePending = False\<rparr>"

fun waitEvent_step ::
  "gotime \<Rightarrow> duration \<Rightarrow> duration \<Rightarrow> gotime \<Rightarrow> waitEvent \<Rightarrow> waitState \<Rightarrow> waitState + (bool \<times> error option)" where
  "waitEvent_step lastReconcile interval minWake now (CtxDone e) s = Inr (False, Some e)"
| "waitEvent_step lastReconcile interval minWake now (Signal SIGHUP) s = Inr (True, None)"
| "waitEvent_step lastReconcile interval minWake now (Signal SIGTERM) s = Inr (False, None)"
| "waitEvent_step lastReconcile interval minWake now (Signal SIGINT) s = Inr (False, None)"
| "waitEvent_step lastReconcile interval minWake now Tick s = Inl s"
| "waitEvent_step lastReconcile interval minWake now Wake s =
     (let wakeDeadline = lastReconcile + minWake; intervalDeadline = lastReconcile + interval
      in if \<not> now < wakeDeadline then Inr (True, None)
         else if \<not> ws_wakePending s
         then Inl (s\<lparr>ws_timer := (if wakeDeadline < intervalDeadline then wakeDeadline else intervalDeadline), ws_wakePending := True\<rparr>)
         else Inl s)"
| "waitEvent_step lastReconcile interval minWake now Look s = (if ws_timer s \<le> now then Inr (True, None) else Inl s)"

text \<open>\<open>es i\<close> is the \<open>i\<close>-th thing the loop finds and when; \<open>onTick\<close> works on the state \<open>r\<close>. The result is the index
  at which the loop returned, what it returned and the state; \<open>None\<close> is a loop that does not end.\<close>

partial_function (option) wait_loop ::
  "gotime \<Rightarrow> duration \<Rightarrow> duration \<Rightarrow> (nat \<Rightarrow> 'r \<Rightarrow> 'r) \<Rightarrow> (nat \<Rightarrow> gotime \<times> waitEvent) \<Rightarrow> nat \<Rightarrow> waitState \<Rightarrow> 'r \<Rightarrow>
   (nat \<times> (bool \<times> error option) \<times> 'r) option" where
  "wait_loop lastReconcile interval minWake onTick es i s r =
     (case waitEvent_step lastReconcile interval minWake (fst (es i)) (snd (es i)) s of
        Inr res \<Rightarrow> Some (i, res, r)
      | Inl s' \<Rightarrow> wait_loop lastReconcile interval minWake onTick es (Suc i) s' (if snd (es i) = Tick then onTick i r else r))"

definition waitForReconcile ::
  "(nat \<Rightarrow> gotime \<times> waitEvent) \<Rightarrow> (nat \<Rightarrow> 'r \<Rightarrow> 'r) \<Rightarrow> duration \<Rightarrow> duration \<Rightarrow> gotime \<Rightarrow> 'r \<Rightarrow>
   (nat \<times> (bool \<times> error option) \<times> 'r) option" where
  "waitForReconcile es onTick interval minWake lastReconcile r =
     wait_loop lastReconcile interval minWake onTick es 0 (waitStart lastReconcile interval) r"

section \<open>The loop of the daemon\<close>

text \<open>What one turn of the loop meets: the configuration as it loads, the environment of the iteration and of each
  relay tick, the drops, the random numbers of the jitter, the clock after the iteration and the events of the wait.\<close>

record ('s, 'k) turn =
  tn_config :: "Config res"
  tn_env :: "'k daemonEnv"
  tn_newDrop :: "DropBackend \<Rightarrow> 's dropI res"
  tn_rnd :: "int \<Rightarrow> int"
  tn_reconciled :: gotime
  tn_events :: "nat \<Rightarrow> gotime \<times> waitEvent"
  tn_ticks :: "nat \<Rightarrow> 'k daemonEnv"

definition daemon_iterate :: "('s, 'k) turn \<Rightarrow> ('s, 'k) machine \<times> daemonRuntime \<Rightarrow> ('s, 'k) machine \<times> daemonRuntime" where
  "daemon_iterate T = (\<lambda>(M, r).
     case tn_config T of
       Inl _ \<Rightarrow> (M, r)
     | Inr cfg \<Rightarrow> (case runDaemonIteration (tn_env T) (tn_newDrop T) cfg M r of (M', r', _) \<Rightarrow> (M', r')))"

definition daemon_tick :: "('s, 'k) turn \<Rightarrow> nat \<Rightarrow> ('s, 'k) machine \<times> daemonRuntime \<Rightarrow> ('s, 'k) machine \<times> daemonRuntime" where
  "daemon_tick T i = (\<lambda>(M, r).
     case tn_config T of
       Inl _ \<Rightarrow> (M, r)
     | Inr cfg \<Rightarrow> (case runRelayTick (tn_ticks T i) cfg (mc_kernel M) r of (k, r') \<Rightarrow> (M\<lparr>mc_kernel := k\<rparr>, r')))"

definition daemon_turn ::
  "('s, 'k) turn \<Rightarrow> ('s, 'k) machine \<times> daemonRuntime \<Rightarrow> ((bool \<times> error option) \<times> ('s, 'k) machine \<times> daemonRuntime) option" where
  "daemon_turn T st =
     (let interval = (case tn_config T of Inl _ \<Rightarrow> DefaultInterval | Inr cfg \<Rightarrow> od_Or (sc_Interval (c_Sync cfg)) DefaultInterval)
      in case waitForReconcile (tn_events T) (daemon_tick T) (jitter (tn_rnd T) interval) minWakeInterval (tn_reconciled T)
                (daemon_iterate T st) of
           None \<Rightarrow> None
         | Some (_, res, st') \<Rightarrow> Some (res, st'))"

partial_function (option) runDaemonLoop ::
  "(nat \<Rightarrow> ('s, 'k) turn) \<Rightarrow> nat \<Rightarrow> ('s, 'k) machine \<times> daemonRuntime \<Rightarrow> (error option \<times> ('s, 'k) machine \<times> daemonRuntime) option" where
  "runDaemonLoop T n st =
     (case daemon_turn (T n) st of
        None \<Rightarrow> None
      | Some ((proceed, e), st') \<Rightarrow>
          if proceed then runDaemonLoop T (Suc n) st'
          else Some (e, fst st', (snd st')\<lparr>rt_dnsMgr := dnsMgr_stop (rt_dnsMgr (snd st'))\<rparr>))"

section \<open>Up and down, once\<close>

definition runUpOnce ::
  "'k daemonEnv \<Rightarrow> (DropBackend \<Rightarrow> 's dropI res) \<Rightarrow> Config \<Rightarrow> bool \<Rightarrow> ('s, 'k) machine \<Rightarrow> ('s, 'k) machine \<times> unit res" where
  "runUpOnce V newDrop cfg noSync M =
     (let E = dv_sync V; W = l_wg (e_libs E); w = mc_world M; K = dv_kernel V
      in case (if noSync
               then (w_disk w, wrapR ''read cache'' (bindR (Read (e_libs E) (e_io E 0) (w_disk w)) (\<lambda>(dir, _). Inr dir)))
               else (case runSyncOnce E newDrop cfg (w_drop w) (w_disk w) of
                       (d, Inl e) \<Rightarrow> (d, Inl e) | (d, Inr res) \<Rightarrow> (d, Inr (sr_Directory res)))) of
           (d, r) \<Rightarrow>
             let M1 = M\<lparr>mc_world := w\<lparr>w_disk := d\<rparr>\<rparr>
             in case bindR r (\<lambda>dir. bindR (findSelf cfg dir) (\<lambda>self. bindR (NewManager W (c_Wireguard cfg)) (\<lambda>m. Inr (dir, self, m)))) of
                  Inl e \<Rightarrow> (M1, Inl e)
                | Inr (dir, self, manager) \<Rightarrow>
                    (case Up K manager (mc_kernel M1) of
                       (k1, Some e) \<Rightarrow> (M1\<lparr>mc_kernel := k1\<rparr>, Inl e)
                     | (k1, None) \<Rightarrow>
                         (case Apply W K (dv_resolve V) (dv_apply V) manager self dir
                                 (initialRelayedPeers W (dv_update V) self dir) None k1 of
                            (k2, _, Some e) \<Rightarrow> (M1\<lparr>mc_kernel := k2\<rparr>, Inl e)
                          | (k2, _, None) \<Rightarrow>
                              (M1\<lparr>mc_kernel := k2, mc_hosts := fst (hostsSyncer_sync (dv_hosts V) cfg dir None (mc_hosts M1))\<rparr>, Inr ()))))"

definition daemonStopWait :: duration where "daemonStopWait = 10 * second"

text \<open>\<open>linkNotFound\<close> tells whether a \<open>netlink.LinkNotFoundError\<close> is in the chain. \<open>None\<close> is a stop that does not
  return.\<close>

definition DownCmd ::
  "(error \<Rightarrow> bool) \<Rightarrow> 'k daemonEnv \<Rightarrow> stopEnv \<Rightarrow> Config res \<Rightarrow> bool \<Rightarrow> pidSys \<Rightarrow> ('s, 'k) machine \<Rightarrow> (('s, 'k) machine \<times> unit res) option" where
  "DownCmd linkNotFound V X loaded stop p M =
     (case loaded of
        Inl e \<Rightarrow> Some (M, Inl e)
      | Inr cfg \<Rightarrow>
          (case (if stop then map_option snd (daemon_Stop X daemonStopWait p) else Some (Inl ErrNotRunning)) of
             None \<Rightarrow> None
           | Some (Inl (StopError e)) \<Rightarrow> Some (M, Inl (Wrap ''re-run down --stop once it has exited'' e))
           | Some _ \<Rightarrow>
               Some (case NewManager (l_wg (e_libs (dv_sync V))) (c_Wireguard cfg) of
                       Inl e \<Rightarrow> (M, Inl e)
                     | Inr manager \<Rightarrow>
                         (case Teardown (dv_kernel V) manager (mc_kernel M) of
                            (k, Some e) \<Rightarrow>
                              if linkNotFound e
                              then (M\<lparr>mc_kernel := k, mc_hosts := removeHostsBlock (dv_hosts V) cfg (mc_hosts M)\<rparr>, Inr ())
                              else (M\<lparr>mc_kernel := k\<rparr>, Inl e)
                          | (k, None) \<Rightarrow>
                              (M\<lparr>mc_kernel := k, mc_hosts := removeHostsBlock (dv_hosts V) cfg (mc_hosts M)\<rparr>, Inr ())))))"

section \<open>Watching the network\<close>

definition skipLink :: "string \<Rightarrow> string \<Rightarrow> bool" where
  "skipLink ourIface name = (name = ''lo'' \<or> name = ourIface)"

definition addrKey :: "int \<Rightarrow> string \<Rightarrow> string" where
  "addrKey linkIdx ipnet = itoa linkIdx @ ''|'' @ ipnet"

definition observeKey :: "string \<Rightarrow> bool \<Rightarrow> string list \<Rightarrow> string list \<times> bool" where
  "observeKey key isNew seen =
     (if isNew then (if key \<in> set seen then (seen, False) else (key # seen, True))
      else if key \<notin> set seen then (seen, False)
      else (removeAll key seen, True))"

text \<open>\<open>links\<close> is \<open>netlink.LinkList\<close> with the name, the index and the addresses of each link; an address
  without a network is \<open>None\<close>.\<close>

definition tracker_prime :: "string \<Rightarrow> (string \<times> int \<times> string option list res) list res \<Rightarrow> string list \<Rightarrow> string list" where
  "tracker_prime ourIface links seen =
     (case links of
        Inl _ \<Rightarrow> seen
      | Inr ls \<Rightarrow>
          fold (\<lambda>(name, idx, addrs) acc.
            if skipLink ourIface name then acc
            else case addrs of
                   Inl _ \<Rightarrow> acc
                 | Inr as \<Rightarrow> fold (\<lambda>a acc. case a of None \<Rightarrow> acc | Some n \<Rightarrow> List.insert (addrKey idx n) acc) as acc) ls seen)"

definition tracker_observe :: "string \<Rightarrow> string res \<Rightarrow> int \<Rightarrow> string \<Rightarrow> bool \<Rightarrow> string list \<Rightarrow> string list \<times> bool" where
  "tracker_observe ourIface linkName idx ipnet newAddr seen =
     (case linkName of
        Inl _ \<Rightarrow> (seen, False)
      | Inr name \<Rightarrow>
          if skipLink ourIface name then (seen, False)
          else observeKey (addrKey idx ipnet) newAddr seen)"

section \<open>Preflight\<close>

definition ipForwardEnabled :: "bytes res \<Rightarrow> bool" where
  "ipForwardEnabled contents = (case contents of Inl _ \<Rightarrow> False | Inr b \<Rightarrow> trimSpace b = ''1'')"

text \<open>Whether the daemon warns that it cannot relay.\<close>

definition startAdminPreflight :: "libs \<Rightarrow> Config res \<Rightarrow> bytes res \<Rightarrow> bool" where
  "startAdminPreflight L loaded ipForward =
     (case loaded of
        Inl _ \<Rightarrow> False
      | Inr cfg \<Rightarrow> (case RequireAdmin L cfg of Inl _ \<Rightarrow> False | Inr _ \<Rightarrow> \<not> ipForwardEnabled ipForward))"

text \<open>\<open>discovery.Start\<close> opens the sockets; the store it returns is the parameter.\<close>

definition startDiscovery :: "(discoveryConfig \<Rightarrow> Store res) \<Rightarrow> Config res \<Rightarrow> Store option" where
  "startDiscovery start loaded =
     (case loaded of
        Inl _ \<Rightarrow> None
      | Inr cfg \<Rightarrow>
          if \<not> discovery_IsEnabled (c_Discovery cfg) then None
          else case start \<lparr>yc_MulticastIPv4 = xc_MulticastIPv4 (c_Discovery cfg),
                           yc_MulticastIPv6 = xc_MulticastIPv6 (c_Discovery cfg),
                           yc_BeaconInterval = od_Or (xc_BeaconInterval (c_Discovery cfg)) DefaultDiscoveryBeaconInterval,
                           yc_BeaconTTL = od_Or (xc_BeaconTTL (c_Discovery cfg)) DefaultDiscoveryBeaconTTL,
                           yc_InterfaceFilter = wc_Interface (c_Wireguard cfg)\<rparr> of
                 Inl _ \<Rightarrow> None
               | Inr store \<Rightarrow> Some store)"

section \<open>The relay pass, by its steps\<close>

lemma reconcileRelay_ok:
  assumes "reconcileRelay V cfg self dir k r = (k', r', Inr (manager, decision))"
  obtains k1 lan pushed where "NewManager (l_wg (e_libs (dv_sync V))) (c_Wireguard cfg) = Inr manager"
    and "Apply (l_wg (e_libs (dv_sync V))) (dv_kernel V) (dv_resolve V) (dv_apply V) manager self dir (de_Relayed decision)
       (lanLookup_of (dv_lookup V) lan) k1 = (k', pushed, None)"
    and "rt_endpointPushedAt r' = recordEndpointPushes pushed dir (dv_pushed V) (rt_endpointPushedAt r)"
    and "rt_dirHolder r' = rt_dirHolder r" and "rt_hSync r' = rt_hSync r"
proof -
  let ?W = "l_wg (e_libs (dv_sync V))"
  obtain m where m: "NewManager ?W (c_Wireguard cfg) = Inr m"
    using assms by (cases "NewManager ?W (c_Wireguard cfg)") (auto simp: reconcileRelay_def)
  obtain k1 where u: "Up (dv_kernel V) m k = (k1, None)"
    using assms by (cases "Up (dv_kernel V) m k"; cases "snd (Up (dv_kernel V) m k)") (auto simp: reconcileRelay_def m)
  let ?peers = "case manager_Peers (dv_kernel V) m k1 of Inl _ \<Rightarrow> [] | Inr ps \<Rightarrow> ps"
  obtain c dec where c: "relay_Update ?W (rt_controller r) self dir ?peers (dv_update V) = (c, dec)" by fastforce
  define lan where "lan = map_option (markLANFailures (de_PeerStates dec) (rt_prevModes r) (dv_marked V)) (rt_lanStore r)"
  obtain k2 pushed err where a: "Apply ?W (dv_kernel V) (dv_resolve V) (dv_apply V) m self dir (de_Relayed dec)
      (lanLookup_of (dv_lookup V) lan) k1 = (k2, pushed, err)" by (metis prod_cases3)
  show ?thesis
    using assms that [of lan k1 pushed] m u c a
    by (cases err) (auto simp: reconcileRelay_def Let_def lan_def)
qed

text \<open>What the tail of an iteration did to each part.\<close>

lemma iteration_tail_cases:
  assumes "iteration_tail V newDrop cfg sr self manager M r = (M', r', res)"
  obtains w1 ro where "mc_kernel M' = mc_kernel M" and "rt_dirHolder r' = rt_dirHolder r"
    and "rt_endpointPushedAt r' = rt_endpointPushedAt r"
    and "mc_hosts M' = fst (hostsSyncer_sync (dv_hosts V) cfg (sr_Directory sr) (rt_hSync r) (mc_hosts M))"
    and "w1 = mc_world M \<or> (\<exists>snap. w1 = (mc_world M)\<lparr>w_disk :=
        fst (WriteDiscovery (e_json (dv_sync V)) (dv_discovery V) (dv_written V) snap (w_disk (mc_world M)))\<rparr>)"
    and "mc_world M' = w1 \<or>
      runAdminObservation V newDrop cfg manager (sr_Serial sr) (rt_endpointPushedAt r) (mc_kernel M) w1 = (mc_world M', ro)"
proof -
  let ?w = "mc_world M" and ?dir = "sr_Directory sr"
  let ?lan = "map_option (tendStore V manager self ?dir (mc_kernel M)) (rt_lanStore r)"
  let ?W = "\<lambda>snap. ?w\<lparr>w_disk := fst (WriteDiscovery (e_json (dv_sync V)) (dv_discovery V) (dv_written V) snap (w_disk ?w))\<rparr>"
  define w1 where "w1 = (case ?lan of None \<Rightarrow> ?w | Some store \<Rightarrow> ?W (Snapshot store))"
  obtain hosts lw where h: "hostsSyncer_sync (dv_hosts V) cfg ?dir (rt_hSync r) (mc_hosts M) = (hosts, lw)" by fastforce
  obtain w2 ro where o: "runAdminObservation V newDrop cfg manager (sr_Serial sr) (rt_endpointPushedAt r) (mc_kernel M) w1 = (w2, ro)"
    by fastforce
  note it = assms [unfolded iteration_tail_def Let_def h prod.case, folded w1_def, unfolded o prod.case]
  show ?thesis
  proof (rule that [of w1 ro])
    show "w1 = ?w \<or> (\<exists>snap. w1 = ?W snap)" unfolding w1_def by (cases ?lan) auto
    show "mc_hosts M' = fst (hostsSyncer_sync (dv_hosts V) cfg ?dir (rt_hSync r) (mc_hosts M))"
      using it unfolding h by (auto split: if_splits)
    show "mc_world M' = w1 \<or>
      runAdminObservation V newDrop cfg manager (sr_Serial sr) (rt_endpointPushedAt r) (mc_kernel M) w1 = (mc_world M', ro)"
      using it o by (auto split: if_splits)
  qed (use it in \<open>auto split: if_splits\<close>)
qed

text \<open>The two ways an iteration can go: it stops before the hosts file, or it applies the directory and runs the tail.\<close>

lemma iteration_cases:
  assumes "runDaemonIteration V newDrop cfg M r = (M', r', res)"
  obtains (stopped) d sr k where "runSyncOnce (dv_sync V) newDrop cfg (w_drop (mc_world M)) (w_disk (mc_world M)) = (d, sr)"
      "M' = M\<lparr>mc_world := (mc_world M)\<lparr>w_disk := d\<rparr>, mc_kernel := k\<rparr>"
  | (applied) d sr self k r2 manager decision where
      "runSyncOnce (dv_sync V) newDrop cfg (w_drop (mc_world M)) (w_disk (mc_world M)) = (d, Inr sr)"
      "findSelf cfg (sr_Directory sr) = Inr self"
      "reconcileRelay V cfg self (sr_Directory sr) (mc_kernel M) (r\<lparr>rt_dirHolder := Some (sr_Directory sr)\<rparr>) = (k, r2, Inr (manager, decision))"
      "iteration_tail V newDrop cfg sr self manager (M\<lparr>mc_world := (mc_world M)\<lparr>w_disk := d\<rparr>, mc_kernel := k\<rparr>) r2 = (M', r', res)"
proof -
  obtain d srr where s: "runSyncOnce (dv_sync V) newDrop cfg (w_drop (mc_world M)) (w_disk (mc_world M)) = (d, srr)" by fastforce
  have same: "M\<lparr>mc_world := w, mc_kernel := mc_kernel M\<rparr> = M\<lparr>mc_world := w\<rparr>" for w by (cases M) simp
  note early = stopped [OF s, of "mc_kernel M", unfolded same]
  show ?thesis
  proof (cases srr)
    case (Inl e)
    then show ?thesis using assms s early by (simp add: runDaemonIteration_def)
  next
    case (Inr sr)
    note s' = s [unfolded Inr]
    let ?dir = "sr_Directory sr"
    show ?thesis
    proof (cases "findSelf cfg ?dir")
      case (Inl e)
      then show ?thesis using assms s' early by (simp add: runDaemonIteration_def Let_def)
    next
      case (Inr self)
      obtain k r2 q where q: "reconcileRelay V cfg self ?dir (mc_kernel M) (r\<lparr>rt_dirHolder := Some ?dir\<rparr>) = (k, r2, q)"
        by (metis prod_cases3)
      show ?thesis
        using assms s' Inr q stopped [OF s, of k] applied [OF s' Inr, of k r2]
        by (cases q) (auto simp: runDaemonIteration_def Let_def)
    qed
  qed
qed

section \<open>Push times\<close>

lemma push_times: "map_of (fold (\<lambda>key m. AList.update key now m) ks m) k = (if k \<in> set ks then Some now else map_of m k)"
  by (induction ks arbitrary: m) (auto simp: update_conv')

lemma recordEndpointPushes_at:
  "k \<in> n_PublicKey ` set (d_Nodes dir) \<Longrightarrow>
     pushedAt_of (recordEndpointPushes pushed dir now m) k = (if k \<in> set pushed then now else pushedAt_of m k)"
  by (simp add: recordEndpointPushes_def pushedAt_of_def split_def push_times map_of_filter_fst [where P = "\<lambda>k. k \<in> n_PublicKey ` set (d_Nodes dir)"])

section \<open>Failed LAN endpoints\<close>

lemma MarkFailed_Lookup:
  "Lookup (MarkFailed k t s) k now = []"
  "k \<noteq> j \<Longrightarrow> Lookup (MarkFailed j t s) k now = Lookup s k now"
  by (auto simp: MarkFailed_def Lookup_def Usable_def Blacklisted_def update_conv' split: option.splits)

lemma markLANFailures_keep: "Lookup s k now = [] \<Longrightarrow> Lookup (markLANFailures states prev t s) k now = []"
proof (induction states prev t s rule: markLANFailures.induct)
  case (2 key state states prev t s)
  then show ?case using MarkFailed_Lookup(1) [of key t s now] MarkFailed_Lookup(2) [of k key t s now]
    by (cases "k = key") (auto split: option.splits)
qed simp

lemma markLANFailures_Lookup:
  "(k, st) \<in> set states \<Longrightarrow> ps_Mode st = ModeRelayed \<Longrightarrow> map_of prev k = Some ModeDirect \<Longrightarrow>
     Lookup (markLANFailures states prev t s) k now = []"
proof (induction states prev t s rule: markLANFailures.induct)
  case (2 key state states prev t s)
  show ?case
  proof (cases "(k, st) = (key, state)")
    case True
    then show ?thesis using 2(3,4) by (simp add: markLANFailures_keep MarkFailed_Lookup(1))
  next
    case False
    then show ?thesis using 2 by auto
  qed
qed simp

section \<open>Uploads\<close>

lemma observation_world:
  assumes "runAdminObservation V newDrop cfg manager serial pushedAt k w = (w', ro)"
  shows "w' = w \<or> (\<exists>D remote peers updated dir. loadAdminDrop newDrop cfg = Inr D \<and>
    fetchDirectory (dv_observe V) cfg D (w_drop w) = Inr remote \<and> manager_Peers (dv_kernel V) manager k = Inr peers \<and>
    MergeObservations (l_wg (e_libs (dv_observe V))) remote peers (dv_merge V)
      (od_Or (oc_HandshakeFresh (c_Observe cfg)) DefaultHandshakeFresh) pushedAt = (updated, True) \<and>
    preparePublishSerial (dv_observe V) updated (Inr remote) False (w_disk w) = Inr dir \<and>
    publishDirectory (dv_observe V) cfg D dir True w = (w', ro))"
proof (cases "w' = w")
  case False
  then show ?thesis
    using assms unfolding runAdminObservation_def Let_def
    by (auto split: sum.splits if_splits prod.splits)
qed simp

lemma observation_uploads:
  assumes "\<forall>k. io_ok (e_io (dv_observe V) k)"
    and "runAdminObservation V newDrop cfg manager serial pushedAt k w = (w', ro)" and "uploads_ok w"
  shows "uploads_ok w'"
  using observation_world [OF assms(2)] publishDirectory_uploads [OF assms(1) _ assms(3)] assms(3) by blast

lemma discovery_marks: "io_ok io \<Longrightarrow> mark_level FPublish d \<le> mark_level FPublish (fst (WriteDiscovery J io now snap d))"
  using cache_step_change [of "CDiscovery io now snap" L d J for L] disk_change_marks(2) by fastforce

lemma iteration_uploads:
  assumes io: "\<forall>k. io_ok (e_io (dv_sync V) k)" "\<forall>k. io_ok (e_io (dv_observe V) k)" "io_ok (dv_discovery V)"
    and it: "runDaemonIteration V newDrop cfg M r = (M', r', res)" and ok: "uploads_ok (mc_world M)"
  shows "uploads_ok (mc_world M')"
proof -
  have sync: "uploads_ok ((mc_world M)\<lparr>w_disk := d\<rparr>)"
    if "runSyncOnce (dv_sync V) newDrop cfg (w_drop (mc_world M)) (w_disk (mc_world M)) = (d, sr)" for d sr
    using uploads_ok_disk [OF ok disk_change_marks(2) [OF runSyncOnce_change [OF io(1) that]],
        where s = "w_drop (mc_world M)" and fs = "w_files (mc_world M)"] by simp
  from it show ?thesis
  proof (cases rule: iteration_cases)
    case (stopped d sr k)
    then show ?thesis using sync by simp
  next
    case (applied d sr self k r2 manager decision)
    let ?w = "(mc_world M)\<lparr>w_disk := d\<rparr>"
    define M1 where "M1 = M\<lparr>mc_world := ?w, mc_kernel := k\<rparr>"
    obtain w1 ro where w1: "w1 = mc_world M1 \<or> (\<exists>snap. w1 = (mc_world M1)\<lparr>w_disk :=
        fst (WriteDiscovery (e_json (dv_sync V)) (dv_discovery V) (dv_written V) snap (w_disk (mc_world M1)))\<rparr>)"
      and o: "mc_world M' = w1 \<or>
        runAdminObservation V newDrop cfg manager (sr_Serial sr) (rt_endpointPushedAt r2) (mc_kernel M1) w1 = (mc_world M', ro)"
      by (rule iteration_tail_cases [OF applied(4) [folded M1_def]]) blast
    have M1: "mc_world M1 = ?w" by (simp add: M1_def)
    have "uploads_ok w1"
      using w1 [unfolded M1] sync [OF applied(1)] uploads_ok_disk [where w = ?w and s = "w_drop ?w" and fs = "w_files ?w"] discovery_marks [OF io(3)] by auto
    with o show ?thesis using observation_uploads [OF io(2)] by blast
  qed
qed

lemma AddNodeCmd_uploads:
  assumes "\<forall>k. io_ok (e_io E k)" and "AddNodeCmd E X newDrop loaded flags w = (w', r)" and "uploads_ok w"
  shows "uploads_ok w'"
proof -
  have files: "uploads_ok (x\<lparr>w_files := fs\<rparr>)" if "uploads_ok x" for x :: "'a world" and fs using that by (simp add: uploads_ok_def)
  from assms(2,3) show ?thesis
    unfolding AddNodeCmd_def
    by (auto simp: files split: sum.splits prod.splits if_splits dest!: saveAdminDirectory_uploads [OF assms(1)])
qed

text \<open>What can happen on the admin's machine: the commands, the iterations of its daemon, and anything at the drop,
  in the kernel or to the hosts files.\<close>

inductive admin_step :: "('s, 'k) machine \<Rightarrow> ('s, 'k) machine \<Rightarrow> bool" where
  publish: "\<forall>k. io_ok (e_io E k) \<Longrightarrow> PublishCmd E newDrop loaded force (mc_world M) = (w', r) \<Longrightarrow> admin_step M (M\<lparr>mc_world := w'\<rparr>)"
| add: "\<forall>k. io_ok (e_io E k) \<Longrightarrow> AddNodeCmd E X newDrop loaded flags (mc_world M) = (w', r) \<Longrightarrow> admin_step M (M\<lparr>mc_world := w'\<rparr>)"
| remove: "\<forall>k. io_ok (e_io E k) \<Longrightarrow> RemoveNodeCmd E newDrop loaded name noPublish (mc_world M) = (w', r') \<Longrightarrow>
    admin_step M (M\<lparr>mc_world := w'\<rparr>)"
| domain: "\<forall>k. io_ok (e_io E k) \<Longrightarrow> SetDomainCmd E newDrop loaded dname clear noPublish (mc_world M) = (w', r'') \<Longrightarrow>
    admin_step M (M\<lparr>mc_world := w'\<rparr>)"
| sync: "\<forall>k. io_ok (e_io E k) \<Longrightarrow> runSyncOnce E newDrop cfg (w_drop (mc_world M)) (w_disk (mc_world M)) = (d', res) \<Longrightarrow>
    admin_step M (M\<lparr>mc_world := (mc_world M)\<lparr>w_disk := d'\<rparr>\<rparr>)"
| iterate: "\<forall>k. io_ok (e_io (dv_sync V) k) \<Longrightarrow> \<forall>k. io_ok (e_io (dv_observe V) k) \<Longrightarrow> io_ok (dv_discovery V) \<Longrightarrow>
    runDaemonIteration V newDrop cfg M rt = (M', rt', r) \<Longrightarrow> admin_step M M'"
| others: "admin_step M (M\<lparr>mc_world := (mc_world M)\<lparr>w_drop := s\<rparr>, mc_kernel := k, mc_hosts := h\<rparr>)"

inductive_cases admin_stepE: "admin_step M M'"

lemma admin_step_uploads:
  assumes "admin_step M M'" and "uploads_ok (mc_world M)"
  shows "uploads_ok (mc_world M')"
  using assms
proof (induction rule: admin_step.induct)
  case (publish E newDrop loaded force M w' r)
  then show ?case
    using publishDirectory_uploads [OF publish(1)] by (auto simp: PublishCmd_def split: sum.splits)
next
  case (add E X newDrop loaded flags M w' r)
  then show ?case using AddNodeCmd_uploads by simp
next
  case (remove E newDrop loaded name noPublish M w' r')
  then show ?case
    using saveAdminDirectory_uploads [OF remove(1)] by (auto simp: RemoveNodeCmd_def split: sum.splits option.splits)
next
  case (domain E newDrop loaded dname clear noPublish M w' r'')
  then show ?case
    using saveAdminDirectory_uploads [OF domain(1)]
    by (auto simp: SetDomainCmd_def split: sum.splits prod.splits if_splits)
next
  case (sync E newDrop cfg M d' res)
  have "mark_level FPublish (w_disk (mc_world M)) \<le> mark_level FPublish d'"
    by (rule disk_change_marks(2) [OF runSyncOnce_change [OF sync(1,2)]])
  then show ?case
    using uploads_ok_disk [OF sync(3), where d = d' and s = "w_drop (mc_world M)" and fs = "w_files (mc_world M)"] by simp
next
  case (iterate V newDrop cfg M rt M' rt' r)
  then show ?case using iteration_uploads by blast
qed (simp add: uploads_ok_def)

section \<open>Waiting\<close>

definition wait_inv :: "gotime \<Rightarrow> duration \<Rightarrow> duration \<Rightarrow> waitState \<Rightarrow> bool" where
  "wait_inv t0 interval minWake s \<longleftrightarrow> ws_timer s \<le> t0 + interval \<and> t0 + min interval minWake \<le> ws_timer s"

lemma wait_inv_start: "wait_inv t0 interval minWake (waitStart t0 interval)"
  by (simp add: wait_inv_def waitStart_def)

lemma wait_inv_step:
  "waitEvent_step t0 interval minWake now e s = Inl s' \<Longrightarrow> wait_inv t0 interval minWake s \<Longrightarrow> wait_inv t0 interval minWake s'"
  by (induction t0 interval minWake now e s rule: waitEvent_step.induct)
    (auto simp: wait_inv_def Let_def split: if_splits)

lemma wait_result:
  assumes "waitEvent_step t0 interval minWake now e s = Inr res" and "wait_inv t0 interval minWake s"
  shows "(fst res \<longleftrightarrow> e = Signal SIGHUP \<or> e = Wake \<and> t0 + minWake \<le> now \<or> e = Look \<and> ws_timer s \<le> now) \<and>
    (fst res \<longrightarrow> snd res = None \<and> (e = Signal SIGHUP \<or> t0 + min interval minWake \<le> now)) \<and>
    (\<not> fst res \<longrightarrow> e \<in> {Signal SIGTERM, Signal SIGINT} \<and> snd res = None \<or> (\<exists>x. e = CtxDone x \<and> snd res = Some x))"
  using assms
  by (induction t0 interval minWake now e s rule: waitEvent_step.induct)
    (auto simp: wait_inv_def Let_def split: if_splits)

lemma wait_loop_ends:
  assumes "es k = (t, Look)" and "t0 + interval \<le> t" and "i \<le> k" and "wait_inv t0 interval minWake s"
  shows "\<exists>j res r'. wait_loop t0 interval minWake onTick es i s r = Some (j, res, r') \<and> i \<le> j \<and> j \<le> k \<and>
    (fst res \<longrightarrow> snd res = None \<and> (snd (es j) = Signal SIGHUP \<or> t0 + min interval minWake \<le> fst (es j))) \<and>
    (\<not> fst res \<longrightarrow> snd (es j) \<in> {Signal SIGTERM, Signal SIGINT} \<and> snd res = None \<or> (\<exists>x. snd (es j) = CtxDone x \<and> snd res = Some x))"
  using assms(3,4)
proof (induction "k - i" arbitrary: i s r)
  case 0
  then have "i = k" by simp
  then have "waitEvent_step t0 interval minWake (fst (es i)) (snd (es i)) s = Inr (True, None)"
    using assms(1,2) 0 by (simp add: wait_inv_def)
  then have "wait_loop t0 interval minWake onTick es i s r = Some (i, (True, None), r)" by (subst wait_loop.simps) simp
  then show ?case using 0 wait_result [OF \<open>waitEvent_step _ _ _ _ _ _ = _\<close>] by auto
next
  case (Suc m)
  show ?case
  proof (cases "waitEvent_step t0 interval minWake (fst (es i)) (snd (es i)) s")
    case (Inr res)
    then have "wait_loop t0 interval minWake onTick es i s r = Some (i, res, r)" by (subst wait_loop.simps) simp
    then show ?thesis using Suc.prems wait_result [OF Inr] by (intro exI [of _ i] exI [of _ res] exI [of _ r]) simp
  next
    case (Inl s')
    let ?r = "if snd (es i) = Tick then onTick i r else r"
    have step: "wait_loop t0 interval minWake onTick es i s r = wait_loop t0 interval minWake onTick es (Suc i) s' ?r"
      using Inl by (subst wait_loop.simps) simp
    have "m = k - Suc i" "Suc i \<le> k" using Suc.hyps(2) by auto
    from Suc.hyps(1) [OF this wait_inv_step [OF Inl Suc.prems(2)], of ?r] show ?thesis
      unfolding step using Suc_leD by blast
  qed
qed

lemma int64_fits: "- (2 ^ 63) \<le> x \<Longrightarrow> x < 2 ^ 63 \<Longrightarrow> sint (word_of_int x :: 64 word) = x"
  by (simp add: signed_of_int signed_take_bit_int_eq_self)

lemma jitter_bounds:
  assumes "0 < d" and "d \<le> 2 ^ 62" and "\<And>n. 0 < n \<Longrightarrow> 0 \<le> rnd n \<and> rnd n < n"
  shows "d - d div 10 \<le> jitter rnd d" and "jitter rnd d \<le> d + d div 10 + 1"
proof -
  let ?span = "d div 5"
  let ?delta = "rnd (?span + 1) - ?span div 2"
  have r: "0 \<le> rnd (?span + 1)" "rnd (?span + 1) \<le> ?span" using assms(3) [of "?span + 1"] assms(1) by auto
  have h: "?span div 2 = d div 10" "?span - ?span div 2 \<le> d div 10 + 1" by (simp_all add: zdiv_zmult2_eq [symmetric])
  have t: "0 \<le> d div 10" "10 * (d div 10) \<le> d" using assms(1) by auto
  have "- (2 ^ 63) \<le> d + ?delta" "d + ?delta < 2 ^ 63" using r h t assms(1,2) unfolding h(1) by simp_all
  then have "add64 d ?delta = d + ?delta" unfolding add64_def by (rule int64_fits)
  then have "jitter rnd d = d + ?delta" using assms(1) by (simp add: jitter_def Let_def)
  with r h show "d - d div 10 \<le> jitter rnd d" "jitter rnd d \<le> d + d div 10 + 1" by auto
qed

section \<open>An iteration, evaluated\<close>

text \<open>The drop has nothing, the member serves its cache; the kernel is that of \<open>WgPeers\<close>, the hosts file is absent.\<close>

definition fine_hostsIO :: hostsIO where
  "fine_hostsIO = \<lparr>ho_openLock = None, ho_flock = None, ho_lstat = None, ho_read = None, ho_write = None\<rparr>"

definition demo_dv :: "demo_state daemonEnv" where
  "demo_dv = \<lparr>dv_sync = demo_env demo_any, dv_observe = demo_env demo_any, dv_discovery = io_fine, dv_kernel = demo_kernel [],
     dv_resolve = Some, dv_hosts = fine_hostsIO, dv_net = demo_net, dv_resolvConf = Inr [], dv_update = 0, dv_marked = 0,
     dv_lookup = (\<lambda>_. 0), dv_apply = 0, dv_pushed = 0, dv_gc = 0, dv_written = 0, dv_merge = 0\<rparr>"

definition demo_member :: Config where
  "demo_member = demo_cfg\<lparr>c_Wireguard := (c_Wireguard Default)\<lparr>wc_PublicKey := std_encode (replicate 32 (char_of (65 :: nat))),
     wc_PrivateKey := std_encode (replicate 32 (char_of (65 :: nat)))\<rparr>\<rparr>"

definition demo_cached :: "(fileSystem, demo_state) machine" where
  "demo_cached = \<lparr>mc_world = demo_world\<lparr>w_disk := [FCache \<mapsto> ''D'']\<rparr>,
     mc_kernel = \<lparr>dk_routes = Map.empty, dk_endpoints = Map.empty\<rparr>, mc_hosts = (\<lambda>_. Absent)\<rparr>"

lemma demo_member_sync:
  "\<exists>d sr. runSyncOnce (demo_env demo_any) (\<lambda>_. Inr demo_drop) demo_member Map.empty [FCache \<mapsto> ''D''] = (d, Inr sr) \<and>
     sr_Directory sr = demo_dir"
proof -
  have g: "\<exists>e. di_Get demo_drop Map.empty = Inl e" by (simp add: file_Get_def fine_io_def)
  have r: "Read demo_any io_fine [FCache \<mapsto> ''D''] = Inr (demo_dir, ''D'')"
    by (simp add: Read_def os_ReadFile_def demo_any_unmarshal)
  have "Validate demo_wg demo_age (stamped 0 demo_dir) = Inr ()"
    using Validate_stamp [OF demo_dir_valid, where now = 0 and s = "d_Serial demo_dir" and t = "d_CreatedAt demo_dir"] by simp
  then have m: "marshal_dir demo_any 0 demo_dir = Inr ''D''" using demo_dir_psk by (rule demo_any_marshal)
  have j: "js_EncodeState demo_json st = Inr ''{}''" for st by (simp add: demo_json_def)
  have "\<exists>d. Write demo_any demo_json io_fine 0 demo_dir [] [FCache \<mapsto> ''D''] = (d, Inr ())"
    using Write_fine [OF m _ _ j, of "[FCache \<mapsto> ''D'']"] by (simp add: mark_level_def mark_def)
  with g r show ?thesis by (auto simp: runSyncOnce_def loadReadDrop_def fetchSyncDirectory_def simp del: demo_drop_simps)
qed

lemma demo_member_apply:
  "\<exists>k pushed. Apply demo_wg (demo_kernel ex) Some now m demo_self demo_dir relayed lan s = (k, pushed, None)"
proof -
  have "is_ok (BuildPeerConfigs demo_wg Some (m_wg m) demo_self demo_dir relayed lan)"
    by (rule BuildPeerConfigs_ok, unfold demo_others) (simp add: demo_node_fields demo_key_ok demo_cidrs)
  then obtain peers where "BuildPeerConfigs demo_wg Some (m_wg m) demo_self demo_dir relayed lan = Inr peers"
    by (auto simp: is_ok_iff)
  moreover have "n_TunnelIP demo_self = ''10.42.0.1''" "d_NetworkCIDR demo_dir = ''10.42.0.0/29''"
    by (simp_all add: demo_node_fields demo_dir_def)
  ultimately show ?thesis
    using demo_cidrs(1,4) by (auto simp: Apply_def demo_kernel_def Let_def ensureAddress_def ensureRoute_def)
qed

lemma demo_member_relay:
  assumes "l_wg (e_libs (dv_sync V)) = demo_wg" and "dv_kernel V = demo_kernel ex" and "dv_resolve V = Some"
  shows "\<exists>k r' manager decision. reconcileRelay V demo_member demo_self demo_dir s r = (k, r', Inr (manager, decision)) \<and>
    (rt_lanStore r = None \<longrightarrow> rt_lanStore r' = None)"
proof -
  have "ParseWGPrivate demo_wg (std_encode (replicate 32 (char_of (65 :: nat)))) = Inr (replicate 32 (char_of (65 :: nat)))"
    using demo_key_ok [of "char_of (65 :: nat)"] by (simp add: ParseWGPrivate_def ParseWGPublic_def wrapR_def split: sum.splits)
  then obtain m where m: "NewManager demo_wg (c_Wireguard demo_member) = Inr m" and mtu: "m_mtu m = 1420"
    by (auto simp: NewManager_def demo_member_def Default_def DefaultMTU_def Let_def)
  have "Up (demo_kernel ex) m s = (s, None)" by (simp add: Up_def ensureLink_def demo_kernel_def mtu)
  moreover obtain c dec where "relay_Update demo_wg (rt_controller r) demo_self demo_dir
      (case manager_Peers (demo_kernel ex) m s of Inl _ \<Rightarrow> [] | Inr ps \<Rightarrow> ps) (dv_update V) = (c, dec)" by fastforce
  moreover obtain k pushed where "Apply demo_wg (demo_kernel ex) Some (dv_apply V) m demo_self demo_dir (de_Relayed dec)
      (lanLookup_of (dv_lookup V) (map_option (markLANFailures (de_PeerStates dec) (rt_prevModes r) (dv_marked V)) (rt_lanStore r))) s = (k, pushed, None)"
    using demo_member_apply by blast
  ultimately show ?thesis by (auto simp: reconcileRelay_def assms m Let_def)
qed

lemma demo_any_fields:
  "l_wg demo_any = demo_wg" "l_age demo_any = demo_age" "l_ed demo_any = demo_ed"
  "mp_DecodeEnv (l_mp demo_any) = mp_DecodeEnv (demo_mp (wire_of demo_dir))" "mp_DecodeDir (l_mp demo_any) = mp_DecodeDir (demo_mp (wire_of demo_dir))"
  by (simp_all add: demo_any_def demo_libs_def)

lemma demo_dv_fields:
  "l_wg (e_libs (dv_sync demo_dv)) = demo_wg" "dv_kernel demo_dv = demo_kernel []" "dv_resolve demo_dv = Some"
  by (simp_all add: demo_dv_def demo_any_fields)

lemma demo_iteration:
  "\<exists>M' r' res. runDaemonIteration demo_dv (\<lambda>_. Inr demo_drop) demo_member demo_cached newDaemonRuntime = (M', r', res) \<and>
     mc_hosts M' \<noteq> mc_hosts demo_cached"
proof -
  obtain d sr where s: "runSyncOnce (demo_env demo_any) (\<lambda>_. Inr demo_drop) demo_member Map.empty [FCache \<mapsto> ''D''] = (d, Inr sr)"
    "sr_Directory sr = demo_dir" using demo_member_sync by blast
  have f: "findSelf demo_member demo_dir = Inr demo_self"
    by (simp add: findSelf_def demo_member_def demo_dir_def demo_node_fields)
  obtain k r2 m dec where q: "reconcileRelay demo_dv demo_member demo_self demo_dir (mc_kernel demo_cached)
      (newDaemonRuntime\<lparr>rt_dirHolder := Some demo_dir\<rparr>) = (k, r2, Inr (m, dec))"
    using demo_member_relay [OF demo_dv_fields] by blast
  define M1 where "M1 = demo_cached\<lparr>mc_world := (mc_world demo_cached)\<lparr>w_disk := d\<rparr>, mc_kernel := k\<rparr>"
  obtain M' r' res where t: "iteration_tail demo_dv (\<lambda>_. Inr demo_drop) demo_member sr demo_self m M1 r2 = (M', r', res)"
    by (metis prod_cases3)
  have "runDaemonIteration demo_dv (\<lambda>_. Inr demo_drop) demo_member demo_cached newDaemonRuntime = (M', r', res)"
    using s f q t by (simp add: runDaemonIteration_def demo_dv_def [THEN arg_cong, of dv_sync] M1_def Let_def demo_cached_def demo_world_def)
  moreover have "mc_hosts M' = fst (hostsSyncer_sync (dv_hosts demo_dv) demo_member demo_dir (rt_hSync r2) (mc_hosts M1))"
    by (rule iteration_tail_cases [OF t]) (simp add: s(2))
  moreover have "mc_hosts M1 = (\<lambda>_. Absent)" by (simp add: M1_def demo_cached_def)
  moreover have "fst (hostsSyncer_sync (dv_hosts demo_dv) demo_member demo_dir lw (\<lambda>_. Absent)) (hostsPath demo_member) \<noteq> Absent" for lw
  proof -
    have "Block demo_dir \<noteq> []" by (simp add: Block_def demo_dir_def Let_def)
    moreover obtain x ch where "Rewrite [] ''tincan0'' (Block demo_dir) = Inr (x, ch)"
      unfolding Rewrite_def Let_def by (simp add: splitAtMarkers_def scan_start_def)
    moreover have "wc_Interface (c_Wireguard demo_member) = ''tincan0''" "ManageHostsEnabled (c_DNS demo_member)"
      by (simp_all add: demo_member_def demo_cfg_def Default_def DefaultInterface_def ManageHostsEnabled_def)
    ultimately show ?thesis
      by (simp add: hostsSyncer_sync_def hosts_Apply_def demo_dv_def fine_hostsIO_def ho_WriteFile_def)
  qed
  ultimately show ?thesis by (metis demo_cached_def machine.select_convs(3))
qed

section \<open>Properties\<close>

text \<open>C2: a serial is never used for two publications. On a machine of the admin that starts with no uploads,
  after any sequence of publications, enrolments, removals, domain changes, synchronisations and iterations of the
  daemon with its endpoint observations, with any system
  calls and uploads failing on the way, the directories that were handed to the drop carry strictly
  increasing serials: no two different payloads are ever signed and uploaded under one serial.\<close>

theorem upload_serials_increase:
  assumes "admin_step\<^sup>*\<^sup>* M M'" and "w_uploads (mc_world M) = []"
  shows "sorted_wrt (<) (map d_Serial (w_uploads (mc_world M')))"
proof -
  have "uploads_ok (mc_world M)" using assms(2) by (simp add: uploads_ok_def)
  with assms(1) have "uploads_ok (mc_world M')" by (induction rule: rtranclp_induct) (auto intro: admin_step_uploads)
  then show ?thesis by (simp add: uploads_ok_def)
qed

definition demo_machine :: "(fileSystem, unit) machine" where
  "demo_machine = \<lparr>mc_world = demo_world, mc_kernel = (), mc_hosts = (\<lambda>_. Absent)\<rparr>"

theorem upload_serials_increase_witness:
  "\<exists>M'. admin_step\<^sup>*\<^sup>* demo_machine M' \<and> w_uploads (mc_world M') \<noteq> [] \<and> sorted_wrt (<) (map d_Serial (w_uploads (mc_world M')))"
proof -
  let ?E = "demo_env demo_any"
  have a: "asAdmin ?E (\<lambda>_. Inr demo_drop) (Inr demo_cfg) = Inr (demo_cfg, demo_drop)" by (rule demo_asAdmin) simp_all
  let ?dir = "demo_dir\<lparr>d_Serial := 6, d_CreatedAt := Stamp 0\<rparr>"
  have b: "preparePublishSerial ?E demo_dir (fetchDirectory ?E demo_cfg demo_drop Map.empty) True [FSource \<mapsto> ''D''] = Inr ?dir"
    by (subst demo_prepare) (simp_all add: demo_dir_def)
  obtain w' where p: "publishDirectory ?E demo_cfg demo_drop ?dir True demo_world = (w', Inr ())" and w: "w_uploads w' = [?dir]"
    by (rule demo_publish [where f = "\<lambda>_. Inr ''{}''" and dir = demo_dir and s = 6 and t = "Stamp 0" and rs = "[''age65'', ''age66'', ''age67'']", unfolded demo_env_boot])
      (use demo_dir_valid demo_dir_psk demo_recipients in simp_all)
  have "PublishCmd ?E (\<lambda>_. Inr demo_drop) (Inr demo_cfg) True demo_world = (w', Inr ())"
    using b p by (simp add: PublishCmd_def a ReadSource_def os_ReadFile_def demo_any_unmarshal demo_world_def)
  then have "admin_step demo_machine (demo_machine\<lparr>mc_world := w'\<rparr>)"
    by (intro admin_step.publish [where E = ?E]) (auto simp: demo_machine_def)
  then have r: "admin_step\<^sup>*\<^sup>* demo_machine (demo_machine\<lparr>mc_world := w'\<rparr>)" by blast
  from upload_serials_increase [OF r] have "sorted_wrt (<) (map d_Serial (w_uploads w'))"
    by (simp add: demo_machine_def demo_world_def)
  with r w show ?thesis by (intro exI [of _ "demo_machine\<lparr>mc_world := w'\<rparr>"]) simp
qed

text \<open>C10: names appear only for addresses that are routed. An iteration of the daemon that changes a hosts file has
  applied to the kernel, without error, the very directory the new entries are made from, so that, for a
  directory whose other members have distinct keys and tunnel addresses, the kernel routes
  the address of each of them to the peer it belongs to.\<close>

theorem hosts_only_after_apply:
  assumes "runDaemonIteration V newDrop cfg M r = (M', r', res)" and "mc_hosts M' \<noteq> mc_hosts M"
    and "kernel_ok (dv_kernel V) rt ep"
  shows "\<exists>dir self manager relayed. rt_dirHolder r' = Some dir \<and> findSelf cfg dir = Inr self \<and>
    mc_hosts M' = fst (hostsSyncer_sync (dv_hosts V) cfg dir (rt_hSync r) (mc_hosts M)) \<and>
    NewManager (l_wg (e_libs (dv_sync V))) (c_Wireguard cfg) = Inr manager \<and>
    (distinct (map (key_of (l_wg (e_libs (dv_sync V)))) (other_nodes self dir)) \<and> distinct (map tunnel_of (other_nodes self dir)) \<longrightarrow>
     (\<forall>n \<in> set (other_nodes self dir).
        rt (mc_kernel M') (m_iface manager) (tunnel_of n) = Some (routed_by (l_wg (e_libs (dv_sync V))) self dir relayed n)))"
  using assms(1)
proof (cases rule: iteration_cases)
  case (stopped d sr k)
  then show ?thesis using assms(2) by simp
next
  case (applied d sr self k r2 manager decision)
  let ?W = "l_wg (e_libs (dv_sync V))" and ?dir = "sr_Directory sr"
  define M1 where "M1 = M\<lparr>mc_world := (mc_world M)\<lparr>w_disk := d\<rparr>, mc_kernel := k\<rparr>"
  have t: "mc_kernel M' = mc_kernel M1" "rt_dirHolder r' = rt_dirHolder r2"
    "mc_hosts M' = fst (hostsSyncer_sync (dv_hosts V) cfg ?dir (rt_hSync r2) (mc_hosts M1))"
    by (rule iteration_tail_cases [OF applied(4) [folded M1_def]], blast)+
  obtain k1 lan pushed where a: "NewManager ?W (c_Wireguard cfg) = Inr manager"
    "Apply ?W (dv_kernel V) (dv_resolve V) (dv_apply V) manager self ?dir (de_Relayed decision)
       (lanLookup_of (dv_lookup V) lan) k1 = (k, pushed, None)"
    and h: "rt_dirHolder r2 = rt_dirHolder (r\<lparr>rt_dirHolder := Some ?dir\<rparr>)" "rt_hSync r2 = rt_hSync (r\<lparr>rt_dirHolder := Some ?dir\<rparr>)"
    by (rule reconcileRelay_ok [OF applied(3)])
  have "rt (mc_kernel M') (m_iface manager) (tunnel_of n) = Some (routed_by ?W self ?dir (de_Relayed decision) n)"
    if "distinct (map (key_of ?W) (other_nodes self ?dir))" "distinct (map tunnel_of (other_nodes self ?dir))"
      "n \<in> set (other_nodes self ?dir)" for n
    using Apply_routes [OF assms(3) a(2) that] t(1) by (simp add: M1_def)
  moreover have "rt_dirHolder r' = Some ?dir" using t(2) h(1) by simp
  moreover have "mc_hosts M' = fst (hostsSyncer_sync (dv_hosts V) cfg ?dir (rt_hSync r) (mc_hosts M))"
    using t(3) h(2) by (simp add: M1_def)
  ultimately show ?thesis using applied(2) a(1) by blast
qed

theorem hosts_only_after_apply_witness:
  "\<exists>M' r' res dir. runDaemonIteration demo_dv (\<lambda>_. Inr demo_drop) demo_member demo_cached newDaemonRuntime = (M', r', res) \<and>
     mc_hosts M' \<noteq> mc_hosts demo_cached \<and> rt_dirHolder r' = Some dir"
proof -
  obtain M' r' res where r: "runDaemonIteration demo_dv (\<lambda>_. Inr demo_drop) demo_member demo_cached newDaemonRuntime = (M', r', res)"
    "mc_hosts M' \<noteq> mc_hosts demo_cached" using demo_iteration by blast
  have "kernel_ok (dv_kernel demo_dv) (\<lambda>s i. dk_routes s) (\<lambda>s i. dk_endpoints s)" by (simp add: demo_dv_def demo_kernel_ok)
  from hosts_only_after_apply [OF r this] obtain dir where "rt_dirHolder r' = Some dir" by blast
  with r show ?thesis by blast
qed

text \<open>C33: the wait between two iterations ends, and wakes are debounced. Whatever ticks, wakes and looks at the
  clock come first, the wait is over at the latest with the first look at the clock past the interval;
  it asks for an iteration before the shorter of the interval and the wake floor only on SIGHUP, and otherwise ends the loop only on a
  shutdown signal or a cancelled context.\<close>

theorem wait_ends_debounced:
  assumes "es k = (t, Look)" and "lastReconcile + interval \<le> t"
  shows "\<exists>j res r'. waitForReconcile es onTick interval minWakeInterval lastReconcile r = Some (j, res, r') \<and> j \<le> k \<and>
    (fst res \<longrightarrow> snd res = None \<and> (snd (es j) = Signal SIGHUP \<or> lastReconcile + min interval (10 * second) \<le> fst (es j))) \<and>
    (\<not> fst res \<longrightarrow> snd (es j) \<in> {Signal SIGTERM, Signal SIGINT} \<and> snd res = None \<or>
       (\<exists>x. snd (es j) = CtxDone x \<and> snd res = Some x))"
  using wait_loop_ends [where es = es and k = k and t = t and ?t0.0 = lastReconcile and interval = interval and i = 0 and
      minWake = minWakeInterval and s = "waitStart lastReconcile interval" and onTick = onTick and r = r] assms wait_inv_start
  unfolding waitForReconcile_def minWakeInterval_def by blast

theorem wait_ends_debounced_witness:
  "\<exists>j res r'. waitForReconcile (\<lambda>i. (int i * second, if i < 400 then Wake else Look)) (\<lambda>_ r. r) (300 * second) minWakeInterval 0 () = Some (j, res, r') \<and>
     (fst res \<longrightarrow> 10 \<le> j)"
proof -
  let ?es = "\<lambda>i. (int i * second, if i < 400 then Wake else Look)"
  have "?es 400 = (400 * second, Look)" "0 + 300 * second \<le> 400 * second" by simp_all
  from wait_ends_debounced [where es = ?es, OF this, of "\<lambda>_ r. r" "()"]
  obtain j res r' where j: "waitForReconcile ?es (\<lambda>_ r. r) (300 * second) minWakeInterval 0 () = Some (j, res, r')" "j \<le> 400"
    "fst res \<longrightarrow> snd res = None \<and> (snd (?es j) = Signal SIGHUP \<or> 0 + min (300 * second) (10 * second) \<le> fst (?es j))" by blast
  then have "fst res \<longrightarrow> 10 \<le> j" by (auto split: if_splits)
  with j(1) show ?thesis by blast
qed

text \<open>A running server has the configuration the manager remembers, with the default timeout.\<close>

definition mgr_ok :: "dnsServerManager \<Rightarrow> bool" where
  "mgr_ok m \<longleftrightarrow> (\<forall>s. dm_server m = Some s \<longrightarrow> sv_cfg s = (dm_current m)\<lparr>dc_Timeout := 5 * second\<rparr>)"

lemma Start_config: "dnsserve_Start N cfg = Inr s \<Longrightarrow> dc_Timeout cfg = 0 \<Longrightarrow> sv_cfg s = cfg\<lparr>dc_Timeout := 5 * second\<rparr>"
  by (auto simp: dnsserve_Start_def Let_def split: if_splits option.splits)

lemma dnsMgr_upstream_keeps:
  "dnsMgr_upstream rc cfg m = (m1, u) \<Longrightarrow> dm_server m1 = dm_server m \<and> dm_current m1 = dm_current m \<and> dm_lastWarn m1 = dm_lastWarn m \<and>
     (\<forall>m2. snd (dnsMgr_upstream rc cfg m2) = u) \<and> dnsMgr_upstream rc cfg m1 = (m1, u)"
  by (auto simp: dnsMgr_upstream_def split: if_splits sum.splits)

lemma upstream_stable:
  "dnsMgr_upstream rc cfg m = (m1, u) \<Longrightarrow> dm_warnedUpstreamFallback m1 = dm_warnedUpstreamFallback x \<Longrightarrow> dnsMgr_upstream rc cfg x = (x, u)"
  by (cases x) (auto simp: dnsMgr_upstream_def split: if_splits sum.splits)

text \<open>The listener follows the directory. After a reconciliation, no server runs when this node is not to serve;
  when it is, and the server can be started, one runs, on this node's tunnel address, for the directory's domain and with
  the resolved upstream, and reconciling again changes nothing; a running server has the configuration the
  manager remembers.\<close>

theorem dns_listener_converges:
  assumes "mgr_ok m" and "m' = dnsMgr_reconcile N rc cfg dir self m"
    and "desired = desired_dns dir self (snd (dnsMgr_upstream rc cfg m))"
  shows "mgr_ok m' \<and>
    (\<not> shouldServeDNS cfg dir self \<longrightarrow> dm_server m' = None) \<and>
    (shouldServeDNS cfg dir self \<and> is_ok (dnsserve_Start N desired :: string server res) \<longrightarrow>
       (\<exists>s. dm_server m' = Some s \<and> sv_cfg s = desired\<lparr>dc_Timeout := 5 * second\<rparr>) \<and>
       dnsMgr_reconcile N rc cfg dir self m' = m')"
proof (cases "shouldServeDNS cfg dir self")
  case False
  then have "m' = dnsMgr_stop m" using assms(2) by (simp add: dnsMgr_reconcile_def)
  then have "dm_server m' = None" by (simp add: dnsMgr_stop_def split: option.splits)
  with False show ?thesis by (simp add: mgr_ok_def)
next
  case True
  obtain m1 u where u: "dnsMgr_upstream rc cfg m = (m1, u)" by fastforce
  note k = dnsMgr_upstream_keeps [OF u]
  have d: "desired = desired_dns dir self u" "dc_Timeout desired = 0" using u assms(3) by (simp_all add: desired_dns_def zero_dnsConfig_def)
  show ?thesis
  proof (cases "dm_server m1 \<noteq> None \<and> dm_current m1 = desired")
    case True
    then have "m' = m1" using assms(2) \<open>shouldServeDNS cfg dir self\<close> u d(1) by (simp add: dnsMgr_reconcile_def Let_def)
    moreover have "dnsMgr_reconcile N rc cfg dir self m1 = m1"
      using True \<open>shouldServeDNS cfg dir self\<close> k d(1) by (simp add: dnsMgr_reconcile_def Let_def)
    ultimately show ?thesis using True \<open>shouldServeDNS cfg dir self\<close> k assms(1) by (auto simp: mgr_ok_def)
  next
    case False
    let ?m2 = "dnsMgr_stop m1"
    have m': "m' = dnsMgr_start N desired ?m2"
      using False assms(2) \<open>shouldServeDNS cfg dir self\<close> u d(1) by (auto simp: dnsMgr_reconcile_def Let_def)
    have stop: "dm_server ?m2 = None" "dm_warnedUpstreamFallback ?m2 = dm_warnedUpstreamFallback m1"
      by (simp_all add: dnsMgr_stop_def split: option.splits)
    show ?thesis
    proof (cases "dnsserve_Start N desired :: string server res")
      case (Inl e)
      then show ?thesis using m' stop True by (simp add: dnsMgr_start_def mgr_ok_def)
    next
      case (Inr s)
      then have ms: "m' = ?m2\<lparr>dm_server := Some s, dm_current := desired, dm_lastWarn := None\<rparr>" using m' by (simp add: dnsMgr_start_def)
      have "dnsMgr_upstream rc cfg m' = (m', u)" using u by (rule upstream_stable) (simp add: ms stop)
      then have "dnsMgr_reconcile N rc cfg dir self m' = m'"
        using True d(1) by (simp add: dnsMgr_reconcile_def Let_def ms)
      then show ?thesis using ms Start_config [OF Inr d(2)] True by (simp add: mgr_ok_def)
    qed
  qed
qed

theorem dns_listener_converges_witness:
  "\<exists>s. dm_server (dnsMgr_reconcile demo_net (Inr ''nameserver 9.9.9.9'') demo_member demo_dir demo_c (rt_dnsMgr newDaemonRuntime)) = Some s \<and>
     dc_Domain (sv_cfg s) = ''vpn''"
proof -
  let ?m = "rt_dnsMgr newDaemonRuntime" and ?rc = "Inr ''nameserver 9.9.9.9'' :: bytes res"
  have ok: "mgr_ok ?m" by (simp add: mgr_ok_def newDaemonRuntime_def)
  have serve: "shouldServeDNS demo_member demo_dir demo_c"
    by (simp add: shouldServeDNS_def demo_member_def demo_cfg_def Default_def demo_dir_def demo_node_fields)
  have "upstreamFromResolvConf ?rc = Inr ''9.9.9.9:53''" by code_simp
  then have u: "snd (dnsMgr_upstream ?rc demo_member ?m) = ''9.9.9.9:53''"
    by (simp add: dnsMgr_upstream_def demo_member_def demo_cfg_def Default_def)
  let ?d = "desired_dns demo_dir demo_c ''9.9.9.9:53''"
  have "withDefaultPort ''9.9.9.9:53'' = ''9.9.9.9:53''" "joinHostPort ''10.42.0.3'' ''53'' = ''10.42.0.3:53''" by code_simp+
  then have "is_ok (dnsserve_Start demo_net ?d :: string server res)"
    by (simp add: dnsserve_Start_def desired_dns_def zero_dnsConfig_def demo_net_def demo_dir_def demo_node_fields Let_def)
  with dns_listener_converges [OF ok refl refl, of demo_net ?rc demo_member demo_dir demo_c] serve
  obtain s where "dm_server (dnsMgr_reconcile demo_net ?rc demo_member demo_dir demo_c ?m) = Some s" "sv_cfg s = ?d\<lparr>dc_Timeout := 5 * second\<rparr>"
    unfolding u by blast
  then show ?thesis by (simp add: desired_dns_def demo_dir_def)
qed

text \<open>What an observation hands to the drop: the published members, with endpoints that the kernel reports and that are vouched for.\<close>

lemma observation_upload:
  assumes "runAdminObservation V newDrop cfg manager serial pushedAt k w = (w', ro)" and "w_uploads w' \<noteq> w_uploads w"
    and "\<forall>k. io_ok (e_io (dv_observe V) k)"
  obtains D remote peers u where "loadAdminDrop newDrop cfg = Inr D" and "fetchDirectory (dv_observe V) cfg D (w_drop w) = Inr remote"
    and "manager_Peers (dv_kernel V) manager k = Inr peers" and "w_uploads w' = w_uploads w @ [u]"
    and "map n_PublicKey (d_Nodes u) = map n_PublicKey (d_Nodes remote)"
    and "\<forall>i n n'. i < length (d_Nodes remote) \<and> n = d_Nodes remote ! i \<and> n' = d_Nodes u ! i \<and>
      n_ObservedEndpoint n' \<noteq> n_ObservedEndpoint n \<and> n_ObservedEndpoint n' \<noteq> [] \<longrightarrow>
      (\<exists>p \<in> set peers. ParseWGPublic (l_wg (e_libs (dv_observe V))) (n_PublicKey n) = Inr (wp_PublicKey p) \<and>
        wp_Endpoint p = Some (n_ObservedEndpoint n') \<and> pushedAt_of pushedAt (n_PublicKey n) < wp_LastHandshake p)"
proof -
  have "w' \<noteq> w" using assms(2) by auto
  with observation_world [OF assms(1)] obtain D remote peers updated dir
    where ld: "loadAdminDrop newDrop cfg = Inr D" and f: "fetchDirectory (dv_observe V) cfg D (w_drop w) = Inr remote" and m: "manager_Peers (dv_kernel V) manager k = Inr peers"
      and o: "MergeObservations (l_wg (e_libs (dv_observe V))) remote peers (dv_merge V)
        (od_Or (oc_HandshakeFresh (c_Observe cfg)) DefaultHandshakeFresh) pushedAt = (updated, True)"
      and s: "preparePublishSerial (dv_observe V) updated (Inr remote) False (w_disk w) = Inr dir"
      and p: "publishDirectory (dv_observe V) cfg D dir True w = (w', ro)" by blast
  have nodes: "d_Nodes dir = d_Nodes (fst (MergeObservations (l_wg (e_libs (dv_observe V))) remote peers (dv_merge V)
      (od_Or (oc_HandshakeFresh (c_Observe cfg)) DefaultHandshakeFresh) pushedAt))"
    using preparePublishSerial_nodes [OF s] o by simp
  show ?thesis
  proof (rule that [OF ld f m])
    show "w_uploads w' = w_uploads w @ [dir]" using publishDirectory_world [OF assms(3) p] assms(2) by auto
    show "map n_PublicKey (d_Nodes dir) = map n_PublicKey (d_Nodes remote)" unfolding nodes by (rule merge_keys)
    show "\<forall>i n n'. i < length (d_Nodes remote) \<and> n = d_Nodes remote ! i \<and> n' = d_Nodes dir ! i \<and>
      n_ObservedEndpoint n' \<noteq> n_ObservedEndpoint n \<and> n_ObservedEndpoint n' \<noteq> [] \<longrightarrow>
      (\<exists>p \<in> set peers. ParseWGPublic (l_wg (e_libs (dv_observe V))) (n_PublicKey n) = Inr (wp_PublicKey p) \<and>
        wp_Endpoint p = Some (n_ObservedEndpoint n') \<and> pushedAt_of pushedAt (n_PublicKey n) < wp_LastHandshake p)"
    proof (intro allI impI, elim conjE)
      fix i n n'
      assume "i < length (d_Nodes remote)" "n = d_Nodes remote ! i" and n': "n' = d_Nodes dir ! i"
        and "n_ObservedEndpoint n' \<noteq> n_ObservedEndpoint n" "n_ObservedEndpoint n' \<noteq> []"
      from merge_vouched [OF this(1,2) n' [unfolded nodes] this(4,5)]
      show "\<exists>p \<in> set peers. ParseWGPublic (l_wg (e_libs (dv_observe V))) (n_PublicKey n) = Inr (wp_PublicKey p) \<and>
        wp_Endpoint p = Some (n_ObservedEndpoint n') \<and> pushedAt_of pushedAt (n_PublicKey n) < wp_LastHandshake p" by blast
    qed
  qed
qed

text \<open>
  What the daemon itself has pushed. Each relay pass, in an iteration or at a tick, that gets as far as \<open>Apply\<close> gives an event: the members of
  the directory it applied, the members whose endpoint it pushed into the kernel (also when a later step of \<open>Apply\<close> failed) and the time it
  took for the push.
\<close>

record pushEvent =
  pe_members :: "string set"
  pe_pushed :: "string set"
  pe_time :: gotime

definition reconcile_pushes :: "'k daemonEnv \<Rightarrow> Config \<Rightarrow> node \<Rightarrow> directory \<Rightarrow> 'k \<Rightarrow> daemonRuntime \<Rightarrow> pushEvent list" where
  "reconcile_pushes V cfg self dir k r =
     (let W = l_wg (e_libs (dv_sync V)); K = dv_kernel V
      in case NewManager W (c_Wireguard cfg) of
           Inl _ \<Rightarrow> []
         | Inr manager \<Rightarrow>
             (case Up K manager k of
                (_, Some _) \<Rightarrow> []
              | (k1, None) \<Rightarrow>
                  let decision = snd (relay_Update W (rt_controller r) self dir
                        (case manager_Peers K manager k1 of Inl _ \<Rightarrow> [] | Inr ps \<Rightarrow> ps) (dv_update V));
                      lan = map_option (markLANFailures (de_PeerStates decision) (rt_prevModes r) (dv_marked V)) (rt_lanStore r);
                      pushed = fst (snd (Apply W K (dv_resolve V) (dv_apply V) manager self dir (de_Relayed decision)
                        (lanLookup_of (dv_lookup V) lan) k1))
                  in [\<lparr>pe_members = n_PublicKey ` set (d_Nodes dir), pe_pushed = set pushed, pe_time = dv_pushed V\<rparr>]))"

definition iteration_pushes :: "'k daemonEnv \<Rightarrow> (DropBackend \<Rightarrow> 's dropI res) \<Rightarrow> Config \<Rightarrow> ('s, 'k) machine \<Rightarrow> daemonRuntime \<Rightarrow> pushEvent list" where
  "iteration_pushes V newDrop cfg M r =
     (case snd (runSyncOnce (dv_sync V) newDrop cfg (w_drop (mc_world M)) (w_disk (mc_world M))) of
        Inl _ \<Rightarrow> []
      | Inr res \<Rightarrow>
          (case findSelf cfg (sr_Directory res) of
             Inl _ \<Rightarrow> []
           | Inr self \<Rightarrow> reconcile_pushes V cfg self (sr_Directory res) (mc_kernel M) (r\<lparr>rt_dirHolder := Some (sr_Directory res)\<rparr>)))"

definition tick_pushes :: "'k daemonEnv \<Rightarrow> Config \<Rightarrow> 'k \<Rightarrow> daemonRuntime \<Rightarrow> pushEvent list" where
  "tick_pushes V cfg k r =
     (case rt_dirHolder r of
        None \<Rightarrow> []
      | Some dir \<Rightarrow> (case findSelf cfg dir of Inl _ \<Rightarrow> [] | Inr self \<Rightarrow> reconcile_pushes V cfg self dir k r))"

text \<open>The runs of a daemon, with the pushes it has made: iterations and relay ticks in any order, and in between whatever else happens to the
  machine (the kernel hears from peers, other commands run) and to the discovery store.\<close>

inductive daemon_run :: "('s, 'k) machine \<Rightarrow> daemonRuntime \<Rightarrow> pushEvent list \<Rightarrow> bool" where
  start: "daemon_run M (newDaemonRuntime\<lparr>rt_lanStore := lan\<rparr>) []"
| iterate: "daemon_run M r tr \<Longrightarrow> runDaemonIteration V newDrop cfg M r = (M', r', res) \<Longrightarrow>
    daemon_run M' r' (tr @ iteration_pushes V newDrop cfg M r)"
| tick: "daemon_run M r tr \<Longrightarrow> runRelayTick V cfg (mc_kernel M) r = (k, r') \<Longrightarrow>
    daemon_run (M\<lparr>mc_kernel := k\<rparr>) r' (tr @ tick_pushes V cfg (mc_kernel M) r)"
| elsewhere: "daemon_run M r tr \<Longrightarrow> daemon_run M' (r\<lparr>rt_lanStore := lan\<rparr>) tr"

text \<open>The time of the last push for a member that has been in every directory applied since.\<close>

definition last_pushed :: "pushEvent list \<Rightarrow> string \<Rightarrow> gotime \<Rightarrow> bool" where
  "last_pushed tr key t \<longleftrightarrow>
     (\<exists>before e after. tr = before @ e # after \<and> key \<in> pe_pushed e \<and> t = pe_time e \<and>
        (\<forall>e' \<in> set (e # after). key \<in> pe_members e') \<and> (\<forall>e' \<in> set after. key \<notin> pe_pushed e'))"

lemma last_pushed_snoc:
  "last_pushed (tr @ [e]) key t \<longleftrightarrow>
     key \<in> pe_members e \<and> (if key \<in> pe_pushed e then t = pe_time e else last_pushed tr key t)"
proof
  assume "last_pushed (tr @ [e]) key t"
  then obtain b d a where l: "tr @ [e] = b @ d # a" "key \<in> pe_pushed d" "t = pe_time d"
    "\<forall>e' \<in> set (d # a). key \<in> pe_members e'" "\<forall>e' \<in> set a. key \<notin> pe_pushed e'" unfolding last_pushed_def by blast
  show "key \<in> pe_members e \<and> (if key \<in> pe_pushed e then t = pe_time e else last_pushed tr key t)"
  proof (cases a rule: rev_cases)
    case (snoc a' x)
    with l(1) have x: "x = e" "tr = b @ d # a'" by simp_all
    with l snoc have "last_pushed tr key t" unfolding last_pushed_def by auto
    with l snoc x show ?thesis by simp
  qed (use l in simp)
next
  assume r: "key \<in> pe_members e \<and> (if key \<in> pe_pushed e then t = pe_time e else last_pushed tr key t)"
  show "last_pushed (tr @ [e]) key t"
  proof (cases "key \<in> pe_pushed e")
    case True
    with r show ?thesis unfolding last_pushed_def by (intro exI [of _ tr] exI [of _ e] exI [of _ "[]"]) simp
  next
    case False
    with r obtain b d a where l: "tr = b @ d # a" "key \<in> pe_pushed d" "t = pe_time d"
      "\<forall>e' \<in> set (d # a). key \<in> pe_members e'" "\<forall>e' \<in> set a. key \<notin> pe_pushed e'" by (auto simp: last_pushed_def)
    then show ?thesis
      unfolding last_pushed_def using r False by (intro exI [of _ b] exI [of _ d] exI [of _ "a @ [e]"]) auto
  qed
qed

text \<open>The daemon's memory of its pushes is right.\<close>

definition knows_pushes :: "(string \<times> gotime) list \<Rightarrow> pushEvent list \<Rightarrow> bool" where
  "knows_pushes pushedAt tr \<longleftrightarrow> (\<forall>key t. last_pushed tr key t \<longrightarrow> pushedAt_of pushedAt key = t)"

lemma knows_record:
  "knows_pushes m tr \<Longrightarrow> knows_pushes (recordEndpointPushes pushed dir now m)
     (tr @ [\<lparr>pe_members = n_PublicKey ` set (d_Nodes dir), pe_pushed = set pushed, pe_time = now\<rparr>])"
  by (auto simp: knows_pushes_def last_pushed_snoc recordEndpointPushes_at split: if_splits)

lemma reconcile_knows:
  assumes "reconcileRelay V cfg self dir k r = (k', r', res)" and "knows_pushes (rt_endpointPushedAt r) tr"
  shows "knows_pushes (rt_endpointPushedAt r') (tr @ reconcile_pushes V cfg self dir k r)"
proof -
  let ?W = "l_wg (e_libs (dv_sync V))" and ?K = "dv_kernel V"
  show ?thesis
  proof (cases "NewManager ?W (c_Wireguard cfg)")
    case (Inl e)
    with assms show ?thesis by (simp add: reconcileRelay_def reconcile_pushes_def)
  next
    case (Inr m)
    obtain k1 ue where u: "Up ?K m k = (k1, ue)" by fastforce
    obtain c dec where c: "relay_Update ?W (rt_controller r) self dir
        (case manager_Peers ?K m k1 of Inl _ \<Rightarrow> [] | Inr ps \<Rightarrow> ps) (dv_update V) = (c, dec)" by fastforce
    obtain k2 pushed ae where ap: "Apply ?W ?K (dv_resolve V) (dv_apply V) m self dir (de_Relayed dec)
        (lanLookup_of (dv_lookup V) (map_option (markLANFailures (de_PeerStates dec) (rt_prevModes r) (dv_marked V)) (rt_lanStore r))) k1 =
        (k2, pushed, ae)" by (metis prod_cases3)
    show ?thesis
      using assms Inr u c ap knows_record
      by (cases ue) (auto simp: reconcileRelay_def reconcile_pushes_def Let_def)
  qed
qed

lemma tick_knows:
  assumes "runRelayTick V cfg k r = (k', r')" and "knows_pushes (rt_endpointPushedAt r) tr"
  shows "knows_pushes (rt_endpointPushedAt r') (tr @ tick_pushes V cfg k r)"
proof (cases "rt_dirHolder r")
  case (Some dir)
  show ?thesis
  proof (cases "findSelf cfg dir")
    case (Inr self)
    obtain q where "reconcileRelay V cfg self dir k r = (k', r', q)"
      using assms(1) Some Inr by (auto simp: runRelayTick_def split: prod.splits)
    from reconcile_knows [OF this assms(2)] Some Inr show ?thesis by (simp add: tick_pushes_def)
  qed (use assms Some in \<open>simp add: runRelayTick_def tick_pushes_def\<close>)
qed (use assms in \<open>simp add: runRelayTick_def tick_pushes_def\<close>)

lemma iteration_knows:
  assumes "runDaemonIteration V newDrop cfg M r = (M', r', res)" and "knows_pushes (rt_endpointPushedAt r) tr"
  shows "knows_pushes (rt_endpointPushedAt r') (tr @ iteration_pushes V newDrop cfg M r)"
proof -
  obtain d q where s: "runSyncOnce (dv_sync V) newDrop cfg (w_drop (mc_world M)) (w_disk (mc_world M)) = (d, q)" by fastforce
  show ?thesis
  proof (cases q)
    case (Inl e)
    with assms s show ?thesis by (simp add: runDaemonIteration_def iteration_pushes_def)
  next
    case (Inr sr)
    let ?r = "r\<lparr>rt_dirHolder := Some (sr_Directory sr)\<rparr>"
    show ?thesis
    proof (cases "findSelf cfg (sr_Directory sr)")
      case self: (Inr self)
      obtain k r2 qq where qq: "reconcileRelay V cfg self (sr_Directory sr) (mc_kernel M) ?r = (k, r2, qq)" by (metis prod_cases3)
      have "knows_pushes (rt_endpointPushedAt r2) (tr @ reconcile_pushes V cfg self (sr_Directory sr) (mc_kernel M) ?r)"
        by (rule reconcile_knows [OF qq]) (simp add: assms(2))
      moreover have "rt_endpointPushedAt r' = rt_endpointPushedAt r2"
      proof (cases qq)
        case fin: (Inr mm)
        obtain manager decision where mm: "mm = (manager, decision)" by (cases mm)
        let ?M = "M\<lparr>mc_world := (mc_world M)\<lparr>w_disk := d\<rparr>, mc_kernel := k\<rparr>"
        have "iteration_tail V newDrop cfg sr self manager ?M r2 = (M', r', res)"
          using assms(1) s Inr self qq fin mm by (simp add: runDaemonIteration_def Let_def)
        then show ?thesis by (rule iteration_tail_cases) simp
      qed (use assms(1) s Inr self qq in \<open>simp add: runDaemonIteration_def Let_def\<close>)
      ultimately show ?thesis using s Inr self by (simp add: iteration_pushes_def)
    qed (use assms s Inr in \<open>auto simp: runDaemonIteration_def iteration_pushes_def Let_def\<close>)
  qed
qed

lemma daemon_run_knows: "daemon_run M r tr \<Longrightarrow> knows_pushes (rt_endpointPushedAt r) tr"
proof (induction rule: daemon_run.induct)
  case (start M lan)
  then show ?case by (simp add: knows_pushes_def last_pushed_def)
next
  case (iterate M r tr V newDrop cfg M' r' res)
  then show ?case by (intro iteration_knows)
next
  case (tick M r tr V cfg k r')
  then show ?case by (intro tick_knows)
qed simp

text \<open>C6: the daemon publishes no endpoint of its own making. In any run of the daemon (iterations and relay ticks in any order, the machine
  changing in between as it may), an iteration hands at most one directory to the drop; it has the members of the published one, and
  an endpoint it newly gives to a member is one that the kernel reports for that member's key, with a handshake later than the last
  push of an endpoint for that member that the daemon has made, in this iteration or before, in an \<open>Apply\<close> that succeeded or failed
  after the push, while the member stayed in the directory. (A \<open>ConfigureDevice\<close> that itself fails counts as no push, as in the code.)\<close>

theorem daemon_never_launders:
  assumes "daemon_run M r tr" and "runDaemonIteration V newDrop cfg M r = (M', r', res)" and "\<forall>k. io_ok (e_io (dv_observe V) k)"
  shows "w_uploads (mc_world M') = w_uploads (mc_world M) \<or>
    (\<exists>u (remote :: directory) manager peers. w_uploads (mc_world M') = w_uploads (mc_world M) @ [u] \<and>
       (\<exists>D. loadAdminDrop newDrop cfg = Inr D \<and> fetchDirectory (dv_observe V) cfg D (w_drop (mc_world M)) = Inr remote) \<and>
       manager_Peers (dv_kernel V) manager (mc_kernel M') = Inr peers \<and>
       map n_PublicKey (d_Nodes u) = map n_PublicKey (d_Nodes remote) \<and>
       (\<forall>i n n'. i < length (d_Nodes remote) \<and> n = d_Nodes remote ! i \<and> n' = d_Nodes u ! i \<and>
          n_ObservedEndpoint n' \<noteq> n_ObservedEndpoint n \<and> n_ObservedEndpoint n' \<noteq> [] \<longrightarrow>
          (\<exists>p \<in> set peers. ParseWGPublic (l_wg (e_libs (dv_observe V))) (n_PublicKey n) = Inr (wp_PublicKey p) \<and>
             wp_Endpoint p = Some (n_ObservedEndpoint n') \<and>
             (\<forall>t. last_pushed (tr @ iteration_pushes V newDrop cfg M r) (n_PublicKey n) t \<longrightarrow> t < wp_LastHandshake p))))"
  using assms(2)
proof (cases rule: iteration_cases)
  case (stopped d sr k)
  then show ?thesis by simp
next
  case (applied d sr self k r2 manager decision)
  define M1 where "M1 = M\<lparr>mc_world := (mc_world M)\<lparr>w_disk := d\<rparr>, mc_kernel := k\<rparr>"
  obtain w1 ro where t: "mc_kernel M' = mc_kernel M1" "rt_endpointPushedAt r' = rt_endpointPushedAt r2"
    and w1: "w1 = mc_world M1 \<or> (\<exists>snap. w1 = (mc_world M1)\<lparr>w_disk :=
        fst (WriteDiscovery (e_json (dv_sync V)) (dv_discovery V) (dv_written V) snap (w_disk (mc_world M1)))\<rparr>)"
    and o: "mc_world M' = w1 \<or>
      runAdminObservation V newDrop cfg manager (sr_Serial sr) (rt_endpointPushedAt r2) (mc_kernel M1) w1 = (mc_world M', ro)"
    by (rule iteration_tail_cases [OF applied(4) [folded M1_def]]) blast
  have up: "w_uploads w1 = w_uploads (mc_world M)" "w_drop w1 = w_drop (mc_world M)" using w1 by (auto simp: M1_def)
  have kern: "mc_kernel M' = k" "mc_kernel M1 = k" using t(1) by (simp_all add: M1_def)
  have knows: "knows_pushes (rt_endpointPushedAt r2) (tr @ iteration_pushes V newDrop cfg M r)"
    using iteration_knows [OF assms(2) daemon_run_knows [OF assms(1)]] t(2) by simp
  show ?thesis
  proof (cases "w_uploads (mc_world M') = w_uploads (mc_world M)")
    case False
    then have up': "w_uploads (mc_world M') \<noteq> w_uploads w1" using up by simp
    then have ob: "runAdminObservation V newDrop cfg manager (sr_Serial sr) (rt_endpointPushedAt r2) k w1 = (mc_world M', ro)"
      using o kern by auto
    obtain D remote peers u where ld: "loadAdminDrop newDrop cfg = Inr D" and f: "fetchDirectory (dv_observe V) cfg D (w_drop w1) = Inr remote"
      and m: "manager_Peers (dv_kernel V) manager k = Inr peers" and u: "w_uploads (mc_world M') = w_uploads w1 @ [u]"
      and keys: "map n_PublicKey (d_Nodes u) = map n_PublicKey (d_Nodes remote)"
      and vouched: "\<forall>i n n'. i < length (d_Nodes remote) \<and> n = d_Nodes remote ! i \<and> n' = d_Nodes u ! i \<and>
        n_ObservedEndpoint n' \<noteq> n_ObservedEndpoint n \<and> n_ObservedEndpoint n' \<noteq> [] \<longrightarrow>
        (\<exists>p \<in> set peers. ParseWGPublic (l_wg (e_libs (dv_observe V))) (n_PublicKey n) = Inr (wp_PublicKey p) \<and>
          wp_Endpoint p = Some (n_ObservedEndpoint n') \<and> pushedAt_of (rt_endpointPushedAt r2) (n_PublicKey n) < wp_LastHandshake p)"
      by (rule observation_upload [OF ob up' assms(3)])
    have later: "t < h" if "pushedAt_of (rt_endpointPushedAt r2) key < h"
      "last_pushed (tr @ iteration_pushes V newDrop cfg M r) key t" for key t h
      using knows that by (auto simp: knows_pushes_def)
    show ?thesis
    proof (rule disjI2, intro exI conjI)
      show "w_uploads (mc_world M') = w_uploads (mc_world M) @ [u]" using u up by simp
      show "loadAdminDrop newDrop cfg = Inr D" by (rule ld)
      show "fetchDirectory (dv_observe V) cfg D (w_drop (mc_world M)) = Inr remote" using f up by simp
      show "manager_Peers (dv_kernel V) manager (mc_kernel M') = Inr peers" using m kern by simp
    qed (use keys vouched later in \<open>simp, metis\<close>)
  qed simp
qed

text \<open>An iteration that observes: the drop has the directory, and the kernel has heard from the member \<open>b\<close> after the push.\<close>

definition demo_heard :: wgpeer where
  "demo_heard = \<lparr>wp_PublicKey = replicate 32 (char_of (66 :: nat)), wp_Endpoint = Some ''1.2.3.4:5'', wp_LastHandshake = 100 * second\<rparr>"

definition demo_hears :: "demo_state daemonEnv" where
  "demo_hears = demo_dv\<lparr>dv_kernel := demo_kernel [demo_heard], dv_pushed := 50 * second, dv_merge := 110 * second\<rparr>"

definition demo_published_machine :: "(fileSystem, demo_state) machine" where
  "demo_published_machine = demo_cached\<lparr>mc_world := demo_world\<lparr>w_drop := [''/d'' \<mapsto> demo_blob]\<rparr>\<rparr>"

definition demo_synced :: disk where
  "demo_synced = [FSource \<mapsto> ''D'', FSerial \<mapsto> formatSerial 5, FCache \<mapsto> ''D'', FState \<mapsto> ''{}'' @ [NL]]"

definition demo_observed :: directory where
  "demo_observed = demo_dir\<lparr>d_Nodes :=
     [demo_node ''a'' 65 ''10.42.0.1'' ''a.example:51820'' False,
      (demo_node ''b'' 66 ''10.42.0.2'' [] True)\<lparr>n_ObservedEndpoint := ''1.2.3.4:5'', n_ObservedAt := 110 * second\<rparr>,
      demo_node ''c'' 67 ''10.42.0.3'' ''1.2.3.4:51820'' True]\<rparr>"

lemma demo_hears_fields:
  "l_wg (e_libs (dv_sync demo_hears)) = demo_wg" "dv_kernel demo_hears = demo_kernel [demo_heard]" "dv_resolve demo_hears = Some"
  "dv_sync demo_hears = demo_env demo_any" "dv_observe demo_hears = demo_env demo_any" "dv_merge demo_hears = 110 * second"
  "dv_pushed demo_hears = 50 * second"
  by (simp_all add: demo_hears_def demo_dv_def demo_any_fields)

lemma demo_any_open: "Open demo_any demo_blob ''age66'' demo_pub = Inr (demo_dir, ''D'')"
proof -
  have "Open demo_any b i p = Open (demo_libs demo_dir) b i p" for b i p
    unfolding Open_def UnmarshalPlain_def msgpack_Unmarshal_def demo_any_fields demo_simps(5-8) by (rule refl)
  moreover have "Open (demo_libs demo_dir) demo_blob ''age66'' demo_pub = Inr (stamped 0 demo_dir, ''D'')"
    using Open_Seal [OF demo_libs_ok _ demo_seal demo_blob_size demo_keys demo_identity demo_member]
      demo_marshal [OF demo_dir_valid demo_dir_psk demo_dir_stamped [of 0]] demo_dir_canonical by simp
  ultimately show ?thesis by (simp add: demo_dir_stamped)
qed

lemma demo_any_marshals: "marshal_dir demo_any 0 demo_dir = Inr ''D''"
  using demo_any_marshal [of 0 demo_dir] demo_dir_valid demo_dir_psk by (simp add: demo_dir_stamped)

lemma demo_get: "file_Get fine_io ''/d'' [''/d'' \<mapsto> demo_blob] = Inr demo_blob"
  using demo_blob_size by (simp add: file_Get_def fine_io_def readBounded_Inr)

lemma demo_published_sync:
  "\<exists>sr. runSyncOnce (demo_env demo_any) (\<lambda>_. Inr demo_drop) demo_member [''/d'' \<mapsto> demo_blob] [FSource \<mapsto> ''D''] = (demo_synced, Inr sr) \<and>
     sr_Directory sr = demo_dir \<and> sr_Serial sr = 5"
proof -
  have j: "js_EncodeState demo_json st = Inr ''{}''" for st by (simp add: demo_json_def)
  have "Write demo_any demo_json io_fine 0 demo_dir [] [FSource \<mapsto> ''D''] = (demo_synced, Inr ())"
    using Write_fine [OF demo_any_marshals _ _ j, of "[FSource \<mapsto> ''D'']"]
    by (simp add: mark_level_def mark_def demo_synced_def demo_dir_def [THEN arg_cong, of d_Serial])
  moreover have "fetchSyncDirectory (demo_env demo_any) demo_member demo_drop [''/d'' \<mapsto> demo_blob] [FSource \<mapsto> ''D''] = Inr (demo_dir, None)"
    by (simp add: fetchSyncDirectory_def demo_get demo_member_def demo_any_open ReadSerial_def readSerial_def os_ReadFile_def)
  ultimately show ?thesis by (simp add: runSyncOnce_def loadReadDrop_def demo_dir_def [THEN arg_cong, of d_Serial])
qed

lemma demo_merge:
  assumes "pushedAt_of pushedAt (n_PublicKey (demo_node ''b'' 66 ''10.42.0.2'' [] True)) < 100 * second"
  shows "MergeObservations demo_wg demo_dir [demo_heard] (110 * second) DefaultHandshakeFresh pushedAt = (demo_observed, True)"
  using assms
  by (simp add: MergeObservations_def mergeNode_def demo_dir_def demo_observed_def demo_node_fields demo_key_ok indexPeers_def hasFreshHandshake_def
      demo_heard_def time_IsZero_def time_Sub_def time_Truncate_def minDuration_def maxDuration_def DefaultHandshakeFresh_def Let_def)

lemma demo_observed_valid: "Validate demo_wg demo_age demo_observed = Inr ()"
proof -
  have "validateEndpoint ''1.2.3.4:5'' = Inr ()" by code_simp
  then have "node_ok demo_wg demo_age d p (demo_node ''b'' 66 ''10.42.0.2'' [] True) \<Longrightarrow> node_ok demo_wg demo_age d p
      ((demo_node ''b'' 66 ''10.42.0.2'' [] True)\<lparr>n_ObservedEndpoint := ''1.2.3.4:5'', n_ObservedAt := t\<rparr>)" for d p t
    by (simp add: node_ok_def)
  then show ?thesis
    using demo_dir_valid unfolding Validate_ok directory_ok_def demo_observed_def demo_dir_def by auto
qed

lemma demo_observation:
  assumes "pushedAt_of pushedAt (n_PublicKey (demo_node ''b'' 66 ''10.42.0.2'' [] True)) < 100 * second"
    and "w = demo_world\<lparr>w_disk := demo_synced, w_drop := [''/d'' \<mapsto> demo_blob]\<rparr>"
    and "runAdminObservation demo_hears (\<lambda>_. Inr demo_drop) demo_member manager 5 pushedAt k w = (w', ro)"
  shows "w_uploads w' = [demo_observed\<lparr>d_Serial := 6, d_CreatedAt := Stamp 0\<rparr>]"
proof -
  let ?E = "demo_env demo_any" and ?u = "demo_observed\<lparr>d_Serial := 6, d_CreatedAt := Stamp 0\<rparr>"
  have adm: "RequireAdmin demo_any demo_member = Inr ()" "LockAdmin io_fine = Inr ()" "loadAdminDrop (\<lambda>_. Inr demo_drop) demo_member = Inr demo_drop"
  proof -
    have a: "RequireAdmin demo_any demo_cfg = Inr () \<and> LockAdmin io_fine = Inr ()"
      using demo_asAdmin [of ?E] by (auto simp: asAdmin_def)
    have "RequireAdmin demo_any demo_member = RequireAdmin demo_any demo_cfg" by (simp add: RequireAdmin_def demo_member_def)
    with a show "RequireAdmin demo_any demo_member = Inr ()" "LockAdmin io_fine = Inr ()" by simp_all
    show "loadAdminDrop (\<lambda>_. Inr demo_drop) demo_member = Inr demo_drop" by (simp add: loadAdminDrop_def demo_member_def)
  qed
  have "fetchDirectory ?E demo_member demo_drop (w_drop w) = Inr demo_dir"
    by (simp add: fetchDirectory_def assms(2) demo_get demo_member_def demo_any_open)
  moreover have "ReadSource demo_any io_fine (w_disk w) = Inr demo_dir"
    by (simp add: ReadSource_def assms(2) demo_synced_def os_ReadFile_def demo_any_unmarshal)
  moreover have "\<not> pendingAdminChanges ?E demo_dir demo_dir" by (simp add: pendingAdminChanges_def demo_any_marshals)
  moreover have "manager_Peers (demo_kernel [demo_heard]) manager k = Inr [demo_heard]"
    by (simp add: manager_Peers_def demo_kernel_def)
  moreover have "od_Or (oc_HandshakeFresh (c_Observe demo_member)) DefaultHandshakeFresh = DefaultHandshakeFresh"
    by (simp add: demo_member_def demo_cfg_def Default_def)
  moreover have "preparePublishSerial ?E demo_observed (Inr demo_dir) False (w_disk w) = Inr ?u"
    by (simp add: preparePublishSerial_def reconcilePublishSerial_def raiseToFloor_def bumpDirectory_def assms(2) demo_synced_def
        ReadSerial_def ReadPublishSerial_def readSerial_def os_ReadFile_def demo_observed_def demo_dir_def)
  moreover have "\<exists>w' r. publishDirectory ?E demo_member demo_drop ?u True w = (w', r) \<and> w_uploads w' = [?u]"
  proof -
    have psk: "list_all (\<lambda>n. n_PSK n = []) (d_Nodes ?u)" by (simp add: demo_observed_def demo_node_def zero_node_def)
    have m: "marshal_dir demo_any 0 ?u = Inr ''D''" by (intro demo_any_marshal Validate_stamp demo_observed_valid psk)
    have rc: "recipientsOf demo_age (d_Nodes ?u) = Inr [''age65'', ''age66'', ''age67'']"
      by (simp add: demo_observed_def demo_node_fields demo_decimals demo_recipient_ok)
    obtain blob where b: "Seal demo_any 0 0 ?u demo_priv = Inr blob" using demo_any_seal [OF m rc] by auto
    have k: "dc_PublisherKey (c_Directory demo_member) = demo_priv" by (simp add: demo_member_def)
    have r: "ReservePublishSerial io_fine 6 demo_synced = (demo_synced(FPublish \<mapsto> formatSerial 6), Inr ())"
      by (simp add: ReservePublishSerial_def io_fine_write ReadPublishSerial_def readSerial_def os_ReadFile_def demo_synced_def)
    show ?thesis
      using b k r unfolding publishDirectory_def
      by (auto simp: assms(2) demo_world_def Let_def split: prod.split sum.split)
  qed
  ultimately show ?thesis
    using assms(3) demo_merge [OF assms(1)] adm
    by (auto simp: runAdminObservation_def demo_hears_fields demo_any_fields demo_dir_def [THEN arg_cong, of d_Serial])
qed

lemma demo_observing_iteration:
  "\<exists>M' r' res. runDaemonIteration demo_hears (\<lambda>_. Inr demo_drop) demo_member demo_published_machine newDaemonRuntime = (M', r', res) \<and>
     w_uploads (mc_world M') = [demo_observed\<lparr>d_Serial := 6, d_CreatedAt := Stamp 0\<rparr>] \<and>
     w_drop (mc_world demo_published_machine) = [''/d'' \<mapsto> demo_blob]"
proof -
  obtain sr where s: "runSyncOnce (demo_env demo_any) (\<lambda>_. Inr demo_drop) demo_member [''/d'' \<mapsto> demo_blob] [FSource \<mapsto> ''D''] = (demo_synced, Inr sr)"
    "sr_Directory sr = demo_dir" "sr_Serial sr = 5" using demo_published_sync by blast
  have f: "findSelf demo_member demo_dir = Inr demo_self"
    by (simp add: findSelf_def demo_member_def demo_dir_def demo_node_fields)
  let ?r = "newDaemonRuntime\<lparr>rt_dirHolder := Some demo_dir\<rparr>"
  obtain k r2 m dec where q: "reconcileRelay demo_hears demo_member demo_self demo_dir (mc_kernel demo_published_machine) ?r = (k, r2, Inr (m, dec))"
    and lan: "rt_lanStore r2 = None"
    using demo_member_relay [OF demo_hears_fields(1-3), of "mc_kernel demo_published_machine" ?r]
    by (auto simp: newDaemonRuntime_def [THEN arg_cong, of rt_lanStore])
  let ?b = "n_PublicKey (demo_node ''b'' 66 ''10.42.0.2'' [] True)"
  have "pushedAt_of (rt_endpointPushedAt r2) ?b < 100 * second"
  proof (rule reconcileRelay_ok [OF q])
    fix pushed
    assume "rt_endpointPushedAt r2 = recordEndpointPushes pushed demo_dir (dv_pushed demo_hears) (rt_endpointPushedAt ?r)"
    then show ?thesis
      using recordEndpointPushes_at [of ?b demo_dir] by (simp add: demo_dir_def [THEN arg_cong, of d_Nodes] demo_hears_fields newDaemonRuntime_def pushedAt_of_def)
  qed
  define M1 where "M1 = demo_published_machine\<lparr>mc_world := (mc_world demo_published_machine)\<lparr>w_disk := demo_synced\<rparr>, mc_kernel := k\<rparr>"
  obtain w' ro where o: "runAdminObservation demo_hears (\<lambda>_. Inr demo_drop) demo_member m 5 (rt_endpointPushedAt r2) k (mc_world M1) = (w', ro)"
    by fastforce
  have u: "w_uploads w' = [demo_observed\<lparr>d_Serial := 6, d_CreatedAt := Stamp 0\<rparr>]"
    by (rule demo_observation [OF \<open>pushedAt_of _ _ < _\<close> _ o]) (simp add: M1_def demo_published_machine_def)
  obtain M' r' res where t: "iteration_tail demo_hears (\<lambda>_. Inr demo_drop) demo_member sr demo_self m M1 r2 = (M', r', res)"
    by (metis prod_cases3)
  moreover have "observe_IsEnabled (c_Observe demo_member)" by (simp add: demo_member_def demo_cfg_def Default_def observe_IsEnabled_def)
  moreover have "mc_kernel M1 = k" by (simp add: M1_def)
  ultimately have "mc_world M' = w'"
    using o lan s(3) by (auto simp: iteration_tail_def Let_def split: prod.splits)
  moreover have "runDaemonIteration demo_hears (\<lambda>_. Inr demo_drop) demo_member demo_published_machine newDaemonRuntime = (M', r', res)"
    using s f q t by (simp add: runDaemonIteration_def M1_def Let_def demo_published_machine_def demo_world_def demo_hears_fields)
  ultimately show ?thesis using u by (simp add: demo_published_machine_def)
qed

theorem daemon_never_launders_witness:
  "\<exists>M' r' res u. runDaemonIteration demo_hears (\<lambda>_. Inr demo_drop) demo_member demo_published_machine newDaemonRuntime = (M', r', res) \<and>
     w_uploads (mc_world M') = [u] \<and> n_ObservedEndpoint (d_Nodes u ! 1) = ''1.2.3.4:5'' \<and>
     (\<forall>t. last_pushed (iteration_pushes demo_hears (\<lambda>_. Inr demo_drop) demo_member demo_published_machine newDaemonRuntime)
        (n_PublicKey (demo_node ''b'' 66 ''10.42.0.2'' [] True)) t \<longrightarrow> t < 100 * second)"
proof -
  let ?M = demo_published_machine and ?u = "demo_observed\<lparr>d_Serial := 6, d_CreatedAt := Stamp 0\<rparr>"
  let ?b = "n_PublicKey (demo_node ''b'' 66 ''10.42.0.2'' [] True)"
  obtain M' r' res where r: "runDaemonIteration demo_hears (\<lambda>_. Inr demo_drop) demo_member ?M newDaemonRuntime = (M', r', res)"
    and u: "w_uploads (mc_world M') = [?u]" using demo_observing_iteration by blast
  have "newDaemonRuntime\<lparr>rt_lanStore := None\<rparr> = newDaemonRuntime" by (simp add: newDaemonRuntime_def)
  then have st: "daemon_run ?M newDaemonRuntime []" using daemon_run.start [of ?M None] by simp
  have no: "w_uploads (mc_world ?M) = []" "\<forall>k. io_ok (e_io (dv_observe demo_hears) k)"
    by (simp_all add: demo_published_machine_def demo_world_def demo_hears_def demo_dv_def)
  let ?tr = "iteration_pushes demo_hears (\<lambda>_. Inr demo_drop) demo_member ?M newDaemonRuntime"
  have obs: "n_ObservedEndpoint (d_Nodes ?u ! 1) = ''1.2.3.4:5''" by (simp add: demo_observed_def)
  have dr: "loadAdminDrop (\<lambda>_. Inr demo_drop) demo_member = Inr demo_drop" by (simp add: loadAdminDrop_def demo_member_def)
  have rem: "fetchDirectory (dv_observe demo_hears) demo_member demo_drop (w_drop (mc_world ?M)) = Inr demo_dir"
    by (simp add: fetchDirectory_def demo_hears_fields demo_published_machine_def demo_get demo_member_def demo_any_open)
  have b: "1 < length (d_Nodes demo_dir)" "d_Nodes demo_dir ! 1 = demo_node ''b'' 66 ''10.42.0.2'' [] True"
    "n_ObservedEndpoint (demo_node ''b'' 66 ''10.42.0.2'' [] True) = []"
    by (simp_all add: demo_dir_def demo_node_def zero_node_def)
  have ne: "w_uploads (mc_world M') \<noteq> w_uploads (mc_world ?M)" using u no(1) by simp
  have "\<exists>manager peers. manager_Peers (dv_kernel demo_hears) manager (mc_kernel M') = Inr peers \<and>
      (\<exists>p \<in> set peers. wp_Endpoint p = Some ''1.2.3.4:5'' \<and> (\<forall>t. last_pushed ?tr ?b t \<longrightarrow> t < wp_LastHandshake p))"
    using daemon_never_launders [OF st r no(2)] ne
  proof (elim disjE exE conjE)
    fix u' remote manager peers D
    assume up: "w_uploads (mc_world M') = w_uploads (mc_world ?M) @ [u']"
      and D: "loadAdminDrop (\<lambda>_. Inr demo_drop) demo_member = Inr D"
      and f: "fetchDirectory (dv_observe demo_hears) demo_member D (w_drop (mc_world ?M)) = Inr remote"
      and m: "manager_Peers (dv_kernel demo_hears) manager (mc_kernel M') = Inr peers"
      and v: "\<forall>i n n'. i < length (d_Nodes remote) \<and> n = d_Nodes remote ! i \<and> n' = d_Nodes u' ! i \<and>
        n_ObservedEndpoint n' \<noteq> n_ObservedEndpoint n \<and> n_ObservedEndpoint n' \<noteq> [] \<longrightarrow>
        (\<exists>p \<in> set peers. ParseWGPublic (l_wg (e_libs (dv_observe demo_hears))) (n_PublicKey n) = Inr (wp_PublicKey p) \<and>
           wp_Endpoint p = Some (n_ObservedEndpoint n') \<and> (\<forall>t. last_pushed ([] @ ?tr) (n_PublicKey n) t \<longrightarrow> t < wp_LastHandshake p))"
    have "u' = ?u" "remote = demo_dir" using up u no(1) D dr f rem by simp_all
    with v [rule_format, of 1 "d_Nodes remote ! 1" "d_Nodes u' ! 1"] m b obs show ?thesis by fastforce
  qed simp
  moreover have "manager_Peers (dv_kernel demo_hears) manager k = Inr peers \<Longrightarrow> peers = [demo_heard]" for manager k peers
    by (simp add: demo_hears_fields manager_Peers_def demo_kernel_def)
  ultimately have "\<forall>t. last_pushed ?tr ?b t \<longrightarrow> t < wp_LastHandshake demo_heard" by fastforce
  then show ?thesis using r u obs by (auto simp: demo_heard_def)
qed

end
