(* ===== verification/Report.thy ===== *)
theory Report
  imports GoStrings
begin

text \<open>
  What the commands print (\<open>src/internal/cli/ui.go\<close>): styles, aligned pairs and tables. A printing function is the text
  that it writes; a failed write is ignored, as in the code. Strings are bytes, so the width of a cell is the number of
  its UTF-8 code points (\<open>utf8.RuneCountInString\<close>).
\<close>

section \<open>Code points\<close>

definition cont_byte :: "nat \<Rightarrow> nat \<Rightarrow> char \<Rightarrow> bool" where
  "cont_byte lo hi c = (lo \<le> code c \<and> code c \<le> hi)"

text \<open>The number of bytes of the first code point: 1 for ASCII and for a byte that does not start a valid sequence.\<close>

definition runeLen :: "string \<Rightarrow> nat" where
  "runeLen s =
     (case s of
        [] \<Rightarrow> 0
      | c # cs \<Rightarrow>
          let n = code c
          in if n < 0xC2 \<or> n > 0xF4 then 1
             else if n < 0xE0 then (case cs of a # _ \<Rightarrow> if cont_byte 0x80 0xBF a then 2 else 1 | _ \<Rightarrow> 1)
             else if n < 0xF0 then
               (case cs of a # b # _ \<Rightarrow>
                    if cont_byte (if n = 0xE0 then 0xA0 else 0x80) (if n = 0xED then 0x9F else 0xBF) a \<and> cont_byte 0x80 0xBF b then 3 else 1
                | _ \<Rightarrow> 1)
             else
               (case cs of a # b # d # _ \<Rightarrow>
                    if cont_byte (if n = 0xF0 then 0x90 else 0x80) (if n = 0xF4 then 0x8F else 0xBF) a \<and> cont_byte 0x80 0xBF b \<and> cont_byte 0x80 0xBF d
                    then 4 else 1
                | _ \<Rightarrow> 1))"

lemma runeLen_pos: "s \<noteq> [] \<Longrightarrow> 0 < runeLen s"
  by (auto simp: runeLen_def Let_def split: list.splits)

function runeCount :: "string \<Rightarrow> nat" where
  "runeCount s = (if s = [] then 0 else Suc (runeCount (drop (runeLen s) s)))"
  by auto
termination by (relation "measure length") (auto simp: runeLen_pos)

declare runeCount.simps [simp del]

section \<open>The printer\<close>

definition ESC :: char where "ESC = CHR 0x1B"

definition ansiReset :: string where "ansiReset = ESC # ''[0m''"
definition ansiBold :: string where "ansiBold = ESC # ''[1m''"
definition ansiDim :: string where "ansiDim = ESC # ''[2m''"
definition ansiRed :: string where "ansiRed = ESC # ''[31m''"
definition ansiGreen :: string where "ansiGreen = ESC # ''[32m''"
definition ansiYellow :: string where "ansiYellow = ESC # ''[33m''"
definition ansiCyan :: string where "ansiCyan = ESC # ''[36m''"

record printer =
  pr_color :: bool

text \<open>The environment: \<open>NO_COLOR\<close>, \<open>TERM\<close>, and whether the writer is a file that \<open>Stat\<close> finds to be a character device.\<close>

definition useColor :: "string \<Rightarrow> string \<Rightarrow> bool option \<Rightarrow> bool" where
  "useColor noColor term device =
     (if noColor \<noteq> [] then False
      else if term = ''dumb'' then False
      else case device of None \<Rightarrow> False | Some charDevice \<Rightarrow> charDevice)"

definition newPrinter :: "string \<Rightarrow> string \<Rightarrow> bool option \<Rightarrow> printer" where
  "newPrinter noColor term device = \<lparr>pr_color = useColor noColor term device\<rparr>"

definition style :: "printer \<Rightarrow> string \<Rightarrow> string \<Rightarrow> string" where
  "style p cd s = (if \<not> pr_color p then s else cd @ s @ ansiReset)"

record tableCell =
  tc_display :: string
  tc_width :: nat

definition plainCell :: "string \<Rightarrow> tableCell" where
  "plainCell s = \<lparr>tc_display = s, tc_width = runeCount s\<rparr>"

definition styledCell :: "printer \<Rightarrow> string \<Rightarrow> string \<Rightarrow> tableCell" where
  "styledCell p cd s = \<lparr>tc_display = style p cd s, tc_width = runeCount s\<rparr>"

text \<open>The widths after one more row; cells beyond the first row's length are ignored.\<close>

definition widen :: "nat list \<Rightarrow> tableCell list \<Rightarrow> nat list" where
  "widen widths row = map (\<lambda>i. if i < length row then max (widths ! i) (tc_width (row ! i)) else widths ! i) [0..<length widths]"

definition table_widths :: "tableCell list list \<Rightarrow> nat list" where
  "table_widths rows = fold (\<lambda>row widths. widen widths row) rows (replicate (length (hd rows)) 0)"

text \<open>The cells of a row from column \<open>i\<close> on; a cell beyond the last column is printed without padding.\<close>

fun row_cells :: "string \<Rightarrow> nat list \<Rightarrow> nat \<Rightarrow> tableCell list \<Rightarrow> string" where
  "row_cells gap widths i [] = []"
| "row_cells gap widths i (c # cs) =
     tc_display c @
     (if Suc i < length widths then replicate (widths ! i - tc_width c) (CHR '' '') @ gap else []) @
     row_cells gap widths (Suc i) cs"

definition table_row :: "string \<Rightarrow> string \<Rightarrow> nat list \<Rightarrow> tableCell list \<Rightarrow> string" where
  "table_row indent gap widths row = indent @ row_cells gap widths 0 row"

definition printer_table :: "string \<Rightarrow> string \<Rightarrow> tableCell list list \<Rightarrow> string" where
  "printer_table indent gap rows =
     (if rows = [] then [] else concat (map (\<lambda>row. table_row indent gap (table_widths rows) row @ [NL]) rows))"

definition blank :: string where "blank = [NL]"

definition headline :: "printer \<Rightarrow> string \<Rightarrow> string" where
  "headline p msg = style p (ansiGreen @ ansiBold) [CHR 0xE2, CHR 0x9C, CHR 0x93] @ '' '' @ style p ansiBold msg @ [NL]"

definition section_line :: "printer \<Rightarrow> string \<Rightarrow> string" where
  "section_line p title = style p (ansiBold @ ansiCyan) title @ [NL]"

definition hint :: "printer \<Rightarrow> string \<Rightarrow> string" where
  "hint p msg = style p ansiDim msg @ [NL]"

definition warn :: "printer \<Rightarrow> string \<Rightarrow> string" where
  "warn p msg = style p (ansiYellow @ ansiBold) ''!'' @ '' '' @ style p ansiYellow msg @ [NL]"

definition fail_line :: "printer \<Rightarrow> string \<Rightarrow> string" where
  "fail_line p msg = style p (ansiRed @ ansiBold) [CHR 0xE2, CHR 0x9C, CHR 0x97] @ '' '' @ style p ansiRed msg @ [NL]"

record pair =
  pa_label :: string
  pa_value :: string
  pa_secret :: bool
  pa_valueColor :: string

definition kv :: "string \<Rightarrow> string \<Rightarrow> pair" where
  "kv l v = \<lparr>pa_label = l, pa_value = v, pa_secret = False, pa_valueColor = []\<rparr>"

definition secret :: "string \<Rightarrow> string \<Rightarrow> pair" where
  "secret l v = \<lparr>pa_label = l, pa_value = v, pa_secret = True, pa_valueColor = []\<rparr>"

definition kvColor :: "string \<Rightarrow> string \<Rightarrow> string \<Rightarrow> pair" where
  "kvColor l v color = \<lparr>pa_label = l, pa_value = v, pa_secret = False, pa_valueColor = color\<rparr>"

definition pair_line :: "printer \<Rightarrow> nat \<Rightarrow> pair \<Rightarrow> string" where
  "pair_line p maxLabel it =
     (let lab = pa_label it @ '':'' @ replicate (maxLabel - length (pa_label it)) (CHR '' '');
          v = (if pa_secret it then style p ansiYellow (pa_value it) @ '' '' @ style p ansiDim ''[secret]''
               else if pa_valueColor it \<noteq> [] then style p (pa_valueColor it) (pa_value it) else pa_value it)
      in ''  '' @ style p ansiDim lab @ '' '' @ v @ [NL])"

definition printer_pairs :: "printer \<Rightarrow> pair list \<Rightarrow> string" where
  "printer_pairs p items =
     (let maxLabel = fold (\<lambda>it m. max m (length (pa_label it))) items 0
      in concat (map (pair_line p maxLabel) items))"

section \<open>Widths\<close>

lemma runeCount_Nil [simp]: "runeCount [] = 0"
  by (simp add: runeCount.simps)

lemma ascii_not_cont: "code b < 0x80 \<Longrightarrow> 0x80 \<le> lo \<Longrightarrow> \<not> cont_byte lo hi b"
  by (simp add: cont_byte_def)

lemma runeLen_le: "runeLen s \<le> length s"
  by (auto simp: runeLen_def Let_def split: list.splits)

text \<open>An ASCII byte ends every sequence, so widths add up across it.\<close>

lemma runeLen_ascii: "a \<noteq> [] \<Longrightarrow> code b < 0x80 \<Longrightarrow> runeLen (a @ b # bs) = runeLen a"
  by (auto simp: runeLen_def Let_def ascii_not_cont neq_Nil_conv split: list.splits)

lemma runeCount_ascii:
  assumes "code b < 0x80"
  shows "runeCount (a @ b # bs) = runeCount a + Suc (runeCount bs)"
proof (induction a rule: runeCount.induct)
  case (1 a)
  show ?case
  proof (cases "a = []")
    case True
    have "runeLen (b # bs) = 1" using assms by (simp add: runeLen_def)
    then show ?thesis using True by (simp add: runeCount.simps [of "b # bs"])
  next
    case False
    note l = runeLen_ascii [OF False assms, of bs]
    have "runeCount (a @ b # bs) = Suc (runeCount (drop (runeLen a) a @ b # bs))"
      using False runeLen_le [of a] by (subst runeCount.simps) (simp add: l)
    then show ?thesis using 1 [OF False] False by (subst runeCount.simps [of a]) simp
  qed
qed

definition is_ascii :: "string \<Rightarrow> bool" where
  "is_ascii s = list_all (\<lambda>c. code c < 0x80) s"

lemma runeCount_split:
  "is_ascii m \<Longrightarrow> m \<noteq> [] \<Longrightarrow> runeCount (a @ m @ b) = runeCount a + length m + runeCount b"
proof (induction m arbitrary: a)
  case (Cons c m)
  then have c: "code c < 0x80" and m: "is_ascii m" by (simp_all add: is_ascii_def)
  show ?case
  proof (cases "m = []")
    case True
    with c show ?thesis by (simp add: runeCount_ascii)
  next
    case False
    with Cons.IH [OF m, of "a @ [c]"] c show ?thesis by (simp add: runeCount_ascii)
  qed
qed simp

lemma runeCount_is_ascii: "is_ascii m \<Longrightarrow> runeCount (m @ b) = length m + runeCount b"
  using runeCount_split [of m "[]" b] by (cases "m = []") simp_all

lemma ascii_pad: "is_ascii gap \<Longrightarrow> is_ascii (replicate n (CHR '' '') @ gap)"
  by (auto simp: is_ascii_def list_all_iff)

lemma length_widen [simp]: "length (widen widths row) = length widths"
  by (simp add: widen_def)

lemma length_fold_widen [simp]: "length (fold (\<lambda>row widths. widen widths row) rows widths) = length widths"
  by (induction rows arbitrary: widths) simp_all

lemma fold_widen_ge:
  assumes "i < length widths"
  shows "widths ! i \<le> fold (\<lambda>row widths. widen widths row) rows widths ! i"
  using assms
proof (induction rows arbitrary: widths)
  case (Cons row rows)
  have "widths ! i \<le> widen widths row ! i" using Cons.prems by (simp add: widen_def)
  also have "\<dots> \<le> fold (\<lambda>row widths. widen widths row) rows (widen widths row) ! i" using Cons by simp
  finally show ?case by simp
qed simp

lemma fold_widen_fits:
  assumes "row \<in> set rows" and "i < length row" and "i < length widths"
  shows "tc_width (row ! i) \<le> fold (\<lambda>row widths. widen widths row) rows widths ! i"
  using assms
proof (induction rows arbitrary: widths)
  case (Cons r rows)
  show ?case
  proof (cases "row = r")
    case True
    then have "tc_width (row ! i) \<le> widen widths r ! i" using Cons.prems by (simp add: widen_def)
    also have "\<dots> \<le> fold (\<lambda>row widths. widen widths row) rows (widen widths r) ! i" using Cons.prems by (intro fold_widen_ge) simp
    finally show ?thesis by simp
  next
    case False
    with Cons show ?thesis by simp
  qed
qed simp

lemma row_cells_split:
  "row_cells gap widths i cs = row_cells gap widths i (take j cs) @ row_cells gap widths (i + j) (drop j cs)"
proof (induction cs arbitrary: i j)
  case (Cons c cs)
  then show ?case using Cons.IH [of "Suc i" "j - 1"] by (cases j) simp_all
qed simp

lemma row_cells_width:
  assumes "is_ascii gap" and "gap \<noteq> []"
  shows "i + length ts < length widths \<Longrightarrow> (\<And>k. k < length ts \<Longrightarrow> runeCount (ts ! k) \<le> widths ! (i + k)) \<Longrightarrow>
    runeCount (row_cells gap widths i (map plainCell ts)) = (\<Sum>k<length ts. widths ! (i + k) + length gap)"
proof (induction ts arbitrary: i)
  case (Cons t ts)
  have ih: "runeCount (row_cells gap widths (Suc i) (map plainCell ts)) = (\<Sum>k<length ts. widths ! (Suc i + k) + length gap)"
    using Cons.prems(1) Cons.prems(2) [of "Suc _"] by (intro Cons.IH) simp_all
  have t: "runeCount t \<le> widths ! i" using Cons.prems(2) [of 0] by simp
  have "runeCount (row_cells gap widths i (map plainCell (t # ts))) =
      runeCount (t @ (replicate (widths ! i - runeCount t) (CHR '' '') @ gap) @ row_cells gap widths (Suc i) (map plainCell ts))"
    using Cons.prems(1) by (simp add: plainCell_def)
  also have "\<dots> = widths ! i + length gap + (\<Sum>k<length ts. widths ! (Suc i + k) + length gap)"
    using assms t ih by (subst runeCount_split) (simp_all add: ascii_pad)
  also have "\<dots> = (\<Sum>k<length (t # ts). widths ! (i + k) + length gap)"
    by (simp add: sum.lessThan_Suc_shift del: sum.lessThan_Suc)
  finally show ?case .
qed simp

text \<open>The column at which the cells of column \<open>j\<close> start.\<close>

definition column :: "string \<Rightarrow> string \<Rightarrow> nat list \<Rightarrow> nat \<Rightarrow> nat" where
  "column indent gap widths j = length indent + (\<Sum>k<j. widths ! k + length gap)"

lemma table_row_aligned:
  assumes "is_ascii gap" and "gap \<noteq> []" and "is_ascii indent" and "length ts = length widths" and "j < length widths"
    and "\<And>k. k < length ts \<Longrightarrow> runeCount (ts ! k) \<le> widths ! k"
  shows "\<exists>pre post. table_row indent gap widths (map plainCell ts) = pre @ ts ! j @ post \<and> runeCount pre = column indent gap widths j"
proof -
  let ?pre = "indent @ row_cells gap widths 0 (map plainCell (take j ts))"
  have d: "drop j ts = ts ! j # drop (Suc j) ts" using assms(4,5) by (simp add: Cons_nth_drop_Suc)
  have "table_row indent gap widths (map plainCell ts) = ?pre @ row_cells gap widths j (map plainCell (drop j ts))"
    unfolding table_row_def by (subst row_cells_split [of _ _ _ _ j]) (simp add: take_map drop_map)
  also have "\<dots> = ?pre @ ts ! j @ ((if Suc j < length widths then replicate (widths ! j - runeCount (ts ! j)) (CHR '' '') @ gap else []) @
      row_cells gap widths (Suc j) (map plainCell (drop (Suc j) ts)))"
    unfolding d by (simp add: plainCell_def)
  finally have "table_row indent gap widths (map plainCell ts) = ?pre @ ts ! j @ ((if Suc j < length widths then replicate (widths ! j - runeCount (ts ! j)) (CHR '' '') @ gap else []) @
      row_cells gap widths (Suc j) (map plainCell (drop (Suc j) ts)))" .
  moreover have "runeCount ?pre = column indent gap widths j"
    using assms row_cells_width [OF assms(1,2), of 0 "take j ts" widths] by (simp add: runeCount_is_ascii column_def)
  ultimately show ?thesis by blast
qed

section \<open>Properties\<close>

text \<open>A table without colours is aligned, also with names outside ASCII: every row is one line, and in every line the
  text of column \<open>j\<close> starts at the same position, counted in code points, after which it is there in full.\<close>

theorem table_aligned:
  assumes "texts \<noteq> []" and "list_all (\<lambda>ts. length ts = n) texts" and "is_ascii gap" and "gap \<noteq> []" and "is_ascii indent"
  shows "\<exists>lines. printer_table indent gap (map (map plainCell) texts) = concat (map (\<lambda>l. l @ [NL]) lines) \<and> length lines = length texts \<and>
    (\<exists>col. \<forall>j<n. \<forall>k<length texts. \<exists>pre post. lines ! k = pre @ texts ! k ! j @ post \<and> runeCount pre = col j)"
proof -
  let ?rows = "map (map plainCell) texts"
  let ?W = "table_widths ?rows"
  have n: "length ts = n" if "ts \<in> set texts" for ts using assms(2) that by (simp add: list_all_iff)
  have W: "length ?W = n" using n [OF hd_in_set [OF assms(1)]] assms(1) by (simp add: table_widths_def hd_map)
  have fits: "runeCount (ts ! k) \<le> ?W ! k" if "ts \<in> set texts" "k < length ts" for ts k
    using that fold_widen_fits [of "map plainCell ts" ?rows k "replicate (length (hd ?rows)) 0"] n W
    by (simp add: table_widths_def plainCell_def)
  have "\<exists>pre post. table_row indent gap ?W (?rows ! k) = pre @ texts ! k ! j @ post \<and> runeCount pre = column indent gap ?W j"
    if "j < n" "k < length texts" for j k
    using table_row_aligned [OF assms(3-5), of "texts ! k" ?W j] that n W fits by simp
  then have "\<exists>col. \<forall>j<n. \<forall>k<length texts. \<exists>pre post. map (table_row indent gap ?W) ?rows ! k = pre @ texts ! k ! j @ post \<and> runeCount pre = col j"
    by (intro exI [of _ "column indent gap ?W"]) simp
  moreover have "printer_table indent gap ?rows = concat (map (\<lambda>l. l @ [NL]) (map (table_row indent gap ?W) ?rows))"
    using assms(1) by (simp add: printer_table_def comp_def)
  ultimately show ?thesis by (intro exI [of _ "map (table_row indent gap ?W) ?rows"]) simp
qed

theorem table_aligned_witness:
  "printer_table ''  '' '' '' (map (map plainCell) [[''NODE'', ''IP''], [[CHR 0xC3, CHR 0xA9] @ ''toile'', ''10.0.0.2'']]) \<noteq> [] \<and>
   (\<exists>lines. length lines = 2 \<and> printer_table ''  '' '' '' (map (map plainCell) [[''NODE'', ''IP''], [[CHR 0xC3, CHR 0xA9] @ ''toile'', ''10.0.0.2'']]) =
      concat (map (\<lambda>l. l @ [NL]) lines))"
proof -
  let ?t = "[[''NODE'', ''IP''], [[CHR 0xC3, CHR 0xA9] @ ''toile'', ''10.0.0.2'']]"
  have "is_ascii '' ''" "is_ascii ''  ''" by (simp_all add: is_ascii_def)
  then obtain lines where "printer_table ''  '' '' '' (map (map plainCell) ?t) = concat (map (\<lambda>l. l @ [NL]) lines)" "length lines = 2"
    using table_aligned [of ?t 2 "'' ''" "''  ''"] by auto
  moreover have "printer_table ''  '' '' '' (map (map plainCell) ?t) \<noteq> []" by (simp add: printer_table_def)
  ultimately show ?thesis by blast
qed

end
