(* ===== verification/Status.thy ===== *)
theory Status
  imports Daemon Report
begin

text \<open>
  The reports of a node (\<open>src/internal/cli/status.go\<close>, \<open>status_network.go\<close>, \<open>listnodes.go\<close> and \<open>reportSync\<close> of
  \<open>sync.go\<close>): what is collected from the cache, the PID file, the drop, the hosts file and the kernel, and the text that is made
  of it. A Go map with values of any type is a partial function to \<open>statusValue\<close>. The clock stands still during a
  report; texts of errors and of points in time (which depend on messages and time zones outside the model) are fields
  of \<open>statusEnv\<close>.
\<close>

section \<open>Data\<close>

text \<open>\<open>wgtypes.Peer\<close> and \<open>wgtypes.Device\<close>, with the fields that the reports read.\<close>

record kernelPeer = wgpeer +
  kp_AllowedIPs :: "ipnet list"
  kp_ReceiveBytes :: int
  kp_TransmitBytes :: int
  kp_Keepalive :: duration

record kernelDevice =
  kd_PublicKey :: bytes
  kd_ListenPort :: int
  kd_Type :: string
  kd_Peers :: "kernelPeer list"

record statusPeer =
  sp_PublicKey :: string
  sp_Name :: string
  sp_Mode :: string
  sp_RelayVia :: string
  sp_Endpoint :: string
  sp_DirectoryEndpoint :: string
  sp_ObservedEndpoint :: string
  sp_ObservedAt :: "gotime option"
  sp_AllowedIPs :: "string list"
  sp_LastHandshake :: "gotime option"
  sp_LastHandshakeAge :: string
  sp_ReceiveBytes :: int
  sp_TransmitBytes :: int
  sp_PersistentKeepalive :: string

record lanEntry =
  le_Name :: string
  le_PublicKey :: string
  le_Endpoint :: string
  le_LearnedAt :: gotime
  le_FailedAt :: gotime
  le_Stale :: bool

datatype statusValue =
    SString string
  | SInt int
  | SInt64 int
  | SUint64 u64
  | SBool bool
  | STime gotime
  | SPeers "statusPeer list"
  | SEntries "lanEntry list"

type_synonym statusMap = "string \<rightharpoonup> statusValue"

text \<open>The two maps that may be nil are options.\<close>

record statusOutput =
  so_Name :: string
  so_Interface :: string
  so_TunnelIP :: string
  so_Cache :: statusMap
  so_Daemon :: statusMap
  so_Drop :: statusMap
  so_WireGuard :: statusMap
  so_Discovery :: "statusMap option"
  so_DNS :: "statusMap option"
  so_NATWarning :: string
  so_StaleWarning :: string

record statDrop =
  sd_Name :: string
  sd_Stat :: "Metadata res"

record 'b statusEnv =
  te_errText :: "error \<Rightarrow> string"
  te_Format :: "gotime \<Rightarrow> string"
  te_printer :: printer
  te_pidIO :: pidIO
  te_pidSys :: pidSys
  te_exists :: "int \<Rightarrow> bool"
  te_newDrop :: "DropBackend \<Rightarrow> statDrop res"
  te_wgNew :: "error option"
  te_Device :: "string \<Rightarrow> kernelDevice res"
  te_readHosts :: "string \<Rightarrow> bytes res"
  te_dns :: "'b dnsLib"
  te_probe :: "string \<Rightarrow> exchangeEnv"

text \<open>\<open>time.Duration.Truncate\<close>, toward zero, and \<open>time.Since(t).Truncate(time.Second).String()\<close>.\<close>

definition duration_Truncate :: "duration \<Rightarrow> duration \<Rightarrow> duration" where
  "duration_Truncate d m = (if m \<le> 0 then d else if d < 0 then - ((- d) - (- d) mod m) else d - d mod m)"

definition ageText :: "gotime \<Rightarrow> gotime \<Rightarrow> string" where
  "ageText now t = duration_String (duration_Truncate (time_Sub now t) second)"

definition staleText :: "duration \<Rightarrow> duration \<Rightarrow> string" where
  "staleText age maxAge =
     ''directory is '' @ duration_String (duration_Truncate age second) @ '' old, exceeding max_directory_age '' @ duration_String maxAge @
     ''; the admin may not have published recently, or the drop may be frozen''"

text \<open>\<open>filepath.Join\<close> of a clean directory and a file name.\<close>

definition CachePath :: "string \<Rightarrow> string" where
  "CachePath stateDir = stateDir @ ''/cache.bin''"

definition zero_directory :: directory where
  "zero_directory = \<lparr>d_SchemaVersion = 0, d_Serial = 0, d_CreatedAt = 0, d_NetworkCIDR = [], d_Domain = [], d_Nodes = []\<rparr>"

definition nodesByPubkey :: "node list \<Rightarrow> string \<Rightarrow> node option" where
  "nodesByPubkey ns = map_of (rev (map (\<lambda>n. (n_PublicKey n, n)) ns))"

section \<open>The peers of the kernel\<close>

definition ipnet_IPString :: "ipnet \<Rightarrow> string" where
  "ipnet_IPString n = addr_String4 (in_IP n)"

definition ipnet_String :: "ipnet \<Rightarrow> string" where
  "ipnet_String n = ipnet_IPString n @ ''/'' @ decimal (in_Ones n)"

text \<open>The tunnel addresses that the relay target's peer covers beyond its own.\<close>

definition relayedTunnelIPs :: "wglib \<Rightarrow> kernelPeer list \<Rightarrow> node option \<Rightarrow> string list" where
  "relayedTunnelIPs W peers relayTarget =
     (case relayTarget of
        None \<Rightarrow> []
      | Some t \<Rightarrow>
          (case map_of (rev (map (\<lambda>p. (wg_String W (wp_PublicKey p), p)) peers)) (n_PublicKey t) of
             None \<Rightarrow> []
           | Some relayPeer \<Rightarrow> filter (\<lambda>ip. ip \<noteq> n_TunnelIP t) (map ipnet_IPString (kp_AllowedIPs relayPeer))))"

definition peerStatus ::
  "wglib \<Rightarrow> gotime \<Rightarrow> (string \<Rightarrow> node option) \<Rightarrow> node option \<Rightarrow> string list \<Rightarrow> kernelPeer \<Rightarrow> statusPeer" where
  "peerStatus W now byKey relayTarget relayedIPs peer =
     (let pubkey = wg_String W (wp_PublicKey peer);
          known = byKey pubkey;
          relay = (case (known, relayTarget) of
                     (Some n, Some t) \<Rightarrow> if kp_AllowedIPs peer = [] \<and> n_TunnelIP n \<in> set relayedIPs then Some t else None
                   | _ \<Rightarrow> None);
          hs = wp_LastHandshake peer
      in \<lparr>sp_PublicKey = pubkey,
          sp_Name = (case known of Some n \<Rightarrow> n_Name n | None \<Rightarrow> []),
          sp_Mode = (if relay \<noteq> None then ''relayed'' else ''direct''),
          sp_RelayVia = (case relay of Some t \<Rightarrow> n_Name t | None \<Rightarrow> []),
          sp_Endpoint = (case wp_Endpoint peer of Some e \<Rightarrow> e | None \<Rightarrow> []),
          sp_DirectoryEndpoint = (case known of Some n \<Rightarrow> n_Endpoint n | None \<Rightarrow> []),
          sp_ObservedEndpoint = (case known of Some n \<Rightarrow> n_ObservedEndpoint n | None \<Rightarrow> []),
          sp_ObservedAt = (case known of Some n \<Rightarrow> if time_IsZero (n_ObservedAt n) then None else Some (n_ObservedAt n) | None \<Rightarrow> None),
          sp_AllowedIPs = map ipnet_String (kp_AllowedIPs peer),
          sp_LastHandshake = (if time_IsZero hs then None else Some hs),
          sp_LastHandshakeAge = (if time_IsZero hs then [] else ageText now hs),
          sp_ReceiveBytes = kp_ReceiveBytes peer, sp_TransmitBytes = kp_TransmitBytes peer,
          sp_PersistentKeepalive = (if kp_Keepalive peer > 0 then duration_String (kp_Keepalive peer) else [])\<rparr>)"

definition wireGuardPeerStatus :: "wglib \<Rightarrow> gotime \<Rightarrow> kernelPeer list \<Rightarrow> directory \<Rightarrow> node \<Rightarrow> statusPeer list" where
  "wireGuardPeerStatus W now peers dir self =
     (let relayTarget = RelayTarget dir (n_PublicKey self)
      in map (peerStatus W now (nodesByPubkey (d_Nodes dir)) relayTarget (relayedTunnelIPs W peers relayTarget)) peers)"

definition ip_IsPrivate :: "ip16 \<Rightarrow> bool" where
  "ip_IsPrivate ip =
     (case ip_To4 ip of
        Some w \<Rightarrow> drop_bit 24 w = 10 \<or> drop_bit 20 w = 0xAC1 \<or> drop_bit 16 w = 0xC0A8
      | None \<Rightarrow> drop_bit 121 ip = 0x7E)"

definition isPrivateEndpoint :: "string \<Rightarrow> bool" where
  "isPrivateEndpoint endpoint =
     (case splitHostPort endpoint of
        None \<Rightarrow> False
      | Some (host, _) \<Rightarrow> (case net_ParseIP host of None \<Rightarrow> False | Some ip \<Rightarrow> ip_IsPrivate ip \<or> ip_IsLinkLocalUnicast ip))"

definition ellipsis :: string where "ellipsis = [CHR 0xE2, CHR 0x80, CHR 0xA6]"

definition peerLabel :: "statusPeer \<Rightarrow> string" where
  "peerLabel peer =
     (if sp_Name peer \<noteq> [] then sp_Name peer
      else if length (sp_PublicKey peer) > 12 then take 8 (sp_PublicKey peer) @ ellipsis
      else sp_PublicKey peer)"

definition peerEndpointLabel :: "gotime \<Rightarrow> statusPeer \<Rightarrow> string" where
  "peerEndpointLabel now peer =
     (if sp_Endpoint peer \<noteq> [] then sp_Endpoint peer
      else if sp_DirectoryEndpoint peer \<noteq> [] then sp_DirectoryEndpoint peer @ '' (configured)''
      else if sp_ObservedEndpoint peer \<noteq> [] then
        sp_ObservedEndpoint peer @ '' ('' @
        (case sp_ObservedAt peer of Some t \<Rightarrow> ''observed '' @ ageText now t @ '' ago'' | None \<Rightarrow> ''observed'') @ '')''
      else ''-'')"

definition peerStatusLabel :: "statusPeer \<Rightarrow> string" where
  "peerStatusLabel peer =
     (if sp_Mode peer = ''relayed'' then
        (if sp_RelayVia peer \<noteq> [] then ''RELAYED via '' @ sp_RelayVia peer else ''RELAYED'')
      else if sp_Endpoint peer \<noteq> [] \<and> isPrivateEndpoint (sp_Endpoint peer) then ''LAN''
      else ''DIRECT'')"

definition peerHandshakeLabel :: "statusPeer \<Rightarrow> string" where
  "peerHandshakeLabel peer = (if sp_LastHandshakeAge peer \<noteq> [] then sp_LastHandshakeAge peer @ '' ago'' else ''never'')"

section \<open>Sections of the report\<close>

definition discoveryStatusFields :: "DiscoveryState \<Rightarrow> (string \<Rightarrow> node option) \<Rightarrow> statusMap" where
  "discoveryStatusFields state byKey =
     (let entries = map (\<lambda>(pubkey, lan).
            \<lparr>le_Name = (case byKey pubkey of Some n \<Rightarrow> n_Name n | None \<Rightarrow> []), le_PublicKey = pubkey, le_Endpoint = ls_Endpoint lan,
             le_LearnedAt = ls_LearnedAt lan, le_FailedAt = ls_FailedAt lan, le_Stale = Blacklisted lan\<rparr>) (ds_LANEndpoints state)
      in [''updated_at'' \<mapsto> STime (ds_UpdatedAt state), ''lan_endpoints'' \<mapsto> SEntries entries, ''count'' \<mapsto> SInt (int (length entries))])"

definition dnsServerFields :: "'b statusEnv \<Rightarrow> Config \<Rightarrow> directory \<Rightarrow> node \<Rightarrow> statusMap" where
  "dnsServerFields T cfg dir self =
     (if shouldServeDNS cfg dir self then
        (let m = [''server'' \<mapsto> SString (if nc_Serve (c_DNS cfg) \<noteq> None then ''forced on'' else ''hub (auto)'')]
         in if n_TunnelIP self \<noteq> [] then
              (let addr = joinHostPort (n_TunnelIP self) ''53''
               in m(''server_addr'' \<mapsto> SString addr, ''server_listening'' \<mapsto> SBool (Probe (te_dns T) (te_probe T addr) (d_Domain dir))))
            else m)
      else if nc_Serve (c_DNS cfg) = Some False then [''server'' \<mapsto> SString ''off ([dns] serve = false)'']
      else [''server'' \<mapsto> SString ''off (not a hub)''])"

definition hostsFields :: "'b statusEnv \<Rightarrow> Config \<Rightarrow> directory \<Rightarrow> statusMap" where
  "hostsFields T cfg dir =
     (let path = hostsPath cfg; block = Block dir;
          m = [''hosts_path'' \<mapsto> SString path, ''hosts_entries'' \<mapsto> SInt (int (count_list block NL))]
      in case (case te_readHosts T path of
                 Inl e \<Rightarrow> if errors_Is e ErrNotExist then Inr [] else Inl e
               | Inr content \<Rightarrow> Inr content) of
           Inl e \<Rightarrow> m(''hosts_error'' \<mapsto> SString (te_errText T e))
         | Inr content \<Rightarrow>
             (case Rewrite content (wc_Interface (c_Wireguard cfg)) block of
                Inl e \<Rightarrow> m(''hosts_error'' \<mapsto> SString (te_errText T e))
              | Inr (_, changed) \<Rightarrow> m(''hosts_applied'' \<mapsto> SBool (\<not> changed))))"

definition dnsStatusFields :: "'b statusEnv \<Rightarrow> Config \<Rightarrow> directory \<Rightarrow> node \<Rightarrow> statusMap" where
  "dnsStatusFields T cfg dir self =
     (let out = [''domain'' \<mapsto> SString (d_Domain dir), ''hosts_managed'' \<mapsto> SBool (ManageHostsEnabled (c_DNS cfg))] ++ dnsServerFields T cfg dir self
      in if \<not> ManageHostsEnabled (c_DNS cfg) then out else out ++ hostsFields T cfg dir)"

definition natWarning :: "node list \<Rightarrow> node \<Rightarrow> string" where
  "natWarning ns self =
     (if n_Endpoint self = [] \<and>
         \<not> list_ex (\<lambda>n. n_PublicKey n \<noteq> n_PublicKey self \<and> (n_Endpoint n \<noteq> [] \<or> n_ObservedEndpoint n \<noteq> [])) ns \<and> length ns > 1
      then ''self and all peers lack endpoints; enable [observe] on the admin or add a relay'' else [])"

definition cacheStatus :: "env \<Rightarrow> 'b statusEnv \<Rightarrow> Config \<Rightarrow> disk \<Rightarrow> statusOutput \<Rightarrow> statusOutput \<times> directory \<times> node" where
  "cacheStatus E T cfg d out =
     (case Read (e_libs E) (e_io E 0) d of
        Inl e \<Rightarrow> (out\<lparr>so_Cache := [''error'' \<mapsto> SString (te_errText T e)]\<rparr>, zero_directory, zero_node)
      | Inr (dir, _) \<Rightarrow>
          let maxAge = od_Duration (sc_MaxDirectoryAge (c_Sync cfg));
              stale = (case directoryStale (e_now E) dir maxAge of (age, b) \<Rightarrow> if b then staleText age maxAge else []);
              out1 = out\<lparr>so_Cache := [''serial'' \<mapsto> SUint64 (d_Serial dir), ''path'' \<mapsto> SString (CachePath (sc_StateDir (c_Sync cfg))),
                           ''created_at'' \<mapsto> STime (d_CreatedAt dir)], so_StaleWarning := stale\<rparr>
          in case findSelf cfg dir of
               Inl _ \<Rightarrow> (out1, dir, zero_node)
             | Inr self \<Rightarrow> (out1\<lparr>so_TunnelIP := n_TunnelIP self, so_NATWarning := natWarning (d_Nodes dir) self\<rparr>, dir, self))"

definition stateStatus :: "env \<Rightarrow> disk \<Rightarrow> statusMap \<Rightarrow> statusMap" where
  "stateStatus E d m =
     (case ReadState (e_json E) (e_io E 1) d of
        Inl _ \<Rightarrow> m
      | Inr state \<Rightarrow> m(''last_sync'' \<mapsto> STime (s_LastSync state), ''age'' \<mapsto> SString (ageText (e_now E) (s_LastSync state)),
                       ''etag'' \<mapsto> SString (s_LastETag state)))"

definition daemonStatus :: "'b statusEnv \<Rightarrow> statusMap" where
  "daemonStatus T =
     (case ReadPID (te_pidIO T) (te_pidSys T) of
        Inr pid \<Rightarrow> [''pid'' \<mapsto> SInt pid, ''alive'' \<mapsto> SBool (PIDAlive (te_exists T) pid)]
      | Inl e \<Rightarrow> [''alive'' \<mapsto> SBool False, ''error'' \<mapsto> SString (te_errText T e)])"

definition dropStatus :: "'b statusEnv \<Rightarrow> Config \<Rightarrow> statusMap" where
  "dropStatus T cfg =
     (case te_newDrop T (ReadDrop cfg) of
        Inl e \<Rightarrow> [''reachable'' \<mapsto> SBool False, ''error'' \<mapsto> SString (te_errText T e)]
      | Inr D \<Rightarrow>
          (case sd_Stat D of
             Inr meta \<Rightarrow> [''name'' \<mapsto> SString (sd_Name D), ''reachable'' \<mapsto> SBool True, ''size'' \<mapsto> SInt64 (md_Size meta),
                          ''updated_at'' \<mapsto> STime (md_UpdatedAt meta), ''etag'' \<mapsto> SString (md_ETag meta)]
           | Inl e \<Rightarrow> [''name'' \<mapsto> SString (sd_Name D), ''reachable'' \<mapsto> SBool False, ''error'' \<mapsto> SString (te_errText T e)]))"

definition wireGuardStatus :: "env \<Rightarrow> 'b statusEnv \<Rightarrow> Config \<Rightarrow> directory \<Rightarrow> node \<Rightarrow> statusMap" where
  "wireGuardStatus E T cfg dir self =
     (case te_wgNew T of
        Some e \<Rightarrow> [''error'' \<mapsto> SString (te_errText T e)]
      | None \<Rightarrow>
          (case te_Device T (wc_Interface (c_Wireguard cfg)) of
             Inr dev \<Rightarrow>
               [''public_key'' \<mapsto> SString (wg_String (l_wg (e_libs E)) (kd_PublicKey dev)), ''listen_port'' \<mapsto> SInt (kd_ListenPort dev),
                ''peer_count'' \<mapsto> SInt (int (length (kd_Peers dev))),
                ''peers'' \<mapsto> SPeers (wireGuardPeerStatus (l_wg (e_libs E)) (e_now E) (kd_Peers dev) dir self),
                ''type'' \<mapsto> SString (kd_Type dev)]
           | Inl e \<Rightarrow> if \<not> errors_Is e ErrNotExist then [''error'' \<mapsto> SString (te_errText T e)] else Map.empty))"

definition collectStatus :: "env \<Rightarrow> 'b statusEnv \<Rightarrow> Config \<Rightarrow> disk \<Rightarrow> statusOutput" where
  "collectStatus E T cfg d =
     (let out0 = \<lparr>so_Name = wc_Name (c_Wireguard cfg), so_Interface = wc_Interface (c_Wireguard cfg), so_TunnelIP = [], so_Cache = Map.empty,
                  so_Daemon = Map.empty, so_Drop = Map.empty, so_WireGuard = Map.empty, so_Discovery = None, so_DNS = None,
                  so_NATWarning = [], so_StaleWarning = []\<rparr>;
          (out1, dir, self) = cacheStatus E T cfg d out0
      in out1\<lparr>so_Cache := stateStatus E d (so_Cache out1),
              so_Discovery := (case ReadDiscovery (e_json E) (e_io E 2) d of
                                 Inl _ \<Rightarrow> None | Inr ds \<Rightarrow> Some (discoveryStatusFields ds (nodesByPubkey (d_Nodes dir)))),
              so_Daemon := daemonStatus T, so_Drop := dropStatus T cfg,
              so_DNS := (if d_Domain dir \<noteq> [] then Some (dnsStatusFields T cfg dir self) else None),
              so_WireGuard := wireGuardStatus E T cfg dir self\<rparr>)"

section \<open>The text of the report\<close>

text \<open>The type assertions \<open>m[key].(T)\<close>; for a string also that it is not empty.\<close>

definition strPair :: "statusMap \<Rightarrow> string \<Rightarrow> string \<Rightarrow> pair list" where
  "strPair m key lab = (case m key of Some (SString v) \<Rightarrow> if v \<noteq> [] then [kv lab v] else [] | _ \<Rightarrow> [])"

definition intPair :: "statusMap \<Rightarrow> string \<Rightarrow> string \<Rightarrow> pair list" where
  "intPair m key lab = (case m key of Some (SInt v) \<Rightarrow> [kv lab (itoa v)] | _ \<Rightarrow> [])"

definition boolText :: "bool \<Rightarrow> string" where
  "boolText b = (if b then ''true'' else ''false'')"

definition boolPair :: "statusMap \<Rightarrow> string \<Rightarrow> string \<Rightarrow> pair list" where
  "boolPair m key lab = (case m key of Some (SBool v) \<Rightarrow> [kv lab (boolText v)] | _ \<Rightarrow> [])"

definition statusCachePairs :: "'b statusEnv \<Rightarrow> gotime \<Rightarrow> statusMap \<Rightarrow> pair list" where
  "statusCachePairs T now m =
     (case m ''serial'' of Some (SUint64 v) \<Rightarrow> [kv ''serial'' (decimal (unat v))] | _ \<Rightarrow> []) @
     strPair m ''path'' ''path'' @
     (case m ''created_at'' of
        Some (STime v) \<Rightarrow> if \<not> time_IsZero v then [kv ''directory created'' (te_Format T v), kv ''directory age'' (ageText now v)] else []
      | _ \<Rightarrow> []) @
     (case m ''last_sync'' of Some (STime v) \<Rightarrow> [kv ''last sync'' (te_Format T v)] | _ \<Rightarrow> []) @
     strPair m ''age'' ''age'' @ strPair m ''etag'' ''etag'' @ strPair m ''error'' ''error''"

definition statusDaemonPairs :: "statusMap \<Rightarrow> pair list" where
  "statusDaemonPairs m = intPair m ''pid'' ''pid'' @ boolPair m ''alive'' ''alive'' @ strPair m ''error'' ''error''"

definition statusDropPairs :: "'b statusEnv \<Rightarrow> statusMap \<Rightarrow> pair list" where
  "statusDropPairs T m =
     strPair m ''name'' ''name'' @ boolPair m ''reachable'' ''reachable'' @
     (case m ''size'' of Some (SInt64 v) \<Rightarrow> [kv ''size'' (itoa v @ '' bytes'')] | _ \<Rightarrow> []) @
     (case m ''updated_at'' of Some (STime v) \<Rightarrow> [kv ''updated at'' (te_Format T v)] | _ \<Rightarrow> []) @
     strPair m ''etag'' ''etag'' @ strPair m ''error'' ''error''"

definition statusDNSPairs :: "statusMap \<Rightarrow> pair list" where
  "statusDNSPairs m =
     strPair m ''domain'' ''domain'' @ strPair m ''server'' ''server'' @
     (case m ''server_listening'' of
        Some (SBool v) \<Rightarrow>
          (let addr = (case m ''server_addr'' of Some (SString a) \<Rightarrow> a | _ \<Rightarrow> [])
           in if v then [kvColor ''listening'' addr ansiGreen]
              else [kvColor ''listening'' (''no ('' @ addr @ '' did not answer; daemon running?)'') ansiYellow])
      | _ \<Rightarrow> []) @
     (if m ''hosts_managed'' = Some (SBool False) then [kv ''hosts file'' ''unmanaged ([dns] manage_hosts = false)'']
      else
        strPair m ''hosts_path'' ''hosts file'' @ intPair m ''hosts_entries'' ''entries'' @
        (case m ''hosts_applied'' of
           Some (SBool v) \<Rightarrow>
             if v then [kvColor ''hosts entries'' ''current'' ansiGreen]
             else [kvColor ''hosts entries'' ''out of date (daemon applies them on its next sync)'' ansiYellow]
         | _ \<Rightarrow> []) @
        strPair m ''hosts_error'' ''hosts error'')"

definition statusDiscoveryPairs :: "gotime \<Rightarrow> statusMap \<Rightarrow> pair list" where
  "statusDiscoveryPairs now m =
     intPair m ''count'' ''lan endpoints learned'' @
     (case m ''updated_at'' of Some (STime v) \<Rightarrow> if \<not> time_IsZero v then [kv ''snapshot age'' (ageText now v)] else [] | _ \<Rightarrow> [])"

definition statusWireguardPairs :: "statusMap \<Rightarrow> pair list" where
  "statusWireguardPairs m =
     (case m ''public_key'' of
        Some (SString v) \<Rightarrow> if v \<noteq> [] then [kvColor ''network'' ''up'' ansiGreen, kv ''public key'' v] else [kvColor ''network'' ''down'' ansiRed]
      | _ \<Rightarrow> [kvColor ''network'' ''down'' ansiRed]) @
     intPair m ''listen_port'' ''listen port'' @ strPair m ''type'' ''type'' @ intPair m ''peer_count'' ''peer count'' @
     strPair m ''error'' ''error''"

definition peerRow :: "gotime \<Rightarrow> statusPeer \<Rightarrow> string list" where
  "peerRow now peer =
     [peerLabel peer, peerEndpointLabel now peer, peerHandshakeLabel peer, peerStatusLabel peer,
      itoa (sp_ReceiveBytes peer), itoa (sp_TransmitBytes peer)]"

definition header_row :: "printer \<Rightarrow> string list \<Rightarrow> tableCell list" where
  "header_row p titles = map (styledCell p ansiDim) titles"

definition printStatusText :: "'b statusEnv \<Rightarrow> gotime \<Rightarrow> statusOutput \<Rightarrow> string" where
  "printStatusText T now out =
     (let p = te_printer T
      in section_line p ''Node'' @
         printer_pairs p ([kv ''name'' (so_Name out), kv ''interface'' (so_Interface out)] @
           (if so_TunnelIP out \<noteq> [] then [kv ''tunnel IP'' (so_TunnelIP out)] else [])) @ blank @
         section_line p ''Cache'' @ printer_pairs p (statusCachePairs T now (so_Cache out)) @ blank @
         section_line p ''Daemon'' @ printer_pairs p (statusDaemonPairs (so_Daemon out)) @ blank @
         section_line p ''Drop'' @ printer_pairs p (statusDropPairs T (so_Drop out)) @ blank @
         section_line p ''WireGuard'' @ printer_pairs p (statusWireguardPairs (so_WireGuard out)) @
         (case so_Discovery out of None \<Rightarrow> [] | Some m \<Rightarrow> blank @ section_line p ''Discovery'' @ printer_pairs p (statusDiscoveryPairs now m)) @
         (case so_DNS out of None \<Rightarrow> [] | Some m \<Rightarrow> blank @ section_line p ''DNS'' @ printer_pairs p (statusDNSPairs m)) @
         (case so_WireGuard out ''peers'' of
            Some (SPeers peers) \<Rightarrow>
              if peers \<noteq> [] then
                blank @ section_line p ''Peers'' @
                printer_table ''  '' ''  '' (header_row p [''PEER'', ''ENDPOINT'', ''HANDSHAKE'', ''STATUS'', ''RX'', ''TX''] #
                  map (\<lambda>peer. map plainCell (peerRow now peer)) peers)
              else []
          | _ \<Rightarrow> []) @
         (if so_StaleWarning out \<noteq> [] then blank @ warn p (so_StaleWarning out) else []) @
         (if so_NATWarning out \<noteq> [] then blank @ warn p (so_NATWarning out) else []))"

section \<open>The roster of the network\<close>

record networkNode =
  nn_Name :: string
  nn_TunnelIP :: string
  nn_Endpoint :: string
  nn_EndpointSource :: string
  nn_Relay :: bool
  nn_Self :: bool
  nn_HasSession :: bool
  nn_LastHandshake :: "gotime option"
  nn_LastHandshakeAge :: string

record networkStatus =
  ns_Self :: string
  ns_Interface :: string
  ns_NetworkCIDR :: string
  ns_Serial :: u64
  ns_Nodes :: "networkNode list"

definition rosterRow :: "gotime \<Rightarrow> (string \<Rightarrow> gotime option) \<Rightarrow> string \<Rightarrow> node \<Rightarrow> networkNode" where
  "rosterRow now handshakeByKey selfKey n =
     (let self = (n_PublicKey n = selfKey);
          hs = (if self then None else case handshakeByKey (n_PublicKey n) of Some t \<Rightarrow> if time_IsZero t then None else Some t | None \<Rightarrow> None)
      in \<lparr>nn_Name = n_Name n, nn_TunnelIP = n_TunnelIP n,
          nn_Endpoint = (if n_Endpoint n \<noteq> [] then n_Endpoint n else n_ObservedEndpoint n),
          nn_EndpointSource = (if n_Endpoint n \<noteq> [] then ''configured'' else if n_ObservedEndpoint n \<noteq> [] then ''observed'' else []),
          nn_Relay = n_Relay n, nn_Self = self,
          nn_HasSession = (\<not> self \<and> handshakeByKey (n_PublicKey n) \<noteq> None),
          nn_LastHandshake = hs,
          nn_LastHandshakeAge = (case hs of Some t \<Rightarrow> ageText now t | None \<Rightarrow> [])\<rparr>)"

definition handshakesByKey :: "wglib \<Rightarrow> kernelPeer list \<Rightarrow> string \<Rightarrow> gotime option" where
  "handshakesByKey W peers = map_of (rev (map (\<lambda>p. (wg_String W (wp_PublicKey p), wp_LastHandshake p)) peers))"

definition networkRoster :: "wglib \<Rightarrow> gotime \<Rightarrow> Config \<Rightarrow> kernelPeer list \<Rightarrow> directory \<Rightarrow> networkStatus" where
  "networkRoster W now cfg peers dir =
     (let selfKey = wc_PublicKey (c_Wireguard cfg)
      in \<lparr>ns_Self = fold (\<lambda>n acc. if n_PublicKey n = selfKey then n_Name n else acc) (d_Nodes dir) [],
          ns_Interface = wc_Interface (c_Wireguard cfg), ns_NetworkCIDR = d_NetworkCIDR dir, ns_Serial = d_Serial dir,
          ns_Nodes = map (rosterRow now (handshakesByKey W peers) selfKey) (d_Nodes dir)\<rparr>)"

definition kernelPeers :: "'b statusEnv \<Rightarrow> string \<Rightarrow> kernelPeer list" where
  "kernelPeers T iface =
     (case te_wgNew T of
        Some _ \<Rightarrow> []
      | None \<Rightarrow> (case te_Device T iface of Inl _ \<Rightarrow> [] | Inr dev \<Rightarrow> kd_Peers dev))"

definition networkRoleLabel :: "networkNode \<Rightarrow> string" where
  "networkRoleLabel n =
     (if nn_Self n \<and> nn_Relay n then ''self,relay'' else if nn_Self n then ''self'' else if nn_Relay n then ''relay'' else ''-'')"

definition networkEndpointLabel :: "networkNode \<Rightarrow> string" where
  "networkEndpointLabel n =
     (if nn_Endpoint n = [] then ''-''
      else if nn_EndpointSource n = ''observed'' then nn_Endpoint n @ '' (observed)'' else nn_Endpoint n)"

definition networkHandshakeLabel :: "networkNode \<Rightarrow> string" where
  "networkHandshakeLabel n =
     (if nn_Self n then [CHR 0xE2, CHR 0x80, CHR 0x94]
      else if \<not> nn_HasSession n then ''no session''
      else if nn_LastHandshakeAge n \<noteq> [] then nn_LastHandshakeAge n @ '' ago''
      else ''never'')"

definition printNetworkStatus :: "printer \<Rightarrow> networkStatus \<Rightarrow> string" where
  "printNetworkStatus p st =
     section_line p ''Network'' @
     printer_pairs p ([kv ''cidr'' (ns_NetworkCIDR st), kv ''serial'' (decimal (unat (ns_Serial st))), kv ''nodes'' (decimal (length (ns_Nodes st)))] @
       (if ns_Self st \<noteq> [] then [kv ''vantage'' (ns_Self st)] else [])) @ blank @
     printer_table ''  '' ''  '' (header_row p [''NODE'', ''IP'', ''ENDPOINT'', ''ROLE'', ''HANDSHAKE''] #
       map (\<lambda>n. map plainCell [nn_Name n, nn_TunnelIP n, networkEndpointLabel n, networkRoleLabel n, networkHandshakeLabel n]) (ns_Nodes st)) @
     blank @
     hint p (''Handshake ages are from this node'' @ [CHR 0x27] @ ''s vantage; Tincan has no control plane, so a node it doesn'' @ [CHR 0x27] @
       ''t peer with shows '' @ [CHR 0x22] @ ''no session'' @ [CHR 0x22] @ '', not down.'')"

section \<open>The commands\<close>

datatype statusReport = StatusJSON statusOutput | RosterJSON networkStatus | ReportText string

definition runNetworkStatus :: "env \<Rightarrow> 'b statusEnv \<Rightarrow> Config \<Rightarrow> bool \<Rightarrow> disk \<Rightarrow> statusReport res" where
  "runNetworkStatus E T cfg asJSON d =
     (case Read (e_libs E) (e_io E 0) d of
        Inl e \<Rightarrow> Inl (Wrap ''read cached directory'' e)
      | Inr (dir, _) \<Rightarrow>
          let st = networkRoster (l_wg (e_libs E)) (e_now E) cfg (kernelPeers T (wc_Interface (c_Wireguard cfg))) dir
          in Inr (if asJSON then RosterJSON st else ReportText (printNetworkStatus (te_printer T) st)))"

definition StatusCmd :: "env \<Rightarrow> 'b statusEnv \<Rightarrow> Config res \<Rightarrow> bool \<Rightarrow> bool \<Rightarrow> disk \<Rightarrow> statusReport res" where
  "StatusCmd E T loaded network asJSON d =
     bindR loaded (\<lambda>cfg.
       if network then runNetworkStatus E T cfg asJSON d
       else let out = collectStatus E T cfg d
            in Inr (if asJSON then StatusJSON out else ReportText (printStatusText T (e_now E) out)))"

definition listRow :: "node \<Rightarrow> string list" where
  "listRow n =
     [n_Name n, n_TunnelIP n,
      (if length (n_PublicKey n) > 12 then take 12 (n_PublicKey n) @ ''...'' else n_PublicKey n),
      (if n_Endpoint n = [] then ''-'' else n_Endpoint n), (if n_Relay n then ''relay'' else ''-'')]"

definition ListNodesCmd :: "env \<Rightarrow> printer \<Rightarrow> (DropBackend \<Rightarrow> 's dropI res) \<Rightarrow> Config res \<Rightarrow> 's \<Rightarrow> string res" where
  "ListNodesCmd E p newDrop loaded s =
     bindR loaded (\<lambda>cfg.
     bindR (loadReadDrop newDrop cfg) (\<lambda>D.
     bindR (fetchDirectory E cfg D s) (\<lambda>dir.
       Inr (section_line p ''Directory'' @
            printer_pairs p ([kv ''serial'' (decimal (unat (d_Serial dir))), kv ''network'' (d_NetworkCIDR dir), kv ''nodes'' (decimal (length (d_Nodes dir)))] @
              (if d_Domain dir \<noteq> [] then [kv ''domain'' (d_Domain dir)] else [])) @ blank @
            section_line p ''Nodes'' @
            printer_table ''  '' ''  '' (header_row p [''NAME'', ''IP'', ''PUBLIC KEY'', ''ENDPOINT'', ''ROLE''] #
              map (\<lambda>n. map plainCell (listRow n)) (d_Nodes dir))))))"

definition reportSync :: "printer \<Rightarrow> gotime \<Rightarrow> syncResult \<Rightarrow> duration \<Rightarrow> string" where
  "reportSync p now res maxAge =
     headline p (''synced from '' @ syncSource res @ '' (serial: '' @ decimal (unat (sr_Serial res)) @ '')'') @
     (case sr_StaleErr res of
        Some e \<Rightarrow> if sr_FromCache res then warn p (dropErrorAdvice e @ ''; serving cached serial '' @ decimal (unat (sr_Serial res))) else []
      | None \<Rightarrow> []) @
     (case directoryStale now (sr_Directory res) maxAge of (age, stale) \<Rightarrow> if stale then warn p (staleText age maxAge) else [])"

section \<open>What the report says of the routes\<close>

text \<open>The kernel has the peers and the allowed addresses of the configuration, in any order.\<close>

definition reports_config :: "kernelPeer list \<Rightarrow> PeerConfig list \<Rightarrow> bool" where
  "reports_config peers configs \<longleftrightarrow>
     mset (map (\<lambda>p. (wp_PublicKey p, kp_AllowedIPs p)) peers) = mset (map (\<lambda>c. (pc_PublicKey c, pc_AllowedIPs c)) configs)"

lemma map_of_by_key:
  assumes "x \<in> set xs" and "\<And>y. y \<in> set xs \<Longrightarrow> f y = f x \<Longrightarrow> y = x"
  shows "map_of (rev (map (\<lambda>y. (f y, y)) xs)) (f x) = Some x"
proof -
  have "(f x, x) \<in> set (rev (map (\<lambda>y. (f y, y)) xs))" using assms(1) by simp
  then obtain y where y: "map_of (rev (map (\<lambda>y. (f y, y)) xs)) (f x) = Some y" by (meson weak_map_of_SomeI)
  from map_of_SomeD [OF this] have "y \<in> set xs" "f y = f x" by auto
  with assms(2) y show ?thesis by simp
qed

lemma nodesByPubkey_member:
  assumes "distinct (map n_PublicKey ns)" and "n \<in> set ns"
  shows "nodesByPubkey ns (n_PublicKey n) = Some n"
  unfolding nodesByPubkey_def using assms by (intro map_of_by_key) (auto simp: distinct_map dest: inj_onD)

lemma valid_member:
  assumes "wglib_ok W" and "directory_ok W A dir" and "list_all (canonical_node W) (d_Nodes dir)" and "n \<in> set (d_Nodes dir)"
  shows "wg_String W (key_of W n) = n_PublicKey n" and "ipnet_IPString (tunnel_of n) = n_TunnelIP n"
proof -
  from assms(3,4) obtain k where "length k = 32" "n_PublicKey n = wg_String W k"
    by (auto simp: list_all_iff canonical_node_def canonical_key_def)
  then show "wg_String W (key_of W n) = n_PublicKey n" using wg_key_bytes(2) [OF assms(1)] by (simp add: key_of_def)
  from assms(2,4) obtain w where "n_TunnelIP n = ip4_String w" by (auto simp: directory_ok_def list_all_iff node_ok_def)
  then show "ipnet_IPString (tunnel_of n) = n_TunnelIP n"
    by (simp add: tunnel_of_def net_ParseCIDR_host ipnet_IPString_def addr_String4_def)
qed

text \<open>The allowed addresses of a member's own entry: none when it is relayed, its own among them otherwise; and the relay
  target's entry has those of every relayed member.\<close>

lemma config_of_member:
  assumes b: "BuildPeerConfigs W resolve cfg self dir relayed lan = Inr configs"
    and dist: "distinct (map (key_of W) (other_nodes self dir))" and n: "n \<in> set (other_nodes self dir)"
  shows "\<exists>c \<in> set configs. pc_PublicKey c = key_of W n"
    and "c \<in> set configs \<Longrightarrow> pc_PublicKey c = key_of W n \<Longrightarrow>
      (pc_AllowedIPs c = [] \<longleftrightarrow> isShadow relayed (relayTargetKey self dir relayed) n)"
proof -
  note br = BuildPeerConfigs_routes [OF b]
  let ?sh = "isShadow relayed (relayTargetKey self dir relayed)"
  have inj: "inj_on (key_of W) (set (other_nodes self dir))" using dist by (simp only: distinct_map)
  have keys: "pc_PublicKey ` set configs = key_of W ` set (other_nodes self dir)" using arg_cong [OF br(1), of set] by simp
  with n show "\<exists>c \<in> set configs. pc_PublicKey c = key_of W n" by (metis imageE imageI)
  assume c: "c \<in> set configs" "pc_PublicKey c = key_of W n"
  have target: "t \<in> set (other_nodes self dir) \<and> relayTargetKey self dir relayed = n_PublicKey t"
    if "?sh m" "RelayTarget dir (n_PublicKey self) = Some t" for m t
    using that relayTargetKey_Some [of self dir relayed] by (auto simp: isShadow_def)
  show "pc_AllowedIPs c = [] \<longleftrightarrow> ?sh n"
  proof
    assume "pc_AllowedIPs c = []"
    show "?sh n"
    proof (rule ccontr)
      assume "\<not> ?sh n"
      then obtain p where "p \<in> set configs" "pc_PublicKey p = key_of W n" "tunnel_of n \<in> set (pc_AllowedIPs p)"
        using br(5) [OF n] by (auto simp: routed_by_def)
      moreover have "distinct (map pc_PublicKey configs)" using br(1) dist by simp
      ultimately show False using c \<open>pc_AllowedIPs c = []\<close> by (metis distinct_map empty_iff inj_onD list.set(1))
    qed
  next
    assume sh: "?sh n"
    show "pc_AllowedIPs c = []"
    proof (rule ccontr)
      assume "pc_AllowedIPs c \<noteq> []"
      then obtain d where "d \<in> set (pc_AllowedIPs c)" by fastforce
      from br(6) [OF c(1) this] c(2) obtain m where m: "m \<in> set (other_nodes self dir)" "key_of W n = routed_by W self dir relayed m" by metis
      obtain t where t: "RelayTarget dir (n_PublicKey self) = Some t"
        using sh relayTargetKey_Some [of self dir relayed] by (auto simp: isShadow_def)
      show False
      proof (cases "?sh m")
        case True
        then have "key_of W n = key_of W t" using m(2) t by (simp add: routed_by_def)
        then have "n = t" using inj n target [OF sh t] by (auto dest: inj_onD)
        then show False using sh target [OF sh t] by (simp add: isShadow_def)
      next
        case False
        then have "key_of W n = key_of W m" using m(2) by (simp add: routed_by_def)
        then have "n = m" using inj n m(1) by (auto dest: inj_onD)
        then show False using sh False by simp
      qed
    qed
  qed
qed

lemma filter_by_key:
  "distinct (map f xs) \<Longrightarrow> x \<in> set xs \<Longrightarrow> filter (\<lambda>y. f y = f x) xs = [x]"
proof (induction xs)
  case (Cons y ys)
  show ?case
  proof (cases "y = x")
    case True
    then have "filter (\<lambda>z. f z = f x) ys = []" using Cons.prems(1) by (auto simp: filter_empty_conv image_iff)
    with True show ?thesis by simp
  next
    case False
    with Cons show ?thesis by (auto simp: image_iff)
  qed
qed simp

lemma reports_config_peers:
  assumes "reports_config peers configs"
  shows "c \<in> set configs \<Longrightarrow> \<exists>p \<in> set peers. wp_PublicKey p = pc_PublicKey c \<and> kp_AllowedIPs p = pc_AllowedIPs c"
    and "p \<in> set peers \<Longrightarrow> \<exists>c \<in> set configs. pc_PublicKey c = wp_PublicKey p \<and> pc_AllowedIPs c = kp_AllowedIPs p"
    and "distinct (map pc_PublicKey configs) \<Longrightarrow> distinct (map wp_PublicKey peers)"
proof -
  have eq: "(\<lambda>p. (wp_PublicKey p, kp_AllowedIPs p)) ` set peers = (\<lambda>c. (pc_PublicKey c, pc_AllowedIPs c)) ` set configs"
    using arg_cong [OF assms [unfolded reports_config_def], of set_mset] by simp
  show "\<exists>p \<in> set peers. wp_PublicKey p = pc_PublicKey c \<and> kp_AllowedIPs p = pc_AllowedIPs c" if "c \<in> set configs"
  proof -
    have "(pc_PublicKey c, pc_AllowedIPs c) \<in> (\<lambda>p. (wp_PublicKey p, kp_AllowedIPs p)) ` set peers" unfolding eq using that by simp
    then show ?thesis by auto
  qed
  show "\<exists>c \<in> set configs. pc_PublicKey c = wp_PublicKey p \<and> pc_AllowedIPs c = kp_AllowedIPs p" if "p \<in> set peers"
  proof -
    have "(wp_PublicKey p, kp_AllowedIPs p) \<in> (\<lambda>c. (pc_PublicKey c, pc_AllowedIPs c)) ` set configs" unfolding eq [symmetric] using that by simp
    then show ?thesis by auto
  qed
  have "mset (map wp_PublicKey peers) = mset (map pc_PublicKey configs)"
    using arg_cong [OF assms [unfolded reports_config_def], of "image_mset fst"] by (simp flip: mset_map add: comp_def)
  then show "distinct (map pc_PublicKey configs) \<Longrightarrow> distinct (map wp_PublicKey peers)" using mset_eq_imp_distinct_iff by blast
qed

lemma peer_of_member:
  assumes members: "\<And>m. m \<in> set (d_Nodes dir) \<Longrightarrow> wg_String W (key_of W m) = n_PublicKey m"
    and b: "BuildPeerConfigs W resolve cfg self dir relayed lan = Inr configs" and rep: "reports_config peers configs"
    and q: "q \<in> set peers" and n: "n \<in> set (d_Nodes dir)"
  shows "wg_String W (wp_PublicKey q) = n_PublicKey n \<longleftrightarrow> wp_PublicKey q = key_of W n"
proof
  obtain c where c: "c \<in> set configs" "pc_PublicKey c = wp_PublicKey q" using reports_config_peers(2) [OF rep q] by blast
  have "pc_PublicKey ` set configs = key_of W ` set (other_nodes self dir)"
    using arg_cong [OF BuildPeerConfigs_routes(1) [OF b], of set] by simp
  then have "wp_PublicKey q \<in> key_of W ` set (other_nodes self dir)" using imageI [OF c(1), of pc_PublicKey] c(2) by simp
  then obtain m where m: "m \<in> set (d_Nodes dir)" "wp_PublicKey q = key_of W m" by force
  assume "wg_String W (wp_PublicKey q) = n_PublicKey n"
  then have "n_PublicKey m = n_PublicKey n" using members [of m] m by simp
  from key_of_cong [OF this, of W] show "wp_PublicKey q = key_of W n" using m(2) by simp
qed (simp add: members n)

text \<open>The addresses that the report takes for relayed include those of every relayed member.\<close>

lemma relayedTunnelIPs_shadow:
  assumes members: "\<And>m. m \<in> set (d_Nodes dir) \<Longrightarrow> wg_String W (key_of W m) = n_PublicKey m \<and> ipnet_IPString (tunnel_of m) = n_TunnelIP m"
    and ips: "inj_on n_TunnelIP (set (d_Nodes dir))"
    and b: "BuildPeerConfigs W resolve cfg self dir relayed lan = Inr configs" and dist: "distinct (map (key_of W) (other_nodes self dir))"
    and rep: "reports_config peers configs" and n: "n \<in> set (other_nodes self dir)"
    and sh: "isShadow relayed (relayTargetKey self dir relayed) n"
  obtains t where "RelayTarget dir (n_PublicKey self) = Some t" and "n_TunnelIP n \<in> set (relayedTunnelIPs W peers (Some t))"
proof -
  note br = BuildPeerConfigs_routes [OF b]
  obtain t where t: "RelayTarget dir (n_PublicKey self) = Some t" "relayTargetKey self dir relayed = n_PublicKey t" "t \<in> set (other_nodes self dir)"
    using sh relayTargetKey_Some [of self dir relayed] by (auto simp: isShadow_def)
  obtain c where c: "c \<in> set configs" "pc_PublicKey c = key_of W t" "tunnel_of n \<in> set (pc_AllowedIPs c)"
    using br(5) [OF n] sh t(1) by (auto simp: routed_by_def)
  obtain p where p: "p \<in> set peers" "wp_PublicKey p = key_of W t" "kp_AllowedIPs p = pc_AllowedIPs c"
    using reports_config_peers(1) [OF rep c(1)] c(2) by auto
  let ?key = "\<lambda>q. wg_String W (wp_PublicKey q)"
  have tn: "t \<in> set (d_Nodes dir)" using t(3) by simp
  have inj: "inj_on wp_PublicKey (set peers)" using reports_config_peers(3) [OF rep] br(1) dist by (simp add: distinct_map)
  have same: "q = p" if "q \<in> set peers" "?key q = n_PublicKey t" for q
  proof -
    have "wp_PublicKey q = wp_PublicKey p" using peer_of_member [OF _ b rep that(1) tn] members that(2) p(2) by simp
    then show ?thesis using inj that(1) p(1) by (simp add: inj_on_def)
  qed
  have kt: "?key p = n_PublicKey t" using p(2) members [of t] t(3) by simp
  have "map_of (rev (map (\<lambda>p. (?key p, p)) peers)) (?key p) = Some p"
  proof (rule map_of_by_key [OF p(1)])
    fix q assume "q \<in> set peers" "?key q = ?key p"
    then show "q = p" using same [of q] by (simp only: kt)
  qed
  then have "map_of (rev (map (\<lambda>p. (?key p, p)) peers)) (n_PublicKey t) = Some p" by (simp only: kt)
  moreover have "n_TunnelIP n \<noteq> n_TunnelIP t"
  proof
    assume "n_TunnelIP n = n_TunnelIP t"
    then have "n = t" using inj_onD [OF ips, of n t] n tn by simp
    with sh t(2) show False by (simp add: isShadow_def)
  qed
  moreover have "n_TunnelIP n \<in> ipnet_IPString ` set (kp_AllowedIPs p)"
    using imageI [OF c(3), of ipnet_IPString] members [of n] n p(3) by simp
  ultimately have "n_TunnelIP n \<in> set (relayedTunnelIPs W peers (Some t))" by (simp add: relayedTunnelIPs_def)
  with t(1) show ?thesis by (rule that)
qed

section \<open>Properties\<close>

text \<open>C24: the status report tells how traffic is routed: with the kernel holding the configuration that was built for a valid
  directory and a set of relayed members, every other member has exactly one row, under its name; the row says that the member is
  relayed, and through whom, exactly when its traffic is routed to the relay target, and that it is direct otherwise.\<close>

theorem status_tells_routing:
  assumes "wglib_ok W" and "directory_ok W A dir" and "list_all (canonical_node W) (d_Nodes dir)"
    and "BuildPeerConfigs W resolve cfg self dir relayed lan = Inr configs" and "reports_config peers configs"
    and "n \<in> set (other_nodes self dir)"
  shows "\<exists>row. filter (\<lambda>r. sp_PublicKey r = n_PublicKey n) (wireGuardPeerStatus W now peers dir self) = [row] \<and> sp_Name row = n_Name n \<and>
    (if routed_by W self dir relayed n = key_of W n then sp_Mode row = ''direct'' \<and> sp_RelayVia row = []
     else sp_Mode row = ''relayed'' \<and> (\<exists>t. RelayTarget dir (n_PublicKey self) = Some t \<and> sp_RelayVia row = n_Name t))"
proof -
  note vm = valid_member [OF assms(1-3)]
  have pk: "distinct (map n_PublicKey (d_Nodes dir))" and ips: "inj_on n_TunnelIP (set (d_Nodes dir))"
    using assms(2) by (simp_all add: directory_ok_def distinct_map)
  have dist: "distinct (map (key_of W) (other_nodes self dir))"
    using pk vm(1) by (auto simp: distinct_map distinct_filter inj_on_def) metis
  have inj: "key_of W m = key_of W m' \<Longrightarrow> m = m'" if "m \<in> set (d_Nodes dir)" "m' \<in> set (d_Nodes dir)" for m m'
    using pk vm(1) that by (metis distinct_map inj_onD)
  note cfg = config_of_member [OF assms(4) dist assms(6)]
  obtain c where c: "c \<in> set configs" "pc_PublicKey c = key_of W n" using cfg(1) by blast
  obtain p where p: "p \<in> set peers" "wp_PublicKey p = key_of W n" "kp_AllowedIPs p = pc_AllowedIPs c"
    using reports_config_peers(1) [OF assms(5) c(1)] c(2) by auto
  have nn: "n \<in> set (d_Nodes dir)" using assms(6) by simp
  let ?f = "peerStatus W now (nodesByPubkey (d_Nodes dir)) (RelayTarget dir (n_PublicKey self)) (relayedTunnelIPs W peers (RelayTarget dir (n_PublicKey self)))"
  have key: "wg_String W (wp_PublicKey p) = n_PublicKey n" using p(2) vm(1) [OF nn] by simp
  have "filter (\<lambda>r. sp_PublicKey r = n_PublicKey n) (wireGuardPeerStatus W now peers dir self) =
      map ?f (filter (\<lambda>q. wg_String W (wp_PublicKey q) = n_PublicKey n) peers)"
    by (simp add: wireGuardPeerStatus_def filter_map comp_def peerStatus_def Let_def)
  also have "filter (\<lambda>q. wg_String W (wp_PublicKey q) = n_PublicKey n) peers = filter (\<lambda>q. wp_PublicKey q = wp_PublicKey p) peers"
    using peer_of_member [OF vm(1) assms(4,5) _ nn] p(2) by (intro filter_cong) auto
  also have "\<dots> = [p]"
    using reports_config_peers(3) [OF assms(5)] BuildPeerConfigs_routes(1) [OF assms(4)] dist p(1) by (intro filter_by_key) simp_all
  finally have rows: "filter (\<lambda>r. sp_PublicKey r = n_PublicKey n) (wireGuardPeerStatus W now peers dir self) = [?f p]" by simp
  have known: "nodesByPubkey (d_Nodes dir) (wg_String W (wp_PublicKey p)) = Some n" unfolding key by (rule nodesByPubkey_member [OF pk nn])
  have name: "sp_Name (?f p) = n_Name n" by (simp add: peerStatus_def Let_def known)
  show ?thesis
  proof (cases "isShadow relayed (relayTargetKey self dir relayed) n")
    case True
    obtain t where t: "RelayTarget dir (n_PublicKey self) = Some t" "n_TunnelIP n \<in> set (relayedTunnelIPs W peers (Some t))"
      using relayedTunnelIPs_shadow [OF _ ips assms(4) dist assms(5,6) True] vm by blast
    have "kp_AllowedIPs p = []" using cfg(2) [OF c] True p(3) by simp
    then have "sp_Mode (?f p) = ''relayed'' \<and> sp_RelayVia (?f p) = n_Name t" using t by (simp add: peerStatus_def Let_def known)
    moreover have "n_PublicKey t \<noteq> n_PublicKey n"
      using True t(1) by (auto simp: isShadow_def relayTargetKey_def split: if_splits)
    then have "routed_by W self dir relayed n \<noteq> key_of W n"
      using True t(1) inj [of t n] RelayTarget_reachable [OF t(1)] nn by (auto simp: routed_by_def)
    ultimately show ?thesis using rows name t(1) by auto
  next
    case False
    then have "kp_AllowedIPs p \<noteq> []" using cfg(2) [OF c] p(3) by simp
    then have "sp_Mode (?f p) = ''direct'' \<and> sp_RelayVia (?f p) = []" by (simp add: peerStatus_def Let_def known split: option.splits)
    moreover have "routed_by W self dir relayed n = key_of W n" using False by (simp add: routed_by_def)
    ultimately show ?thesis using rows name by auto
  qed
qed

theorem status_tells_routing_witness:
  "\<exists>configs peers row. BuildPeerConfigs demo_wg Some (m_wg demo_manager) demo_self demo_dir [n_PublicKey demo_b] None = Inr configs \<and>
     reports_config peers configs \<and>
     filter (\<lambda>r. sp_PublicKey r = n_PublicKey demo_b) (wireGuardPeerStatus demo_wg 0 peers demo_dir demo_self) = [row] \<and>
     sp_Mode row = ''relayed'' \<and> sp_RelayVia row = ''c''"
proof -
  have "is_ok (BuildPeerConfigs demo_wg Some (m_wg demo_manager) demo_self demo_dir [n_PublicKey demo_b] None)"
    by (rule BuildPeerConfigs_ok, unfold demo_others) (simp add: demo_node_fields demo_key_ok demo_cidrs)
  then obtain configs where c: "BuildPeerConfigs demo_wg Some (m_wg demo_manager) demo_self demo_dir [n_PublicKey demo_b] None = Inr configs"
    by (auto simp: is_ok_iff)
  define peers where "peers = map (\<lambda>c. \<lparr>wp_PublicKey = pc_PublicKey c, wp_Endpoint = None, wp_LastHandshake = 0, kp_AllowedIPs = pc_AllowedIPs c,
    kp_ReceiveBytes = 0, kp_TransmitBytes = 0, kp_Keepalive = 0\<rparr>) configs"
  have r: "reports_config peers configs" by (simp add: reports_config_def peers_def comp_def)
  have "routed_by demo_wg demo_self demo_dir [n_PublicKey demo_b] demo_b \<noteq> key_of demo_wg demo_b"
    using demo_target by (simp add: routed_by_def isShadow_def relayTargetKey_def demo_members demo_node_fields replicate_eq_replicate)
  then have "\<exists>row. filter (\<lambda>r. sp_PublicKey r = n_PublicKey demo_b) (wireGuardPeerStatus demo_wg 0 peers demo_dir demo_self) = [row] \<and>
     sp_Mode row = ''relayed'' \<and> sp_RelayVia row = ''c''"
    using status_tells_routing [OF demo_wg_ok demo_dir_valid [unfolded Validate_ok] demo_dir_canonical c r, of demo_b 0] demo_target
    unfolding demo_others by (auto simp: demo_node_fields)
  with c r show ?thesis by blast
qed

lemma Rewrite_again:
  assumes "directory_ok W A dir" and "iface_ok iface" and "Block dir \<noteq> []" and "Rewrite content iface (Block dir) = Inr (r, ch)"
  shows "Rewrite r iface (Block dir) = Inr (r, False)"
proof -
  note b = Block_ok [OF assms(1)]
  obtain pre post where "around iface pre post" and r: "r = pre @ writeMarkedBlock iface (Block dir) @ post"
    using Rewrite_around [OF assms(4)] assms(2,3) by (fastforce simp: iface_ok_def)
  then show ?thesis using Rewrite_marked [OF _ assms(2) b b] assms(3) by (simp add: r Let_def)
qed

text \<open>Once the daemon has written the hosts entries, the report says that they are current: after a successful application of
  the directory's block to the hosts file, reading the file as it is then, whatever it was before, gives \<open>hosts_applied\<close> true and no error.\<close>

theorem status_after_sync:
  assumes "Validate W A dir = Inr ()" and "d_Domain dir \<noteq> []" and "d_Nodes dir \<noteq> []" and "iface_ok (wc_Interface (c_Wireguard cfg))"
    and "ManageHostsEnabled (c_DNS cfg)"
    and "hosts_Apply io (wc_Interface (c_Wireguard cfg)) (Block dir) f = (Regular content perm, Inr ch)"
    and "te_readHosts T (hostsPath cfg) = Inr content"
  shows "dnsStatusFields T cfg dir self ''hosts_applied'' = Some (SBool True) \<and> dnsStatusFields T cfg dir self ''hosts_error'' = None"
proof -
  let ?iface = "wc_Interface (c_Wireguard cfg)"
  have ok: "directory_ok W A dir" using assms(1) by (simp add: Validate_ok)
  have ne: "Block dir \<noteq> []" using Block_has_line [OF ok assms(2) hd_in_set [OF assms(3)]] by (auto simp: has_line_def)
  have "\<exists>old b. Rewrite old ?iface (Block dir) = Inr (content, b) \<or> Rewrite content ?iface (Block dir) = Inr (old, False)"
    using assms(6) ne by (auto simp: hosts_Apply_def ho_WriteFile_def split: option.splits hostsEntry.splits sum.splits prod.splits if_splits)
  then obtain r where "Rewrite content ?iface (Block dir) = Inr (r, False)" using Rewrite_again [OF ok assms(4) ne] by metis
  then show ?thesis
    using assms(5,7) by (auto simp: dnsStatusFields_def hostsFields_def dnsServerFields_def Let_def map_add_def)
qed

definition hosts_fine :: hostsIO where
  "hosts_fine = \<lparr>ho_openLock = None, ho_flock = None, ho_lstat = None, ho_read = None, ho_write = None\<rparr>"

theorem status_after_sync_witness:
  "\<exists>content. hosts_Apply hosts_fine (wc_Interface (c_Wireguard demo_cfg)) (Block demo_dir) Absent = (Regular content 420, Inr True) \<and>
     (\<forall>T :: unit statusEnv. dnsStatusFields (T\<lparr>te_readHosts := \<lambda>_. Inr content\<rparr>) demo_cfg demo_dir demo_self ''hosts_applied'' = Some (SBool True))"
proof -
  have i: "wc_Interface (c_Wireguard demo_cfg) = ''tincan0''" "ManageHostsEnabled (c_DNS demo_cfg)"
    by (simp_all add: demo_cfg_def Default_def DefaultInterface_def ManageHostsEnabled_def)
  obtain r ch where r: "Rewrite [] ''tincan0'' (Block demo_dir) = Inr (r, ch)"
    unfolding Rewrite_def Let_def by (simp add: splitAtMarkers_def scan_start_def)
  have d: "d_Domain demo_dir \<noteq> []" "d_Nodes demo_dir \<noteq> []" "iface_ok (wc_Interface (c_Wireguard demo_cfg))"
    unfolding i by (simp_all add: demo_dir_def iface_ok_def)
  have "Block demo_dir \<noteq> []"
    using Block_has_line [OF demo_dir_valid [unfolded Validate_ok] d(1) hd_in_set [OF d(2)]] by (auto simp: has_line_def)
  then have a: "hosts_Apply hosts_fine (wc_Interface (c_Wireguard demo_cfg)) (Block demo_dir) Absent = (Regular r 420, Inr True)"
    by (simp add: hosts_Apply_def hosts_fine_def ho_WriteFile_def i r)
  have "dnsStatusFields (T\<lparr>te_readHosts := \<lambda>_. Inr r\<rparr>) demo_cfg demo_dir demo_self ''hosts_applied'' = Some (SBool True)" for T :: "unit statusEnv"
    using status_after_sync [OF demo_dir_valid d i(2) a, of "T\<lparr>te_readHosts := \<lambda>_. Inr r\<rparr>" demo_self] by simp
  with a show ?thesis by blast
qed

end
