(* ===== verification/Lan.thy ===== *)
theory Lan
  imports Discovery
begin

text \<open>
  The goroutines of LAN discovery (\<open>src/internal/discovery\<close>: \<open>discovery.go\<close>, \<open>listener.go\<close>, \<open>sender.go\<close>): how they are started, and
  the read loops, the maintenance of the multicast memberships and the sender as one machine over their shared state. An event
  is one step of one goroutine, so any interleaving is a sequence of events; the daemon's calls on the store and the
  cancellation of the context are events too. Sockets are parameters: what a call returns is part of the event.
\<close>

section \<open>Sockets and state\<close>

datatype family = IPv4 | IPv6

text \<open>A resolved multicast address: group and port. (The empty address, which resolves to no group, does not occur: the
  configuration replaces it by the default.)\<close>

type_synonym udpAddr = "ip16 \<times> int"

record packet =
  pk_family :: family
  pk_iface :: iface
  pk_dst :: udpAddr
  pk_ttlSet :: bool
  pk_payload :: bytes

text \<open>Where a read loop is: stopped, before its check of the context, or inside \<open>ReadFrom\<close>. The sender is in the burst with the
  delays that are left, in its loop with the time of the last reactive beacon, or waits for the jitter to pass.\<close>

datatype listenerPc = LOff | LCheck | LReading

datatype senderPc = SOff | SBurst "duration list" | SLoop gotime | SJitter gotime

text \<open>\<open>la_wake\<close> and \<open>la_react\<close> are the channels, of one place each; \<open>la_sent\<close> is what went out so far.\<close>

record lan =
  la_store :: Store
  la_cancelled :: bool
  la_addr :: "family \<Rightarrow> udpAddr option"
  la_listener :: "family \<Rightarrow> listenerPc"
  la_maintainer :: "family \<Rightarrow> bool"
  la_joined :: "family \<Rightarrow> string list"
  la_sender :: senderPc
  la_socks :: "family \<Rightarrow> bool"
  la_wake :: "string option"
  la_react :: bool
  la_sent :: "packet list"

text \<open>What the system answers while discovery starts: \<open>lx_running\<close> tells whether a read loop passes its first check of the
  context before \<open>Start\<close> returns.\<close>

record lanStart =
  lx_resolve :: "family \<Rightarrow> string \<Rightarrow> udpAddr res"
  lx_ifs :: "iface list res"
  lx_listen :: "family \<Rightarrow> string \<Rightarrow> error option"
  lx_control :: "family \<Rightarrow> error option"
  lx_joins :: "family \<Rightarrow> iface \<Rightarrow> bool"
  lx_senderSocket :: "family \<Rightarrow> error option"
  lx_running :: "family \<Rightarrow> bool"

section \<open>Starting\<close>

definition wildcard :: "family \<Rightarrow> int \<Rightarrow> string" where
  "wildcard f port = (case f of IPv4 \<Rightarrow> ''0.0.0.0:'' | IPv6 \<Rightarrow> ''[::]:'') @ itoa port"

definition startListener :: "lanStart \<Rightarrow> iface list \<Rightarrow> family \<Rightarrow> udpAddr \<Rightarrow> lan \<Rightarrow> lan \<times> error option" where
  "startListener X ifaces f addr L =
     (case lx_listen X f (wildcard f (snd addr)) of
        Some e \<Rightarrow> (L, Some e)
      | None \<Rightarrow>
          (case lx_control X f of
             Some e \<Rightarrow> (L, Some e)
           | None \<Rightarrow>
               (L\<lparr>la_joined := (la_joined L)(f := snd (rejoinGroups (lx_joins X f) [] ifaces)),
                  la_listener := (la_listener L)(f := if lx_running X f then LReading else LCheck),
                  la_maintainer := (la_maintainer L)(f := True)\<rparr>, None)))"

definition startIPv4Listener :: "lanStart \<Rightarrow> iface list \<Rightarrow> udpAddr \<Rightarrow> lan \<Rightarrow> lan \<times> error option" where
  "startIPv4Listener X ifaces = startListener X ifaces IPv4"

definition startIPv6Listener :: "lanStart \<Rightarrow> iface list \<Rightarrow> udpAddr \<Rightarrow> lan \<Rightarrow> lan \<times> error option" where
  "startIPv6Listener X ifaces = startListener X ifaces IPv6"

definition startListeners :: "lanStart \<Rightarrow> iface list \<Rightarrow> lan \<Rightarrow> lan \<times> error option" where
  "startListeners X ifaces L =
     (case (case la_addr L IPv4 of None \<Rightarrow> (L, None) | Some a \<Rightarrow> startIPv4Listener X ifaces a L) of
        (L1, Some e) \<Rightarrow> (L1, Some e)
      | (L1, None) \<Rightarrow> (case la_addr L IPv6 of None \<Rightarrow> (L1, None) | Some a \<Rightarrow> startIPv6Listener X ifaces a L1))"

text \<open>Without an IPv6 socket the sender goes on with IPv4 alone.\<close>

definition openSenderSockets :: "lanStart \<Rightarrow> (family \<Rightarrow> bool) res" where
  "openSenderSockets X =
     (case lx_senderSocket X IPv4 of
        Some e \<Rightarrow> Inl e
      | None \<Rightarrow> (case lx_senderSocket X IPv6 of Some _ \<Rightarrow> Inr ((\<lambda>_. False)(IPv4 := True)) | None \<Rightarrow> Inr (\<lambda>_. True)))"

definition startSender :: "lanStart \<Rightarrow> lan \<Rightarrow> lan \<times> error option" where
  "startSender X L =
     (case openSenderSockets X of
        Inl e \<Rightarrow> (L, Some e)
      | Inr socks \<Rightarrow> (L\<lparr>la_socks := socks, la_sender := SBurst burstSchedule\<rparr>, None))"

definition lan_init :: "duration \<Rightarrow> (family \<Rightarrow> udpAddr option) \<Rightarrow> lan" where
  "lan_init ttl addrs =
     \<lparr>la_store = NewStore ttl, la_cancelled = False, la_addr = addrs, la_listener = (\<lambda>_. LOff), la_maintainer = (\<lambda>_. False),
      la_joined = (\<lambda>_. []), la_sender = SOff, la_socks = (\<lambda>_. False), la_wake = None, la_react = False, la_sent = []\<rparr>"

text \<open>The result is the state of the goroutines with the store that is returned, or the error. When a later step fails, the
  context of the goroutines that were started is cancelled.\<close>

definition Start :: "lanStart \<Rightarrow> discoveryConfig \<Rightarrow> lan \<times> Store res" where
  "Start X cfg =
     (let L0 = lan_init (yc_BeaconTTL cfg) (\<lambda>_. None)
      in case lx_resolve X IPv4 (yc_MulticastIPv4 cfg) of
           Inl e \<Rightarrow> (L0, Inl (Wrap ''resolve IPv4 multicast'' e))
         | Inr a4 \<Rightarrow>
       (case lx_resolve X IPv6 (yc_MulticastIPv6 cfg) of
           Inl e \<Rightarrow> (L0, Inl (Wrap ''resolve IPv6 multicast'' e))
         | Inr a6 \<Rightarrow>
       (let L1 = lan_init (yc_BeaconTTL cfg) (\<lambda>f. Some (case f of IPv4 \<Rightarrow> a4 | IPv6 \<Rightarrow> a6))
        in case liveLANInterfaces (lx_ifs X) (yc_InterfaceFilter cfg) of
           Inl e \<Rightarrow> (L1, Inl (Wrap ''enumerate interfaces'' e))
         | Inr ifaces \<Rightarrow>
       (case startListeners X ifaces L1 of
           (L2, Some e) \<Rightarrow> (L2\<lparr>la_cancelled := True\<rparr>, Inl (Wrap ''start listeners'' e))
         | (L2, None) \<Rightarrow>
       (case startSender X L2 of
           (L3, Some e) \<Rightarrow> (L3\<lparr>la_cancelled := True\<rparr>, Inl (Wrap ''start sender'' e))
         | (L3, None) \<Rightarrow> (L3, Inr (la_store L3)))))))"

section \<open>Sending\<close>

text \<open>A nonce is eight random bytes, little endian, or the clock in nanoseconds of the Unix epoch.\<close>

definition randomNonce :: "bytes res \<Rightarrow> int \<Rightarrow> u64" where
  "randomNonce random unixNano =
     (case random of
        Inl _ \<Rightarrow> word_of_int unixNano
      | Inr b \<Rightarrow> foldr (\<lambda>c acc. acc * 256 + of_nat (code c)) b 0)"

record sendIO =
  sx_random :: "bytes res"
  sx_unixNano :: int
  sx_ifs :: "iface list res"
  sx_setIface :: "family \<Rightarrow> iface \<Rightarrow> bool"
  sx_setTTL :: "family \<Rightarrow> iface \<Rightarrow> bool"
  sx_write :: "family \<Rightarrow> iface \<Rightarrow> bool"

definition sendOne :: "sendIO \<Rightarrow> (family \<Rightarrow> bool) \<Rightarrow> (family \<Rightarrow> udpAddr option) \<Rightarrow> bytes \<Rightarrow> iface \<Rightarrow> packet list" where
  "sendOne io socks addrs payload i =
     concat (map (\<lambda>f. case addrs f of
                        None \<Rightarrow> []
                      | Some a \<Rightarrow>
                          if \<not> socks f then []
                          else if \<not> sx_setIface io f i then []
                          else if \<not> sx_write io f i then []
                          else [\<lparr>pk_family = f, pk_iface = i, pk_dst = a, pk_ttlSet = sx_setTTL io f i, pk_payload = payload\<rparr>])
       [IPv4, IPv6])"

definition emit_packets :: "(Beacon \<Rightarrow> bytes res) \<Rightarrow> discoveryConfig \<Rightarrow> sendIO \<Rightarrow> lan \<Rightarrow> packet list" where
  "emit_packets marshal cfg io L =
     (case emit marshal (sx_ifs io) (yc_InterfaceFilter cfg) (randomNonce (sx_random io) (sx_unixNano io)) (la_store L) of
        None \<Rightarrow> []
      | Some (payload, ifaces) \<Rightarrow> concat (map (sendOne io (la_socks L) (la_addr L) payload) ifaces))"

definition do_emit :: "(Beacon \<Rightarrow> bytes res) \<Rightarrow> discoveryConfig \<Rightarrow> sendIO \<Rightarrow> lan \<Rightarrow> lan" where
  "do_emit marshal cfg io L = L\<lparr>la_sent := la_sent L @ emit_packets marshal cfg io L\<rparr>"

section \<open>The steps of the goroutines\<close>

text \<open>A datagram as \<open>ReadFrom\<close> delivers it, with the local addresses, the interfaces by index, the directory and the clock at that
  moment.\<close>

record received =
  rv_data :: bytes
  rv_src :: "ip16 option"
  rv_cm :: "(int \<times> ip16 option) option"
  rv_addrs :: "ip16 option list res"
  rv_byIndex :: "int \<Rightarrow> iface res"
  rv_dir :: directory
  rv_now :: gotime

datatype lanEvent =
    ListenerCheck family
  | Received family received
  | ReadTimedOut family
  | ReadFailed family
  | MembershipTick family "iface list res" "iface \<Rightarrow> bool"
  | MembershipDone family
  | SendTimer sendIO
  | SendReact gotime
  | SendJittered gotime sendIO
  | SendDone
  | StoreCall store_event
  | WakeTaken
  | Cancel

text \<open>The buffer of a read loop.\<close>

definition bufSize :: nat where "bufSize = 1500"

definition setListener :: "family \<Rightarrow> listenerPc \<Rightarrow> lan \<Rightarrow> lan" where
  "setListener f pc L = L\<lparr>la_listener := (la_listener L)(f := pc)\<rparr>"

definition receive :: "(bytes \<Rightarrow> Beacon res) \<Rightarrow> discoveryConfig \<Rightarrow> udpAddr \<Rightarrow> received \<Rightarrow> lan \<Rightarrow> lan" where
  "receive unmarshal cfg addr p L =
     (case processBeacon unmarshal (rv_addrs p) (newBeaconFilter (rv_byIndex p) (fst addr) (yc_InterfaceFilter cfg)) (rv_dir p) (rv_now p)
             (take bufSize (rv_data p)) (rv_src p) (dstAddr (rv_cm p)) (ifaceIndex (rv_cm p)) (la_store L) of
        (store, wake, react) \<Rightarrow>
          L\<lparr>la_store := store,
            la_wake := (if wake \<and> la_wake L = None then Some ''lan endpoint learned'' else la_wake L),
            la_react := (la_react L \<or> react)\<rparr>)"

text \<open>One turn of the read loop, \<open>runIPv4Listener\<close> or \<open>runIPv6Listener\<close>.\<close>

definition listener_step :: "(bytes \<Rightarrow> Beacon res) \<Rightarrow> discoveryConfig \<Rightarrow> family \<Rightarrow> lanEvent \<Rightarrow> lan \<Rightarrow> lan" where
  "listener_step unmarshal cfg f ev L =
     (case (la_listener L f, ev) of
        (LCheck, ListenerCheck _) \<Rightarrow> setListener f (if la_cancelled L then LOff else LReading) L
      | (LReading, Received _ p) \<Rightarrow>
          setListener f LCheck (case la_addr L f of None \<Rightarrow> L | Some addr \<Rightarrow> receive unmarshal cfg addr p L)
      | (LReading, ReadTimedOut _) \<Rightarrow> setListener f LCheck L
      | (LReading, ReadFailed _) \<Rightarrow> setListener f (if la_cancelled L then LOff else LCheck) L
      | _ \<Rightarrow> L)"

definition runIPv4Listener :: "(bytes \<Rightarrow> Beacon res) \<Rightarrow> discoveryConfig \<Rightarrow> lanEvent \<Rightarrow> lan \<Rightarrow> lan" where
  "runIPv4Listener unmarshal cfg = listener_step unmarshal cfg IPv4"

definition runIPv6Listener :: "(bytes \<Rightarrow> Beacon res) \<Rightarrow> discoveryConfig \<Rightarrow> lanEvent \<Rightarrow> lan \<Rightarrow> lan" where
  "runIPv6Listener unmarshal cfg = listener_step unmarshal cfg IPv6"

definition listener_of :: "family \<Rightarrow> (bytes \<Rightarrow> Beacon res) \<Rightarrow> discoveryConfig \<Rightarrow> lanEvent \<Rightarrow> lan \<Rightarrow> lan" where
  "listener_of f = (case f of IPv4 \<Rightarrow> runIPv4Listener | IPv6 \<Rightarrow> runIPv6Listener)"

definition maintainInterval :: "discoveryConfig \<Rightarrow> duration" where
  "maintainInterval cfg = (if yc_BeaconInterval cfg \<le> 0 then 30 * second else yc_BeaconInterval cfg)"

definition maintainMembership :: "discoveryConfig \<Rightarrow> family \<Rightarrow> lanEvent \<Rightarrow> lan \<Rightarrow> lan" where
  "maintainMembership cfg f ev L =
     (if \<not> la_maintainer L f then L
      else case ev of
             MembershipTick _ sysifs joins \<Rightarrow>
               (case liveLANInterfaces sysifs (yc_InterfaceFilter cfg) of
                  Inl _ \<Rightarrow> L
                | Inr ifaces \<Rightarrow> L\<lparr>la_joined := (la_joined L)(f := snd (rejoinGroups joins (la_joined L f) ifaces))\<rparr>)
           | MembershipDone _ \<Rightarrow> if la_cancelled L then L\<lparr>la_maintainer := (la_maintainer L)(f := False)\<rparr> else L
           | _ \<Rightarrow> L)"

text \<open>\<open>runSender\<close>: a timer is the next delay of the burst or the ticker. A nudge is taken from the channel only in the loop.\<close>

definition runSender :: "(Beacon \<Rightarrow> bytes res) \<Rightarrow> discoveryConfig \<Rightarrow> lanEvent \<Rightarrow> lan \<Rightarrow> lan" where
  "runSender marshal cfg ev L =
     (case (la_sender L, ev) of
        (SBurst ds, SendTimer io) \<Rightarrow>
          (do_emit marshal cfg io L)\<lparr>la_sender := (case ds of _ # d # ds' \<Rightarrow> SBurst (d # ds') | _ \<Rightarrow> SLoop 0)\<rparr>
      | (SLoop lastReactive, SendTimer io) \<Rightarrow> do_emit marshal cfg io L
      | (SLoop lastReactive, SendReact now) \<Rightarrow>
          if \<not> la_react L then L
          else if time_Sub now lastReactive < reactiveCooldown then L\<lparr>la_react := False\<rparr>
          else L\<lparr>la_react := False, la_sender := SJitter lastReactive\<rparr>
      | (SJitter lastReactive, SendJittered now io) \<Rightarrow> (do_emit marshal cfg io L)\<lparr>la_sender := SLoop now\<rparr>
      | (SOff, _) \<Rightarrow> L
      | (_, SendDone) \<Rightarrow> if la_cancelled L then L\<lparr>la_sender := SOff, la_socks := (\<lambda>_. False)\<rparr> else L
      | _ \<Rightarrow> L)"

text \<open>The library that encodes beacons: msgpack, as two functions.\<close>

record beaconCodec =
  bc_marshal :: "Beacon \<Rightarrow> bytes res"
  bc_unmarshal :: "bytes \<Rightarrow> Beacon res"

definition lan_step :: "beaconCodec \<Rightarrow> discoveryConfig \<Rightarrow> lanEvent \<Rightarrow> lan \<Rightarrow> lan" where
  "lan_step B cfg ev L =
     (case ev of
        ListenerCheck f \<Rightarrow> listener_of f (bc_unmarshal B) cfg ev L
      | Received f p \<Rightarrow> listener_of f (bc_unmarshal B) cfg ev L
      | ReadTimedOut f \<Rightarrow> listener_of f (bc_unmarshal B) cfg ev L
      | ReadFailed f \<Rightarrow> listener_of f (bc_unmarshal B) cfg ev L
      | MembershipTick f _ _ \<Rightarrow> maintainMembership cfg f ev L
      | MembershipDone f \<Rightarrow> maintainMembership cfg f ev L
      | StoreCall c \<Rightarrow> L\<lparr>la_store := store_step c (la_store L)\<rparr>
      | WakeTaken \<Rightarrow> L\<lparr>la_wake := None\<rparr>
      | Cancel \<Rightarrow> L\<lparr>la_cancelled := True\<rparr>
      | _ \<Rightarrow> runSender (bc_marshal B) cfg ev L)"

lemma listener_of [simp]: "listener_of f um cfg = listener_step um cfg f"
  by (cases f) (simp_all add: listener_of_def runIPv4Listener_def runIPv6Listener_def)

section \<open>What the store may hold\<close>

text \<open>The endpoints in a store, with the keys they are held for.\<close>

definition learned :: "Store \<Rightarrow> (string \<times> string) set" where
  "learned s = (\<lambda>(k, en). (k, ls_Endpoint en)) ` set (st_entries s)"

lemma set_AList_update: "set (AList.update k v xs) \<subseteq> insert (k, v) (set xs)"
  by (induction xs) auto

lemma learned_put: "learned (s\<lparr>st_entries := AList.update k en (st_entries s)\<rparr>) \<subseteq> insert (k, ls_Endpoint en) (learned s)"
  using set_AList_update [of k en "st_entries s"] by (fastforce simp: learned_def)

lemma learned_known: "map_of (st_entries s) k = Some en \<Longrightarrow> (k, ls_Endpoint en) \<in> learned s"
  by (force simp: learned_def dest: map_of_SomeD)

lemma learned_Update: "learned (fst (Update k e now s)) \<subseteq> insert (k, e) (learned s)"
proof (cases "map_of (st_entries s) k")
  case None
  then show ?thesis using learned_put [of k "zero_LANState\<lparr>ls_Endpoint := e, ls_LearnedAt := now\<rparr>" s] by (simp add: Update_def Let_def)
next
  case (Some prev)
  then show ?thesis
    using learned_put [of k "zero_LANState\<lparr>ls_Endpoint := e, ls_LearnedAt := now\<rparr>" s] learned_put [of k "prev\<lparr>ls_LearnedAt := now\<rparr>" s]
    by (auto simp: Update_def Let_def)
qed

text \<open>The daemon's own calls add no endpoint.\<close>

definition daemon_call :: "store_event \<Rightarrow> bool" where
  "daemon_call c = (case c of EvBeacon _ _ _ \<Rightarrow> False | _ \<Rightarrow> True)"

lemma learned_daemon_call: "daemon_call c \<Longrightarrow> learned (store_step c s) \<subseteq> learned s"
proof (cases c)
  case (EvFailed k now)
  show ?thesis
  proof (cases "map_of (st_entries s) k")
    case (Some en)
    then show ?thesis
      using EvFailed learned_put [of k "en\<lparr>ls_FailedAt := now, ls_FailedEndpoint := ls_Endpoint en\<rparr>" s] learned_known [OF Some]
      by (auto simp: MarkFailed_def)
  qed (simp add: EvFailed MarkFailed_def)
qed (auto simp: daemon_call_def GC_def SetSelf_def learned_def Let_def)

text \<open>A packet that may put \<open>(k, ep)\<close> into the store.\<close>

definition admitted :: "(bytes \<Rightarrow> Beacon res) \<Rightarrow> discoveryConfig \<Rightarrow> udpAddr \<Rightarrow> received \<Rightarrow> string \<times> string \<Rightarrow> bool" where
  "admitted unmarshal cfg addr p = (\<lambda>(k, ep). \<exists>ip b. rv_src p = Some ip \<and> dstAddr (rv_cm p) = Some (fst addr) \<and>
     (yc_InterfaceFilter cfg \<noteq> [] \<longrightarrow>
        (\<exists>i. rv_byIndex p (ifaceIndex (rv_cm p)) = Inr i \<and> if_Name i \<noteq> yc_InterfaceFilter cfg)) \<and>
     \<not> isLocalIP (rv_addrs p) ip \<and> \<not> insideNetworkCIDR (d_NetworkCIDR (rv_dir p)) ip \<and>
     Decode unmarshal (take bufSize (rv_data p)) = Inr b \<and> k = b_PublicKey b \<and> k \<in> n_PublicKey ` set (d_Nodes (rv_dir p)) \<and>
     ep = joinHostPort (ip_String ip) (itoa (uint (b_Port b))))"

lemma receive_learned:
  assumes "kep \<in> learned (la_store (receive um cfg addr p L))" and "kep \<notin> learned (la_store L)"
  shows "admitted um cfg addr p kep"
proof -
  let ?filt = "newBeaconFilter (rv_byIndex p) (fst addr) (yc_InterfaceFilter cfg)"
  obtain s w r where pb: "processBeacon um (rv_addrs p) ?filt (rv_dir p) (rv_now p) (take bufSize (rv_data p)) (rv_src p)
      (dstAddr (rv_cm p)) (ifaceIndex (rv_cm p)) (la_store L) = (s, w, r)" by (metis prod_cases3)
  with assms have in_s: "kep \<in> learned s" by (simp add: receive_def)
  with assms(2) have "s \<noteq> la_store L" by auto
  from processBeacon_changed [OF pb this] obtain ip b where b: "rv_src p = Some ip"
    "filter_drop ?filt (dstAddr (rv_cm p)) (ifaceIndex (rv_cm p)) = None" "\<not> isLocalIP (rv_addrs p) ip"
    "Decode um (take bufSize (rv_data p)) = Inr b" "\<not> insideNetworkCIDR (d_NetworkCIDR (rv_dir p)) ip"
    "isKnownPubkey (rv_dir p) (b_PublicKey b)" "b_PublicKey b \<noteq> st_selfPub (la_store L)"
    "s = fst (Update (b_PublicKey b) (joinHostPort (ip_String ip) (itoa (uint (b_Port b)))) (rv_now p) (la_store L))" .
  have kep: "kep = (b_PublicKey b, joinHostPort (ip_String ip) (itoa (uint (b_Port b))))"
    using in_s assms(2) learned_Update [of "b_PublicKey b" _ "rv_now p" "la_store L"] unfolding b(8) by blast
  have "dstAddr (rv_cm p) = Some (fst addr) \<and>
    (yc_InterfaceFilter cfg \<noteq> [] \<longrightarrow> (\<exists>i. rv_byIndex p (ifaceIndex (rv_cm p)) = Inr i \<and> if_Name i \<noteq> yc_InterfaceFilter cfg))"
    using b(2) by (auto simp: filter_drop_def newBeaconFilter_def split: if_splits sum.splits)
  then show ?thesis unfolding kep using b by (auto simp: admitted_def isKnownPubkey_iff)
qed

section \<open>What goes out\<close>

definition packet_ok :: "discoveryConfig \<Rightarrow> (family \<Rightarrow> udpAddr option) \<Rightarrow> packet \<Rightarrow> bool" where
  "packet_ok cfg addrs pk = (shouldUseInterface (pk_iface pk) (yc_InterfaceFilter cfg) \<and> addrs (pk_family pk) = Some (pk_dst pk))"

lemma usable_interface:
  assumes "shouldUseInterface i skip"
  shows "if_Up i" "\<not> if_Loopback i" "if_Name i \<noteq> skip" "\<exists>ip as. if_Addrs i = Some as \<and> Some ip \<in> set as \<and> hasGlobalScope ip"
  using assms by (auto simp: shouldUseInterface_def list_ex_iff split: if_splits option.splits)

lemma sendOne_ok: "pk \<in> set (sendOne io socks addrs payload i) \<Longrightarrow> pk_iface pk = i \<and> addrs (pk_family pk) = Some (pk_dst pk)"
  by (auto simp: sendOne_def split: option.splits if_splits)

lemma emit_interfaces: "emit m ifs skip n s = Some (payload, ifaces) \<Longrightarrow> i \<in> set ifaces \<Longrightarrow> shouldUseInterface i skip"
  by (auto simp: emit_def liveLANInterfaces_def split: prod.splits if_splits sum.splits)

lemma emit_packets_ok:
  assumes "pk \<in> set (emit_packets m cfg io L)"
  shows "packet_ok cfg (la_addr L) pk"
proof -
  obtain payload ifaces i where
    e: "emit m (sx_ifs io) (yc_InterfaceFilter cfg) (randomNonce (sx_random io) (sx_unixNano io)) (la_store L) = Some (payload, ifaces)"
    and i: "i \<in> set ifaces" and pk: "pk \<in> set (sendOne io (la_socks L) (la_addr L) payload i)"
    using assms
    by (cases "emit m (sx_ifs io) (yc_InterfaceFilter cfg) (randomNonce (sx_random io) (sx_unixNano io)) (la_store L)")
      (auto simp: emit_packets_def)
  from emit_interfaces [OF e i] sendOne_ok [OF pk] show ?thesis by (simp add: packet_ok_def)
qed

section \<open>Invariant of the machine\<close>

definition lan_inv :: "beaconCodec \<Rightarrow> discoveryConfig \<Rightarrow> (family \<Rightarrow> udpAddr option) \<Rightarrow> lanEvent list \<Rightarrow> lan \<Rightarrow> bool" where
  "lan_inv B cfg addrs es L =
     (la_addr L = addrs \<and> list_all (packet_ok cfg addrs) (la_sent L) \<and>
      (\<forall>kep \<in> learned (la_store L). \<exists>f p a. Received f p \<in> set es \<and> addrs f = Some a \<and> admitted (bc_unmarshal B) cfg a p kep))"

definition from_daemon :: "lanEvent list \<Rightarrow> lanEvent \<Rightarrow> bool" where
  "from_daemon es ev = (ev \<in> set es \<and> (\<forall>c. ev = StoreCall c \<longrightarrow> daemon_call c))"

lemma receive_kept [simp]:
  "la_addr (receive um cfg a p L) = la_addr L" "la_sent (receive um cfg a p L) = la_sent L" "la_cancelled (receive um cfg a p L) = la_cancelled L"
  "la_sender (receive um cfg a p L) = la_sender L" "la_listener (receive um cfg a p L) = la_listener L"
  by (simp_all add: receive_def split: prod.split)

lemma listener_step_kept [simp]:
  "la_addr (listener_step um cfg f ev L) = la_addr L" "la_sent (listener_step um cfg f ev L) = la_sent L"
  "la_cancelled (listener_step um cfg f ev L) = la_cancelled L" "la_sender (listener_step um cfg f ev L) = la_sender L"
  "g \<noteq> f \<Longrightarrow> la_listener (listener_step um cfg f ev L) g = la_listener L g"
  by (simp_all add: listener_step_def setListener_def split: listenerPc.split lanEvent.split option.split)

lemma listener_step_learned:
  assumes "kep \<in> learned (la_store (listener_step um cfg f ev L))" and "kep \<notin> learned (la_store L)"
  obtains f' p a where "ev = Received f' p" and "la_addr L f = Some a" and "admitted um cfg a p kep"
  using assms receive_learned [of kep um cfg _ _ L]
  by (auto simp: listener_step_def setListener_def split: listenerPc.splits lanEvent.splits option.splits if_splits)

lemma maintainMembership_kept [simp]:
  "la_addr (maintainMembership cfg f ev L) = la_addr L" "la_sent (maintainMembership cfg f ev L) = la_sent L"
  "la_store (maintainMembership cfg f ev L) = la_store L" "la_cancelled (maintainMembership cfg f ev L) = la_cancelled L"
  "la_sender (maintainMembership cfg f ev L) = la_sender L" "la_listener (maintainMembership cfg f ev L) = la_listener L"
  by (simp_all add: maintainMembership_def split: lanEvent.split sum.split)

lemma runSender_kept [simp]:
  "la_addr (runSender m cfg ev L) = la_addr L" "la_store (runSender m cfg ev L) = la_store L"
  "la_cancelled (runSender m cfg ev L) = la_cancelled L" "la_listener (runSender m cfg ev L) = la_listener L"
  by (simp_all add: runSender_def do_emit_def split: senderPc.split lanEvent.split list.split)

lemma runSender_SOff [simp]: "la_sender L = SOff \<Longrightarrow> runSender m cfg ev L = L"
  by (simp add: runSender_def split: lanEvent.split)

lemma runSender_sent: "pk \<in> set (la_sent (runSender m cfg ev L)) \<Longrightarrow> pk \<in> set (la_sent L) \<or> packet_ok cfg (la_addr L) pk"
  by (auto simp: runSender_def do_emit_def dest!: emit_packets_ok split: senderPc.splits lanEvent.splits list.splits if_splits)

lemma lan_step_inv:
  assumes "lan_inv B cfg addrs es L" and "from_daemon es ev"
  shows "lan_inv B cfg addrs es (lan_step B cfg ev L)"
proof -
  note inv = assms(1) [unfolded lan_inv_def]
  have listener: "lan_inv B cfg addrs es (listener_step (bc_unmarshal B) cfg f ev L)" if "ev = Received f p \<or> (\<forall>f p. ev \<noteq> Received f p)" for f p
    unfolding lan_inv_def listener_step_kept(1,2)
  proof (intro conjI ballI)
    fix kep assume kep: "kep \<in> learned (la_store (listener_step (bc_unmarshal B) cfg f ev L))"
    show "\<exists>f p a. Received f p \<in> set es \<and> addrs f = Some a \<and> admitted (bc_unmarshal B) cfg a p kep"
    proof (cases "kep \<in> learned (la_store L)")
      case False
      with kep obtain f' p' a where "ev = Received f' p'" "la_addr L f = Some a" "admitted (bc_unmarshal B) cfg a p' kep"
        by (rule listener_step_learned)
      moreover from this have "Received f p' \<in> set es" "addrs f = Some a" using that inv assms(2) by (auto simp: from_daemon_def)
      ultimately show ?thesis by blast
    qed (use inv in blast)
  qed (use inv in auto)
  have membership: "lan_inv B cfg addrs es (maintainMembership cfg f ev L)" for f
    using assms(1) by (simp add: lan_inv_def maintainMembership_kept)
  have sender: "lan_inv B cfg addrs es (runSender (bc_marshal B) cfg ev L)"
    using inv runSender_sent [of _ "bc_marshal B" cfg ev L] by (auto simp: lan_inv_def runSender_kept list_all_iff)
  have store: "lan_inv B cfg addrs es (L\<lparr>la_store := store_step c (la_store L)\<rparr>)" if "daemon_call c" for c
    using inv learned_daemon_call [OF that, of "la_store L"] by (fastforce simp: lan_inv_def)
  show ?thesis
    using listener membership sender store assms(2) inv
    by (cases ev) (auto simp: lan_step_def from_daemon_def lan_inv_def)
qed

interpretation lan: event_machine "lan_step B cfg" "lan_inv B cfg addrs es" "from_daemon es" for B cfg addrs es
  by unfold_locales (rule lan_step_inv)

section \<open>How it starts and how it ends\<close>

lemma startListener_fields:
  assumes "startListener X ifaces f a L = (L', e)"
  shows "la_store L' = la_store L \<and> la_sent L' = la_sent L \<and> la_addr L' = la_addr L \<and> la_sender L' = la_sender L"
  using assms by (auto simp: startListener_def split: option.splits)

lemma startListeners_fields:
  assumes "startListeners X ifaces L = (L', e)"
  shows "la_store L' = la_store L \<and> la_sent L' = la_sent L \<and> la_addr L' = la_addr L \<and> la_sender L' = la_sender L"
  using assms
  by (auto simp: startListeners_def startIPv4Listener_def startIPv6Listener_def dest!: startListener_fields split: option.splits prod.splits)

definition multicastAddr :: "discoveryConfig \<Rightarrow> family \<Rightarrow> string" where
  "multicastAddr cfg f = (case f of IPv4 \<Rightarrow> yc_MulticastIPv4 cfg | IPv6 \<Rightarrow> yc_MulticastIPv6 cfg)"

lemma Start_fields:
  assumes "Start X cfg = (L, r)"
  shows "la_store L = NewStore (yc_BeaconTTL cfg) \<and> la_sent L = []"
    and "r = Inl e \<Longrightarrow> la_sender L = SOff \<and> (la_cancelled L \<or> (\<forall>f. la_listener L f = LOff))"
    and "r = Inr s \<Longrightarrow> s = la_store L \<and> la_sender L = SBurst burstSchedule"
    and "la_addr L f = Some a \<Longrightarrow> lx_resolve X f (multicastAddr cfg f) = Inr a"
  using assms
  by (auto simp: Start_def startSender_def lan_init_def multicastAddr_def Let_def dest!: startListeners_fields
      split: sum.splits option.splits prod.splits family.splits)

text \<open>A stopped sender stays stopped, and once the context is cancelled a read loop that is not reading never reads again.\<close>

lemma lan_step_SOff: "la_sender L = SOff \<Longrightarrow> la_sender (lan_step B cfg ev L) = SOff \<and> la_sent (lan_step B cfg ev L) = la_sent L"
  by (simp add: lan_step_def split: lanEvent.split)

lemma run_SOff: "la_sender L = SOff \<Longrightarrow> la_sent (run (lan_step B cfg) evs L) = la_sent L"
  by (induction evs arbitrary: L) (simp_all add: lan_step_SOff)

definition reads_ended :: "family \<Rightarrow> lan \<Rightarrow> bool" where
  "reads_ended f L = (la_listener L f = LOff \<or> la_cancelled L \<and> la_listener L f = LCheck)"

text \<open>The number of packets that the read loop of \<open>f\<close> handles in a run.\<close>

fun handled :: "beaconCodec \<Rightarrow> discoveryConfig \<Rightarrow> family \<Rightarrow> lanEvent list \<Rightarrow> lan \<Rightarrow> nat" where
  "handled B cfg f [] L = 0"
| "handled B cfg f (ev # evs) L =
     (case ev of Received f' _ \<Rightarrow> if f' = f \<and> la_listener L f = LReading then 1 else 0 | _ \<Rightarrow> 0) + handled B cfg f evs (lan_step B cfg ev L)"

lemma lan_step_cancelled: "la_cancelled L \<Longrightarrow> la_cancelled (lan_step B cfg ev L)"
  by (simp add: lan_step_def split: lanEvent.split)

lemma listener_step_ended: "reads_ended f L \<Longrightarrow> reads_ended f (listener_step um cfg g ev L)"
proof (cases "g = f")
  case True
  moreover assume "reads_ended f L"
  ultimately show ?thesis
    by (auto simp: reads_ended_def listener_step_def setListener_def split: listenerPc.split lanEvent.split)
qed (simp add: reads_ended_def)

lemma lan_step_ended: "reads_ended f L \<Longrightarrow> reads_ended f (lan_step B cfg ev L)"
  by (cases ev) (simp_all add: lan_step_def listener_step_ended, auto simp: reads_ended_def)

lemma handled_ended: "reads_ended f L \<Longrightarrow> handled B cfg f evs L = 0"
proof (induction evs arbitrary: L)
  case (Cons ev evs)
  then have "handled B cfg f evs (lan_step B cfg ev L) = 0" using lan_step_ended by blast
  with Cons.prems show ?case by (auto simp: reads_ended_def split: lanEvent.splits)
qed simp

lemma handled_cancelled: "la_cancelled L \<Longrightarrow> handled B cfg f evs L \<le> 1"
proof (induction evs arbitrary: L)
  case (Cons ev evs)
  show ?case
  proof (cases "\<exists>p. ev = Received f p \<and> la_listener L f = LReading")
    case True
    then have "la_listener (lan_step B cfg ev L) f = LCheck" by (auto simp: lan_step_def listener_step_def setListener_def)
    then have "reads_ended f (lan_step B cfg ev L)" using Cons.prems by (simp add: reads_ended_def lan_step_cancelled)
    from handled_ended [OF this] show ?thesis by (simp split: lanEvent.split)
  next
    case False
    then have "handled B cfg f (ev # evs) L = handled B cfg f evs (lan_step B cfg ev L)" by (auto split: lanEvent.split)
    with Cons lan_step_cancelled show ?thesis by simp
  qed
qed simp

section \<open>Properties\<close>

text \<open>C20: LAN discovery stays on the LAN, in both directions and over any run of its goroutines: every beacon goes out on an
  interface that is up, is neither the loopback nor the tunnel and has an address beyond the link, to the configured multicast group;
  and every endpoint in the store was announced in a datagram that was received during the run, addressed to the group, on an interface other
  than the tunnel, from an address that is neither local nor inside the tunnel network, with the key of a member of the directory at that time,
  and is the address the datagram came from with the announced port.\<close>

theorem lan_confined:
  assumes "Start X cfg = (L0, r)" and "\<And>c. StoreCall c \<in> set evs \<Longrightarrow> daemon_call c" and "L = run (lan_step B cfg) evs L0"
  shows "(\<forall>pk \<in> set (la_sent L). if_Up (pk_iface pk) \<and> \<not> if_Loopback (pk_iface pk) \<and> if_Name (pk_iface pk) \<noteq> yc_InterfaceFilter cfg \<and>
      (\<exists>ip as. if_Addrs (pk_iface pk) = Some as \<and> Some ip \<in> set as \<and> hasGlobalScope ip) \<and>
      lx_resolve X (pk_family pk) (multicastAddr cfg (pk_family pk)) = Inr (pk_dst pk)) \<and>
    (\<forall>k en. map_of (st_entries (la_store L)) k = Some en \<longrightarrow>
      (\<exists>f p a. Received f p \<in> set evs \<and> lx_resolve X f (multicastAddr cfg f) = Inr a \<and>
        admitted (bc_unmarshal B) cfg a p (k, ls_Endpoint en)))"
proof -
  note st = Start_fields [OF assms(1)]
  have "lan_inv B cfg (la_addr L0) evs L0" using st(1) by (simp add: lan_inv_def learned_def NewStore_def)
  moreover have "list_all (from_daemon evs) evs" using assms(2) by (auto simp: list_all_iff from_daemon_def)
  ultimately have inv: "lan_inv B cfg (la_addr L0) evs L" unfolding assms(3) by (rule lan.run_inv)
  have "packet_ok cfg (la_addr L0) pk" if "pk \<in> set (la_sent L)" for pk
    using inv that by (simp add: lan_inv_def list_all_iff)
  then have "\<forall>pk \<in> set (la_sent L). if_Up (pk_iface pk) \<and> \<not> if_Loopback (pk_iface pk) \<and> if_Name (pk_iface pk) \<noteq> yc_InterfaceFilter cfg \<and>
      (\<exists>ip as. if_Addrs (pk_iface pk) = Some as \<and> Some ip \<in> set as \<and> hasGlobalScope ip) \<and>
      lx_resolve X (pk_family pk) (multicastAddr cfg (pk_family pk)) = Inr (pk_dst pk)"
    using st(4) by (auto simp: packet_ok_def dest: usable_interface)
  moreover have "\<exists>f p a. Received f p \<in> set evs \<and> lx_resolve X f (multicastAddr cfg f) = Inr a \<and>
      admitted (bc_unmarshal B) cfg a p (k, ls_Endpoint en)" if known: "map_of (st_entries (la_store L)) k = Some en" for k en
  proof -
    obtain f p a where "Received f p \<in> set evs" "la_addr L0 f = Some a" "admitted (bc_unmarshal B) cfg a p (k, ls_Endpoint en)"
      using inv learned_known [OF known] unfolding lan_inv_def by blast
    then show ?thesis using st(4) by blast
  qed
  ultimately show ?thesis by blast
qed

definition demo_eth :: iface where
  "demo_eth = \<lparr>if_Name = ''eth0'', if_Loopback = False, if_Up = True, if_Addrs = Some [Some 0xFFFFC0A80007]\<rparr>"

definition demo_lanStart :: lanStart where
  "demo_lanStart = \<lparr>lx_resolve = (\<lambda>f _. Inr (case f of IPv4 \<Rightarrow> 99 | IPv6 \<Rightarrow> 98, 51821)), lx_ifs = Inr [demo_eth], lx_listen = (\<lambda>_ _. None),
     lx_control = (\<lambda>_. None), lx_joins = (\<lambda>_ _. True), lx_senderSocket = (\<lambda>_. None), lx_running = (\<lambda>_. True)\<rparr>"

definition demo_lanConfig :: discoveryConfig where
  "demo_lanConfig = \<lparr>yc_MulticastIPv4 = ''239.255.84.67:51821'', yc_MulticastIPv6 = ''[ff02::1:8443]:51821'', yc_BeaconInterval = 30 * second,
     yc_BeaconTTL = 90 * second, yc_InterfaceFilter = ''tincan0''\<rparr>"

definition demo_codec :: beaconCodec where
  "demo_codec = \<lparr>bc_marshal = (\<lambda>b. Inr (b_PublicKey b)), bc_unmarshal = (\<lambda>_. Inr \<lparr>b_V = 1, b_PublicKey = ''k'', b_Port = 51820, b_Nonce = 7\<rparr>)\<rparr>"

definition demo_received :: received where
  "demo_received = \<lparr>rv_data = ''data'', rv_src = Some 0xFFFFC0A80005, rv_cm = Some (2, Some 99), rv_addrs = Inr [],
     rv_byIndex = (\<lambda>_. Inr demo_eth), rv_dir = demo_lan, rv_now = 50\<rparr>"

definition demo_sendIO :: sendIO where
  "demo_sendIO = \<lparr>sx_random = Inr ''12345678'', sx_unixNano = 0, sx_ifs = Inr [demo_eth], sx_setIface = (\<lambda>_ _. True), sx_setTTL = (\<lambda>_ _. True),
     sx_write = (\<lambda>_ _. True)\<rparr>"

definition demo_events :: "lanEvent list" where
  "demo_events = [StoreCall (EvSelf ''me'' 51820), SendTimer demo_sendIO, Received IPv4 demo_received]"

lemma demo_start:
  "Start demo_lanStart demo_lanConfig =
     ((lan_init (90 * second) (\<lambda>f. Some (case f of IPv4 \<Rightarrow> 99 | IPv6 \<Rightarrow> 98, 51821)))
        \<lparr>la_joined := \<lambda>_. [''eth0''], la_listener := \<lambda>_. LReading, la_maintainer := \<lambda>_. True, la_socks := \<lambda>_. True,
         la_sender := SBurst burstSchedule\<rparr>, Inr (NewStore (90 * second)))"
proof -
  have "shouldUseInterface demo_eth ''tincan0''" by code_simp
  moreover have "f = IPv4 \<or> f = IPv6" for f by (cases f) auto
  ultimately show ?thesis
    by (auto simp: Start_def demo_lanStart_def demo_lanConfig_def liveLANInterfaces_def startListeners_def startIPv4Listener_def
        startIPv6Listener_def startListener_def startSender_def openSenderSockets_def lan_init_def demo_eth_def fun_eq_iff split: family.splits)
qed

theorem lan_confined_witness:
  "\<exists>L0 L. Start demo_lanStart demo_lanConfig = (L0, Inr (NewStore (90 * second))) \<and> L = run (lan_step demo_codec demo_lanConfig) demo_events L0 \<and>
     length (la_sent L) = 2 \<and> map_of (st_entries (la_store L)) ''k'' \<noteq> None \<and>
     (\<forall>pk \<in> set (la_sent L). if_Name (pk_iface pk) \<noteq> ''tincan0'')"
proof -
  obtain L0 where L0: "Start demo_lanStart demo_lanConfig = (L0, Inr (NewStore (90 * second)))"
    and f: "la_store L0 = NewStore (90 * second)" "la_sender L0 = SBurst burstSchedule" "la_listener L0 IPv4 = LReading" "la_socks L0 = (\<lambda>_. True)"
      "la_addr L0 = (\<lambda>f. Some (case f of IPv4 \<Rightarrow> 99 | IPv6 \<Rightarrow> 98, 51821))" "la_sent L0 = []"
    using demo_start by (simp add: lan_init_def)
  define L where "L = run (lan_step demo_codec demo_lanConfig) demo_events L0"
  have "shouldUseInterface demo_eth ''tincan0''" by code_simp
  then have sent: "length (la_sent L) = 2"
    by (simp add: L_def demo_events_def lan_step_def runSender_def do_emit_def emit_packets_def emit_def Encode_def demo_codec_def f SetSelf_def
        Self_def NewStore_def demo_sendIO_def demo_lanConfig_def liveLANInterfaces_def sendOne_def)
  have "ip_To4 0xFFFFC0A80005 = Some 0xC0A80005" "\<not> insideNetworkCIDR ''10.42.0.0/16'' 0xFFFFC0A80005" by code_simp+
  then have pb: "map_of (st_entries (fst (processBeacon (bc_unmarshal demo_codec) (Inr []) (newBeaconFilter (\<lambda>_. Inr demo_eth) 99 ''tincan0'')
      demo_lan 50 ''data'' (Some 0xFFFFC0A80005) (Some 99) 2 (SetSelf ''me'' 51820 (NewStore (90 * second)))))) ''k'' \<noteq> None"
    by (simp add: demo_codec_def processBeacon_def filter_drop_def newBeaconFilter_def demo_eth_def isLocalIP_def Decode_def demo_lan_def
        isKnownPubkey_def zero_node_def Self_def NewStore_def SetSelf_def Update_def Let_def)
  have "la_store L = fst (processBeacon (bc_unmarshal demo_codec) (Inr []) (newBeaconFilter (\<lambda>_. Inr demo_eth) 99 ''tincan0'')
      demo_lan 50 ''data'' (Some 0xFFFFC0A80005) (Some 99) 2 (SetSelf ''me'' 51820 (NewStore (90 * second))))"
    by (simp add: L_def demo_events_def lan_step_def listener_step_def setListener_def receive_def demo_received_def f demo_lanConfig_def
        dstAddr_def ifaceIndex_def bufSize_def split: prod.split)
  with pb have known: "map_of (st_entries (la_store L)) ''k'' \<noteq> None" by simp
  have "\<And>c. StoreCall c \<in> set demo_events \<Longrightarrow> daemon_call c" by (auto simp: demo_events_def daemon_call_def)
  from lan_confined [OF L0 this L_def] have "\<forall>pk \<in> set (la_sent L). if_Name (pk_iface pk) \<noteq> ''tincan0''"
    by (auto simp: demo_lanConfig_def)
  with L0 L_def sent known show ?thesis by blast
qed

text \<open>A failed start leaves nothing behind: when \<open>Start\<close> returns an error, no beacon is ever sent, and each read loop that was
  started handles at most the one datagram that it was waiting for.\<close>

theorem failed_start_winds_down:
  assumes "Start X cfg = (L0, Inl e)"
  shows "la_sent (run (lan_step B cfg) evs L0) = [] \<and> handled B cfg f evs L0 \<le> 1"
proof
  note st = Start_fields [OF assms]
  show "la_sent (run (lan_step B cfg) evs L0) = []" using run_SOff st(1,2) by metis
  show "handled B cfg f evs L0 \<le> 1" using st(2) handled_cancelled handled_ended by (fastforce simp: reads_ended_def)
qed

theorem failed_start_winds_down_witness:
  "\<exists>L0 e. Start (demo_lanStart\<lparr>lx_senderSocket := \<lambda>_. Some (Err ''socket'')\<rparr>) demo_lanConfig = (L0, Inl e) \<and> la_listener L0 IPv4 = LReading \<and>
     handled demo_codec demo_lanConfig IPv4 [Received IPv4 demo_received, ListenerCheck IPv4, Received IPv4 demo_received] L0 \<le> 1"
proof -
  let ?X = "demo_lanStart\<lparr>lx_senderSocket := \<lambda>_. Some (Err ''socket'')\<rparr>"
  obtain L0 e where L0: "Start ?X demo_lanConfig = (L0, Inl e)" and "la_listener L0 IPv4 = LReading"
    by (auto simp: Start_def demo_lanStart_def liveLANInterfaces_def startListeners_def startIPv4Listener_def
        startIPv6Listener_def startListener_def startSender_def openSenderSockets_def lan_init_def)
  with failed_start_winds_down [OF L0] show ?thesis by blast
qed

end
