(* ===== verification/Up.thy ===== *)
theory Up
  imports Status Lan
begin

text \<open>
  The entry of the program and the command that runs the daemon (\<open>src/internal/version\<close> and, under \<open>src/internal/cli\<close>, \<open>root.go\<close>, \<open>UpCmd\<close> of \<open>up.go\<close> and the watcher of
  \<open>network_watch.go\<close>): the exit code of a command line, the choice between a parent that forks, the daemon in the child and a single run, and
  what wakes the daemon when the addresses of the machine change. The parser of the command line is a parameter.
\<close>

section \<open>The entry\<close>

text \<open>What the library \<open>kong\<close> does with the arguments: it builds the parser, prints the usage when there are no arguments, and otherwise gives
  the path of the configuration and the command.\<close>

record 'c kong =
  kg_New :: "error option"
  kg_Usage :: "error option"
  kg_Parse :: "string list \<Rightarrow> (string \<times> 'c) res"

definition isAbs :: "string \<Rightarrow> bool" where
  "isAbs path = (path \<noteq> [] \<and> hd path = CHR ''/'')"

text \<open>\<open>run\<close>: the exit code, and the error that is printed. \<open>exec\<close> runs the command with the path of the configuration.\<close>

definition cli_run :: "'c kong \<Rightarrow> (string \<Rightarrow> string res) \<Rightarrow> (string \<Rightarrow> 'c \<Rightarrow> unit res) \<Rightarrow> string list \<Rightarrow> int \<times> error option" where
  "cli_run K absPath exec args =
     (case kg_New K of
        Some e \<Rightarrow> (2, Some e)
      | None \<Rightarrow>
          if args = [] then (case kg_Usage K of Some e \<Rightarrow> (2, Some e) | None \<Rightarrow> (0, None))
          else (case kg_Parse K args of
                  Inl e \<Rightarrow> (2, Some e)
                | Inr (path, cmd) \<Rightarrow>
                    (case (if path \<noteq> [] \<and> \<not> isAbs path then absPath path else Inr path) of
                       Inl e \<Rightarrow> (2, Some e)
                     | Inr path' \<Rightarrow> (case exec path' cmd of Inl e \<Rightarrow> (1, Some e) | Inr () \<Rightarrow> (0, None)))))"

record versionInfo =
  vi_Version :: string
  vi_Commit :: string
  vi_Date :: string

text \<open>The variables as the linker left them, and the settings of the build, if the binary has them; the last setting of a key counts.\<close>

definition version_init :: "(string \<times> string) list option \<Rightarrow> versionInfo \<Rightarrow> versionInfo" where
  "version_init buildInfo v =
     (if vi_Version v \<noteq> ''dev'' then v
      else case buildInfo of
             None \<Rightarrow> v
           | Some settings \<Rightarrow>
               let get = (\<lambda>k. case map_of (rev settings) k of Some x \<Rightarrow> x | None \<Rightarrow> []);
                   revision = get ''vcs.revision''; vcsTime = get ''vcs.time'';
                   v1 = (if revision \<noteq> []
                         then v\<lparr>vi_Commit := revision,
                                vi_Version := (if length revision > 7 then take 7 revision else revision) @
                                  (if get ''vcs.modified'' = ''true'' then ''-dirty'' else [])\<rparr>
                         else v)
               in if vcsTime \<noteq> [] then v1\<lparr>vi_Date := vcsTime\<rparr> else v1)"

definition VersionCmd :: "printer \<Rightarrow> versionInfo \<Rightarrow> string" where
  "VersionCmd p v =
     style p ansiBold (''tincan '' @ vi_Version v) @ [NL] @ printer_pairs p [kv ''commit'' (vi_Commit v), kv ''date'' (vi_Date v)]"

section \<open>Up\<close>

definition tunnelDisplay :: "string \<Rightarrow> string \<Rightarrow> string" where
  "tunnelDisplay tunnelIP networkCIDR =
     (case net_ParseCIDR networkCIDR of None \<Rightarrow> tunnelIP | Some (_, n) \<Rightarrow> tunnelIP @ ''/'' @ decimal (in_Ones n))"

text \<open>What the process meets: its environment (\<open>_TINCAN_DAEMON\<close> is \<open>1\<close>, the value of \<open>_TINCAN_CONFIG\<close>), the configuration at a path, and
  the system calls of each way on. While the loop runs, other processes may touch the PID file (\<open>up_during\<close>).\<close>

record ('s, 'k) upEnv =
  up_IsChild :: bool
  up_EnvConfig :: string
  up_load :: "string \<Rightarrow> Config res"
  up_start :: startEnv
  up_becomeChild :: "error option"
  up_io :: "nat \<Rightarrow> pidIO"
  up_meanwhile :: "nat \<Rightarrow> pidSys \<Rightarrow> pidSys"
  up_now :: gotime
  up_clock :: "nat \<Rightarrow> gotime"
  up_owner :: nat
  up_getpid :: int
  up_lan :: lanStart
  up_turns :: "nat \<Rightarrow> ('s, 'k) turn"
  up_during :: "pidSys \<Rightarrow> pidSys"
  up_close :: pidIO
  up_once :: "'k daemonEnv"
  up_newDrop :: "DropBackend \<Rightarrow> 's dropI res"

text \<open>The runtime of the daemon with the store of LAN discovery, if that starts.\<close>

definition daemonRuntime_start :: "lanStart \<Rightarrow> Config res \<Rightarrow> daemonRuntime" where
  "daemonRuntime_start X loaded = newDaemonRuntime\<lparr>rt_lanStore := startDiscovery (\<lambda>dc. snd (Start X dc)) loaded\<rparr>"

definition up_configPath :: "('s, 'k) upEnv \<Rightarrow> string \<Rightarrow> string" where
  "up_configPath U path = (if up_IsChild U \<and> up_EnvConfig U \<noteq> [] then up_EnvConfig U else path)"

definition up_acquire :: "('s, 'k) upEnv \<Rightarrow> pidSys \<Rightarrow> (nat \<times> pidSys \<times> (acquireError + nat)) option" where
  "up_acquire U p =
     AcquirePIDFileRetry (up_io U) (up_meanwhile U) (up_now U) (up_clock U) (up_owner U) (up_getpid U) (up_getpid U) (2 * second) p"

text \<open>\<open>None\<close> is a command that does not return: a daemon that is never told to stop.\<close>

definition UpCmd :: "('s, 'k) upEnv \<Rightarrow> bool \<Rightarrow> bool \<Rightarrow> string \<Rightarrow> pidSys \<Rightarrow> ('s, 'k) machine \<Rightarrow> (pidSys \<times> ('s, 'k) machine \<times> (acquireError + unit)) option" where
  "UpCmd U daemon noSync path p M =
     (case up_load U (up_configPath U path) of
        Inl e \<Rightarrow> Some (p, M, Inl (AcquireError e))
      | Inr cfg \<Rightarrow>
          if daemon \<and> \<not> up_IsChild U then
            (case daemon_Start (up_start U) p of
               (p', Inl e) \<Rightarrow> Some (p', M, Inl e)
             | (p', Inr pid) \<Rightarrow> Some (p', M, Inr ()))
          else if daemon \<and> up_IsChild U then
            (case up_becomeChild U of
               Some e \<Rightarrow> Some (p, M, Inl (AcquireError e))
             | None \<Rightarrow>
                 (case up_acquire U p of
                    None \<Rightarrow> None
                  | Some (_, p1, Inl e) \<Rightarrow> Some (p1, M, Inl e)
                  | Some (_, p1, Inr i) \<Rightarrow>
                      (case runDaemonLoop (up_turns U) 0 (M, daemonRuntime_start (up_lan U) (up_load U (up_configPath U path))) of
                         None \<Rightarrow> None
                       | Some (e, M', _) \<Rightarrow>
                           Some (fst (PIDFile_CloseRemove (up_close U) (up_owner U) i (up_during U p1)), M',
                                 case e of None \<Rightarrow> Inr () | Some e' \<Rightarrow> Inl (AcquireError e')))))
          else
            (case runUpOnce (up_once U) (up_newDrop U) cfg noSync M of
               (M', Inl e) \<Rightarrow> Some (p, M', Inl (AcquireError e))
             | (M', Inr ()) \<Rightarrow> Some (p, M', Inr ())))"

section \<open>Watching the addresses of the machine\<close>

text \<open>The goroutine of the watcher: the addresses it has seen, the channel that wakes the daemon, and whether it runs.\<close>

record watcher =
  wt_iface :: string
  wt_seen :: "string list"
  wt_wake :: "string option"
  wt_running :: bool

text \<open>An update carries the name of the link as \<open>LinkByIndex\<close> finds it, the index, the network and whether it is new; the other events are
  the end of the context, the end of the channel of updates, and the daemon's receipt of the wake.\<close>

datatype watchEvent =
    AddrUpdate "string res" int string bool
  | WatchDone
  | UpdatesClosed
  | WatchWakeTaken

definition startNetworkWatcher ::
  "Config res \<Rightarrow> (string \<times> int \<times> string option list res) list res \<Rightarrow> error option \<Rightarrow> watcher" where
  "startNetworkWatcher loaded links subscribe =
     (let iface = (case loaded of
                     Inr cfg \<Rightarrow> if wc_Interface (c_Wireguard cfg) \<noteq> [] then wc_Interface (c_Wireguard cfg) else DefaultInterface
                   | Inl _ \<Rightarrow> DefaultInterface)
      in \<lparr>wt_iface = iface, wt_seen = tracker_prime iface links [], wt_wake = None, wt_running = (subscribe = None)\<rparr>)"

definition watcher_step :: "watchEvent \<Rightarrow> watcher \<Rightarrow> watcher" where
  "watcher_step ev w =
     (case ev of
        WatchWakeTaken \<Rightarrow> w\<lparr>wt_wake := None\<rparr>
      | _ \<Rightarrow>
          if \<not> wt_running w then w
          else case ev of
                 AddrUpdate link idx net new \<Rightarrow>
                   (case tracker_observe (wt_iface w) link idx net new (wt_seen w) of
                      (seen, False) \<Rightarrow> w\<lparr>wt_seen := seen\<rparr>
                    | (seen, True) \<Rightarrow>
                        w\<lparr>wt_seen := seen, wt_wake := (if wt_wake w = None then Some ''local network changed'' else wt_wake w)\<rparr>)
               | _ \<Rightarrow> w\<lparr>wt_running := False\<rparr>)"

section \<open>Who runs the loop\<close>

lemma AcquirePIDFile_ok:
  assumes "AcquirePIDFile io owner getpid getpid s = (s', Inr i)"
  shows "py_path s' = Some i \<and> py_lock s' i = Some owner \<and> py_data s' i = pidText getpid"
  using assms
  by (auto simp: AcquirePIDFile_def PIDFile_Write_def sys_create_def sys_lock_def sys_put_def Let_def split: option.splits if_splits)

lemma acquire_loop_ok:
  assumes "acquire_loop io meanwhile clock deadline owner getpid getpid k s = Some (m, s', Inr i)"
  shows "py_path s' = Some i \<and> py_lock s' i = Some owner \<and> py_data s' i = pidText getpid"
proof -
  define post where "post ow gp y = (\<forall>i. snd (snd y) = Inr i \<longrightarrow> py_path (fst (snd y)) = Some i \<and> py_lock (fst (snd y)) i = Some ow \<and>
    py_data (fst (snd y)) i = pidText gp)" for ow gp and y :: "nat \<times> pidSys \<times> (acquireError + nat)"
  have "getpid = getpid \<longrightarrow> post owner getpid (m, s', Inr i)"
  proof (rule acquire_loop.raw_induct [OF _ assms, where P = "\<lambda>io mw cl dl ow gp pid k s y. pid = gp \<longrightarrow> post ow gp y"])
    fix loop io mw and cl :: "nat \<Rightarrow> gotime" and dl ow gp pid k s y
    assume ih: "\<And>io mw cl dl ow gp pid k s y. loop io mw cl dl ow gp pid k s = Some y \<Longrightarrow> pid = gp \<longrightarrow> post ow gp y"
      and step: "(case AcquirePIDFile (io k) ow gp pid s of (s', Inl err) \<Rightarrow>
          if err \<noteq> AlreadyRunning \<or> dl < cl k then Some (k, s', Inl err) else loop io mw cl dl ow gp pid (Suc k) (mw k s')
        | (s', Inr i) \<Rightarrow> Some (k, s', Inr i)) = Some y"
    show "pid = gp \<longrightarrow> post ow gp y"
      using step ih AcquirePIDFile_ok [of "io k" ow gp s] by (auto simp: post_def split: prod.splits sum.splits if_splits)
  qed
  then show ?thesis by (simp add: post_def)
qed

lemma split_first: "c \<notin> set xs \<Longrightarrow> c \<notin> set xs' \<Longrightarrow> xs @ c # ys = xs' @ c # ys' \<longleftrightarrow> xs = xs' \<and> ys = ys'"
proof (induction xs arbitrary: xs')
  case Nil
  then show ?case by (cases xs') auto
next
  case (Cons x xs)
  then show ?case by (cases xs') auto
qed

lemma addrKey_inject: "addrKey i n = addrKey j m \<longleftrightarrow> i = j \<and> n = m"
proof -
  have "CHR ''|'' \<notin> set (itoa i)" for i
    using is_digit_not_in [of "CHR ''|''"] by (auto simp: itoa_def is_digit_def)
  then show ?thesis by (simp add: addrKey_def split_first itoa_inject)
qed

text \<open>Another process holds the lock of the file at the path.\<close>

definition held_by_other :: "nat \<Rightarrow> nat \<Rightarrow> pidSys \<Rightarrow> bool" where
  "held_by_other owner i s = (py_path s = Some i \<and> (\<exists>q. py_lock s i = Some q \<and> q \<noteq> owner))"

lemma AcquirePIDFile_held:
  assumes "held_by_other owner i s" and "AcquirePIDFile io owner getpid pid s = (s', r)"
  shows "s' = s \<and> (\<exists>e. r = Inl e)"
  using assms by (auto simp: AcquirePIDFile_def held_by_other_def sys_create_def sys_lock_def Let_def split: option.splits)

lemma acquire_loop_held:
  assumes "held_by_other owner i s" and "\<And>k s. held_by_other owner i s \<Longrightarrow> held_by_other owner i (meanwhile k s)"
    and "clock n > deadline" and "k \<le> n"
  shows "\<exists>m s' e. acquire_loop io meanwhile clock deadline owner getpid pid k s = Some (m, s', Inl e) \<and> held_by_other owner i s'"
  using assms(1,3,4)
proof (induction "n - k" arbitrary: k s)
  case 0
  obtain e where a: "AcquirePIDFile (io k) owner getpid pid s = (s, Inl e)"
    using AcquirePIDFile_held [OF 0(2)] by (metis surj_pair)
  have "k = n" using 0 by simp
  then show ?case using 0 a by (subst acquire_loop.simps) simp
next
  case (Suc l)
  obtain e where a: "AcquirePIDFile (io k) owner getpid pid s = (s, Inl e)"
    using AcquirePIDFile_held [OF Suc.prems(1)] by (metis surj_pair)
  have "l = n - Suc k" "Suc k \<le> n" using Suc.hyps(2) by auto
  from Suc.hyps(1) [OF this(1) assms(2) [OF Suc.prems(1)] Suc.prems(2) this(2)]
  show ?case using a Suc.prems(1) by (subst acquire_loop.simps) auto
qed

section \<open>What the watcher is for\<close>

text \<open>
  The machine, independent of the watcher: links have an index and a name, each link has addresses, and an address event of the
  kernel adds one (possibly one that is there already, at a renewal) or takes one away. The daemon is to be woken when the addresses
  of the local network change, those on links other than the loopback and the tunnel. \<open>pending\<close> is that they have changed since
  the daemon was last woken.
\<close>

definition lan_addrs :: "(int \<Rightarrow> string) \<Rightarrow> string \<Rightarrow> (int \<times> string) set \<Rightarrow> (int \<times> string) set" where
  "lan_addrs names tunnel A = {(i, net) \<in> A. names i \<noteq> ''lo'' \<and> names i \<noteq> tunnel}"

fun kernel_step ::
  "(int \<Rightarrow> string) \<Rightarrow> string \<Rightarrow> watchEvent \<Rightarrow> (int \<times> string) set \<times> bool \<Rightarrow> (int \<times> string) set \<times> bool" where
  "kernel_step names tunnel (AddrUpdate _ i net new) (A, pending) =
     (let A' = (if new then insert (i, net) A else A - {(i, net)})
      in (A', pending \<or> lan_addrs names tunnel A' \<noteq> lan_addrs names tunnel A))"
| "kernel_step names tunnel WatchWakeTaken (A, _) = (A, False)"
| "kernel_step names tunnel _ S = S"

text \<open>The watcher is running, and \<open>LinkByIndex\<close> finds the link of each update.\<close>

definition resolved :: "(int \<Rightarrow> string) \<Rightarrow> watchEvent \<Rightarrow> bool" where
  "resolved names ev =
     (case ev of AddrUpdate link i _ _ \<Rightarrow> link = Inr (names i) | WatchWakeTaken \<Rightarrow> True | _ \<Rightarrow> False)"

text \<open>The listing with which the tracker is primed is complete.\<close>

definition full_listing :: "(int \<Rightarrow> string) \<Rightarrow> (string \<times> int \<times> string option list res) list \<Rightarrow> (int \<times> string) set \<Rightarrow> bool" where
  "full_listing names ls A \<longleftrightarrow>
     (\<forall>(name, i, r) \<in> set ls. name = names i \<and> is_ok r) \<and>
     A = {(i, net). \<exists>nets. (names i, i, Inr nets) \<in> set ls \<and> Some net \<in> set nets}"

definition tracks :: "(int \<Rightarrow> string) \<Rightarrow> string \<Rightarrow> watcher \<Rightarrow> (int \<times> string) set \<times> bool \<Rightarrow> bool" where
  "tracks names tunnel w S \<longleftrightarrow> wt_running w \<and> wt_iface w = tunnel \<and>
     set (wt_seen w) = (\<lambda>(i, net). addrKey i net) ` lan_addrs names tunnel (fst S) \<and>
     wt_wake w = (if snd S then Some ''local network changed'' else None)"

lemma key_in: "addrKey i n \<in> (\<lambda>(i, n). addrKey i n) ` A \<longleftrightarrow> (i, n) \<in> A"
  by (auto simp: addrKey_inject)

lemma keys_minus: "(\<lambda>(i, n). addrKey i n) ` A - {addrKey i n} = (\<lambda>(i, n). addrKey i n) ` (A - {(i, n)})"
  by (auto simp: addrKey_inject)

lemma lan_addrs_step:
  "lan_addrs names tunnel (insert (i, net) A) =
     (if skipLink tunnel (names i) then lan_addrs names tunnel A else insert (i, net) (lan_addrs names tunnel A))"
  "lan_addrs names tunnel (A - {(i, net)}) =
     (if skipLink tunnel (names i) then lan_addrs names tunnel A else lan_addrs names tunnel A - {(i, net)})"
  by (auto simp: lan_addrs_def skipLink_def)

lemma watcher_step_tracks:
  assumes "tracks names tunnel w S" and "resolved names ev"
  shows "tracks names tunnel (watcher_step ev w) (kernel_step names tunnel ev S)"
proof (cases ev)
  case (AddrUpdate link i net new)
  obtain A pending where S: "S = (A, pending)" by (cases S)
  let ?L = "lan_addrs names tunnel A"
  have link: "link = Inr (names i)" using assms(2) by (simp add: resolved_def AddrUpdate)
  have t: "wt_running w" "wt_iface w = tunnel" "set (wt_seen w) = (\<lambda>(i, net). addrKey i net) ` ?L"
    "wt_wake w = (if pending then Some ''local network changed'' else None)"
    using assms(1) by (simp_all add: tracks_def S)
  have known: "addrKey i net \<in> set (wt_seen w) \<longleftrightarrow> (i, net) \<in> ?L" unfolding t(3) by (rule key_in)
  show ?thesis
  proof (cases "skipLink tunnel (names i)")
    case True
    then show ?thesis
      using t by (simp add: watcher_step_def AddrUpdate link tracker_observe_def S tracks_def Let_def lan_addrs_step)
  next
    case False
    then have obs: "tracker_observe tunnel link i net b (wt_seen w) = observeKey (addrKey i net) b (wt_seen w)" for b
      by (simp add: tracker_observe_def link)
    have ne: "(i, net) \<notin> ?L \<Longrightarrow> insert (i, net) ?L \<noteq> ?L" "(i, net) \<in> ?L \<Longrightarrow> ?L - {(i, net)} \<noteq> ?L" by blast+
    have lan: "lan_addrs names tunnel (insert (i, net) A) = insert (i, net) ?L" "lan_addrs names tunnel (A - {(i, net)}) = ?L - {(i, net)}"
      using False by (simp_all add: lan_addrs_step)
    show ?thesis
      using t known ne
      by (cases new; cases "(i, net) \<in> ?L")
        (simp_all add: watcher_step_def AddrUpdate obs observeKey_def S tracks_def Let_def lan insert_absorb keys_minus)
  qed
next
  case WatchWakeTaken
  with assms(1) show ?thesis by (cases S) (simp add: watcher_step_def tracks_def)
qed (use assms(2) in \<open>simp_all add: resolved_def\<close>)

lemma watcher_run_tracks:
  "tracks names tunnel w S \<Longrightarrow> list_all (resolved names) evs \<Longrightarrow>
     tracks names tunnel (run watcher_step evs w) (fold (kernel_step names tunnel) evs S)"
  by (induction evs arbitrary: w S) (simp_all add: watcher_step_tracks)

text \<open>Priming collects the addresses of the links that count.\<close>

lemma prime_nets:
  "set (fold (\<lambda>a acc. case a of None \<Rightarrow> acc | Some n \<Rightarrow> List.insert (addrKey i n) acc) nets acc) =
     set acc \<union> addrKey i ` {n. Some n \<in> set nets}"
proof (induction nets arbitrary: acc)
  case (Cons a nets)
  show ?case by (cases a) (auto simp: Cons.IH)
qed simp

lemma prime_links:
  "set (tracker_prime tunnel (Inr ls) seen) =
     set seen \<union> {addrKey i n | name i nets n. (name, i, Inr nets) \<in> set ls \<and> \<not> skipLink tunnel name \<and> Some n \<in> set nets}"
proof (induction ls arbitrary: seen)
  case (Cons l ls)
  obtain name i r where l: "l = (name, i, r)" by (cases l)
  let ?add = "if skipLink tunnel name then seen else case r of Inl _ \<Rightarrow> seen
    | Inr nets \<Rightarrow> fold (\<lambda>a acc. case a of None \<Rightarrow> acc | Some n \<Rightarrow> List.insert (addrKey i n) acc) nets seen"
  have step: "tracker_prime tunnel (Inr (l # ls)) seen = tracker_prime tunnel (Inr ls) ?add"
    by (simp add: tracker_prime_def l split: sum.splits)
  have add: "set ?add = set seen \<union> {addrKey i n | nets n. r = Inr nets \<and> \<not> skipLink tunnel name \<and> Some n \<in> set nets}"
    by (cases r) (auto simp: prime_nets)
  show ?case unfolding step Cons.IH add by (simp add: l) blast
qed (simp add: tracker_prime_def)

lemma start_tracks:
  assumes "wc_Interface (c_Wireguard cfg) = tunnel" and "tunnel \<noteq> []" and "full_listing names ls A"
  shows "tracks names tunnel (startNetworkWatcher (Inr cfg) (Inr ls) None) (A, False)"
proof -
  have "set (tracker_prime tunnel (Inr ls) []) = (\<lambda>(i, net). addrKey i net) ` lan_addrs names tunnel A"
    using assms(3) unfolding prime_links full_listing_def lan_addrs_def skipLink_def by (auto 0 4 simp: image_iff)
  then show ?thesis using assms(1,2) by (simp add: startNetworkWatcher_def tracks_def)
qed

section \<open>Properties\<close>

text \<open>the daemon's loop runs, and the machine changes, only in a child that has locked the PID file at the path and written its own process
  identifier to it.\<close>

theorem up_daemon_locked:
  assumes "UpCmd U True noSync path p M = Some (p', M', r)" and "M' \<noteq> M"
  shows "up_IsChild U \<and> (\<exists>k p1 i. up_acquire U p = Some (k, p1, Inr i) \<and>
    py_path p1 = Some i \<and> py_lock p1 i = Some (up_owner U) \<and> py_data p1 i = pidText (up_getpid U))"
proof -
  have child: "up_IsChild U"
  proof (rule ccontr)
    assume "\<not> up_IsChild U"
    then show False using assms by (auto simp: UpCmd_def split: sum.splits prod.splits)
  qed
  then obtain k p1 i where a: "up_acquire U p = Some (k, p1, Inr i)"
    using assms child unfolding UpCmd_def
    by (cases "up_load U (up_configPath U path)"; cases "up_becomeChild U"; cases "up_acquire U p") (auto split: sum.splits)
  then show ?thesis using child acquire_loop_ok [of "up_io U"] by (auto simp: up_acquire_def AcquirePIDFileRetry_def)
qed

text \<open>C21: a second daemon stands down: in a child that finds the PID file locked by another process, and as long as that process keeps it, \<open>up\<close> ends
  with an error when its two seconds are over, whatever system calls fail, and leaves the PID file's holder, the state directory, the drop,
  the kernel and the hosts file alone.\<close>

theorem second_daemon_stands_down:
  assumes "up_IsChild U" and "sleeps (up_now U) (up_clock U)" and "held_by_other (up_owner U) i p"
    and "\<And>k s. held_by_other (up_owner U) i s \<Longrightarrow> held_by_other (up_owner U) i (up_meanwhile U k s)"
  shows "\<exists>p' e. UpCmd U True noSync path p M = Some (p', M, Inl e) \<and> held_by_other (up_owner U) i p'"
proof -
  obtain m p1 e where a: "up_acquire U p = Some (m, p1, Inl e)" "held_by_other (up_owner U) i p1"
    using acquire_loop_held [of "up_owner U" i p "up_meanwhile U" "up_now U + 2 * second" "up_clock U" "pauses (2 * second)" 0]
      assms(3,4) sleeps_deadline [OF assms(2), of "2 * second"]
    unfolding up_acquire_def AcquirePIDFileRetry_def by blast
  show ?thesis
    using a assms(1,3) by (cases "up_load U (up_configPath U path)"; cases "up_becomeChild U") (auto simp: UpCmd_def)
qed

definition demo_start :: startEnv where
  "demo_start = \<lparr>sa_io = fine_pidIO, sa_write = fine_pidIO, sa_close = fine_pidIO, sa_owner = 1, sa_getpid = 7, sa_executable = None, sa_devNull = None,
     sa_startProcess = Inr 8, sa_release = None\<rparr>"

definition demo_up :: "(fileSystem, demo_state) upEnv" where
  "demo_up = \<lparr>up_IsChild = True, up_EnvConfig = ''/etc/tincan/config.toml'', up_load = (\<lambda>_. Inr demo_cfg), up_start = demo_start,
     up_becomeChild = None, up_io = (\<lambda>_. fine_pidIO), up_meanwhile = (\<lambda>_ s. s), up_now = 0, up_clock = (\<lambda>k. int k * retryPause), up_owner = 1,
     up_getpid = 7, up_lan = demo_lanStart,
     up_turns = (\<lambda>_. \<lparr>tn_config = Inr demo_cfg, tn_env = demo_dv, tn_newDrop = (\<lambda>_. Inr demo_drop), tn_rnd = (\<lambda>_. 0), tn_reconciled = 0,
       tn_events = (\<lambda>_. (0, Tick)), tn_ticks = (\<lambda>_. demo_dv)\<rparr>),
     up_during = (\<lambda>s. s), up_close = fine_pidIO, up_once = demo_dv, up_newDrop = (\<lambda>_. Inr demo_drop)\<rparr>"

theorem second_daemon_stands_down_witness:
  "\<exists>p' e. UpCmd demo_up True False [] \<lparr>py_path = Some 0, py_next = 1, py_data = (\<lambda>_. ''9''), py_lock = (\<lambda>_. Some 9)\<rparr> demo_cached =
     Some (p', demo_cached, Inl e)"
proof -
  have "sleeps (up_now demo_up) (up_clock demo_up)" by (simp add: demo_up_def sleeps_def retryPause_def)
  moreover have "held_by_other (up_owner demo_up) 0 \<lparr>py_path = Some 0, py_next = 1, py_data = (\<lambda>_. ''9''), py_lock = (\<lambda>_. Some 9)\<rparr>"
    by (simp add: demo_up_def held_by_other_def)
  ultimately show ?thesis
    using second_daemon_stands_down [of demo_up 0 _ False "[]" demo_cached] by (fastforce simp: demo_up_def)
qed


definition demo_links :: "(string \<times> int \<times> string option list res) list" where
  "demo_links = [(''lo'', 1, Inr [Some ''127.0.0.1/8'']), (''eth0'', 2, Inr [Some ''192.168.0.7/24''])]"

definition demo_names :: "int \<Rightarrow> string" where
  "demo_names i = (if i = 1 then ''lo'' else if i = 2 then ''eth0'' else ''tincan0'')"


end
