(* ===== verification/Logging.thy ===== *)
theory Logging
  imports Report Encoding
begin

text \<open>
  The log (\<open>src/internal/logging/logging.go\<close>): the handler that writes one record of \<open>log/slog\<close> as one line of \<open>key=value\<close> fields
  to syslog. The syslog connection is a parameter; a record is the severity and the text that are handed to it.
  \<open>strconv.Quote\<close> is written out, with Unicode's table of printable code points beyond ASCII as a parameter.
\<close>

section \<open>Quoting\<close>

abbreviation (input) QUOTE :: char where "QUOTE \<equiv> CHR 0x22"
abbreviation (input) BS :: char where "BS \<equiv> CHR 0x5C"

fun hexFixed :: "nat \<Rightarrow> nat \<Rightarrow> string" where
  "hexFixed 0 n = []"
| "hexFixed (Suc k) n = hexFixed k (n div 16) @ [hex_digits ! (n mod 16)]"

text \<open>The code point that a valid sequence of \<open>w\<close> bytes encodes.\<close>

definition runeValue :: "nat \<Rightarrow> string \<Rightarrow> nat" where
  "runeValue w s =
     (let b = (\<lambda>i. code (s ! i) mod 64)
      in if w = 2 then (code (s ! 0) mod 32) * 64 + b 1
         else if w = 3 then (code (s ! 0) mod 16) * 4096 + b 1 * 64 + b 2
         else (code (s ! 0) mod 8) * 262144 + b 1 * 4096 + b 2 * 64 + b 3)"

text \<open>What \<open>Quote\<close> writes for the first code point of a text that is not empty.\<close>

definition escapeRune :: "(nat \<Rightarrow> bool) \<Rightarrow> string \<Rightarrow> string" where
  "escapeRune isPrint s =
     (let c = hd s; w = runeLen s
      in if w = 1 then
           (if 0x80 \<le> code c then BS # CHR ''x'' # hexFixed 2 (code c)
            else if c = QUOTE \<or> c = BS then [BS, c]
            else if 0x20 \<le> code c \<and> code c \<le> 0x7E then [c]
            else if code c = 7 then [BS, CHR ''a'']
            else if code c = 8 then [BS, CHR ''b'']
            else if code c = 12 then [BS, CHR ''f'']
            else if code c = 10 then [BS, CHR ''n'']
            else if code c = 13 then [BS, CHR ''r'']
            else if code c = 9 then [BS, CHR ''t'']
            else if code c = 11 then [BS, CHR ''v'']
            else BS # CHR ''x'' # hexFixed 2 (code c))
         else
           (let r = runeValue w s
            in if isPrint r then take w s
               else if r < 0x10000 then BS # CHR ''u'' # hexFixed 4 r
               else BS # CHR ''U'' # hexFixed 8 r))"

function escapeRunes :: "(nat \<Rightarrow> bool) \<Rightarrow> string \<Rightarrow> string" where
  "escapeRunes isPrint s = (if s = [] then [] else escapeRune isPrint s @ escapeRunes isPrint (drop (runeLen s) s))"
  by auto
termination by (relation "measure (length \<circ> snd)") (auto simp: runeLen_pos)

declare escapeRunes.simps [simp del]

definition strconv_Quote :: "(nat \<Rightarrow> bool) \<Rightarrow> string \<Rightarrow> string" where
  "strconv_Quote isPrint s = QUOTE # escapeRunes isPrint s @ [QUOTE]"

definition needsQuoting :: "string \<Rightarrow> bool" where
  "needsQuoting s = (if s = [] then True else list_ex (\<lambda>c. c \<in> set [CHR '' '', CHR ''='', QUOTE, TAB, NL, CR]) s)"

definition log_quote :: "(nat \<Rightarrow> bool) \<Rightarrow> string \<Rightarrow> string" where
  "log_quote isPrint s = (if \<not> needsQuoting s then s else strconv_Quote isPrint s)"

section \<open>Levels and attributes\<close>

definition LevelDebug :: int where "LevelDebug = -4"
definition LevelInfo :: int where "LevelInfo = 0"
definition LevelWarn :: int where "LevelWarn = 4"
definition LevelError :: int where "LevelError = 8"

definition ParseLevel :: "string \<Rightarrow> int" where
  "ParseLevel s =
     (let t = toLower (trimSpace s)
      in if t = ''debug'' then LevelDebug
         else if t = ''warn'' \<or> t = ''warning'' then LevelWarn
         else if t = ''error'' \<or> t = ''err'' then LevelError
         else LevelInfo)"

definition levelString :: "int \<Rightarrow> string" where
  "levelString l =
     (if l \<ge> LevelError then ''ERROR'' else if l \<ge> LevelWarn then ''WARN'' else if l \<ge> LevelInfo then ''INFO'' else ''DEBUG'')"

text \<open>A resolved value: a string, a group, or one of another kind by the text that \<open>String\<close> gives.\<close>

datatype attrValue = KindString string | KindGroup "attr list" | KindOther string
  and attr = Attr string attrValue

definition qualify :: "string \<Rightarrow> string \<Rightarrow> string" where
  "qualify grp key = (if grp \<noteq> [] then grp @ ''.'' @ key else key)"

text \<open>The builder is the text written so far. A group takes back the key that was written for it.\<close>

fun appendAttr :: "(nat \<Rightarrow> bool) \<Rightarrow> string \<Rightarrow> attr \<Rightarrow> string \<Rightarrow> string"
  and appendGroup :: "(nat \<Rightarrow> bool) \<Rightarrow> string \<Rightarrow> nat \<Rightarrow> attr list \<Rightarrow> string \<Rightarrow> string" where
  "appendAttr P grp (Attr k v) b =
     (let key = qualify grp k; b1 = b @ key @ ''=''
      in case v of
           KindString s \<Rightarrow> b1 @ log_quote P s
         | KindGroup as \<Rightarrow> appendGroup P (if grp = [] then k else grp @ ''.'' @ k) 0 as (take (length b1 - length key - 1) b1)
         | KindOther s \<Rightarrow> b1 @ (if needsQuoting s then log_quote P s else s))"
| "appendGroup P nested i [] b = b"
| "appendGroup P nested i (a # as) b =
     appendGroup P nested (Suc i) as (appendAttr P nested a (if i > 0 then b @ '' '' else b))"

section \<open>The handler\<close>

record syslogHandler =
  sh_level :: int
  sh_attrs :: "attr list"
  sh_group :: string

record logRecord =
  lr_Level :: int
  lr_Message :: string
  lr_Attrs :: "attr list"

datatype severity = SevErr | SevWarning | SevInfo | SevDebug

definition Enabled :: "syslogHandler \<Rightarrow> int \<Rightarrow> bool" where
  "Enabled h l = (l \<ge> sh_level h)"

definition handle_line :: "(nat \<Rightarrow> bool) \<Rightarrow> syslogHandler \<Rightarrow> logRecord \<Rightarrow> string" where
  "handle_line P h r =
     fold (\<lambda>a b. appendAttr P (sh_group h) a (b @ '' '')) (sh_attrs h @ lr_Attrs r)
       (''level='' @ levelString (lr_Level r) @ '' msg='' @ log_quote P (lr_Message r))"

definition Handle :: "(nat \<Rightarrow> bool) \<Rightarrow> syslogHandler \<Rightarrow> logRecord \<Rightarrow> severity \<times> string" where
  "Handle P h r =
     (if lr_Level r \<ge> LevelError then SevErr
      else if lr_Level r \<ge> LevelWarn then SevWarning
      else if lr_Level r \<ge> LevelInfo then SevInfo
      else SevDebug, handle_line P h r)"

definition WithAttrs :: "attr list \<Rightarrow> syslogHandler \<Rightarrow> syslogHandler" where
  "WithAttrs attrs h = h\<lparr>sh_attrs := sh_attrs h @ attrs\<rparr>"

definition WithGroup :: "string \<Rightarrow> syslogHandler \<Rightarrow> syslogHandler" where
  "WithGroup name h = h\<lparr>sh_group := (if sh_group h = [] then name else sh_group h @ ''.'' @ name)\<rparr>"

text \<open>The logger after \<open>Init\<close>: syslog, or the text handler of \<open>log/slog\<close> on standard error.\<close>

datatype logger = Syslog syslogHandler | TextStderr int

definition logging_Init :: "string \<Rightarrow> error option \<Rightarrow> logger" where
  "logging_Init envLevel syslogNew =
     (let level = ParseLevel envLevel
      in case syslogNew of
           None \<Rightarrow> Syslog \<lparr>sh_level = level, sh_attrs = [], sh_group = []\<rparr>
         | Some _ \<Rightarrow> TextStderr level)"

section \<open>Fields\<close>

text \<open>How a reader takes a line apart: at spaces outside quotes, where a backslash inside quotes hides the next character. \<open>acc\<close> is
  the current field so far, in reverse.\<close>

fun splitFields :: "bool \<Rightarrow> string \<Rightarrow> string \<Rightarrow> string list" where
  "splitFields q acc [] = [rev acc]"
| "splitFields False acc (c # cs) =
     (if c = CHR '' '' then rev acc # splitFields False [] cs else splitFields (c = QUOTE) (c # acc) cs)"
| "splitFields True acc [c] = [rev (c # acc)]"
| "splitFields True acc (c # d # cs) =
     (if c = BS then splitFields True (d # c # acc) cs else splitFields (c \<noteq> QUOTE) (c # acc) (d # cs))"

text \<open>The fields of an attribute: one for a value, those of its members for a group, and an empty one for a group without members.\<close>

fun attrFields :: "(nat \<Rightarrow> bool) \<Rightarrow> string \<Rightarrow> attr \<Rightarrow> string list"
  and groupFields :: "(nat \<Rightarrow> bool) \<Rightarrow> string \<Rightarrow> attr list \<Rightarrow> string list" where
  "attrFields P grp (Attr k v) =
     (case v of
        KindString s \<Rightarrow> [qualify grp k @ ''='' @ log_quote P s]
      | KindOther s \<Rightarrow> [qualify grp k @ ''='' @ log_quote P s]
      | KindGroup as \<Rightarrow> if as = [] then [[]] else groupFields P (qualify grp k) as)"
| "groupFields P grp [] = []"
| "groupFields P grp (a # as) = attrFields P grp a @ groupFields P grp as"

fun joinSpace :: "string list \<Rightarrow> string" where
  "joinSpace [] = []"
| "joinSpace [f] = f"
| "joinSpace (f # g # fs) = f @ '' '' @ joinSpace (g # fs)"

lemma joinSpace_append: "fs \<noteq> [] \<Longrightarrow> gs \<noteq> [] \<Longrightarrow> joinSpace (fs @ gs) = joinSpace fs @ '' '' @ joinSpace gs"
  by (induction fs rule: joinSpace.induct) (auto simp: neq_Nil_conv)

lemma attrFields_ne:
  "attrFields P grp a \<noteq> []" "as \<noteq> [] \<Longrightarrow> groupFields P grp as \<noteq> []"
  by (induction P grp a and P grp as rule: attrFields_groupFields.induct) (auto split: attrValue.splits)

lemma append_fields:
  "appendAttr P grp a b = b @ joinSpace (attrFields P grp a)"
  "appendGroup P nested i as b = (if as = [] then b else b @ (if i > 0 then '' '' else []) @ joinSpace (groupFields P nested as))"
proof (induction P grp a b and P nested i as b rule: appendAttr_appendGroup.induct)
  case (1 P grp k v b)
  have "(if grp = [] then k else grp @ ''.'' @ k) = qualify grp k" by (simp add: qualify_def)
  with 1 show ?case by (cases v) (simp_all add: Let_def log_quote_def)
next
  case (3 P nested i a as b)
  then show ?case by (auto simp: joinSpace_append attrFields_ne)
qed simp

lemma handle_fields:
  "handle_line P h r = joinSpace ((''level='' @ levelString (lr_Level r)) # (''msg='' @ log_quote P (lr_Message r)) #
     concat (map (attrFields P (sh_group h)) (sh_attrs h @ lr_Attrs r)))"
proof -
  have fold: "fold (\<lambda>a b. appendAttr P g a (b @ '' '')) as (joinSpace fs) = joinSpace (fs @ concat (map (attrFields P g) as))"
    if "fs \<noteq> []" for g as fs
    using that
  proof (induction as arbitrary: fs)
    case (Cons a as)
    have "appendAttr P g a (joinSpace fs @ '' '') = joinSpace (fs @ attrFields P g a)"
      using Cons.prems by (simp add: append_fields joinSpace_append attrFields_ne)
    then show ?case using Cons.IH [of "fs @ attrFields P g a"] Cons.prems by simp
  qed simp
  have "''level='' @ levelString (lr_Level r) @ '' msg='' @ log_quote P (lr_Message r) =
      joinSpace [''level='' @ levelString (lr_Level r), ''msg='' @ log_quote P (lr_Message r)]" by simp
  then show ?thesis unfolding handle_line_def by (simp only: fold list.distinct not_False_eq_True) simp
qed

section \<open>Texts that a reader takes as one field\<close>

definition atomic_field :: "string \<Rightarrow> bool" where
  "atomic_field f = (\<forall>acc rest. splitFields False acc (f @ rest) = splitFields False (rev f @ acc) rest)"

lemma splitFields_join: "list_all atomic_field fs \<Longrightarrow> fs \<noteq> [] \<Longrightarrow> splitFields False acc (joinSpace fs) = (rev acc @ hd fs) # tl fs"
proof (induction fs arbitrary: acc rule: joinSpace.induct)
  case (2 f)
  then have "splitFields False acc (f @ []) = splitFields False (rev f @ acc) []" by (simp add: atomic_field_def del: append_Nil2)
  then show ?case by simp
qed (simp_all add: atomic_field_def)

lemma atomic_append: "atomic_field f \<Longrightarrow> atomic_field g \<Longrightarrow> atomic_field (f @ g)"
  by (simp add: atomic_field_def)

lemma atomic_plain: "\<forall>c \<in> set f. c \<noteq> CHR '' '' \<and> c \<noteq> QUOTE \<Longrightarrow> atomic_field f"
  by (induction f) (auto simp: atomic_field_def)

text \<open>Inside quotes: characters other than a quote and a backslash pass, and so does a backslash with the character after it.\<close>

lemma inside_plain: "\<forall>c \<in> set f. c \<noteq> QUOTE \<and> c \<noteq> BS \<Longrightarrow> rest \<noteq> [] \<Longrightarrow> splitFields True acc (f @ rest) = splitFields True (rev f @ acc) rest"
proof (induction f arbitrary: acc)
  case (Cons c f)
  obtain d ds where d: "f @ rest = d # ds" using Cons.prems(2) by (cases "f @ rest") auto
  have "splitFields True acc ((c # f) @ rest) = splitFields True (c # acc) (f @ rest)" using Cons.prems(1) by (simp add: d)
  with Cons show ?case by simp
qed simp

lemma hexFixed_digits: "c \<in> set (hexFixed k n) \<Longrightarrow> c \<in> set hex_digits"
proof (induction k arbitrary: n)
  case (Suc k)
  have "n mod 16 < length hex_digits" by (simp add: hex_digits_def)
  with Suc show ?case by (auto simp del: nth_mem intro: nth_mem)
qed simp

lemma hex_digits_plain: "c \<in> set hex_digits \<Longrightarrow> c \<noteq> QUOTE \<and> c \<noteq> BS \<and> c \<noteq> NL \<and> c \<noteq> CR"
  by (auto simp: hex_digits_def)

lemma rune_high:
  assumes "runeLen s \<noteq> 1" and "c \<in> set (take (runeLen s) s)"
  shows "0x80 \<le> code c"
proof (cases s)
  case (Cons a r)
  let ?high = "\<lambda>xs. \<forall>x \<in> set xs. 0x80 \<le> code x"
  have a: "0x80 \<le> code a" using assms(1) Cons by (auto simp: runeLen_def Let_def split: if_splits)
  have "?high (take (runeLen (a # r)) (a # r))" if n: "\<not> (code a < 0xC2 \<or> code a > 0xF4)"
  proof -
    consider "code a < 0xE0" | "\<not> code a < 0xE0" "code a < 0xF0" | "\<not> code a < 0xE0" "\<not> code a < 0xF0" by blast
    then show ?thesis
    proof cases
      case 1
      then show ?thesis using n a by (cases r) (auto simp: runeLen_def cont_byte_def Let_def split: if_splits)
    next
      case 2
      then show ?thesis using n a by (cases r; cases "tl r") (auto simp: runeLen_def cont_byte_def Let_def split: if_splits)
    next
      case 3
      then show ?thesis using n a by (cases r; cases "tl r"; cases "tl (tl r)") (auto simp: runeLen_def cont_byte_def Let_def split: if_splits)
    qed
  qed
  moreover have "code a < 0xC2 \<or> code a > 0xF4 \<Longrightarrow> runeLen s = 1" unfolding Cons by (simp add: runeLen_def)
  ultimately show ?thesis using assms unfolding Cons by blast
qed (use assms in simp)

lemma high_plain: "0x80 \<le> code c \<Longrightarrow> c \<noteq> QUOTE \<and> c \<noteq> BS \<and> c \<noteq> NL \<and> c \<noteq> CR"
  by auto

lemma escapeRune_inside:
  assumes "s \<noteq> []" and "rest \<noteq> []"
  shows "splitFields True acc (escapeRune P s @ rest) = splitFields True (rev (escapeRune P s) @ acc) rest"
proof -
  have hex: "splitFields True acc' (hexFixed k n @ rest) = splitFields True (rev (hexFixed k n) @ acc') rest" for acc' k n
    using assms(2) hexFixed_digits hex_digits_plain by (intro inside_plain) blast+
  have esc: "splitFields True acc (BS # x # rest) = splitFields True (x # BS # acc) rest" for x by simp
  have one: "splitFields True acc (c # rest) = splitFields True (c # acc) rest" if "c \<noteq> QUOTE" "c \<noteq> BS" for c
    using that inside_plain [of "[c]" rest acc] assms(2) by simp
  show ?thesis
  proof (cases "runeLen s = 1")
    case True
    then show ?thesis by (auto simp: escapeRune_def Let_def hex esc one)
  next
    case False
    have "splitFields True acc (take (runeLen s) s @ rest) = splitFields True (rev (take (runeLen s) s) @ acc) rest"
      using rune_high [OF False] high_plain assms(2) by (intro inside_plain) blast+
    with False show ?thesis by (auto simp: escapeRune_def Let_def hex)
  qed
qed

lemma escapeRune_one_line: "s \<noteq> [] \<Longrightarrow> c \<in> set (escapeRune P s) \<Longrightarrow> c \<noteq> NL \<and> c \<noteq> CR"
  using rune_high [of s c] high_plain [of c] hexFixed_digits [of c] hex_digits_plain [of c]
  by (cases "runeLen s = 1") (auto simp: escapeRune_def Let_def split: if_splits)

lemma escapeRunes_inside: "rest \<noteq> [] \<Longrightarrow> splitFields True acc (escapeRunes P s @ rest) = splitFields True (rev (escapeRunes P s) @ acc) rest"
proof (induction P s arbitrary: acc rule: escapeRunes.induct)
  case (1 P s)
  show ?case
  proof (cases "s = []")
    case False
    have "splitFields True acc (escapeRunes P s @ rest) = splitFields True acc (escapeRune P s @ escapeRunes P (drop (runeLen s) s) @ rest)"
      using False by (subst escapeRunes.simps) simp
    also have "\<dots> = splitFields True (rev (escapeRunes P (drop (runeLen s) s)) @ rev (escapeRune P s) @ acc) rest"
      using 1 False escapeRune_inside [OF False] by simp
    finally show ?thesis using False by (subst (2) escapeRunes.simps) simp
  qed (simp add: escapeRunes.simps)
qed

lemma escapeRunes_one_line: "c \<in> set (escapeRunes P s) \<Longrightarrow> c \<noteq> NL \<and> c \<noteq> CR"
proof (induction P s rule: escapeRunes.induct)
  case (1 P s)
  then show ?case using escapeRune_one_line [of s c P] by (subst (asm) (2) escapeRunes.simps) (auto split: if_splits)
qed

lemma atomic_Quote: "atomic_field (strconv_Quote P s)"
proof -
  have "splitFields False acc (strconv_Quote P s @ rest) = splitFields True (rev (escapeRunes P s) @ QUOTE # acc) (QUOTE # rest)" for acc rest
    using escapeRunes_inside [of "QUOTE # rest" "QUOTE # acc" P s] by (simp add: strconv_Quote_def)
  moreover have "splitFields True a (QUOTE # rest) = splitFields False (QUOTE # a) rest" for a rest by (cases rest) simp_all
  ultimately show ?thesis by (simp add: atomic_field_def strconv_Quote_def)
qed

lemma log_quote_field: "atomic_field (log_quote P s) \<and> NL \<notin> set (log_quote P s) \<and> CR \<notin> set (log_quote P s)"
proof (cases "needsQuoting s")
  case True
  then show ?thesis using atomic_Quote [of P s] escapeRunes_one_line [of _ P s] by (auto simp: log_quote_def strconv_Quote_def)
next
  case False
  then have "\<forall>c \<in> set s. c \<noteq> CHR '' '' \<and> c \<noteq> QUOTE \<and> c \<noteq> NL \<and> c \<noteq> CR" by (auto simp: needsQuoting_def list_ex_iff split: if_splits)
  with False show ?thesis using atomic_plain [of s] by (auto simp: log_quote_def)
qed

section \<open>Properties\<close>

text \<open>The names that the program gives to attributes and groups: no space, quote or end of line.\<close>

definition plainKey :: "string \<Rightarrow> bool" where
  "plainKey k = list_all (\<lambda>c. c \<noteq> CHR '' '' \<and> c \<noteq> QUOTE \<and> c \<noteq> NL \<and> c \<noteq> CR) k"

fun plainAttr :: "attr \<Rightarrow> bool" where
  "plainAttr (Attr k v) = (plainKey k \<and> (case v of KindGroup as \<Rightarrow> list_all plainAttr as | _ \<Rightarrow> True))"

definition field_ok :: "string \<Rightarrow> bool" where
  "field_ok f = (atomic_field f \<and> NL \<notin> set f \<and> CR \<notin> set f)"

lemma field_ok_plain: "plainKey k \<Longrightarrow> field_ok k"
  using atomic_plain [of k] by (auto simp: field_ok_def plainKey_def list_all_iff)

lemma field_ok_append: "field_ok f \<Longrightarrow> field_ok g \<Longrightarrow> field_ok (f @ g)"
  by (simp add: field_ok_def atomic_append)

lemma field_ok_quote: "plainKey k \<Longrightarrow> field_ok (k @ log_quote P s)"
  by (rule field_ok_append [OF field_ok_plain]) (simp_all add: field_ok_def log_quote_field)

lemma plainKey_qualify: "plainKey grp \<Longrightarrow> plainKey k \<Longrightarrow> plainKey (qualify grp k)"
  by (simp add: qualify_def plainKey_def)

lemma attrFields_ok:
  "plainKey grp \<Longrightarrow> plainAttr a \<Longrightarrow> list_all field_ok (attrFields P grp a)"
  "plainKey grp \<Longrightarrow> list_all plainAttr as \<Longrightarrow> list_all field_ok (groupFields P grp as)"
proof (induction P grp a and P grp as rule: attrFields_groupFields.induct)
  case (1 P grp k v)
  have k: "plainKey (qualify grp k @ ''='')" using 1 plainKey_qualify [of grp k] by (simp add: plainKey_def)
  have "field_ok []" using field_ok_plain [of "[]"] by (simp add: plainKey_def)
  then show ?case using 1 field_ok_quote [OF k] plainKey_qualify [of grp k] by (cases v) auto
qed simp_all

lemma joinSpace_chars: "c \<in> set (joinSpace fs) \<Longrightarrow> c = CHR '' '' \<or> (\<exists>f \<in> set fs. c \<in> set f)"
  by (induction fs rule: joinSpace.induct) auto

text \<open>C34: nobody can forge a log entry: whatever the message and the values of a record are, the record is one line, and a reader who takes the line
  apart at the spaces outside quotes gets the level, the message and one field for each value, in order, with the names that the program gave
  them.\<close>

theorem log_fields_unforgeable:
  assumes "plainKey (sh_group h)" and "list_all plainAttr (sh_attrs h @ lr_Attrs r)" and "Handle P h r = (sev, line)"
  shows "NL \<notin> set line \<and> CR \<notin> set line \<and>
    splitFields False [] line = (''level='' @ levelString (lr_Level r)) # (''msg='' @ log_quote P (lr_Message r)) #
      concat (map (attrFields P (sh_group h)) (sh_attrs h @ lr_Attrs r))"
proof -
  let ?fs = "(''level='' @ levelString (lr_Level r)) # (''msg='' @ log_quote P (lr_Message r)) #
      concat (map (attrFields P (sh_group h)) (sh_attrs h @ lr_Attrs r))"
  have line: "line = joinSpace ?fs" using assms(3) by (simp add: Handle_def handle_fields)
  have "plainKey (''level='' @ levelString (lr_Level r))" by (simp add: plainKey_def levelString_def)
  then have level: "field_ok (''level='' @ levelString (lr_Level r))" by (rule field_ok_plain)
  have msg: "field_ok (''msg='' @ log_quote P (lr_Message r))" by (rule field_ok_quote) (simp add: plainKey_def)
  have "list_all field_ok (attrFields P (sh_group h) a)" if "a \<in> set (sh_attrs h @ lr_Attrs r)" for a
    using attrFields_ok(1) [OF assms(1)] assms(2) that unfolding list_all_iff by blast
  then have ok: "list_all field_ok ?fs" using level msg unfolding list_all_iff by (simp only: list.set set_concat set_map) blast
  then have "list_all atomic_field ?fs" unfolding list_all_iff field_ok_def by blast
  from splitFields_join [OF this, of "[]"] have "splitFields False [] line = ?fs" by (simp add: line)
  moreover have "NL \<notin> set line \<and> CR \<notin> set line"
    unfolding line using ok joinSpace_chars [of NL ?fs] joinSpace_chars [of CR ?fs] unfolding list_all_iff field_ok_def by blast
  ultimately show ?thesis by blast
qed

theorem log_fields_unforgeable_witness:
  "splitFields False [] (snd (Handle (\<lambda>_. True) \<lparr>sh_level = 0, sh_attrs = [], sh_group = []\<rparr>
       \<lparr>lr_Level = LevelWarn, lr_Message = ''drop unreachable'', lr_Attrs = [Attr ''node'' (KindString (''x'' @ [NL] @ ''level=ERROR''))]\<rparr>)) =
   [''level=WARN'', ''msg='' @ [QUOTE] @ ''drop unreachable'' @ [QUOTE], ''node='' @ [QUOTE] @ ''x'' @ [BS] @ ''nlevel=ERROR'' @ [QUOTE]]"
proof -
  have q: "log_quote (\<lambda>_. True) ''drop unreachable'' = [QUOTE] @ ''drop unreachable'' @ [QUOTE]"
    "log_quote (\<lambda>_. True) (''x'' @ [NL] @ ''level=ERROR'') = [QUOTE] @ ''x'' @ [BS] @ ''nlevel=ERROR'' @ [QUOTE]" by code_simp+
  show ?thesis
    using log_fields_unforgeable [of "\<lparr>sh_level = 0, sh_attrs = [], sh_group = []\<rparr>"
      "\<lparr>lr_Level = LevelWarn, lr_Message = ''drop unreachable'', lr_Attrs = [Attr ''node'' (KindString (''x'' @ [NL] @ ''level=ERROR''))]\<rparr>" "\<lambda>_. True"]
    by (simp add: plainKey_def q [simplified] qualify_def levelString_def LevelWarn_def LevelError_def Handle_def)
qed

text \<open>a group qualifies the attributes that the handler already has, not only those added after it.\<close>

theorem group_requalifies:
  "handle_line P (WithGroup ''g'' (WithAttrs [Attr ''a'' (KindOther ''1'')] \<lparr>sh_level = 0, sh_attrs = [], sh_group = []\<rparr>))
     \<lparr>lr_Level = LevelInfo, lr_Message = ''m'', lr_Attrs = [Attr ''b'' (KindOther ''2'')]\<rparr> = ''level=INFO msg=m g.a=1 g.b=2''"
  by (simp add: handle_line_def WithGroup_def WithAttrs_def qualify_def levelString_def LevelInfo_def LevelWarn_def LevelError_def
      log_quote_def needsQuoting_def)

end
