(* ===== verification/QrText.thy ===== *)
theory QrText
  imports Report
begin

text \<open>
  QR codes (\<open>src/internal/cli/qrconfig.go\<close>: \<open>qrPNG\<close> and \<open>emitQRTerminal\<close>). The QR library is a parameter: from the content it
  computes a code, which has a bitmap (dark modules are true, the quiet zone included) and a picture. In a terminal one line of
  text shows two rows of modules as half blocks. A machine that models the terminal, independent of the printer,
  says which half cells it shows dark and light.
\<close>

section \<open>Rendering\<close>

record 'q qrLib =
  ql_New :: "string \<Rightarrow> 'q res"
  ql_Bitmap :: "'q \<Rightarrow> bool list list"
  ql_PNG :: "'q \<Rightarrow> int \<Rightarrow> bytes res"

definition qrPNG :: "'q qrLib \<Rightarrow> string \<Rightarrow> int \<Rightarrow> bytes res" where
  "qrPNG Q content sz = bindR (ql_New Q content) (\<lambda>q. ql_PNG Q q sz)"

definition qrBlack :: nat where "qrBlack = 16"
definition qrWhite :: nat where "qrWhite = 231"

definition upperHalf :: string where "upperHalf = [CHR 0xE2, CHR 0x96, CHR 0x80]"
definition lowerHalf :: string where "lowerHalf = [CHR 0xE2, CHR 0x96, CHR 0x84]"
definition fullBlock :: string where "fullBlock = [CHR 0xE2, CHR 0x96, CHR 0x88]"

definition qrCell :: "bool \<Rightarrow> bool \<Rightarrow> bool \<Rightarrow> string" where
  "qrCell color upper lower =
     (if color then
        (let fg = (if upper then qrBlack else qrWhite); bg = (if lower then qrBlack else qrWhite)
         in ESC # ''[38;5;'' @ decimal fg @ '';48;5;'' @ decimal bg @ ''m'' @ upperHalf)
      else if upper \<and> lower then fullBlock
      else if upper then upperHalf
      else if lower then lowerHalf
      else '' '')"

definition qrEnd :: "bool \<Rightarrow> string" where
  "qrEnd color = (if color then ESC # ''[0m'' else []) @ [NL]"

definition qrLine :: "bool \<Rightarrow> bool list \<Rightarrow> bool list \<Rightarrow> string" where
  "qrLine color upper lower = concat (map (\<lambda>(t, b). qrCell color t b) (zip upper lower)) @ qrEnd color"

text \<open>\<open>None\<close> is the panic of an index out of range: a lower row that is shorter than the row above it. A last row without a lower
  one is shown over light modules.\<close>

fun qrLines :: "bool \<Rightarrow> bool list list \<Rightarrow> string option" where
  "qrLines color [] = Some []"
| "qrLines color [upper] = Some (qrLine color upper (replicate (length upper) False))"
| "qrLines color (upper # lower # rows) =
     (if length lower < length upper then None else map_option ((@) (qrLine color upper lower)) (qrLines color rows))"

text \<open>The text and the error of the call; \<open>write\<close> is the error of writing to the terminal.\<close>

definition emitQRTerminal :: "'q qrLib \<Rightarrow> error option \<Rightarrow> string \<Rightarrow> bool \<Rightarrow> (string \<times> error option) option" where
  "emitQRTerminal Q write content color =
     (case ql_New Q content of
        Inl e \<Rightarrow> Some ([], Some e)
      | Inr q \<Rightarrow> map_option (\<lambda>text. (text, write)) (qrLines color (ql_Bitmap Q q)))"

section \<open>The terminal\<close>

text \<open>
  What a terminal shows for a text, written down from the terminal's own conventions and not from the code above: a byte stream
  drives a small machine. A cell of the screen has an upper and a lower half, each painted in the default ink, on the default paper, or
  in a colour of the 256-colour palette. \<open>SGR\<close> sequences (\<open>ESC [ n ; ... m\<close>) select the colours (0 resets, \<open>38;5;n\<close> is the
  foreground, \<open>48;5;n\<close> the background). A space shows the background, and of the block elements (bytes \<open>E2 96 xx\<close> in UTF-8) U+2580 fills
  the upper half with the foreground, U+2584 the lower half and U+2588 both.
\<close>

datatype paint = Ink | Paper | Palette nat

datatype tmode = Ground | Escape | Params "nat list" nat | Utf2 | Utf3

record terminal =
  tm_mode :: tmode
  tm_fg :: paint
  tm_bg :: paint
  tm_line :: "(paint \<times> paint) list"
  tm_lines :: "(paint \<times> paint) list list"

definition terminal0 :: terminal where
  "terminal0 = \<lparr>tm_mode = Ground, tm_fg = Ink, tm_bg = Paper, tm_line = [], tm_lines = []\<rparr>"

fun sgr :: "nat list \<Rightarrow> terminal \<Rightarrow> terminal" where
  "sgr [] t = t"
| "sgr [p] t = (if p = 0 then t\<lparr>tm_fg := Ink, tm_bg := Paper\<rparr> else t)"
| "sgr [p, q] t = sgr [q] (sgr [p] t)"
| "sgr (p # q # n # ps) t =
     (if p = 38 \<and> q = 5 then sgr ps (t\<lparr>tm_fg := Palette n\<rparr>)
      else if p = 48 \<and> q = 5 then sgr ps (t\<lparr>tm_bg := Palette n\<rparr>)
      else sgr (q # n # ps) (sgr [p] t))"

definition putCell :: "paint \<Rightarrow> paint \<Rightarrow> terminal \<Rightarrow> terminal" where
  "putCell upper lower t = t\<lparr>tm_mode := Ground, tm_line := tm_line t @ [(upper, lower)]\<rparr>"

definition ground :: "char \<Rightarrow> terminal \<Rightarrow> terminal" where
  "ground c t =
     (if c = CHR 0x1B then t\<lparr>tm_mode := Escape\<rparr>
      else if c = CHR 0xE2 then t\<lparr>tm_mode := Utf2\<rparr>
      else if c = CHR 0x0A then t\<lparr>tm_line := [], tm_lines := tm_lines t @ [tm_line t]\<rparr>
      else if c = CHR 0x20 then putCell (tm_bg t) (tm_bg t) t
      else t)"

definition blockElement :: "char \<Rightarrow> terminal \<Rightarrow> terminal" where
  "blockElement c t =
     (if c = CHR 0x80 then putCell (tm_fg t) (tm_bg t) t
      else if c = CHR 0x84 then putCell (tm_bg t) (tm_fg t) t
      else if c = CHR 0x88 then putCell (tm_fg t) (tm_fg t) t
      else t\<lparr>tm_mode := Ground\<rparr>)"

definition term_step :: "terminal \<Rightarrow> char \<Rightarrow> terminal" where
  "term_step t c =
     (case tm_mode t of
        Ground \<Rightarrow> ground c t
      | Escape \<Rightarrow> t\<lparr>tm_mode := (if c = CHR ''['' then Params [] 0 else Ground)\<rparr>
      | Params ps n \<Rightarrow>
          (if is_digit c then t\<lparr>tm_mode := Params ps (10 * n + (code c - 48))\<rparr>
           else if c = CHR '';'' then t\<lparr>tm_mode := Params (ps @ [n]) 0\<rparr>
           else if c = CHR ''m'' then sgr (ps @ [n]) (t\<lparr>tm_mode := Ground\<rparr>)
           else t\<lparr>tm_mode := Ground\<rparr>)
      | Utf2 \<Rightarrow> t\<lparr>tm_mode := (if c = CHR 0x96 then Utf3 else Ground)\<rparr>
      | Utf3 \<Rightarrow> blockElement c t)"

definition shows_rows :: "string \<Rightarrow> paint list list" where
  "shows_rows text = concat (map (\<lambda>line. [map fst line, map snd line]) (tm_lines (foldl term_step terminal0 text)))"

text \<open>The colours of the palette's cube (indices 16 to 231) as red, green and blue, and what a scanner takes a half cell for: black or
  ink is a dark module, white or paper is a light one, and any other colour is neither.\<close>

definition level :: "nat \<Rightarrow> nat" where
  "level i = (if i = 0 then 0 else 55 + 40 * i)"

definition palette_rgb :: "nat \<Rightarrow> (nat \<times> nat \<times> nat) option" where
  "palette_rgb n =
     (if 16 \<le> n \<and> n \<le> 231
      then Some (level ((n - 16) div 36), level ((n - 16) div 6 mod 6), level ((n - 16) mod 6)) else None)"

fun scanned :: "paint \<Rightarrow> bool option" where
  "scanned Ink = Some True"
| "scanned Paper = Some False"
| "scanned (Palette n) =
     (if palette_rgb n = Some (0, 0, 0) then Some True
      else if palette_rgb n = Some (255, 255, 255) then Some False else None)"

text \<open>The rows that are to be shown: a light row is added to an odd number.\<close>

fun evenRows :: "bool list list \<Rightarrow> bool list list" where
  "evenRows [] = []"
| "evenRows [r] = [r, replicate (length r) False]"
| "evenRows (r # s # rows) = r # s # evenRows rows"

section \<open>Cells and lines\<close>

lemma decimal_colours: "decimal 16 = ''16''" "decimal 231 = ''231''"
  by code_simp+

lemma qrCell_text:
  "qrCell False True True = [CHR 0xE2, CHR 0x96, CHR 0x88]" "qrCell False True False = [CHR 0xE2, CHR 0x96, CHR 0x80]"
  "qrCell False False True = [CHR 0xE2, CHR 0x96, CHR 0x84]" "qrCell False False False = '' ''"
  "qrCell True t b = ESC # ''[38;5;'' @ (if t then ''16'' else ''231'') @ '';48;5;'' @ (if b then ''16'' else ''231'') @ ''m'' @ upperHalf"
  by (simp_all add: qrCell_def Let_def fullBlock_def upperHalf_def lowerHalf_def qrBlack_def qrWhite_def decimal_colours)

text \<open>Between cells the terminal is in the ground mode, and without colours it keeps the default ones.\<close>

definition ready :: "bool \<Rightarrow> terminal \<Rightarrow> bool" where
  "ready color t \<longleftrightarrow> tm_mode t = Ground \<and> (\<not> color \<longrightarrow> tm_fg t = Ink \<and> tm_bg t = Paper)"

definition painted :: "bool \<Rightarrow> bool \<Rightarrow> paint" where
  "painted color dark = (if color then Palette (if dark then 16 else 231) else if dark then Ink else Paper)"

lemma scanned_painted [simp]: "scanned (painted color dark) = Some dark"
  by (simp add: painted_def palette_rgb_def level_def)

lemmas term_simps = term_step_def ground_def blockElement_def putCell_def is_digit_def

lemma term_cell:
  fixes upper lower :: bool
  assumes "ready color t"
  defines "t' \<equiv> foldl term_step t (qrCell color upper lower)"
  shows "ready color t'" "tm_lines t' = tm_lines t"
    "tm_line t' = tm_line t @ [(painted color upper, painted color lower)]"
  using assms(1) unfolding t'_def
  by (cases color; cases upper; cases lower;
      simp add: qrCell_text upperHalf_def ESC_def term_simps ready_def painted_def)+

lemma term_cells:
  "ready color t \<Longrightarrow>
     (let t' = foldl term_step t (concat (map (\<lambda>(a, b). qrCell color a b) cells)) in
       ready color t' \<and> tm_lines t' = tm_lines t \<and>
       tm_line t' = tm_line t @ map (map_prod (painted color) (painted color)) cells)"
proof (induction cells arbitrary: t)
  case (Cons c cells)
  obtain a b where c: "c = (a, b)" by (cases c)
  show ?case
    using Cons.IH [OF term_cell(1) [OF Cons.prems, of a b]] term_cell(2,3) [OF Cons.prems, of a b]
    by (simp add: c Let_def)
qed simp

lemma term_line:
  assumes r: "ready color t" and l: "tm_line t = []" and len: "length upper = length lower"
  defines "t' \<equiv> foldl term_step t (qrLine color upper lower)"
  shows "ready color t'" "tm_line t' = []"
    "tm_lines t' = tm_lines t @ [map (map_prod (painted color) (painted color)) (zip upper lower)]"
proof -
  let ?u = "foldl term_step t (concat (map (\<lambda>(a, b). qrCell color a b) (zip upper lower)))"
  have u: "ready color ?u" "tm_lines ?u = tm_lines t"
    "tm_line ?u = map (map_prod (painted color) (painted color)) (zip upper lower)"
    using term_cells [OF r, of "zip upper lower"] l by (simp_all add: Let_def)
  have t': "t' = foldl term_step ?u (qrEnd color)" by (simp add: t'_def qrLine_def)
  show "ready color t'" "tm_line t' = []"
    "tm_lines t' = tm_lines t @ [map (map_prod (painted color) (painted color)) (zip upper lower)]"
    using u unfolding t' by (cases color; simp add: qrEnd_def ESC_def term_simps ready_def)+
qed

text \<open>The rows of a list of lines.\<close>

definition rows_of :: "(paint \<times> paint) list list \<Rightarrow> paint list list" where
  "rows_of ls = concat (map (\<lambda>line. [map fst line, map snd line]) ls)"

lemma rows_of_line:
  "length upper = length lower \<Longrightarrow>
     rows_of [map (map_prod f f) (zip upper lower)] = [map f upper, map f lower]"
  by (induction upper lower rule: list_induct2) (simp_all add: rows_of_def)

lemma qrLines_shown:
  assumes "list_all (\<lambda>r. length r = w) rows" and "ready color t" and "tm_line t = []"
  shows "\<exists>text. qrLines color rows = Some text \<and>
    rows_of (tm_lines (foldl term_step t text)) = rows_of (tm_lines t) @ map (map (painted color)) (evenRows rows)"
  using assms
proof (induction color rows arbitrary: t rule: qrLines.induct)
  case (1 color)
  then show ?case by simp
next
  case (2 color upper)
  have len: "length upper = length (replicate (length upper) False)" by simp
  show ?case
    using term_line [OF 2(2,3) len] rows_of_line [OF len, of "painted color"] by (simp add: rows_of_def)
next
  case (3 color upper lower rows)
  have len: "length upper = length lower" using 3(2) by simp
  let ?t = "foldl term_step t (qrLine color upper lower)"
  note line = term_line [OF 3(3,4) len]
  obtain out where "qrLines color rows = Some out"
    "rows_of (tm_lines (foldl term_step ?t out)) = rows_of (tm_lines ?t) @ map (map (painted color)) (evenRows rows)"
    using 3(1) [OF _ _ line(1,2)] 3(2) len by auto
  with line(3) len rows_of_line [OF len, of "painted color"] show ?case by (simp add: rows_of_def)
qed

section \<open>Properties\<close>

text \<open>C36: the QR code in the terminal is the QR code: for every rectangular bitmap that the library computes, in colour and in plain text,
  rendering does not fail, and the half cells that a terminal then shows are, row by row, the modules of the bitmap: a dark module
  is black (in plain text, ink) and a light one white (paper), with a light row below an odd number of rows.\<close>

theorem qr_terminal_readable:
  assumes "ql_New Q content = Inr q" and "list_all (\<lambda>r. length r = w) (ql_Bitmap Q q)"
  shows "\<exists>text. emitQRTerminal Q None content color = Some (text, None) \<and>
    map (map scanned) (shows_rows text) = map (map Some) (evenRows (ql_Bitmap Q q))"
proof -
  have "ready color terminal0" "tm_line terminal0 = []" "rows_of (tm_lines terminal0) = []"
    by (simp_all add: ready_def terminal0_def rows_of_def)
  then obtain out where t: "qrLines color (ql_Bitmap Q q) = Some out"
    "shows_rows out = map (map (painted color)) (evenRows (ql_Bitmap Q q))"
    using qrLines_shown [OF assms(2), of color terminal0] by (auto simp: shows_rows_def rows_of_def)
  then have "map (map scanned) (shows_rows out) = map (map Some) (evenRows (ql_Bitmap Q q))"
    by (simp add: comp_def)
  with t(1) assms(1) show ?thesis by (simp add: emitQRTerminal_def)
qed

theorem qr_terminal_readable_witness:
  "\<exists>text. emitQRTerminal \<lparr>ql_New = (\<lambda>_. Inr [[True, False], [True, True], [False, True]]), ql_Bitmap = (\<lambda>b. b), ql_PNG = (\<lambda>_ _. Inr [])\<rparr> None ''x'' True =
       Some (text, None) \<and>
     map (map scanned) (shows_rows text) =
       [[Some True, Some False], [Some True, Some True], [Some False, Some True], [Some False, Some False]]"
  using qr_terminal_readable [of "\<lparr>ql_New = (\<lambda>_. Inr [[True, False], [True, True], [False, True]]), ql_Bitmap = (\<lambda>b. b), ql_PNG = (\<lambda>_ _. Inr [])\<rparr>"
      "''x''" "[[True, False], [True, True], [False, True]]" 2 True]
  by simp

end
