(* ===== verification/Spec2Isabelle.thy ===== *)
theory Spec2Isabelle
  imports Diff Relay DnsClients Up Logging QrText
begin

text \<open>
  A verification development for tincan, a coordinator for WireGuard networks without a control plane.

  \<^bold>\<open>The program.\<close> An admin keeps a \<^emph>\<open>directory\<close> of the members of a network (names, WireGuard keys, tunnel addresses, endpoints),
  seals it (signed by the admin, encrypted to the members) and publishes it to a \<^emph>\<open>dead drop\<close>: a file, an HTTP server, an S3 bucket, TXT
  records at a DNS provider, or Nostr relays. Members fetch it, check it, keep it in a state directory together with a mark of the highest serial, and
  configure their WireGuard interface from it. A daemon repeats this, decides which peers need the relay, learns endpoints from beacons on
  the LAN, observes the endpoints of peers for the admin, writes a block of a hosts file, and on a hub serves DNS for plain WireGuard clients.

  \<^bold>\<open>Conventions.\<close> A Go function is a HOL function of the same name; a method that changes its receiver returns the new receiver. Errors
  are values of one datatype \<open>error\<close> and a fallible result is a sum \<open>error + 'a\<close>, so that every early return of the code is a branch of the
  model. Strings and byte slices are lists of bytes. Fixed-width integers are words where they can wrap (serials, ports, nonces, the bech32 checksum, addresses)
  and \<open>int\<close> where the code keeps them in range; times and durations are integers of nanoseconds, with the saturation of \<open>time.Sub\<close>. Go maps are association lists or partial
  functions. Goroutines and processes are event machines or step relations over their shared state: one event is one step of one of them, so
  that every interleaving is a list of events or a path of steps.

  \<^bold>\<open>Base.\<close> \<open>Prelude\<close> (errors, results, time, event machines), \<open>GoStrings\<close>, \<open>Encoding\<close> (base64, hex), \<open>GoNet\<close> (addresses and prefixes), \<open>GoUrl\<close>:
  the parts of Go's library that the program calls, with their round trips.

  \<^bold>\<open>Directory.\<close> \<open>Keys\<close> (\<open>src/internal/keys\<close>), \<open>Directory\<close> (\<open>directory.go\<close>, \<open>ipalloc.go\<close>, \<open>dnsname.go\<close>, \<open>serial.go\<close>, the validation), \<open>Codec\<close> (\<open>codec.go\<close>:
  wire form, \<open>Seal\<close>, \<open>Open\<close>), \<open>Diff\<close> (\<open>diff.go\<close>). Validation is characterised exactly; marshalling and sealing round trip for every member;
  what opens was signed by the admin; a removed member cannot open.

  \<^bold>\<open>State.\<close> \<open>Cache\<close> (\<open>src/internal/cache\<close>): the files of the state directory, with a fault possible at every write. The serial marks never go
  down, and the cached directory is never ahead of its mark, whatever fails in between. \<open>Settings\<close> and \<open>Config\<close> (\<open>src/internal/config\<close>): schema, defaults, validation, loading and saving.

  \<^bold>\<open>Drops.\<close> \<open>Drops\<close> (\<open>file.go\<close>, \<open>http.go\<close>, \<open>s3.go\<close>, \<open>drop.go\<close> of \<open>src/internal/drop\<close>), \<open>DropDns\<close> (\<open>dns.go\<close>), \<open>DropNostr\<close> (\<open>nostr.go\<close>), over \<open>Nostr\<close> and \<open>Bech32\<close>
  (\<open>src/internal/nostr\<close>) and \<open>Providers\<close>, \<open>DnsApi\<close>, \<open>DnsRRset\<close>, \<open>DnsClients\<close> (\<open>src/internal/dnsprovider\<close>, seven providers). What is put is
  what is read back, also through the HTTP requests of the providers and for relays that answer in any order; foreign records survive; paged listings end and are complete;
  requests stay at the address of the API; a read is bounded whatever the drop serves.

  \<^bold>\<open>Commands.\<close> \<open>Admin\<close> (\<open>src/internal/bootstrap\<close>, \<open>helpers.go\<close>, \<open>sync.go\<close>, \<open>publish.go\<close>, \<open>removenode.go\<close>, \<open>setdomain.go\<close>) and \<open>Enroll\<close> (\<open>addnode.go\<close>, \<open>rendernode.go\<close>, \<open>qrconfig.go\<close>,
  \<open>init.go\<close>, \<open>join.go\<close>) run on a \<open>world\<close>: the disk, the drop and the files written elsewhere. A synchronisation refines an abstract member that accepts only signed directories not below
  its mark; what the admin published is what a member gets; enrolment works from \<open>init\<close> to the member's first synchronisation.

  \<^bold>\<open>Network.\<close> \<open>Relay\<close> (\<open>src/internal/relay\<close>), \<open>WgPeers\<close> (\<open>src/internal/wg\<close>), \<open>Observe\<close> (\<open>src/internal/admin\<close>), \<open>Discovery\<close> and \<open>Lan\<close> (\<open>src/internal/discovery\<close>: the store and
  the filters; the goroutines, sockets and memberships). After \<open>Apply\<close> the kernel routes every member to itself or to the relay, and endpoints that work are left alone; relayed peers do
  not flap; beacons and learned endpoints stay on the LAN over any run of the goroutines; a failed start leaves nothing running.

  \<^bold>\<open>Names.\<close> \<open>Hosts\<close> (\<open>src/internal/hosts\<close>) and \<open>DnsServe\<close> (\<open>src/internal/dnsserve\<close>): a rewrite keeps every byte outside the block; DNS and hosts file agree; VPN names are never
  forwarded; a forwarded query is answered.

  \<^bold>\<open>Daemon.\<close> \<open>Pidfile\<close> (\<open>src/internal/daemon\<close>), \<open>Daemon\<close> (\<open>up.go\<close>, \<open>hosts_sync.go\<close>, \<open>dns_server.go\<close>, \<open>down.go\<close>, \<open>network_watch.go\<close>, \<open>admin_preflight.go\<close>) and \<open>Up\<close>
  (the dispatch of \<open>up\<close>, the watcher, \<open>root.go\<close>, \<open>src/internal/version\<close>). An iteration composes the components above on a \<open>machine\<close>: the world, the kernel and the hosts files.
  Serials handed to the drop increase over every run of commands and iterations; hosts entries follow the kernel; an endpoint that the daemon pushed
  itself is never published as an observation; the wait ends; at most one daemon runs.

  \<^bold>\<open>Output.\<close> \<open>Report\<close> (\<open>ui.go\<close>), \<open>Status\<close> (\<open>status.go\<close>, \<open>status_network.go\<close>, \<open>listnodes.go\<close>), \<open>QrText\<close> (the QR code in the terminal) and \<open>Logging\<close> (\<open>src/internal/logging\<close>): columns are aligned,
  the report says how traffic is routed, the printed code reads back as its bitmap, and values cannot forge fields or lines of the log.

  \<^bold>\<open>Interfaces.\<close> \<open>roundtrip\<close> (encoder and decoder; the base64, hex, integer and address codecs), \<open>event_machine\<close> and \<open>monotone_machine\<close> (an invariant, or a mark that
  no event lowers; the state directory, the store, the sender, the discovery machine, the relay decision, the DNS server), \<open>dead_drop\<close> (the last successful put is what is read; the DNS, file and S3 drops),
  \<open>self_delimiting\<close> (printers whose outputs can be told apart in a sequence; JSON strings and arrays, for the identity of a Nostr event), \<open>paged_listing\<close> (four providers). Each is interpreted on
  the model's definitions in the theory that has them.

  \<^bold>\<open>Loops.\<close> Loops that end by their data are \<open>function\<close>s with a measure: the length of the rest of a text, the frames left in a connection, the addresses left to try. Loops that end because of
  the clock or the outside are \<open>partial_function\<close>s into options, where \<open>None\<close> is a loop that does not end: \<open>exchange_loop\<close>, \<open>acquire_loop\<close>, \<open>stop_loop\<close>, \<open>wait_loop\<close>, \<open>page_loop\<close>; each is
  proved to end from the progress of the clock, from a read that fails at the deadline, or from the finite listing. \<open>runDaemonLoop\<close> may run forever. There is no fuel, except the number of
  lines that a reader of a printed QR code looks for.

  \<^bold>\<open>Parameters.\<close> Code that is not in the repository is an argument, with what is assumed of it as a named predicate: the WireGuard, age, Ed25519 and secp256k1 primitives and the hash functions
  (\<open>wglib_ok\<close>, \<open>agelib_ok\<close>, \<open>edlib_ok\<close> and others, each with a concrete instance for the witnesses), msgpack, TOML, JSON and XML, the HTTP transport, the S3
  client, the relays, the DNS message codec, netlink and wgctrl, the QR library, the parser of the command line. So is what the system answers: which call fails, what a socket delivers, the clock, randomness,
  the locks and processes, the texts of errors and of points in time.

  \<^bold>\<open>Not modelled.\<close> \<open>src/cmd/tincan/main.go\<close> (a call of \<open>Main\<close>), \<open>src/test/fakedrop\<close> (a server for the tests), dialling and closing of WebSockets, the deadlines of contexts (a call that times out is a call that fails), the lines that
  commands print while they work, log statements inside the commands, and the grammar of the command line, which is tags for a library. Case mapping and white space are those of ASCII. A \<open>select\<close> over several ready channels is any order of the events.
\<close>

end
